(* ===== verification/Apierr.thy ===== *)
theory Apierr
  imports Prelude
begin

text \<open>
  \<^verbatim>\<open>internal/apierr/error.go\<close>: the canonical error type, its mapping onto an
  Anthropic error envelope and an HTTP status, and the coercion of an arbitrary
  Go error into it.

  A Go \<^verbatim>\<open>error\<close> value is a \<open>go_error\<close>: an \<^verbatim>\<open>*apierr.Error\<close> with its cause, a
  package-level sentinel (compared by identity, so by its text), an error made by
  \<^verbatim>\<open>fmt.Errorf\<close> with \<open>%w\<close>, or any other error. A nil error is \<^const>\<open>None\<close>.
\<close>

section \<open>Errors\<close>

datatype go_error =
    ApiError (ae_type: string) (ae_message: string) (ae_status: int) (ae_cause: "go_error option")
  | Sentinel string
  | Wrapped string go_error
  | PlainError string

definition TypeInvalidRequest :: string where "TypeInvalidRequest = ''invalid_request_error''"
definition TypeAuthentication :: string where "TypeAuthentication = ''authentication_error''"
definition TypeBilling :: string where "TypeBilling = ''billing_error''"
definition TypePermission :: string where "TypePermission = ''permission_error''"
definition TypeNotFound :: string where "TypeNotFound = ''not_found_error''"
definition TypeConflict :: string where "TypeConflict = ''conflict_error''"
definition TypeRequestTooLarge :: string where "TypeRequestTooLarge = ''request_too_large''"
definition TypeRateLimit :: string where "TypeRateLimit = ''rate_limit_error''"
definition TypeAPI :: string where "TypeAPI = ''api_error''"
definition TypeOverloaded :: string where "TypeOverloaded = ''overloaded_error''"
definition TypeTimeout :: string where "TypeTimeout = ''timeout_error''"

lemmas error_type_defs =
  TypeInvalidRequest_def TypeAuthentication_def TypeBilling_def TypePermission_def
  TypeNotFound_def TypeConflict_def TypeRequestTooLarge_def TypeRateLimit_def
  TypeAPI_def TypeOverloaded_def TypeTimeout_def

definition error_types :: "string list" where
  "error_types = [TypeInvalidRequest, TypeAuthentication, TypeBilling, TypePermission,
     TypeNotFound, TypeConflict, TypeRequestTooLarge, TypeRateLimit, TypeAPI,
     TypeOverloaded, TypeTimeout]"

text \<open>\<^verbatim>\<open>Error()\<close>: the text of an error.\<close>

fun error_text :: "go_error \<Rightarrow> string" where
  "error_text (ApiError ty msg st cause) =
     (case cause of
        Some e \<Rightarrow> ty @ '': '' @ msg @ '': '' @ error_text e
      | None \<Rightarrow> ty @ '': '' @ msg)"
| "error_text (Sentinel s) = s"
| "error_text (Wrapped s e) = s"
| "error_text (PlainError s) = s"

text \<open>\<^verbatim>\<open>Unwrap\<close>, and \<^verbatim>\<open>errors.Is\<close> against a sentinel.\<close>

fun unwrap :: "go_error \<Rightarrow> go_error option" where
  "unwrap (ApiError ty msg st cause) = cause"
| "unwrap (Wrapped s e) = Some e"
| "unwrap _ = None"

fun error_is :: "go_error \<Rightarrow> go_error \<Rightarrow> bool" where
  "error_is (ApiError ty msg st cause) target =
     (ApiError ty msg st cause = target \<or> (case cause of Some e \<Rightarrow> error_is e target | None \<Rightarrow> False))"
| "error_is (Wrapped s e) target = (Wrapped s e = target \<or> error_is e target)"
| "error_is e target = (e = target)"

section \<open>Status codes\<close>

definition status_for :: "string \<Rightarrow> int" where
  "status_for ty =
     (if ty = TypeInvalidRequest then 400
      else if ty = TypeAuthentication then 401
      else if ty = TypeBilling then 402
      else if ty = TypePermission then 403
      else if ty = TypeNotFound then 404
      else if ty = TypeConflict then 409
      else if ty = TypeRequestTooLarge then 413
      else if ty = TypeRateLimit then 429
      else if ty = TypeTimeout then 504
      else if ty = TypeOverloaded then 529
      else if ty = TypeAPI then 500
      else 500)"

definition type_for_status :: "int \<Rightarrow> string" where
  "type_for_status st =
     (if st = 400 then TypeInvalidRequest
      else if st = 401 then TypeAuthentication
      else if st = 402 then TypeBilling
      else if st = 403 then TypePermission
      else if st = 404 then TypeNotFound
      else if st = 409 then TypeConflict
      else if st = 413 then TypeRequestTooLarge
      else if st = 429 then TypeRateLimit
      else if st = 504 \<or> st = 408 then TypeTimeout
      else if st = 529 \<or> st = 503 then TypeOverloaded
      else TypeAPI)"

section \<open>Constructors\<close>

definition new_error :: "string \<Rightarrow> string \<Rightarrow> go_error" where
  "new_error ty msg = ApiError ty msg 0 None"

definition wrap_error :: "go_error \<Rightarrow> string \<Rightarrow> string \<Rightarrow> go_error" where
  "wrap_error e ty msg = ApiError ty msg 0 (Some e)"

definition with_status :: "int \<Rightarrow> string \<Rightarrow> string \<Rightarrow> go_error" where
  "with_status st ty msg = ApiError ty msg st None"

section \<open>Rendering\<close>

text \<open>\<^verbatim>\<open>HTTPStatus\<close> and \<^verbatim>\<open>Envelope\<close> accept a nil receiver.\<close>

fun http_status :: "go_error option \<Rightarrow> int" where
  "http_status (Some (ApiError ty msg st cause)) = (if 0 < st then st else status_for ty)"
| "http_status _ = 500"

record error_body =
  eb_type :: string
  eb_message :: string

fun envelope :: "go_error option \<Rightarrow> error_body" where
  "envelope (Some (ApiError ty msg st cause)) =
     \<lparr>eb_type = (if ty = [] then TypeAPI else ty), eb_message = msg\<rparr>"
| "envelope _ = \<lparr>eb_type = TypeAPI, eb_message = ''internal error''\<rparr>"

text \<open>
  \<^verbatim>\<open>From\<close>: the first \<^verbatim>\<open>*Error\<close> in the chain of causes (\<^verbatim>\<open>errors.As\<close>), else the
  error wrapped as \<^verbatim>\<open>api_error\<close>.
\<close>

fun as_api_error :: "go_error \<Rightarrow> go_error option" where
  "as_api_error (ApiError ty msg st cause) = Some (ApiError ty msg st cause)"
| "as_api_error (Wrapped s e) = as_api_error e"
| "as_api_error _ = None"

definition from_error :: "go_error option \<Rightarrow> go_error option" where
  "from_error err =
     (case err of
        None \<Rightarrow> None
      | Some e \<Rightarrow>
          (case as_api_error e of
             Some ae \<Rightarrow> Some ae
           | None \<Rightarrow> Some (wrap_error e TypeAPI (error_text e))))"

text \<open>
  \<^verbatim>\<open>Render\<close> and \<^verbatim>\<open>Write\<close>: the response they send. \<open>marshal\<close> is \<^verbatim>\<open>json.Marshal\<close> on the
  envelope, which cannot fail on two strings.
\<close>

record http_response =
  hr_status :: int
  hr_headers :: "(string \<times> string) list"
  hr_body :: string

definition render_error ::
  "(error_body \<Rightarrow> string) \<Rightarrow> go_error option \<Rightarrow> int \<Rightarrow> http_response" where
  "render_error marshal e st =
     \<lparr>hr_status = (if st \<le> 0 then http_status e else st),
      hr_headers = [(''Content-Type'', ''application/json''),
                    (''X-Content-Type-Options'', ''nosniff'')],
      hr_body = marshal (envelope e) @ [CHR 0x0A]\<rparr>"

definition write_error :: "(error_body \<Rightarrow> string) \<Rightarrow> go_error option \<Rightarrow> http_response" where
  "write_error marshal err =
     render_error marshal
       (case from_error err of
          None \<Rightarrow> Some (new_error TypeAPI ''internal error'')
        | Some ae \<Rightarrow> Some ae) 0"

section \<open>Lemmas\<close>

lemma as_api_error_is_api: "as_api_error e = Some ae \<Longrightarrow> \<exists>ty msg st c. ae = ApiError ty msg st c"
  by (induction e) auto

lemma from_error_is_api: "from_error (Some e) = Some ae \<Longrightarrow> \<exists>ty msg st c. ae = ApiError ty msg st c"
  by (auto simp: from_error_def wrap_error_def dest: as_api_error_is_api split: option.splits)

lemma as_api_error_sound: "as_api_error e = Some ae \<Longrightarrow> error_is e ae"
  by (induction e) auto

text \<open>
  The error type and the HTTP status determine each other on the published
  taxonomy, so an upstream status mapped to a type and rendered again is the
  status the taxonomy assigns to it.
\<close>

theorem type_status_roundtrip:
  "list_all (\<lambda>ty. type_for_status (status_for ty) = ty \<and> 400 \<le> status_for ty \<and> status_for ty < 600)
     error_types"
  by (simp add: error_types_def type_for_status_def status_for_def error_type_defs)

lemma status_for_range: "400 \<le> status_for ty \<and> status_for ty < 600"
  by (simp add: status_for_def)

text \<open>
  Property (C8): whatever error a handler returns, what \<^verbatim>\<open>Write\<close> sends is an Anthropic
  envelope with a non-empty type, and the status of an error that pins none is a
  4xx or 5xx code; an error that already carries an \<^verbatim>\<open>*Error\<close> anywhere in its
  chain keeps that error's type and message.
\<close>

theorem write_error_correct:
  "write_error marshal err =
     (case err of
        None \<Rightarrow> render_error marshal (Some (ApiError TypeAPI ''internal error'' 0 None)) 0
      | Some e \<Rightarrow>
          (case as_api_error e of
             Some ae \<Rightarrow>
               \<lparr>hr_status = (if 0 < ae_status ae then ae_status ae else status_for (ae_type ae)),
                hr_headers = [(''Content-Type'', ''application/json''),
                              (''X-Content-Type-Options'', ''nosniff'')],
                hr_body = marshal \<lparr>eb_type = (if ae_type ae = [] then TypeAPI else ae_type ae),
                                   eb_message = ae_message ae\<rparr> @ [CHR 0x0A]\<rparr>
           | None \<Rightarrow>
               \<lparr>hr_status = 500,
                hr_headers = [(''Content-Type'', ''application/json''),
                              (''X-Content-Type-Options'', ''nosniff'')],
                hr_body = marshal \<lparr>eb_type = TypeAPI, eb_message = error_text e\<rparr> @ [CHR 0x0A]\<rparr>))"
  by (auto simp: write_error_def from_error_def render_error_def new_error_def wrap_error_def
      status_for_def error_type_defs dest: as_api_error_is_api split: option.splits)

end
