(* ===== verification/Sink.thy ===== *)
theory Sink
  imports Prelude Apierr
begin

text \<open>
  The semantic Anthropic stream events of \<^verbatim>\<open>internal/translate/stream/sink.go\<close> and
  the schema types they carry (\<^verbatim>\<open>internal/anthropic/schema\<close>). A sink is a function
  of the calls made so far and the next call, and returns the error of that call,
  if any: every deterministic implementation of the Go interface \<^verbatim>\<open>Sink\<close> is one,
  since its state is determined by the calls it has received.

  The comment on the interface promises a call order: one \<^verbatim>\<open>MessageStart\<close> first,
  each \<^verbatim>\<open>BlockStart\<close> matched by a \<^verbatim>\<open>BlockStop\<close> before any terminus, and an end in
  exactly one of \<^verbatim>\<open>MessageStop\<close> and \<^verbatim>\<open>Error\<close>, or in nothing. The monitor \<open>sink_phase\<close>
  is that grammar as an automaton, and the locale \<open>lawful_sink\<close> is what a provider
  owes to a client that keeps to it.
\<close>

section \<open>Schema types\<close>

datatype block_type = BlockText | BlockThinking | BlockToolUse | BlockOther string

datatype delta_type =
  DeltaText | DeltaInputJSON | DeltaThinking | DeltaSignature | DeltaOther string

record delta =
  d_type :: delta_type
  d_text :: string
  d_partial_json :: string
  d_thinking :: string
  d_signature :: string

definition text_delta :: "string \<Rightarrow> delta" where
  "text_delta s = \<lparr>d_type = DeltaText, d_text = s, d_partial_json = [], d_thinking = [], d_signature = []\<rparr>"

definition json_delta :: "string \<Rightarrow> delta" where
  "json_delta s = \<lparr>d_type = DeltaInputJSON, d_text = [], d_partial_json = s, d_thinking = [], d_signature = []\<rparr>"

definition thinking_delta :: "string \<Rightarrow> delta" where
  "thinking_delta s = \<lparr>d_type = DeltaThinking, d_text = [], d_partial_json = [], d_thinking = s, d_signature = []\<rparr>"

definition signature_delta :: "string \<Rightarrow> delta" where
  "signature_delta s = \<lparr>d_type = DeltaSignature, d_text = [], d_partial_json = [], d_thinking = [], d_signature = s\<rparr>"

lemmas delta_defs = text_delta_def json_delta_def thinking_delta_def signature_delta_def

record content_block =
  cb_type :: block_type
  cb_text :: string
  cb_thinking :: string
  cb_signature :: string
  cb_id :: string
  cb_name :: string
  cb_input :: string

definition empty_block :: "block_type \<Rightarrow> content_block" where
  "empty_block ty = \<lparr>cb_type = ty, cb_text = [], cb_thinking = [], cb_signature = [],
                     cb_id = [], cb_name = [], cb_input = []\<rparr>"

record usage =
  u_input :: int
  u_output :: int
  u_cache_creation :: int
  u_cache_read :: int

definition zero_usage :: usage where
  "zero_usage = \<lparr>u_input = 0, u_output = 0, u_cache_creation = 0, u_cache_read = 0\<rparr>"

text \<open>\<^verbatim>\<open>promptTokens\<close>: the whole prompt under Anthropic semantics.\<close>

definition prompt_tokens :: "usage \<Rightarrow> int" where
  "prompt_tokens u = i64 (i64 (u_input u + u_cache_read u) + u_cache_creation u)"

datatype stop_reason = StopNone | StopEndTurn | StopToolUse | StopMaxTokens

section \<open>Sink calls\<close>

datatype sink_call =
    MessageStart string string int
  | BlockStart int content_block
  | BlockDelta int delta
  | BlockStop int
  | MessageDelta stop_reason usage
  | MessageStop
  | SinkError error_body
  | Ping

type_synonym sink = "sink_call list \<Rightarrow> sink_call \<Rightarrow> go_error option"

text \<open>The sentinel of a stream that closed before its first event, shared by both sides.\<close>

definition ErrNoData :: go_error where
  "ErrNoData = Sentinel ''utraque/stream: upstream closed before any event''"

section \<open>The grammar of a stream\<close>

datatype phase =
    Idle              \<comment> \<open>nothing emitted\<close>
  | Between int       \<comment> \<open>started, no block open, the next block index\<close>
  | Open int          \<comment> \<open>the block of this index is open\<close>
  | Tail              \<comment> \<open>message_delta emitted\<close>
  | Done              \<comment> \<open>message_stop emitted\<close>
  | Failed            \<comment> \<open>an error frame emitted\<close>
  | Bad               \<comment> \<open>the grammar is violated\<close>

text \<open>A delta that a sink can fold: of one of the four types of the protocol.\<close>

definition known_delta :: "delta \<Rightarrow> bool" where
  "known_delta d = (case d_type d of DeltaOther _ \<Rightarrow> False | _ \<Rightarrow> True)"

lemma known_delta_simps [simp]:
  "known_delta (text_delta s)" "known_delta (json_delta s)"
  "known_delta (thinking_delta s)" "known_delta (signature_delta s)"
  by (simp_all add: known_delta_def delta_defs)

fun phase_step :: "phase \<Rightarrow> sink_call \<Rightarrow> phase" where
  "phase_step Idle (MessageStart i m n) = Between 0"
| "phase_step (Between n) (BlockStart i b) = (if i = n then Open n else Bad)"
| "phase_step (Between n) (MessageDelta r u) = Tail"
| "phase_step (Between n) (SinkError e) = Failed"
| "phase_step (Between n) Ping = Between n"
| "phase_step (Open n) (BlockDelta i d) = (if i = n \<and> known_delta d then Open n else Bad)"
| "phase_step (Open n) (BlockStop i) = (if i = n then Between (n + 1) else Bad)"
| "phase_step (Open n) Ping = Open n"
| "phase_step Tail MessageStop = Done"
| "phase_step _ _ = Bad"

definition sink_phase :: "sink_call list \<Rightarrow> phase" where
  "sink_phase cs = foldl phase_step Idle cs"

definition well_formed :: "sink_call list \<Rightarrow> bool" where
  "well_formed cs \<longleftrightarrow> sink_phase cs \<noteq> Bad"

lemma sink_phase_Nil [simp]: "sink_phase [] = Idle"
  by (simp add: sink_phase_def)

lemma sink_phase_snoc [simp]: "sink_phase (cs @ [c]) = phase_step (sink_phase cs) c"
  by (simp add: sink_phase_def)

lemma phase_step_Bad [simp]: "phase_step Bad c = Bad"
  by (cases c) auto

text \<open>When each call is allowed.\<close>

lemma phase_step_ok:
  "phase_step ph (MessageStart x m u) \<noteq> Bad \<longleftrightarrow> ph = Idle"
  "phase_step ph (BlockStart i b) \<noteq> Bad \<longleftrightarrow> ph = Between i"
  "phase_step ph (BlockDelta i d) \<noteq> Bad \<longleftrightarrow> ph = Open i \<and> known_delta d"
  "phase_step ph (BlockStop i) \<noteq> Bad \<longleftrightarrow> ph = Open i"
  "phase_step ph (MessageDelta r v) \<noteq> Bad \<longleftrightarrow> (\<exists>n. ph = Between n)"
  "phase_step ph MessageStop \<noteq> Bad \<longleftrightarrow> ph = Tail"
  "phase_step ph (SinkError e) \<noteq> Bad \<longleftrightarrow> (\<exists>n. ph = Between n)"
  "phase_step ph Ping \<noteq> Bad \<longleftrightarrow> (\<exists>n. ph = Between n \<or> ph = Open n)"
  by (cases ph; auto)+

lemma foldl_phase_Bad [simp]: "foldl phase_step Bad cs = Bad"
  by (induction cs) auto

lemma well_formed_prefix: "well_formed (cs @ ds) \<Longrightarrow> well_formed cs"
  by (auto simp: well_formed_def sink_phase_def)

lemma well_formed_snocD: "well_formed (cs @ [c]) \<Longrightarrow> well_formed cs"
  by (rule well_formed_prefix)

lemma well_formed_Nil [simp]: "well_formed []"
  by (simp add: well_formed_def)

section \<open>The contract of a sink\<close>

text \<open>
  A sink is lawful when it accepts every call that the grammar allows after the calls
  it has received. A client that keeps to the grammar then never sees an error of it.
\<close>

locale lawful_sink =
  fixes snk :: sink
  assumes accepts: "well_formed (h @ [c]) \<Longrightarrow> snk h c = None"
begin

lemma accepts_all:
  assumes "well_formed cs"
  shows "\<forall>i < length cs. snk (take i cs) (cs ! i) = None"
proof (intro allI impI)
  fix i assume "i < length cs"
  then have "take i cs @ [cs ! i] @ drop (Suc i) cs = cs"
    by (simp add: id_take_nth_drop [symmetric])
  with assms have "well_formed (take i cs @ [cs ! i])"
    by (metis append.assoc well_formed_prefix)
  then show "snk (take i cs) (cs ! i) = None" by (rule accepts)
qed

end

end
