(* ===== verification/Synthetic.thy ===== *)
theory Synthetic
  imports Prelude
begin

text \<open>
  \<^verbatim>\<open>internal/synthetic/synthetic.go\<close>: the signature of a synthetic thinking block,
  which carries a Codex reasoning item through the client and back. The unpadded
  URL alphabet of \<^verbatim>\<open>encoding/base64\<close> is defined here; the JSON form of the two-field
  payload is the parameter \<open>marshal\<close> with its inverse \<open>unmarshal\<close>.
\<close>

section \<open>base64.RawURLEncoding\<close>

definition b64_char :: "nat \<Rightarrow> char" where
  "b64_char n =
     char_of (if n < 26 then 65 + n
              else if n < 52 then 97 + (n - 26)
              else if n < 62 then 48 + (n - 52)
              else if n = 62 then 45 else (95 :: nat))"

definition b64_value :: "char \<Rightarrow> nat option" where
  "b64_value c =
     (let n = (of_char c :: nat) in
      if 65 \<le> n \<and> n \<le> 90 then Some (n - 65)
      else if 97 \<le> n \<and> n \<le> 122 then Some (n - 71)
      else if 48 \<le> n \<and> n \<le> 57 then Some (n + 4)
      else if n = 45 then Some 62
      else if n = 95 then Some 63
      else None)"

fun b64_bytes :: "nat list \<Rightarrow> nat list" where
  "b64_bytes [] = []"
| "b64_bytes [a] = [a div 4, (a mod 4) * 16]"
| "b64_bytes [a, b] = [a div 4, (a mod 4) * 16 + b div 16, (b mod 16) * 4]"
| "b64_bytes (a # b # c # r) =
     [a div 4, (a mod 4) * 16 + b div 16, (b mod 16) * 4 + c div 64, c mod 64] @ b64_bytes r"

definition b64_encode :: "string \<Rightarrow> string" where
  "b64_encode s = map b64_char (b64_bytes (map of_char s))"

fun b64_groups :: "nat list \<Rightarrow> nat list option" where
  "b64_groups [] = Some []"
| "b64_groups [p] = None"
| "b64_groups [p, q] = Some [p * 4 + q div 16]"
| "b64_groups [p, q, r] = Some [p * 4 + q div 16, (q mod 16) * 16 + r div 4]"
| "b64_groups (p # q # r # t # rest) =
     (case b64_groups rest of
        None \<Rightarrow> None
      | Some bs \<Rightarrow> Some ([p * 4 + q div 16, (q mod 16) * 16 + r div 4, (r mod 4) * 64 + t] @ bs))"

fun b64_values :: "string \<Rightarrow> nat list option" where
  "b64_values [] = Some []"
| "b64_values (c # cs) =
     (case b64_value c of
        None \<Rightarrow> None
      | Some v \<Rightarrow> (case b64_values cs of None \<Rightarrow> None | Some vs \<Rightarrow> Some (v # vs)))"

text \<open>The decoder skips line breaks and ignores the unused bits of the last character.\<close>

definition b64_decode :: "string \<Rightarrow> string option" where
  "b64_decode s =
     (case b64_values (filter (\<lambda>c. c \<noteq> CHR 0x0A \<and> c \<noteq> CHR 0x0D) s) of
        None \<Rightarrow> None
      | Some vs \<Rightarrow> map_option (map char_of) (b64_groups vs))"

section \<open>The signature\<close>

definition Marker :: string where
  "Marker = ''utraque-synthetic-v1:''"

definition reasoning_sig_tag :: string where
  "reasoning_sig_tag = ''r1.''"

record reasoning_payload =
  rp_id :: string
  rp_enc :: string

definition encode_reasoning_signature ::
  "(reasoning_payload \<Rightarrow> string) \<Rightarrow> string \<Rightarrow> string \<Rightarrow> string" where
  "encode_reasoning_signature marshal i enc =
     (if enc = [] then []
      else Marker @ reasoning_sig_tag @ b64_encode (marshal \<lparr>rp_id = i, rp_enc = enc\<rparr>))"

definition decode_reasoning_signature ::
  "(string \<Rightarrow> reasoning_payload option) \<Rightarrow> string \<Rightarrow> (string \<times> string) option" where
  "decode_reasoning_signature unmarshal sig =
     (case cut_prefix Marker sig of
        None \<Rightarrow> None
      | Some rest \<Rightarrow>
          (case cut_prefix reasoning_sig_tag rest of
             None \<Rightarrow> None
           | Some body \<Rightarrow>
               (case b64_decode body of
                  None \<Rightarrow> None
                | Some raw \<Rightarrow>
                    (case unmarshal raw of
                       None \<Rightarrow> None
                     | Some p \<Rightarrow> if rp_enc p = [] then None else Some (rp_id p, rp_enc p)))))"

section \<open>Lemmas\<close>

lemma of_char_less_256 [simp]: "(of_char c :: nat) < 256"
  using nat_of_char_less_256 [of c] by simp

lemma b64_value_char: "n < 64 \<Longrightarrow> b64_value (b64_char n) = Some n"
  by (auto simp: b64_value_def b64_char_def Let_def)

lemma b64_char_not_newline: "n < 64 \<Longrightarrow> b64_char n \<noteq> CHR 0x0A \<and> b64_char n \<noteq> CHR 0x0D"
  using b64_value_char [of n] by (auto simp: b64_value_def)

lemma b64_bytes_small: "\<forall>x \<in> set xs. x < 256 \<Longrightarrow> \<forall>y \<in> set (b64_bytes xs). y < 64"
proof (induction xs rule: b64_bytes.induct)
  case (4 a b c r)
  then have "a < 256" "b < 256" "c < 256" and "\<forall>y \<in> set (b64_bytes r). y < 64" by auto
  then show ?case by auto
qed auto

lemma b64_values_encode: "\<forall>y \<in> set ys. y < 64 \<Longrightarrow> b64_values (map b64_char ys) = Some ys"
  by (induction ys) (auto simp: b64_value_char)

lemma b64_groups_bytes: "\<forall>x \<in> set xs. x < 256 \<Longrightarrow> b64_groups (b64_bytes xs) = Some xs"
proof (induction xs rule: b64_bytes.induct)
  case (2 a)
  then show ?case by (simp add: div_mult_mod_eq)
next
  case (3 a b)
  then show ?case by auto
next
  case (4 a b c r)
  then have "b64_groups (b64_bytes r) = Some r" "a < 256" "b < 256" "c < 256" by auto
  then show ?case by (auto; presburger)
qed simp

lemma b64_roundtrip: "b64_decode (b64_encode s) = Some s"
proof -
  let ?ys = "b64_bytes (map of_char s)"
  have small: "\<forall>y \<in> set ?ys. y < 64" by (rule b64_bytes_small) auto
  then have "filter (\<lambda>c. c \<noteq> CHR 0x0A \<and> c \<noteq> CHR 0x0D) (map b64_char ?ys) = map b64_char ?ys"
    by (auto simp: filter_id_conv dest: b64_char_not_newline)
  then have "b64_decode (b64_encode s) = map_option (map char_of) (b64_groups ?ys)"
    using small by (simp add: b64_decode_def b64_encode_def b64_values_encode)
  also have "b64_groups ?ys = Some (map of_char s)"
    by (rule b64_groups_bytes) auto
  finally show ?thesis by (simp add: map_idI)
qed

lemma encode_prefix: "enc \<noteq> [] \<Longrightarrow> prefix Marker (encode_reasoning_signature m i enc)"
  by (simp add: encode_reasoning_signature_def)

text \<open>
  A reasoning item survives the round trip through the client. Whenever the
  JSON codec gives the payload back, decoding the signature minted for a non-empty
  encrypted content returns exactly its id and its content.
\<close>

theorem reasoning_signature_roundtrip:
  assumes "enc \<noteq> []"
    and "unmarshal (marshal \<lparr>rp_id = i, rp_enc = enc\<rparr>) = Some \<lparr>rp_id = i, rp_enc = enc\<rparr>"
  shows "decode_reasoning_signature unmarshal (encode_reasoning_signature marshal i enc) = Some (i, enc)"
  using assms
  by (simp add: decode_reasoning_signature_def encode_reasoning_signature_def go_string b64_roundtrip)

text \<open>A concrete codec for the witness: the id, a line break, the content.\<close>

theorem reasoning_signature_roundtrip_witness:
  "decode_reasoning_signature
     (\<lambda>s. Some \<lparr>rp_id = takeWhile (\<lambda>c. c \<noteq> CHR 0x0A) s, rp_enc = tl (dropWhile (\<lambda>c. c \<noteq> CHR 0x0A) s)\<rparr>)
     (encode_reasoning_signature (\<lambda>p. rp_id p @ [CHR 0x0A] @ rp_enc p) ''rs_1'' ''blob'')
   = Some (''rs_1'', ''blob'')"
  by (rule reasoning_signature_roundtrip) simp_all

text \<open>
  A payload-free signature, the form minted when no encrypted content was
  captured, decodes as absent, so the block is replayed as nothing; this needs the
  response id not to begin with the payload tag.
\<close>

theorem payload_free_signature_absent:
  assumes "\<not> prefix reasoning_sig_tag (rid @ ''-'' @ n)"
  shows "decode_reasoning_signature unmarshal (Marker @ rid @ ''-'' @ n) = None"
  using assms by (simp add: decode_reasoning_signature_def go_string) (simp add: cut_prefix_def)

theorem payload_free_signature_absent_witness:
  "decode_reasoning_signature (\<lambda>s. None) (Marker @ ''resp_1'' @ ''-'' @ ''0'') = None"
  by (rule payload_free_signature_absent) (simp add: reasoning_sig_tag_def)

end
