(* ===== verification/StreamState.thy ===== *)
theory StreamState
  imports Sink Synthetic
begin

text \<open>
  \<^verbatim>\<open>internal/translate/stream/state.go\<close> and the per-run state of the \<^verbatim>\<open>Translator\<close> of
  \<^verbatim>\<open>translator.go\<close>: the table of content blocks, of which at most one is active, the
  others buffering or stopped.

  The map \<^verbatim>\<open>blocks\<close> holds one pointer per output index and is never reassigned, so a
  pointer is modelled by its key and \<^verbatim>\<open>active\<close> is the output index of the active block.
  Every sink call is appended to \<open>ts_out\<close>; the sink decides from that history
  whether the call fails. An operation returns the Go error, if any, beside the new
  state, and \<open>and_then\<close> is the early return on an error.
\<close>

section \<open>State\<close>

record stream_block =
  b_index :: int
  b_kind :: block_type
  b_call_id :: string
  b_name :: string
  b_started :: bool
  b_stopped :: bool
  b_dropped :: bool
  b_done :: bool
  b_args_seen :: bool
  b_args_done :: bool
  b_full_args :: string
  b_reasoning_id :: string
  b_reasoning_enc :: string
  b_pending :: "delta list"
  b_bytes :: int

datatype terminus = TerminusNone | TerminusClean | TerminusErrored

datatype reasoning_mode = ReasoningThinking | ReasoningDrop | ReasoningUnknown string

datatype truncate_mode = TruncateError | TruncateFinish | TruncateUnknown string

text \<open>The configuration of a translator, which a run does not change.\<close>

record config =
  cf_model :: string
  cf_input_tokens_func :: "int option"
  cf_emit_reasoning :: reasoning_mode
  cf_truncate_mode :: truncate_mode
  cf_heartbeat :: int
  cf_upstream_idle :: int
  cf_max_pending_bytes :: int
  cf_max_pending_items :: int

text \<open>
  What the translator calls: the sink, and the JSON form of a reasoning payload.
\<close>

record env =
  ev_sink :: sink
  ev_marshal :: "reasoning_payload \<Rightarrow> string"

record tstate =
  ts_input_tokens :: int
  ts_response_id :: string
  ts_started :: bool
  ts_terminus :: terminus
  ts_next_index :: int
  ts_active :: "int option"
  ts_blocks :: "int \<rightharpoonup> stream_block"
  ts_order :: "int list"
  ts_saw_tool_use :: bool
  ts_incomplete :: bool
  ts_incomplete_max_tokens :: bool
  ts_usage :: usage
  ts_usage_seen :: bool
  ts_seed_resolved :: bool
  ts_unknown :: "string \<rightharpoonup> nat"
  ts_final_stop :: stop_reason
  ts_final_usage :: usage
  ts_out :: "sink_call list"

text \<open>The error of an operation; \<open>Diverge\<close> stands for a loop of the code that does not end.\<close>

datatype failure = Fail go_error | Diverge

type_synonym outcome = "failure option \<times> tstate"

definition and_then :: "outcome \<Rightarrow> (tstate \<Rightarrow> outcome) \<Rightarrow> outcome" where
  "and_then r f = (case r of (None, t) \<Rightarrow> f t | (Some e, t) \<Rightarrow> (Some e, t))"

definition ok :: "tstate \<Rightarrow> outcome" where
  "ok t = (None, t)"

text \<open>One call on the sink.\<close>

definition emit :: "env \<Rightarrow> sink_call \<Rightarrow> tstate \<Rightarrow> outcome" where
  "emit ev c t = (map_option Fail (ev_sink ev (ts_out t) c), t\<lparr>ts_out := ts_out t @ [c]\<rparr>)"

definition set_block :: "int \<Rightarrow> stream_block \<Rightarrow> tstate \<Rightarrow> tstate" where
  "set_block k b t = t\<lparr>ts_blocks := (ts_blocks t)(k \<mapsto> b)\<rparr>"

definition the_block :: "tstate \<Rightarrow> int \<Rightarrow> stream_block" where
  "the_block t k = the (ts_blocks t k)"

section \<open>message\_start\<close>

text \<open>\<^verbatim>\<open>seed\<close>: the estimate of the prompt, resolved on first use.\<close>

definition seed :: "config \<Rightarrow> tstate \<Rightarrow> int \<times> tstate" where
  "seed cf t =
     (case cf_input_tokens_func cf of
        Some n \<Rightarrow>
          (if \<not> ts_seed_resolved t
           then (max 0 n, t\<lparr>ts_input_tokens := max 0 n, ts_seed_resolved := True\<rparr>)
           else (ts_input_tokens t, t))
      | None \<Rightarrow> (ts_input_tokens t, t))"

definition ensure_started :: "env \<Rightarrow> config \<Rightarrow> tstate \<Rightarrow> outcome" where
  "ensure_started ev cf t =
     (if ts_started t then ok t
      else
        let (n, t') = seed cf (t\<lparr>ts_started := True\<rparr>)
        in emit ev (MessageStart (''msg_codex_'' @ ts_response_id t) (cf_model cf) n) t')"

section \<open>Blocks\<close>

definition new_block :: "config \<Rightarrow> block_type \<Rightarrow> stream_block" where
  "new_block cf kind = \<lparr>b_index = 0, b_kind = kind, b_call_id = [], b_name = [],
     b_started = False, b_stopped = False,
     b_dropped = (kind = BlockThinking \<and> cf_emit_reasoning cf = ReasoningDrop),
     b_done = False, b_args_seen = False, b_args_done = False, b_full_args = [],
     b_reasoning_id = [], b_reasoning_enc = [], b_pending = [], b_bytes = 0\<rparr>"

definition block_for :: "config \<Rightarrow> int \<Rightarrow> block_type \<Rightarrow> tstate \<Rightarrow> tstate" where
  "block_for cf k kind t =
     (case ts_blocks t k of
        Some b \<Rightarrow> t
      | None \<Rightarrow> (set_block k (new_block cf kind) t)\<lparr>ts_order := ts_order t @ [k]\<rparr>)"

definition content_block_of :: "stream_block \<Rightarrow> content_block" where
  "content_block_of b =
     (case b_kind b of
        BlockToolUse \<Rightarrow> (empty_block BlockToolUse)
          \<lparr>cb_id := b_call_id b, cb_name := b_name b, cb_input := ''{}''\<rparr>
      | _ \<Rightarrow> empty_block (b_kind b))"

definition delta_size :: "delta \<Rightarrow> int" where
  "delta_size d = int (length (d_text d) + length (d_partial_json d) +
                       length (d_thinking d) + length (d_signature d))"

definition synthetic_signature :: "env \<Rightarrow> int \<Rightarrow> stream_block \<Rightarrow> tstate \<Rightarrow> string" where
  "synthetic_signature ev k b t =
     (let sig = encode_reasoning_signature (ev_marshal ev) (b_reasoning_id b) (b_reasoning_enc b)
      in if sig \<noteq> [] then sig else Marker @ ts_response_id t @ ''-'' @ itoa k)"

text \<open>The loop over the pending deltas of a block that opens.\<close>

fun flush_pending :: "env \<Rightarrow> int \<Rightarrow> delta list \<Rightarrow> tstate \<Rightarrow> outcome" where
  "flush_pending ev i [] t = ok t"
| "flush_pending ev i (d # ds) t =
     and_then (emit ev (BlockDelta i d) t) (flush_pending ev i ds)"

definition open_block :: "env \<Rightarrow> config \<Rightarrow> int \<Rightarrow> tstate \<Rightarrow> outcome" where
  "open_block ev cf k t =
     (let b = the_block t k in
      if b_started b \<or> b_stopped b \<or> b_dropped b then ok t
      else
        and_then (ensure_started ev cf t) (\<lambda>t.
          let i = ts_next_index t;
              b = (the_block t k)\<lparr>b_index := i, b_started := True\<rparr>;
              t = (set_block k b t)\<lparr>ts_next_index := i + 1, ts_active := Some k\<rparr>
          in and_then (emit ev (BlockStart i (content_block_of b)) t) (\<lambda>t.
             and_then (flush_pending ev i (b_pending b) t) (\<lambda>t.
             ok (set_block k (b\<lparr>b_pending := [], b_bytes := 0\<rparr>) t)))))"

text \<open>The finalisation a block gets before its stop: a signature, or the arguments.\<close>

definition final_delta :: "env \<Rightarrow> int \<Rightarrow> stream_block \<Rightarrow> tstate \<Rightarrow> delta option" where
  "final_delta ev k b t =
     (case b_kind b of
        BlockThinking \<Rightarrow> Some (signature_delta (synthetic_signature ev k b t))
      | BlockToolUse \<Rightarrow>
          (if b_args_seen b then None
           else Some (json_delta (if b_full_args b = [] then ''{}'' else b_full_args b)))
      | _ \<Rightarrow> None)"

text \<open>The part of \<^verbatim>\<open>stopBlock\<close> after the block is known to be open.\<close>

definition stop_opened :: "env \<Rightarrow> int \<Rightarrow> tstate \<Rightarrow> outcome" where
  "stop_opened ev k t =
     (let b = the_block t k in
      and_then (case final_delta ev k b t of
                  Some d \<Rightarrow> emit ev (BlockDelta (b_index b) d) t
                | None \<Rightarrow> ok t) (\<lambda>t.
      and_then (emit ev (BlockStop (b_index b)) t) (\<lambda>t.
      let t = set_block k (b\<lparr>b_stopped := True\<rparr>) t
      in ok (t\<lparr>ts_active := (if ts_active t = Some k then None else ts_active t)\<rparr>))))"

definition stop_block :: "env \<Rightarrow> config \<Rightarrow> int \<Rightarrow> tstate \<Rightarrow> outcome" where
  "stop_block ev cf k t =
     (let b = the_block t k in
      if b_stopped b \<or> b_dropped b then ok t
      else and_then (if \<not> b_started b then open_block ev cf k t else ok t) (stop_opened ev k))"

section \<open>Promotion and termination of blocks\<close>

text \<open>A block that waits to open.\<close>

definition buffering :: "tstate \<Rightarrow> int \<Rightarrow> bool" where
  "buffering t k =
     (case ts_blocks t k of
        None \<Rightarrow> False
      | Some b \<Rightarrow> \<not> b_started b \<and> \<not> b_stopped b \<and> \<not> b_dropped b)"

definition first_buffering :: "tstate \<Rightarrow> int option" where
  "first_buffering t = find (buffering t) (ts_order t)"

text \<open>How the operations change the block table; what \<open>function\<close> needs to see that the loops end.\<close>

lemma and_then_cong [fundef_cong]:
  "r = r' \<Longrightarrow> (\<And>t. r' = (None, t) \<Longrightarrow> f t = g t) \<Longrightarrow> and_then r f = and_then r' g"
  by (auto simp: and_then_def split: prod.splits option.splits)

lemma and_then_None [simp]:
  "and_then r f = (None, t') \<longleftrightarrow> (\<exists>t. r = (None, t) \<and> f t = (None, t'))"
  by (auto simp: and_then_def split: prod.splits option.splits)

lemma and_then_ok [simp]: "and_then (ok t) f = f t"
  by (simp add: and_then_def ok_def)

lemma ok_None [simp]: "ok t = (None, t') \<longleftrightarrow> t' = t"
  by (auto simp: ok_def)

lemma the_block_Some [simp]: "ts_blocks t k = Some b \<Longrightarrow> the_block t k = b"
  by (simp add: the_block_def)

lemma the_block_set [simp]: "the_block (set_block k b t) j = (if j = k then b else the_block t j)"
  by (simp add: the_block_def set_block_def)

lemma set_block_frame [simp]:
  "ts_order (set_block k b t) = ts_order t" "ts_active (set_block k b t) = ts_active t"
  "ts_blocks (set_block k b t) = (ts_blocks t)(k \<mapsto> b)" "ts_out (set_block k b t) = ts_out t"
  "ts_next_index (set_block k b t) = ts_next_index t" "ts_started (set_block k b t) = ts_started t"
  "ts_terminus (set_block k b t) = ts_terminus t"
  by (simp_all add: set_block_def)

lemma emit_snd [simp]: "snd (emit ev c t) = t\<lparr>ts_out := ts_out t @ [c]\<rparr>"
  by (simp add: emit_def)

lemma emit_None: "emit ev c t = (None, t') \<Longrightarrow> t' = t\<lparr>ts_out := ts_out t @ [c]\<rparr>"
  by (auto simp: emit_def)

lemma flush_pending_None:
  "flush_pending ev i ds t = (None, t') \<Longrightarrow> t' = t\<lparr>ts_out := ts_out t @ map (BlockDelta i) ds\<rparr>"
proof (induction ds arbitrary: t)
  case (Cons d ds)
  then obtain t1 where "emit ev (BlockDelta i d) t = (None, t1)"
    and 1: "flush_pending ev i ds t1 = (None, t')" by auto
  then have "t1 = t\<lparr>ts_out := ts_out t @ [BlockDelta i d]\<rparr>" by (simp add: emit_None)
  with Cons.IH [OF 1] show ?case by simp
qed simp

lemma ensure_started_None:
  "ensure_started ev cf t = (None, t') \<Longrightarrow>
     ts_blocks t' = ts_blocks t \<and> ts_order t' = ts_order t \<and> ts_active t' = ts_active t \<and>
     ts_next_index t' = ts_next_index t \<and> ts_started t' \<and> ts_terminus t' = ts_terminus t"
  by (auto simp: ensure_started_def seed_def Let_def dest!: emit_None
      split: if_splits prod.splits option.splits)

text \<open>The block that an opening leaves behind.\<close>

definition opened :: "int \<Rightarrow> stream_block \<Rightarrow> stream_block" where
  "opened i b = b\<lparr>b_index := i, b_started := True, b_pending := [], b_bytes := 0\<rparr>"

lemma opened_simps [simp]:
  "b_started (opened i b)" "b_index (opened i b) = i" "b_stopped (opened i b) = b_stopped b"
  "b_dropped (opened i b) = b_dropped b" "b_done (opened i b) = b_done b"
  "b_pending (opened i b) = []" "b_kind (opened i b) = b_kind b"
  "b_args_seen (opened i b) = b_args_seen b" "b_full_args (opened i b) = b_full_args b"
  "b_args_done (opened i b) = b_args_done b"
  by (simp_all add: opened_def)

lemma open_block_None:
  assumes "open_block ev cf k t = (None, t')"
    and "\<not> b_started (the_block t k)" "\<not> b_stopped (the_block t k)" "\<not> b_dropped (the_block t k)"
  shows "ts_blocks t' = (ts_blocks t)(k \<mapsto> opened (ts_next_index t) (the_block t k))"
    and "ts_order t' = ts_order t" and "ts_active t' = Some k"
    and "ts_next_index t' = ts_next_index t + 1" and "ts_terminus t' = ts_terminus t"
    and "ts_started t'"
  using assms
  by (auto simp: open_block_def Let_def opened_def the_block_def set_block_def
      dest!: emit_None flush_pending_None ensure_started_None)

lemma stop_opened_None:
  assumes "stop_opened ev k t = (None, t')"
  shows "ts_blocks t' = (ts_blocks t)(k \<mapsto> (the_block t k)\<lparr>b_stopped := True\<rparr>)"
    and "ts_order t' = ts_order t"
    and "ts_active t' = (if ts_active t = Some k then None else ts_active t)"
    and "ts_terminus t' = ts_terminus t" and "ts_next_index t' = ts_next_index t"
    and "ts_started t' = ts_started t"
  using assms
  by (cases "ts_active t = Some k";
      auto simp: stop_opened_def Let_def dest!: emit_None split: option.splits)+

lemma stop_block_cases:
  assumes "\<not> b_stopped (the_block t k)" "\<not> b_dropped (the_block t k)"
  shows "stop_block ev cf k t =
     (if b_started (the_block t k) then stop_opened ev k t
      else and_then (open_block ev cf k t) (stop_opened ev k))"
  using assms by (simp add: stop_block_def Let_def)

lemma stop_block_None:
  assumes "stop_block ev cf k t = (None, t')"
    and "\<not> b_stopped (the_block t k)" "\<not> b_dropped (the_block t k)"
  shows "\<exists>b'. ts_blocks t' = (ts_blocks t)(k \<mapsto> b') \<and> b_stopped b'"
    and "ts_order t' = ts_order t"
    and "ts_active t' = (if ts_active t = Some k \<or> \<not> b_started (the_block t k) then None else ts_active t)"
    and "ts_terminus t' = ts_terminus t"
proof -
  have "(\<exists>b'. ts_blocks t' = (ts_blocks t)(k \<mapsto> b') \<and> b_stopped b') \<and> ts_order t' = ts_order t \<and>
    ts_active t' = (if ts_active t = Some k \<or> \<not> b_started (the_block t k) then None else ts_active t) \<and>
    ts_terminus t' = ts_terminus t"
  proof (cases "b_started (the_block t k)")
    case True
    with assms have "stop_opened ev k t = (None, t')" by (simp add: stop_block_cases)
    from stop_opened_None [OF this] True show ?thesis by (intro conjI) (auto intro: exI)
  next
    case False
    with assms obtain t1 where 1: "open_block ev cf k t = (None, t1)"
      and 2: "stop_opened ev k t1 = (None, t')" by (auto simp: stop_block_cases)
    from open_block_None [OF 1 False assms(2,3)] stop_opened_None [OF 2] False
    show ?thesis by (auto intro: exI)
  qed
  then show "\<exists>b'. ts_blocks t' = (ts_blocks t)(k \<mapsto> b') \<and> b_stopped b'"
    and "ts_order t' = ts_order t"
    and "ts_active t' = (if ts_active t = Some k \<or> \<not> b_started (the_block t k) then None else ts_active t)"
    and "ts_terminus t' = ts_terminus t" by blast+
qed

definition waiting :: "tstate \<Rightarrow> nat" where
  "waiting t = length (filter (buffering t) (ts_order t))"

lemma first_buffering_Some:
  "first_buffering t = Some k \<Longrightarrow>
     k \<in> set (ts_order t) \<and> buffering t k \<and> (\<exists>b. ts_blocks t k = Some b \<and> \<not> b_started b \<and>
       \<not> b_stopped b \<and> \<not> b_dropped b)"
  by (auto simp: first_buffering_def find_Some_iff buffering_def split: option.splits)

lemma first_buffering_None: "first_buffering t = None \<longleftrightarrow> waiting t = 0"
  by (auto simp: first_buffering_def waiting_def find_None_iff filter_empty_conv)

lemma waiting_mono:
  assumes "ts_order t' = ts_order t" and "\<And>k. buffering t' k \<Longrightarrow> buffering t k"
  shows "waiting t' \<le> waiting t"
proof -
  have "length (filter (buffering t') xs) \<le> length (filter (buffering t) xs)" for xs
    using assms(2) by (induction xs) (auto intro: le_SucI)
  then show ?thesis by (simp add: waiting_def assms(1))
qed

lemma waiting_less:
  assumes "ts_order t' = ts_order t" and "\<And>k. buffering t' k \<Longrightarrow> buffering t k"
    and "k \<in> set (ts_order t)" "buffering t k" "\<not> buffering t' k"
  shows "waiting t' < waiting t"
proof -
  have "length (filter (buffering t') xs) < length (filter (buffering t) xs)"
    if "k \<in> set xs" for xs
    using that
  proof (induction xs)
    case (Cons x xs)
    have "length (filter (buffering t') xs) \<le> length (filter (buffering t) xs)"
      using assms(2) by (induction xs) (auto intro: le_SucI)
    then show ?case using Cons assms(2,4,5) by (cases "x = k") auto
  qed simp
  then show ?thesis using assms(1,3) by (simp add: waiting_def)
qed

lemma open_block_waiting:
  assumes "first_buffering t = Some k" and "open_block ev cf k t = (None, t')"
  shows "waiting t' < waiting t"
proof -
  from first_buffering_Some [OF assms(1)] obtain b where k: "k \<in> set (ts_order t)" "buffering t k"
    "ts_blocks t k = Some b" "\<not> b_started b" "\<not> b_stopped b" "\<not> b_dropped b" by blast
  then have "\<not> b_started (the_block t k)" "\<not> b_stopped (the_block t k)" "\<not> b_dropped (the_block t k)"
    by simp_all
  from open_block_None [OF assms(2) this] show ?thesis
    by (intro waiting_less [where k = k]) (auto simp: buffering_def k split: if_splits)
qed

lemma stop_block_buffering:
  assumes "stop_block ev cf k t = (None, t')"
    and "\<not> b_stopped (the_block t k)" "\<not> b_dropped (the_block t k)"
  shows "ts_order t' = ts_order t" and "buffering t' j \<Longrightarrow> buffering t j" and "\<not> buffering t' k"
  using stop_block_None [OF assms] by (auto simp: buffering_def split: if_splits)

lemma stop_block_waiting_le:
  "stop_block ev cf k t = (None, t') \<Longrightarrow> waiting t' \<le> waiting t"
proof (cases "b_stopped (the_block t k) \<or> b_dropped (the_block t k)")
  case True
  moreover assume "stop_block ev cf k t = (None, t')"
  ultimately show ?thesis by (simp add: stop_block_def)
next
  case False
  moreover assume "stop_block ev cf k t = (None, t')"
  ultimately show ?thesis by (intro waiting_mono) (auto dest: stop_block_buffering)
qed

text \<open>\<^verbatim>\<open>drainNext\<close>: promotes buffered blocks while none is active.\<close>

function drain_next :: "env \<Rightarrow> config \<Rightarrow> tstate \<Rightarrow> outcome" where
  "drain_next ev cf t =
     (if ts_active t \<noteq> None then ok t
      else case first_buffering t of
        None \<Rightarrow> ok t
      | Some k \<Rightarrow>
          and_then (open_block ev cf k t) (\<lambda>t.
            if b_done (the_block t k)
            then and_then (stop_block ev cf k t) (drain_next ev cf)
            else ok t))"
  by pat_completeness auto
termination
  by (relation "measure (\<lambda>(ev, cf, t). waiting t)")
     (auto dest!: open_block_waiting stop_block_waiting_le)

declare drain_next.simps [simp del]

text \<open>
  \<^verbatim>\<open>finalizeAllBlocks\<close>: an active block that is already stopped or dropped would make
  the loop of the code spin for ever, which is \<^const>\<open>Diverge\<close> here.
\<close>

definition next_unfinished :: "tstate \<Rightarrow> int option" where
  "next_unfinished t = (case ts_active t of Some k \<Rightarrow> Some k | None \<Rightarrow> first_buffering t)"

function finalize_all :: "env \<Rightarrow> config \<Rightarrow> tstate \<Rightarrow> outcome" where
  "finalize_all ev cf t =
     (case next_unfinished t of
        None \<Rightarrow> ok t
      | Some k \<Rightarrow>
          (if b_stopped (the_block t k) \<or> b_dropped (the_block t k) then (Some Diverge, t)
           else and_then (stop_block ev cf k t) (finalize_all ev cf)))"
  by pat_completeness auto

lemma stop_block_unfinished:
  assumes n: "next_unfinished t = Some k" and s: "stop_block ev cf k t = (None, t')"
    and k: "\<not> b_stopped (the_block t k)" "\<not> b_dropped (the_block t k)"
  shows "waiting t' + (if ts_active t' = None then 0 else 1) <
         waiting t + (if ts_active t = None then 0 else 1)"
proof (cases "ts_active t")
  case None
  with n have f: "first_buffering t = Some k" by (simp add: next_unfinished_def)
  then have "k \<in> set (ts_order t)" "buffering t k" by (auto dest: first_buffering_Some)
  with stop_block_buffering [OF s k] have "waiting t' < waiting t"
    by (intro waiting_less) auto
  with None stop_block_None(3) [OF s k] show ?thesis by (auto split: if_splits)
next
  case (Some j)
  with n have "j = k" by (simp add: next_unfinished_def)
  with Some stop_block_None(3) [OF s k] stop_block_waiting_le [OF s] show ?thesis by auto
qed

termination finalize_all
  by (relation "measure (\<lambda>(ev, cf, t). waiting t + (if ts_active t = None then 0 else 1))")
     (auto dest!: stop_block_unfinished)

declare finalize_all.simps [simp del]

definition close_active :: "env \<Rightarrow> config \<Rightarrow> tstate \<Rightarrow> outcome" where
  "close_active ev cf t =
     (case ts_active t of
        None \<Rightarrow> ok t
      | Some k \<Rightarrow> and_then (stop_block ev cf k t) (drain_next ev cf))"

definition mark_done_or_close :: "env \<Rightarrow> config \<Rightarrow> int \<Rightarrow> tstate \<Rightarrow> outcome" where
  "mark_done_or_close ev cf k t =
     (let b = the_block t k in
      if b_stopped b \<or> b_dropped b then ok t
      else if ts_active t = Some k then close_active ev cf t
      else
        let t = set_block k (b\<lparr>b_done := True\<rparr>) t
        in if ts_active t = None then drain_next ev cf t else ok t)"

section \<open>Failure and bounds\<close>

definition error_frame :: "string \<Rightarrow> sink_call" where
  "error_frame msg = SinkError \<lparr>eb_type = TypeAPI, eb_message = msg\<rparr>"

text \<open>\<^verbatim>\<open>emitMidStreamError\<close>: only a thinking block gets its finalisation.\<close>

definition emit_mid_stream_error :: "env \<Rightarrow> string \<Rightarrow> tstate \<Rightarrow> outcome" where
  "emit_mid_stream_error ev msg t =
     and_then
       (case ts_active t of
          None \<Rightarrow> ok t
        | Some k \<Rightarrow>
            let b = the_block t k in
            and_then
              (if b_kind b = BlockThinking
               then emit ev (BlockDelta (b_index b) (signature_delta (synthetic_signature ev k b t))) t
               else ok t)
              (\<lambda>t. and_then (emit ev (BlockStop (b_index b)) t)
              (\<lambda>t. ok ((set_block k (b\<lparr>b_stopped := True\<rparr>) t)\<lparr>ts_active := None\<rparr>))))
       (\<lambda>t. emit ev (error_frame msg) (t\<lparr>ts_terminus := TerminusErrored\<rparr>))"

definition bounds_message :: string where
  "bounds_message = ''the upstream stream exceeded the translator'' @ [CHR 0x27] @ ''s pending-buffer bounds''"

definition enforce_bounds :: "env \<Rightarrow> config \<Rightarrow> tstate \<Rightarrow> outcome" where
  "enforce_bounds ev cf t =
     (if ts_active t = None then ok t
      else
        let waiters = filter (buffering t) (ts_order t);
            overflow = list_ex (\<lambda>k. cf_max_pending_bytes cf < b_bytes (the_block t k)) waiters
        in if int (length waiters) \<le> cf_max_pending_items cf \<and> \<not> overflow then ok t
           else emit_mid_stream_error ev bounds_message t)"

definition push_delta :: "env \<Rightarrow> config \<Rightarrow> int \<Rightarrow> delta \<Rightarrow> tstate \<Rightarrow> outcome" where
  "push_delta ev cf k d t =
     (let b = the_block t k in
      if b_dropped b \<or> b_stopped b then ok t
      else if ts_active t = Some k then emit ev (BlockDelta (b_index b) d) t
      else if ts_active t = None then
        and_then (open_block ev cf k t) (\<lambda>t. emit ev (BlockDelta (b_index (the_block t k)) d) t)
      else
        enforce_bounds ev cf
          (set_block k (b\<lparr>b_pending := b_pending b @ [d], b_bytes := b_bytes b + delta_size d\<rparr>) t))"

end
