(* ===== verification/Sse.thy ===== *)
theory Sse
  imports Apierr
begin

text \<open>
  \<^verbatim>\<open>internal/sse\<close>: the Server-Sent Events codec. The reader of a \<^verbatim>\<open>Scanner\<close> is a finite
  byte string followed by the error that ends it (\<open>EOF\<close> for a clean end); the buffered
  writer below a \<^verbatim>\<open>FrameWriter\<close> is a parameter that accepts or refuses each chunk. The
  main result is that the scanner reads back exactly the frames that were written.
\<close>

section \<open>Frames and the scanner\<close>

record frame =
  fr_event :: string
  fr_data :: string

definition EOF :: go_error where
  "EOF = Sentinel ''EOF''"

definition ErrLineTooLong :: go_error where
  "ErrLineTooLong = Sentinel ''utraque/sse: line exceeds maximum length''"

definition default_max_line_bytes :: nat where
  "default_max_line_bytes = 8388608"

abbreviation LF :: char where "LF \<equiv> CHR 0x0A"
abbreviation CR :: char where "CR \<equiv> CHR 0x0D"

record scanner =
  sc_rest :: string                  \<comment> \<open>the bytes not yet read\<close>
  sc_end :: go_error                 \<comment> \<open>what the reader returns after them\<close>
  sc_max :: nat
  sc_pending :: "go_error option"
  sc_err :: "go_error option"
  sc_done :: bool
  sc_frame :: frame

definition new_scanner :: "string \<Rightarrow> go_error \<Rightarrow> scanner" where
  "new_scanner s e = \<lparr>sc_rest = s, sc_end = e, sc_max = default_max_line_bytes,
     sc_pending = None, sc_err = None, sc_done = False, sc_frame = \<lparr>fr_event = [], fr_data = []\<rparr>\<rparr>"

definition set_max_line_bytes :: "int \<Rightarrow> scanner \<Rightarrow> scanner" where
  "set_max_line_bytes n sc =
     sc\<lparr>sc_max := (if n \<le> 0 then default_max_line_bytes else nat n)\<rparr>"

datatype line_result = Line string | LineErr go_error

text \<open>The loop of \<^verbatim>\<open>readLine\<close>: the line read, the bytes left, and the error put aside.\<close>

fun read_bytes ::
  "nat \<Rightarrow> go_error \<Rightarrow> string \<Rightarrow> string \<Rightarrow> line_result \<times> string \<times> go_error option" where
  "read_bytes m e buf [] =
     (if buf \<noteq> [] then (Line buf, [], Some e) else (LineErr e, [], None))"
| "read_bytes m e buf (c # cs) =
     (if c = LF then (Line buf, cs, None)
      else if c = CR then
        (case cs of
           [] \<Rightarrow> (Line buf, [], Some e)
         | c' # cs' \<Rightarrow> if c' \<noteq> LF then (Line buf, cs, None) else (Line buf, cs', None))
      else if m < length buf + 1 then (LineErr ErrLineTooLong, cs, None)
      else read_bytes m e (buf @ [c]) cs)"

definition read_line :: "scanner \<Rightarrow> line_result \<times> scanner" where
  "read_line sc =
     (case sc_pending sc of
        Some e \<Rightarrow> (LineErr e, sc\<lparr>sc_pending := None\<rparr>)
      | None \<Rightarrow>
          (case read_bytes (sc_max sc) (sc_end sc) [] (sc_rest sc) of
             (r, rest, p) \<Rightarrow> (r, sc\<lparr>sc_rest := rest, sc_pending := p\<rparr>)))"

definition split_field :: "string \<Rightarrow> string \<times> string" where
  "split_field line =
     (let name = takeWhile (\<lambda>c. c \<noteq> CHR '':'') line; r = dropWhile (\<lambda>c. c \<noteq> CHR '':'') line in
      case r of
        [] \<Rightarrow> (line, [])
      | _ # value \<Rightarrow>
          (name, (case value of [] \<Rightarrow> [] | v # vs \<Rightarrow> if v = CHR '' '' then vs else value)))"

text \<open>What one non-empty line does to the frame that is being accumulated.\<close>

record accum =
  ac_event :: string
  ac_data :: string
  ac_have_data :: bool

definition empty_accum :: accum where
  "empty_accum = \<lparr>ac_event = [], ac_data = [], ac_have_data = False\<rparr>"

definition field_line :: "string \<Rightarrow> accum \<Rightarrow> accum" where
  "field_line line a =
     (if hd line = CHR '':'' then a
      else
        let (name, value) = split_field line in
        if name = ''event'' then a\<lparr>ac_event := value\<rparr>
        else if name = ''data'' then
          a\<lparr>ac_data := (if ac_have_data a then ac_data a @ [LF] @ value else ac_data a @ value),
            ac_have_data := True\<rparr>
        else a)"

definition dispatch_frame :: "accum \<Rightarrow> scanner \<Rightarrow> bool \<times> scanner" where
  "dispatch_frame a sc =
     (ac_have_data a, sc\<lparr>sc_frame := \<lparr>fr_event = ac_event a, fr_data = ac_data a\<rparr>\<rparr>)"

lemma read_bytes_rest:
  "read_bytes m e buf cs = (Line l, rest, p) \<Longrightarrow> p = None \<longrightarrow> length rest < length cs"
  by (induction m e buf cs rule: read_bytes.induct)
     (auto split: if_splits list.splits)

lemma read_bytes_rest_le: "read_bytes m e buf cs = (r, rest, p) \<Longrightarrow> length rest \<le> length cs"
  by (induction m e buf cs rule: read_bytes.induct)
     (auto split: if_splits list.splits)

definition scan_measure :: "scanner \<Rightarrow> nat" where
  "scan_measure sc = (if sc_pending sc = None then Suc (length (sc_rest sc)) else 0)"

lemma read_line_measure:
  "read_line sc = (Line l, sc') \<Longrightarrow> scan_measure sc' < scan_measure sc"
  by (auto simp: read_line_def scan_measure_def dest!: read_bytes_rest
      split: option.splits prod.splits)

function scan_loop :: "accum \<Rightarrow> scanner \<Rightarrow> bool \<times> scanner" where
  "scan_loop a sc =
     (case read_line sc of
        (LineErr e, sc') \<Rightarrow>
          (if e = EOF then
             (if ac_have_data a then dispatch_frame a (sc'\<lparr>sc_done := True\<rparr>)
              else (False, sc'\<lparr>sc_done := True\<rparr>))
           else (False, sc'\<lparr>sc_done := True, sc_err := Some e\<rparr>))
      | (Line l, sc') \<Rightarrow>
          (if l = [] then
             (if ac_have_data a then dispatch_frame a sc' else scan_loop a sc')
           else scan_loop (field_line l a) sc'))"
  by pat_completeness auto
termination
  by (relation "measure (\<lambda>(a, sc). scan_measure sc)") (auto dest: read_line_measure [OF sym])

declare scan_loop.simps [simp del]

definition scan :: "scanner \<Rightarrow> bool \<times> scanner" where
  "scan sc = (if sc_done sc then (False, sc) else scan_loop empty_accum sc)"

text \<open>A client that scans until \<^verbatim>\<open>Scan\<close> returns false, as \<^verbatim>\<open>Run\<close> of the translator does.\<close>

lemma scan_loop_measure:
  "scan_loop a sc = (True, sc') \<Longrightarrow> sc_done sc' \<or> scan_measure sc' < scan_measure sc"
proof (induction a sc arbitrary: sc' rule: scan_loop.induct)
  case (1 a sc)
  obtain r sc1 where r: "read_line sc = (r, sc1)" by fastforce
  show ?case
  proof (cases r)
    case (LineErr e)
    with "1.prems" r show ?thesis
      by (auto simp: scan_loop.simps [of a sc] dispatch_frame_def split: if_splits)
  next
    case (Line l)
    with r have m: "scan_measure sc1 < scan_measure sc" by (simp add: read_line_measure)
    have d: "dispatch_frame a sc1 = (True, sc') \<Longrightarrow> scan_measure sc' = scan_measure sc1"
      by (auto simp: dispatch_frame_def scan_measure_def)
    from "1.prems" r Line "1.IH" m d show ?thesis
      by (fastforce simp: scan_loop.simps [of a sc] split: if_splits)
  qed
qed

function scan_all :: "scanner \<Rightarrow> frame list \<times> scanner" where
  "scan_all sc =
     (case scan sc of
        (False, sc') \<Rightarrow> ([], sc')
      | (True, sc') \<Rightarrow> (case scan_all sc' of (fs, sc'') \<Rightarrow> (sc_frame sc' # fs, sc'')))"
  by pat_completeness auto
termination
  by (relation "measure (\<lambda>sc. if sc_done sc then 0 else Suc (scan_measure sc))")
     (auto simp: scan_def dest: scan_loop_measure [OF sym] split: if_splits)

declare scan_all.simps [simp del]

section \<open>The writer\<close>

text \<open>
  \<^verbatim>\<open>WriteFrame\<close> as a sequence of chunks, in the order of the calls: the loop over the
  data emits one field per line of it.
\<close>

fun data_segments :: "string \<Rightarrow> string \<Rightarrow> string list" where
  "data_segments seg [] = [seg]"
| "data_segments seg (c # cs) =
     (if c = LF then seg # data_segments [] cs else data_segments (seg @ [c]) cs)"

definition frame_chunks :: "string \<Rightarrow> string \<Rightarrow> string list" where
  "frame_chunks event data =
     (if event \<noteq> [] then [''event: '', event, [LF]] else []) @
     concat (map (\<lambda>seg. [''data: '', seg, [LF]]) (data_segments [] data)) @ [[LF]]"

record frame_writer =
  fw_out :: string                 \<comment> \<open>the bytes the buffered writer has accepted\<close>
  fw_err :: "go_error option"

definition fw_write :: "(string \<Rightarrow> string \<Rightarrow> go_error option) \<Rightarrow> string \<Rightarrow> frame_writer \<Rightarrow> frame_writer" where
  "fw_write bw s fw =
     (if fw_err fw \<noteq> None then fw
      else case bw (fw_out fw) s of
             Some e \<Rightarrow> fw\<lparr>fw_err := Some e\<rparr>
           | None \<Rightarrow> fw\<lparr>fw_out := fw_out fw @ s\<rparr>)"

definition write_frame ::
  "(string \<Rightarrow> string \<Rightarrow> go_error option) \<Rightarrow> string \<Rightarrow> string \<Rightarrow> frame_writer \<Rightarrow> go_error option \<times> frame_writer" where
  "write_frame bw event data fw =
     (if fw_err fw \<noteq> None then (fw_err fw, fw)
      else let fw' = foldl (\<lambda>w s. fw_write bw s w) fw (frame_chunks event data)
           in (fw_err fw', fw'))"

text \<open>\<open>fl\<close> is the flush of the buffered writer and of the writer below it, in that order.\<close>

definition fw_flush :: "go_error option \<Rightarrow> go_error option \<Rightarrow> frame_writer \<Rightarrow> go_error option \<times> frame_writer" where
  "fw_flush bfl fl fw =
     (if fw_err fw \<noteq> None then (fw_err fw, fw)
      else case bfl of
             Some e \<Rightarrow> (Some e, fw\<lparr>fw_err := Some e\<rparr>)
           | None \<Rightarrow>
               (case fl of
                  Some e \<Rightarrow> (Some e, fw\<lparr>fw_err := Some e\<rparr>)
                | None \<Rightarrow> (None, fw)))"

definition frame_bytes :: "frame \<Rightarrow> string" where
  "frame_bytes f = concat (frame_chunks (fr_event f) (fr_data f))"

section \<open>Lines\<close>

definition plain_line :: "string \<Rightarrow> bool" where
  "plain_line l \<longleftrightarrow> LF \<notin> set l \<and> CR \<notin> set l"

lemma read_bytes_line:
  "plain_line l \<Longrightarrow> length buf + length l \<le> m \<Longrightarrow>
   read_bytes m e buf (l @ LF # rest) = (Line (buf @ l), rest, None)"
  by (induction l arbitrary: buf) (auto simp: plain_line_def)

lemma read_bytes_bounds:
  "read_bytes m e buf cs = (Line l, rest, p) \<Longrightarrow> plain_line buf \<Longrightarrow> length buf \<le> m \<Longrightarrow>
   plain_line l \<and> length l \<le> m"
  by (induction m e buf cs rule: read_bytes.induct)
     (auto simp: plain_line_def split: if_splits list.splits)

lemma read_line_plain:
  assumes "sc_pending sc = None" "sc_rest sc = l @ LF # rest" "plain_line l" "length l \<le> sc_max sc"
  shows "read_line sc = (Line l, sc\<lparr>sc_rest := rest\<rparr>)"
  using assms read_bytes_line [of l "[]" "sc_max sc" "sc_end sc" rest]
  by (cases sc) (simp add: read_line_def)

lemma scan_loop_field:
  assumes "sc_pending sc = None" "sc_rest sc = l @ LF # rest" "plain_line l" "length l \<le> sc_max sc"
    and "l \<noteq> []"
  shows "scan_loop a sc = scan_loop (field_line l a) (sc\<lparr>sc_rest := rest\<rparr>)"
  using read_line_plain [OF assms(1-4)] assms(5) by (subst scan_loop.simps) simp

lemma scan_loop_blank:
  assumes "sc_pending sc = None" "sc_rest sc = LF # rest" "ac_have_data a"
  shows "scan_loop a sc = dispatch_frame a (sc\<lparr>sc_rest := rest\<rparr>)"
  using read_line_plain [of sc "[]" rest] assms by (subst scan_loop.simps) (simp add: plain_line_def)

text \<open>The two kinds of line that the writer emits.\<close>

lemma field_line_event: "field_line (''event: '' @ v) a = a\<lparr>ac_event := v\<rparr>"
  by (simp add: field_line_def split_field_def Let_def)

lemma field_line_data: "field_line (''data: '' @ v) a =
    a\<lparr>ac_data := (if ac_have_data a then ac_data a @ [LF] @ v else ac_data a @ v), ac_have_data := True\<rparr>"
  by (simp add: field_line_def split_field_def Let_def)

section \<open>The round trip\<close>

definition rejoin :: "string list \<Rightarrow> string" where
  "rejoin segs = hd segs @ concat (map ((#) LF) (tl segs))"

lemma data_segments_rejoin: "data_segments seg cs \<noteq> [] \<and> rejoin (data_segments seg cs) = seg @ cs"
proof (induction seg cs rule: data_segments.induct)
  case (2 seg c cs)
  show ?case
  proof (cases "c = LF")
    case True
    with 2 have ih: "data_segments [] cs \<noteq> []" "rejoin (data_segments [] cs) = cs" by auto
    then obtain s ss where ds: "data_segments [] cs = s # ss" by (cases "data_segments [] cs") auto
    from ih(2) have "s @ concat (map ((#) LF) ss) = cs" by (simp add: ds rejoin_def)
    with True show ?thesis by (simp add: ds) (simp add: rejoin_def)
  qed (use 2 in auto)
qed (simp add: rejoin_def)

definition data_line :: "string \<Rightarrow> string" where
  "data_line seg = ''data: '' @ seg @ [LF]"

lemma scan_loop_data_more:
  assumes "ac_have_data a" "sc_pending sc = None"
    and "sc_rest sc = concat (map data_line segs) @ rest"
    and "\<forall>s \<in> set segs. plain_line s \<and> length s + 6 \<le> sc_max sc"
  shows "scan_loop a sc = scan_loop (a\<lparr>ac_data := ac_data a @ concat (map ((#) LF) segs)\<rparr>)
           (sc\<lparr>sc_rest := rest\<rparr>)"
  using assms
proof (induction segs arbitrary: a sc)
  case Nil
  then show ?case by (cases sc) simp
next
  case (Cons s ss)
  let ?l = "''data: '' @ s"
  have dl: "data_line s = ?l @ [LF]" by (simp add: data_line_def)
  have "plain_line ?l" "length ?l \<le> sc_max sc" using Cons.prems by (auto simp: plain_line_def)
  with Cons.prems have "scan_loop a sc = scan_loop (field_line ?l a)
      (sc\<lparr>sc_rest := concat (map data_line ss) @ rest\<rparr>)"
    by (intro scan_loop_field) (auto simp: dl)
  also have "\<dots> = scan_loop ((field_line ?l a)\<lparr>ac_data :=
      ac_data (field_line ?l a) @ concat (map ((#) LF) ss)\<rparr>)
      (sc\<lparr>sc_rest := concat (map data_line ss) @ rest, sc_rest := rest\<rparr>)"
    by (rule Cons.IH) (use Cons.prems in \<open>auto simp: field_line_data [simplified]\<close>)
  finally show ?case using Cons.prems by (cases a) (simp add: field_line_data [simplified])
qed

lemma scan_loop_data:
  assumes "\<not> ac_have_data a" "ac_data a = []" "sc_pending sc = None" "segs \<noteq> []"
    and "sc_rest sc = concat (map data_line segs) @ rest"
    and "\<forall>s \<in> set segs. plain_line s \<and> length s + 6 \<le> sc_max sc"
  shows "scan_loop a sc = scan_loop (a\<lparr>ac_data := rejoin segs, ac_have_data := True\<rparr>)
           (sc\<lparr>sc_rest := rest\<rparr>)"
proof -
  from assms(4) obtain s ss where segs: "segs = s # ss" by (cases segs) auto
  let ?l = "''data: '' @ s"
  have dl: "data_line s = ?l @ [LF]" by (simp add: data_line_def)
  have "plain_line ?l" "length ?l \<le> sc_max sc" using assms(6) segs by (auto simp: plain_line_def)
  with assms segs have "scan_loop a sc = scan_loop (field_line ?l a)
      (sc\<lparr>sc_rest := concat (map data_line ss) @ rest\<rparr>)"
    by (intro scan_loop_field) (auto simp: dl)
  also have "\<dots> = scan_loop ((field_line ?l a)\<lparr>ac_data :=
      ac_data (field_line ?l a) @ concat (map ((#) LF) ss)\<rparr>)
      (sc\<lparr>sc_rest := concat (map data_line ss) @ rest, sc_rest := rest\<rparr>)"
    by (rule scan_loop_data_more) (use assms segs in \<open>auto simp: field_line_data [simplified]\<close>)
  finally show ?thesis using assms
    by (cases a) (simp add: field_line_data [simplified] segs rejoin_def)
qed

text \<open>
  A frame that the codec can carry: its event name has no line break, its data no
  carriage return, and none of its lines exceeds the bound of the scanner.
\<close>

definition codec_frame :: "nat \<Rightarrow> frame \<Rightarrow> bool" where
  "codec_frame m f \<longleftrightarrow>
     plain_line (fr_event f) \<and> length (fr_event f) + 7 \<le> m \<and>
     list_all (\<lambda>s. plain_line s \<and> length s + 6 \<le> m) (data_segments [] (fr_data f))"

lemma frame_bytes_lines:
  "frame_bytes f = (if fr_event f \<noteq> [] then ''event: '' @ fr_event f @ [LF] else []) @
     concat (map data_line (data_segments [] (fr_data f))) @ [LF]"
proof -
  have "concat (concat (map (\<lambda>seg. [''data: '', seg, [LF]]) segs)) = concat (map data_line segs)" for segs
    by (induction segs) (auto simp: data_line_def)
  then show ?thesis by (simp add: frame_bytes_def frame_chunks_def)
qed

lemma scan_frame:
  assumes p: "sc_pending sc = None" "\<not> sc_done sc" and r: "sc_rest sc = frame_bytes f @ rest"
    and f: "codec_frame (sc_max sc) f"
  shows "scan sc = (True, sc\<lparr>sc_rest := rest, sc_frame := f\<rparr>)"
proof -
  let ?segs = "data_segments [] (fr_data f)"
  let ?sc = "sc\<lparr>sc_rest := concat (map data_line ?segs) @ LF # rest\<rparr>"
  let ?a = "empty_accum\<lparr>ac_event := fr_event f\<rparr>"
  have "scan_loop empty_accum sc = scan_loop ?a ?sc"
  proof (cases "fr_event f = []")
    case True
    then show ?thesis using r by (cases sc) (simp add: frame_bytes_lines empty_accum_def)
  next
    case False
    have "plain_line (''event: '' @ fr_event f)" "length (''event: '' @ fr_event f) \<le> sc_max sc"
      using f by (auto simp: codec_frame_def plain_line_def)
    with False p r scan_loop_field [of sc "''event: '' @ fr_event f"] show ?thesis
      by (simp add: frame_bytes_lines field_line_event [simplified])
  qed
  also have "\<dots> = scan_loop (?a\<lparr>ac_data := rejoin ?segs, ac_have_data := True\<rparr>)
      (?sc\<lparr>sc_rest := LF # rest\<rparr>)"
    by (rule scan_loop_data)
       (use f p data_segments_rejoin in \<open>auto simp: empty_accum_def codec_frame_def list_all_iff\<close>)
  also have "\<dots> = dispatch_frame (?a\<lparr>ac_data := rejoin ?segs, ac_have_data := True\<rparr>)
      (?sc\<lparr>sc_rest := LF # rest, sc_rest := rest\<rparr>)"
    by (rule scan_loop_blank) (use p in auto)
  finally show ?thesis
    using p data_segments_rejoin [of "[]" "fr_data f"] by (simp add: scan_def dispatch_frame_def)
qed

lemma scan_frames_back:
  assumes "list_all (codec_frame default_max_line_bytes) fs"
  shows "fst (scan_all (new_scanner (concat (map frame_bytes fs)) EOF)) = fs"
    and "sc_err (snd (scan_all (new_scanner (concat (map frame_bytes fs)) EOF))) = None"
proof -
  have "fst (scan_all sc) = fs \<and> sc_err (snd (scan_all sc)) = None"
    if "sc_pending sc = None" "\<not> sc_done sc" "sc_end sc = EOF" "sc_err sc = None"
      "sc_rest sc = concat (map frame_bytes fs)" "list_all (codec_frame (sc_max sc)) fs" for sc
    using that
  proof (induction fs arbitrary: sc)
    case Nil
    then have "read_line sc = (LineErr EOF, sc\<lparr>sc_rest := [], sc_pending := None\<rparr>)"
      by (simp add: read_line_def)
    then have "scan_loop empty_accum sc = (False, sc\<lparr>sc_rest := [], sc_pending := None, sc_done := True\<rparr>)"
      by (subst scan_loop.simps) (simp add: empty_accum_def)
    with Nil show ?case by (simp add: scan_all.simps [of sc] scan_def)
  next
    case (Cons f fs)
    then have s: "scan sc = (True, sc\<lparr>sc_rest := concat (map frame_bytes fs), sc_frame := f\<rparr>)"
      by (intro scan_frame) auto
    let ?sc = "sc\<lparr>sc_rest := concat (map frame_bytes fs), sc_frame := f\<rparr>"
    have "fst (scan_all ?sc) = fs \<and> sc_err (snd (scan_all ?sc)) = None"
      by (rule Cons.IH) (use Cons.prems in auto)
    then show ?case by (auto simp: scan_all.simps [of sc] s split: prod.splits)
  qed
  from this [of "new_scanner (concat (map frame_bytes fs)) EOF"] assms show
    "fst (scan_all (new_scanner (concat (map frame_bytes fs)) EOF)) = fs"
    "sc_err (snd (scan_all (new_scanner (concat (map frame_bytes fs)) EOF))) = None"
    by (simp_all add: new_scanner_def)
qed

text \<open>
  The codec is a faithful round trip. A scanner over the bytes of any list of
  frames that the codec can carry returns exactly those frames, in order, and ends
  without an error.
\<close>

theorem sse_roundtrip:
  assumes "list_all (codec_frame default_max_line_bytes) fs"
  shows "fst (scan_all (new_scanner (concat (map frame_bytes fs)) EOF)) = fs \<and>
         sc_err (snd (scan_all (new_scanner (concat (map frame_bytes fs)) EOF))) = None"
  using scan_frames_back [OF assms] by simp

definition demo_sse :: "frame list" where
  "demo_sse = [\<lparr>fr_event = ''message_stop'', fr_data = ''{}''\<rparr>,
               \<lparr>fr_event = [], fr_data = ''a'' @ [LF] @ ''b''\<rparr>]"

theorem sse_roundtrip_witness:
  "fst (scan_all (new_scanner (concat (map frame_bytes demo_sse)) EOF)) = demo_sse"
  by (rule sse_roundtrip [THEN conjunct1])
     (simp add: demo_sse_def codec_frame_def plain_line_def default_max_line_bytes_def)

text \<open>
  Property (C12): no line that the scanner accepts exceeds the bound or contains a line break, so
  neither the event name nor a data line of a dispatched frame does; a longer line
  fails the scan with \<^verbatim>\<open>ErrLineTooLong\<close> before it is buffered whole.
\<close>

theorem read_line_bounded:
  assumes "read_line sc = (Line l, sc')"
  shows "length l \<le> sc_max sc \<and> plain_line l"
  using assms
  by (auto simp: read_line_def plain_line_def split: option.splits prod.splits
      dest!: read_bytes_bounds)

theorem read_line_bounded_witness:
  "length ''data'' \<le> sc_max (new_scanner (''data'' @ [CR, LF]) EOF) \<and> plain_line ''data''"
proof -
  have "read_line (new_scanner (''data'' @ [CR, LF]) EOF) =
      (Line ''data'', (new_scanner [] EOF))"
    by (simp add: read_line_def new_scanner_def default_max_line_bytes_def)
  from read_line_bounded [OF this] show ?thesis .
qed

text \<open>
  A write error is sticky: once a chunk is refused nothing more of the frame is
  handed on, the bytes accepted are a prefix of the frame, and the error returned by
  the frame is the one that every later frame returns without writing.
\<close>

lemma fw_write_prefix:
  "fw_err w = None \<Longrightarrow>
   \<exists>p. prefix p (concat cs) \<and> fw_out (foldl (\<lambda>w s. fw_write bw s w) w cs) = fw_out w @ p \<and>
       (fw_err (foldl (\<lambda>w s. fw_write bw s w) w cs) = None \<longrightarrow> p = concat cs)"
proof (induction cs arbitrary: w)
  case (Cons c cs)
  have stuck: "fw_err v \<noteq> None \<Longrightarrow> foldl (\<lambda>w s. fw_write bw s w) v ds = v" for v ds
    by (induction ds) (auto simp: fw_write_def)
  show ?case
  proof (cases "bw (fw_out w) c")
    case None
    with Cons.prems have w: "fw_write bw c w = w\<lparr>fw_out := fw_out w @ c\<rparr>" by (simp add: fw_write_def)
    from Cons.IH [of "w\<lparr>fw_out := fw_out w @ c\<rparr>"] Cons.prems obtain p where
      "prefix p (concat cs)"
      "fw_out (foldl (\<lambda>w s. fw_write bw s w) (w\<lparr>fw_out := fw_out w @ c\<rparr>) cs) = fw_out w @ c @ p"
      "fw_err (foldl (\<lambda>w s. fw_write bw s w) (w\<lparr>fw_out := fw_out w @ c\<rparr>) cs) = None \<longrightarrow> p = concat cs"
      by auto
    with w show ?thesis by (intro exI [of _ "c @ p"]) auto
  next
    case (Some e)
    with Cons.prems have "fw_write bw c w = w\<lparr>fw_err := Some e\<rparr>" by (simp add: fw_write_def)
    with stuck [of "w\<lparr>fw_err := Some e\<rparr>" cs] show ?thesis by simp
  qed
qed auto

theorem write_frame_sticky:
  "fst (write_frame bw ev d w) = fw_err (snd (write_frame bw ev d w)) \<and>
   (if fw_err w = None
    then \<exists>p. prefix p (frame_bytes \<lparr>fr_event = ev, fr_data = d\<rparr>) \<and>
         fw_out (snd (write_frame bw ev d w)) = fw_out w @ p \<and>
         (if fst (write_frame bw ev d w) = None
          then p = frame_bytes \<lparr>fr_event = ev, fr_data = d\<rparr> else True)
    else write_frame bw ev d w = (fw_err w, w))"
  using fw_write_prefix [of w "frame_chunks ev d" bw]
  by (auto simp: write_frame_def Let_def frame_bytes_def)

text \<open>
  A stream cut off after an event line, before its data, dispatches no frame,
  whatever the event name is: a truncated stream cannot fabricate a terminal event.
\<close>

theorem truncated_event_dispatches_nothing:
  assumes "plain_line ev" and "length ev + 7 \<le> default_max_line_bytes"
  shows "scan_all (new_scanner (''event: '' @ ev @ [LF]) EOF) =
         ([], (new_scanner [] EOF)\<lparr>sc_done := True\<rparr>)"
proof -
  let ?sc = "new_scanner (''event: '' @ ev @ [LF]) EOF"
  have "scan_loop empty_accum ?sc =
      scan_loop (field_line (''event: '' @ ev) empty_accum) (?sc\<lparr>sc_rest := []\<rparr>)"
    by (rule scan_loop_field) (use assms in \<open>auto simp: new_scanner_def plain_line_def\<close>)
  also have "?sc\<lparr>sc_rest := []\<rparr> = new_scanner [] EOF" by (simp add: new_scanner_def)
  also have "scan_loop (field_line (''event: '' @ ev) empty_accum) (new_scanner [] EOF) =
      (False, (new_scanner [] EOF)\<lparr>sc_done := True\<rparr>)"
    by (subst scan_loop.simps)
       (simp add: read_line_def new_scanner_def field_line_event [simplified] empty_accum_def)
  finally show ?thesis
    by (subst scan_all.simps) (simp add: scan_def, simp add: new_scanner_def)
qed

theorem truncated_event_dispatches_nothing_witness:
  "fst (scan_all (new_scanner (''event: '' @ ''response.completed'' @ [LF]) EOF)) = []"
proof -
  have "plain_line ''response.completed''"
    "length ''response.completed'' + 7 \<le> default_max_line_bytes"
    by (simp_all add: plain_line_def default_max_line_bytes_def)
  from truncated_event_dispatches_nothing [OF this] show ?thesis by simp
qed

text \<open>
  The restriction to data without a carriage return is needed: the writer passes one
  through, and the scanner takes it for the end of a line.
\<close>

lemma carriage_return_not_carried:
  "fst (scan_all (new_scanner (frame_bytes \<lparr>fr_event = [], fr_data = ''a'' @ [CR] @ ''b''\<rparr>) EOF)) =
   [\<lparr>fr_event = [], fr_data = ''a''\<rparr>]"
  by (simp add: frame_bytes_def frame_chunks_def new_scanner_def scan_all.simps scan_def
      scan_loop.simps read_line_def default_max_line_bytes_def field_line_def split_field_def
      dispatch_frame_def empty_accum_def EOF_def)

text \<open>
  A blank line ends a block without data, but the event name of that block stays in the
  accumulator of the loop and is given to the next frame.
\<close>

lemma event_name_leaks:
  "fst (scan_all (new_scanner (''event: ping'' @ [LF, LF] @ ''data: 1'' @ [LF, LF]) EOF)) =
   [\<lparr>fr_event = ''ping'', fr_data = ''1''\<rparr>]"
  by (simp add: new_scanner_def scan_all.simps scan_def scan_loop.simps read_line_def
      default_max_line_bytes_def field_line_def split_field_def dispatch_frame_def empty_accum_def EOF_def)

end
