(* ===== verification/Translator.thy ===== *)
theory Translator
  imports StreamState Sse
begin

text \<open>
  \<^verbatim>\<open>internal/translate/stream/translator.go\<close> over the event schema of
  \<^verbatim>\<open>internal/codex/schema/events.go\<close>: the options, the dispatch of one Codex event, the
  end of the stream and the loop of \<^verbatim>\<open>Run\<close>. The select statement of \<^verbatim>\<open>Run\<close> chooses among
  several channels; the model takes the sequence of its choices as an explicit list.
  The parameter \<open>unmarshal\<close> is \<^verbatim>\<open>json.Unmarshal\<close> into a \<^verbatim>\<open>StreamEvent\<close>.
\<close>

section \<open>Codex events\<close>

record codex_usage =
  cu_input :: int
  cu_output :: int
  cu_cached :: "int option"

record codex_response =
  cr_id :: string
  cr_usage :: "codex_usage option"
  cr_incomplete_reason :: "string option"
  cr_error_message :: "string option"

record output_item =
  oi_id :: string
  oi_type :: string
  oi_name :: string
  oi_call_id :: string
  oi_arguments :: string
  oi_encrypted :: string

record stream_event =
  se_type :: string
  se_output_index :: int
  se_delta :: string
  se_arguments :: string
  se_item :: "output_item option"
  se_response :: "codex_response option"
  se_message :: string

definition zero_event :: stream_event where
  "zero_event = \<lparr>se_type = [], se_output_index = 0, se_delta = [], se_arguments = [],
                 se_item = None, se_response = None, se_message = []\<rparr>"

definition EventResponseCreated :: string where
  "EventResponseCreated = ''response.created''"
definition EventResponseInProgress :: string where
  "EventResponseInProgress = ''response.in_progress''"
definition EventResponseCompleted :: string where
  "EventResponseCompleted = ''response.completed''"
definition EventResponseIncomplete :: string where
  "EventResponseIncomplete = ''response.incomplete''"
definition EventResponseFailed :: string where
  "EventResponseFailed = ''response.failed''"
definition EventOutputItemAdded :: string where
  "EventOutputItemAdded = ''response.output_item.added''"
definition EventOutputItemDone :: string where
  "EventOutputItemDone = ''response.output_item.done''"
definition EventContentPartAdded :: string where
  "EventContentPartAdded = ''response.content_part.added''"
definition EventContentPartDone :: string where
  "EventContentPartDone = ''response.content_part.done''"
definition EventOutputTextDelta :: string where
  "EventOutputTextDelta = ''response.output_text.delta''"
definition EventOutputTextDone :: string where
  "EventOutputTextDone = ''response.output_text.done''"
definition EventReasoningSummaryPartAdded :: string where
  "EventReasoningSummaryPartAdded = ''response.reasoning_summary_part.added''"
definition EventReasoningSummaryTextDelta :: string where
  "EventReasoningSummaryTextDelta = ''response.reasoning_summary_text.delta''"
definition EventReasoningSummaryTextDone :: string where
  "EventReasoningSummaryTextDone = ''response.reasoning_summary_text.done''"
definition EventReasoningTextDelta :: string where
  "EventReasoningTextDelta = ''response.reasoning_text.delta''"
definition EventReasoningTextDone :: string where
  "EventReasoningTextDone = ''response.reasoning_text.done''"
definition EventFunctionCallArgumentsDelta :: string where
  "EventFunctionCallArgumentsDelta = ''response.function_call_arguments.delta''"
definition EventFunctionCallArgumentsDone :: string where
  "EventFunctionCallArgumentsDone = ''response.function_call_arguments.done''"
definition EventError :: string where
  "EventError = ''error''"

lemmas event_defs =
  EventResponseCreated_def EventResponseInProgress_def EventResponseCompleted_def
  EventResponseIncomplete_def EventResponseFailed_def EventOutputItemAdded_def
  EventOutputItemDone_def EventContentPartAdded_def EventContentPartDone_def
  EventOutputTextDelta_def EventOutputTextDone_def EventReasoningSummaryPartAdded_def
  EventReasoningSummaryTextDelta_def EventReasoningSummaryTextDone_def
  EventReasoningTextDelta_def EventReasoningTextDone_def
  EventFunctionCallArgumentsDelta_def EventFunctionCallArgumentsDone_def EventError_def

definition handled_event_types :: "string list" where
  "handled_event_types =
     [EventResponseCreated, EventResponseInProgress, EventResponseCompleted,
      EventResponseIncomplete, EventResponseFailed,
      EventOutputItemAdded, EventOutputItemDone,
      EventContentPartAdded, EventContentPartDone, EventOutputTextDelta, EventOutputTextDone,
      EventReasoningSummaryPartAdded, EventReasoningSummaryTextDelta,
      EventReasoningSummaryTextDone, EventReasoningTextDelta, EventReasoningTextDone,
      EventFunctionCallArgumentsDelta, EventFunctionCallArgumentsDone,
      EventError]"

section \<open>Options\<close>

record stream_options =
  op_upstream_model :: string
  op_input_tokens :: int
  op_input_tokens_func :: "int option"
  op_emit_reasoning :: "reasoning_mode option"
  op_truncate_mode :: "truncate_mode option"
  op_heartbeat :: int
  op_upstream_idle :: int
  op_max_pending_bytes :: int
  op_max_pending_items :: int

text \<open>\<^verbatim>\<open>New\<close>; the empty string of a mode is \<^const>\<open>None\<close>, durations are in nanoseconds.\<close>

definition new_translator :: "stream_options \<Rightarrow> config \<times> int" where
  "new_translator opt =
     (\<lparr>cf_model = op_upstream_model opt,
       cf_input_tokens_func = op_input_tokens_func opt,
       cf_emit_reasoning = (case op_emit_reasoning opt of None \<Rightarrow> ReasoningThinking | Some m \<Rightarrow> m),
       cf_truncate_mode = (case op_truncate_mode opt of None \<Rightarrow> TruncateError | Some m \<Rightarrow> m),
       cf_heartbeat = (if op_heartbeat opt = 0 then 15000000000 else op_heartbeat opt),
       cf_upstream_idle = (if op_upstream_idle opt = 0 then 120000000000 else op_upstream_idle opt),
       cf_max_pending_bytes = (if op_max_pending_bytes opt \<le> 0 then 1048576 else op_max_pending_bytes opt),
       cf_max_pending_items = (if op_max_pending_items opt \<le> 0 then 16 else op_max_pending_items opt)\<rparr>,
      op_input_tokens opt)"

definition reset :: "int \<Rightarrow> tstate" where
  "reset n = \<lparr>ts_input_tokens = n, ts_response_id = [], ts_started = False,
     ts_terminus = TerminusNone, ts_next_index = 0, ts_active = None, ts_blocks = Map.empty,
     ts_order = [], ts_saw_tool_use = False, ts_incomplete = False,
     ts_incomplete_max_tokens = False, ts_usage = zero_usage, ts_usage_seen = False,
     ts_seed_resolved = False, ts_unknown = Map.empty, ts_final_stop = StopNone,
     ts_final_usage = zero_usage, ts_out = []\<rparr>"

section \<open>Usage and stop reason\<close>

definition cached_tokens :: "codex_usage \<Rightarrow> int" where
  "cached_tokens u = (case cu_cached u of None \<Rightarrow> 0 | Some n \<Rightarrow> n)"

definition map_usage :: "codex_usage option \<Rightarrow> usage" where
  "map_usage u =
     (case u of
        None \<Rightarrow> zero_usage
      | Some u \<Rightarrow> zero_usage\<lparr>u_input := max 0 (i64 (cu_input u - cached_tokens u)),
                           u_output := cu_output u,
                           u_cache_read := cached_tokens u\<rparr>)"

definition record_usage :: "codex_usage option \<Rightarrow> tstate \<Rightarrow> tstate" where
  "record_usage u t = t\<lparr>ts_usage := map_usage u, ts_usage_seen := (u \<noteq> None)\<rparr>"

definition terminal_usage :: "config \<Rightarrow> tstate \<Rightarrow> usage \<times> tstate" where
  "terminal_usage cf t =
     (let u = ts_usage t in
      if \<not> ts_usage_seen t \<or> prompt_tokens u = 0
      then (let (n, t') = seed cf t in (u\<lparr>u_input := n\<rparr>, t'))
      else (u, t))"

definition the_stop_reason :: "tstate \<Rightarrow> stop_reason" where
  "the_stop_reason t =
     (if ts_saw_tool_use t then StopToolUse
      else if ts_incomplete_max_tokens t then StopMaxTokens
      else StopEndTurn)"

section \<open>Terminus\<close>

definition truncated_call :: "tstate \<Rightarrow> int \<Rightarrow> bool" where
  "truncated_call t k =
     (case ts_blocks t k of
        None \<Rightarrow> False
      | Some b \<Rightarrow> b_kind b = BlockToolUse \<and> b_args_seen b \<and> \<not> b_args_done b)"

definition finalize_clean :: "env \<Rightarrow> config \<Rightarrow> tstate \<Rightarrow> outcome" where
  "finalize_clean ev cf t =
     (if list_ex (truncated_call t) (ts_order t)
      then emit_mid_stream_error ev
             ''the upstream stream was truncated before the tool call arguments completed'' t
      else
        and_then (finalize_all ev cf t) (\<lambda>t.
          let stop = the_stop_reason t; (u, t) = terminal_usage cf t
          in and_then (emit ev (MessageDelta stop u) t) (\<lambda>t.
             let t = t\<lparr>ts_final_stop := stop, ts_final_usage := u\<rparr>
             in and_then (emit ev MessageStop t) (\<lambda>t. ok (t\<lparr>ts_terminus := TerminusClean\<rparr>)))))"

definition fail :: "env \<Rightarrow> string \<Rightarrow> tstate \<Rightarrow> bool \<times> outcome" where
  "fail ev msg t =
     (if \<not> ts_started t then (True, (Some (Fail (with_status 502 TypeAPI msg)), t))
      else (True, emit_mid_stream_error ev msg t))"

definition ErrTruncated :: go_error where
  "ErrTruncated = Sentinel ''utraque/stream: upstream stream truncated''"

definition ErrIdleTimeout :: go_error where
  "ErrIdleTimeout = Sentinel ''utraque/stream: upstream idle timeout''"

definition end_message :: "go_error option \<Rightarrow> string" where
  "end_message cause =
     (case cause of
        None \<Rightarrow> ''the upstream stream was truncated before completion''
      | Some e \<Rightarrow>
          (if error_is e ErrTruncated then ''the upstream stream was truncated before completion''
           else if error_is e ErrIdleTimeout then ''no data received from the upstream model''
           else ''the upstream stream failed: '' @ error_text e))"

definition handle_end :: "env \<Rightarrow> config \<Rightarrow> go_error option \<Rightarrow> tstate \<Rightarrow> outcome" where
  "handle_end ev cf cause t =
     (if ts_terminus t \<noteq> TerminusNone then ok t
      else if \<not> ts_started t then
        (case cause of None \<Rightarrow> (Some (Fail ErrNoData), t) | Some e \<Rightarrow> (Some (Fail e), t))
      else if cause = None \<and> cf_truncate_mode cf = TruncateFinish then finalize_clean ev cf t
      else emit_mid_stream_error ev (end_message cause) t)"

section \<open>Events of items\<close>

text \<open>What an added call, a completed call and a completed reasoning item write into their block.\<close>

definition added_call :: "output_item \<Rightarrow> stream_block \<Rightarrow> stream_block" where
  "added_call item b =
     (let b = (if oi_call_id item \<noteq> [] then b\<lparr>b_call_id := oi_call_id item\<rparr> else b);
          b = (if oi_name item \<noteq> [] then b\<lparr>b_name := oi_name item\<rparr> else b)
      in if oi_arguments item \<noteq> [] then b\<lparr>b_full_args := oi_arguments item\<rparr> else b)"

definition done_call :: "output_item \<Rightarrow> stream_block \<Rightarrow> stream_block" where
  "done_call item b =
     (let b = (if b_call_id b = [] \<and> oi_call_id item \<noteq> [] then b\<lparr>b_call_id := oi_call_id item\<rparr> else b);
          b = (if b_name b = [] \<and> oi_name item \<noteq> [] then b\<lparr>b_name := oi_name item\<rparr> else b);
          b = (if b_full_args b = [] \<and> oi_arguments item \<noteq> [] then b\<lparr>b_full_args := oi_arguments item\<rparr> else b)
      in b\<lparr>b_args_done := True\<rparr>)"

definition done_reasoning :: "output_item \<Rightarrow> stream_block \<Rightarrow> stream_block" where
  "done_reasoning item b =
     (let b = (if oi_id item \<noteq> [] then b\<lparr>b_reasoning_id := oi_id item\<rparr> else b)
      in if oi_encrypted item \<noteq> [] then b\<lparr>b_reasoning_enc := oi_encrypted item\<rparr> else b)"

definition on_item_added :: "env \<Rightarrow> config \<Rightarrow> stream_event \<Rightarrow> tstate \<Rightarrow> outcome" where
  "on_item_added ev cf e t =
     (case se_item e of
        None \<Rightarrow> ok t
      | Some item \<Rightarrow>
          (if oi_type item = ''function_call'' then
             and_then (ensure_started ev cf t) (\<lambda>t.
               let k = se_output_index e;
                   t = block_for cf k BlockToolUse (t\<lparr>ts_saw_tool_use := True\<rparr>);
                   b = added_call item (the_block t k);
                   t = set_block k b t
               in if b_call_id b \<noteq> [] \<and> b_name b \<noteq> [] \<and> ts_active t = None
                  then open_block ev cf k t else ok t)
           else ok t))"

definition on_content_part_added :: "env \<Rightarrow> config \<Rightarrow> stream_event \<Rightarrow> tstate \<Rightarrow> outcome" where
  "on_content_part_added ev cf e t =
     and_then (ensure_started ev cf t) (\<lambda>t.
       let t = block_for cf (se_output_index e) BlockText t
       in if ts_active t = None then open_block ev cf (se_output_index e) t else ok t)"

definition on_reasoning_part_added :: "env \<Rightarrow> config \<Rightarrow> stream_event \<Rightarrow> tstate \<Rightarrow> outcome" where
  "on_reasoning_part_added ev cf e t =
     and_then (ensure_started ev cf t) (\<lambda>t.
       let t = block_for cf (se_output_index e) BlockThinking t
       in if b_dropped (the_block t (se_output_index e)) then ok t
          else if ts_active t = None then open_block ev cf (se_output_index e) t else ok t)"

definition on_item_done :: "env \<Rightarrow> config \<Rightarrow> stream_event \<Rightarrow> tstate \<Rightarrow> outcome" where
  "on_item_done ev cf e t =
     (case se_item e of
        None \<Rightarrow> ok t
      | Some item \<Rightarrow>
          let k = se_output_index e in
          (if oi_type item = ''function_call'' then
             (let t = block_for cf k BlockToolUse (t\<lparr>ts_saw_tool_use := True\<rparr>);
                  t = set_block k (done_call item (the_block t k)) t
              in mark_done_or_close ev cf k t)
           else if oi_type item = ''reasoning'' then
             (if ts_blocks t k = None \<and> oi_encrypted item = [] then ok t
              else
                let t = (if ts_blocks t k = None then block_for cf k BlockThinking t else t);
                    t = set_block k (done_reasoning item (the_block t k)) t
                in mark_done_or_close ev cf k t)
           else
             (if ts_blocks t k = None then ok t else mark_done_or_close ev cf k t)))"

section \<open>Dispatch\<close>

definition count_unknown :: "string \<Rightarrow> tstate \<Rightarrow> tstate" where
  "count_unknown typ t =
     t\<lparr>ts_unknown := (ts_unknown t)(typ \<mapsto> (case ts_unknown t typ of None \<Rightarrow> 1 | Some n \<Rightarrow> n + 1))\<rparr>"

definition on_delta ::
  "env \<Rightarrow> config \<Rightarrow> int \<Rightarrow> block_type \<Rightarrow> delta \<Rightarrow> tstate \<Rightarrow> outcome" where
  "on_delta ev cf k kind d t =
     and_then (ensure_started ev cf t) (\<lambda>t. push_delta ev cf k d (block_for cf k kind t))"

definition on_arguments_delta :: "env \<Rightarrow> config \<Rightarrow> stream_event \<Rightarrow> tstate \<Rightarrow> outcome" where
  "on_arguments_delta ev cf e t =
     and_then (ensure_started ev cf t) (\<lambda>t.
       let k = se_output_index e;
           t = block_for cf k BlockToolUse (t\<lparr>ts_saw_tool_use := True\<rparr>);
           t = set_block k ((the_block t k)\<lparr>b_args_seen := True\<rparr>) t
       in push_delta ev cf k (json_delta (se_delta e)) t)"

definition done_arguments :: "string \<Rightarrow> stream_block \<Rightarrow> stream_block" where
  "done_arguments args b =
     (if args \<noteq> [] then b\<lparr>b_full_args := args, b_args_done := True\<rparr> else b\<lparr>b_args_done := True\<rparr>)"

definition on_arguments_done :: "env \<Rightarrow> config \<Rightarrow> stream_event \<Rightarrow> tstate \<Rightarrow> outcome" where
  "on_arguments_done ev cf e t =
     (let k = se_output_index e;
          t = block_for cf k BlockToolUse t;
          t = set_block k (done_arguments (se_arguments e) (the_block t k)) t
      in mark_done_or_close ev cf k t)"

definition on_completed :: "env \<Rightarrow> config \<Rightarrow> stream_event \<Rightarrow> tstate \<Rightarrow> outcome" where
  "on_completed ev cf e t =
     (let t = (case se_response e of None \<Rightarrow> t | Some r \<Rightarrow> record_usage (cr_usage r) t)
      in and_then (ensure_started ev cf t) (finalize_clean ev cf))"

definition on_incomplete :: "env \<Rightarrow> config \<Rightarrow> stream_event \<Rightarrow> tstate \<Rightarrow> outcome" where
  "on_incomplete ev cf e t =
     (let t = (case se_response e of
                 None \<Rightarrow> t
               | Some r \<Rightarrow>
                   let t = (record_usage (cr_usage r) t)\<lparr>ts_incomplete := True\<rparr>
                   in if cr_incomplete_reason r = Some ''max_output_tokens''
                      then t\<lparr>ts_incomplete_max_tokens := True\<rparr> else t)
      in and_then (ensure_started ev cf t) (finalize_clean ev cf))"

definition failed_message :: "stream_event \<Rightarrow> string" where
  "failed_message e =
     (case se_response e of
        None \<Rightarrow> ''the upstream response failed''
      | Some r \<Rightarrow>
          (case cr_error_message r of
             None \<Rightarrow> ''the upstream response failed''
           | Some m \<Rightarrow> if m = [] then ''the upstream response failed'' else m))"

definition not_done :: "outcome \<Rightarrow> bool \<times> outcome" where
  "not_done r = (False, r)"

definition dispatch ::
  "env \<Rightarrow> config \<Rightarrow> string \<Rightarrow> stream_event \<Rightarrow> tstate \<Rightarrow> bool \<times> outcome" where
  "dispatch ev cf typ e t =
     (if typ = EventResponseCreated then
        not_done (ensure_started ev cf
          (case se_response e of None \<Rightarrow> t | Some r \<Rightarrow> t\<lparr>ts_response_id := cr_id r\<rparr>))
      else if typ = EventResponseInProgress then not_done (ok t)
      else if typ = EventOutputItemAdded then not_done (on_item_added ev cf e t)
      else if typ = EventContentPartAdded then not_done (on_content_part_added ev cf e t)
      else if typ = EventOutputTextDelta then
        not_done (on_delta ev cf (se_output_index e) BlockText (text_delta (se_delta e)) t)
      else if typ = EventOutputTextDone then
        not_done (mark_done_or_close ev cf (se_output_index e)
                   (block_for cf (se_output_index e) BlockText t))
      else if typ = EventReasoningSummaryPartAdded then not_done (on_reasoning_part_added ev cf e t)
      else if typ = EventReasoningSummaryTextDelta \<or> typ = EventReasoningTextDelta then
        not_done (on_delta ev cf (se_output_index e) BlockThinking (thinking_delta (se_delta e)) t)
      else if typ = EventReasoningSummaryTextDone \<or> typ = EventReasoningTextDone then
        not_done (ok t)
      else if typ = EventFunctionCallArgumentsDelta then not_done (on_arguments_delta ev cf e t)
      else if typ = EventFunctionCallArgumentsDone then not_done (on_arguments_done ev cf e t)
      else if typ = EventOutputItemDone then not_done (on_item_done ev cf e t)
      else if typ = EventContentPartDone then not_done (ok t)
      else if typ = EventResponseCompleted then (True, on_completed ev cf e t)
      else if typ = EventResponseIncomplete then (True, on_incomplete ev cf e t)
      else if typ = EventResponseFailed then fail ev (failed_message e) t
      else if typ = EventError then
        fail ev (if se_message e = [] then ''upstream error'' else se_message e) t
      else not_done (ok (count_unknown typ t)))"

definition handle ::
  "env \<Rightarrow> (string \<Rightarrow> stream_event option) \<Rightarrow> config \<Rightarrow> frame \<Rightarrow> tstate \<Rightarrow> bool \<times> outcome" where
  "handle ev unmarshal cf fr t =
     (case (if fr_data fr = [] then Some zero_event else unmarshal (fr_data fr)) of
        None \<Rightarrow> not_done (ok (count_unknown ''<malformed-json>'' t))
      | Some e \<Rightarrow> dispatch ev cf (if se_type e = [] then fr_event fr else se_type e) e t)"

section \<open>The run\<close>

text \<open>One choice of the select statement.\<close>

datatype signal =
    FrameIn frame
  | ScanEnd "go_error option"
  | HeartbeatTick
  | IdleTick
  | CtxDone go_error

datatype loop_end = Running tstate | Returned "failure option" tstate

text \<open>A timer that is disabled has a nil channel, which never delivers.\<close>

fun run_loop ::
  "env \<Rightarrow> (string \<Rightarrow> stream_event option) \<Rightarrow> config \<Rightarrow> tstate \<Rightarrow> signal list \<Rightarrow> loop_end" where
  "run_loop ev um cf t [] = Running t"
| "run_loop ev um cf t (CtxDone e # ss) = Returned (Some (Fail e)) t"
| "run_loop ev um cf t (FrameIn fr # ss) =
     (case handle ev um cf fr t of
        (dn, Some e, t') \<Rightarrow> Returned (Some e) t'
      | (dn, None, t') \<Rightarrow>
          if dn \<or> ts_terminus t' \<noteq> TerminusNone then Returned None t'
          else run_loop ev um cf t' ss)"
| "run_loop ev um cf t (ScanEnd e # ss) =
     (case handle_end ev cf e t of (err, t') \<Rightarrow> Returned err t')"
| "run_loop ev um cf t (HeartbeatTick # ss) =
     (if cf_heartbeat cf \<le> 0 \<or> \<not> ts_started t then run_loop ev um cf t ss
      else case emit ev Ping t of
             (Some e, t') \<Rightarrow> Returned (Some e) t'
           | (None, t') \<Rightarrow> run_loop ev um cf t' ss)"
| "run_loop ev um cf t (IdleTick # ss) =
     (if cf_upstream_idle cf \<le> 0 then run_loop ev um cf t ss
      else case handle_end ev cf (Some ErrIdleTimeout) t of (err, t') \<Rightarrow> Returned err t')"

definition run ::
  "env \<Rightarrow> (string \<Rightarrow> stream_event option) \<Rightarrow> stream_options \<Rightarrow> signal list \<Rightarrow> loop_end" where
  "run ev um opt ss = (case new_translator opt of (cf, n) \<Rightarrow> run_loop ev um cf (reset n) ss)"

record result =
  rs_started :: bool
  rs_terminus :: terminus
  rs_stop_reason :: stop_reason
  rs_output_tokens :: int
  rs_input_tokens :: int
  rs_cached_tokens :: int
  rs_created_tokens :: int
  rs_unknown :: "string \<rightharpoonup> nat"

definition result_of :: "tstate \<Rightarrow> result" where
  "result_of t =
     \<lparr>rs_started = ts_started t, rs_terminus = ts_terminus t, rs_stop_reason = ts_final_stop t,
      rs_output_tokens = u_output (ts_final_usage t), rs_input_tokens = u_input (ts_final_usage t),
      rs_cached_tokens = u_cache_read (ts_final_usage t),
      rs_created_tokens = u_cache_creation (ts_final_usage t),
      rs_unknown = ts_unknown t\<rparr>"

end
