(* ===== verification/StreamInv.thy ===== *)
theory StreamInv
  imports Translator
begin

text \<open>
  The invariant of a run of the translator, and that every operation keeps it: the
  calls made so far follow the grammar of \<open>Sink\<close>, and the grammar's state is the one
  that the fields of the translator describe. The lemmas are weakest-precondition
  style rules over \<open>result_ok\<close>, one per operation, in the order of the code.
\<close>

section \<open>The invariant\<close>

definition block_ok :: "int option \<Rightarrow> int \<Rightarrow> stream_block \<Rightarrow> bool" where
  "block_ok act k b \<longleftrightarrow>
     (b_started b \<and> \<not> b_stopped b \<longleftrightarrow> act = Some k) \<and>
     (b_stopped b \<longrightarrow> b_started b) \<and>
     (b_dropped b \<longrightarrow> \<not> b_started b) \<and>
     (b_started b \<longrightarrow> b_pending b = []) \<and>
     list_all known_delta (b_pending b)"

definition table_ok :: "tstate \<Rightarrow> bool" where
  "table_ok t \<longleftrightarrow>
     distinct (ts_order t) \<and> set (ts_order t) = dom (ts_blocks t) \<and>
     (\<forall>k b. ts_blocks t k = Some b \<longrightarrow> block_ok (ts_active t) k b) \<and>
     (\<forall>k. ts_active t = Some k \<longrightarrow> ts_started t \<and>
        (\<exists>b. ts_blocks t k = Some b \<and> b_index b = ts_next_index t - 1)) \<and>
     (\<not> ts_started t \<longrightarrow> ts_next_index t = 0)"

definition phase_of :: "tstate \<Rightarrow> phase" where
  "phase_of t =
     (case ts_terminus t of
        TerminusClean \<Rightarrow> Done
      | TerminusErrored \<Rightarrow> Failed
      | TerminusNone \<Rightarrow>
          (if \<not> ts_started t then Idle
           else case ts_active t of
             None \<Rightarrow> Between (ts_next_index t)
           | Some k \<Rightarrow> Open (ts_next_index t - 1)))"

lemma phase_of_cong:
  "ts_terminus t' = ts_terminus t \<Longrightarrow> ts_started t' = ts_started t \<Longrightarrow>
   ts_active t' = ts_active t \<Longrightarrow> ts_next_index t' = ts_next_index t \<Longrightarrow> phase_of t' = phase_of t"
  by (simp add: phase_of_def split: terminus.split option.split)

definition tinv :: "tstate \<Rightarrow> bool" where
  "tinv t \<longleftrightarrow> table_ok t \<and> sink_phase (ts_out t) = phase_of t"

definition live :: "tstate \<Rightarrow> bool" where
  "live t \<longleftrightarrow> tinv t \<and> ts_terminus t = TerminusNone"

text \<open>
  An outcome is fine when it succeeds in a state that satisfies \<open>P\<close>, or fails
  because the sink refused a call that the grammar allows.
\<close>

definition sink_refused :: "env \<Rightarrow> go_error \<Rightarrow> tstate \<Rightarrow> bool" where
  "sink_refused ev e t \<longleftrightarrow>
     (\<exists>h c. ts_out t = h @ [c] \<and> well_formed (h @ [c]) \<and> ev_sink ev h c = Some e)"

definition result_ok :: "env \<Rightarrow> (tstate \<Rightarrow> bool) \<Rightarrow> outcome \<Rightarrow> bool" where
  "result_ok ev P r =
     (case r of
        (None, t) \<Rightarrow> P t
      | (Some (Fail e), t) \<Rightarrow> sink_refused ev e t
      | (Some Diverge, t) \<Rightarrow> False)"

section \<open>Rules for outcomes\<close>

lemma table_ok_out [simp]: "table_ok (t\<lparr>ts_out := x\<rparr>) = table_ok t"
  by (simp add: table_ok_def)

lemma table_ok_terminus [simp]: "table_ok (t\<lparr>ts_terminus := x\<rparr>) = table_ok t"
  by (simp add: table_ok_def)

lemma result_ok_ok [simp]: "result_ok ev P (ok t) = P t"
  by (simp add: result_ok_def ok_def)

lemma result_ok_and_then:
  "result_ok ev P r \<Longrightarrow> (\<And>t. r = (None, t) \<Longrightarrow> P t \<Longrightarrow> result_ok ev Q (f t)) \<Longrightarrow>
   result_ok ev Q (and_then r f)"
  by (auto simp: result_ok_def and_then_def split: prod.splits option.splits)

lemma result_ok_mono:
  "result_ok ev P r \<Longrightarrow> (\<And>t. r = (None, t) \<Longrightarrow> P t \<Longrightarrow> Q t) \<Longrightarrow> result_ok ev Q r"
  by (auto simp: result_ok_def split: prod.splits option.splits)

lemma result_ok_emit:
  "phase_step (sink_phase (ts_out t)) c \<noteq> Bad \<Longrightarrow> P (t\<lparr>ts_out := ts_out t @ [c]\<rparr>) \<Longrightarrow>
   result_ok ev P (emit ev c t)"
  by (auto simp: result_ok_def emit_def sink_refused_def well_formed_def split: option.splits)

lemma result_ok_None: "result_ok ev P r \<Longrightarrow> r = (None, t) \<Longrightarrow> P t"
  by (simp add: result_ok_def)

section \<open>Starting the stream\<close>

lemma seed_frame: "seed cf t = (n, t') \<Longrightarrow>
    ts_blocks t' = ts_blocks t \<and> ts_order t' = ts_order t \<and> ts_active t' = ts_active t \<and>
    ts_next_index t' = ts_next_index t \<and> ts_started t' = ts_started t \<and>
    ts_terminus t' = ts_terminus t \<and> ts_out t' = ts_out t \<and>
    the_stop_reason t' = the_stop_reason t"
  by (auto simp: seed_def the_stop_reason_def split: option.splits if_splits)

lemma live_inactive_unstarted:
  "live t \<Longrightarrow> \<not> ts_started t \<Longrightarrow> ts_active t = None \<and> ts_next_index t = 0 \<and> sink_phase (ts_out t) = Idle"
  by (auto simp: live_def tinv_def table_ok_def phase_of_def)

lemma ensure_started_ok:
  assumes "live t"
  shows "result_ok ev (\<lambda>t'. live t' \<and> ts_started t') (ensure_started ev cf t)"
proof (cases "ts_started t")
  case False
  obtain n t1 where s: "seed cf (t\<lparr>ts_started := True\<rparr>) = (n, t1)" by fastforce
  note f = seed_frame [OF s]
  note u = live_inactive_unstarted [OF assms False]
  have "table_ok t1"
    using assms f u by (auto simp: live_def tinv_def table_ok_def)
  with f u False assms show ?thesis
    unfolding ensure_started_def
    by (auto simp: s live_def tinv_def phase_of_def intro!: result_ok_emit)
qed (use assms in \<open>simp add: ensure_started_def\<close>)

lemma ensure_started_run:
  "live t \<Longrightarrow> (\<And>t'. live t' \<Longrightarrow> ts_started t' \<Longrightarrow> result_ok ev Q (f t')) \<Longrightarrow>
   result_ok ev Q (and_then (ensure_started ev cf t) f)"
  by (rule result_ok_and_then [OF ensure_started_ok]) auto

section \<open>The block table\<close>

lemma block_for_simps [simp]:
  "ts_active (block_for cf k kind t) = ts_active t"
  "ts_started (block_for cf k kind t) = ts_started t"
  "ts_terminus (block_for cf k kind t) = ts_terminus t"
  "ts_out (block_for cf k kind t) = ts_out t"
  "ts_next_index (block_for cf k kind t) = ts_next_index t"
  by (auto simp: block_for_def split: option.splits)

lemma block_for_Some:
  "\<exists>b. ts_blocks (block_for cf k kind t) k = Some b"
  by (auto simp: block_for_def split: option.splits)

lemma block_for_table: "table_ok t \<Longrightarrow> table_ok (block_for cf k kind t)"
  by (auto simp: table_ok_def block_for_def block_ok_def new_block_def split: option.splits)

lemma block_for_live [intro]: "live t \<Longrightarrow> live (block_for cf k kind t)"
  by (simp add: live_def tinv_def block_for_table phase_of_cong [of "block_for cf k kind t" t])

text \<open>An update of a block that leaves alone what the invariant is about.\<close>

definition same_core :: "stream_block \<Rightarrow> stream_block \<Rightarrow> bool" where
  "same_core b b' \<longleftrightarrow> b_index b' = b_index b \<and> b_started b' = b_started b \<and>
     b_stopped b' = b_stopped b \<and> b_dropped b' = b_dropped b \<and> b_pending b' = b_pending b"

lemma set_block_table:
  assumes "table_ok t" and "ts_blocks t k = Some b" and "same_core b b'"
  shows "table_ok (set_block k b' t)"
  using assms by (auto simp: table_ok_def same_core_def block_ok_def split: if_splits)

lemma set_block_live:
  "live t \<Longrightarrow> ts_blocks t k = Some b \<Longrightarrow> same_core b b' \<Longrightarrow> live (set_block k b' t)"
  by (simp add: live_def tinv_def set_block_table phase_of_cong [of "set_block k b' t" t])

text \<open>Fields that the invariant does not read.\<close>

lemma live_cong:
  assumes "ts_blocks t' = ts_blocks t" "ts_order t' = ts_order t" "ts_active t' = ts_active t"
    "ts_next_index t' = ts_next_index t" "ts_started t' = ts_started t"
    "ts_terminus t' = ts_terminus t" "ts_out t' = ts_out t"
  shows "live t' = live t"
proof -
  have "table_ok t' = table_ok t" unfolding table_ok_def assms ..
  then show ?thesis
    by (simp only: live_def tinv_def assms phase_of_cong [OF assms(6,5,3,4)])
qed

lemma live_fields [simp]:
  "live (t\<lparr>ts_saw_tool_use := x\<rparr>) = live t"
  "live (t\<lparr>ts_incomplete := y\<rparr>) = live t"
  "live (t\<lparr>ts_incomplete_max_tokens := y\<rparr>) = live t"
  "live (t\<lparr>ts_response_id := r\<rparr>) = live t"
  "live (t\<lparr>ts_usage := u, ts_usage_seen := z\<rparr>) = live t"
  "live (t\<lparr>ts_unknown := v\<rparr>) = live t"
  "live (t\<lparr>ts_final_stop := w, ts_final_usage := u\<rparr>) = live t"
  by (rule live_cong; simp)+

section \<open>Opening and stopping a block\<close>

lemma result_ok_flush:
  assumes "sink_phase (ts_out t) = Open i" and "list_all known_delta ds"
    and "P (t\<lparr>ts_out := ts_out t @ map (BlockDelta i) ds\<rparr>)"
  shows "result_ok ev P (flush_pending ev i ds t)"
  using assms
proof (induction ds arbitrary: t)
  case (Cons d ds)
  have "result_ok ev P (flush_pending ev i ds (t\<lparr>ts_out := ts_out t @ [BlockDelta i d]\<rparr>))"
    by (rule Cons.IH) (use Cons.prems in auto)
  with Cons.prems show ?case
    by (auto intro!: result_ok_and_then [where P = "\<lambda>t'. t' = t\<lparr>ts_out := ts_out t @ [BlockDelta i d]\<rparr>"]
        result_ok_emit)
qed simp

lemma phase_flush:
  "sink_phase cs = Open i \<Longrightarrow> list_all known_delta ds \<Longrightarrow>
   sink_phase (cs @ map (BlockDelta i) ds) = Open i"
  by (induction ds rule: rev_induct) (auto simp: append_assoc [symmetric] simp del: append_assoc)

lemma table_ok_opened:
  assumes "table_ok t" "ts_active t = None" "ts_started t" "ts_blocks t k = Some b"
    "\<not> b_started b" "\<not> b_stopped b" "\<not> b_dropped b"
    and "ts_blocks t' = (ts_blocks t)(k \<mapsto> opened (ts_next_index t) b)"
    "ts_order t' = ts_order t" "ts_active t' = Some k" "ts_next_index t' = ts_next_index t + 1"
    "ts_started t'"
  shows "table_ok t'"
  using assms by (auto simp: table_ok_def block_ok_def split: if_splits)

lemma open_block_ok:
  assumes t: "live t" "ts_active t = None" "ts_blocks t k = Some b"
    and b: "\<not> b_started b" "\<not> b_stopped b" "\<not> b_dropped b"
  shows "result_ok ev (\<lambda>t'. live t' \<and> ts_started t') (open_block ev cf k t)"
proof -
  have kn: "list_all known_delta (b_pending b)"
    using t by (auto simp: live_def tinv_def table_ok_def block_ok_def)
  show ?thesis
    unfolding open_block_def
  proof (simp add: t b Let_def, rule result_ok_and_then [OF ensure_started_ok [OF t(1)]])
    fix t1 assume e: "ensure_started ev cf t = (None, t1)" and l: "live t1 \<and> ts_started t1"
    note f = ensure_started_None [OF e]
    with t l have b1: "the_block t1 k = b" and bl: "ts_blocks t1 k = Some b"
      and ph: "sink_phase (ts_out t1) = Between (ts_next_index t1)"
      by (auto simp: live_def tinv_def phase_of_def)
    let ?i = "ts_next_index t1"
    let ?b = "b\<lparr>b_index := ?i, b_started := True\<rparr>"
    let ?t2 = "(set_block k ?b t1)\<lparr>ts_next_index := ?i + 1, ts_active := Some k\<rparr>"
    let ?t3 = "?t2\<lparr>ts_out := ts_out ?t2 @ [BlockStart ?i (content_block_of ?b)]\<rparr>"
    let ?t4 = "?t3\<lparr>ts_out := ts_out ?t3 @ map (BlockDelta ?i) (b_pending b)\<rparr>"
    let ?t5 = "set_block k (?b\<lparr>b_pending := [], b_bytes := 0\<rparr>) ?t4"
    have op: "?b\<lparr>b_pending := [], b_bytes := 0\<rparr> = opened ?i b" by (simp add: opened_def)
    have ph3: "sink_phase (ts_out ?t3) = Open ?i" using ph by simp
    have "table_ok ?t5"
      by (rule table_ok_opened [of t1 k b]) (use t l f bl b op in \<open>auto simp: live_def tinv_def\<close>)
    moreover have "sink_phase (ts_out ?t5) = phase_of ?t5"
      using phase_flush [OF ph3 kn] l by (simp add: phase_of_def live_def)
    ultimately have "live ?t5 \<and> ts_started ?t5"
      using l by (simp add: live_def tinv_def)
    then show "result_ok ev (\<lambda>t'. live t' \<and> ts_started t')
      (and_then (emit ev (BlockStart ?i (content_block_of ((the_block t1 k)\<lparr>b_index := ?i, b_started := True\<rparr>)))
          ((set_block k ((the_block t1 k)\<lparr>b_index := ?i, b_started := True\<rparr>) t1)
            \<lparr>ts_next_index := ?i + 1, ts_active := Some k\<rparr>))
        (\<lambda>t. and_then (flush_pending ev ?i (b_pending (the_block t1 k)) t)
          (\<lambda>t. ok (set_block k ((the_block t1 k)\<lparr>b_index := ?i, b_started := True, b_pending := [], b_bytes := 0\<rparr>) t))))"
      unfolding b1
      by (intro result_ok_and_then [where P = "\<lambda>t'. t' = ?t3"] result_ok_and_then [where P = "\<lambda>t'. t' = ?t4"]
            result_ok_emit)
         (use ph ph3 kn in \<open>auto intro!: result_ok_flush\<close>)
  qed
qed

lemma final_delta_known: "final_delta ev k b t = Some d \<Longrightarrow> known_delta d"
  by (auto simp: final_delta_def split: block_type.splits if_splits)

lemma live_active:
  assumes "live t" "ts_active t = Some k"
  obtains b where "ts_blocks t k = Some b" "the_block t k = b" "b_index b = ts_next_index t - 1"
    "b_started b" "\<not> b_stopped b" "\<not> b_dropped b" "ts_started t"
    "sink_phase (ts_out t) = Open (ts_next_index t - 1)"
proof -
  from assms obtain b where "ts_blocks t k = Some b" "b_index b = ts_next_index t - 1" "ts_started t"
    "block_ok (Some k) k b" "sink_phase (ts_out t) = Open (ts_next_index t - 1)"
    by (fastforce simp: live_def tinv_def table_ok_def phase_of_def)
  then show thesis by (intro that [of b]) (auto simp: block_ok_def)
qed

lemma table_ok_stopped:
  assumes "table_ok t" "ts_active t = Some k" "ts_blocks t k = Some b"
    and "ts_blocks t' = (ts_blocks t)(k \<mapsto> b\<lparr>b_stopped := True\<rparr>)"
    "ts_order t' = ts_order t" "ts_active t' = None" "ts_next_index t' = ts_next_index t"
    "ts_started t'"
  shows "table_ok t'"
  using assms by (auto simp: table_ok_def block_ok_def split: if_splits)

lemma stop_opened_ok:
  assumes t: "live t" "ts_active t = Some k"
  shows "result_ok ev (\<lambda>t'. live t' \<and> ts_started t' \<and> ts_active t' = None) (stop_opened ev k t)"
proof -
  from t obtain b where b: "ts_blocks t k = Some b" "the_block t k = b" "b_index b = ts_next_index t - 1"
    "ts_started t" and ph: "sink_phase (ts_out t) = Open (b_index b)"
    by (rule live_active) auto
  define fd where "fd = (case final_delta ev k b t of None \<Rightarrow> [] | Some d \<Rightarrow> [BlockDelta (b_index b) d])"
  let ?t1 = "t\<lparr>ts_out := ts_out t @ fd\<rparr>"
  let ?t2 = "?t1\<lparr>ts_out := ts_out ?t1 @ [BlockStop (b_index b)]\<rparr>"
  let ?t3 = "(set_block k (b\<lparr>b_stopped := True\<rparr>) ?t2)\<lparr>ts_active := None\<rparr>"
  have ph1: "sink_phase (ts_out ?t1) = Open (b_index b)"
    using ph by (auto simp: fd_def split: option.split dest: final_delta_known)
  have ph2: "sink_phase ((ts_out t @ fd) @ [BlockStop (b_index b)]) = Between (b_index b + 1)"
    using ph1 by (simp del: append_assoc)
  have "table_ok ?t3"
    by (rule table_ok_stopped [of t k b]) (use t b in \<open>auto simp: live_def tinv_def\<close>)
  moreover have "sink_phase (ts_out ?t3) = phase_of ?t3"
    using ph2 b t by (simp add: phase_of_def live_def)
  ultimately have l3: "live ?t3 \<and> ts_started ?t3 \<and> ts_active ?t3 = None"
    using b t by (simp add: live_def tinv_def)
  show ?thesis
    unfolding stop_opened_def Let_def b(2)
  proof (rule result_ok_and_then [where P = "\<lambda>t'. t' = ?t1"])
    show "result_ok ev (\<lambda>t'. t' = ?t1)
      (case final_delta ev k b t of None \<Rightarrow> ok t | Some d \<Rightarrow> emit ev (BlockDelta (b_index b) d) t)"
      using ph by (auto simp: fd_def split: option.split intro!: result_ok_emit dest: final_delta_known)
  qed (use ph1 l3 t in \<open>auto intro!: result_ok_and_then [where P = "\<lambda>t'. t' = ?t2"] result_ok_emit\<close>)
qed

lemma live_block_ok: "live t \<Longrightarrow> ts_blocks t k = Some b \<Longrightarrow> block_ok (ts_active t) k b"
  by (auto simp: live_def tinv_def table_ok_def)

text \<open>\<^verbatim>\<open>stopBlock\<close> on the active block, or on one that waits while none is active.\<close>

lemma stop_block_ok:
  assumes t: "live t" and b: "ts_blocks t k = Some b" "\<not> b_stopped b" "\<not> b_dropped b"
    and a: "ts_active t = Some k \<or> ts_active t = None"
  shows "result_ok ev (\<lambda>t'. live t' \<and> ts_started t' \<and> ts_active t' = None) (stop_block ev cf k t)"
proof (cases "b_started b")
  case True
  with live_block_ok [OF t b(1)] b have "ts_active t = Some k" by (simp add: block_ok_def)
  with True b stop_opened_ok [OF t] show ?thesis by (simp add: stop_block_cases)
next
  case False
  with live_block_ok [OF t b(1)] a b have n: "ts_active t = None" by (auto simp: block_ok_def)
  have "result_ok ev (\<lambda>t'. live t' \<and> ts_started t' \<and> ts_active t' = None)
      (and_then (open_block ev cf k t) (stop_opened ev k))"
  proof (rule result_ok_and_then [OF open_block_ok [OF t n b(1) False b(2,3)]])
    fix t1 assume "open_block ev cf k t = (None, t1)" and "live t1 \<and> ts_started t1"
    with open_block_None(3) [of ev cf k t t1] b False
    show "result_ok ev (\<lambda>t'. live t' \<and> ts_started t' \<and> ts_active t' = None) (stop_opened ev k t1)"
      by (intro stop_opened_ok) auto
  qed
  with False b show ?thesis by (simp add: stop_block_cases)
qed

section \<open>The loops\<close>

lemma drain_next_ok: "live t \<Longrightarrow> result_ok ev live (drain_next ev cf t)"
proof (induction ev cf t rule: drain_next.induct)
  case (1 ev cf t)
  show ?case
  proof (cases "ts_active t = None \<and> first_buffering t \<noteq> None")
    case True
    then obtain k where n: "ts_active t = None" and f: "first_buffering t = Some k" by auto
    from first_buffering_Some [OF f] obtain b where b: "ts_blocks t k = Some b"
      "\<not> b_started b" "\<not> b_stopped b" "\<not> b_dropped b" by blast
    have "result_ok ev live (and_then (open_block ev cf k t) (\<lambda>t.
            if b_done (the_block t k) then and_then (stop_block ev cf k t) (drain_next ev cf) else ok t))"
    proof (rule result_ok_and_then [OF open_block_ok [OF "1.prems" n b]])
      fix t1 assume o1: "open_block ev cf k t = (None, t1)" and l1: "live t1 \<and> ts_started t1"
      from open_block_None(1,3) [OF o1] b have b1: "ts_blocks t1 k = Some (opened (ts_next_index t) b)"
        and a1: "ts_active t1 = Some k" by auto
      have "result_ok ev live (and_then (stop_block ev cf k t1) (drain_next ev cf))"
        if d: "b_done (the_block t1 k)"
      proof (rule result_ok_and_then [OF stop_block_ok [OF _ b1]])
        fix t2 assume s: "stop_block ev cf k t1 = (None, t2)"
          and "live t2 \<and> ts_started t2 \<and> ts_active t2 = None"
        then show "result_ok ev live (drain_next ev cf t2)"
          using "1.IH" [OF _ f o1 d s] n by simp
      qed (use l1 b1 a1 b in auto)
      with l1 show "result_ok ev live
        (if b_done (the_block t1 k) then and_then (stop_block ev cf k t1) (drain_next ev cf) else ok t1)"
        by simp
    qed
    with n f show ?thesis by (simp add: drain_next.simps [of ev cf t])
  next
    case False
    with "1.prems" show ?thesis by (auto simp: drain_next.simps [of ev cf t])
  qed
qed

lemma next_unfinished_block:
  assumes "live t" and "next_unfinished t = Some k"
  shows "\<exists>b. ts_blocks t k = Some b \<and> \<not> b_stopped b \<and> \<not> b_dropped b"
proof (cases "ts_active t")
  case None
  with assms show ?thesis by (auto simp: next_unfinished_def dest: first_buffering_Some)
next
  case (Some j)
  with assms(2) have "ts_active t = Some k" by (simp add: next_unfinished_def)
  with assms(1) show ?thesis by (rule live_active) auto
qed

text \<open>The loop of \<^verbatim>\<open>finalizeAllBlocks\<close> ends, and leaves no block open or waiting.\<close>

lemma finalize_all_ok:
  "live t \<Longrightarrow> ts_started t \<Longrightarrow>
   result_ok ev (\<lambda>t'. live t' \<and> ts_started t' \<and> ts_active t' = None \<and> waiting t' = 0)
     (finalize_all ev cf t)"
proof (induction ev cf t rule: finalize_all.induct)
  case (1 ev cf t)
  show ?case
  proof (cases "next_unfinished t")
    case None
    then have "ts_active t = None" "waiting t = 0"
      by (auto simp: next_unfinished_def first_buffering_None [symmetric] split: option.splits)
    with None "1.prems" show ?thesis by (simp add: finalize_all.simps [of ev cf t])
  next
    case (Some k)
    with next_unfinished_block "1.prems"(1)
    obtain b where b: "ts_blocks t k = Some b" "\<not> b_stopped b" "\<not> b_dropped b" by blast
    then have nb: "\<not> (b_stopped (the_block t k) \<or> b_dropped (the_block t k))" by simp
    from Some have a: "ts_active t = Some k \<or> ts_active t = None"
      by (auto simp: next_unfinished_def split: option.splits)
    have "result_ok ev (\<lambda>t'. live t' \<and> ts_started t' \<and> ts_active t' = None \<and> waiting t' = 0)
        (and_then (stop_block ev cf k t) (finalize_all ev cf))"
      by (rule result_ok_and_then [OF stop_block_ok [OF "1.prems"(1) b a]])
         (use "1.IH" [OF Some nb] in auto)
    with Some nb show ?thesis by (simp add: finalize_all.simps [of ev cf t])
  qed
qed

lemma close_active_ok: "live t \<Longrightarrow> result_ok ev live (close_active ev cf t)"
proof (cases "ts_active t")
  case (Some k)
  assume l: "live t"
  from l Some obtain b where b: "ts_blocks t k = Some b" "\<not> b_stopped b" "\<not> b_dropped b"
    by (rule live_active)
  with Some l show ?thesis
    by (auto simp: close_active_def intro!: result_ok_and_then [OF stop_block_ok] drain_next_ok)
qed (simp add: close_active_def)

lemma mark_done_or_close_ok:
  assumes "live t" and "ts_blocks t k = Some b"
  shows "result_ok ev live (mark_done_or_close ev cf k t)"
proof -
  have "live (set_block k (b\<lparr>b_done := True\<rparr>) t)"
    using assms by (rule set_block_live) (simp add: same_core_def)
  with assms show ?thesis
    by (auto simp: mark_done_or_close_def Let_def intro: close_active_ok drain_next_ok)
qed

section \<open>Failure, bounds and the terminus\<close>

lemma stop_block_truncated:
  assumes s: "stop_block ev cf k t = (None, t')" and b: "ts_blocks t k = Some b"
    and n: "\<not> b_stopped b" "\<not> b_dropped b"
  shows "truncated_call t' j = truncated_call t j"
proof (cases "b_started b")
  case True
  with s b n have "stop_opened ev k t = (None, t')" by (simp add: stop_block_cases)
  from stop_opened_None(1) [OF this] b show ?thesis by (simp add: truncated_call_def)
next
  case False
  with s b n obtain t1 where 1: "open_block ev cf k t = (None, t1)"
    and 2: "stop_opened ev k t1 = (None, t')" by (auto simp: stop_block_cases)
  have "\<not> b_started (the_block t k)" "\<not> b_stopped (the_block t k)" "\<not> b_dropped (the_block t k)"
    using b n False by simp_all
  from open_block_None(1) [OF 1 this] stop_opened_None(1) [OF 2] b show ?thesis
    by (simp add: truncated_call_def the_block_def)
qed

lemma stop_block_saw:
  assumes "stop_block ev cf k t = (None, t')"
  shows "ts_saw_tool_use t' = ts_saw_tool_use t \<and>
         ts_incomplete_max_tokens t' = ts_incomplete_max_tokens t"
proof -
  have e: "ensure_started ev cf t = (None, t') \<Longrightarrow> ts_saw_tool_use t' = ts_saw_tool_use t \<and>
      ts_incomplete_max_tokens t' = ts_incomplete_max_tokens t" for t t'
    by (auto simp: ensure_started_def seed_def Let_def dest!: emit_None
        split: if_splits prod.splits option.splits)
  have o: "open_block ev cf k t = (None, t') \<Longrightarrow> ts_saw_tool_use t' = ts_saw_tool_use t \<and>
      ts_incomplete_max_tokens t' = ts_incomplete_max_tokens t" for t t'
    by (auto simp: open_block_def Let_def set_block_def dest!: emit_None flush_pending_None e
        split: if_splits)
  have st: "stop_opened ev k t = (None, t') \<Longrightarrow> ts_saw_tool_use t' = ts_saw_tool_use t \<and>
      ts_incomplete_max_tokens t' = ts_incomplete_max_tokens t" for t t'
    by (auto simp: stop_opened_def Let_def set_block_def dest!: emit_None split: option.splits)
  show ?thesis
  proof (cases "b_stopped (the_block t k) \<or> b_dropped (the_block t k)")
    case True
    with assms show ?thesis by (simp add: stop_block_def)
  next
    case False
    with assms o st show ?thesis
      by (auto simp: stop_block_cases split: if_splits)
  qed
qed

lemma finalize_all_frame:
  "live t \<Longrightarrow> finalize_all ev cf t = (None, t') \<Longrightarrow>
   truncated_call t' = truncated_call t \<and> the_stop_reason t' = the_stop_reason t"
proof (induction ev cf t rule: finalize_all.induct)
  case (1 ev cf t)
  show ?case
  proof (cases "next_unfinished t")
    case (Some k)
    with next_unfinished_block "1.prems"(1) obtain b where b: "ts_blocks t k = Some b"
      "\<not> b_stopped b" "\<not> b_dropped b" by blast
    then have nb: "\<not> (b_stopped (the_block t k) \<or> b_dropped (the_block t k))" by simp
    with Some "1.prems"(2) obtain t1 where s: "stop_block ev cf k t = (None, t1)"
      and f: "finalize_all ev cf t1 = (None, t')"
      by (auto simp: finalize_all.simps [of ev cf t])
    from Some have a: "ts_active t = Some k \<or> ts_active t = None"
      by (auto simp: next_unfinished_def split: option.splits)
    have "live t1"
      using result_ok_None [OF stop_block_ok [OF "1.prems"(1) b a] s] by simp
    with "1.IH" [OF Some nb s] f
    have "truncated_call t' = truncated_call t1 \<and> the_stop_reason t' = the_stop_reason t1" by simp
    with stop_block_truncated [OF s b] stop_block_saw [OF s] show ?thesis
      by (auto simp: the_stop_reason_def)
  qed (use "1.prems" in \<open>auto simp: finalize_all.simps [of ev cf t]\<close>)
qed

definition errored :: "tstate \<Rightarrow> bool" where
  "errored t \<longleftrightarrow> tinv t \<and> ts_started t \<and> ts_terminus t = TerminusErrored"

text \<open>
  After a clean terminus every block is stopped or was dropped, no tool call is left
  with its arguments unfinished, and the last two calls report what the result reports.
\<close>

definition complete :: "tstate \<Rightarrow> bool" where
  "complete t \<longleftrightarrow>
     (\<forall>k b. ts_blocks t k = Some b \<longrightarrow> (b_stopped b \<or> b_dropped b) \<and> \<not> truncated_call t k) \<and>
     ts_final_stop t = the_stop_reason t \<and>
     (\<exists>cs. ts_out t = cs @ [MessageDelta (ts_final_stop t) (ts_final_usage t), MessageStop])"

definition ended :: "tstate \<Rightarrow> bool" where
  "ended t \<longleftrightarrow> tinv t \<and>
     (ts_terminus t = TerminusErrored \<or> ts_terminus t = TerminusClean \<and> complete t)"

definition unfinished :: "tstate \<Rightarrow> bool" where
  "unfinished t \<longleftrightarrow> tinv t \<and> ts_terminus t \<noteq> TerminusClean"

lemma errored_ended: "errored t \<Longrightarrow> ended t"
  by (simp add: errored_def ended_def)

lemma live_unfinished: "live t \<Longrightarrow> unfinished t"
  by (simp add: live_def unfinished_def)

text \<open>The close that precedes the error frame.\<close>

lemma error_close_ok:
  assumes t: "live t" "ts_active t = Some k"
  shows "result_ok ev (\<lambda>t'. live t' \<and> ts_started t' \<and> ts_active t' = None)
    (let b = the_block t k in
     and_then
       (if b_kind b = BlockThinking
        then emit ev (BlockDelta (b_index b) (signature_delta (synthetic_signature ev k b t))) t
        else ok t)
       (\<lambda>t. and_then (emit ev (BlockStop (b_index b)) t)
       (\<lambda>t. ok ((set_block k (b\<lparr>b_stopped := True\<rparr>) t)\<lparr>ts_active := None\<rparr>))))"
proof -
  from t obtain b where b: "ts_blocks t k = Some b" "the_block t k = b" "b_index b = ts_next_index t - 1"
    "ts_started t" and ph: "sink_phase (ts_out t) = Open (b_index b)"
    by (rule live_active) auto
  define fd where "fd = (if b_kind b = BlockThinking
    then [BlockDelta (b_index b) (signature_delta (synthetic_signature ev k b t))] else [])"
  let ?t1 = "t\<lparr>ts_out := ts_out t @ fd\<rparr>"
  let ?t2 = "?t1\<lparr>ts_out := ts_out ?t1 @ [BlockStop (b_index b)]\<rparr>"
  let ?t3 = "(set_block k (b\<lparr>b_stopped := True\<rparr>) ?t2)\<lparr>ts_active := None\<rparr>"
  have ph1: "sink_phase (ts_out ?t1) = Open (b_index b)"
    using ph by (auto simp: fd_def)
  have ph2: "sink_phase ((ts_out t @ fd) @ [BlockStop (b_index b)]) = Between (b_index b + 1)"
    using ph1 by (simp del: append_assoc)
  have "table_ok ?t3"
    by (rule table_ok_stopped [of t k b]) (use t b in \<open>auto simp: live_def tinv_def\<close>)
  moreover have "sink_phase (ts_out ?t3) = phase_of ?t3"
    using ph2 b t by (simp add: phase_of_def live_def)
  ultimately have l3: "live ?t3 \<and> ts_started ?t3 \<and> ts_active ?t3 = None"
    using b t by (simp add: live_def tinv_def)
  show ?thesis
    unfolding Let_def b(2)
  proof (rule result_ok_and_then [where P = "\<lambda>t'. t' = ?t1"])
    show "result_ok ev (\<lambda>t'. t' = ?t1) (if b_kind b = BlockThinking
        then emit ev (BlockDelta (b_index b) (signature_delta (synthetic_signature ev k b t))) t
        else ok t)"
      using ph by (auto simp: fd_def intro!: result_ok_emit)
  qed (use ph1 l3 t in \<open>auto intro!: result_ok_and_then [where P = "\<lambda>t'. t' = ?t2"] result_ok_emit\<close>)
qed

lemma emit_mid_stream_error_ok:
  assumes "live t" and "ts_started t"
  shows "result_ok ev errored (emit_mid_stream_error ev msg t)"
  unfolding emit_mid_stream_error_def
proof (rule result_ok_and_then [where P = "\<lambda>t'. live t' \<and> ts_started t' \<and> ts_active t' = None"])
  show "result_ok ev (\<lambda>t'. live t' \<and> ts_started t' \<and> ts_active t' = None)
    (case ts_active t of None \<Rightarrow> ok t
     | Some k \<Rightarrow> let b = the_block t k in
        and_then (if b_kind b = BlockThinking
          then emit ev (BlockDelta (b_index b) (signature_delta (synthetic_signature ev k b t))) t
          else ok t)
        (\<lambda>t. and_then (emit ev (BlockStop (b_index b)) t)
        (\<lambda>t. ok ((set_block k (b\<lparr>b_stopped := True\<rparr>) t)\<lparr>ts_active := None\<rparr>))))"
  proof (cases "ts_active t")
    case (Some k)
    with error_close_ok [OF assms(1) Some] show ?thesis by simp
  qed (use assms in simp)
next
  fix t1 assume "live t1 \<and> ts_started t1 \<and> ts_active t1 = None"
  then show "result_ok ev errored (emit ev (error_frame msg) (t1\<lparr>ts_terminus := TerminusErrored\<rparr>))"
    by (intro result_ok_emit)
       (auto simp: live_def tinv_def phase_of_def error_frame_def errored_def)
qed

lemma enforce_bounds_ok:
  assumes "live t" and "ts_started t"
  shows "result_ok ev unfinished (enforce_bounds ev cf t)"
proof -
  have "result_ok ev unfinished (emit_mid_stream_error ev bounds_message t)"
    by (rule result_ok_mono [OF emit_mid_stream_error_ok [OF assms]]) (auto simp: errored_def unfinished_def)
  with assms show ?thesis by (simp add: enforce_bounds_def Let_def live_unfinished)
qed

lemma table_ok_pend:
  assumes "table_ok t" and "ts_blocks t k = Some b" and "ts_active t \<noteq> Some k"
    and "\<not> b_stopped b" and "known_delta d"
  shows "table_ok (set_block k (b\<lparr>b_pending := b_pending b @ [d], b_bytes := n\<rparr>) t)"
  using assms by (auto simp: table_ok_def block_ok_def split: if_splits)

lemma push_delta_ok:
  assumes t: "live t" "ts_started t" and b: "ts_blocks t k = Some b" and d: "known_delta d"
  shows "result_ok ev unfinished (push_delta ev cf k d t)"
proof (cases "b_dropped b \<or> b_stopped b")
  case False
  consider (act) "ts_active t = Some k" | (free) "ts_active t = None"
    | (busy) "ts_active t \<noteq> Some k" "ts_active t \<noteq> None" by blast
  then show ?thesis
  proof cases
    case act
    with t(1) obtain b' where "the_block t k = b'" "b_index b' = ts_next_index t - 1"
      "sink_phase (ts_out t) = Open (ts_next_index t - 1)" by (rule live_active)
    with b d act False t show ?thesis
      by (auto simp: push_delta_def intro!: result_ok_emit simp: live_def tinv_def phase_of_def unfinished_def)
  next
    case free
    with live_block_ok [OF t(1) b] False have ns: "\<not> b_started b" by (simp add: block_ok_def)
    have "result_ok ev unfinished (and_then (open_block ev cf k t)
            (\<lambda>t. emit ev (BlockDelta (b_index (the_block t k)) d) t))"
    proof (rule result_ok_and_then [OF open_block_ok [OF t(1) free b ns]])
      fix t1 assume o1: "open_block ev cf k t = (None, t1)" and l: "live t1 \<and> ts_started t1"
      from open_block_None(3) [OF o1] b ns False have "ts_active t1 = Some k" by auto
      with l obtain b' where "the_block t1 k = b'" "b_index b' = ts_next_index t1 - 1"
        "sink_phase (ts_out t1) = Open (ts_next_index t1 - 1)" by (metis live_active)
      with d l \<open>ts_active t1 = Some k\<close>
      show "result_ok ev unfinished (emit ev (BlockDelta (b_index (the_block t1 k)) d) t1)"
        by (auto intro!: result_ok_emit simp: live_def tinv_def phase_of_def unfinished_def)
    qed (use False in auto)
    with free b False show ?thesis by (simp add: push_delta_def)
  next
    case busy
    let ?t = "set_block k (b\<lparr>b_pending := b_pending b @ [d], b_bytes := b_bytes b + delta_size d\<rparr>) t"
    have "table_ok ?t"
      using t b busy(1) False d by (intro table_ok_pend) (auto simp: live_def tinv_def)
    with t have "live ?t"
      by (simp add: live_def tinv_def phase_of_cong [of ?t t])
    with t busy b False show ?thesis by (auto simp: push_delta_def intro!: enforce_bounds_ok)
  qed
qed (use t b in \<open>auto simp: push_delta_def live_unfinished\<close>)

lemma finalized_block:
  "live t \<Longrightarrow> ts_active t = None \<Longrightarrow> waiting t = 0 \<Longrightarrow> ts_blocks t k = Some b \<Longrightarrow>
   b_stopped b \<or> b_dropped b"
  by (fastforce simp: live_def tinv_def table_ok_def block_ok_def waiting_def filter_empty_conv
      buffering_def dom_def)

lemma no_truncated:
  "live t \<Longrightarrow> \<not> list_ex (truncated_call t) (ts_order t) \<Longrightarrow> \<not> truncated_call t k"
  by (fastforce simp: live_def tinv_def table_ok_def list_ex_iff truncated_call_def
      split: option.splits)

lemma terminal_usage_frame: "terminal_usage cf t = (u, t') \<Longrightarrow> live t' = live t \<and>
    ts_active t' = ts_active t \<and> ts_started t' = ts_started t \<and> ts_terminus t' = ts_terminus t \<and>
    ts_out t' = ts_out t \<and> ts_next_index t' = ts_next_index t \<and> ts_blocks t' = ts_blocks t \<and>
    the_stop_reason t' = the_stop_reason t"
proof -
  assume u: "terminal_usage cf t = (u, t')"
  obtain n t1 where s: "seed cf t = (n, t1)" by fastforce
  from u have "t' = t \<or> t' = t1"
    by (cases "\<not> ts_usage_seen t \<or> prompt_tokens (ts_usage t) = 0")
       (simp_all add: terminal_usage_def Let_def s)
  with seed_frame [OF s] live_cong [of t1 t] show ?thesis by auto
qed

lemma finalize_clean_ok:
  assumes "live t" and "ts_started t"
  shows "result_ok ev ended (finalize_clean ev cf t)"
proof (cases "list_ex (truncated_call t) (ts_order t)")
  case True
  show ?thesis
    unfolding finalize_clean_def
    by (simp add: True) (rule result_ok_mono [OF emit_mid_stream_error_ok [OF assms] errored_ended])
next
  case False
  have "result_ok ev ended (and_then (finalize_all ev cf t) (\<lambda>t.
          let stop = the_stop_reason t; (u, t) = terminal_usage cf t
          in and_then (emit ev (MessageDelta stop u) t) (\<lambda>t.
             let t = t\<lparr>ts_final_stop := stop, ts_final_usage := u\<rparr>
             in and_then (emit ev MessageStop t) (\<lambda>t. ok (t\<lparr>ts_terminus := TerminusClean\<rparr>)))))"
  proof (rule result_ok_and_then [OF finalize_all_ok [OF assms]])
    fix t1 assume fa: "finalize_all ev cf t = (None, t1)"
      and l: "live t1 \<and> ts_started t1 \<and> ts_active t1 = None \<and> waiting t1 = 0"
    have nt: "\<not> truncated_call t1 k" for k
      using finalize_all_frame [OF assms(1) fa] no_truncated [OF assms(1) False] by simp
    have fin: "b_stopped b \<or> b_dropped b" if "ts_blocks t1 k = Some b" for k b
      using finalized_block that l by blast
    obtain u t2 where u: "terminal_usage cf t1 = (u, t2)" by fastforce
    note f = terminal_usage_frame [OF u]
    let ?s = "the_stop_reason t1"
    let ?t3 = "t2\<lparr>ts_out := ts_out t2 @ [MessageDelta ?s u]\<rparr>"
    let ?t4 = "?t3\<lparr>ts_final_stop := ?s, ts_final_usage := u\<rparr>"
    let ?t5 = "?t4\<lparr>ts_out := ts_out ?t4 @ [MessageStop]\<rparr>"
    have ph: "sink_phase (ts_out t2) = Between (ts_next_index t1)"
      using l f by (simp add: live_def tinv_def phase_of_def)
    then have ph4: "sink_phase (ts_out ?t4) = Tail" by simp
    have "table_ok t2" using l f by (simp add: live_def tinv_def)
    then have tb: "table_ok (?t5\<lparr>ts_terminus := TerminusClean\<rparr>)" by (simp add: table_ok_def)
    have done_phase: "sink_phase ((ts_out t2 @ [MessageDelta ?s u]) @ [MessageStop]) = Done"
      using ph by (simp del: append_assoc)
    have "the_stop_reason (?t5\<lparr>ts_terminus := TerminusClean\<rparr>) = the_stop_reason t2"
      by (simp add: the_stop_reason_def)
    moreover have "truncated_call (?t5\<lparr>ts_terminus := TerminusClean\<rparr>) k = truncated_call t1 k" for k
      using f by (simp add: truncated_call_def)
    ultimately have "complete (?t5\<lparr>ts_terminus := TerminusClean\<rparr>)"
      using nt fin f by (simp add: complete_def)
    with done_phase have "ended (?t5\<lparr>ts_terminus := TerminusClean\<rparr>)"
      using tb l f by (simp add: ended_def tinv_def phase_of_def)
    show "result_ok ev ended (let stop = the_stop_reason t1; (u, t) = terminal_usage cf t1
          in and_then (emit ev (MessageDelta stop u) t) (\<lambda>t.
             let t = t\<lparr>ts_final_stop := stop, ts_final_usage := u\<rparr>
             in and_then (emit ev MessageStop t) (\<lambda>t. ok (t\<lparr>ts_terminus := TerminusClean\<rparr>))))"
      unfolding u Let_def prod.case
    proof (rule result_ok_and_then [where P = "\<lambda>t'. t' = ?t3", OF result_ok_emit])
      fix t assume "t = ?t3"
      then show "result_ok ev ended (and_then
          (emit ev MessageStop (t\<lparr>ts_final_stop := ?s, ts_final_usage := u\<rparr>))
          (\<lambda>t. ok (t\<lparr>ts_terminus := TerminusClean\<rparr>)))"
        using ph4 \<open>ended (?t5\<lparr>ts_terminus := TerminusClean\<rparr>)\<close>
        by (intro result_ok_and_then [where P = "\<lambda>t'. t' = ?t5", OF result_ok_emit]) simp_all
    qed (use ph in simp_all)
  qed
  with False show ?thesis by (simp add: finalize_clean_def)
qed

section \<open>The handlers of events\<close>

lemma result_ok_live_unfinished: "result_ok ev live r \<Longrightarrow> result_ok ev unfinished r"
  by (erule result_ok_mono) (rule live_unfinished)

lemma result_ok_started_unfinished: "result_ok ev (\<lambda>t'. live t' \<and> ts_started t') r \<Longrightarrow> result_ok ev unfinished r"
  by (erule result_ok_mono) (simp add: live_unfinished)

text \<open>Opening a block whatever its state, as the handlers of added items do.\<close>

lemma open_any_ok:
  assumes "live t" "ts_active t = None" "ts_blocks t k = Some b"
  shows "result_ok ev unfinished (open_block ev cf k t)"
proof (cases "b_started b \<or> b_stopped b \<or> b_dropped b")
  case True
  with assms show ?thesis by (auto simp: open_block_def live_unfinished)
next
  case False
  with assms show ?thesis by (intro result_ok_started_unfinished open_block_ok) auto
qed

lemma block_for_block: obtains b where "ts_blocks (block_for cf k kind t) k = Some b"
  using block_for_Some by blast

lemma same_core_updates [simp]:
  "same_core b (added_call item b)" "same_core b (done_call item b)"
  "same_core b (done_reasoning item b)" "same_core b (done_arguments args b)"
  "same_core b (b\<lparr>b_args_seen := True\<rparr>)" "same_core b (b\<lparr>b_done := True\<rparr>)"
  by (simp_all add: same_core_def added_call_def done_call_def done_reasoning_def
      done_arguments_def Let_def)

lemma on_item_added_ok:
  assumes "live t"
  shows "result_ok ev unfinished (on_item_added ev cf e t)"
proof (cases "se_item e")
  case (Some item)
  let ?k = "se_output_index e"
  have "result_ok ev unfinished (and_then (ensure_started ev cf t) (\<lambda>t.
               let t = block_for cf ?k BlockToolUse (t\<lparr>ts_saw_tool_use := True\<rparr>);
                   b = added_call item (the_block t ?k);
                   t = set_block ?k b t
               in if b_call_id b \<noteq> [] \<and> b_name b \<noteq> [] \<and> ts_active t = None
                  then open_block ev cf ?k t else ok t))"
  proof (rule ensure_started_run [OF assms])
    fix t1 assume "live t1" "ts_started t1"
    let ?t = "block_for cf ?k BlockToolUse (t1\<lparr>ts_saw_tool_use := True\<rparr>)"
    from \<open>live t1\<close> have l2: "live ?t" by (simp add: block_for_live)
    obtain b where b: "ts_blocks ?t ?k = Some b" by (rule block_for_block)
    with l2 have "live (set_block ?k (added_call item b) ?t)" by (simp add: set_block_live)
    with b show "result_ok ev unfinished (let t = ?t; b = added_call item (the_block t ?k);
                   t = set_block ?k b t
               in if b_call_id b \<noteq> [] \<and> b_name b \<noteq> [] \<and> ts_active t = None
                  then open_block ev cf ?k t else ok t)"
      by (auto simp: Let_def live_unfinished intro!: open_any_ok)
  qed
  with assms Some show ?thesis by (simp add: on_item_added_def live_unfinished Let_def)
qed (use assms in \<open>simp add: on_item_added_def live_unfinished\<close>)

lemma on_content_part_added_ok: "live t \<Longrightarrow> result_ok ev unfinished (on_content_part_added ev cf e t)"
  unfolding on_content_part_added_def
proof (erule ensure_started_run)
  fix t1 assume l: "live t1"
  obtain b where "ts_blocks (block_for cf (se_output_index e) BlockText t1) (se_output_index e) = Some b"
    by (rule block_for_block)
  with l show "result_ok ev unfinished (let t = block_for cf (se_output_index e) BlockText t1
       in if ts_active t = None then open_block ev cf (se_output_index e) t else ok t)"
    by (auto simp: Let_def live_unfinished block_for_live intro!: open_any_ok)
qed

lemma on_reasoning_part_added_ok: "live t \<Longrightarrow> result_ok ev unfinished (on_reasoning_part_added ev cf e t)"
  unfolding on_reasoning_part_added_def
proof (erule ensure_started_run)
  fix t1 assume l: "live t1"
  obtain b where "ts_blocks (block_for cf (se_output_index e) BlockThinking t1) (se_output_index e) = Some b"
    by (rule block_for_block)
  with l show "result_ok ev unfinished (let t = block_for cf (se_output_index e) BlockThinking t1
       in if b_dropped (the_block t (se_output_index e)) then ok t
          else if ts_active t = None then open_block ev cf (se_output_index e) t else ok t)"
    by (auto simp: Let_def live_unfinished block_for_live intro!: open_any_ok)
qed

text \<open>A block whose bookkeeping was updated and that is then marked done.\<close>

lemma mark_updated_ok:
  assumes "live t" "ts_blocks t k = Some b" "same_core b b'"
  shows "result_ok ev unfinished (mark_done_or_close ev cf k (set_block k b' t))"
  by (rule result_ok_live_unfinished, rule mark_done_or_close_ok [of _ _ b'])
     (use assms set_block_live in auto)

lemma on_item_done_ok:
  assumes "live t"
  shows "result_ok ev unfinished (on_item_done ev cf e t)"
proof (cases "se_item e")
  case (Some item)
  let ?k = "se_output_index e"
  consider (call) "oi_type item = ''function_call''"
    | (none) "oi_type item \<noteq> ''function_call''" "ts_blocks t ?k = None"
    | (some) b where "oi_type item \<noteq> ''function_call''" "ts_blocks t ?k = Some b"
    by (cases "ts_blocks t ?k") auto
  then show ?thesis
  proof cases
    case call
    obtain b where b: "ts_blocks (block_for cf ?k BlockToolUse (t\<lparr>ts_saw_tool_use := True\<rparr>)) ?k = Some b"
      by (rule block_for_block)
    have "live (block_for cf ?k BlockToolUse (t\<lparr>ts_saw_tool_use := True\<rparr>))"
      using assms by (simp add: block_for_live)
    from mark_updated_ok [OF this b, of "done_call item b"] call Some b
    show ?thesis by (simp add: on_item_done_def Let_def)
  next
    case none
    obtain b where b: "ts_blocks (block_for cf ?k BlockThinking t) ?k = Some b"
      by (rule block_for_block)
    from mark_updated_ok [OF block_for_live [OF assms] b, of "done_reasoning item b"] none Some assms b
    show ?thesis by (simp add: on_item_done_def Let_def live_unfinished)
  next
    case (some b)
    from mark_updated_ok [OF assms some(2), of "done_reasoning item b"]
      result_ok_live_unfinished [OF mark_done_or_close_ok [OF assms some(2)]] some Some
    show ?thesis by (simp add: on_item_done_def Let_def)
  qed
qed (use assms in \<open>simp add: on_item_done_def live_unfinished\<close>)

lemma on_delta_ok: "live t \<Longrightarrow> known_delta d \<Longrightarrow> result_ok ev unfinished (on_delta ev cf k kind d t)"
  unfolding on_delta_def
  by (erule ensure_started_run, rule block_for_block [of cf k kind])
     (auto intro: push_delta_ok block_for_live)

lemma on_arguments_delta_ok: "live t \<Longrightarrow> result_ok ev unfinished (on_arguments_delta ev cf e t)"
  unfolding on_arguments_delta_def
proof (erule ensure_started_run)
  fix t1 assume l: "live t1" "ts_started t1"
  let ?t = "block_for cf (se_output_index e) BlockToolUse (t1\<lparr>ts_saw_tool_use := True\<rparr>)"
  obtain b where b: "ts_blocks ?t (se_output_index e) = Some b" by (rule block_for_block)
  have "live (set_block (se_output_index e) (b\<lparr>b_args_seen := True\<rparr>) ?t)"
    by (rule set_block_live [OF _ b]) (use l in \<open>auto simp: same_core_def intro: block_for_live\<close>)
  with l b show "result_ok ev unfinished (let k = se_output_index e;
           t = block_for cf k BlockToolUse (t1\<lparr>ts_saw_tool_use := True\<rparr>);
           t = set_block k ((the_block t k)\<lparr>b_args_seen := True\<rparr>) t
       in push_delta ev cf k (json_delta (se_delta e)) t)"
    by (auto simp: Let_def intro!: push_delta_ok)
qed

lemma on_arguments_done_ok:
  assumes "live t"
  shows "result_ok ev unfinished (on_arguments_done ev cf e t)"
proof -
  obtain b where b: "ts_blocks (block_for cf (se_output_index e) BlockToolUse t) (se_output_index e) = Some b"
    by (rule block_for_block)
  from mark_updated_ok [OF block_for_live [OF assms] b, of "done_arguments (se_arguments e) b"] b
  show ?thesis by (simp add: on_arguments_done_def Let_def)
qed

lemma on_completed_ok: "live t \<Longrightarrow> result_ok ev ended (on_completed ev cf e t)"
  unfolding on_completed_def Let_def
  by (rule ensure_started_run) (auto simp: record_usage_def split: option.split intro: finalize_clean_ok)

lemma on_incomplete_ok: "live t \<Longrightarrow> result_ok ev ended (on_incomplete ev cf e t)"
  unfolding on_incomplete_def Let_def
  by (rule ensure_started_run) (auto simp: record_usage_def split: option.split intro: finalize_clean_ok)

lemma on_text_done_ok:
  assumes "live t"
  shows "result_ok ev unfinished (mark_done_or_close ev cf k (block_for cf k kind t))"
proof -
  obtain b where "ts_blocks (block_for cf k kind t) k = Some b" by (rule block_for_block)
  with assms show ?thesis
    by (intro result_ok_live_unfinished mark_done_or_close_ok) (auto intro: block_for_live)
qed

end
