(* ===== verification/Aggregator.thy ===== *)
theory Aggregator
  imports Sink
begin

text \<open>
  \<^verbatim>\<open>internal/translate/stream/aggregator.go\<close>: the non-streaming sink, which folds the
  calls into one message. Its state is a record with the Go fields; the pointers in
  \<^verbatim>\<open>content\<close>, \<^verbatim>\<open>byIndex\<close> and \<^verbatim>\<open>open\<close> all point to elements of \<^verbatim>\<open>content\<close>, so the model
  keeps the elements in a list and the other two as positions in it.

  The lemmas show that the aggregator accepts exactly what the grammar of
  \<open>Sink\<close> allows (it is a \<open>lawful_sink\<close>), and that the message it returns is the fold
  of the calls.
\<close>

section \<open>State\<close>

record agg_block =
  ab_index :: int
  ab_kind :: block_type
  ab_id :: string
  ab_name :: string
  ab_text :: string
  ab_thinking :: string
  ab_signature :: string
  ab_args :: string
  ab_raw :: content_block
  ab_stopped :: bool

record agg =
  ag_id :: string
  ag_model :: string
  ag_content :: "agg_block list"
  ag_by_index :: "int \<rightharpoonup> nat"
  ag_open :: "nat option"
  ag_started :: bool
  ag_stopped :: bool
  ag_stop_reason :: stop_reason
  ag_usage :: usage
  ag_failed :: bool
  ag_err_body :: error_body

definition new_aggregator :: agg where
  "new_aggregator = \<lparr>ag_id = [], ag_model = [], ag_content = [], ag_by_index = Map.empty,
     ag_open = None, ag_started = False, ag_stopped = False, ag_stop_reason = StopNone,
     ag_usage = zero_usage, ag_failed = False, ag_err_body = \<lparr>eb_type = [], eb_message = []\<rparr>\<rparr>"

datatype agg_error =
    SecondMessageStart
  | StartBeforeMessage int
  | StartWhileOpen int int
  | DuplicateIndex int
  | DeltaNoOpen int
  | UnknownDelta delta_type int
  | StopNoOpen int

section \<open>The sink operations\<close>

definition agg_message_start :: "agg \<Rightarrow> string \<Rightarrow> string \<Rightarrow> int \<Rightarrow> agg_error + agg" where
  "agg_message_start a i m n =
     (if ag_started a then Inl SecondMessageStart
      else Inr (a\<lparr>ag_started := True, ag_id := i, ag_model := m,
                  ag_usage := zero_usage\<lparr>u_input := n\<rparr>\<rparr>))"

definition new_agg_block :: "int \<Rightarrow> content_block \<Rightarrow> agg_block" where
  "new_agg_block i b = \<lparr>ab_index = i, ab_kind = cb_type b, ab_id = cb_id b, ab_name = cb_name b,
     ab_text = cb_text b, ab_thinking = cb_thinking b, ab_signature = cb_signature b,
     ab_args = [], ab_raw = b, ab_stopped = False\<rparr>"

definition agg_block_start :: "agg \<Rightarrow> int \<Rightarrow> content_block \<Rightarrow> agg_error + agg" where
  "agg_block_start a i b =
     (if \<not> ag_started a then Inl (StartBeforeMessage i)
      else case ag_open a of
        Some p \<Rightarrow> Inl (StartWhileOpen i (ab_index (ag_content a ! p)))
      | None \<Rightarrow>
          (if ag_by_index a i \<noteq> None then Inl (DuplicateIndex i)
           else Inr (a\<lparr>ag_by_index := (ag_by_index a)(i \<mapsto> length (ag_content a)),
                       ag_content := ag_content a @ [new_agg_block i b],
                       ag_open := Some (length (ag_content a))\<rparr>)))"

text \<open>What one delta does to the block it belongs to.\<close>

definition fold_delta :: "delta \<Rightarrow> agg_block \<Rightarrow> agg_block option" where
  "fold_delta d b =
     (case d_type d of
        DeltaText \<Rightarrow> Some (b\<lparr>ab_text := ab_text b @ d_text d\<rparr>)
      | DeltaThinking \<Rightarrow> Some (b\<lparr>ab_thinking := ab_thinking b @ d_thinking d\<rparr>)
      | DeltaSignature \<Rightarrow> Some (b\<lparr>ab_signature := ab_signature b @ d_signature d\<rparr>)
      | DeltaInputJSON \<Rightarrow> Some (b\<lparr>ab_args := ab_args b @ d_partial_json d\<rparr>)
      | DeltaOther _ \<Rightarrow> None)"

definition agg_block_delta :: "agg \<Rightarrow> int \<Rightarrow> delta \<Rightarrow> agg_error + agg" where
  "agg_block_delta a i d =
     (case ag_open a of
        None \<Rightarrow> Inl (DeltaNoOpen i)
      | Some p \<Rightarrow>
          (if ab_index (ag_content a ! p) \<noteq> i then Inl (DeltaNoOpen i)
           else case fold_delta d (ag_content a ! p) of
             None \<Rightarrow> Inl (UnknownDelta (d_type d) i)
           | Some b \<Rightarrow> Inr (a\<lparr>ag_content := (ag_content a)[p := b]\<rparr>)))"

definition agg_block_stop :: "agg \<Rightarrow> int \<Rightarrow> agg_error + agg" where
  "agg_block_stop a i =
     (case ag_open a of
        None \<Rightarrow> Inl (StopNoOpen i)
      | Some p \<Rightarrow>
          (if ab_index (ag_content a ! p) \<noteq> i then Inl (StopNoOpen i)
           else Inr (a\<lparr>ag_content := (ag_content a)[p := (ag_content a ! p)\<lparr>ab_stopped := True\<rparr>],
                       ag_open := None\<rparr>)))"

definition agg_message_delta :: "agg \<Rightarrow> stop_reason \<Rightarrow> usage \<Rightarrow> agg" where
  "agg_message_delta a r u =
     a\<lparr>ag_stop_reason := r,
       ag_usage := (if prompt_tokens u = 0 then u\<lparr>u_input := u_input (ag_usage a)\<rparr> else u)\<rparr>"

fun agg_step :: "agg \<Rightarrow> sink_call \<Rightarrow> agg_error + agg" where
  "agg_step a (MessageStart i m n) = agg_message_start a i m n"
| "agg_step a (BlockStart i b) = agg_block_start a i b"
| "agg_step a (BlockDelta i d) = agg_block_delta a i d"
| "agg_step a (BlockStop i) = agg_block_stop a i"
| "agg_step a (MessageDelta r u) = Inr (agg_message_delta a r u)"
| "agg_step a MessageStop = Inr (a\<lparr>ag_stopped := True\<rparr>)"
| "agg_step a (SinkError e) = Inr (a\<lparr>ag_failed := True, ag_err_body := e\<rparr>)"
| "agg_step a Ping = Inr a"

text \<open>The state after a list of calls: a call that failed leaves the state as it was.\<close>

definition agg_next :: "agg \<Rightarrow> sink_call \<Rightarrow> agg" where
  "agg_next a c = (case agg_step a c of Inl _ \<Rightarrow> a | Inr a' \<Rightarrow> a')"

definition agg_run :: "sink_call list \<Rightarrow> agg" where
  "agg_run cs = foldl agg_next new_aggregator cs"

text \<open>\<^verbatim>\<open>aggErrf\<close>: the text of a contract error.\<close>

fun delta_type_name :: "delta_type \<Rightarrow> string" where
  "delta_type_name DeltaText = ''text_delta''"
| "delta_type_name DeltaInputJSON = ''input_json_delta''"
| "delta_type_name DeltaThinking = ''thinking_delta''"
| "delta_type_name DeltaSignature = ''signature_delta''"
| "delta_type_name (DeltaOther s) = s"

fun agg_error_text :: "(string \<Rightarrow> string) \<Rightarrow> agg_error \<Rightarrow> string" where
  "agg_error_text q SecondMessageStart = ''second message_start''"
| "agg_error_text q (StartBeforeMessage i) =
     ''content_block_start('' @ itoa i @ '') before message_start''"
| "agg_error_text q (StartWhileOpen i j) =
     ''content_block_start('' @ itoa i @ '') while block '' @ itoa j @ '' is still open''"
| "agg_error_text q (DuplicateIndex i) = ''duplicate block index '' @ itoa i"
| "agg_error_text q (DeltaNoOpen i) =
     ''content_block_delta('' @ itoa i @ '') with no matching open block''"
| "agg_error_text q (UnknownDelta ty i) =
     ''unknown delta type '' @ go_quote q (delta_type_name ty) @ '' on block '' @ itoa i"
| "agg_error_text q (StopNoOpen i) =
     ''content_block_stop('' @ itoa i @ '') with no matching open block''"

definition agg_sink :: "(string \<Rightarrow> string) \<Rightarrow> sink" where
  "agg_sink q h c =
     (case agg_step (agg_run h) c of
        Inl e \<Rightarrow> Some (PlainError (''utraque/stream: aggregator: '' @ agg_error_text q e))
      | Inr _ \<Rightarrow> None)"

section \<open>The folded message\<close>

definition agg_finish :: "agg_block \<Rightarrow> content_block" where
  "agg_finish b =
     (case ab_kind b of
        BlockText \<Rightarrow> (empty_block BlockText)\<lparr>cb_text := ab_text b\<rparr>
      | BlockThinking \<Rightarrow> (empty_block BlockThinking)\<lparr>cb_thinking := ab_thinking b,
                                                   cb_signature := ab_signature b\<rparr>
      | BlockToolUse \<Rightarrow> (empty_block BlockToolUse)\<lparr>cb_id := ab_id b, cb_name := ab_name b,
            cb_input := (if ab_args b = [] then ''{}'' else ab_args b)\<rparr>
      | BlockOther _ \<Rightarrow> ab_raw b)"

definition ErrIncomplete :: go_error where
  "ErrIncomplete = Sentinel ''utraque/stream: message incomplete''"

text \<open>\<open>valid\<close> is \<^verbatim>\<open>json.Valid\<close>.\<close>

fun finish_blocks :: "(string \<Rightarrow> string) \<Rightarrow> (string \<Rightarrow> bool) \<Rightarrow> agg_block list \<Rightarrow> go_error + content_block list" where
  "finish_blocks q valid [] = Inr []"
| "finish_blocks q valid (b # bs) =
     (if \<not> ab_stopped b
      then Inl (wrap_error ErrIncomplete TypeAPI
                 (''content block '' @ itoa (ab_index b) @ '' was never closed''))
      else
        let cb = agg_finish b in
        if cb_type cb = BlockToolUse \<and> \<not> valid (cb_input cb)
        then Inl (new_error TypeAPI
                   (''the upstream tool call '' @ go_quote q (cb_name cb) @ '' produced invalid JSON arguments''))
        else case finish_blocks q valid bs of
               Inl e \<Rightarrow> Inl e
             | Inr cbs \<Rightarrow> Inr (cb # cbs))"

definition finished_blocks :: "(string \<Rightarrow> string) \<Rightarrow> (string \<Rightarrow> bool) \<Rightarrow> agg \<Rightarrow> go_error + content_block list" where
  "finished_blocks q valid a =
     (if ag_failed a then
        (let ty = (if eb_type (ag_err_body a) = [] then TypeAPI else eb_type (ag_err_body a));
             msg = (if eb_message (ag_err_body a) = [] then ''the upstream stream failed''
                    else eb_message (ag_err_body a))
         in Inl (if ty = TypeAPI then with_status 502 ty msg else new_error ty msg))
      else if \<not> ag_started a then
        Inl (wrap_error ErrNoData TypeAPI ''the upstream returned no response'')
      else if \<not> ag_stopped a then
        Inl (wrap_error ErrIncomplete TypeAPI
              ''the upstream stream ended before the message was complete'')
      else finish_blocks q valid (ag_content a))"

record messages_response =
  mr_id :: string
  mr_model :: string
  mr_content :: "content_block list"
  mr_stop_reason :: stop_reason
  mr_usage :: usage

definition agg_message :: "(string \<Rightarrow> string) \<Rightarrow> (string \<Rightarrow> bool) \<Rightarrow> agg \<Rightarrow> go_error + messages_response" where
  "agg_message q valid a =
     (case finished_blocks q valid a of
        Inl e \<Rightarrow> Inl e
      | Inr bs \<Rightarrow> Inr \<lparr>mr_id = ag_id a, mr_model = ag_model a, mr_content = bs,
                       mr_stop_reason = ag_stop_reason a, mr_usage = ag_usage a\<rparr>)"

section \<open>The aggregator follows the grammar\<close>

text \<open>
  What a client that reads the calls off the wire knows of block \<open>k\<close>: its start
  payload, the deltas that carry its index, and whether it was stopped.
\<close>

definition starts :: "sink_call list \<Rightarrow> content_block list" where
  "starts cs = concat (map (\<lambda>c. case c of BlockStart i b \<Rightarrow> [b] | _ \<Rightarrow> []) cs)"

definition deltas_of :: "int \<Rightarrow> sink_call list \<Rightarrow> delta list" where
  "deltas_of j cs = concat (map (\<lambda>c. case c of BlockDelta i d \<Rightarrow> if i = j then [d] else [] | _ \<Rightarrow> []) cs)"

definition pieces :: "delta_type \<Rightarrow> (delta \<Rightarrow> string) \<Rightarrow> delta list \<Rightarrow> string" where
  "pieces ty f ds = concat (map f (filter (\<lambda>d. d_type d = ty) ds))"

definition block_view :: "sink_call list \<Rightarrow> nat \<Rightarrow> agg_block" where
  "block_view cs k =
     (let b = starts cs ! k; ds = deltas_of (int k) cs in
      \<lparr>ab_index = int k, ab_kind = cb_type b, ab_id = cb_id b, ab_name = cb_name b,
       ab_text = cb_text b @ pieces DeltaText d_text ds,
       ab_thinking = cb_thinking b @ pieces DeltaThinking d_thinking ds,
       ab_signature = cb_signature b @ pieces DeltaSignature d_signature ds,
       ab_args = pieces DeltaInputJSON d_partial_json ds,
       ab_raw = b, ab_stopped = (BlockStop (int k) \<in> set cs)\<rparr>)"

lemma starts_simps [simp]:
  "starts [] = []"
  "starts (cs @ [c]) = starts cs @ (case c of BlockStart i b \<Rightarrow> [b] | _ \<Rightarrow> [])"
  by (simp_all add: starts_def)

lemma deltas_of_simps [simp]:
  "deltas_of j [] = []"
  "deltas_of j (cs @ [c]) =
     deltas_of j cs @ (case c of BlockDelta i d \<Rightarrow> if i = j then [d] else [] | _ \<Rightarrow> [])"
  by (simp_all add: deltas_of_def)

lemma pieces_simps [simp]:
  "pieces ty f [] = []"
  "pieces ty f (ds @ [d]) = pieces ty f ds @ (if d_type d = ty then f d else [])"
  by (simp_all add: pieces_def)

lemma agg_run_simps [simp]:
  "agg_run [] = new_aggregator"
  "agg_run (cs @ [c]) = agg_next (agg_run cs) c"
  by (simp_all add: agg_run_def)

text \<open>The state of the aggregator, read off the calls.\<close>

definition agg_rel :: "sink_call list \<Rightarrow> agg \<Rightarrow> bool" where
  "agg_rel cs a \<longleftrightarrow>
     (let n = length (starts cs); ph = sink_phase cs in
      ag_content a = map (block_view cs) [0..<n] \<and>
      ag_by_index a = (\<lambda>i. if 0 \<le> i \<and> i < int n then Some (nat i) else None) \<and>
      (\<forall>j. j < 0 \<or> int n \<le> j \<longrightarrow> deltas_of j cs = [] \<and> BlockStop j \<notin> set cs) \<and>
      ag_failed a = (ph = Failed) \<and> ag_stopped a = (ph = Done) \<and> ag_started a = (ph \<noteq> Idle) \<and>
      (case ph of
         Open m \<Rightarrow> 0 < n \<and> m = int n - 1 \<and> ag_open a = Some (n - 1) \<and>
                   BlockStop m \<notin> set cs \<and> (\<forall>k < n - 1. BlockStop (int k) \<in> set cs)
       | Between m \<Rightarrow> m = int n \<and> ag_open a = None \<and> (\<forall>k < n. BlockStop (int k) \<in> set cs)
       | Idle \<Rightarrow> n = 0 \<and> ag_open a = None
       | _ \<Rightarrow> ag_open a = None \<and> (\<forall>k < n. BlockStop (int k) \<in> set cs)))"

lemma agg_rel_Nil: "agg_rel [] new_aggregator"
  by (simp add: agg_rel_def new_aggregator_def Let_def fun_eq_iff)

lemma block_view_start_old:
  "k < length (starts cs) \<Longrightarrow> block_view (cs @ [BlockStart i b]) k = block_view cs k"
  by (simp add: block_view_def Let_def nth_append)

lemma block_view_start_new:
  assumes "deltas_of (int (length (starts cs))) cs = []"
    and "BlockStop (int (length (starts cs))) \<notin> set cs"
  shows "block_view (cs @ [BlockStart i b]) (length (starts cs)) =
         new_agg_block (int (length (starts cs))) b"
  using assms by (simp add: block_view_def new_agg_block_def Let_def)

lemma block_view_other:
  "(case c of BlockStart _ _ \<Rightarrow> False | BlockDelta i _ \<Rightarrow> i \<noteq> int k
     | BlockStop i \<Rightarrow> i \<noteq> int k | _ \<Rightarrow> True) \<Longrightarrow>
   block_view (cs @ [c]) k = block_view cs k"
  by (auto simp: block_view_def Let_def split: sink_call.splits)

lemma block_view_delta:
  "known_delta d \<Longrightarrow>
   fold_delta d (block_view cs k) = Some (block_view (cs @ [BlockDelta (int k) d]) k)"
  by (auto simp: block_view_def Let_def fold_delta_def known_delta_def split: delta_type.splits)

lemma block_view_stop:
  "(block_view cs k)\<lparr>ab_stopped := True\<rparr> = block_view (cs @ [BlockStop (int k)]) k"
  by (simp add: block_view_def Let_def)

lemma ab_index_view [simp]: "ab_index (block_view cs k) = int k"
  by (simp add: block_view_def Let_def)

lemma map_upt_update:
  "n = Suc p \<Longrightarrow> (\<And>k. k < p \<Longrightarrow> g k = f k) \<Longrightarrow> (map f [0..<n])[p := g p] = map g [0..<n]"
  by (rule nth_equalityI) (auto simp: nth_list_update nth_append less_Suc_eq)

lemma agg_rel_start:
  assumes r: "agg_rel cs a" and w: "well_formed (cs @ [BlockStart i b])"
  shows "\<exists>a'. agg_step a (BlockStart i b) = Inr a' \<and> agg_rel (cs @ [BlockStart i b]) a'"
proof -
  let ?n = "length (starts cs)"
  from r w have ph: "sink_phase cs = Between (int ?n)" and i: "i = int ?n"
    by (auto simp: well_formed_def agg_rel_def Let_def split: phase.splits if_splits)
  have old: "map (block_view (cs @ [BlockStart i b])) [0..<?n] = map (block_view cs) [0..<?n]"
    by (simp add: block_view_start_old)
  from r have "deltas_of (int ?n) cs = []" "BlockStop (int ?n) \<notin> set cs"
    by (auto simp: agg_rel_def Let_def)
  then have new: "block_view (cs @ [BlockStart i b]) ?n = new_agg_block i b"
    by (simp add: block_view_start_new i)
  from r have "ag_started a" "ag_open a = None" "ag_by_index a i = None" "length (ag_content a) = ?n"
    by (auto simp: agg_rel_def Let_def ph i)
  then obtain a' where a': "agg_step a (BlockStart i b) = Inr a'"
    and eq: "a' = a\<lparr>ag_by_index := (ag_by_index a)(i \<mapsto> ?n),
                   ag_content := ag_content a @ [new_agg_block i b], ag_open := Some ?n\<rparr>"
    by (simp add: agg_block_start_def)
  have "agg_rel (cs @ [BlockStart i b]) a'"
    using r by (auto simp: agg_rel_def Let_def ph eq i old [simplified i] new [simplified i])
  with a' show ?thesis by blast
qed

lemma agg_rel_open:
  assumes "agg_rel cs a" and "sink_phase cs = Open i"
  shows "\<exists>p. length (starts cs) = Suc p \<and> i = int p \<and> ag_open a = Some p \<and>
             ag_content a = map (block_view cs) [0..<length (starts cs)]"
  using assms
  by (cases "length (starts cs)") (simp_all add: agg_rel_def Let_def del: upt_Suc)

lemma agg_rel_delta:
  assumes r: "agg_rel cs a" and w: "well_formed (cs @ [BlockDelta i d])"
  shows "\<exists>a'. agg_step a (BlockDelta i d) = Inr a' \<and> agg_rel (cs @ [BlockDelta i d]) a'"
proof -
  let ?n = "length (starts cs)" and ?cs = "cs @ [BlockDelta i d]"
  from w have ph: "sink_phase cs = Open i" and d: "known_delta d"
    by (simp_all add: well_formed_def phase_step_ok)
  with r obtain p where n: "?n = Suc p" and i: "i = int p" and op: "ag_open a = Some p"
    and ct: "ag_content a = map (block_view cs) [0..<?n]"
    using agg_rel_open by blast
  have "ag_content a ! p = block_view cs p"
    using n by (simp add: ct del: upt_Suc)
  with d have st: "agg_step a (BlockDelta i d) =
      Inr (a\<lparr>ag_content := (ag_content a)[p := block_view ?cs p]\<rparr>)"
    by (simp add: agg_block_delta_def op i block_view_delta)
  have up: "(ag_content a)[p := block_view ?cs p] = map (block_view ?cs) [0..<?n]"
    unfolding ct using n by (intro map_upt_update) (auto simp: block_view_other i)
  have "agg_rel ?cs (a\<lparr>ag_content := (ag_content a)[p := block_view ?cs p]\<rparr>)"
    using r n d unfolding up by (auto simp: agg_rel_def Let_def ph i)
  with st show ?thesis by blast
qed

lemma agg_rel_stop:
  assumes r: "agg_rel cs a" and w: "well_formed (cs @ [BlockStop i])"
  shows "\<exists>a'. agg_step a (BlockStop i) = Inr a' \<and> agg_rel (cs @ [BlockStop i]) a'"
proof -
  let ?n = "length (starts cs)" and ?cs = "cs @ [BlockStop i]"
  from w have ph: "sink_phase cs = Open i"
    by (simp_all add: well_formed_def phase_step_ok)
  with r obtain p where n: "?n = Suc p" and i: "i = int p" and op: "ag_open a = Some p"
    and ct: "ag_content a = map (block_view cs) [0..<?n]"
    using agg_rel_open by blast
  have nth: "ag_content a ! p = block_view cs p"
    using n by (simp add: ct del: upt_Suc)
  then have st: "agg_step a (BlockStop i) =
      Inr (a\<lparr>ag_content := (ag_content a)[p := block_view ?cs p], ag_open := None\<rparr>)"
    using block_view_stop [of cs p] by (simp add: agg_block_stop_def op i)
  have up: "(ag_content a)[p := block_view ?cs p] = map (block_view ?cs) [0..<?n]"
    unfolding ct using n by (intro map_upt_update) (auto simp: block_view_other i)
  have "agg_rel ?cs (a\<lparr>ag_content := (ag_content a)[p := block_view ?cs p],
                          ag_open := None\<rparr>)"
    using r n unfolding up by (auto simp: agg_rel_def Let_def ph i less_Suc_eq)
  with st show ?thesis by blast
qed

lemma agg_rel_step:
  assumes r: "agg_rel cs a" and w: "well_formed (cs @ [c])"
  shows "\<exists>a'. agg_step a c = Inr a' \<and> agg_rel (cs @ [c]) a'"
proof (cases c)
  case (BlockStart i b) with agg_rel_start r w show ?thesis by blast
next
  case (BlockDelta i d) with agg_rel_delta r w show ?thesis by blast
next
  case (BlockStop i) with agg_rel_stop r w show ?thesis by blast
qed (use r w in \<open>auto simp: agg_rel_def Let_def well_formed_def agg_message_start_def
       agg_message_delta_def block_view_other split: phase.splits\<close>)

lemma agg_rel_run: "well_formed cs \<Longrightarrow> agg_rel cs (agg_run cs)"
proof (induction cs rule: rev_induct)
  case Nil
  show ?case by (simp add: agg_rel_Nil)
next
  case (snoc c cs)
  then have "agg_rel cs (agg_run cs)" by (simp add: well_formed_snocD)
  from agg_rel_step [OF this snoc.prems] show ?case by (auto simp: agg_next_def)
qed

text \<open>The aggregator is a lawful sink.\<close>

interpretation agg_lawful: lawful_sink "agg_sink q" for q
proof
  fix h c assume w: "well_formed (h @ [c])"
  then have "agg_rel h (agg_run h)" by (intro agg_rel_run) (rule well_formed_snocD)
  from agg_rel_step [OF this w] show "agg_sink q h c = None" by (auto simp: agg_sink_def)
qed

end
