(* ===== verification/StreamRun.thy ===== *)
theory StreamRun
  imports StreamInv Aggregator
begin

text \<open>
  Whole runs of the translator: the dispatch and the loop of \<^verbatim>\<open>Run\<close> keep the
  invariant of \<open>StreamInv\<close>, from which follow the call grammar, the termination of
  the loops, the agreement of the two sinks, and the rules of the terminus.
\<close>

section \<open>Dispatch keeps the invariant\<close>

definition handle_ok :: "env \<Rightarrow> tstate \<Rightarrow> bool \<times> outcome \<Rightarrow> bool" where
  "handle_ok ev t r \<longleftrightarrow>
     result_ok ev (if fst r then ended else unfinished) (snd r) \<or>
     (\<not> ts_started t \<and> (\<exists>e. snd r = (Some (Fail e), t)))"

lemma handle_ok_not_done: "result_ok ev unfinished r \<Longrightarrow> handle_ok ev t (not_done r)"
  by (simp add: handle_ok_def not_done_def)

lemma handle_ok_done: "result_ok ev ended r \<Longrightarrow> handle_ok ev t (True, r)"
  by (simp add: handle_ok_def)

lemma fail_ok: "live t \<Longrightarrow> handle_ok ev t (fail ev msg t)"
proof (cases "ts_started t")
  case True
  assume "live t"
  from result_ok_mono [OF emit_mid_stream_error_ok [OF this True] errored_ended] True
  show ?thesis by (simp add: fail_def handle_ok_done)
qed (simp add: fail_def handle_ok_def)

lemma dispatch_ok:
  assumes l: "live t"
  shows "handle_ok ev t (dispatch ev cf typ e t)"
proof -
  have started: "result_ok ev unfinished (ensure_started ev cf
      (case se_response e of None \<Rightarrow> t | Some r \<Rightarrow> t\<lparr>ts_response_id := cr_id r\<rparr>))"
    by (rule result_ok_started_unfinished, rule ensure_started_ok) (use l in \<open>simp split: option.split\<close>)
  have unknown: "unfinished (count_unknown typ t)"
    by (rule live_unfinished) (use l in \<open>simp add: count_unknown_def\<close>)
  note steps = started on_item_added_ok [OF l] on_content_part_added_ok [OF l]
    on_reasoning_part_added_ok [OF l] on_text_done_ok [OF l] on_arguments_delta_ok [OF l]
    on_arguments_done_ok [OF l] on_item_done_ok [OF l] on_delta_ok [OF l]
  have branch: "(c \<Longrightarrow> handle_ok ev t a) \<Longrightarrow> (\<not> c \<Longrightarrow> handle_ok ev t b) \<Longrightarrow>
      handle_ok ev t (if c then a else b)" for c a b by simp
  show ?thesis
    unfolding dispatch_def
    by (intro branch handle_ok_not_done handle_ok_done on_completed_ok on_incomplete_ok
         fail_ok l steps) (simp_all add: unknown live_unfinished [OF l])
qed

lemma handle_frame_ok:
  assumes l: "live t"
  shows "handle_ok ev t (handle ev um cf fr t)"
proof -
  have "unfinished (count_unknown ty t)" for ty
    by (rule live_unfinished) (use l in \<open>simp add: count_unknown_def\<close>)
  with dispatch_ok [OF l] show ?thesis
    by (auto simp: handle_def handle_ok_not_done split: option.split)
qed

lemma handle_end_ok:
  assumes l: "live t"
  shows "handle_ok ev t (True, handle_end ev cf cause t)"
proof (cases "ts_started t")
  case True
  have "result_ok ev ended (emit_mid_stream_error ev m t)" for m
    by (rule result_ok_mono [OF emit_mid_stream_error_ok [OF l True] errored_ended])
  with l True finalize_clean_ok [OF l True] show ?thesis
    by (intro handle_ok_done) (auto simp: handle_end_def live_def)
qed (use l in \<open>auto simp: handle_end_def handle_ok_def live_def split: option.split\<close>)

section \<open>The run keeps the invariant\<close>

definition run_ok :: "env \<Rightarrow> signal list \<Rightarrow> loop_end \<Rightarrow> bool" where
  "run_ok ev ss r \<longleftrightarrow>
     (case r of
        Running t \<Rightarrow> live t
      | Returned None t \<Rightarrow> ended t
      | Returned (Some (Fail e)) t \<Rightarrow>
          sink_refused ev e t \<or> (tinv t \<and> ts_terminus t = TerminusNone \<and>
            (\<not> ts_started t \<or> CtxDone e \<in> set ss))
      | Returned (Some Diverge) t \<Rightarrow> False)"

lemma handle_ok_cases:
  assumes "handle_ok ev t (dn, err, t')" and "live t"
  shows "(err = None \<and> (if dn then ended t' else unfinished t')) \<or>
    (\<exists>e. err = Some (Fail e) \<and> (sink_refused ev e t' \<or> (live t' \<and> \<not> ts_started t')))"
  using assms
  by (auto simp: handle_ok_def result_ok_def split: option.splits failure.splits prod.splits)

lemma run_ok_mono: "run_ok ev ss r \<Longrightarrow> set ss \<subseteq> set ss' \<Longrightarrow> run_ok ev ss' r"
  by (auto simp: run_ok_def split: loop_end.splits option.splits failure.splits)

lemma run_ok_end:
  assumes "handle_ok ev t (True, err, t')" and "live t"
  shows "run_ok ev ss (Returned err t')"
  using handle_ok_cases [OF assms] by (auto simp: run_ok_def live_def)

lemma run_loop_ok: "live t \<Longrightarrow> run_ok ev ss (run_loop ev um cf t ss)"
proof (induction ev um cf t ss rule: run_loop.induct)
  case (1 ev um cf t)
  then show ?case by (simp add: run_ok_def)
next
  case (2 ev um cf t e ss)
  then show ?case by (simp add: run_ok_def live_def)
next
  case (3 ev um cf t fr ss)
  obtain dn err t' where h: "handle ev um cf fr t = (dn, err, t')" by (metis prod_cases3)
  from handle_frame_ok [OF "3.prems", of ev um cf fr] h
  have c: "(err = None \<and> (if dn then ended t' else unfinished t')) \<or>
    (\<exists>e. err = Some (Fail e) \<and> (sink_refused ev e t' \<or> (live t' \<and> \<not> ts_started t')))"
    using handle_ok_cases "3.prems" by metis
  show ?case
  proof (cases err)
    case None
    show ?thesis
    proof (cases "dn \<or> ts_terminus t' \<noteq> TerminusNone")
      case True
      with None c h show ?thesis
        by (cases "ts_terminus t'") (auto simp: run_ok_def unfinished_def ended_def split: if_splits)
    next
      case False
      with None c have "live t'" by (auto simp: live_def unfinished_def)
      with "3.IH" h None False have "run_ok ev ss (run_loop ev um cf t' ss)" by metis
      with h None False show ?thesis by (auto elim: run_ok_mono)
    qed
  next
    case (Some e)
    with c h show ?thesis by (auto simp: run_ok_def live_def)
  qed
next
  case (4 ev um cf t e ss)
  obtain err t' where h: "handle_end ev cf e t = (err, t')" by fastforce
  with run_ok_end handle_end_ok [OF "4.prems", of ev cf e] "4.prems" show ?case by auto
next
  case (5 ev um cf t ss)
  show ?case
  proof (cases "cf_heartbeat cf \<le> 0 \<or> \<not> ts_started t")
    case True
    with "5.IH"(1) "5.prems" have "run_ok ev ss (run_loop ev um cf t ss)" by blast
    with True show ?thesis by (auto elim: run_ok_mono)
  next
    case False
    let ?t = "t\<lparr>ts_out := ts_out t @ [Ping]\<rparr>"
    have ph: "phase_step (sink_phase (ts_out t)) Ping = sink_phase (ts_out t)"
      "sink_phase (ts_out t) \<noteq> Bad"
      using "5.prems" False by (auto simp: live_def tinv_def phase_of_def split: option.splits)
    then have l: "live ?t"
      using "5.prems" by (simp add: live_def tinv_def phase_of_cong [of ?t t])
    show ?thesis
    proof (cases "ev_sink ev (ts_out t) Ping")
      case None
      then have em: "emit ev Ping t = (None, ?t)" by (simp add: emit_def)
      with "5.IH"(2) l False have "run_ok ev ss (run_loop ev um cf ?t ss)" by auto
      with em False show ?thesis by (auto elim: run_ok_mono)
    next
      case (Some e)
      then have "emit ev Ping t = (Some (Fail e), ?t)" by (simp add: emit_def)
      moreover have "sink_refused ev e ?t"
        using Some ph by (auto simp: sink_refused_def well_formed_def)
      ultimately show ?thesis using False by (simp add: run_ok_def)
    qed
  qed
next
  case (6 ev um cf t ss)
  show ?case
  proof (cases "cf_upstream_idle cf \<le> 0")
    case True
    with "6.IH" "6.prems" have "run_ok ev ss (run_loop ev um cf t ss)" by blast
    with True show ?thesis by (auto elim: run_ok_mono)
  next
    case False
    obtain err t' where h: "handle_end ev cf (Some ErrIdleTimeout) t = (err, t')" by fastforce
    with False run_ok_end handle_end_ok [OF "6.prems", of ev cf "Some ErrIdleTimeout"] "6.prems"
    show ?thesis by auto
  qed
qed

lemma live_reset: "live (reset n)"
  by (simp add: live_def tinv_def table_ok_def reset_def phase_of_def)

lemma run_run_ok: "run_ok ev ss (run ev um opt ss)"
  by (auto simp: run_def new_translator_def intro!: run_loop_ok live_reset)

lemma sink_phase_Idle: "sink_phase cs = Idle \<longleftrightarrow> cs = []"
proof (cases cs rule: rev_cases)
  case (snoc ds d)
  have "phase_step ph d \<noteq> Idle" for ph
    by (cases ph; cases d) auto
  with snoc show ?thesis by simp
qed simp

lemma tinv_well_formed: "tinv t \<Longrightarrow> well_formed (ts_out t)"
  by (auto simp: tinv_def well_formed_def phase_of_def split: terminus.splits option.splits)

section \<open>What every run guarantees\<close>

text \<open>
  Property (C1): whatever frames, keepalives and timeouts a run sees, and whatever the sink
  answers, the calls it makes follow the grammar promised on the interface \<^verbatim>\<open>Sink\<close>:
  one message_start first, one block open at a time with consecutive indices, every
  block closed before the terminus, and nothing after the terminus. The loops of the
  code end (\<^const>\<open>Diverge\<close> is never returned), and a run that returns no error has
  ended in exactly one of message_stop and an error frame, as its result reports.
\<close>

theorem run_stream_grammar:
  "case run ev um opt ss of
     Running t \<Rightarrow> well_formed (ts_out t) \<and> ts_terminus t = TerminusNone
   | Returned err t \<Rightarrow>
       well_formed (ts_out t) \<and> err \<noteq> Some Diverge \<and>
       (if err = None
        then ts_terminus t = TerminusClean \<and> sink_phase (ts_out t) = Done \<or>
             ts_terminus t = TerminusErrored \<and> sink_phase (ts_out t) = Failed
        else True)"
proof -
  have "run_ok ev ss (run ev um opt ss)" by (rule run_run_ok)
  then show ?thesis
    by (auto simp: run_ok_def ended_def live_def sink_refused_def tinv_well_formed
        tinv_def [unfolded phase_of_def] split: loop_end.splits option.splits failure.splits)
qed

text \<open>
  A failure before message_start leaves nothing on the wire. When a run returns an
  error that the sink did not cause and the context did not cancel, no sink call was
  made and the result says that the stream was not started, so the caller may still
  send a status line.
\<close>

theorem run_error_before_start:
  assumes "run ev um opt ss = Returned (Some (Fail e)) t"
    and "\<forall>h c. ev_sink ev h c \<noteq> Some e" and "CtxDone e \<notin> set ss"
  shows "ts_out t = [] \<and> rs_started (result_of t) = False \<and> rs_terminus (result_of t) = TerminusNone"
proof -
  have "run_ok ev ss (Returned (Some (Fail e)) t)"
    using run_run_ok [of ev ss um opt] assms(1) by simp
  with assms(2,3) have "tinv t" "ts_terminus t = TerminusNone" "\<not> ts_started t"
    by (auto simp: run_ok_def sink_refused_def)
  then show ?thesis
    by (auto simp: tinv_def phase_of_def sink_phase_Idle result_of_def)
qed

text \<open>A stream that ends before any event, with a sink that never fails.\<close>

definition quiet_env :: env where
  "quiet_env = \<lparr>ev_sink = (\<lambda>h c. None), ev_marshal = (\<lambda>p. rp_id p @ [CHR 0x0A] @ rp_enc p)\<rparr>"

definition default_options :: stream_options where
  "default_options = \<lparr>op_upstream_model = ''gpt-6-sol'', op_input_tokens = 7,
     op_input_tokens_func = None, op_emit_reasoning = None, op_truncate_mode = None,
     op_heartbeat = 0, op_upstream_idle = 0, op_max_pending_bytes = 0, op_max_pending_items = 0\<rparr>"

theorem run_error_before_start_witness:
  "\<exists>t. run quiet_env (\<lambda>s. None) default_options [ScanEnd None] = Returned (Some (Fail ErrNoData)) t \<and>
       ts_out t = []"
proof -
  define cf where "cf = fst (new_translator default_options)"
  have r: "run quiet_env (\<lambda>s. None) default_options [ScanEnd None] =
      Returned (Some (Fail ErrNoData)) (reset 7)"
    by (simp add: run_def new_translator_def default_options_def handle_end_def reset_def)
  from run_error_before_start [OF r] have "ts_out (reset 7) = []"
    by (simp add: quiet_env_def)
  with r show ?thesis by blast
qed

text \<open>
  Property (C3): after a clean terminus every block is closed (or was a suppressed reasoning
  block), no tool call whose arguments streamed is left without its final arguments,
  and the two last calls carry the stop reason and the usage that the result reports,
  so the request log cannot disagree with what the client was told. The stop reason
  is tool_use exactly when a tool call was seen.
\<close>

theorem clean_terminus_complete:
  assumes r: "run ev um opt ss = Returned None t" and c: "ts_terminus t = TerminusClean"
  shows "(\<forall>k b. ts_blocks t k = Some b \<longrightarrow>
            (b_stopped b \<or> b_dropped b) \<and>
            (b_kind b = BlockToolUse \<and> b_args_seen b \<longrightarrow> b_args_done b)) \<and>
         (\<exists>cs. ts_out t = cs @ [MessageDelta (rs_stop_reason (result_of t)) (ts_final_usage t), MessageStop]) \<and>
         rs_stop_reason (result_of t) = the_stop_reason t \<and>
         (rs_stop_reason (result_of t) = StopToolUse \<longleftrightarrow> ts_saw_tool_use t)"
proof -
  have "run_ok ev ss (Returned None t)"
    using run_run_ok [of ev ss um opt] r by simp
  with c have t: "complete t" by (simp add: run_ok_def ended_def)
  then have "\<forall>k b. ts_blocks t k = Some b \<longrightarrow> (b_stopped b \<or> b_dropped b) \<and> \<not> truncated_call t k"
    by (simp add: complete_def)
  then have "\<forall>k b. ts_blocks t k = Some b \<longrightarrow> (b_stopped b \<or> b_dropped b) \<and>
            (b_kind b = BlockToolUse \<and> b_args_seen b \<longrightarrow> b_args_done b)"
    unfolding truncated_call_def by fastforce
  moreover from t have "rs_stop_reason (result_of t) = the_stop_reason t"
    by (simp add: complete_def result_of_def)
  moreover have "the_stop_reason t = StopToolUse \<longleftrightarrow> ts_saw_tool_use t"
    by (simp add: the_stop_reason_def)
  moreover from t have "\<exists>cs. ts_out t =
      cs @ [MessageDelta (rs_stop_reason (result_of t)) (ts_final_usage t), MessageStop]"
    by (auto simp: complete_def result_of_def)
  ultimately show ?thesis by simp
qed

text \<open>
  A concrete stream for the witnesses: a text item and a tool call that interleave, so
  that the call is buffered while the text block is open.
\<close>

definition demo_event :: "string \<Rightarrow> int \<Rightarrow> string \<Rightarrow> stream_event" where
  "demo_event ty k d = zero_event\<lparr>se_type := ty, se_output_index := k, se_delta := d\<rparr>"

definition demo_item :: output_item where
  "demo_item = \<lparr>oi_id = ''fc_1'', oi_type = ''function_call'', oi_name = ''ls'', oi_call_id = ''c1'',
     oi_arguments = [], oi_encrypted = []\<rparr>"

definition demo_unmarshal :: "string \<Rightarrow> stream_event option" where
  "demo_unmarshal s =
     map_of [(''a'', demo_event EventOutputTextDelta 0 ''Hi''),
             (''b'', (demo_event EventOutputItemAdded 1 [])\<lparr>se_item := Some demo_item\<rparr>),
             (''c'', demo_event EventFunctionCallArgumentsDelta 1 ''{}''),
             (''d'', demo_event EventOutputTextDelta 0 ''!''),
             (''e'', demo_event EventOutputTextDone 0 []),
             (''f'', demo_event EventFunctionCallArgumentsDone 1 []),
             (''g'', demo_event EventResponseCompleted 0 [])] s"

definition demo_frames :: "signal list" where
  "demo_frames = map (\<lambda>s. FrameIn \<lparr>fr_event = [], fr_data = s\<rparr>)
     [''a'', ''b'', ''c'', ''d'', ''e'', ''f'', ''g'']"

definition demo_run :: loop_end where
  "demo_run = run quiet_env demo_unmarshal default_options demo_frames"

text \<open>The definitions that the simplifier unfolds to run the translator on concrete frames.\<close>

lemmas stream_eval =
  run_def new_translator_def reset_def handle_def dispatch_def event_defs zero_event_def
  not_done_def on_delta_def ensure_started_def seed_def emit_def and_then_def ok_def
  block_for_def new_block_def set_block_def the_block_def push_delta_def open_block_def Let_def
  content_block_of_def on_item_added_def added_call_def on_arguments_delta_def
  on_arguments_done_def done_arguments_def enforce_bounds_def buffering_def
  mark_done_or_close_def close_active_def stop_block_def stop_opened_def final_delta_def
  drain_next.simps first_buffering_def on_completed_def finalize_clean_def truncated_call_def
  finalize_all.simps next_unfinished_def terminal_usage_def the_stop_reason_def zero_usage_def
  empty_block_def delta_defs delta_size_def

lemmas demo_defs =
  demo_run_def demo_frames_def demo_unmarshal_def demo_event_def demo_item_def
  default_options_def quiet_env_def

lemma demo_run_clean:
  "case demo_run of
     Returned None t \<Rightarrow>
       ts_terminus t = TerminusClean \<and>
       ts_out t =
         [MessageStart ''msg_codex_'' ''gpt-6-sol'' 7,
          BlockStart 0 (empty_block BlockText), BlockDelta 0 (text_delta ''Hi''),
          BlockDelta 0 (text_delta ''!''), BlockStop 0,
          BlockStart 1 ((empty_block BlockToolUse)\<lparr>cb_id := ''c1'', cb_name := ''ls'', cb_input := ''{}''\<rparr>),
          BlockDelta 1 (json_delta ''{}''), BlockStop 1,
          MessageDelta StopToolUse (zero_usage\<lparr>u_input := 7\<rparr>), MessageStop]
   | _ \<Rightarrow> False"
  by (simp add: stream_eval demo_defs)

theorem clean_terminus_complete_witness:
  "\<exists>t cs. demo_run = Returned None t \<and>
     ts_out t = cs @ [MessageDelta (rs_stop_reason (result_of t)) (ts_final_usage t), MessageStop]"
proof -
  from demo_run_clean obtain t where t: "demo_run = Returned None t" "ts_terminus t = TerminusClean"
    by (auto split: loop_end.splits option.splits)
  from clean_terminus_complete [OF t(1) [unfolded demo_run_def] t(2)] t(1) show ?thesis by blast
qed

section \<open>The run into a lawful sink\<close>

context lawful_sink
begin

text \<open>A lawful sink never fails a run: an error comes from the context or precedes the stream.\<close>

lemma run_not_refused:
  assumes "ev_sink ev = snk" and "run ev um opt ss = Returned (Some (Fail e)) t"
  shows "ts_terminus t = TerminusNone \<and> (ts_out t = [] \<or> CtxDone e \<in> set ss)"
proof -
  have "\<not> sink_refused ev e t"
    using accepts assms(1) by (auto simp: sink_refused_def)
  moreover have "run_ok ev ss (Returned (Some (Fail e)) t)"
    using run_run_ok [of ev ss um opt] assms(2) by simp
  ultimately show ?thesis
    by (auto simp: run_ok_def tinv_def phase_of_def sink_phase_Idle)
qed

end

text \<open>
  Property (C20): a run into the aggregator never trips one of the aggregator's own contract
  checks: whatever the upstream sends, an error it returns is the cancellation of the
  context or comes before anything was written.
\<close>

theorem run_into_aggregator_accepted:
  assumes "ev_sink ev = agg_sink q" and "run ev um opt ss = Returned (Some (Fail e)) t"
  shows "ts_terminus t = TerminusNone \<and> (ts_out t = [] \<or> CtxDone e \<in> set ss)"
  using assms by (rule agg_lawful.run_not_refused)

theorem run_into_aggregator_accepted_witness:
  "let ev = quiet_env\<lparr>ev_sink := agg_sink (\<lambda>s. s)\<rparr>
   in \<exists>t. run ev (\<lambda>s. None) default_options [ScanEnd None] = Returned (Some (Fail ErrNoData)) t \<and>
          (ts_out t = [] \<or> CtxDone ErrNoData \<in> set [ScanEnd None])"
proof -
  let ?ev = "quiet_env\<lparr>ev_sink := agg_sink (\<lambda>s. s)\<rparr>"
  have r: "run ?ev (\<lambda>s. None) default_options [ScanEnd None] =
      Returned (Some (Fail ErrNoData)) (reset 7)"
    by (simp add: run_def new_translator_def default_options_def handle_end_def reset_def)
  from run_into_aggregator_accepted [OF _ r] have
    "ts_out (reset 7) = [] \<or> CtxDone ErrNoData \<in> set [ScanEnd None]" by simp
  with r show ?thesis unfolding Let_def by blast
qed

text \<open>
  After a run the aggregator and the result of the run agree: the aggregator
  reports a failure exactly when the result is errored, and has seen message_stop
  exactly when the terminus is clean.
\<close>

theorem aggregator_agrees_with_result:
  "case run ev um opt ss of
     Running t \<Rightarrow> \<not> ag_failed (agg_run (ts_out t)) \<and> \<not> ag_stopped (agg_run (ts_out t))
   | Returned (Some e) t \<Rightarrow> True
   | Returned None t \<Rightarrow>
       ag_failed (agg_run (ts_out t)) = (rs_terminus (result_of t) = TerminusErrored) \<and>
       ag_stopped (agg_run (ts_out t)) = (rs_terminus (result_of t) = TerminusClean)"
proof -
  have flags: "ag_failed (agg_run cs) = (sink_phase cs = Failed) \<and>
      ag_stopped (agg_run cs) = (sink_phase cs = Done)" if "well_formed cs" for cs
    using agg_rel_run [OF that] by (simp add: agg_rel_def Let_def)
  have "run_ok ev ss (run ev um opt ss)" by (rule run_run_ok)
  then show ?thesis
    by (auto simp: run_ok_def ended_def live_def flags tinv_well_formed result_of_def
        tinv_def [unfolded phase_of_def] split: loop_end.splits option.splits failure.splits)
qed

end
