(* ===== verification/StreamContent.thy ===== *)
theory StreamContent
  imports StreamRun
begin

text \<open>
  What the client receives for one output item: the deltas on the wire with the index
  of its block, followed by those that still wait in its buffer. Buffering, promotion
  and interleaving neither lose, duplicate nor reorder a delta.
\<close>

definition content :: "tstate \<Rightarrow> int \<Rightarrow> delta list" where
  "content t k =
     (case ts_blocks t k of
        None \<Rightarrow> []
      | Some b \<Rightarrow> (if b_started b then deltas_of (b_index b) (ts_out t) else []) @ b_pending b)"

text \<open>Indices are handed out once, and no delta carries an index not handed out yet.\<close>

definition new_indices :: "tstate \<Rightarrow> bool" where
  "new_indices t \<longleftrightarrow>
     (\<forall>j. ts_next_index t \<le> j \<longrightarrow> deltas_of j (ts_out t) = []) \<and>
     (\<forall>k b. ts_blocks t k = Some b \<and> b_started b \<longrightarrow> b_index b < ts_next_index t) \<and>
     (\<forall>k k' b b'. ts_blocks t k = Some b \<and> ts_blocks t k' = Some b' \<and> b_started b \<and> b_started b' \<and>
        b_index b = b_index b' \<longrightarrow> k = k')"

lemma fresh_reset: "new_indices (reset n)"
  by (simp add: new_indices_def reset_def)

lemma deltas_of_append: "deltas_of j (cs @ ds) = deltas_of j cs @ deltas_of j ds"
  by (simp add: deltas_of_def)

lemma deltas_of_map: "deltas_of j (map (BlockDelta i) ds) = (if i = j then ds else [])"
  by (induction ds) (auto simp: deltas_of_def)

lemma ensure_started_out:
  "ensure_started ev cf t = (None, t') \<Longrightarrow>
   \<exists>pre. ts_out t' = ts_out t @ pre \<and> (\<forall>j. deltas_of j pre = [])"
  by (auto simp: ensure_started_def seed_def Let_def deltas_of_def dest!: emit_None
      split: if_splits prod.splits option.splits)

lemma open_block_out:
  assumes "open_block ev cf k t = (None, t')"
    and "\<not> b_started (the_block t k)" "\<not> b_stopped (the_block t k)" "\<not> b_dropped (the_block t k)"
  shows "deltas_of j (ts_out t') = deltas_of j (ts_out t) @
           (if j = ts_next_index t then b_pending (the_block t k) else [])"
proof -
  from assms obtain t1 where e: "ensure_started ev cf t = (None, t1)"
    and r: "ts_out t' = ts_out t1 @ BlockStart (ts_next_index t1)
        (content_block_of ((the_block t1 k)\<lparr>b_index := ts_next_index t1, b_started := True\<rparr>))
        # map (BlockDelta (ts_next_index t1)) (b_pending (the_block t1 k))"
    by (auto simp: open_block_def Let_def dest!: emit_None flush_pending_None)
  from ensure_started_out [OF e] obtain pre where "ts_out t1 = ts_out t @ pre" "deltas_of j pre = []"
    by auto
  moreover have "deltas_of j (BlockStart i b # ds) = deltas_of j ds" for i b ds
    by (simp add: deltas_of_def)
  ultimately show ?thesis
    using ensure_started_None [OF e] by (simp add: r deltas_of_append deltas_of_map the_block_def)
qed

lemma open_block_content:
  assumes f: "new_indices t" and op: "open_block ev cf k t = (None, t')" and b: "ts_blocks t k = Some b"
    and n: "\<not> b_started b" "\<not> b_stopped b" "\<not> b_dropped b"
  shows "new_indices t' \<and> content t' = content t"
proof -
  have nb: "\<not> b_started (the_block t k)" "\<not> b_stopped (the_block t k)" "\<not> b_dropped (the_block t k)"
    using b n by simp_all
  note bl = open_block_None(1) [OF op nb] and nx = open_block_None(4) [OF op nb]
  note out = open_block_out [OF op nb]
  have new: "deltas_of (ts_next_index t) (ts_out t) = []" using f by (simp add: new_indices_def)
  have old: "b_index b' \<noteq> ts_next_index t" if "ts_blocks t j = Some b'" "b_started b'" for j b'
    using f that by (force simp: new_indices_def)
  have "content t' j = content t j" for j
    using b n new old by (auto simp: content_def bl out split: option.split)
  moreover have "new_indices t'"
    unfolding new_indices_def bl nx
  proof (intro conjI allI impI)
    fix j assume "ts_next_index t + 1 \<le> j"
    with f show "deltas_of j (ts_out t') = []" by (simp add: out new_indices_def)
  next
    fix j b' assume "((ts_blocks t)(k \<mapsto> opened (ts_next_index t) (the_block t k))) j = Some b' \<and> b_started b'"
    with f show "b_index b' < ts_next_index t + 1" by (fastforce simp: new_indices_def split: if_splits)
  next
    fix i j b1 b2
    assume "((ts_blocks t)(k \<mapsto> opened (ts_next_index t) (the_block t k))) i = Some b1 \<and>
      ((ts_blocks t)(k \<mapsto> opened (ts_next_index t) (the_block t k))) j = Some b2 \<and>
      b_started b1 \<and> b_started b2 \<and> b_index b1 = b_index b2"
    then show "i = j"
      using f old [of i b1] old [of j b2] by (cases "i = k"; cases "j = k") (auto simp: new_indices_def)
  qed
  ultimately show ?thesis by auto
qed

text \<open>A delta that is written for an open block is appended to that block's content only.\<close>

lemma emit_delta_content:
  assumes f: "new_indices t" and b: "ts_blocks t k = Some b" "b_started b" "b_pending b = []"
    and e: "emit ev (BlockDelta (b_index b) d) t = (None, t')"
  shows "new_indices t' \<and> content t' = (content t)(k := content t k @ [d])"
proof -
  have t': "t' = t\<lparr>ts_out := ts_out t @ [BlockDelta (b_index b) d]\<rparr>" using emit_None [OF e] .
  have "b_index b < ts_next_index t" using f b by (auto simp: new_indices_def)
  with f have "new_indices t'" by (auto simp: new_indices_def t')
  moreover have "content t' j = (if j = k then content t k @ [d] else content t j)" for j
  proof (cases "ts_blocks t j")
    case (Some b')
    show ?thesis
    proof (cases "j = k")
      case False
      then have "b_index b \<noteq> b_index b'" if "b_started b'"
        using f Some b that by (auto simp: new_indices_def)
      with False Some show ?thesis by (auto simp: content_def t')
    qed (use Some b in \<open>auto simp: content_def t'\<close>)
  qed (use b in \<open>auto simp: content_def t'\<close>)
  ultimately show ?thesis by auto
qed


text \<open>Two small states for the witnesses: one block that waits, and the same block opened.\<close>

definition demo_cfg :: config where
  "demo_cfg = fst (new_translator default_options)"

definition demo_waiting :: tstate where
  "demo_waiting = block_for demo_cfg 0 BlockThinking
     ((reset 0)\<lparr>ts_started := True, ts_out := [MessageStart [] [] 0]\<rparr>)"

definition demo_open :: tstate where
  "demo_open = demo_waiting\<lparr>ts_blocks := [0 \<mapsto> opened 0 (new_block demo_cfg BlockThinking)],
     ts_active := Some 0, ts_next_index := 1,
     ts_out := [MessageStart [] [] 0, BlockStart 0 (empty_block BlockThinking)]\<rparr>"

lemmas demo_state_defs = demo_waiting_def demo_open_def demo_cfg_def block_for_def reset_def
  set_block_def new_block_def new_translator_def default_options_def

lemma demo_waiting_live: "live demo_waiting" "new_indices demo_waiting" "ts_started demo_waiting"
  "ts_blocks demo_waiting 0 = Some (new_block demo_cfg BlockThinking)"
  by (simp_all add: demo_state_defs live_def tinv_def table_ok_def block_ok_def phase_of_def
      new_indices_def deltas_of_def sink_phase_def)

lemma demo_open_live: "live demo_open" "ts_active demo_open = Some 0"
  "ts_blocks demo_open 0 = Some (opened 0 (new_block demo_cfg BlockThinking))"
  by (simp_all add: demo_state_defs live_def tinv_def table_ok_def block_ok_def phase_of_def
      sink_phase_def)


text \<open>
  Closing a block appends exactly its finalisation: nothing to a text block, to
  a thinking block one signature that carries the marker of the sanitizer, and to a
  tool call whose arguments never streamed the whole arguments as one delta; the stop
  follows.
\<close>

theorem stop_opened_finalises:
  assumes t: "live t" "ts_active t = Some k" and b: "ts_blocks t k = Some b"
    and s: "stop_opened ev k t = (None, t')"
  shows "ts_out t' = ts_out t @
     (case b_kind b of
        BlockThinking \<Rightarrow> [BlockDelta (b_index b) (signature_delta (synthetic_signature ev k b t))]
      | BlockToolUse \<Rightarrow>
          (if b_args_seen b then []
           else [BlockDelta (b_index b) (json_delta (if b_full_args b = [] then ''{}'' else b_full_args b))])
      | _ \<Rightarrow> []) @ [BlockStop (b_index b)] \<and>
     prefix Marker (synthetic_signature ev k b t) \<and> ts_active t' = None"
proof -
  have "prefix Marker (synthetic_signature ev k b t)"
    by (auto simp: synthetic_signature_def Let_def encode_reasoning_signature_def)
  moreover have "ts_active t' = None"
    using stop_opened_None(3) [OF s] t(2) by simp
  ultimately show ?thesis
    using s b
    by (auto simp: stop_opened_def final_delta_def Let_def dest!: emit_None
        split: block_type.splits if_splits)
qed

lemma itoa_0: "itoa 0 = ''0''"
  by code_simp

theorem stop_opened_finalises_witness:
  "\<exists>t'. stop_opened quiet_env 0 demo_open = (None, t') \<and>
        ts_out t' = ts_out demo_open @
          [BlockDelta 0 (signature_delta ''utraque-synthetic-v1:-0''), BlockStop 0]"
proof -
  have "fst (stop_opened quiet_env 0 demo_open) = None"
    by (simp add: demo_state_defs stream_eval quiet_env_def opened_def)
  then obtain t' where s: "stop_opened quiet_env 0 demo_open = (None, t')"
    by (metis prod.collapse)
  from stop_opened_finalises [OF demo_open_live s] s show ?thesis
    by (simp add: demo_state_defs opened_def synthetic_signature_def Marker_def
        encode_reasoning_signature_def itoa_0)
qed

text \<open>
  The split of the upstream usage: for counts that are consistent, the uncached
  and the cached part of the prompt add up to the inclusive count of the Responses API
  and both are non-negative; an inconsistent cached count never becomes negative.
\<close>

theorem map_usage_partitions:
  assumes "0 \<le> cached_tokens u" "cached_tokens u \<le> cu_input u" "is_i64 (cu_input u)"
  shows "prompt_tokens (map_usage (Some u)) = cu_input u \<and>
         u_input (map_usage (Some u)) = cu_input u - cached_tokens u \<and>
         u_cache_read (map_usage (Some u)) = cached_tokens u \<and>
         u_output (map_usage (Some u)) = cu_output u"
proof -
  have "is_i64 (cu_input u - cached_tokens u)" using assms by (simp add: is_i64_def)
  with assms show ?thesis by (simp add: map_usage_def prompt_tokens_def zero_usage_def go_int)
qed

theorem map_usage_partitions_witness:
  "prompt_tokens (map_usage (Some \<lparr>cu_input = 1000, cu_output = 5, cu_cached = Some 800\<rparr>)) = 1000 \<and>
   u_input (map_usage (Some \<lparr>cu_input = 1000, cu_output = 5, cu_cached = Some 800\<rparr>)) = 200"
proof -
  let ?u = "\<lparr>cu_input = 1000, cu_output = 5, cu_cached = Some 800\<rparr>"
  from map_usage_partitions [of ?u] show ?thesis by (simp add: cached_tokens_def is_i64_def)
qed

end
