(* ===== verification/Json.thy ===== *)
theory Json
  imports Prelude
begin

text \<open>
  The part of \<^verbatim>\<open>encoding/json\<close> that the program relies on when it writes: values are
  rendered without white space, object fields keep their order, and a string is escaped
  as \<^verbatim>\<open>json.Marshal\<close> does it (quotes, backslashes, control characters, the three HTML
  characters, the two Unicode line separators, and the replacement character for bytes
  that are not UTF-8). A \<^verbatim>\<open>json.RawMessage\<close> is validated and compacted on the way out,
  by the push-down automaton of the library. The lemmas show that no rendered value
  contains a line break.
\<close>

section \<open>UTF-8\<close>

definition byte_in :: "nat \<Rightarrow> nat \<Rightarrow> char \<Rightarrow> bool" where
  "byte_in lo hi c \<longleftrightarrow> lo \<le> (of_char c :: nat) \<and> (of_char c :: nat) \<le> hi"

text \<open>The number of bytes of the valid encoding at the front, 0 when there is none.\<close>

definition utf8_len :: "string \<Rightarrow> nat" where
  "utf8_len s =
     (case s of
        [] \<Rightarrow> 0
      | a # s1 \<Rightarrow>
          if byte_in 0 127 a then 1
          else case s1 of
            [] \<Rightarrow> 0
          | b # s2 \<Rightarrow>
              if byte_in 194 223 a \<and> byte_in 128 191 b then 2
              else case s2 of
                [] \<Rightarrow> 0
              | c # s3 \<Rightarrow>
                  if byte_in 128 191 c \<and>
                     (byte_in 224 224 a \<and> byte_in 160 191 b \<or>
                      byte_in 225 236 a \<and> byte_in 128 191 b \<or>
                      byte_in 237 237 a \<and> byte_in 128 159 b \<or>
                      byte_in 238 239 a \<and> byte_in 128 191 b) then 3
                  else case s3 of
                    [] \<Rightarrow> 0
                  | d # _ \<Rightarrow>
                      if byte_in 128 191 c \<and> byte_in 128 191 d \<and>
                         (byte_in 240 240 a \<and> byte_in 144 191 b \<or>
                          byte_in 241 243 a \<and> byte_in 128 191 b \<or>
                          byte_in 244 244 a \<and> byte_in 128 143 b) then 4
                      else 0)"

section \<open>The validating automaton\<close>

text \<open>The steps of the scanner, and what the enclosing containers expect next.\<close>

datatype jstep =
    BeginValue | BeginValueOrEmpty | BeginStringOrEmpty | BeginString | EndValue | EndTop
  | InString | InStringEsc | InStringEscU nat
  | Neg | Num1 | Num0 | Dot | Dot0 | Exp | ExpSign | Exp0
  | Literal string

datatype jcontext = ParseObjectKey | ParseObjectValue | ParseArrayValue

type_synonym jstate = "jstep \<times> jcontext list"

datatype jop = Take jstate | Skip jstate | Refuse

definition is_digit :: "char \<Rightarrow> bool" where
  "is_digit c \<longleftrightarrow> byte_in 48 57 c"

definition is_hex :: "char \<Rightarrow> bool" where
  "is_hex c \<longleftrightarrow> is_digit c \<or> byte_in 97 102 c \<or> byte_in 65 70 c"

definition is_json_space :: "char \<Rightarrow> bool" where
  "is_json_space c \<longleftrightarrow> c \<in> {CHR '' '', CHR 0x09, CHR 0x0D, CHR 0x0A}"

definition max_nesting_depth :: nat where
  "max_nesting_depth = 10000"

definition push_context :: "jstep \<Rightarrow> jcontext \<Rightarrow> jcontext list \<Rightarrow> jop" where
  "push_context st c cs = (if length cs < max_nesting_depth then Take (st, c # cs) else Refuse)"

definition pop_context :: "jcontext list \<Rightarrow> jop" where
  "pop_context cs = Take (if cs = [] then EndTop else EndValue, cs)"

definition step_end_value :: "char \<Rightarrow> jcontext list \<Rightarrow> jop" where
  "step_end_value c cs =
     (case cs of
        [] \<Rightarrow> if is_json_space c then Skip (EndTop, []) else Refuse
      | p # ps \<Rightarrow>
          if is_json_space c then Skip (EndValue, cs)
          else (case p of
              ParseObjectKey \<Rightarrow> if c = CHR '':'' then Take (BeginValue, ParseObjectValue # ps) else Refuse
            | ParseObjectValue \<Rightarrow>
                if c = CHR '','' then Take (BeginString, ParseObjectKey # ps)
                else if c = CHR ''}'' then pop_context ps else Refuse
            | ParseArrayValue \<Rightarrow>
                if c = CHR '','' then Take (BeginValue, cs)
                else if c = CHR '']'' then pop_context ps else Refuse))"

definition step_begin_value :: "char \<Rightarrow> jcontext list \<Rightarrow> jop" where
  "step_begin_value c cs =
     (if is_json_space c then Skip (BeginValue, cs)
      else if c = CHR ''{'' then push_context BeginStringOrEmpty ParseObjectKey cs
      else if c = CHR ''['' then push_context BeginValueOrEmpty ParseArrayValue cs
      else if c = CHR 0x22 then Take (InString, cs)
      else if c = CHR ''-'' then Take (Neg, cs)
      else if c = CHR ''0'' then Take (Num0, cs)
      else if c = CHR ''t'' then Take (Literal ''rue'', cs)
      else if c = CHR ''f'' then Take (Literal ''alse'', cs)
      else if c = CHR ''n'' then Take (Literal ''ull'', cs)
      else if is_digit c then Take (Num1, cs)
      else Refuse)"

definition step_num0 :: "char \<Rightarrow> jcontext list \<Rightarrow> jop" where
  "step_num0 c cs =
     (if c = CHR ''.'' then Take (Dot, cs)
      else if c = CHR ''e'' \<or> c = CHR ''E'' then Take (Exp, cs)
      else step_end_value c cs)"

definition step_exp_sign :: "char \<Rightarrow> jcontext list \<Rightarrow> jop" where
  "step_exp_sign c cs = (if is_digit c then Take (Exp0, cs) else Refuse)"

definition step_begin_string :: "char \<Rightarrow> jcontext list \<Rightarrow> jop" where
  "step_begin_string c cs =
     (if is_json_space c then Skip (BeginString, cs)
      else if c = CHR 0x22 then Take (InString, cs) else Refuse)"

fun jscan_step :: "jstate \<Rightarrow> char \<Rightarrow> jop" where
  "jscan_step (BeginValue, cs) c = step_begin_value c cs"
| "jscan_step (BeginValueOrEmpty, cs) c =
     (if is_json_space c then Skip (BeginValueOrEmpty, cs)
      else if c = CHR '']'' then step_end_value c cs else step_begin_value c cs)"
| "jscan_step (BeginStringOrEmpty, cs) c =
     (if is_json_space c then Skip (BeginStringOrEmpty, cs)
      else if c = CHR ''}'' then step_end_value c (ParseObjectValue # tl cs)
      else step_begin_string c cs)"
| "jscan_step (BeginString, cs) c = step_begin_string c cs"
| "jscan_step (EndValue, cs) c = step_end_value c cs"
| "jscan_step (EndTop, cs) c = (if is_json_space c then Skip (EndTop, cs) else Refuse)"
| "jscan_step (InString, cs) c =
     (if c = CHR 0x22 then Take (EndValue, cs)
      else if c = CHR 0x5C then Take (InStringEsc, cs)
      else if (of_char c :: nat) < 32 then Refuse else Take (InString, cs))"
| "jscan_step (InStringEsc, cs) c =
     (if c \<in> set ''bfnrt/'' \<or> c = CHR 0x5C \<or> c = CHR 0x22 then Take (InString, cs)
      else if c = CHR ''u'' then Take (InStringEscU 3, cs) else Refuse)"
| "jscan_step (InStringEscU n, cs) c =
     (if is_hex c then Take (case n of 0 \<Rightarrow> InString | Suc m \<Rightarrow> InStringEscU m, cs) else Refuse)"
| "jscan_step (Neg, cs) c =
     (if c = CHR ''0'' then Take (Num0, cs) else if is_digit c then Take (Num1, cs) else Refuse)"
| "jscan_step (Num1, cs) c = (if is_digit c then Take (Num1, cs) else step_num0 c cs)"
| "jscan_step (Num0, cs) c = step_num0 c cs"
| "jscan_step (Dot, cs) c = (if is_digit c then Take (Dot0, cs) else Refuse)"
| "jscan_step (Dot0, cs) c =
     (if is_digit c then Take (Dot0, cs)
      else if c = CHR ''e'' \<or> c = CHR ''E'' then Take (Exp, cs) else step_end_value c cs)"
| "jscan_step (Exp, cs) c =
     (if c = CHR ''+'' \<or> c = CHR ''-'' then Take (ExpSign, cs) else step_exp_sign c cs)"
| "jscan_step (ExpSign, cs) c = step_exp_sign c cs"
| "jscan_step (Exp0, cs) c = (if is_digit c then Take (Exp0, cs) else step_end_value c cs)"
| "jscan_step (Literal [], cs) c = step_end_value c cs"
| "jscan_step (Literal (x # xs), cs) c =
     (if c = x then Take (if xs = [] then EndValue else Literal xs, cs) else Refuse)"

text \<open>The scanner at the end of the input: one more blank must close the value.\<close>

definition jscan_eof :: "jstate \<Rightarrow> bool" where
  "jscan_eof st =
     (fst st = EndTop \<or> (case jscan_step st (CHR '' '') of
        Take st' \<Rightarrow> fst st' = EndTop | Skip st' \<Rightarrow> fst st' = EndTop | Refuse \<Rightarrow> False))"

text \<open>
  \<^verbatim>\<open>Compact\<close> with HTML escaping, as \<^verbatim>\<open>json.Marshal\<close> applies it to a raw message; \<open>n\<close>
  counts the bytes that the last escape has already covered.
\<close>

definition escaped_at :: "char \<Rightarrow> string \<Rightarrow> (string \<times> nat) option" where
  "escaped_at c cs =
     (if c \<in> set ''<>&'' then Some (CHR 0x5C # ''u00'' @ [hex_digit (of_char c div 16), hex_digit (of_char c mod 16)], 1)
      else if take 3 (c # cs) = byte_str [226, 128, 168] then Some (CHR 0x5C # ''u2028'', 3)
      else if take 3 (c # cs) = byte_str [226, 128, 169] then Some (CHR 0x5C # ''u2029'', 3)
      else None)"

fun json_compact_from :: "jstate \<Rightarrow> nat \<Rightarrow> string \<Rightarrow> string option" where
  "json_compact_from st n [] = (if jscan_eof st then Some [] else None)"
| "json_compact_from st n (c # cs) =
     (case jscan_step st c of
        Refuse \<Rightarrow> None
      | Skip st' \<Rightarrow> json_compact_from st' (n - 1) cs
      | Take st' \<Rightarrow>
          (if 0 < n then json_compact_from st' (n - 1) cs
           else case escaped_at c cs of
                  Some (e, k) \<Rightarrow> map_option ((@) e) (json_compact_from st' (k - 1) cs)
                | None \<Rightarrow> map_option ((#) c) (json_compact_from st' 0 cs)))"

definition json_compact :: "string \<Rightarrow> string option" where
  "json_compact s = json_compact_from (BeginValue, []) 0 s"

text \<open>
  \<^verbatim>\<open>json.Compact\<close>, without the escaping: it drops the blanks between the tokens.
\<close>

fun json_squeeze_from :: "jstate \<Rightarrow> string \<Rightarrow> string option" where
  "json_squeeze_from st [] = (if jscan_eof st then Some [] else None)"
| "json_squeeze_from st (c # cs) =
     (case jscan_step st c of
        Refuse \<Rightarrow> None
      | Skip st' \<Rightarrow> json_squeeze_from st' cs
      | Take st' \<Rightarrow> map_option ((#) c) (json_squeeze_from st' cs))"

definition json_squeeze :: "string \<Rightarrow> string option" where
  "json_squeeze s = json_squeeze_from (BeginValue, []) s"

section \<open>Values\<close>

datatype json =
    JNull
  | JBool bool
  | JNum int
  | JStr string
  | JRaw string
  | JArr "json list"
  | JObj "(string \<times> json) list"

definition backslash :: char where "backslash = CHR 0x5C"

definition escape_u00 :: "char \<Rightarrow> string" where
  "escape_u00 c = backslash # ''u00'' @ [hex_digit (of_char c div 16), hex_digit (of_char c mod 16)]"

definition escape_ascii :: "char \<Rightarrow> string" where
  "escape_ascii c =
     (if c = CHR 0x22 \<or> c = backslash then [backslash, c]
      else if c = CHR 0x08 then [backslash, CHR ''b'']
      else if c = CHR 0x0C then [backslash, CHR ''f'']
      else if c = CHR 0x0A then [backslash, CHR ''n'']
      else if c = CHR 0x0D then [backslash, CHR ''r'']
      else if c = CHR 0x09 then [backslash, CHR ''t'']
      else if (of_char c :: nat) < 32 \<or> c = CHR ''<'' \<or> c = CHR ''>'' \<or> c = CHR ''&'' then escape_u00 c
      else [c])"

function escape :: "string \<Rightarrow> string" where
  "escape [] = []"
| "escape (c # cs) =
     (if byte_in 0 127 c then escape_ascii c @ escape cs
      else let n = utf8_len (c # cs) in
        if n = 0 then (backslash # ''ufffd'') @ escape cs
        else if take n (c # cs) = byte_str [226, 128, 168] then (backslash # ''u2028'') @ escape (drop (n - 1) cs)
        else if take n (c # cs) = byte_str [226, 128, 169] then (backslash # ''u2029'') @ escape (drop (n - 1) cs)
        else take n (c # cs) @ escape (drop (n - 1) cs))"
  by pat_completeness auto
termination by (relation "measure length") auto

definition quote_json :: "string \<Rightarrow> string" where
  "quote_json s = CHR 0x22 # escape s @ [CHR 0x22]"

text \<open>The rendering of a value whose raw messages are valid.\<close>

fun marshal :: "json \<Rightarrow> string" where
  "marshal JNull = ''null''"
| "marshal (JBool b) = (if b then ''true'' else ''false'')"
| "marshal (JNum n) = itoa n"
| "marshal (JStr s) = quote_json s"
| "marshal (JRaw s) = (case json_compact s of Some r \<Rightarrow> r | None \<Rightarrow> [])"
| "marshal (JArr vs) = ''['' @ join_with '','' (map marshal vs) @ '']''"
| "marshal (JObj fs) =
     ''{'' @ join_with '','' (map (\<lambda>(k, v). quote_json k @ '':'' @ marshal v) fs) @ ''}''"

fun raw_valid :: "json \<Rightarrow> bool" where
  "raw_valid (JRaw s) \<longleftrightarrow> json_compact s \<noteq> None"
| "raw_valid (JArr vs) \<longleftrightarrow> list_all id (map raw_valid vs)"
| "raw_valid (JObj fs) \<longleftrightarrow> list_all id (map (\<lambda>(k, v). raw_valid v) fs)"
| "raw_valid _ \<longleftrightarrow> True"

text \<open>\<^verbatim>\<open>json.Marshal\<close>, which fails on an invalid raw message.\<close>

definition json_marshal :: "json \<Rightarrow> string option" where
  "json_marshal v = (if raw_valid v then Some (marshal v) else None)"

text \<open>A field tagged \<^verbatim>\<open>omitempty\<close>.\<close>

definition omit_str :: "string \<Rightarrow> string \<Rightarrow> (string \<times> json) list" where
  "omit_str k s = (if s = [] then [] else [(k, JStr s)])"

definition omit_num :: "string \<Rightarrow> int \<Rightarrow> (string \<times> json) list" where
  "omit_num k n = (if n = 0 then [] else [(k, JNum n)])"

section \<open>No line breaks\<close>

definition unbroken :: "string \<Rightarrow> bool" where
  "unbroken s \<longleftrightarrow> CHR 0x0A \<notin> set s \<and> CHR 0x0D \<notin> set s"

lemma unbroken_simps [simp]:
  "unbroken []" "unbroken (c # s) \<longleftrightarrow> c \<noteq> CHR 0x0A \<and> c \<noteq> CHR 0x0D \<and> unbroken s"
  "unbroken (s @ s') \<longleftrightarrow> unbroken s \<and> unbroken s'"
  by (auto simp: unbroken_def)

lemma unbroken_join: "unbroken sep \<Longrightarrow> list_all unbroken ps \<Longrightarrow> unbroken (join_with sep ps)"
  by (induction sep ps rule: join_with.induct) auto

lemma of_char_newlines: "(of_char (CHR 0x0A) :: nat) = 10" "(of_char (CHR 0x0D) :: nat) = 13"
  by code_simp+

lemma unbroken_char_of: "n < 256 \<Longrightarrow> n \<noteq> 10 \<Longrightarrow> n \<noteq> 13 \<Longrightarrow> unbroken [char_of (n::nat)]"
proof -
  assume n: "n < 256" "n \<noteq> 10" "n \<noteq> 13"
  then have "(of_char (char_of n :: char) :: nat) = n" by simp
  with n of_char_newlines show ?thesis by (metis unbroken_simps(1,2))
qed

lemma unbroken_hex: "n < 16 \<Longrightarrow> unbroken [hex_digit n]"
  unfolding hex_digit_def by (rule unbroken_char_of) auto

lemma unbroken_digits: "unbroken (digits_of n)"
proof (induction n rule: digits_of.induct)
  case (1 n)
  have "unbroken [char_of (48 + n)]" if "n < 10" using that by (intro unbroken_char_of) auto
  moreover have "unbroken [char_of (48 + n mod 10)]"
    by (rule unbroken_char_of) (use mod_less_divisor [of 10 n] in auto)
  ultimately show ?case using 1 by (subst digits_of.simps) (auto simp del: unbroken_simps(2))
qed

lemma hex_digit_plain: "n < 16 \<Longrightarrow> hex_digit n \<noteq> CHR 0x0A \<and> hex_digit n \<noteq> CHR 0x0D"
  using unbroken_hex by simp

lemma unbroken_escape_ascii: "byte_in 0 127 c \<Longrightarrow> unbroken (escape_ascii c)"
proof -
  assume "byte_in 0 127 c"
  then have "(of_char c :: nat) div 16 < 16" "(of_char c :: nat) mod 16 < 16"
    by (auto simp: byte_in_def)
  then have "hex_digit (of_char c div 16) \<noteq> CHR 0x0A \<and> hex_digit (of_char c div 16) \<noteq> CHR 0x0D"
    "hex_digit (of_char c mod 16) \<noteq> CHR 0x0A \<and> hex_digit (of_char c mod 16) \<noteq> CHR 0x0D"
    by (simp_all only: hex_digit_plain simp_thms)
  then show ?thesis
    by (simp add: escape_ascii_def escape_u00_def backslash_def)
qed

lemma byte_in_high: "byte_in lo hi c \<Longrightarrow> 128 \<le> lo \<Longrightarrow> 128 \<le> (of_char c :: nat)"
  by (simp add: byte_in_def)

lemma utf8_len_cases:
  "utf8_len s = 0 \<or> utf8_len s = 1 \<and> byte_in 0 127 (s ! 0) \<or>
   utf8_len s \<in> {2, 3, 4} \<and> utf8_len s \<le> length s \<and>
     (\<forall>x \<in> set (take (utf8_len s - 1) (tl s)). 128 \<le> (of_char x :: nat))"
  unfolding utf8_len_def
  by (simp split: list.split) (auto dest: byte_in_high)

lemma utf8_len_bytes:
  assumes "\<not> byte_in 0 127 c"
  shows "\<forall>x \<in> set (take (utf8_len (c # cs)) (c # cs)). 128 \<le> (of_char x :: nat)"
proof -
  have c: "128 \<le> (of_char c :: nat)" using assms by (simp add: byte_in_def)
  from utf8_len_cases [of "c # cs"] assms c show ?thesis
    by (cases "utf8_len (c # cs)") auto
qed

lemma unbroken_high: "\<forall>x \<in> set s. 128 \<le> (of_char x :: nat) \<Longrightarrow> unbroken s"
  using of_char_newlines by (fastforce simp: unbroken_def)

lemma unbroken_escape: "unbroken (escape s)"
proof (induction s rule: escape.induct)
  case (2 c cs)
  then show ?case
    using unbroken_escape_ascii [of c] unbroken_high [OF utf8_len_bytes [of c cs]]
    by (auto simp: Let_def backslash_def simp del: take_Suc_Cons)
qed simp

text \<open>The automaton takes no line break: outside strings it skips them, inside it refuses them.\<close>

definition literal_unbroken :: "jstate \<Rightarrow> bool" where
  "literal_unbroken st \<longleftrightarrow> (case fst st of Literal l \<Rightarrow> unbroken l | _ \<Rightarrow> True)"

lemmas jscan_defs =
  step_end_value_def step_begin_value_def step_num0_def step_exp_sign_def step_begin_string_def
  push_context_def pop_context_def

lemma jscan_takes_no_break:
  "jscan_step st c = Take st' \<Longrightarrow> literal_unbroken st \<Longrightarrow> c \<noteq> CHR 0x0A \<and> c \<noteq> CHR 0x0D"
  using of_char_newlines
  by (induction st c rule: jscan_step.induct)
     (auto simp: jscan_defs is_json_space_def is_digit_def is_hex_def byte_in_def literal_unbroken_def
       split: if_splits list.splits jcontext.splits)

lemma jscan_literal:
  "literal_unbroken st \<Longrightarrow> jscan_step st c = Take st' \<or> jscan_step st c = Skip st' \<Longrightarrow> literal_unbroken st'"
  by (induction st c rule: jscan_step.induct)
     (auto simp: jscan_defs literal_unbroken_def split: if_splits list.splits jcontext.splits nat.splits)

lemma unbroken_escaped_at: "escaped_at c cs = Some (e, k) \<Longrightarrow> unbroken e"
proof -
  have "(of_char c :: nat) div 16 < 16" "(of_char c :: nat) mod 16 < 16"
    by (simp_all add: less_mult_imp_div_less)
  then have "hex_digit (of_char c div 16) \<noteq> CHR 0x0A \<and> hex_digit (of_char c div 16) \<noteq> CHR 0x0D"
    "hex_digit (of_char c mod 16) \<noteq> CHR 0x0A \<and> hex_digit (of_char c mod 16) \<noteq> CHR 0x0D"
    by (simp_all only: hex_digit_plain simp_thms)
  then show "escaped_at c cs = Some (e, k) \<Longrightarrow> unbroken e"
    by (simp add: escaped_at_def split: if_split_asm) (elim conjE; hypsubst; simp)+
qed

lemma json_compact_from_unbroken:
  "json_compact_from st n s = Some r \<Longrightarrow> literal_unbroken st \<Longrightarrow> unbroken r"
proof (induction s arbitrary: st n r)
  case (Cons c cs)
  show ?case
  proof (cases "jscan_step st c")
    case (Take st')
    with Cons.prems have "literal_unbroken st'" "c \<noteq> CHR 0x0A \<and> c \<noteq> CHR 0x0D"
      using jscan_literal jscan_takes_no_break by blast+
    moreover have "json_compact_from st' k cs = Some z \<Longrightarrow> unbroken z" for k z
      by (rule Cons.IH) (use \<open>literal_unbroken st'\<close> in auto)
    ultimately show ?thesis using Take Cons.prems(1) unbroken_escaped_at [of c cs]
      by (fastforce split: if_splits option.splits)
  next
    case (Skip st')
    with Cons.prems have "literal_unbroken st'" using jscan_literal by blast
    with Skip Cons show ?thesis by simp
  qed (use Cons.prems in simp)
qed (auto split: if_splits)

lemma unbroken_itoa: "unbroken (itoa n)"
  by (simp add: itoa_def unbroken_digits)

text \<open>
  The JSON that \<^verbatim>\<open>json.Marshal\<close> renders contains no line break, whatever
  strings it holds, so a payload is always one line of an event stream.
\<close>

lemma marshal_unbroken: "unbroken (marshal v)"
proof (induction v)
  case (JRaw s)
  then show ?case
    by (auto simp: json_compact_def split: option.split dest!: json_compact_from_unbroken simp: literal_unbroken_def)
next
  case (JArr vs)
  then have "list_all unbroken (map marshal vs)" by (simp add: list_all_iff)
  from unbroken_join [OF _ this] show ?case by simp
next
  case (JObj fs)
  then have "list_all unbroken (map (\<lambda>(k, v). quote_json k @ '':'' @ marshal v) fs)"
    by (fastforce simp: list_all_iff quote_json_def unbroken_escape)
  from unbroken_join [OF _ this] show ?case by simp
qed (simp_all add: quote_json_def unbroken_escape unbroken_itoa)

section \<open>Squeezing\<close>

text \<open>
  A blank may move the scanner (it ends a number), so the run on a squeezed text is
  compared with the run on the original by what the states accept: whatever the state
  after a blank takes, the state before it takes too.
\<close>

definition accepts_more :: "jstate \<Rightarrow> jstate \<Rightarrow> bool" where
  "accepts_more s t \<longleftrightarrow>
     (\<forall>c x. jscan_step t c = Take x \<longrightarrow> jscan_step s c = Take x) \<and> (jscan_eof t \<longrightarrow> jscan_eof s)"

lemma accepts_more_refl: "accepts_more s s"
  by (simp add: accepts_more_def)

lemma accepts_more_trans: "accepts_more s t \<Longrightarrow> accepts_more t u \<Longrightarrow> accepts_more s u"
  by (simp add: accepts_more_def)

lemma end_value_skip:
  "step_end_value c cs = Skip t \<longleftrightarrow> is_json_space c \<and> t = (if cs = [] then EndTop else EndValue, cs)"
  by (auto simp: step_end_value_def pop_context_def split: list.splits if_splits jcontext.splits)

lemma end_value_take:
  "step_end_value c cs = Take x \<Longrightarrow> cs \<noteq> [] \<and> c \<in> set '':,}]''"
  by (auto simp: step_end_value_def split: list.splits if_splits jcontext.splits)

lemma accepts_end:
  assumes "\<And>c. c \<in> set '':,}]'' \<Longrightarrow> jscan_step s c = step_end_value c (snd s)"
    and "jscan_step s (CHR '' '') = step_end_value (CHR '' '') (snd s)"
  shows "accepts_more s (if snd s = [] then EndTop else EndValue, snd s)"
proof (cases "snd s")
  case Nil
  then show ?thesis using assms(2) by (auto simp: accepts_more_def jscan_eof_def step_end_value_def is_json_space_def)
next
  case (Cons p ps)
  have "jscan_step s c = Take x" if "step_end_value c (p # ps) = Take x" for c x
    using assms(1) [of c] end_value_take [OF that] that Cons by simp
  with Cons show ?thesis
    by (simp add: accepts_more_def jscan_eof_def) (simp add: step_end_value_def is_json_space_def)
qed

lemma ending_step:
  assumes "st = EndValue \<or> st = Num1 \<or> st = Num0 \<or> st = Dot0 \<or> st = Exp0 \<or> st = Literal []"
    and "\<not> is_digit c" and "c \<notin> {CHR ''.'', CHR ''e'', CHR ''E''}"
  shows "jscan_step (st, cs) c = step_end_value c cs"
  using assms by (elim disjE) (simp_all add: step_num0_def)

lemma end_chars:
  "c \<in> set '':,}]'' \<Longrightarrow> \<not> is_digit c \<and> c \<notin> {CHR ''.'', CHR ''e'', CHR ''E''}"
  by (auto simp: is_digit_def byte_in_def)

lemma skip_accepts_more: "jscan_step s c = Skip t \<Longrightarrow> accepts_more s t"
proof -
  assume skip: "jscan_step s c = Skip t"
  obtain st cs where s: "s = (st, cs)" by (cases s)
  note facts = step_begin_value_def step_begin_string_def step_num0_def step_exp_sign_def
    push_context_def is_json_space_def
  show ?thesis
  proof (cases "t = s")
    case True
    then show ?thesis by (simp add: accepts_more_refl)
  next
    case False
    with skip s have t: "t = (if snd s = [] then EndTop else EndValue, snd s)"
      and st: "st = EndValue \<or> st = Num1 \<or> st = Num0 \<or> st = Dot0 \<or> st = Exp0 \<or> st = Literal []"
      by (induction s c rule: jscan_step.induct) (auto simp: facts end_value_skip split: if_splits)
    have "jscan_step s c = step_end_value c (snd s)" if "c \<in> set '':,}]''" for c
      using ending_step [OF st] end_chars [OF that] s by simp
    moreover have "jscan_step s (CHR '' '') = step_end_value (CHR '' '') (snd s)"
      using ending_step [OF st, of "CHR '' ''" cs] s by (simp add: is_digit_def byte_in_def)
    ultimately show ?thesis unfolding t by (rule accepts_end)
  qed
qed

lemma json_squeeze_from_idem:
  "json_squeeze_from t s = Some r \<Longrightarrow> accepts_more u t \<Longrightarrow> json_squeeze_from u r = Some r"
proof (induction t s arbitrary: u r rule: json_squeeze_from.induct)
  case (2 t c cs)
  show ?case
  proof (cases "jscan_step t c")
    case (Skip t')
    with "2.prems" skip_accepts_more accepts_more_trans have "accepts_more u t'" by blast
    with "2.IH"(2) [OF Skip] "2.prems" Skip show ?thesis by simp
  next
    case (Take t')
    with "2.prems" obtain r' where "r = c # r'" "json_squeeze_from t' cs = Some r'" by auto
    moreover from "2.prems"(2) Take have "jscan_step u c = Take t'"
      unfolding accepts_more_def by blast
    ultimately show ?thesis using "2.IH"(1) [OF Take _ accepts_more_refl] by simp
  qed (use "2.prems" in simp)
qed (simp add: accepts_more_def split: if_splits)

lemma json_squeeze_idem: "json_squeeze s = Some r \<Longrightarrow> json_squeeze r = Some r"
  unfolding json_squeeze_def by (rule json_squeeze_from_idem [OF _ accepts_more_refl])

section \<open>Plain text\<close>

text \<open>Text of visible ASCII characters without an escape: a witness evaluates its JSON by these facts.\<close>

definition plain :: "char \<Rightarrow> bool" where
  "plain c \<longleftrightarrow> graphic c \<and> c \<notin> set ''<>&'' \<and> c \<noteq> CHR 0x22 \<and> c \<noteq> CHR 0x5C"

lemma plain_small: "plain c \<Longrightarrow> 33 \<le> (of_char c :: nat) \<and> (of_char c :: nat) < 127"
  by (simp add: plain_def graphic_def)

lemma ascii_escaped_at: "(of_char c :: nat) < 226 \<Longrightarrow> c \<notin> set ''<>&'' \<Longrightarrow> escaped_at c cs = None"
proof -
  assume c: "(of_char c :: nat) < 226" "c \<notin> set ''<>&''"
  then have "c \<noteq> char_of (226::nat)" by auto
  with c(2) show ?thesis by (simp add: escaped_at_def byte_str_def)
qed

lemma compact_plain:
  "list_all plain s \<Longrightarrow>
   json_compact_from (InString, cs) 0 (s @ r) = map_option ((@) s) (json_compact_from (InString, cs) 0 r)"
proof (induction s)
  case Nil
  show ?case by (cases "json_compact_from (InString, cs) 0 r") simp_all
next
  case (Cons c s)
  then have "plain c" by simp
  with plain_small [of c] have "jscan_step (InString, cs) c = Take (InString, cs)" "escaped_at c (s @ r) = None"
    by (simp_all add: plain_def ascii_escaped_at)
  with Cons show ?case by (simp add: option.map_comp comp_def)
qed

lemma escape_plain: "list_all plain s \<Longrightarrow> escape s = s"
proof (induction s)
  case (Cons c s)
  then have p: "plain c" by simp
  from plain_small [OF p] have "c \<noteq> CHR 0x08" "c \<noteq> CHR 0x0C" "c \<noteq> CHR 0x0A" "c \<noteq> CHR 0x0D" "c \<noteq> CHR 0x09"
    by (intro notI; simp)+
  with p plain_small [OF p] have "byte_in 0 127 c" "escape_ascii c = [c]"
    by (simp_all add: byte_in_def escape_ascii_def plain_def backslash_def)
  with Cons show ?case by simp
qed simp

lemma compact_key:
  assumes "list_all plain k" and "jscan_step st (CHR 0x22) = Take (InString, cs)"
  shows "json_compact_from st 0 (quote_json k @ r) =
    map_option ((@) (quote_json k)) (json_compact_from (EndValue, cs) 0 r)"
  using assms by (cases "json_compact_from (EndValue, cs) 0 r")
    (simp_all add: quote_json_def escape_plain compact_plain ascii_escaped_at)

lemmas json_step_defs = step_begin_value_def is_json_space_def push_context_def max_nesting_depth_def
  step_end_value_def step_num0_def step_begin_string_def pop_context_def jscan_eof_def is_digit_def byte_in_def

lemma compact_keys:
  assumes "list_all plain k"
  shows "json_compact_from (BeginStringOrEmpty, cs) 0 (quote_json k @ r) =
      map_option ((@) (quote_json k)) (json_compact_from (EndValue, cs) 0 r)"
    "json_compact_from (BeginString, cs) 0 (quote_json k @ r) =
      map_option ((@) (quote_json k)) (json_compact_from (EndValue, cs) 0 r)"
    "json_compact_from (BeginValue, cs) 0 (quote_json k @ r) =
      map_option ((@) (quote_json k)) (json_compact_from (EndValue, cs) 0 r)"
  by (rule compact_key [OF assms], simp add: json_step_defs)+

lemma compact_quote: "list_all plain k \<Longrightarrow> json_compact (quote_json k) = Some (quote_json k)"
  using compact_keys(3) [of k "[]" "[]"] by (simp add: json_compact_def json_step_defs)

end
