(* ===== verification/SseWriter.thy ===== *)
theory SseWriter
  imports Sink Sse Json
begin

text \<open>
  The streaming sink of \<^verbatim>\<open>internal/translate/stream/sink.go\<close>: every sink call becomes one
  JSON payload in the wire shape of the Anthropic stream and one event-stream frame,
  flushed at once. The fields of \<^verbatim>\<open>aschema.ContentBlock\<close> that only requests use are zero
  in every block a translator opens and are dropped by \<^verbatim>\<open>omitempty\<close>, so
  \<^typ>\<open>content_block\<close> does not carry them.

  The writer below is the environment \<^verbatim>\<open>wire\<close>: what the buffered writer answers to each
  chunk, what the two flushes answer, and the error of \<^verbatim>\<open>json.Marshal\<close> on a raw message
  that is not valid JSON.
\<close>

section \<open>Wire shapes\<close>

definition block_type_text :: "block_type \<Rightarrow> string" where
  "block_type_text ty =
     (case ty of BlockText \<Rightarrow> ''text'' | BlockThinking \<Rightarrow> ''thinking'' | BlockToolUse \<Rightarrow> ''tool_use''
      | BlockOther s \<Rightarrow> s)"

definition delta_type_text :: "delta_type \<Rightarrow> string" where
  "delta_type_text ty =
     (case ty of DeltaText \<Rightarrow> ''text_delta'' | DeltaInputJSON \<Rightarrow> ''input_json_delta''
      | DeltaThinking \<Rightarrow> ''thinking_delta'' | DeltaSignature \<Rightarrow> ''signature_delta'' | DeltaOther s \<Rightarrow> s)"

definition stop_reason_text :: "stop_reason \<Rightarrow> string" where
  "stop_reason_text r =
     (case r of StopNone \<Rightarrow> '''' | StopEndTurn \<Rightarrow> ''end_turn'' | StopToolUse \<Rightarrow> ''tool_use''
      | StopMaxTokens \<Rightarrow> ''max_tokens'')"

definition json_usage :: "usage \<Rightarrow> json" where
  "json_usage u = JObj ([(''input_tokens'', JNum (u_input u)), (''output_tokens'', JNum (u_output u))] @
     omit_num ''cache_creation_input_tokens'' (u_cache_creation u) @
     omit_num ''cache_read_input_tokens'' (u_cache_read u))"

definition str_ptr :: "string \<Rightarrow> json" where
  "str_ptr s = (if s = [] then JNull else JStr s)"

definition json_block :: "content_block \<Rightarrow> json" where
  "json_block b = JObj ([(''type'', JStr (block_type_text (cb_type b)))] @
     omit_str ''text'' (cb_text b) @ omit_str ''thinking'' (cb_thinking b) @
     omit_str ''signature'' (cb_signature b) @ omit_str ''id'' (cb_id b) @
     omit_str ''name'' (cb_name b) @ (if cb_input b = [] then [] else [(''input'', JRaw (cb_input b))]))"

definition json_start_block :: "content_block \<Rightarrow> json" where
  "json_start_block b =
     (case cb_type b of
        BlockText \<Rightarrow> JObj [(''type'', JStr ''text''), (''text'', JStr (cb_text b))]
      | BlockThinking \<Rightarrow> JObj [(''type'', JStr ''thinking''), (''thinking'', JStr (cb_thinking b))]
      | BlockToolUse \<Rightarrow>
          JObj [(''type'', JStr ''tool_use''), (''id'', JStr (cb_id b)), (''name'', JStr (cb_name b)),
                (''input'', JRaw (if cb_input b = [] then ''{}'' else cb_input b))]
      | BlockOther s \<Rightarrow> json_block b)"

definition json_delta_body :: "delta \<Rightarrow> json" where
  "json_delta_body d = JObj ([(''type'', JStr (delta_type_text (d_type d)))] @
     omit_str ''text'' (d_text d) @ omit_str ''partial_json'' (d_partial_json d) @
     omit_str ''thinking'' (d_thinking d) @ omit_str ''signature'' (d_signature d))"

definition json_error_body :: "error_body \<Rightarrow> json" where
  "json_error_body e = JObj [(''type'', JStr (eb_type e)), (''message'', JStr (eb_message e))]"

text \<open>The event name of a call; it is also the \<open>type\<close> of its payload.\<close>

fun event_name :: "sink_call \<Rightarrow> string" where
  "event_name (MessageStart i m n) = ''message_start''"
| "event_name (BlockStart i b) = ''content_block_start''"
| "event_name (BlockDelta i d) = ''content_block_delta''"
| "event_name (BlockStop i) = ''content_block_stop''"
| "event_name (MessageDelta r u) = ''message_delta''"
| "event_name MessageStop = ''message_stop''"
| "event_name (SinkError e) = ''error''"
| "event_name Ping = ''ping''"

definition wire_message :: "string \<Rightarrow> string \<Rightarrow> int \<Rightarrow> json" where
  "wire_message i m n =
     JObj [(''id'', JStr i), (''type'', JStr ''message''), (''role'', JStr ''assistant''),
           (''model'', JStr m), (''content'', JArr []), (''stop_reason'', JNull),
           (''stop_sequence'', JNull), (''usage'', json_usage (zero_usage\<lparr>u_input := n\<rparr>))]"

fun payload_fields :: "sink_call \<Rightarrow> (string \<times> json) list" where
  "payload_fields (MessageStart i m n) = [(''message'', wire_message i m n)]"
| "payload_fields (BlockStart i b) = [(''index'', JNum i), (''content_block'', json_start_block b)]"
| "payload_fields (BlockDelta i d) = [(''index'', JNum i), (''delta'', json_delta_body d)]"
| "payload_fields (BlockStop i) = [(''index'', JNum i)]"
| "payload_fields (MessageDelta r u) =
     [(''delta'', JObj [(''stop_reason'', str_ptr (stop_reason_text r)), (''stop_sequence'', JNull)]),
      (''usage'', json_usage u)]"
| "payload_fields MessageStop = []"
| "payload_fields (SinkError e) = [(''error'', json_error_body e)]"
| "payload_fields Ping = []"

definition payload :: "sink_call \<Rightarrow> json" where
  "payload c = JObj ((''type'', JStr (event_name c)) # payload_fields c)"

section \<open>The writer\<close>

record wire =
  wr_accept :: "string \<Rightarrow> string \<Rightarrow> go_error option"
  wr_flush :: "string \<Rightarrow> go_error option"        \<comment> \<open>of the buffered writer\<close>
  wr_push :: "string \<Rightarrow> go_error option"         \<comment> \<open>of the writer below it\<close>
  wr_marshal_error :: "json \<Rightarrow> go_error"

definition new_sse_writer :: frame_writer where
  "new_sse_writer = \<lparr>fw_out = [], fw_err = None\<rparr>"

definition sse_flush :: "wire \<Rightarrow> frame_writer \<Rightarrow> go_error option \<times> frame_writer" where
  "sse_flush w fw = fw_flush (wr_flush w (fw_out fw)) (wr_push w (fw_out fw)) fw"

definition sse_write :: "wire \<Rightarrow> string \<Rightarrow> json \<Rightarrow> frame_writer \<Rightarrow> go_error option \<times> frame_writer" where
  "sse_write w event v fw =
     (case json_marshal v of
        None \<Rightarrow> (Some (wr_marshal_error w v), fw)
      | Some data \<Rightarrow>
          (case write_frame (wr_accept w) event data fw of
             (Some e, fw') \<Rightarrow> (Some e, fw')
           | (None, fw') \<Rightarrow> sse_flush w fw'))"

definition sse_call :: "wire \<Rightarrow> sink_call \<Rightarrow> frame_writer \<Rightarrow> go_error option \<times> frame_writer" where
  "sse_call w c = sse_write w (event_name c) (payload c)"

definition sse_calls :: "wire \<Rightarrow> sink_call list \<Rightarrow> frame_writer" where
  "sse_calls w cs = foldl (\<lambda>fw c. snd (sse_call w c fw)) new_sse_writer cs"

text \<open>The writer as a sink: its state is the result of the calls it has received.\<close>

definition sse_sink :: "wire \<Rightarrow> sink" where
  "sse_sink w cs c = fst (sse_call w c (sse_calls w cs))"

text \<open>A writer that accepts and flushes everything.\<close>

definition open_wire :: wire where
  "open_wire = \<lparr>wr_accept = (\<lambda>out s. None), wr_flush = (\<lambda>out. None), wr_push = (\<lambda>out. None),
     wr_marshal_error = (\<lambda>v. PlainError ''json: error calling MarshalJSON for type json.RawMessage'')\<rparr>"

definition call_frame :: "sink_call \<Rightarrow> frame" where
  "call_frame c = \<lparr>fr_event = event_name c, fr_data = marshal (payload c)\<rparr>"

text \<open>The calls whose payload a scanner with its default bound can read back.\<close>

definition frame_fits :: "sink_call \<Rightarrow> bool" where
  "frame_fits c \<longleftrightarrow> length (marshal (payload c)) + 6 \<le> default_max_line_bytes"

section \<open>Properties\<close>

lemma data_segments_unbroken: "LF \<notin> set cs \<Longrightarrow> data_segments seg cs = [seg @ cs]"
  by (induction cs arbitrary: seg) auto

lemma event_name_plain: "plain_line (event_name c) \<and> length (event_name c) \<le> 19"
  by (cases c) (auto simp: plain_line_def)

lemma call_frame_codec: "frame_fits c \<Longrightarrow> codec_frame default_max_line_bytes (call_frame c)"
  using marshal_unbroken [of "payload c"] event_name_plain [of c]
  by (auto simp: codec_frame_def call_frame_def unbroken_def plain_line_def data_segments_unbroken
      frame_fits_def default_max_line_bytes_def)

lemma write_frame_accepts:
  assumes "fw_err fw = None" "\<And>out s. bw out s = None"
  shows "write_frame bw ev d fw =
      (None, fw\<lparr>fw_out := fw_out fw @ frame_bytes \<lparr>fr_event = ev, fr_data = d\<rparr>\<rparr>)"
proof -
  have "fw_err v = None \<Longrightarrow>
      foldl (\<lambda>w s. fw_write bw s w) v cs = v\<lparr>fw_out := fw_out v @ concat cs\<rparr>" for v cs
    by (induction cs arbitrary: v) (auto simp: fw_write_def assms(2))
  with assms(1) show ?thesis by (simp add: write_frame_def Let_def frame_bytes_def)
qed

lemma sse_call_open:
  "fw_err fw = None \<Longrightarrow> raw_valid (payload c) \<Longrightarrow>
   sse_call open_wire c fw = (None, fw\<lparr>fw_out := fw_out fw @ frame_bytes (call_frame c)\<rparr>)"
  by (simp add: sse_call_def sse_write_def json_marshal_def write_frame_accepts open_wire_def
      sse_flush_def fw_flush_def call_frame_def)

lemma sse_calls_open:
  "list_all (\<lambda>c. raw_valid (payload c)) cs \<Longrightarrow>
   sse_calls open_wire cs = \<lparr>fw_out = concat (map (frame_bytes \<circ> call_frame) cs), fw_err = None\<rparr>"
proof (induction cs rule: rev_induct)
  case Nil
  then show ?case by (simp add: sse_calls_def new_sse_writer_def)
next
  case (snoc c cs)
  then show ?case by (simp add: sse_calls_def sse_call_open)
qed

text \<open>
  Property (C21): what the streaming sink writes, a client reads. For any calls whose raw JSON is
  valid and whose payloads fit in a line of the scanner, a scanner over the bytes
  written returns one frame per call, in order, with the event name of the call and
  its JSON payload unchanged, and ends without error.
\<close>

theorem sse_writer_read_back:
  assumes "list_all (\<lambda>c. raw_valid (payload c)) cs" and "list_all frame_fits cs"
  shows "fst (scan_all (new_scanner (fw_out (sse_calls open_wire cs)) EOF)) = map call_frame cs"
proof -
  have "list_all (codec_frame default_max_line_bytes) (map call_frame cs)"
    using assms(2) by (auto simp: list_all_iff call_frame_codec)
  from scan_frames_back [OF this] assms(1) show ?thesis
    by (simp add: sse_calls_open comp_def)
qed

definition demo_calls :: "sink_call list" where
  "demo_calls = [MessageStart ''m'' ''g'' 3, BlockStart 0 (empty_block BlockToolUse),
     BlockDelta 0 (text_delta [CHR 0x0A]), BlockStop 0]"

theorem sse_writer_read_back_witness:
  "fst (scan_all (new_scanner (fw_out (sse_calls open_wire demo_calls)) EOF)) = map call_frame demo_calls"
proof (rule sse_writer_read_back)
  have "json_compact ''{}'' \<noteq> None"
    by (simp add: json_compact_def step_begin_value_def is_json_space_def push_context_def
        max_nesting_depth_def escaped_at_def byte_str_def step_end_value_def pop_context_def
        jscan_eof_def step_begin_string_def)
  then show "list_all (\<lambda>c. raw_valid (payload c)) demo_calls"
    by (simp add: demo_calls_def payload_def wire_message_def json_usage_def omit_num_def omit_str_def
        json_start_block_def empty_block_def json_delta_body_def text_delta_def)
  have "length (marshal (payload c)) \<le> 300" if "c \<in> set demo_calls" for c
    using that by (auto simp: demo_calls_def) (code_simp)+
  then show "list_all frame_fits demo_calls"
    by (fastforce simp: list_all_iff frame_fits_def default_max_line_bytes_def)
qed

lemma sse_call_prefix:
  "\<exists>p. prefix p (frame_bytes (call_frame c)) \<and> fw_out (snd (sse_call w c fw)) = fw_out fw @ p \<and>
       (fw_err (snd (sse_call w c fw)) = None \<longrightarrow>
          fw_err fw = None \<and> p = (if raw_valid (payload c) then frame_bytes (call_frame c) else []))"
proof (cases "raw_valid (payload c) \<and> fw_err fw = None")
  case True
  let ?f = "foldl (\<lambda>v s. fw_write (wr_accept w) s v) fw (frame_chunks (event_name c) (marshal (payload c)))"
  from True fw_write_prefix [of fw "frame_chunks (event_name c) (marshal (payload c))" "wr_accept w"]
  obtain p where "prefix p (frame_bytes (call_frame c))" "fw_out ?f = fw_out fw @ p"
    "fw_err ?f = None \<longrightarrow> p = frame_bytes (call_frame c)"
    by (auto simp: frame_bytes_def call_frame_def)
  with True show ?thesis
    by (intro exI [of _ p])
       (auto simp: sse_call_def sse_write_def json_marshal_def write_frame_def Let_def sse_flush_def
         fw_flush_def split: option.splits)
qed (auto simp: sse_call_def sse_write_def json_marshal_def write_frame_def split: option.splits)

text \<open>
  Whatever the connection refuses and whenever a flush fails, the bytes that have
  been accepted are a prefix of the frames of the calls made (those with valid raw JSON),
  and all of them as long as no error is recorded; after the first write error no byte
  follows.
\<close>

theorem sse_wire_prefix:
  "let sent = concat (map (frame_bytes \<circ> call_frame) (filter (\<lambda>c. raw_valid (payload c)) cs));
       fw = sse_calls w cs
   in (if fw_err fw = None then fw_out fw = sent else prefix (fw_out fw) sent) \<and>
      (if fw_err fw = None then True else fw_out (sse_calls w (cs @ ds)) = fw_out fw)"
proof -
  let ?sent = "\<lambda>cs. concat (map (frame_bytes \<circ> call_frame) (filter (\<lambda>c. raw_valid (payload c)) cs))"
  have stuck: "fw_err fw \<noteq> None \<Longrightarrow> snd (sse_call w c fw) = fw" for c fw
    by (auto simp: sse_call_def sse_write_def write_frame_def split: option.splits)
  have "(fw_err (sse_calls w cs) = None \<longrightarrow> fw_out (sse_calls w cs) = ?sent cs) \<and>
      prefix (fw_out (sse_calls w cs)) (?sent cs)"
  proof (induction cs rule: rev_induct)
    case Nil
    then show ?case by (simp add: sse_calls_def new_sse_writer_def)
  next
    case (snoc c cs)
    let ?fw = "sse_calls w cs"
    have step: "sse_calls w (cs @ [c]) = snd (sse_call w c ?fw)" by (simp add: sse_calls_def)
    show ?case
    proof (cases "fw_err ?fw")
      case None
      with sse_call_prefix [of c w ?fw] snoc show ?thesis
        by (auto simp: step sse_call_def sse_write_def json_marshal_def)
    next
      case (Some e)
      with snoc stuck [of ?fw c] show ?thesis by (auto simp: step intro: prefix_prefix)
    qed
  qed
  moreover have "fw_err (sse_calls w cs) \<noteq> None \<Longrightarrow> sse_calls w (cs @ ds) = sse_calls w cs"
    by (induction ds rule: rev_induct) (auto simp: sse_calls_def stuck)
  ultimately show ?thesis by (auto simp: Let_def)
qed

end
