(* ===== verification/ToolSet.thy ===== *)
theory ToolSet
  imports Apierr
begin

text \<open>
  The mid-conversation tool changes of \<^verbatim>\<open>internal/anthropic/schema/content.go\<close>: the rules
  for one \<^verbatim>\<open>tool_addition\<close> or \<^verbatim>\<open>tool_removal\<close> block, the \<^verbatim>\<open>ToolSet\<close> that both backend
  legs drive, and \<^verbatim>\<open>ResolveToolChanges\<close>. The state keeps slots, an index of the first
  slot of each name and the set of removed names; the specification keeps one list of
  rows, each a name, a definition and a flag.
\<close>

section \<open>Blocks\<close>

record cache_control =
  cc_type :: string
  cc_ttl :: string

text \<open>A tool; its schema is the raw JSON of the request, its \<^verbatim>\<open>CacheControl\<close> may be nil.\<close>

record tool =
  tl_type :: string
  tl_name :: string
  tl_description :: string
  tl_input_schema :: string
  tl_cache_control :: "cache_control option"

record tool_target =
  tt_type :: string
  tt_name :: string
  tt_definition :: "tool option"

definition BlockToolAddition :: string where "BlockToolAddition = ''tool_addition''"
definition BlockToolRemoval :: string where "BlockToolRemoval = ''tool_removal''"
definition ToolTargetReference :: string where "ToolTargetReference = ''tool_reference''"
definition ToolTargetDefinition :: string where "ToolTargetDefinition = ''tool_definition''"

lemmas tool_kind_defs =
  BlockToolAddition_def BlockToolRemoval_def ToolTargetReference_def ToolTargetDefinition_def

definition check_tool_change ::
  "(string \<Rightarrow> string) \<Rightarrow> string \<Rightarrow> tool_target option \<Rightarrow> (string \<Rightarrow> bool) \<Rightarrow> go_error option" where
  "check_tool_change q kind t declared =
     (case t of
        None \<Rightarrow> Some (PlainError ''has no tool object'')
      | Some t \<Rightarrow>
          if kind = BlockToolRemoval \<and> tt_type t = ToolTargetReference then
            (if trim_space (tt_name t) = [] then Some (PlainError ''removes a tool with no name'') else None)
          else if kind = BlockToolAddition \<and> tt_type t = ToolTargetDefinition then
            (case tt_definition t of
               None \<Rightarrow> Some (PlainError ''defines a tool with no name'')
             | Some d \<Rightarrow>
                 if trim_space (tl_name d) = [] then Some (PlainError ''defines a tool with no name'')
                 else None)
          else if kind = BlockToolAddition \<and> tt_type t = ToolTargetReference then
            (if \<not> declared (tt_name t)
             then Some (PlainError (''adds tool '' @ go_quote q (tt_name t) @ '', which nothing declares''))
             else None)
          else Some (PlainError (kind @ '' has an unknown tool target type '' @ go_quote q (tt_type t))))"

section \<open>The tool set\<close>

record tool_set =
  set_names :: "string list"
  set_first :: "string \<rightharpoonup> nat"
  set_removed :: "string set"
  set_declared :: nat

text \<open>The loop of \<^verbatim>\<open>NewToolSet\<close> over the declared names, from slot \<open>i\<close>.\<close>

fun index_names :: "nat \<Rightarrow> string list \<Rightarrow> (string \<rightharpoonup> nat) \<Rightarrow> (string \<rightharpoonup> nat)" where
  "index_names i [] m = m"
| "index_names i (n # ns) m =
     index_names (i + 1) ns (if m n = None \<and> n \<noteq> [] then m(n \<mapsto> i) else m)"

definition new_tool_set :: "string list \<Rightarrow> tool_set" where
  "new_tool_set declared =
     \<lparr>set_names = declared, set_first = index_names 0 declared Map.empty, set_removed = {},
      set_declared = length declared\<rparr>"

definition set_len :: "tool_set \<Rightarrow> nat" where
  "set_len s = length (set_names s)"

definition known :: "tool_set \<Rightarrow> string \<Rightarrow> bool" where
  "known s n \<longleftrightarrow> set_first s n \<noteq> None"

definition active :: "tool_set \<Rightarrow> nat \<Rightarrow> bool" where
  "active s slot \<longleftrightarrow> set_names s ! slot \<notin> set_removed s"

record tool_edit =
  ed_slot :: int
  ed_store :: bool

text \<open>The parts of \<^verbatim>\<open>Apply\<close> after the check.\<close>

definition apply_removal :: "string \<Rightarrow> tool_set \<Rightarrow> tool_edit \<times> tool_set" where
  "apply_removal n s =
     (case set_first s n of
        None \<Rightarrow> (\<lparr>ed_slot = -1, ed_store = False\<rparr>, s)
      | Some slot \<Rightarrow>
          (\<lparr>ed_slot = int slot, ed_store = False\<rparr>, s\<lparr>set_removed := insert n (set_removed s)\<rparr>))"

definition apply_reference :: "string \<Rightarrow> tool_set \<Rightarrow> tool_edit \<times> tool_set" where
  "apply_reference n s =
     (\<lparr>ed_slot = (case set_first s n of Some slot \<Rightarrow> int slot | None \<Rightarrow> 0), ed_store = False\<rparr>,
      s\<lparr>set_removed := set_removed s - {n}\<rparr>)"

definition apply_definition :: "string \<Rightarrow> tool_set \<Rightarrow> tool_edit \<times> tool_set" where
  "apply_definition n s =
     (case set_first s n of
        None \<Rightarrow>
          (\<lparr>ed_slot = int (set_len s), ed_store = True\<rparr>,
           s\<lparr>set_names := set_names s @ [n], set_first := (set_first s)(n \<mapsto> set_len s)\<rparr>)
      | Some slot \<Rightarrow>
          if n \<in> set_removed s then
            (\<lparr>ed_slot = int slot, ed_store = True\<rparr>, s\<lparr>set_removed := set_removed s - {n}\<rparr>)
          else (\<lparr>ed_slot = int slot, ed_store = False\<rparr>, s))"

definition apply_change ::
  "(string \<Rightarrow> string) \<Rightarrow> string \<Rightarrow> tool_target option \<Rightarrow> tool_set \<Rightarrow> go_error + tool_edit \<times> tool_set" where
  "apply_change q kind t s =
     (case check_tool_change q kind t (known s) of
        Some e \<Rightarrow> Inl e
      | None \<Rightarrow>
          let t = the t in
          Inr (if kind = BlockToolRemoval then apply_removal (tt_name t) s
               else if tt_type t = ToolTargetReference then apply_reference (tt_name t) s
               else apply_definition (tl_name (the (tt_definition t))) s))"

fun removed_loop :: "tool_set \<Rightarrow> string list \<Rightarrow> string list \<Rightarrow> string list" where
  "removed_loop s seen [] = []"
| "removed_loop s seen (n # ns) =
     (if n \<in> set_removed s \<and> n \<notin> set seen then n # removed_loop s (n # seen) ns
      else removed_loop s seen ns)"

definition removed_names :: "tool_set \<Rightarrow> string list" where
  "removed_names s = removed_loop s [] (set_names s)"

definition hoisted_names :: "tool_set \<Rightarrow> string list" where
  "hoisted_names s =
     map ((!) (set_names s)) (filter (active s) [set_declared s ..< length (set_names s)])"

section \<open>A whole conversation\<close>

record tool_block =
  tb_type :: string
  tb_tool :: "tool_target option"

record tool_changes =
  tc_tools :: "tool list"
  tc_hoisted :: "string list"
  tc_removed :: "string list"

text \<open>What the caller does with its own list of definitions for one accepted block.\<close>

definition store_definition :: "nat \<Rightarrow> tool_edit \<Rightarrow> 'd \<Rightarrow> 'd list \<Rightarrow> 'd list" where
  "store_definition before edit d defs =
     (if \<not> ed_store edit then defs
      else if ed_slot edit = int before then defs @ [d]
      else defs[nat (ed_slot edit) := d])"

definition change_error :: "nat \<Rightarrow> nat \<Rightarrow> go_error \<Rightarrow> go_error" where
  "change_error i j e =
     Wrapped (''messages['' @ itoa (int i) @ ''].content['' @ itoa (int j) @ ''] '' @ error_text e) e"

fun change_blocks ::
  "(string \<Rightarrow> string) \<Rightarrow> nat \<Rightarrow> nat \<Rightarrow> tool_block list \<Rightarrow> tool_set \<times> tool list \<Rightarrow>
   go_error + tool_set \<times> tool list" where
  "change_blocks q i j [] sd = Inr sd"
| "change_blocks q i j (b # bs) (s, defs) =
     (if tb_type b \<noteq> BlockToolAddition \<and> tb_type b \<noteq> BlockToolRemoval
      then change_blocks q i (j + 1) bs (s, defs)
      else case apply_change q (tb_type b) (tb_tool b) s of
             Inl e \<Rightarrow> Inl (change_error i j e)
           | Inr (edit, s') \<Rightarrow>
               change_blocks q i (j + 1) bs
                 (s', store_definition (set_len s) edit (the (tt_definition (the (tb_tool b)))) defs))"

text \<open>A message is its content blocks, or \<^const>\<open>None\<close> when it has no content.\<close>

fun change_messages ::
  "(string \<Rightarrow> string) \<Rightarrow> nat \<Rightarrow> tool_block list option list \<Rightarrow> tool_set \<times> tool list \<Rightarrow>
   go_error + tool_set \<times> tool list" where
  "change_messages q i [] sd = Inr sd"
| "change_messages q i (m # ms) sd =
     (case m of
        None \<Rightarrow> change_messages q (i + 1) ms sd
      | Some bs \<Rightarrow>
          (case change_blocks q i 0 bs sd of
             Inl e \<Rightarrow> Inl e
           | Inr sd' \<Rightarrow> change_messages q (i + 1) ms sd'))"

definition active_definitions :: "tool_set \<Rightarrow> 'd list \<Rightarrow> 'd list" where
  "active_definitions s defs = map ((!) defs) (filter (active s) [0 ..< length defs])"

definition resolve_tool_changes ::
  "(string \<Rightarrow> string) \<Rightarrow> tool_block list option list \<Rightarrow> tool list \<Rightarrow> go_error + tool_changes" where
  "resolve_tool_changes q messages declared =
     (case change_messages q 0 messages (new_tool_set (map tl_name declared), declared) of
        Inl e \<Rightarrow> Inl e
      | Inr (s, defs) \<Rightarrow>
          Inr \<lparr>tc_tools = active_definitions s defs, tc_hoisted = hoisted_names s,
               tc_removed = removed_names s\<rparr>)"

section \<open>The index of the slots\<close>

definition first_slot :: "string list \<Rightarrow> string \<Rightarrow> nat \<Rightarrow> bool" where
  "first_slot ns n i \<longleftrightarrow> i < length ns \<and> ns ! i = n \<and> n \<notin> set (take i ns)"

definition set_wf :: "tool_set \<Rightarrow> bool" where
  "set_wf s \<longleftrightarrow>
     (\<forall>n i. set_first s n = Some i \<longleftrightarrow> n \<noteq> [] \<and> first_slot (set_names s) n i) \<and>
     set_removed s \<subseteq> set (set_names s) - {[]} \<and> set_declared s \<le> length (set_names s)"

lemma first_slot_exists: "n \<in> set ns \<Longrightarrow> \<exists>i. first_slot ns n i"
proof (induction ns)
  case (Cons a ns)
  show ?case
  proof (cases "a = n")
    case True
    then show ?thesis by (intro exI [of _ 0]) (simp add: first_slot_def)
  next
    case False
    with Cons obtain i where "first_slot ns n i" by auto
    with False show ?thesis by (intro exI [of _ "Suc i"]) (auto simp: first_slot_def)
  qed
qed simp

lemma first_slot_in: "first_slot ns n i \<Longrightarrow> n \<in> set ns"
  by (auto simp: first_slot_def)

lemma first_slot_unique: "first_slot ns n i \<Longrightarrow> first_slot ns n j \<Longrightarrow> i = j"
  unfolding first_slot_def by (metis in_set_conv_nth length_take min_less_iff_conj nat_neq_iff nth_take)

lemma first_slot_snoc:
  "first_slot (ns @ [a]) n i \<longleftrightarrow> first_slot ns n i \<or> i = length ns \<and> a = n \<and> n \<notin> set ns"
  by (cases "i < length ns") (auto simp: first_slot_def nth_append)

lemma index_names_slots:
  assumes "\<And>n j. m n = Some j \<longleftrightarrow> n \<noteq> [] \<and> first_slot pre n j"
  shows "index_names (length pre) ns m n = Some j \<longleftrightarrow> n \<noteq> [] \<and> first_slot (pre @ ns) n j"
  using assms
proof (induction ns arbitrary: pre m)
  case (Cons a ns)
  let ?m = "if m a = None \<and> a \<noteq> [] then m(a \<mapsto> length pre) else m"
  have "m a = None \<longleftrightarrow> a = [] \<or> a \<notin> set pre"
    using Cons.prems first_slot_exists [of a pre] by (metis (no_types, lifting) first_slot_def not_None_eq nth_mem)
  then have "?m n = Some j \<longleftrightarrow> n \<noteq> [] \<and> first_slot (pre @ [a]) n j" for n j
    using Cons.prems [of n j] by (auto simp: first_slot_snoc dest: first_slot_in)
  from Cons.IH [of ?m "pre @ [a]", OF this] show ?case by simp
qed simp

lemma new_tool_set_wf: "set_wf (new_tool_set ns)"
  using index_names_slots [of Map.empty "[]"]
  by (simp add: set_wf_def new_tool_set_def first_slot_def)

lemma known_iff: "set_wf s \<Longrightarrow> known s n \<longleftrightarrow> n \<noteq> [] \<and> n \<in> set (set_names s)"
  unfolding set_wf_def known_def by (metis first_slot_def first_slot_exists not_None_eq nth_mem)

lemma set_wf_first:
  "set_wf s \<Longrightarrow> set_first s n = Some i \<Longrightarrow>
   n \<noteq> [] \<and> i < length (set_names s) \<and> set_names s ! i = n \<and> n \<notin> set (take i (set_names s))"
  by (simp add: set_wf_def first_slot_def)

lemma set_wf_none: "set_wf s \<Longrightarrow> set_first s n = None \<Longrightarrow> n \<noteq> [] \<Longrightarrow> n \<notin> set (set_names s)"
  using known_iff [of s n] by (simp add: known_def)

lemma apply_removal_wf: "set_wf s \<Longrightarrow> set_wf (snd (apply_removal n s))"
  by (auto simp: apply_removal_def set_wf_def first_slot_def split: option.split)

lemma apply_reference_wf: "set_wf s \<Longrightarrow> set_wf (snd (apply_reference n s))"
  by (auto simp: apply_reference_def set_wf_def)

lemma apply_definition_wf:
  assumes "set_wf s" "n \<noteq> []"
  shows "set_wf (snd (apply_definition n s))"
proof (cases "set_first s n")
  case None
  with assms have "n \<notin> set (set_names s)" by (simp add: set_wf_none)
  with None assms show ?thesis
    by (auto simp: apply_definition_def set_wf_def set_len_def first_slot_snoc)
       (auto simp: first_slot_def)
next
  case (Some i)
  then have "snd (apply_definition n s) =
      (if n \<in> set_removed s then s\<lparr>set_removed := set_removed s - {n}\<rparr> else s)"
    by (simp add: apply_definition_def)
  with assms(1) show ?thesis by (auto simp: set_wf_def)
qed

lemma trim_with_Nil: "trim_with ws [] = []"
  by (subst trim_with.simps) (auto simp: find_Some_iff split: option.split)

lemma trim_space_Nil: "trim_space [] = []"
  by (simp add: trim_space_def trim_with_Nil)

text \<open>What an accepted block is.\<close>

lemma apply_change_cases [consumes 1, case_names removal reference inline]:
  assumes "apply_change q kind t s = Inr r"
  obtains a where "t = Some a" "kind = BlockToolRemoval" "tt_type a = ToolTargetReference"
      "trim_space (tt_name a) \<noteq> []" "r = apply_removal (tt_name a) s"
  | a where "t = Some a" "kind = BlockToolAddition" "tt_type a = ToolTargetReference"
      "known s (tt_name a)" "r = apply_reference (tt_name a) s"
  | a d where "t = Some a" "kind = BlockToolAddition" "tt_type a = ToolTargetDefinition"
      "tt_definition a = Some d" "tl_name d \<noteq> []" "r = apply_definition (tl_name d) s"
proof -
  have ne: "BlockToolRemoval \<noteq> BlockToolAddition" "ToolTargetReference \<noteq> ToolTargetDefinition"
    by (simp_all add: tool_kind_defs)
  from assms obtain a where t: "t = Some a"
    by (cases t) (auto simp: apply_change_def check_tool_change_def)
  show thesis
  proof (cases "kind = BlockToolRemoval")
    case True
    with assms t ne that(1) show ?thesis
      by (auto simp: apply_change_def check_tool_change_def split: if_splits)
  next
    case False
    have "trim_space x \<noteq> [] \<Longrightarrow> x \<noteq> []" for x using trim_space_Nil by metis
    with False assms t ne that(2,3) show ?thesis
      by (cases "tt_definition a")
         (auto simp: apply_change_def check_tool_change_def split: if_splits)
  qed
qed

lemma apply_change_wf: "apply_change q kind t s = Inr (e, s') \<Longrightarrow> set_wf s \<Longrightarrow> set_wf s'"
proof (induction rule: apply_change_cases)
  case (removal a)
  with apply_removal_wf [of s "tt_name a"] show ?case by (metis snd_conv)
next
  case (reference a)
  with apply_reference_wf [of s "tt_name a"] show ?case by (metis snd_conv)
next
  case (inline a d)
  with apply_definition_wf [of s "tl_name d"] show ?case by (metis snd_conv)
qed

section \<open>The contract of a slot set\<close>

text \<open>
  Each leg keeps definitions of its own type, one per slot, and follows the edits it is
  told. The contract says what an edit may do to the slots; the client's lemma says that
  the definitions stay in step with them.
\<close>

locale slot_set =
  fixes slot_names :: "'s \<Rightarrow> string list"
    and change :: "'c \<Rightarrow> 's \<Rightarrow> (tool_edit \<times> 's) option"
    and wf :: "'s \<Rightarrow> bool"
    and new_name :: "'c \<Rightarrow> string"
  assumes change_keeps_wf: "wf s \<Longrightarrow> change c s = Some (e, s') \<Longrightarrow> wf s'"
    and change_no_store: "wf s \<Longrightarrow> change c s = Some (e, s') \<Longrightarrow> \<not> ed_store e \<Longrightarrow>
      slot_names s' = slot_names s"
    and change_store: "wf s \<Longrightarrow> change c s = Some (e, s') \<Longrightarrow> ed_store e \<Longrightarrow>
      ed_slot e = int (length (slot_names s)) \<and> slot_names s' = slot_names s @ [new_name c] \<or>
      (\<exists>k < length (slot_names s). ed_slot e = int k \<and> slot_names s ! k = new_name c \<and>
         slot_names s' = slot_names s)"
begin

definition in_step :: "('d \<Rightarrow> string) \<Rightarrow> 's \<Rightarrow> 'd list \<Rightarrow> bool" where
  "in_step nm s defs \<longleftrightarrow> map nm defs = slot_names s"

lemma in_step_change:
  assumes "wf s" "change c s = Some (e, s')" "in_step nm s defs" "nm d = new_name c"
  shows "in_step nm s' (store_definition (length (slot_names s)) e d defs)"
proof (cases "ed_store e")
  case True
  have len: "length defs = length (slot_names s)"
    using assms(3) by (metis in_step_def length_map)
  from change_store [OF assms(1,2) True] show ?thesis
  proof (elim disjE exE conjE)
    fix k assume k: "k < length (slot_names s)" "ed_slot e = int k" "slot_names s ! k = new_name c"
      "slot_names s' = slot_names s"
    have "(map nm defs)[k := nm d] = map nm defs"
      using assms(3,4) k by (metis in_step_def list_update_id)
    with True assms k len show ?thesis
      by (simp add: in_step_def store_definition_def map_update)
  qed (use True assms len in \<open>simp add: in_step_def store_definition_def\<close>)
qed (use assms change_no_store in \<open>simp add: in_step_def store_definition_def\<close>)

lemma change_grows: "wf s \<Longrightarrow> change c s = Some (e, s') \<Longrightarrow> prefix (slot_names s) (slot_names s')"
  using change_no_store change_store by (cases "ed_store e") fastforce+

end

text \<open>A change is a block whose kind the caller has tested; its name is that of its definition.\<close>

definition try_change ::
  "(string \<Rightarrow> string) \<Rightarrow> string \<times> tool_target option \<Rightarrow> tool_set \<Rightarrow> (tool_edit \<times> tool_set) option" where
  "try_change q c s = (case apply_change q (fst c) (snd c) s of Inl e \<Rightarrow> None | Inr r \<Rightarrow> Some r)"

definition change_name :: "string \<times> tool_target option \<Rightarrow> string" where
  "change_name c = tl_name (the (tt_definition (the (snd c))))"

lemma try_change_Some: "try_change q c s = Some r \<longleftrightarrow> apply_change q (fst c) (snd c) s = Inr r"
  by (simp add: try_change_def split: sum.split)

interpretation tset: slot_set set_names "try_change q" set_wf change_name for q
proof
  fix s c e s'
  assume wf: "set_wf s" and c: "try_change q c s = Some (e, s')"
  from c have c': "apply_change q (fst c) (snd c) s = Inr (e, s')" by (simp add: try_change_Some)
  with wf show "set_wf s'" by (rule apply_change_wf [rotated])
  show "set_names s' = set_names s" if "\<not> ed_store e"
    using c' that by (cases rule: apply_change_cases)
      (auto simp: apply_removal_def apply_reference_def apply_definition_def split: option.splits if_splits)
  show "ed_slot e = int (length (set_names s)) \<and> set_names s' = set_names s @ [change_name c] \<or>
      (\<exists>k < length (set_names s). ed_slot e = int k \<and> set_names s ! k = change_name c \<and>
         set_names s' = set_names s)" if "ed_store e"
    using c' that
  proof (cases rule: apply_change_cases)
    case (inline a d)
    with that wf show ?thesis
      by (auto simp: apply_definition_def change_name_def set_len_def split: option.splits if_splits
          dest: set_wf_first)
  qed (auto simp: apply_removal_def apply_reference_def split: option.splits)
qed

section \<open>The specification: one list of rows\<close>

type_synonym row = "string \<times> tool \<times> bool"

definition spec_removal :: "string \<Rightarrow> row list \<Rightarrow> row list" where
  "spec_removal n = map (\<lambda>(m, d, a). (m, d, a \<and> m \<noteq> n))"

definition spec_reference :: "string \<Rightarrow> row list \<Rightarrow> row list" where
  "spec_reference n = map (\<lambda>(m, d, a). (m, d, a \<or> m = n))"

fun replace_first :: "string \<Rightarrow> tool \<Rightarrow> row list \<Rightarrow> row list" where
  "replace_first n d [] = []"
| "replace_first n d ((m, d', a) # rs) =
     (if m = n then (m, d, a) # rs else (m, d', a) # replace_first n d rs)"

definition withdrawn :: "string \<Rightarrow> row list \<Rightarrow> bool" where
  "withdrawn n rows \<longleftrightarrow> list_ex (\<lambda>(m, d, a). m = n \<and> \<not> a) rows"

definition spec_definition :: "tool \<Rightarrow> row list \<Rightarrow> row list" where
  "spec_definition d rows =
     (let n = tl_name d in
      if n \<notin> fst ` set rows then rows @ [(n, d, True)]
      else if withdrawn n rows
      then spec_reference n (replace_first n d rows)
      else rows)"

definition spec_change ::
  "(string \<Rightarrow> string) \<Rightarrow> string \<Rightarrow> tool_target option \<Rightarrow> row list \<Rightarrow> go_error + row list" where
  "spec_change q kind t rows =
     (case check_tool_change q kind t (\<lambda>n. n \<noteq> [] \<and> n \<in> fst ` set rows) of
        Some e \<Rightarrow> Inl e
      | None \<Rightarrow>
          let t = the t in
          Inr (if kind = BlockToolRemoval then spec_removal (tt_name t) rows
               else if tt_type t = ToolTargetReference then spec_reference (tt_name t) rows
               else spec_definition (the (tt_definition t)) rows))"

fun spec_blocks ::
  "(string \<Rightarrow> string) \<Rightarrow> nat \<Rightarrow> nat \<Rightarrow> tool_block list \<Rightarrow> row list \<Rightarrow> go_error + row list" where
  "spec_blocks q i j [] rows = Inr rows"
| "spec_blocks q i j (b # bs) rows =
     (if tb_type b \<notin> {BlockToolAddition, BlockToolRemoval} then spec_blocks q i (j + 1) bs rows
      else case spec_change q (tb_type b) (tb_tool b) rows of
             Inl e \<Rightarrow> Inl (change_error i j e)
           | Inr rows' \<Rightarrow> spec_blocks q i (j + 1) bs rows')"

fun spec_messages ::
  "(string \<Rightarrow> string) \<Rightarrow> nat \<Rightarrow> tool_block list option list \<Rightarrow> row list \<Rightarrow> go_error + row list" where
  "spec_messages q i [] rows = Inr rows"
| "spec_messages q i (m # ms) rows =
     (case spec_blocks q i 0 (case m of None \<Rightarrow> [] | Some bs \<Rightarrow> bs) rows of
        Inl e \<Rightarrow> Inl e
      | Inr rows' \<Rightarrow> spec_messages q (i + 1) ms rows')"

text \<open>The first occurrence of each element, in order.\<close>

fun nub :: "'a list \<Rightarrow> 'a list" where
  "nub [] = []"
| "nub (x # xs) = x # filter (\<lambda>y. y \<noteq> x) (nub xs)"

definition spec_resolve ::
  "(string \<Rightarrow> string) \<Rightarrow> tool_block list option list \<Rightarrow> tool list \<Rightarrow> go_error + tool_changes" where
  "spec_resolve q messages declared =
     (case spec_messages q 0 messages (map (\<lambda>d. (tl_name d, d, True)) declared) of
        Inl e \<Rightarrow> Inl e
      | Inr rows \<Rightarrow>
          Inr \<lparr>tc_tools = map (fst \<circ> snd) (filter (snd \<circ> snd) rows),
               tc_hoisted = map fst (filter (snd \<circ> snd) (drop (length declared) rows)),
               tc_removed = nub (map fst (filter (Not \<circ> snd \<circ> snd) rows))\<rparr>)"

section \<open>Refinement\<close>

definition rows_of :: "string list \<Rightarrow> string set \<Rightarrow> tool list \<Rightarrow> row list" where
  "rows_of ns gone defs = map2 (\<lambda>n d. (n, d, n \<notin> gone)) ns defs"

abbreviation abs_rows :: "tool_set \<Rightarrow> tool list \<Rightarrow> row list" where
  "abs_rows s defs \<equiv> rows_of (set_names s) (set_removed s) defs"

lemma rows_of_names: "length defs = length ns \<Longrightarrow> map fst (rows_of ns gone defs) = ns"
  by (simp add: rows_of_def comp_def case_prod_beta)

lemma rows_of_name_set: "length defs = length ns \<Longrightarrow> fst ` set (rows_of ns gone defs) = set ns"
  by (metis list.set_map rows_of_names)

lemma rows_of_insert: "rows_of ns (insert n gone) defs = spec_removal n (rows_of ns gone defs)"
  by (auto simp: rows_of_def spec_removal_def comp_def case_prod_beta)

lemma rows_of_insert_absent: "n \<notin> set ns \<Longrightarrow> rows_of ns (insert n gone) defs = rows_of ns gone defs"
  by (auto simp: rows_of_def dest: set_zip_leftD)

lemma rows_of_delete: "rows_of ns (gone - {n}) defs = spec_reference n (rows_of ns gone defs)"
  by (auto simp: rows_of_def spec_reference_def comp_def case_prod_beta)

lemma first_slot_Cons:
  "first_slot (a # ns) n i \<longleftrightarrow> (if a = n then i = 0 else \<exists>j. i = Suc j \<and> first_slot ns n j)"
  by (cases i) (auto simp: first_slot_def)

lemma rows_of_replace:
  "length ns = length defs \<Longrightarrow> first_slot ns n i \<Longrightarrow>
   rows_of ns gone (defs[i := d]) = replace_first n d (rows_of ns gone defs)"
  by (induction ns defs arbitrary: i rule: list_induct2)
     (auto simp: first_slot_def [of "[]"] first_slot_Cons rows_of_def split: if_splits)

lemma rows_of_gone:
  "length defs = length ns \<Longrightarrow>
   withdrawn n (rows_of ns gone defs) \<longleftrightarrow> n \<in> gone \<and> n \<in> set ns"
  by (induction defs ns rule: list_induct2) (auto simp: rows_of_def withdrawn_def)

text \<open>One accepted block.\<close>

lemma apply_removal_rows:
  assumes "set_wf s" "n \<noteq> []" "apply_removal n s = (e, s')"
  shows "abs_rows s' (store_definition k e d defs) = spec_removal n (abs_rows s defs)"
proof (cases "set_first s n")
  case None
  with assms have "n \<notin> set (set_names s)" by (simp add: set_wf_none)
  with None assms(3) show ?thesis
    by (auto simp: apply_removal_def store_definition_def rows_of_insert_absent
        simp flip: rows_of_insert)
qed (use assms(3) in \<open>auto simp: apply_removal_def store_definition_def rows_of_insert\<close>)

lemma apply_reference_rows:
  "apply_reference n s = (e, s') \<Longrightarrow>
   abs_rows s' (store_definition k e d defs) = spec_reference n (abs_rows s defs)"
  by (auto simp: apply_reference_def store_definition_def rows_of_delete)

lemma apply_definition_rows:
  assumes "set_wf s" "n \<noteq> []" "tl_name d = n" "length defs = length (set_names s)"
    and "apply_definition n s = (e, s')"
  shows "abs_rows s' (store_definition (set_len s) e d defs) = spec_definition d (abs_rows s defs)"
proof (cases "set_first s n")
  case None
  with assms have n: "n \<notin> set (set_names s)" by (simp add: set_wf_none)
  moreover from n assms(1) have "n \<notin> set_removed s" by (auto simp: set_wf_def)
  ultimately show ?thesis using None assms
    by (auto simp: apply_definition_def store_definition_def spec_definition_def Let_def
        rows_of_name_set set_len_def) (simp add: rows_of_def)
next
  case (Some i)
  with assms(1) have i: "first_slot (set_names s) n i" "n \<in> set (set_names s)" "i < length (set_names s)"
    by (auto simp: set_wf_def first_slot_def)
  show ?thesis
  proof (cases "n \<in> set_removed s")
    case True
    with Some assms(5) have "e = \<lparr>ed_slot = int i, ed_store = True\<rparr>"
      "s' = s\<lparr>set_removed := set_removed s - {n}\<rparr>"
      by (auto simp: apply_definition_def)
    with i True assms(3,4) show ?thesis
      by (simp add: store_definition_def set_len_def spec_definition_def Let_def rows_of_name_set
          rows_of_gone rows_of_delete rows_of_replace)
  next
    case False
    with Some assms(5) have "e = \<lparr>ed_slot = int i, ed_store = False\<rparr>" "s' = s"
      by (auto simp: apply_definition_def)
    with i False assms(3,4) show ?thesis
      by (simp add: store_definition_def spec_definition_def Let_def rows_of_name_set rows_of_gone)
  qed
qed

lemma spec_change_refines:
  assumes wf: "set_wf s" and len: "length defs = length (set_names s)"
  shows "spec_change q kind t (abs_rows s defs) =
    (case apply_change q kind t s of
       Inl e \<Rightarrow> Inl e
     | Inr (e, s') \<Rightarrow> Inr (abs_rows s' (store_definition (set_len s) e (the (tt_definition (the t))) defs)))"
proof -
  have k: "(\<lambda>n. n \<noteq> [] \<and> n \<in> fst ` set (abs_rows s defs)) = known s"
    using wf len by (auto simp: known_iff rows_of_name_set fun_eq_iff)
  show ?thesis
  proof (cases "apply_change q kind t s")
    case (Inl e)
    then show ?thesis
      by (auto simp: spec_change_def k apply_change_def Let_def split: option.splits)
  next
    case (Inr r)
    obtain e s' where r: "r = (e, s')" by fastforce
    from Inr have c: "check_tool_change q kind t (known s) = None"
      by (auto simp: apply_change_def split: option.splits)
    have ne: "BlockToolAddition \<noteq> BlockToolRemoval" "ToolTargetDefinition \<noteq> ToolTargetReference"
      by (simp_all add: tool_kind_defs)
    from Inr [unfolded r] show ?thesis
    proof (cases rule: apply_change_cases)
      case (removal a)
      then have "tt_name a \<noteq> []" using trim_space_Nil by metis
      with removal removal(5) [symmetric] r c Inr wf apply_removal_rows [of s "tt_name a" e s'] show ?thesis
        by (simp add: spec_change_def k)
    next
      case (reference a)
      with r c Inr ne apply_reference_rows [of "tt_name a" s e s'] show ?thesis
        by (auto simp: spec_change_def k split: prod.splits)
    next
      case (inline a d)
      with r c Inr ne wf len apply_definition_rows [of s "tl_name d" d defs e s'] show ?thesis
        by (auto simp: spec_change_def k split: prod.splits)
    qed
  qed
qed

lemma change_blocks_wf:
  "change_blocks q i j bs (s, defs) = Inr (s', defs') \<Longrightarrow> set_wf s \<Longrightarrow> map tl_name defs = set_names s \<Longrightarrow>
   set_wf s' \<and> map tl_name defs' = set_names s' \<and> prefix (set_names s) (set_names s') \<and>
   set_declared s' = set_declared s"
proof (induction bs arbitrary: j s defs)
  case (Cons b bs)
  show ?case
  proof (cases "tb_type b \<noteq> BlockToolAddition \<and> tb_type b \<noteq> BlockToolRemoval")
    case False
    with Cons.prems(1) obtain e s1 where c: "apply_change q (tb_type b) (tb_tool b) s = Inr (e, s1)"
      and rest: "change_blocks q i (j + 1) bs
        (s1, store_definition (set_len s) e (the (tt_definition (the (tb_tool b)))) defs) = Inr (s', defs')"
      by (auto split: sum.splits)
    from c have t: "try_change q (tb_type b, tb_tool b) s = Some (e, s1)" by (simp add: try_change_Some)
    have d: "set_declared s1 = set_declared s"
      using c by (cases rule: apply_change_cases)
        (auto simp: apply_removal_def apply_reference_def apply_definition_def split: option.splits if_splits)
    have "tset.in_step tl_name s defs" using Cons.prems(3) by (simp add: tset.in_step_def)
    from tset.in_step_change [OF Cons.prems(2) t this] have
      "map tl_name (store_definition (set_len s) e (the (tt_definition (the (tb_tool b)))) defs) = set_names s1"
      by (simp add: tset.in_step_def change_name_def set_len_def)
    with Cons.IH [OF rest] tset.change_keeps_wf [OF Cons.prems(2) t] tset.change_grows [OF Cons.prems(2) t] d
    show ?thesis by (auto intro: prefix_order.trans)
  qed (use Cons in auto)
qed simp

lemma change_blocks_rows:
  "set_wf s \<Longrightarrow> map tl_name defs = set_names s \<Longrightarrow>
   spec_blocks q i j bs (abs_rows s defs) =
     (case change_blocks q i j bs (s, defs) of Inl e \<Rightarrow> Inl e | Inr (s', defs') \<Rightarrow> Inr (abs_rows s' defs'))"
proof (induction bs arbitrary: j s defs)
  case (Cons b bs)
  have len: "length defs = length (set_names s)" using Cons.prems(2) by (metis length_map)
  show ?case
  proof (cases "apply_change q (tb_type b) (tb_tool b) s")
    case (Inr r)
    obtain e s1 where r: "r = (e, s1)" by fastforce
    let ?defs = "store_definition (set_len s) e (the (tt_definition (the (tb_tool b)))) defs"
    show ?thesis
    proof (cases "tb_type b = BlockToolAddition \<or> tb_type b = BlockToolRemoval")
      case True
      with Inr r have "change_blocks q i j [b] (s, defs) = Inr (s1, ?defs)" by auto
      with change_blocks_wf [OF this] Cons.prems have "set_wf s1" "map tl_name ?defs = set_names s1"
        by auto
      from Cons.IH [OF this] True Inr r Cons.prems(1) len show ?thesis
        by (auto simp: spec_change_refines)
    qed (use Cons in auto)
  qed (use Cons len in \<open>auto simp: spec_change_refines\<close>)
qed simp

lemma change_messages_wf:
  "change_messages q i ms (s, defs) = Inr (s', defs') \<Longrightarrow> set_wf s \<Longrightarrow> map tl_name defs = set_names s \<Longrightarrow>
   set_wf s' \<and> map tl_name defs' = set_names s' \<and> prefix (set_names s) (set_names s') \<and>
   set_declared s' = set_declared s"
proof (induction ms arbitrary: i s defs)
  case (Cons m ms)
  show ?case
  proof (cases m)
    case (Some bs)
    with Cons.prems(1) obtain s1 defs1 where c: "change_blocks q i 0 bs (s, defs) = Inr (s1, defs1)"
      "change_messages q (i + 1) ms (s1, defs1) = Inr (s', defs')"
      by (auto split: sum.splits)
    from change_blocks_wf [OF c(1) Cons.prems(2,3)] Cons.IH [OF c(2)] show ?thesis
      by (auto intro: prefix_order.trans)
  qed (use Cons in auto)
qed simp

lemma change_messages_rows:
  "set_wf s \<Longrightarrow> map tl_name defs = set_names s \<Longrightarrow>
   spec_messages q i ms (abs_rows s defs) =
     (case change_messages q i ms (s, defs) of Inl e \<Rightarrow> Inl e | Inr (s', defs') \<Rightarrow> Inr (abs_rows s' defs'))"
proof (induction ms arbitrary: i s defs)
  case (Cons m ms)
  show ?case
  proof (cases m)
    case (Some bs)
    show ?thesis
    proof (cases "change_blocks q i 0 bs (s, defs)")
      case (Inr r)
      obtain s1 defs1 where r: "r = (s1, defs1)" by fastforce
      from change_blocks_wf [OF Inr [unfolded r] Cons.prems]
      have "set_wf s1" "map tl_name defs1 = set_names s1" by auto
      from Cons.IH [OF this] Some Inr r Cons.prems show ?thesis by (simp add: change_blocks_rows)
    qed (use Some Cons.prems in \<open>simp add: change_blocks_rows\<close>)
  qed (use Cons in auto)
qed simp

text \<open>The three lists that are read off the final state.\<close>

lemma filter_upt_snoc:
  "length xs = Suc n \<Longrightarrow> filter P [0 ..< length xs] = filter P [0 ..< n] @ (if P n then [n] else [])"
  by simp

lemma active_definitions_rows:
  "length defs = length (set_names s) \<Longrightarrow>
   active_definitions s defs = map (fst \<circ> snd) (filter (snd \<circ> snd) (abs_rows s defs))"
proof -
  have "length defs = length ns \<Longrightarrow>
      map ((!) defs) (filter (\<lambda>i. ns ! i \<notin> gone) [0 ..< length defs]) =
      map (fst \<circ> snd) (filter (snd \<circ> snd) (rows_of ns gone defs))" for ns gone
  proof -
    assume len: "length defs = length ns"
    have rows: "rows_of ns gone defs = map (\<lambda>i. (ns ! i, defs ! i, ns ! i \<notin> gone)) [0 ..< length defs]"
      by (rule nth_equalityI) (simp_all add: rows_of_def len)
    show ?thesis by (simp add: rows filter_map comp_def)
  qed
  then show "length defs = length (set_names s) \<Longrightarrow> ?thesis"
    by (simp add: active_definitions_def active_def [abs_def])
qed

lemma hoisted_names_rows:
  assumes "length defs = length (set_names s)"
  shows "hoisted_names s = map fst (filter (snd \<circ> snd) (drop (set_declared s) (abs_rows s defs)))"
proof -
  have rows: "abs_rows s defs = map (\<lambda>i. (set_names s ! i, defs ! i, active s i)) [0 ..< length (set_names s)]"
    by (rule nth_equalityI) (simp_all add: rows_of_def assms active_def)
  show ?thesis by (simp add: rows hoisted_names_def drop_map filter_map comp_def)
qed

lemma removed_loop_nub:
  "removed_loop s seen ns = filter (\<lambda>n. n \<notin> set seen) (nub (filter (\<lambda>n. n \<in> set_removed s) ns))"
  by (induction s seen ns rule: removed_loop.induct) (auto intro: filter_cong)

lemma removed_names_rows:
  assumes "length defs = length (set_names s)"
  shows "removed_names s = nub (map fst (filter (Not \<circ> snd \<circ> snd) (abs_rows s defs)))"
proof -
  have "length defs = length ns \<Longrightarrow>
      map fst (filter (Not \<circ> snd \<circ> snd) (rows_of ns gone defs)) = filter (\<lambda>n. n \<in> gone) ns" for ns gone
    by (induction defs ns rule: list_induct2) (auto simp: rows_of_def)
  with assms show ?thesis by (simp add: removed_names_def removed_loop_nub)
qed

lemma change_messages_result:
  assumes "change_messages q 0 ms (new_tool_set (map tl_name declared), declared) = Inr (s, defs)"
  shows "set_wf s \<and> map tl_name defs = set_names s \<and> prefix (map tl_name declared) (set_names s) \<and>
    set_declared s = length declared \<and> length defs = length (set_names s)"
  using change_messages_wf [OF assms new_tool_set_wf]
  by (auto simp: new_tool_set_def dest: arg_cong [of _ _ length])

text \<open>
  Property (C19): the final tool set computed with slots, the index of first slots and the set of
  removed names is the one of the specification, which edits one list of rows: the
  tools, the hoisted and the removed names, and the error of the first bad block.
\<close>

theorem resolve_tool_changes_refines:
  "resolve_tool_changes q ms declared = spec_resolve q ms declared"
proof -
  let ?s = "new_tool_set (map tl_name declared)"
  have "map (\<lambda>d. (tl_name d, d, True)) declared = abs_rows ?s declared"
    by (rule nth_equalityI) (simp_all add: rows_of_def new_tool_set_def)
  moreover have "spec_messages q 0 ms (abs_rows ?s declared) =
      (case change_messages q 0 ms (?s, declared) of
         Inl e \<Rightarrow> Inl e | Inr (s', defs') \<Rightarrow> Inr (abs_rows s' defs'))"
    by (rule change_messages_rows [OF new_tool_set_wf]) (simp add: new_tool_set_def)
  ultimately have m: "spec_messages q 0 ms (map (\<lambda>d. (tl_name d, d, True)) declared) =
      (case change_messages q 0 ms (?s, declared) of
         Inl e \<Rightarrow> Inl e | Inr (s', defs') \<Rightarrow> Inr (abs_rows s' defs'))" by simp
  show ?thesis
  proof (cases "change_messages q 0 ms (?s, declared)")
    case (Inl e)
    then show ?thesis by (simp add: spec_resolve_def resolve_tool_changes_def m)
  next
    case (Inr r)
    obtain s defs where r: "r = (s, defs)" by fastforce
    from change_messages_result [OF Inr [unfolded r]] Inr r show ?thesis
      by (simp add: spec_resolve_def resolve_tool_changes_def m active_definitions_rows
          hoisted_names_rows [of defs] removed_names_rows [of defs])
  qed
qed

lemma removed_names_set: "set_wf s \<Longrightarrow> set (removed_names s) = set_removed s \<and> distinct (removed_names s)"
proof -
  have n: "set (nub xs) = set xs \<and> distinct (nub xs)" for xs :: "string list"
    by (induction xs) auto
  show "set_wf s \<Longrightarrow> ?thesis" by (auto simp: removed_names_def removed_loop_nub n set_wf_def)
qed

lemma active_definitions_names:
  "map tl_name defs = set_names s \<Longrightarrow>
   set (map tl_name (active_definitions s defs)) = set (set_names s) - set_removed s"
proof -
  assume a: "map tl_name defs = set_names s"
  then have len: "length defs = length (set_names s)" by (metis length_map)
  from a have "tl_name (defs ! i) = set_names s ! i" if "i < length defs" for i
    using that by (metis nth_map)
  then show ?thesis
    by (force simp: active_definitions_def active_def len in_set_conv_nth image_iff)
qed

text \<open>
  No tool is lost or contradicted. When every block is accepted, each name that
  the request declared is either advertised or reported as removed, never both; the
  names reported as removed are distinct; and the hoisted names are advertised.
\<close>

theorem resolve_partitions_tools:
  assumes "resolve_tool_changes q ms declared = Inr c"
  shows "distinct (tc_removed c) \<and>
    set (map tl_name (tc_tools c)) \<inter> set (tc_removed c) = {} \<and>
    set (map tl_name declared) \<subseteq> set (map tl_name (tc_tools c)) \<union> set (tc_removed c) \<and>
    set (tc_hoisted c) \<subseteq> set (map tl_name (tc_tools c))"
proof -
  from assms obtain s defs where
    m: "change_messages q 0 ms (new_tool_set (map tl_name declared), declared) = Inr (s, defs)"
    and c: "c = \<lparr>tc_tools = active_definitions s defs, tc_hoisted = hoisted_names s,
               tc_removed = removed_names s\<rparr>"
    by (auto simp: resolve_tool_changes_def split: sum.splits)
  from change_messages_result [OF m] have s: "set_wf s" "map tl_name defs = set_names s"
    and p: "prefix (map tl_name declared) (set_names s)" by auto
  have "set (hoisted_names s) \<subseteq> set (set_names s) - set_removed s"
    by (auto simp: hoisted_names_def active_def)
  with s removed_names_set [OF s(1)] set_mono_prefix [OF p] active_definitions_names [OF s(2)] show ?thesis
    by (auto simp: c)
qed

definition demo_tool :: "string \<Rightarrow> tool" where
  "demo_tool n = \<lparr>tl_type = [], tl_name = n, tl_description = [], tl_input_schema = ''{}'',
     tl_cache_control = None\<rparr>"

definition demo_block :: "string \<Rightarrow> string \<Rightarrow> string \<Rightarrow> tool option \<Rightarrow> tool_block" where
  "demo_block kind ty n d =
     \<lparr>tb_type = kind, tb_tool = Some \<lparr>tt_type = ty, tt_name = n, tt_definition = d\<rparr>\<rparr>"

definition demo_changes :: "tool_block list option list" where
  "demo_changes =
     [None, Some [demo_block BlockToolRemoval ToolTargetReference ''a'' None,
                  demo_block BlockToolAddition ToolTargetDefinition [] (Some (demo_tool ''c''))]]"

lemma trim_space_letter: "trim_space ''a'' = ''a''" "trim_space ''c'' = ''c''"
  by (simp_all add: trim_space_graphic graphic_def)

theorem resolve_partitions_tools_witness:
  "\<exists>c. resolve_tool_changes (\<lambda>s. s) demo_changes [demo_tool ''a'', demo_tool ''b''] = Inr c \<and>
       tc_removed c = [''a''] \<and> tc_hoisted c = [''c''] \<and> map tl_name (tc_tools c) = [''b'', ''c''] \<and>
       set (map tl_name (tc_tools c)) \<inter> set (tc_removed c) = {}"
proof -
  let ?c = "\<lparr>tc_tools = [demo_tool ''b'', demo_tool ''c''], tc_hoisted = [''c''], tc_removed = [''a'']\<rparr>"
  have c: "resolve_tool_changes (\<lambda>s. s) demo_changes [demo_tool ''a'', demo_tool ''b''] = Inr ?c"
    by (simp add: resolve_tool_changes_def demo_changes_def demo_block_def tool_kind_defs
        apply_change_def check_tool_change_def trim_space_letter new_tool_set_def apply_removal_def
        apply_definition_def store_definition_def set_len_def active_definitions_def
        active_def [abs_def] hoisted_names_def removed_names_def demo_tool_def known_def)
  from resolve_partitions_tools [OF c] c show ?thesis by (intro exI [of _ ?c]) (simp add: demo_tool_def)
qed

text \<open>
  A removal is undone by an addition by reference. When a removal of an active
  tool is accepted, the tool is inactive but still known, a reference to it is accepted
  next, and the tool set is then the one before the removal, without any definition
  being stored.
\<close>

theorem removal_then_reference:
  assumes "set_wf s" and "known s n" and "n \<notin> set_removed s" and "trim_space n \<noteq> []"
  shows "\<exists>e s' e'.
    apply_change q BlockToolRemoval (Some \<lparr>tt_type = ToolTargetReference, tt_name = n, tt_definition = None\<rparr>) s
      = Inr (e, s') \<and> n \<in> set_removed s' \<and> known s' n \<and>
    apply_change q BlockToolAddition (Some \<lparr>tt_type = ToolTargetReference, tt_name = n, tt_definition = None\<rparr>) s'
      = Inr (e', s) \<and> \<not> ed_store e \<and> \<not> ed_store e'"
proof -
  from assms(2) obtain i where "set_first s n = Some i" by (auto simp: known_def)
  with assms(2-4) show ?thesis
    by (auto simp: apply_change_def check_tool_change_def tool_kind_defs apply_removal_def
        apply_reference_def known_def)
qed

theorem removal_then_reference_witness:
  "\<exists>e s'. apply_change (\<lambda>s. s) BlockToolRemoval
      (Some \<lparr>tt_type = ToolTargetReference, tt_name = ''a'', tt_definition = None\<rparr>) (new_tool_set [''a'', ''b''])
      = Inr (e, s') \<and> ''a'' \<in> set_removed s'"
proof -
  have "known (new_tool_set [''a'', ''b'']) ''a''" "''a'' \<notin> set_removed (new_tool_set [''a'', ''b''])"
    "trim_space ''a'' \<noteq> []"
    by (simp_all add: known_def new_tool_set_def trim_space_letter)
  from removal_then_reference [OF new_tool_set_wf this] show ?thesis by blast
qed

end
