(* ===== verification/Effort.thy ===== *)
theory Effort
  imports Prelude
begin

text \<open>
  \<^verbatim>\<open>internal/effort/effort.go\<close>, \<^verbatim>\<open>internal/leg/leg.go\<close> and
  \<^verbatim>\<open>internal/deepseek/models/models.go\<close>: the vocabulary that routing rests on. A level is the
  string it is on the wire, because the sets that a catalog advertises are open; the
  recognised levels are a list in rank order. The main result is that the one-pass
  loop of \<^verbatim>\<open>Clamp\<close> picks the level that its comment promises.
\<close>

section \<open>Levels\<close>

type_synonym level = string

definition Low :: level where "Low = ''low''"
definition Medium :: level where "Medium = ''medium''"
definition High :: level where "High = ''high''"
definition XHigh :: level where "XHigh = ''xhigh''"
definition MaxLevel :: level where "MaxLevel = ''max''"
definition Ultra :: level where "Ultra = ''ultra''"

definition levels :: "level list" where
  "levels = [Low, Medium, High, XHigh, MaxLevel, Ultra]"

lemmas level_defs = levels_def Low_def Medium_def High_def XHigh_def MaxLevel_def Ultra_def

fun rank_from :: "int \<Rightarrow> level list \<Rightarrow> level \<Rightarrow> int" where
  "rank_from i [] l = -1"
| "rank_from i (k # ks) l = (if k = l then i else rank_from (i + 1) ks l)"

definition rank :: "level \<Rightarrow> int" where
  "rank l = rank_from 0 levels l"

definition known_level :: "level \<Rightarrow> bool" where
  "known_level l \<longleftrightarrow> 0 \<le> rank l"

text \<open>
  The state of the loop of \<^verbatim>\<open>Clamp\<close>: the highest supported level not above the request
  and the lowest supported one, each with its rank.
\<close>

record clamp_state =
  cl_below :: level
  cl_below_rank :: int
  cl_lowest :: level
  cl_lowest_rank :: int

definition clamp_init :: clamp_state where
  "clamp_init = \<lparr>cl_below = [], cl_below_rank = -1, cl_lowest = [],
                 cl_lowest_rank = int (length levels) + 1\<rparr>"

definition clamp_step :: "int \<Rightarrow> clamp_state \<Rightarrow> level \<Rightarrow> clamp_state" where
  "clamp_step req st l =
     (let r = rank l in
      if r < 0 then st
      else
        let st = (if r < cl_lowest_rank st then st\<lparr>cl_lowest := l, cl_lowest_rank := r\<rparr> else st)
        in (if r \<le> req \<and> cl_below_rank st < r then st\<lparr>cl_below := l, cl_below_rank := r\<rparr> else st))"

definition clamp :: "level \<Rightarrow> string list \<Rightarrow> level \<times> bool" where
  "clamp requested supported =
     (if requested = [] \<or> supported = [] then (requested, False)
      else if list_ex (\<lambda>s. s = requested) supported then (requested, False)
      else
        let st = foldl (clamp_step (rank requested)) clamp_init supported in
        if cl_below st \<noteq> [] then (cl_below st, True)
        else if cl_lowest st \<noteq> [] then (cl_lowest st, True)
        else (requested, False))"

definition parse_level :: "(string \<Rightarrow> string) \<Rightarrow> string \<Rightarrow> level option" where
  "parse_level u token =
     (let l = to_lower u (trim_space token) in if known_level l then Some l else None)"

section \<open>Provenance\<close>

datatype effort_source =
  SourceSuffix | SourceBody | SourceBeta | SourceConfig | SourceCatalog | SourceNone

definition source_text :: "effort_source \<Rightarrow> string" where
  "source_text s =
     (case s of SourceSuffix \<Rightarrow> ''suffix'' | SourceBody \<Rightarrow> ''body'' | SourceBeta \<Rightarrow> ''anthropic-beta''
      | SourceConfig \<Rightarrow> ''config'' | SourceCatalog \<Rightarrow> ''catalog'' | SourceNone \<Rightarrow> '''')"

definition log_name :: "effort_source \<Rightarrow> string" where
  "log_name s =
     (if s \<in> {SourceSuffix, SourceBody, SourceBeta, SourceConfig} then source_text s else ''default'')"

section \<open>Legs\<close>

datatype leg_id = Anthropic | Codex | DeepSeek | UnknownLeg | OtherLeg string

definition valid_leg :: "leg_id \<Rightarrow> bool" where
  "valid_leg i \<longleftrightarrow> (case i of Anthropic \<Rightarrow> True | Codex \<Rightarrow> True | DeepSeek \<Rightarrow> True | _ \<Rightarrow> False)"

section \<open>The DeepSeek models\<close>

record ds_model =
  dm_id :: string
  dm_aliases :: "string list"
  dm_display_name :: string
  dm_supports_images :: bool

definition ds_catalog :: "ds_model list" where
  "ds_catalog =
     [\<lparr>dm_id = ''deepseek-flash'', dm_aliases = [''deepseek-v4-flash'', ''deepseek-v4-flash-vision-exp''],
       dm_display_name = ''DeepSeek V4.1 Flash'', dm_supports_images = True\<rparr>,
      \<lparr>dm_id = ''deepseek-v4-pro'', dm_aliases = [],
       dm_display_name = ''DeepSeek V4 Pro 0813'', dm_supports_images = False\<rparr>]"

text \<open>\<^verbatim>\<open>Models\<close> returns a copy; a list is its own copy.\<close>

definition ds_models :: "ds_model list" where
  "ds_models = ds_catalog"

fun lookup_from :: "string \<Rightarrow> ds_model list \<Rightarrow> ds_model option" where
  "lookup_from name [] = None"
| "lookup_from name (m # ms) =
     (if dm_id m = name then Some m
      else if list_ex (\<lambda>a. a = name) (dm_aliases m) then Some m
      else lookup_from name ms)"

definition ds_lookup :: "string \<Rightarrow> ds_model option" where
  "ds_lookup name = lookup_from name ds_catalog"

definition canonical :: "string \<Rightarrow> string option" where
  "canonical name = map_option dm_id (ds_lookup name)"

section \<open>Ranks\<close>

lemma rank_bounds: "-1 \<le> rank l \<and> rank l < int (length levels)"
  by (simp add: rank_def levels_def)

lemma known_level_iff: "known_level l \<longleftrightarrow> l \<in> set levels"
  by (auto simp: known_level_def rank_def levels_def)

lemma known_level_nonempty: "known_level l \<Longrightarrow> l \<noteq> []"
  by (auto simp: known_level_iff level_defs)

lemma level_graphic: "known_level l \<Longrightarrow> list_all graphic l \<and> lower_ascii l"
  by (auto simp: known_level_iff level_defs graphic_def lower_ascii_def)

text \<open>The invariant of the loop: both levels are extremal among those seen.\<close>

definition clamp_inv :: "int \<Rightarrow> level list \<Rightarrow> clamp_state \<Rightarrow> bool" where
  "clamp_inv req seen st \<longleftrightarrow>
     (let known = filter known_level seen; below = filter (\<lambda>l. rank l \<le> req) known in
      (if below = [] then cl_below st = [] \<and> cl_below_rank st = -1
       else cl_below st \<in> set below \<and> cl_below_rank st = rank (cl_below st) \<and>
            (\<forall>l \<in> set below. rank l \<le> cl_below_rank st)) \<and>
      (if known = [] then cl_lowest st = [] \<and> cl_lowest_rank st = int (length levels) + 1
       else cl_lowest st \<in> set known \<and> cl_lowest_rank st = rank (cl_lowest st) \<and>
            (\<forall>l \<in> set known. cl_lowest_rank st \<le> rank l)))"

lemma clamp_step_inv: "clamp_inv req seen st \<Longrightarrow> clamp_inv req (seen @ [l]) (clamp_step req st l)"
  using rank_bounds [of l]
  by (auto simp: clamp_inv_def clamp_step_def Let_def known_level_def filter_empty_conv split: if_split_asm)

lemma clamp_fold_inv: "clamp_inv req seen (foldl (clamp_step req) clamp_init seen)"
proof (induction seen rule: rev_induct)
  case Nil
  then show ?case by (simp add: clamp_inv_def clamp_init_def)
qed (simp add: clamp_step_inv)

section \<open>Properties\<close>

text \<open>
  Property (C11): \<^verbatim>\<open>Clamp\<close> does what its comment says. An empty request, a supported one and one
  with no supported level that is recognised pass unchanged. Any other request is
  changed to a supported, recognised level: the highest of those not above it when
  there is one, and otherwise the lowest of all. An unrecognised request, whose rank is
  -1, therefore gets the lowest level.
\<close>

theorem clamp_correct:
  "let ranks = map rank (filter known_level supported);
       below = filter (\<lambda>k. k \<le> rank requested) ranks
   in if requested = [] \<or> requested \<in> set supported \<or> ranks = []
      then clamp requested supported = (requested, False)
      else snd (clamp requested supported) \<and>
           fst (clamp requested supported) \<in> set (filter known_level supported) \<and>
           rank (fst (clamp requested supported)) = (if below \<noteq> [] then Max (set below) else Min (set ranks))"
proof -
  let ?st = "foldl (clamp_step (rank requested)) clamp_init supported"
  let ?known = "filter known_level supported"
  let ?below = "filter (\<lambda>l. rank l \<le> rank requested) ?known"
  have inv: "clamp_inv (rank requested) supported ?st" by (rule clamp_fold_inv)
  have b: "filter (\<lambda>k. k \<le> rank requested) (map rank ?known) = map rank ?below"
    by (simp add: filter_map comp_def)
  show ?thesis
  proof (cases "requested = [] \<or> requested \<in> set supported \<or> ?known = []")
    case True
    with inv show ?thesis
      by (auto simp: clamp_def clamp_inv_def list_ex_iff Let_def filter_empty_conv split: if_split_asm)
  next
    case False
    then have c: "clamp requested supported =
        (if cl_below ?st \<noteq> [] then (cl_below ?st, True) else (cl_lowest ?st, True))"
      using inv known_level_nonempty
      by (auto simp: clamp_def clamp_inv_def list_ex_iff Let_def split: if_split_asm)
    show ?thesis
    proof (cases "?below = []")
      case True
      with inv have i: "cl_below ?st = []" by (simp add: clamp_inv_def Let_def)
      from True inv False have l: "cl_lowest ?st \<in> set ?known" "\<forall>l \<in> set ?known. rank (cl_lowest ?st) \<le> rank l"
        by (auto simp: clamp_inv_def Let_def)
      then have "Min (rank ` set ?known) = rank (cl_lowest ?st)" by (intro Min_eqI) auto
      with False True c i l(1) show ?thesis by (simp add: Let_def b)
    next
      case bne: False
      with inv have m: "cl_below ?st \<in> set ?below" "\<forall>l \<in> set ?below. rank l \<le> rank (cl_below ?st)"
        by (auto simp: clamp_inv_def Let_def)
      then have "cl_below ?st \<noteq> []" using known_level_nonempty by auto
      moreover have "Max (rank ` set ?below) = rank (cl_below ?st)" using m by (intro Max_eqI) auto
      ultimately show ?thesis using False bne c m(1) by (simp add: Let_def b)
    qed
  qed
qed

text \<open>
  \<^verbatim>\<open>Parse\<close> returns only recognised levels, and reads every recognised level back
  from its wire spelling.
\<close>

theorem parse_level_sound:
  "(case parse_level u token of None \<Rightarrow> True | Some l \<Rightarrow> l \<in> set levels \<and> parse_level u l = Some l) \<and>
   list_all (\<lambda>l. parse_level u l = Some l) levels"
proof -
  have "parse_level u l = Some l" if "known_level l" for l
    using level_graphic [OF that] that
    by (simp add: parse_level_def trim_space_graphic to_lower_lower_ascii)
  moreover have "parse_level u token = Some l \<Longrightarrow> known_level l" for l
    by (auto simp: parse_level_def Let_def split: if_splits)
  ultimately show ?thesis
    by (auto simp: list_all_iff known_level_iff split: option.split)
qed

text \<open>
  The DeepSeek catalog is closed and canonicalisation is idempotent: a name that is
  accepted is mapped to the id of a listed model, that id maps to itself, and every id
  and alias of the list is accepted for the model that lists it.
\<close>

theorem canonical_closed:
  "(case canonical name of
      None \<Rightarrow> True
    | Some i \<Rightarrow> i \<in> set (map dm_id ds_models) \<and> canonical i = Some i) \<and>
   list_all (\<lambda>m. list_all (\<lambda>n. canonical n = Some (dm_id m)) (dm_id m # dm_aliases m)) ds_models"
  by (auto simp: canonical_def ds_lookup_def ds_catalog_def ds_models_def split: option.split)

end
