(* ===== verification/Registry.thy ===== *)
theory Registry
  imports Effort "HOL-Library.Product_Lexorder"
begin

text \<open>
  \<^verbatim>\<open>internal/router/registry.go\<close>: the alias registry. Three tiers are derived from the model
  catalog (raw slugs, pinned names of one version, bare names that float to the newest
  version); a fourth holds the ids that discovery advertised. A Go map is a map of HOL;
  where the code ranges over one, the order is not specified by the language, and the
  model takes the entries as a list in that order. The mutex of the registry makes each
  operation atomic, so a concurrent history is a sequence of the operations below.

  \<open>u\<close> is the Unicode case table of \<^verbatim>\<open>strings.ToLower\<close> (see \<open>Prelude\<close>). Strings are
  ordered bytewise, as in Go.
\<close>

section \<open>Slugs\<close>

record catalog_entry =
  ce_slug :: string
  ce_priority :: int

record slug_override =
  so_codename :: string
  so_version :: string
  so_modifier :: string

record parsed_slug =
  ps_slug :: string
  ps_version :: string
  ps_codename :: string
  ps_modifier :: string

definition modifiers :: "string list" where
  "modifiers = [''mini'']"

definition dec_digit :: "char \<Rightarrow> bool" where
  "dec_digit c \<longleftrightarrow> 48 \<le> (of_char c :: nat) \<and> (of_char c :: nat) \<le> 57"

definition tail_char :: "char \<Rightarrow> bool" where
  "tail_char c \<longleftrightarrow> dec_digit c \<or> 97 \<le> (of_char c :: nat) \<and> (of_char c :: nat) \<le> 122"

text \<open>
  The pattern \<^verbatim>\<open>^gpt-(\d+(?:\.\d+)*)(?:-([a-z0-9]+))?$\<close>: no character of a version is a
  hyphen, so the version ends at the first one.
\<close>

definition match_slug :: "string \<Rightarrow> (string \<times> string) option" where
  "match_slug s =
     (case cut_prefix ''gpt-'' s of
        None \<Rightarrow> None
      | Some r \<Rightarrow>
          let version = takeWhile (\<lambda>c. c \<noteq> CHR ''-'') r; rest = dropWhile (\<lambda>c. c \<noteq> CHR ''-'') r in
          if list_all (\<lambda>seg. seg \<noteq> [] \<and> list_all dec_digit seg) (split_on (CHR ''.'') version) then
            (case rest of
               [] \<Rightarrow> Some (version, [])
             | h # tail \<Rightarrow> if tail \<noteq> [] \<and> list_all tail_char tail then Some (version, tail) else None)
          else None)"

definition parse_slug ::
  "(string \<Rightarrow> string) \<Rightarrow> string \<Rightarrow> (string \<rightharpoonup> slug_override) \<Rightarrow> parsed_slug option" where
  "parse_slug u slug overrides =
     (let lower = to_lower u slug in
      case overrides lower of
        Some ov \<Rightarrow> Some \<lparr>ps_slug = lower, ps_version = so_version ov, ps_codename = so_codename ov,
                         ps_modifier = so_modifier ov\<rparr>
      | None \<Rightarrow>
          (case match_slug lower of
             None \<Rightarrow> None
           | Some (version, tail) \<Rightarrow>
               if tail = [] then
                 Some \<lparr>ps_slug = lower, ps_version = version, ps_codename = [], ps_modifier = []\<rparr>
               else if tail \<in> set modifiers then
                 Some \<lparr>ps_slug = lower, ps_version = version, ps_codename = [], ps_modifier = tail\<rparr>
               else
                 Some \<lparr>ps_slug = lower, ps_version = version, ps_codename = tail, ps_modifier = []\<rparr>))"

definition bare_alias :: "parsed_slug \<Rightarrow> string" where
  "bare_alias p =
     (if ps_codename p \<noteq> [] then ps_codename p
      else if ps_modifier p \<noteq> [] then ps_version p @ ''-'' @ ps_modifier p
      else ps_version p)"

definition pinned_alias :: "parsed_slug \<Rightarrow> string" where
  "pinned_alias p = (if ps_codename p = [] then [] else ps_codename p @ ''-'' @ ps_version p)"

section \<open>Versions\<close>

text \<open>\<^verbatim>\<open>strconv.Atoi\<close>: an optional sign, digits, and the range of a 64-bit integer.\<close>

definition digits_value :: "string \<Rightarrow> int" where
  "digits_value s = foldl (\<lambda>v c. 10 * v + (int (of_char c) - 48)) 0 s"

definition atoi :: "string \<Rightarrow> int option" where
  "atoi s =
     (let neg = (s \<noteq> [] \<and> hd s = CHR ''-''); ds = (if s \<noteq> [] \<and> (hd s = CHR ''-'' \<or> hd s = CHR ''+'') then tl s else s);
          v = (if neg then - digits_value ds else digits_value ds)
      in if ds \<noteq> [] \<and> list_all dec_digit ds \<and> is_i64 v then Some v else None)"

text \<open>The segments that a version lacks are empty strings, as in the loop of \<^verbatim>\<open>versionCmp\<close>.\<close>

definition segment_cmp :: "string \<Rightarrow> string \<Rightarrow> int" where
  "segment_cmp av bv =
     (case (atoi av, atoi bv) of
        (Some an, Some bn) \<Rightarrow> (if an < bn then -1 else if bn < an then 1 else 0)
      | _ \<Rightarrow> (if av < bv then -1 else if bv < av then 1 else 0))"

fun segments_cmp :: "string list \<Rightarrow> string list \<Rightarrow> int" where
  "segments_cmp [] [] = 0"
| "segments_cmp (a # as) [] = (let c = segment_cmp a [] in if c \<noteq> 0 then c else segments_cmp as [])"
| "segments_cmp [] (b # bs) = (let c = segment_cmp [] b in if c \<noteq> 0 then c else segments_cmp [] bs)"
| "segments_cmp (a # as) (b # bs) =
     (let c = segment_cmp a b in if c \<noteq> 0 then c else segments_cmp as bs)"

definition version_cmp :: "string \<Rightarrow> string \<Rightarrow> int" where
  "version_cmp a b = segments_cmp (split_on (CHR ''.'') a) (split_on (CHR ''.'') b)"

record bare_hold =
  bh_version :: string
  bh_priority :: int

definition bare_outranks :: "bare_hold \<Rightarrow> bare_hold \<Rightarrow> bool" where
  "bare_outranks cand inc =
     (let c = version_cmp (bh_version cand) (bh_version inc) in
      if c = 1 then True else if c = -1 then False else bh_priority inc < bh_priority cand)"

section \<open>The registry\<close>

record picker_route =
  pr_backend :: leg_id
  pr_upstream :: string
  pr_effort :: level

record registry =
  rg_raw :: "string \<rightharpoonup> string"
  rg_pinned :: "string \<rightharpoonup> string"
  rg_bare :: "string \<rightharpoonup> string"
  rg_overrides :: "string \<rightharpoonup> slug_override"
  rg_picker :: "string \<rightharpoonup> picker_route"

definition new_registry :: registry where
  "new_registry = \<lparr>rg_raw = Map.empty, rg_pinned = Map.empty, rg_bare = Map.empty,
                   rg_overrides = Map.empty, rg_picker = Map.empty\<rparr>"

definition static_slugs :: "string list" where
  "static_slugs = [''gpt-6.1-sol'', ''gpt-6-astra'', ''gpt-6-sol'', ''gpt-6-luna'', ''gpt-5.6-sol'',
                   ''gpt-5.6-terra'', ''gpt-5.6-luna'', ''gpt-5.5'']"

definition static_overrides :: "string \<rightharpoonup> slug_override" where
  "static_overrides = Map.empty"

definition set_override ::
  "(string \<Rightarrow> string) \<Rightarrow> string \<Rightarrow> string \<Rightarrow> string \<Rightarrow> string \<Rightarrow> registry \<Rightarrow> registry" where
  "set_override u slug codename version modifier r =
     r\<lparr>rg_overrides := (rg_overrides r)(to_lower u slug \<mapsto>
        \<lparr>so_codename = codename, so_version = version, so_modifier = modifier\<rparr>)\<rparr>"

text \<open>The tiers under construction, and who holds each bare name.\<close>

record tiers =
  tr_raw :: "string \<rightharpoonup> string"
  tr_pinned :: "string \<rightharpoonup> string"
  tr_bare :: "string \<rightharpoonup> string"
  tr_held :: "string \<rightharpoonup> bare_hold"

definition empty_tiers :: tiers where
  "empty_tiers = \<lparr>tr_raw = Map.empty, tr_pinned = Map.empty, tr_bare = Map.empty, tr_held = Map.empty\<rparr>"

definition take_bare :: "string \<Rightarrow> string \<Rightarrow> bare_hold \<Rightarrow> tiers \<Rightarrow> tiers" where
  "take_bare ba slug cand t =
     (case tr_held t ba of
        Some cur \<Rightarrow>
          if bare_outranks cand cur
          then t\<lparr>tr_bare := (tr_bare t)(ba \<mapsto> slug), tr_held := (tr_held t)(ba \<mapsto> cand)\<rparr> else t
      | None \<Rightarrow> t\<lparr>tr_bare := (tr_bare t)(ba \<mapsto> slug), tr_held := (tr_held t)(ba \<mapsto> cand)\<rparr>)"

definition load_entry ::
  "(string \<Rightarrow> string) \<Rightarrow> (string \<rightharpoonup> slug_override) \<Rightarrow> tiers \<Rightarrow> catalog_entry \<Rightarrow> tiers" where
  "load_entry u overrides t e =
     (let slug = to_lower u (ce_slug e); t = t\<lparr>tr_raw := (tr_raw t)(slug \<mapsto> slug)\<rparr> in
      case parse_slug u slug overrides of
        None \<Rightarrow> t
      | Some p \<Rightarrow>
          let pa = pinned_alias p;
              t = (if pa \<noteq> [] then t\<lparr>tr_pinned := (tr_pinned t)(pa \<mapsto> slug)\<rparr> else t)
          in take_bare (bare_alias p) slug \<lparr>bh_version = ps_version p, bh_priority = ce_priority e\<rparr> t)"

definition load_tiers :: "(string \<Rightarrow> string) \<Rightarrow> (string \<rightharpoonup> slug_override) \<Rightarrow> catalog_entry list \<Rightarrow> tiers" where
  "load_tiers u overrides entries =
     foldl (load_entry u overrides) empty_tiers (sort_key ce_slug entries)"

definition load_catalog :: "(string \<Rightarrow> string) \<Rightarrow> catalog_entry list \<Rightarrow> registry \<Rightarrow> registry" where
  "load_catalog u entries r =
     (let t = load_tiers u (rg_overrides r) entries in
      r\<lparr>rg_raw := tr_raw t, rg_pinned := tr_pinned t, rg_bare := tr_bare t\<rparr>)"

definition load_static :: "(string \<Rightarrow> string) \<Rightarrow> registry \<Rightarrow> registry" where
  "load_static u r =
     load_catalog u (map (\<lambda>s. \<lparr>ce_slug = s, ce_priority = 0\<rparr>) static_slugs)
       (r\<lparr>rg_overrides := static_overrides, rg_picker := Map.empty\<rparr>)"

definition static_registry :: "(string \<Rightarrow> string) \<Rightarrow> registry" where
  "static_registry u = load_static u new_registry"

definition resolve :: "registry \<Rightarrow> string \<Rightarrow> string option" where
  "resolve r name =
     (case rg_raw r name of
        Some s \<Rightarrow> Some s
      | None \<Rightarrow>
          (case rg_pinned r name of
             Some s \<Rightarrow> Some s
           | None \<Rightarrow> rg_bare r name))"

definition bare_aliases :: "registry \<Rightarrow> string list" where
  "bare_aliases r = sorted_list_of_set (dom (rg_bare r))"

section \<open>The alias list\<close>

datatype alias_tier = TierRaw | TierPinned | TierBare

definition tier_rank :: "alias_tier \<Rightarrow> nat" where
  "tier_rank t = (case t of TierRaw \<Rightarrow> 0 | TierPinned \<Rightarrow> 1 | TierBare \<Rightarrow> 2)"

lemma tier_rank_inject [simp]: "tier_rank s = tier_rank t \<longleftrightarrow> s = t"
  by (cases s; cases t) (simp_all add: tier_rank_def)

instantiation alias_tier :: linorder
begin

definition less_eq_alias_tier :: "alias_tier \<Rightarrow> alias_tier \<Rightarrow> bool" where
  "less_eq_alias_tier s t \<longleftrightarrow> tier_rank s \<le> tier_rank t"

definition less_alias_tier :: "alias_tier \<Rightarrow> alias_tier \<Rightarrow> bool" where
  "less_alias_tier s t \<longleftrightarrow> tier_rank s < tier_rank t"

instance
  by standard (auto simp: less_eq_alias_tier_def less_alias_tier_def)

end

text \<open>An alias is its slug, its tier and its name, compared in that order.\<close>

type_synonym alias_entry = "string \<times> alias_tier \<times> string"

definition tier_aliases :: "alias_tier \<Rightarrow> (string \<rightharpoonup> string) \<Rightarrow> alias_entry set" where
  "tier_aliases t m = (\<lambda>n. (the (m n), t, n)) ` dom m"

definition alias_list :: "registry \<Rightarrow> alias_entry list" where
  "alias_list r =
     sorted_list_of_set (tier_aliases TierRaw (rg_raw r) \<union> tier_aliases TierPinned (rg_pinned r) \<union>
                         tier_aliases TierBare (rg_bare r))"

section \<open>The picker tier\<close>

text \<open>The routes in the order in which the map yields them.\<close>

fun picker_loop ::
  "(string \<Rightarrow> string) \<Rightarrow> (string \<times> picker_route) list \<Rightarrow> (string \<rightharpoonup> picker_route) \<Rightarrow> (string \<rightharpoonup> picker_route)" where
  "picker_loop u [] acc = acc"
| "picker_loop u ((i, route) # routes) acc =
     (let key = to_lower u (trim_space i) in
      if key = [] \<or> \<not> valid_leg (pr_backend route) then picker_loop u routes acc
      else picker_loop u routes (acc(key \<mapsto> route)))"

definition set_picker_routes ::
  "(string \<Rightarrow> string) \<Rightarrow> (string \<times> picker_route) list \<Rightarrow> registry \<Rightarrow> registry" where
  "set_picker_routes u routes r = r\<lparr>rg_picker := picker_loop u routes Map.empty\<rparr>"

definition the_picker_route :: "registry \<Rightarrow> string \<Rightarrow> picker_route option" where
  "the_picker_route r i = rg_picker r i"

definition picker_ids :: "registry \<Rightarrow> string list" where
  "picker_ids r = sorted_list_of_set (dom (rg_picker r))"

section \<open>Reachable registries\<close>

text \<open>The operations in any order, each atomic under the mutex of the registry.\<close>

inductive registry_reach :: "(string \<Rightarrow> string) \<Rightarrow> registry \<Rightarrow> bool" for u where
  reach_new: "registry_reach u new_registry"
| reach_override: "registry_reach u r \<Longrightarrow> registry_reach u (set_override u s c v m r)"
| reach_catalog: "registry_reach u r \<Longrightarrow> registry_reach u (load_catalog u es r)"
| reach_static: "registry_reach u r \<Longrightarrow> registry_reach u (load_static u r)"
| reach_picker: "registry_reach u r \<Longrightarrow> registry_reach u (set_picker_routes u routes r)"

definition maps_to_self :: "(string \<rightharpoonup> string) \<Rightarrow> bool" where
  "maps_to_self m \<longleftrightarrow> (\<forall>n \<in> dom m. m n = Some n)"

lemma maps_to_self_upd [simp]: "maps_to_self m \<Longrightarrow> maps_to_self (m(n \<mapsto> n))" "maps_to_self Map.empty"
  by (simp_all add: maps_to_self_def)

definition values_in :: "string set \<Rightarrow> (string \<rightharpoonup> string) \<Rightarrow> bool" where
  "values_in A m \<longleftrightarrow> ran m \<subseteq> A"

lemma values_in_upd [simp]: "values_in A m \<Longrightarrow> v \<in> A \<Longrightarrow> values_in A (m(n \<mapsto> v))" "values_in A Map.empty"
  by (auto simp: values_in_def ran_def)

lemma values_in_mono: "values_in A m \<Longrightarrow> A \<subseteq> B \<Longrightarrow> values_in B m"
  by (auto simp: values_in_def)

definition tiers_inv :: "string set \<Rightarrow> tiers \<Rightarrow> bool" where
  "tiers_inv slugs t \<longleftrightarrow>
     dom (tr_raw t) = slugs \<and> maps_to_self (tr_raw t) \<and>
     values_in slugs (tr_pinned t) \<and> values_in slugs (tr_bare t) \<and>
     finite (dom (tr_pinned t)) \<and> finite (dom (tr_bare t))"

lemma take_bare_inv:
  "tiers_inv slugs t \<Longrightarrow> slug \<in> slugs \<Longrightarrow> tiers_inv slugs (take_bare ba slug cand t)"
  by (simp add: take_bare_def tiers_inv_def split: option.split)

lemma load_entry_inv:
  assumes "tiers_inv slugs t"
  shows "tiers_inv (insert (to_lower u (ce_slug e)) slugs) (load_entry u ov t e)"
proof -
  let ?s = "to_lower u (ce_slug e)"
  let ?t = "t\<lparr>tr_raw := (tr_raw t)(?s \<mapsto> ?s)\<rparr>"
  have t: "tiers_inv (insert ?s slugs) ?t" using assms by (auto simp: tiers_inv_def intro: values_in_mono)
  then have "tiers_inv (insert ?s slugs) (?t\<lparr>tr_pinned := (tr_pinned ?t)(pa \<mapsto> ?s)\<rparr>)" for pa
    by (simp add: tiers_inv_def)
  with t have "tiers_inv (insert ?s slugs) (if pa \<noteq> [] then ?t\<lparr>tr_pinned := (tr_pinned ?t)(pa \<mapsto> ?s)\<rparr> else ?t)" for pa
    by simp
  from take_bare_inv [OF this insertI1] t show ?thesis
    unfolding load_entry_def Let_def by (cases "parse_slug u ?s ov") (simp_all only: option.case)
qed

lemma load_tiers_inv: "tiers_inv (set (map (to_lower u \<circ> ce_slug) es)) (load_tiers u ov es)"
proof -
  have "tiers_inv slugs t \<Longrightarrow>
      tiers_inv (slugs \<union> set (map (to_lower u \<circ> ce_slug) xs)) (foldl (load_entry u ov) t xs)" for slugs t xs
  proof (induction xs arbitrary: slugs t)
    case (Cons e xs)
    from Cons.IH [OF load_entry_inv [OF Cons.prems]] show ?case by simp
  qed simp
  from this [of "{}" empty_tiers "sort_key ce_slug es"] show ?thesis
    by (simp add: load_tiers_def tiers_inv_def empty_tiers_def)
qed

definition picker_ok :: "(string \<rightharpoonup> picker_route) \<Rightarrow> bool" where
  "picker_ok m \<longleftrightarrow> (\<forall>(i, route) \<in> Map.graph m. i \<noteq> [] \<and> valid_leg (pr_backend route))"

definition registry_inv :: "registry \<Rightarrow> bool" where
  "registry_inv r \<longleftrightarrow>
     maps_to_self (rg_raw r) \<and> finite (dom (rg_raw r)) \<and>
     values_in (dom (rg_raw r)) (rg_pinned r) \<and> finite (dom (rg_pinned r)) \<and>
     values_in (dom (rg_raw r)) (rg_bare r) \<and> finite (dom (rg_bare r)) \<and>
     picker_ok (rg_picker r) \<and>
     finite (dom (rg_picker r))"

lemma load_catalog_inv: "registry_inv r \<Longrightarrow> registry_inv (load_catalog u es r)"
  using load_tiers_inv [of u es "rg_overrides r"]
  by (auto simp: registry_inv_def load_catalog_def Let_def tiers_inv_def)

lemma picker_ok_upd [simp]:
  "picker_ok m \<Longrightarrow> i \<noteq> [] \<Longrightarrow> valid_leg (pr_backend route) \<Longrightarrow> picker_ok (m(i \<mapsto> route))" "picker_ok Map.empty"
  by (auto simp: picker_ok_def graph_def split: if_splits)

lemma picker_loop_inv:
  "picker_ok m \<Longrightarrow> finite (dom m) \<Longrightarrow>
   picker_ok (picker_loop u routes m) \<and> finite (dom (picker_loop u routes m))"
  by (induction u routes m rule: picker_loop.induct) (simp_all add: Let_def)

lemma registry_reach_inv: "registry_reach u r \<Longrightarrow> registry_inv r"
proof (induction rule: registry_reach.induct)
  case reach_new
  then show ?case by (simp add: registry_inv_def new_registry_def)
next
  case (reach_override r s c v m)
  then show ?case by (simp add: registry_inv_def set_override_def)
next
  case (reach_catalog r es)
  show ?case by (rule load_catalog_inv) (rule reach_catalog.IH)
next
  case (reach_static r)
  then have "registry_inv (r\<lparr>rg_overrides := static_overrides, rg_picker := Map.empty\<rparr>)"
    by (simp add: registry_inv_def)
  then show ?case by (simp add: load_static_def load_catalog_inv)
next
  case (reach_picker r routes)
  with picker_loop_inv [of Map.empty u routes] show ?case
    by (auto simp: registry_inv_def set_picker_routes_def)
qed

text \<open>
  Property (C27): whatever sequence of loads, overrides and picker updates led to a registry, an
  alias resolves only to a slug of the catalog it holds, a slug always resolves to
  itself (no derived name shadows it), so resolving twice is resolving once; and every
  picker id it holds is non-empty and names one of the three legs.
\<close>

theorem registry_resolves_into_catalog:
  assumes "registry_reach u r"
  shows "(case resolve r name of None \<Rightarrow> True | Some s \<Rightarrow> rg_raw r s = Some s \<and> resolve r s = Some s) \<and>
    (case the_picker_route r i of None \<Rightarrow> True | Some route \<Rightarrow> i \<noteq> [] \<and> valid_leg (pr_backend route))"
proof
  from registry_reach_inv [OF assms] have inv: "registry_inv r" .
  show "case resolve r name of None \<Rightarrow> True | Some s \<Rightarrow> rg_raw r s = Some s \<and> resolve r s = Some s"
  proof (cases "resolve r name")
    case (Some s)
    have "s \<in> dom (rg_raw r)"
    proof (cases "rg_raw r name")
      case None
      with inv Some show ?thesis
        by (auto simp: registry_inv_def resolve_def values_in_def ran_def split: option.splits)
    next
      case raw: (Some s')
      with inv have "s' = name" by (force simp: registry_inv_def maps_to_self_def)
      with raw Some show ?thesis by (simp add: resolve_def domI)
    qed
    with inv have "rg_raw r s = Some s" by (simp add: registry_inv_def maps_to_self_def)
    moreover from this have "resolve r s = Some s" by (simp add: resolve_def)
    ultimately show ?thesis by (simp add: Some)
  qed simp
  show "case the_picker_route r i of None \<Rightarrow> True | Some route \<Rightarrow> i \<noteq> [] \<and> valid_leg (pr_backend route)"
    using inv by (cases "rg_picker r i")
      (auto simp: registry_inv_def the_picker_route_def picker_ok_def graph_def)
qed

theorem registry_resolves_into_catalog_witness:
  "\<exists>s. resolve (static_registry (\<lambda>s. s)) ''gpt-5.5'' = Some s \<and>
       rg_raw (static_registry (\<lambda>s. s)) s = Some s"
proof -
  let ?r = "static_registry (\<lambda>s. s)"
  have r: "registry_reach (\<lambda>s. s) ?r"
    unfolding static_registry_def by (intro reach_static reach_new)
  have "dom (rg_raw ?r) = set (map (to_lower (\<lambda>s. s)) static_slugs)"
    using load_tiers_inv [of "\<lambda>s. s" "map (\<lambda>s. \<lparr>ce_slug = s, ce_priority = 0\<rparr>) static_slugs" static_overrides]
    by (simp add: static_registry_def load_static_def load_catalog_def Let_def tiers_inv_def comp_def)
  moreover have "to_lower (\<lambda>s. s) ''gpt-5.5'' = ''gpt-5.5''"
    by (rule to_lower_lower_ascii) (simp add: lower_ascii_def)
  moreover have "''gpt-5.5'' \<in> set static_slugs" by (simp add: static_slugs_def)
  note imageI [OF this, of "to_lower (\<lambda>s. s)"]
  ultimately have "''gpt-5.5'' \<in> dom (rg_raw ?r)" by (simp only: list.set_map)
  then obtain s where "resolve ?r ''gpt-5.5'' = Some s" by (auto simp: resolve_def)
  with registry_resolves_into_catalog [OF r, of "''gpt-5.5''"] show ?thesis by auto
qed

text \<open>
  A load replaces the tiers as a whole. After it every slug of the new catalog
  resolves to itself, and a name resolves to nothing but a slug of that catalog, so a
  model that has left the catalog is no longer routable by any of its aliases; the
  overrides and the ids that discovery advertised are untouched.
\<close>

theorem load_catalog_replaces:
  "list_all (\<lambda>e. resolve (load_catalog u es r) (to_lower u (ce_slug e)) = Some (to_lower u (ce_slug e))) es \<and>
   (case resolve (load_catalog u es r) name of
      None \<Rightarrow> True | Some s \<Rightarrow> s \<in> set (map (to_lower u \<circ> ce_slug) es)) \<and>
   rg_overrides (load_catalog u es r) = rg_overrides r \<and>
   the_picker_route (load_catalog u es r) i = the_picker_route r i"
proof -
  define t where "t = load_tiers u (rg_overrides r) es"
  have t: "tiers_inv (set (map (to_lower u \<circ> ce_slug) es)) t"
    unfolding t_def by (rule load_tiers_inv)
  have "s \<in> set (map (to_lower u \<circ> ce_slug) es)" if "tr_raw t n = Some s" for n s
    using t that unfolding tiers_inv_def maps_to_self_def by (metis domI option.inject)
  moreover have "tr_raw t (to_lower u (ce_slug e)) = Some (to_lower u (ce_slug e))" if "e \<in> set es" for e
    using t that unfolding tiers_inv_def maps_to_self_def by auto
  ultimately show ?thesis using t
    by (auto simp: load_catalog_def resolve_def the_picker_route_def list_all_iff tiers_inv_def
        values_in_def ran_def Let_def simp flip: t_def split: option.split)
qed

section \<open>The newest version\<close>

text \<open>
  On versions whose segments are all integers, \<^verbatim>\<open>versionCmp\<close> is the lexicographic order
  of the integers, a shorter version before its extensions.
\<close>

definition version_ok :: "string \<Rightarrow> bool" where
  "version_ok v \<longleftrightarrow> list_all (\<lambda>seg. atoi seg \<noteq> None) (split_on (CHR ''.'') v)"

definition version_key :: "string \<Rightarrow> int list" where
  "version_key v = map (the \<circ> atoi) (split_on (CHR ''.'') v)"

definition cmp_of :: "'a::linorder \<Rightarrow> 'a \<Rightarrow> int" where
  "cmp_of x y = (if x < y then -1 else if y < x then 1 else 0)"

lemma atoi_Nil: "atoi [] = None"
  by (simp add: atoi_def)

lemma segments_cmp_key:
  "list_all (\<lambda>s. atoi s \<noteq> None) as \<Longrightarrow> list_all (\<lambda>s. atoi s \<noteq> None) bs \<Longrightarrow>
   segments_cmp as bs = cmp_of (map (the \<circ> atoi) as) (map (the \<circ> atoi) bs)"
proof (induction as bs rule: segments_cmp.induct)
  case (2 a as)
  then have "a \<noteq> []" using atoi_Nil by auto
  with 2 show ?case by (cases a) (auto simp: segment_cmp_def atoi_Nil cmp_of_def)
next
  case (3 b bs)
  then have "b \<noteq> []" using atoi_Nil by auto
  with 3 show ?case by (cases b) (auto simp: segment_cmp_def atoi_Nil cmp_of_def)
next
  case (4 a as b bs)
  then obtain x y where "atoi a = Some x" "atoi b = Some y" by auto
  with 4 show ?case
    by (cases x y rule: linorder_cases) (simp_all add: segment_cmp_def cmp_of_def Let_def)
qed (simp add: cmp_of_def)

lemma version_cmp_key:
  "version_ok a \<Longrightarrow> version_ok b \<Longrightarrow> version_cmp a b = cmp_of (version_key a) (version_key b)"
  by (simp add: version_cmp_def version_ok_def version_key_def segments_cmp_key)

definition hold_key :: "bare_hold \<Rightarrow> int list \<times> int" where
  "hold_key h = (version_key (bh_version h), bh_priority h)"

lemma bare_outranks_key:
  "version_ok (bh_version a) \<Longrightarrow> version_ok (bh_version b) \<Longrightarrow> bare_outranks a b \<longleftrightarrow> hold_key b < hold_key a"
  by (auto simp: bare_outranks_def version_cmp_key cmp_of_def hold_key_def Let_def)

text \<open>The claim that an entry makes on a bare name: the name, its slug and its hold.\<close>

definition bare_claim ::
  "(string \<Rightarrow> string) \<Rightarrow> (string \<rightharpoonup> slug_override) \<Rightarrow> catalog_entry \<Rightarrow> (string \<times> string \<times> bare_hold) option" where
  "bare_claim u ov e =
     (let slug = to_lower u (ce_slug e) in
      map_option (\<lambda>p. (bare_alias p, slug, \<lparr>bh_version = ps_version p, bh_priority = ce_priority e\<rparr>))
        (parse_slug u slug ov))"

definition claims_ok :: "(string \<Rightarrow> string) \<Rightarrow> (string \<rightharpoonup> slug_override) \<Rightarrow> catalog_entry list \<Rightarrow> bool" where
  "claims_ok u ov es \<longleftrightarrow>
     list_all (\<lambda>e. case bare_claim u ov e of None \<Rightarrow> True | Some (b, s, h) \<Rightarrow> version_ok (bh_version h)) es"

lemma take_bare_raw_pinned [simp]:
  "tr_bare (take_bare ba s h t) n =
     (if n = ba \<and> (case tr_held t ba of None \<Rightarrow> True | Some c \<Rightarrow> bare_outranks h c) then Some s else tr_bare t n)"
  "tr_held (take_bare ba s h t) n =
     (if n = ba \<and> (case tr_held t ba of None \<Rightarrow> True | Some c \<Rightarrow> bare_outranks h c) then Some h else tr_held t n)"
  by (auto simp: take_bare_def split: option.split)

lemma load_entry_bare:
  "tr_bare (load_entry u ov t e) n =
     (case bare_claim u ov e of
        None \<Rightarrow> tr_bare t n
      | Some (b, s, h) \<Rightarrow> tr_bare (take_bare b s h t) n)"
  "tr_held (load_entry u ov t e) n =
     (case bare_claim u ov e of
        None \<Rightarrow> tr_held t n
      | Some (b, s, h) \<Rightarrow> tr_held (take_bare b s h t) n)"
  by (auto simp: load_entry_def bare_claim_def Let_def split: option.split)

text \<open>The holder of a bare name among the entries seen has the greatest key.\<close>

definition newest_held ::
  "(string \<Rightarrow> string) \<Rightarrow> (string \<rightharpoonup> slug_override) \<Rightarrow> catalog_entry set \<Rightarrow> tiers \<Rightarrow> string \<Rightarrow> bool" where
  "newest_held u ov seen t b \<longleftrightarrow>
     (case tr_held t b of
        None \<Rightarrow> tr_bare t b = None \<and> (\<forall>e \<in> seen. \<forall>s h. bare_claim u ov e \<noteq> Some (b, s, h))
      | Some h0 \<Rightarrow>
          (\<exists>e \<in> seen. \<exists>s. bare_claim u ov e = Some (b, s, h0) \<and> tr_bare t b = Some s) \<and>
          (\<forall>e \<in> seen. \<forall>s h. bare_claim u ov e = Some (b, s, h) \<longrightarrow> hold_key h \<le> hold_key h0))"

lemma newest_held_step:
  assumes inv: "newest_held u ov seen t b"
    and ok: "\<forall>e' \<in> insert e seen. \<forall>b s h. bare_claim u ov e' = Some (b, s, h) \<longrightarrow> version_ok (bh_version h)"
  shows "newest_held u ov (insert e seen) (load_entry u ov t e) b"
proof (cases "\<exists>s h. bare_claim u ov e = Some (b, s, h)")
  case False
  then have "tr_bare (load_entry u ov t e) b = tr_bare t b" "tr_held (load_entry u ov t e) b = tr_held t b"
    by (auto simp: load_entry_bare split: option.split)
  with False inv show ?thesis by (auto simp: newest_held_def split: option.split)
next
  case True
  then obtain s h where c: "bare_claim u ov e = Some (b, s, h)" by blast
  show ?thesis
  proof (cases "tr_held t b")
    case None
    with c inv show ?thesis by (auto simp: newest_held_def load_entry_bare)
  next
    case (Some h0)
    with inv obtain e0 s0 where e0: "e0 \<in> seen" "bare_claim u ov e0 = Some (b, s0, h0)" "tr_bare t b = Some s0"
      and le: "\<forall>e \<in> seen. \<forall>s h. bare_claim u ov e = Some (b, s, h) \<longrightarrow> hold_key h \<le> hold_key h0"
      by (auto simp: newest_held_def)
    have key: "bare_outranks h h0 \<longleftrightarrow> hold_key h0 < hold_key h"
      by (rule bare_outranks_key) (use ok c e0 in blast)+
    show ?thesis
    proof (cases "bare_outranks h h0")
      case True
      with key have lt: "hold_key h0 < hold_key h" by simp
      from Some True c have t: "tr_held (load_entry u ov t e) b = Some h" "tr_bare (load_entry u ov t e) b = Some s"
        by (simp_all add: load_entry_bare)
      have "hold_key h' \<le> hold_key h" if "e' \<in> seen" "bare_claim u ov e' = Some (b, s', h')" for e' s' h'
      proof -
        from le that have "hold_key h' \<le> hold_key h0" by blast
        also note lt [THEN less_imp_le]
        finally show ?thesis .
      qed
      with c t show ?thesis by (auto simp: newest_held_def)
    next
      case False
      with key have "hold_key h \<le> hold_key h0" by simp
      moreover from Some False c have "tr_held (load_entry u ov t e) b = Some h0"
        "tr_bare (load_entry u ov t e) b = tr_bare t b"
        by (simp_all add: load_entry_bare)
      ultimately show ?thesis using c e0 le by (auto simp: newest_held_def)
    qed
  qed
qed

lemma load_tiers_newest:
  assumes "claims_ok u ov es"
  shows "newest_held u ov (set es) (load_tiers u ov es) b"
proof -
  have "newest_held u ov seen t b \<Longrightarrow>
      \<forall>e \<in> seen \<union> set xs. \<forall>b s h. bare_claim u ov e = Some (b, s, h) \<longrightarrow> version_ok (bh_version h) \<Longrightarrow>
      newest_held u ov (seen \<union> set xs) (foldl (load_entry u ov) t xs) b" for seen t xs
  proof (induction xs arbitrary: seen t)
    case (Cons e xs)
    have "newest_held u ov (insert e seen) (load_entry u ov t e) b"
    proof (rule newest_held_step [OF Cons.prems(1)])
      have "insert e seen \<subseteq> seen \<union> set (e # xs)" by auto
      with Cons.prems(2) show "\<forall>e' \<in> insert e seen. \<forall>b s h.
          bare_claim u ov e' = Some (b, s, h) \<longrightarrow> version_ok (bh_version h)" by blast
    qed
    from Cons.IH [OF this] Cons.prems(2) show ?case by simp
  qed simp
  moreover have "newest_held u ov {} empty_tiers b" by (simp add: newest_held_def empty_tiers_def)
  moreover from assms have "\<forall>e \<in> set es. \<forall>b s h. bare_claim u ov e = Some (b, s, h) \<longrightarrow> version_ok (bh_version h)"
    by (auto simp: claims_ok_def list_all_iff)
  ultimately have "newest_held u ov ({} \<union> set (sort_key ce_slug es))
      (foldl (load_entry u ov) empty_tiers (sort_key ce_slug es)) b"
    by (metis Un_empty_left set_sort)
  then show ?thesis by (simp add: load_tiers_def)
qed


definition demo_entries :: "catalog_entry list" where
  "demo_entries = [\<lparr>ce_slug = ''gpt-5.10-sol'', ce_priority = 0\<rparr>, \<lparr>ce_slug = ''gpt-5.6-sol'', ce_priority = 9\<rparr>]"

lemma demo_claims:
  "bare_claim u Map.empty \<lparr>ce_slug = ''gpt-5.10-sol'', ce_priority = 0\<rparr> =
     Some (''sol'', ''gpt-5.10-sol'', \<lparr>bh_version = ''5.10'', bh_priority = 0\<rparr>)"
  "bare_claim u Map.empty \<lparr>ce_slug = ''gpt-5.6-sol'', ce_priority = 9\<rparr> =
     Some (''sol'', ''gpt-5.6-sol'', \<lparr>bh_version = ''5.6'', bh_priority = 9\<rparr>)"
proof -
  have "to_lower u ''gpt-5.10-sol'' = ''gpt-5.10-sol''" "to_lower u ''gpt-5.6-sol'' = ''gpt-5.6-sol''"
    by (rule to_lower_lower_ascii, simp add: lower_ascii_def)+
  then show
    "bare_claim u Map.empty \<lparr>ce_slug = ''gpt-5.10-sol'', ce_priority = 0\<rparr> =
       Some (''sol'', ''gpt-5.10-sol'', \<lparr>bh_version = ''5.10'', bh_priority = 0\<rparr>)"
    "bare_claim u Map.empty \<lparr>ce_slug = ''gpt-5.6-sol'', ce_priority = 9\<rparr> =
       Some (''sol'', ''gpt-5.6-sol'', \<lparr>bh_version = ''5.6'', bh_priority = 9\<rparr>)"
    by (simp_all add: bare_claim_def parse_slug_def match_slug_def cut_prefix_def dec_digit_def
        tail_char_def modifiers_def bare_alias_def)
qed

lemma demo_atoi: "atoi ''5'' = Some 5" "atoi ''10'' = Some 10" "atoi ''6'' = Some 6"
  by (simp_all add: atoi_def digits_value_def dec_digit_def is_i64_def)

lemma demo_version_cmp: "version_cmp ''5.6'' ''5.10'' = -1" "version_cmp ''5.10'' ''5.6'' = 1"
  by (simp_all add: version_cmp_def segment_cmp_def demo_atoi)


lemma alias_list_set:
  assumes "registry_reach u r"
  shows "set (alias_list r) = tier_aliases TierRaw (rg_raw r) \<union> tier_aliases TierPinned (rg_pinned r) \<union>
           tier_aliases TierBare (rg_bare r)"
    and "sorted (alias_list r)" and "distinct (alias_list r)"
proof -
  have "finite (tier_aliases TierRaw (rg_raw r) \<union> tier_aliases TierPinned (rg_pinned r) \<union>
           tier_aliases TierBare (rg_bare r))"
    using registry_reach_inv [OF assms] by (simp add: tier_aliases_def registry_inv_def)
  then show "set (alias_list r) = tier_aliases TierRaw (rg_raw r) \<union> tier_aliases TierPinned (rg_pinned r) \<union>
           tier_aliases TierBare (rg_bare r)"
    and "sorted (alias_list r)" and "distinct (alias_list r)"
    by (simp_all add: alias_list_def)
qed

lemma in_tier_aliases: "(s, t, n) \<in> tier_aliases t' m \<longleftrightarrow> t = t' \<and> m n = Some s"
  by (force simp: tier_aliases_def image_iff)

lemma alias_listed:
  "registry_reach u r \<Longrightarrow> (s, t, n) \<in> set (alias_list r) \<longleftrightarrow>
     t = TierRaw \<and> rg_raw r n = Some s \<or> t = TierPinned \<and> rg_pinned r n = Some s \<or>
     t = TierBare \<and> rg_bare r n = Some s"
  by (simp add: alias_list_set in_tier_aliases)

lemma alias_names:
  assumes "registry_reach u r"
  shows "n \<in> (\<lambda>(s, t, n). n) ` set (alias_list r) \<longleftrightarrow> resolve r n \<noteq> None"
proof -
  have "n \<in> (\<lambda>(s, t, n). n) ` set (alias_list r) \<longleftrightarrow> (\<exists>s t. (s, t, n) \<in> set (alias_list r))"
    by force
  also have "\<dots> \<longleftrightarrow> resolve r n \<noteq> None"
    by (simp add: alias_listed [OF assms] resolve_def split: option.split) blast
  finally show ?thesis .
qed

text \<open>
  Discovery advertises from a complete and sound list. A name resolves exactly if
  the alias list has it, the slug that it resolves to is one that the list gives for it,
  and the list is sorted by slug, tier and name without repetition.
\<close>

theorem alias_list_complete:
  assumes "registry_reach u r"
  shows "(resolve r name \<noteq> None \<longleftrightarrow> name \<in> (\<lambda>(s, t, n). n) ` set (alias_list r)) \<and>
    (case resolve r name of None \<Rightarrow> True | Some s \<Rightarrow> \<exists>t. (s, t, name) \<in> set (alias_list r)) \<and>
    sorted (alias_list r) \<and> distinct (alias_list r)"
proof -
  have "case resolve r name of None \<Rightarrow> True | Some s \<Rightarrow> \<exists>t. (s, t, name) \<in> set (alias_list r)"
    by (simp add: alias_listed [OF assms] resolve_def split: option.split) blast
  with alias_names [OF assms, of name] alias_list_set [OF assms] show ?thesis by blast
qed

theorem alias_list_complete_witness:
  "''sol'' \<in> (\<lambda>(s, t, n). n) ` set (alias_list (static_registry (\<lambda>s. s))) \<longleftrightarrow>
   resolve (static_registry (\<lambda>s. s)) ''sol'' \<noteq> None"
proof -
  have "registry_reach (\<lambda>s. s) (static_registry (\<lambda>s. s))"
    unfolding static_registry_def by (intro reach_static reach_new)
  from alias_list_complete [OF this, of "''sol''"] show ?thesis by blast
qed

end
