(* ===== verification/Resolve.thy ===== *)
theory Resolve
  imports Registry Apierr
begin

text \<open>
  \<^verbatim>\<open>internal/router/resolve.go\<close> and the \<^verbatim>\<open>Decision\<close> of \<^verbatim>\<open>internal/router/types.go\<close>: from the
  model name of a request to a routing decision. The tiers are consulted in the order of
  the code: the advertised ids, the \<^verbatim>\<open>anthropic-compat.\<close> namespace, the Anthropic names,
  the closed DeepSeek catalog, the Codex aliases, and the \<^verbatim>\<open>gpt-\<close> fallback.
\<close>

section \<open>Decisions\<close>

record decision =
  dc_backend :: leg_id
  dc_upstream :: string
  dc_client :: string
  dc_effort :: level
  dc_source :: effort_source

definition with_body_effort :: "(string \<Rightarrow> string) \<Rightarrow> string \<Rightarrow> decision \<Rightarrow> decision" where
  "with_body_effort u raw d =
     (if dc_backend d \<noteq> Codex \<and> dc_backend d \<noteq> DeepSeek then d
      else if dc_source d = SourceSuffix \<and> dc_effort d \<noteq> [] then d
      else case parse_level u raw of
             None \<Rightarrow> d
           | Some l \<Rightarrow> d\<lparr>dc_effort := l, dc_source := SourceBody\<rparr>)"

section \<open>Names\<close>

definition anthropic_prefixes :: "string list" where
  "anthropic_prefixes = [''opus'', ''sonnet'', ''haiku'', ''fable'']"

definition is_anthropic_name :: "string \<Rightarrow> bool" where
  "is_anthropic_name lower \<longleftrightarrow>
     (if prefix ''claude'' lower \<or> prefix ''anthropic'' lower then True
      else list_ex (\<lambda>f. prefix f lower) anthropic_prefixes)"

definition anthropic_compat_prefix :: string where
  "anthropic_compat_prefix = ''anthropic-compat.''"

text \<open>The base and the level; \<^const>\<open>None\<close> where the code returns \<open>ok = false\<close>.\<close>

definition parse_effort_suffix :: "string \<Rightarrow> (string \<times> level) option" where
  "parse_effort_suffix name =
     (if CHR ''-'' \<notin> set name then None
      else
        let suffix = rev (takeWhile (\<lambda>c. c \<noteq> CHR ''-'') (rev name)) in
        if \<not> known_level suffix then None
        else Some (take (length name - length suffix - 1) name, suffix))"

section \<open>The tiers\<close>

definition resolve_deepseek :: "string \<Rightarrow> string \<Rightarrow> decision option" where
  "resolve_deepseek lower client =
     (case canonical lower of
        None \<Rightarrow> None
      | Some up \<Rightarrow> Some \<lparr>dc_backend = DeepSeek, dc_upstream = up, dc_client = client,
                        dc_effort = [], dc_source = SourceNone\<rparr>)"

definition resolve_gpt_slug :: "string \<Rightarrow> string \<Rightarrow> decision option" where
  "resolve_gpt_slug lower client =
     (if \<not> prefix ''gpt-'' lower then None
      else Some (case parse_effort_suffix lower of
          None \<Rightarrow> \<lparr>dc_backend = Codex, dc_upstream = lower, dc_client = client,
                   dc_effort = [], dc_source = SourceNone\<rparr>
        | Some (base, l) \<Rightarrow> \<lparr>dc_backend = Codex, dc_upstream = base, dc_client = client,
                             dc_effort = l, dc_source = SourceSuffix\<rparr>))"

definition resolve_picker :: "registry \<Rightarrow> string \<Rightarrow> string \<Rightarrow> decision option" where
  "resolve_picker reg lower client =
     (case the_picker_route reg lower of
        None \<Rightarrow> None
      | Some route \<Rightarrow>
          Some \<lparr>dc_backend = pr_backend route,
                dc_upstream = (if pr_backend route = Anthropic then [] else pr_upstream route),
                dc_client = client, dc_effort = pr_effort route,
                dc_source = (if pr_effort route \<noteq> [] then SourceSuffix else SourceNone)\<rparr>)"

definition resolve_codex :: "registry \<Rightarrow> string \<Rightarrow> string \<Rightarrow> decision option" where
  "resolve_codex reg lower client =
     (case resolve reg lower of
        Some up \<Rightarrow> Some \<lparr>dc_backend = Codex, dc_upstream = up, dc_client = client,
                         dc_effort = [], dc_source = SourceNone\<rparr>
      | None \<Rightarrow>
          (case parse_effort_suffix lower of
             None \<Rightarrow> None
           | Some (base, l) \<Rightarrow>
               (case resolve reg base of
                  None \<Rightarrow> None
                | Some up \<Rightarrow> Some \<lparr>dc_backend = Codex, dc_upstream = up, dc_client = client,
                                   dc_effort = l, dc_source = SourceSuffix\<rparr>)))"

definition unknown_model_error :: "(string \<Rightarrow> string) \<Rightarrow> registry \<Rightarrow> string \<Rightarrow> go_error" where
  "unknown_model_error q reg model =
     new_error TypeNotFound
       (''model '' @ go_quote q model @ '' not recognised; accepted model names: '' @
        join_with '', '' ([''claude-*'', ''anthropic-*''] @ map dm_id ds_models @ [''gpt-*''] @
          bare_aliases reg))"

text \<open>The first tier that answers.\<close>

fun first_some :: "'a option list \<Rightarrow> 'a option" where
  "first_some [] = None"
| "first_some (x # xs) = (case x of Some d \<Rightarrow> Some d | None \<Rightarrow> first_some xs)"

definition resolve_tiers :: "registry \<Rightarrow> string \<Rightarrow> string \<Rightarrow> decision option" where
  "resolve_tiers reg lower client =
     (if lower = [] then None
      else case resolve_picker reg lower client of
        Some d \<Rightarrow> Some d
      | None \<Rightarrow>
          (case cut_prefix anthropic_compat_prefix lower of
             Some rest \<Rightarrow>
               first_some [resolve_deepseek rest client, resolve_codex reg rest client,
                           resolve_gpt_slug rest client]
           | None \<Rightarrow>
               if is_anthropic_name lower then
                 Some \<lparr>dc_backend = Anthropic, dc_upstream = [], dc_client = client,
                       dc_effort = [], dc_source = SourceNone\<rparr>
               else
                 first_some [resolve_deepseek lower client, resolve_codex reg lower client,
                             resolve_gpt_slug lower client]))"

text \<open>\<open>def\<close> is the process-wide \<^verbatim>\<open>DefaultRegistry\<close>, used when no registry is given.\<close>

definition resolve_with ::
  "(string \<Rightarrow> string) \<Rightarrow> (string \<Rightarrow> string) \<Rightarrow> registry \<Rightarrow> registry option \<Rightarrow> string \<Rightarrow> string \<Rightarrow>
   go_error + decision" where
  "resolve_with u q def reg model beta =
     (let reg = (case reg of None \<Rightarrow> def | Some r \<Rightarrow> r);
          trimmed = trim_space model
      in case resolve_tiers reg (to_lower u trimmed) trimmed of
           Some d \<Rightarrow> Inr d
         | None \<Rightarrow> Inl (unknown_model_error q reg trimmed))"

section \<open>Suffixes\<close>

lemma known_level_no_hyphen: "known_level l \<Longrightarrow> CHR ''-'' \<notin> set l"
  by (auto simp: known_level_iff level_defs)

lemma takeWhile_to: "c \<notin> set ys \<Longrightarrow> takeWhile (\<lambda>x. x \<noteq> c) (ys @ c # zs) = ys"
  by (induction ys) auto

lemma takeWhile_rev_suffix:
  "c \<notin> set l \<Longrightarrow> rev (takeWhile (\<lambda>x. x \<noteq> c) (rev (b @ c # l))) = l"
  by (simp add: takeWhile_to)

lemma parse_effort_suffix_append:
  "known_level l \<Longrightarrow> parse_effort_suffix (base @ ''-'' @ l) = Some (base, l)"
  using takeWhile_rev_suffix [of "CHR ''-''" l base] known_level_no_hyphen [of l]
  by (simp add: parse_effort_suffix_def)

lemma parse_effort_suffix_Some:
  assumes "parse_effort_suffix name = Some (base, l)"
  shows "known_level l \<and> name = base @ ''-'' @ l"
proof -
  from assms have h: "CHR ''-'' \<in> set name" and l: "known_level l"
    and s: "l = rev (takeWhile (\<lambda>c. c \<noteq> CHR ''-'') (rev name))"
    and b: "base = take (length name - length l - 1) name"
    by (auto simp: parse_effort_suffix_def Let_def split: if_splits)
  from h obtain ys zs where "rev name = ys @ CHR ''-'' # zs" "CHR ''-'' \<notin> set ys"
    by (metis set_rev split_list_first)
  then have "name = rev zs @ CHR ''-'' # rev ys" "l = rev ys"
    using s rev_rev_ident [of name] by (simp_all add: takeWhile_to)
  with l b show ?thesis by simp
qed

section \<open>Properties\<close>

lemma first_some_cases: "first_some xs = Some d \<Longrightarrow> Some d \<in> set xs"
  by (induction xs) (auto split: option.splits)

definition decision_ok :: "string \<Rightarrow> decision \<Rightarrow> bool" where
  "decision_ok client d \<longleftrightarrow>
     valid_leg (dc_backend d) \<and> dc_client d = client \<and>
     (dc_backend d = Anthropic \<longrightarrow> dc_upstream d = []) \<and>
     (dc_effort d = [] \<longleftrightarrow> dc_source d = SourceNone)"

lemma resolve_parts_ok:
  "resolve_deepseek l c = Some d \<Longrightarrow> decision_ok c d \<and> dc_source d = SourceNone"
  "resolve_gpt_slug l c = Some d \<Longrightarrow> decision_ok c d \<and> dc_source d \<in> {SourceSuffix, SourceNone}"
  "resolve_codex reg l c = Some d \<Longrightarrow> decision_ok c d \<and> dc_source d \<in> {SourceSuffix, SourceNone}"
  using known_level_nonempty
  by (auto simp: resolve_deepseek_def resolve_gpt_slug_def resolve_codex_def decision_ok_def valid_leg_def
      split: option.splits if_splits dest!: parse_effort_suffix_Some)

lemma resolve_picker_ok:
  assumes "registry_reach u reg" "resolve_picker reg l c = Some d"
  shows "decision_ok c d \<and> dc_source d \<in> {SourceSuffix, SourceNone}"
proof -
  from assms(2) obtain route where r: "rg_picker reg l = Some route"
    by (auto simp: resolve_picker_def the_picker_route_def split: option.splits)
  with registry_reach_inv [OF assms(1)] have "valid_leg (pr_backend route)"
    by (auto simp: registry_inv_def picker_ok_def graph_def)
  with assms(2) r show ?thesis
    by (cases "pr_effort route = []") (auto simp: resolve_picker_def the_picker_route_def decision_ok_def)
qed

lemma resolve_tiers_cases:
  assumes "resolve_tiers reg lower c = Some d"
  shows "resolve_picker reg lower c = Some d \<or>
    resolve_picker reg lower c = None \<and>
      (case cut_prefix anthropic_compat_prefix lower of
         Some rest \<Rightarrow> resolve_deepseek rest c = Some d \<or> resolve_codex reg rest c = Some d \<or>
                      resolve_gpt_slug rest c = Some d
       | None \<Rightarrow>
           is_anthropic_name lower \<and> d = \<lparr>dc_backend = Anthropic, dc_upstream = [], dc_client = c,
               dc_effort = [], dc_source = SourceNone\<rparr> \<or>
           \<not> is_anthropic_name lower \<and>
             (resolve_deepseek lower c = Some d \<or> resolve_codex reg lower c = Some d \<or>
              resolve_gpt_slug lower c = Some d))"
  using assms by (auto simp: resolve_tiers_def split: option.splits if_splits)

text \<open>
  Property (C8): every decision is well formed: it names one of the three legs, carries the trimmed
  model name of the client, no upstream model for the Anthropic leg, and an effort
  exactly when it says where the effort came from, which at this stage is a suffix. A
  name that no tier knows is a 404.
\<close>

theorem resolve_with_sound:
  assumes "registry_reach u (case reg of None \<Rightarrow> def | Some r \<Rightarrow> r)"
  shows "case resolve_with u q def reg model beta of
      Inl e \<Rightarrow> http_status (Some e) = 404 \<and> ae_type e = TypeNotFound
    | Inr d \<Rightarrow> decision_ok (trim_space model) d \<and> dc_source d \<in> {SourceSuffix, SourceNone}"
proof -
  let ?r = "case reg of None \<Rightarrow> def | Some r \<Rightarrow> r"
  show ?thesis
  proof (cases "resolve_tiers ?r (to_lower u (trim_space model)) (trim_space model)")
    case None
    then show ?thesis
      by (simp add: resolve_with_def Let_def unknown_model_error_def new_error_def status_for_def
          error_type_defs)
  next
    case (Some d)
    have "decision_ok (trim_space model) d \<and> dc_source d \<in> {SourceSuffix, SourceNone}"
      using resolve_tiers_cases [OF Some] resolve_picker_ok [OF assms] resolve_parts_ok
      by (fastforce split: option.splits simp: decision_ok_def valid_leg_def)
    with Some show ?thesis by (simp add: resolve_with_def Let_def)
  qed
qed

text \<open>
  No typo reaches DeepSeek. Unless discovery advertised the very id, a request is
  sent to DeepSeek only if its name, perhaps in the compat namespace, is an id or a
  retired alias of the closed catalog, and the model asked for is the canonical id.
\<close>

theorem deepseek_only_listed:
  assumes "resolve_with u q def (Some r) model beta = Inr d" and "dc_backend d = DeepSeek"
    and "the_picker_route r (to_lower u (trim_space model)) = None"
  shows "\<exists>name. canonical name = Some (dc_upstream d) \<and> dc_effort d = [] \<and>
    to_lower u (trim_space model) \<in> {name, anthropic_compat_prefix @ name}"
proof -
  let ?l = "to_lower u (trim_space model)"
  from assms(1) have "resolve_tiers r ?l (trim_space model) = Some d"
    by (auto simp: resolve_with_def Let_def split: option.splits)
  from resolve_tiers_cases [OF this] assms(2,3)
  have ds: "resolve_deepseek name (trim_space model) = Some d \<Longrightarrow>
      canonical name = Some (dc_upstream d) \<and> dc_effort d = []" for name
    by (auto simp: resolve_deepseek_def split: option.splits)
  have other: "resolve_codex r name c \<noteq> Some d" "resolve_gpt_slug name c \<noteq> Some d" for name c
    using assms(2) by (auto simp: resolve_codex_def resolve_gpt_slug_def split: option.splits)
  have p: "resolve_picker r ?l (trim_space model) = None"
    using assms(3) by (simp add: resolve_picker_def)
  show ?thesis
  proof (cases "cut_prefix anthropic_compat_prefix ?l")
    case None
    with \<open>resolve_tiers r ?l (trim_space model) = Some d\<close> [THEN resolve_tiers_cases] p other assms(2)
    have "resolve_deepseek ?l (trim_space model) = Some d" by auto
    with ds show ?thesis by blast
  next
    case (Some rest)
    with \<open>resolve_tiers r ?l (trim_space model) = Some d\<close> [THEN resolve_tiers_cases] p other
    have "resolve_deepseek rest (trim_space model) = Some d" by auto
    moreover from Some have "?l = anthropic_compat_prefix @ rest" by (simp add: cut_prefix_Some)
    ultimately show ?thesis using ds by blast
  qed
qed

text \<open>Names that arrive as they are written: visible ASCII without upper-case letters.\<close>

definition plain_name :: "string \<Rightarrow> bool" where
  "plain_name n \<longleftrightarrow> n \<noteq> [] \<and> list_all graphic n \<and> lower_ascii n"

lemma plain_name_read: "plain_name n \<Longrightarrow> trim_space n = n \<and> to_lower u n = n \<and> n \<noteq> []"
  by (simp add: plain_name_def trim_space_graphic to_lower_lower_ascii)

lemma plain_name_append: "plain_name a \<Longrightarrow> plain_name b \<Longrightarrow> plain_name (a @ b)"
  by (simp add: plain_name_def lower_ascii_def)

lemma compat_not_anthropic: "cut_prefix anthropic_compat_prefix (anthropic_compat_prefix @ n) = Some n"
  by (rule cut_prefix_append)

lemma resolve_codex_alias:
  "resolve r n = Some s \<Longrightarrow>
   resolve_codex r n c = Some \<lparr>dc_backend = Codex, dc_upstream = s, dc_client = c, dc_effort = [], dc_source = SourceNone\<rparr>"
  by (simp add: resolve_codex_def)

text \<open>
  Property (C13): an advertised name is routable. Every name of the alias list that is written in
  visible lower-case ASCII, outside the compat namespace, is accepted as a model name, and its picker variant in the
  \<^verbatim>\<open>anthropic-compat.\<close> namespace goes to the Codex leg with the slug that the alias
  stands for, never to the Anthropic leg, unless discovery registered that variant
  otherwise or the name is a DeepSeek one.
\<close>

theorem advertised_alias_routable:
  assumes "registry_reach u r" and "(s, t, n) \<in> set (alias_list r)" and "plain_name n"
    and "\<not> prefix anthropic_compat_prefix n"
  shows "(\<exists>d. resolve_with u q def (Some r) n beta = Inr d) \<and>
    (if the_picker_route r (anthropic_compat_prefix @ n) = None \<and> canonical n = None
     then \<exists>up. resolve r n = Some up \<and>
       resolve_with u q def (Some r) (anthropic_compat_prefix @ n) beta =
         Inr \<lparr>dc_backend = Codex, dc_upstream = up, dc_client = anthropic_compat_prefix @ n,
              dc_effort = [], dc_source = SourceNone\<rparr>
     else True)"
proof -
  from assms(2) have "n \<in> (\<lambda>(s, t, n). n) ` set (alias_list r)" by force
  then obtain up where up: "resolve r n = Some up" using alias_names [OF assms(1)] by auto
  have "plain_name anthropic_compat_prefix"
    by (simp add: plain_name_def anthropic_compat_prefix_def graphic_def lower_ascii_def)
  with assms(3) have c: "plain_name (anthropic_compat_prefix @ n)" by (rule plain_name_append [rotated])
  have "\<exists>d. resolve_tiers r n n = Some d"
    using plain_name_read [OF assms(3)] assms(4)
    by (auto simp: resolve_tiers_def resolve_codex_alias [OF up] cut_prefix_def split: option.split)
  then have "\<exists>d. resolve_with u q def (Some r) n beta = Inr d"
    using plain_name_read [OF assms(3)] by (auto simp: resolve_with_def Let_def)
  moreover have "resolve_with u q def (Some r) (anthropic_compat_prefix @ n) beta =
         Inr \<lparr>dc_backend = Codex, dc_upstream = up, dc_client = anthropic_compat_prefix @ n,
              dc_effort = [], dc_source = SourceNone\<rparr>"
    if "the_picker_route r (anthropic_compat_prefix @ n) = None" "canonical n = None"
    using plain_name_read [OF c] that up
    by (simp add: resolve_with_def resolve_tiers_def Let_def resolve_picker_def compat_not_anthropic
        resolve_deepseek_def resolve_codex_alias)
  ultimately show ?thesis using up by auto
qed

text \<open>
  Property (C18): an effort suffix changes only the effort. If a name and the same name with a
  known level appended are both left to the Codex tier, and the registry knows the
  first and not the second, then both go to the same upstream model, and the second
  carries the level at suffix precedence. If the registry knows the second too, it is
  a model of its own and is not split.
\<close>

definition codex_name :: "registry \<Rightarrow> string \<Rightarrow> bool" where
  "codex_name r n \<longleftrightarrow> plain_name n \<and> the_picker_route r n = None \<and> canonical n = None \<and>
     \<not> is_anthropic_name n"

lemma codex_name_tiers:
  assumes "codex_name r n"
  shows "resolve_tiers r n c = first_some [resolve_codex r n c, resolve_gpt_slug n c]"
proof -
  have "\<not> prefix anthropic_compat_prefix n"
    using assms by (auto simp: codex_name_def is_anthropic_name_def anthropic_compat_prefix_def prefix_def split: if_splits)
  with assms show ?thesis
    by (simp add: resolve_tiers_def codex_name_def plain_name_def resolve_picker_def resolve_deepseek_def
        cut_prefix_def split: option.split)
qed

theorem effort_suffix_only_adds_effort:
  assumes "known_level l" and "codex_name r base" and "codex_name r (base @ ''-'' @ l)"
    and "resolve r base = Some s"
  shows "resolve_with u q def (Some r) (base @ ''-'' @ l) beta =
    (case resolve r (base @ ''-'' @ l) of
       None \<Rightarrow> (case resolve_with u q def (Some r) base beta of
           Inl e \<Rightarrow> Inl e
         | Inr d \<Rightarrow> Inr (d\<lparr>dc_client := base @ ''-'' @ l, dc_effort := l, dc_source := SourceSuffix\<rparr>))
     | Some s' \<Rightarrow> Inr \<lparr>dc_backend = Codex, dc_upstream = s', dc_client = base @ ''-'' @ l,
                      dc_effort = [], dc_source = SourceNone\<rparr>)"
proof -
  let ?n = "base @ ''-'' @ l"
  have n: "trim_space ?n = ?n" "to_lower u ?n = ?n" "trim_space base = base" "to_lower u base = base"
    using assms(2,3) plain_name_read unfolding codex_name_def by blast+
  have "resolve_tiers r base base =
      Some \<lparr>dc_backend = Codex, dc_upstream = s, dc_client = base, dc_effort = [], dc_source = SourceNone\<rparr>"
    using codex_name_tiers [OF assms(2)] assms(4) by (simp add: resolve_codex_def)
  moreover have "resolve_tiers r ?n ?n =
      (case resolve r ?n of
         None \<Rightarrow> Some \<lparr>dc_backend = Codex, dc_upstream = s, dc_client = ?n, dc_effort = l, dc_source = SourceSuffix\<rparr>
       | Some s' \<Rightarrow> Some \<lparr>dc_backend = Codex, dc_upstream = s', dc_client = ?n, dc_effort = [], dc_source = SourceNone\<rparr>)"
    using codex_name_tiers [OF assms(3)] parse_effort_suffix_append [OF assms(1), of base] assms(4)
    by (simp add: resolve_codex_def split: option.split)
  ultimately show ?thesis
    using n by (simp add: resolve_with_def Let_def split: option.split)
qed

text \<open>
  The effort of the body never overrides an explicit suffix, never touches a
  decision for the Anthropic leg, and is ignored when it names no level; folding it in
  twice is folding it in once, and a well-formed decision stays well formed.
\<close>

theorem body_effort_precedence:
  "let d' = with_body_effort u raw d in
   (if dc_backend d \<in> {Codex, DeepSeek} \<and> \<not> (dc_source d = SourceSuffix \<and> dc_effort d \<noteq> []) \<and>
       parse_level u raw \<noteq> None
    then dc_source d' = SourceBody \<and> dc_effort d' \<in> set levels \<and>
         d'\<lparr>dc_effort := dc_effort d, dc_source := dc_source d\<rparr> = d
    else d' = d) \<and>
   with_body_effort u raw d' = d' \<and>
   (if decision_ok c d then decision_ok c d' else True)"
proof -
  have k: "parse_level u raw = Some l \<Longrightarrow> known_level l" for l
    by (auto simp: parse_level_def Let_def split: if_splits)
  show ?thesis
    by (cases d) (auto simp: with_body_effort_def Let_def decision_ok_def known_level_iff [symmetric]
        dest: k k [THEN known_level_nonempty] split: option.split if_splits)
qed

section \<open>Concrete requests\<close>

definition demo_registry :: registry where
  "demo_registry = load_catalog (\<lambda>s. s) demo_entries new_registry"

lemma demo_reach: "registry_reach (\<lambda>s. s) demo_registry"
  unfolding demo_registry_def by (intro reach_catalog reach_new)

lemma demo_lower:
  "to_lower u ''gpt-5.10-sol'' = ''gpt-5.10-sol''" "to_lower u ''gpt-5.6-sol'' = ''gpt-5.6-sol''"
  by (rule to_lower_lower_ascii, simp add: lower_ascii_def)+

lemma demo_tiers:
  "rg_raw demo_registry = [''gpt-5.6-sol'' \<mapsto> ''gpt-5.6-sol'', ''gpt-5.10-sol'' \<mapsto> ''gpt-5.10-sol'']"
  "rg_pinned demo_registry = [''sol-5.6'' \<mapsto> ''gpt-5.6-sol'', ''sol-5.10'' \<mapsto> ''gpt-5.10-sol'']"
  "rg_bare demo_registry = [''sol'' \<mapsto> ''gpt-5.10-sol'']" "rg_picker demo_registry = Map.empty"
  by (auto simp: demo_registry_def load_catalog_def load_tiers_def demo_entries_def new_registry_def
      load_entry_def demo_lower empty_tiers_def parse_slug_def match_slug_def cut_prefix_def dec_digit_def
      tail_char_def modifiers_def bare_alias_def pinned_alias_def take_bare_def bare_outranks_def
      demo_version_cmp Let_def)

lemmas resolve_defs =
  resolve_with_def resolve_tiers_def resolve_picker_def the_picker_route_def resolve_deepseek_def
  resolve_codex_def resolve_gpt_slug_def resolve_def is_anthropic_name_def anthropic_prefixes_def
  anthropic_compat_prefix_def cut_prefix_def canonical_def ds_lookup_def ds_catalog_def Let_def

lemma demo_plain: "plain_name ''sol''" "plain_name ''sol-high''" "plain_name ''deepseek-v4-flash''"
  by (simp_all add: plain_name_def graphic_def lower_ascii_def)

lemmas demo_read = demo_plain [THEN plain_name_read]

lemma known_high: "known_level ''high''"
  by (simp add: known_level_iff level_defs)

theorem resolve_with_sound_witness:
  "\<exists>d. resolve_with (\<lambda>s. s) (\<lambda>s. s) demo_registry None ''sol'' [] = Inr d \<and> decision_ok ''sol'' d"
proof -
  have reach: "registry_reach (\<lambda>s. s) (case None of None \<Rightarrow> demo_registry | Some r \<Rightarrow> r)"
    by (simp add: demo_reach)
  have "\<exists>d. resolve_with (\<lambda>s. s) (\<lambda>s. s) demo_registry None ''sol'' [] = Inr d"
    by (simp add: resolve_defs demo_read demo_tiers)
  with resolve_with_sound [OF reach, where q = "\<lambda>s. s" and model = "''sol''" and beta = "[]"] show ?thesis
    by (auto simp: demo_read)
qed

theorem deepseek_only_listed_witness:
  "\<exists>d name. resolve_with (\<lambda>s. s) (\<lambda>s. s) demo_registry (Some demo_registry) ''deepseek-v4-flash'' [] = Inr d \<and>
     canonical name = Some (dc_upstream d)"
proof -
  let ?d = "\<lparr>dc_backend = DeepSeek, dc_upstream = ''deepseek-flash'', dc_client = ''deepseek-v4-flash'',
             dc_effort = [], dc_source = SourceNone\<rparr>"
  have r: "resolve_with (\<lambda>s. s) (\<lambda>s. s) demo_registry (Some demo_registry) ''deepseek-v4-flash'' [] = Inr ?d"
    by (simp add: resolve_defs demo_read demo_tiers)
  have "the_picker_route demo_registry (to_lower (\<lambda>s. s) (trim_space ''deepseek-v4-flash'')) = None"
    by (simp add: the_picker_route_def demo_tiers)
  from deepseek_only_listed [OF r _ this] r show ?thesis by auto
qed

theorem advertised_alias_routable_witness:
  "\<exists>d. resolve_with (\<lambda>s. s) (\<lambda>s. s) demo_registry (Some demo_registry) ''sol'' [] = Inr d"
proof -
  have l: "(''gpt-5.10-sol'', TierBare, ''sol'') \<in> set (alias_list demo_registry)"
    by (simp add: alias_listed [OF demo_reach] demo_tiers)
  have "\<not> prefix anthropic_compat_prefix ''sol''" by (simp add: anthropic_compat_prefix_def)
  from advertised_alias_routable [OF demo_reach l demo_plain(1) this] show ?thesis by blast
qed

theorem effort_suffix_only_adds_effort_witness:
  "resolve_with (\<lambda>s. s) (\<lambda>s. s) demo_registry (Some demo_registry) (''sol'' @ ''-'' @ ''high'') [] =
   Inr \<lparr>dc_backend = Codex, dc_upstream = ''gpt-5.10-sol'', dc_client = ''sol-high'',
        dc_effort = ''high'', dc_source = SourceSuffix\<rparr>"
proof -
  have c: "codex_name demo_registry ''sol''" "codex_name demo_registry (''sol'' @ ''-'' @ ''high'')"
    using demo_plain by (simp_all add: codex_name_def resolve_defs demo_tiers)
  have s: "resolve demo_registry ''sol'' = Some ''gpt-5.10-sol''" by (simp add: resolve_def demo_tiers)
  have n: "resolve demo_registry (''sol'' @ ''-'' @ ''high'') = None" by (simp add: resolve_def demo_tiers)
  have "resolve_with (\<lambda>s. s) (\<lambda>s. s) demo_registry (Some demo_registry) ''sol'' [] =
      Inr \<lparr>dc_backend = Codex, dc_upstream = ''gpt-5.10-sol'', dc_client = ''sol'', dc_effort = [], dc_source = SourceNone\<rparr>"
    by (simp add: resolve_defs demo_read demo_tiers)
  with effort_suffix_only_adds_effort [OF known_high c s, where u = "\<lambda>s. s" and q = "\<lambda>s. s"
      and def = demo_registry and beta = "[]"] n
  show ?thesis by simp
qed

end
