(* ===== verification/Idle.thy ===== *)
theory Idle
  imports Main
begin

text \<open>
  \<^verbatim>\<open>internal/idle/idle.go\<close>: the inactivity timer. The mutex makes each method atomic, so a
  concurrent history is a sequence of steps. The runtime timer of Go is part of the
  world: it is armed with a deadline or not, and when the deadline has passed it starts
  a goroutine that will call \<^verbatim>\<open>expire\<close> at some later moment. Every schedule of clock,
  timer, goroutines and callers is a run of the step relation. Times are nanoseconds of
  the monotonic clock, which a process cannot exhaust.
\<close>

section \<open>State\<close>

record timer =
  tm_timeout :: int
  tm_last :: int
  tm_inflight :: nat
  tm_created :: bool                \<comment> \<open>the field \<open>timer\<close> is not nil\<close>
  tm_started :: bool
  tm_stopped :: bool
  tm_fired :: bool

record idle_world =
  iw_timer :: timer
  iw_now :: int
  iw_armed :: "int option"          \<comment> \<open>deadline of the runtime timer\<close>
  iw_pending :: nat                 \<comment> \<open>goroutines that have yet to run \<open>expire\<close>\<close>
  iw_next :: nat                    \<comment> \<open>the next hold\<close>
  iw_open :: "nat set"              \<comment> \<open>holds whose release has not run\<close>
  iw_callbacks :: nat               \<comment> \<open>calls of \<open>onIdle\<close>\<close>

text \<open>\<^verbatim>\<open>New\<close> with a callback, at the time \<open>now\<close>.\<close>

definition new_timer :: "int \<Rightarrow> int \<Rightarrow> idle_world" where
  "new_timer timeout now =
     \<lparr>iw_timer = \<lparr>tm_timeout = timeout, tm_last = now, tm_inflight = 0, tm_created = False,
                   tm_started = False, tm_stopped = False, tm_fired = False\<rparr>,
      iw_now = now, iw_armed = None, iw_pending = 0, iw_next = 0, iw_open = {}, iw_callbacks = 0\<rparr>"

definition enabled :: "timer \<Rightarrow> bool" where
  "enabled t \<longleftrightarrow> 0 < tm_timeout t"

section \<open>Methods\<close>

text \<open>\<^verbatim>\<open>Reset\<close> and \<^verbatim>\<open>AfterFunc\<close> arm the runtime timer.\<close>

definition arm :: "int \<Rightarrow> idle_world \<Rightarrow> idle_world" where
  "arm d w = w\<lparr>iw_armed := Some (iw_now w + d)\<rparr>"

definition start :: "idle_world \<Rightarrow> idle_world" where
  "start w =
     (let t = iw_timer w in
      if \<not> enabled t \<or> tm_started t \<or> tm_stopped t then w
      else arm (tm_timeout t)
             (w\<lparr>iw_timer := t\<lparr>tm_started := True, tm_last := iw_now w, tm_created := True\<rparr>\<rparr>))"

definition touch :: "idle_world \<Rightarrow> idle_world" where
  "touch w =
     (if enabled (iw_timer w) then w\<lparr>iw_timer := (iw_timer w)\<lparr>tm_last := iw_now w\<rparr>\<rparr> else w)"

definition hold :: "idle_world \<Rightarrow> idle_world" where
  "hold w =
     (let t = iw_timer w in
      if \<not> enabled t then w
      else w\<lparr>iw_timer := t\<lparr>tm_inflight := tm_inflight t + 1, tm_last := iw_now w\<rparr>,
             iw_open := insert (iw_next w) (iw_open w), iw_next := iw_next w + 1\<rparr>)"

text \<open>The release of hold \<open>h\<close>; the \<^verbatim>\<open>sync.Once\<close> lets only the first call through.\<close>

definition release :: "nat \<Rightarrow> idle_world \<Rightarrow> idle_world" where
  "release h w =
     (let t = iw_timer w in
      if h \<notin> iw_open w then w
      else w\<lparr>iw_timer := t\<lparr>tm_inflight := (if 0 < tm_inflight t then tm_inflight t - 1 else tm_inflight t),
                            tm_last := iw_now w\<rparr>,
             iw_open := iw_open w - {h}\<rparr>)"

definition stop :: "idle_world \<Rightarrow> idle_world" where
  "stop w =
     (let t = iw_timer w in
      w\<lparr>iw_timer := t\<lparr>tm_stopped := True\<rparr>,
        iw_armed := (if tm_created t then None else iw_armed w)\<rparr>)"

definition expire :: "idle_world \<Rightarrow> idle_world" where
  "expire w =
     (let t = iw_timer w; w = w\<lparr>iw_pending := iw_pending w - 1\<rparr>; elapsed = iw_now w - tm_last t in
      if tm_stopped t \<or> tm_fired t then w
      else if 0 < tm_inflight t then arm (tm_timeout t) w
      else if elapsed < tm_timeout t then arm (tm_timeout t - elapsed) w
      else w\<lparr>iw_timer := t\<lparr>tm_fired := True\<rparr>, iw_callbacks := iw_callbacks w + 1\<rparr>)"

section \<open>The step relation\<close>

inductive idle_step :: "idle_world \<Rightarrow> idle_world \<Rightarrow> bool" where
  tick: "iw_now w \<le> n \<Longrightarrow> idle_step w (w\<lparr>iw_now := n\<rparr>)"
| ring: "iw_armed w = Some d \<Longrightarrow> d \<le> iw_now w \<Longrightarrow>
         idle_step w (w\<lparr>iw_armed := None, iw_pending := iw_pending w + 1\<rparr>)"
| run_expire: "0 < iw_pending w \<Longrightarrow> idle_step w (expire w)"
| call_start: "idle_step w (start w)"
| call_touch: "idle_step w (touch w)"
| call_hold: "idle_step w (hold w)"
| call_release: "idle_step w (release h w)"
| call_stop: "idle_step w (stop w)"

inductive idle_reach :: "int \<Rightarrow> idle_world \<Rightarrow> bool" for timeout where
  reach_init: "idle_reach timeout (new_timer timeout now)"
| reach_step: "idle_reach timeout w \<Longrightarrow> idle_step w w' \<Longrightarrow> idle_reach timeout w'"

inductive_cases idle_stepE: "idle_step w w'"

lemmas idle_op_defs =
  start_def touch_def hold_def release_def stop_def expire_def arm_def Let_def

section \<open>The invariant\<close>

definition ticking :: "timer \<Rightarrow> bool" where
  "ticking t \<longleftrightarrow> tm_started t \<and> \<not> tm_stopped t \<and> \<not> tm_fired t"

definition wake_ups :: "idle_world \<Rightarrow> nat" where
  "wake_ups w = iw_pending w + (if iw_armed w = None then 0 else 1)"

definition idle_inv :: "idle_world \<Rightarrow> bool" where
  "idle_inv w \<longleftrightarrow>
     (let t = iw_timer w in
      finite (iw_open w) \<and> (\<forall>h \<in> iw_open w. h < iw_next w) \<and> tm_inflight t = card (iw_open w) \<and>
      tm_last t \<le> iw_now w \<and>
      tm_created t = tm_started t \<and> (tm_started t \<longrightarrow> enabled t) \<and>
      (tm_fired t \<longrightarrow> tm_started t) \<and>
      iw_callbacks w = (if tm_fired t then 1 else 0) \<and>
      (if ticking t then wake_ups w = 1 else wake_ups w \<le> 1) \<and>
      (\<not> tm_started t \<longrightarrow> wake_ups w = 0) \<and>
      (case iw_armed w of
         None \<Rightarrow> True
       | Some d \<Rightarrow> ticking t \<and> d \<le> iw_now w + tm_timeout t \<and>
                   (tm_inflight t = 0 \<longrightarrow> d \<le> tm_last t + tm_timeout t)))"

lemma idle_inv_init: "idle_inv (new_timer timeout now)"
  by (simp add: idle_inv_def new_timer_def wake_ups_def ticking_def Let_def)

lemma idle_inv_step: "idle_step w w' \<Longrightarrow> idle_inv w \<Longrightarrow> idle_inv w'"
proof (induction rule: idle_step.induct)
  case (tick w n)
  then show ?case by (auto simp: idle_inv_def Let_def wake_ups_def split: option.splits)
next
  case (ring w d)
  then show ?case by (auto simp: idle_inv_def Let_def wake_ups_def)
next
  case (run_expire w)
  then show ?case
    by (auto simp: idle_inv_def idle_op_defs wake_ups_def ticking_def enabled_def split: option.splits if_splits)
next
  case (call_start w)
  then show ?case
    by (auto simp: idle_inv_def idle_op_defs wake_ups_def ticking_def enabled_def split: option.splits if_splits)
next
  case (call_touch w)
  then show ?case
    by (auto simp: idle_inv_def idle_op_defs wake_ups_def ticking_def enabled_def split: option.splits if_splits)
next
  case (call_hold w)
  then show ?case
    by (auto simp: idle_inv_def idle_op_defs wake_ups_def ticking_def enabled_def split: option.splits if_splits)
next
  case (call_release w h)
  then show ?case
    by (auto simp: idle_inv_def idle_op_defs wake_ups_def ticking_def enabled_def card_gt_0_iff
        split: option.splits if_splits)
next
  case (call_stop w)
  then show ?case
    by (auto simp: idle_inv_def idle_op_defs wake_ups_def ticking_def enabled_def split: option.splits if_splits)
qed

lemma idle_reach_inv: "idle_reach timeout w \<Longrightarrow> idle_inv w \<and> tm_timeout (iw_timer w) = timeout"
proof (induction rule: idle_reach.induct)
  case (reach_init now)
  then show ?case by (simp add: idle_inv_init) (simp add: new_timer_def)
next
  case (reach_step w w')
  then have "tm_timeout (iw_timer w') = tm_timeout (iw_timer w)"
    by (auto elim!: idle_stepE simp: idle_op_defs)
  with reach_step show ?case by (simp add: idle_inv_step)
qed

section \<open>Properties\<close>

text \<open>
  Property (C13): the timer never cuts a request. In every run the callback is called at most once,
  and a step that calls it does so with no hold outstanding, with the whole timeout
  passed since the last activity, and not after \<^verbatim>\<open>Stop\<close>; the in-flight count is always
  the number of holds that have not been released.
\<close>

theorem idle_fires_safely:
  assumes "idle_reach timeout w" and "idle_step w w'"
  shows "iw_callbacks w' \<le> 1 \<and> tm_inflight (iw_timer w) = card (iw_open w) \<and>
    (if iw_callbacks w' \<noteq> iw_callbacks w
     then iw_callbacks w = 0 \<and> iw_open w = {} \<and> timeout \<le> iw_now w - tm_last (iw_timer w) \<and>
          \<not> tm_stopped (iw_timer w)
     else True)"
proof -
  from idle_reach_inv [OF assms(1)] have inv: "idle_inv w" "tm_timeout (iw_timer w) = timeout" by auto
  from idle_inv_step [OF assms(2) inv(1)] have "iw_callbacks w' \<le> 1"
    by (simp add: idle_inv_def Let_def)
  moreover have "iw_callbacks w = 0 \<and> iw_open w = {} \<and> timeout \<le> iw_now w - tm_last (iw_timer w) \<and>
      \<not> tm_stopped (iw_timer w)" if "iw_callbacks w' \<noteq> iw_callbacks w"
    using assms(2) that inv
    by (auto elim!: idle_stepE simp: idle_op_defs idle_inv_def split: if_splits)
  ultimately show ?thesis using inv(1) by (simp add: idle_inv_def Let_def)
qed

text \<open>
  The goroutines and the runtime timer, once they are given the time they wait for: a
  pending \<^verbatim>\<open>expire\<close> runs, and a deadline that has passed rings and is served.
\<close>

definition serve :: "idle_world \<Rightarrow> idle_world" where
  "serve w =
     (if 0 < iw_pending w then expire w
      else case iw_armed w of
             Some d \<Rightarrow> if d \<le> iw_now w then expire (w\<lparr>iw_armed := None, iw_pending := iw_pending w + 1\<rparr>) else w
           | None \<Rightarrow> w)"

lemma serve_reach: "idle_reach timeout w \<Longrightarrow> idle_reach timeout (serve w)"
  (is "_ \<Longrightarrow> ?thesis")
proof -
  assume w: "idle_reach timeout w"
  have "idle_reach timeout (expire (w\<lparr>iw_armed := None, iw_pending := iw_pending w + 1\<rparr>))"
    if "iw_armed w = Some d" "d \<le> iw_now w" for d
    by (rule reach_step [OF reach_step [OF w ring [OF that]] run_expire]) simp
  then show ?thesis
    using w by (auto simp: serve_def split: option.split intro: reach_step run_expire)
qed

text \<open>
  Property (C36): the wake-up is never lost. While the timer is started, not stopped and has not
  fired, exactly one wake-up is outstanding (the armed deadline or a goroutine on its
  way to \<^verbatim>\<open>expire\<close>); and if no request is in flight and the timeout has passed since the
  last activity, serving that one wake-up calls the callback, however the timer had
  been rescheduled before.
\<close>

theorem idle_fires_eventually:
  assumes "idle_reach timeout w" and "ticking (iw_timer w)"
  shows "wake_ups w = 1 \<and>
    (if tm_inflight (iw_timer w) = 0 \<and> tm_last (iw_timer w) + timeout \<le> iw_now w
     then idle_reach timeout (serve w) \<and> tm_fired (iw_timer (serve w)) \<and> iw_callbacks (serve w) = 1
     else True)"
proof -
  from idle_reach_inv [OF assms(1)] have inv: "idle_inv w" "tm_timeout (iw_timer w) = timeout" by auto
  with assms(2) have wk: "wake_ups w = 1" by (simp add: idle_inv_def Let_def)
  have cb: "iw_callbacks w = 0" using inv assms(2) by (simp add: idle_inv_def Let_def ticking_def)
  have "tm_fired (iw_timer (serve w)) \<and> iw_callbacks (serve w) = 1"
    if "tm_inflight (iw_timer w) = 0" "tm_last (iw_timer w) + timeout \<le> iw_now w"
  proof (cases "iw_armed w")
    case None
    with wk have "iw_pending w = 1" by (simp add: wake_ups_def)
    with that assms(2) inv(2) cb show ?thesis by (simp add: serve_def expire_def Let_def ticking_def)
  next
    case (Some d)
    with wk have "iw_pending w = 0" by (simp add: wake_ups_def)
    moreover from Some inv that have "d \<le> iw_now w" by (simp add: idle_inv_def Let_def)
    ultimately show ?thesis using Some that assms(2) inv(2) cb
      by (simp add: serve_def expire_def Let_def ticking_def)
  qed
  with wk serve_reach [OF assms(1)] show ?thesis by simp
qed

text \<open>A run with one request: held at time 2, released at time 5, idle until time 15.\<close>

definition demo_idle :: idle_world where
  "demo_idle = (release 0 ((hold ((start (new_timer 10 0))\<lparr>iw_now := 2\<rparr>))\<lparr>iw_now := 5\<rparr>))\<lparr>iw_now := 15\<rparr>"

lemma demo_idle_reach: "idle_reach 10 demo_idle"
  unfolding demo_idle_def
  by (intro reach_step [OF _ tick] reach_step [OF _ call_release] reach_step [OF _ call_hold]
      reach_step [OF _ call_start] reach_init)
     (simp_all add: idle_op_defs new_timer_def enabled_def)

lemmas demo_idle_simps = demo_idle_def idle_op_defs new_timer_def enabled_def ticking_def serve_def

theorem idle_fires_eventually_witness: "tm_fired (iw_timer (serve demo_idle)) \<and> iw_callbacks (serve demo_idle) = 1"
proof -
  have "ticking (iw_timer demo_idle)" "tm_inflight (iw_timer demo_idle) = 0"
    "tm_last (iw_timer demo_idle) + 10 \<le> iw_now demo_idle"
    by (simp_all add: demo_idle_simps)
  with idle_fires_eventually [OF demo_idle_reach] show ?thesis by simp
qed

theorem idle_fires_safely_witness:
  "let w = demo_idle\<lparr>iw_armed := None, iw_pending := 1\<rparr>
   in iw_callbacks (expire w) = 1 \<and> iw_open w = {} \<and> 10 \<le> iw_now w - tm_last (iw_timer w)"
proof -
  let ?w = "demo_idle\<lparr>iw_armed := None, iw_pending := 1\<rparr>"
  have "idle_step demo_idle ?w"
    using ring [of demo_idle 10] by (simp add: demo_idle_simps)
  then have r: "idle_reach 10 ?w" by (rule reach_step [OF demo_idle_reach])
  have "idle_step ?w (expire ?w)" by (rule run_expire) simp
  from idle_fires_safely [OF r this] show ?thesis
    by (simp add: demo_idle_simps)
qed

end
