(* ===== verification/ToolPattern.thy ===== *)
theory ToolPattern
  imports Prelude
begin

text \<open>
  \<^verbatim>\<open>internal/toolschema/pattern.go\<close>: the walk that translates one \<^verbatim>\<open>pattern\<close> keyword for a
  back end. A \<^verbatim>\<open>writer\<close> holds two spellings of the pattern, the one for the wire and a
  twin in Go syntax; a \<^verbatim>\<open>Dialect\<close> is the record of the methods of the Go interface. The
  loop of \<^verbatim>\<open>run\<close> advances by what the dialect says it consumed, so its model has fuel, and
  the locale \<open>lawful_dialect\<close> states what a dialect owes for the loop to end.

  The parser of \<^verbatim>\<open>regexp/syntax\<close> that judges the twin is the parameter \<open>parse\<close>.
\<close>

section \<open>Writers and dialects\<close>

record twin_writer =
  wt_out :: string
  wt_chk :: string

definition wr_split :: "string \<Rightarrow> string \<Rightarrow> twin_writer \<Rightarrow> twin_writer" where
  "wr_split wire gochk w = \<lparr>wt_out = wt_out w @ wire, wt_chk = wt_chk w @ gochk\<rparr>"

definition wr_both :: "string \<Rightarrow> twin_writer \<Rightarrow> twin_writer" where
  "wr_both s w = wr_split s s w"

text \<open>A method that may reject returns the bytes consumed and the writer, or \<^const>\<open>None\<close>.\<close>

record dialect =
  dl_escape :: "twin_writer \<Rightarrow> string \<Rightarrow> bool \<Rightarrow> (nat \<times> twin_writer) option"
  dl_group :: "twin_writer \<Rightarrow> string \<Rightarrow> (nat \<times> twin_writer) option"
  dl_possessive :: "twin_writer \<Rightarrow> twin_writer option"
  dl_posix_class :: bool
  dl_class_literal :: "twin_writer \<Rightarrow> string \<Rightarrow> twin_writer"

section \<open>Strings\<close>

text \<open>\<^verbatim>\<open>strings.IndexByte\<close> and \<^verbatim>\<open>strings.Index\<close>.\<close>

fun index_byte :: "char \<Rightarrow> string \<Rightarrow> nat option" where
  "index_byte c [] = None"
| "index_byte c (x # xs) = (if x = c then Some 0 else map_option Suc (index_byte c xs))"

fun index_str :: "string \<Rightarrow> string \<Rightarrow> nat option" where
  "index_str p [] = (if p = [] then Some 0 else None)"
| "index_str p (x # xs) = (if prefix p (x # xs) then Some 0 else map_option Suc (index_str p xs))"

lemma index_byte_bound: "index_byte c s = Some i \<Longrightarrow> i < length s \<and> s ! i = c"
  by (induction s arbitrary: i) (auto split: if_splits)

lemma index_str_bound: "index_str p s = Some i \<Longrightarrow> i + length p \<le> length s"
  by (induction p s arbitrary: i rule: index_str.induct)
     (fastforce split: if_splits dest: prefix_length_le)+

text \<open>\<^verbatim>\<open>strings.Cut\<close> at one byte: the parts before and after it, if it is there.\<close>

definition cut_byte :: "char \<Rightarrow> string \<Rightarrow> string \<times> string \<times> bool" where
  "cut_byte c s =
     (case index_byte c s of
        Some i \<Rightarrow> (take i s, drop (Suc i) s, True)
      | None \<Rightarrow> (s, [], False))"

definition is_digit_byte :: "char \<Rightarrow> bool" where
  "is_digit_byte c \<longleftrightarrow> 48 \<le> (of_char c :: nat) \<and> (of_char c :: nat) \<le> 57"

definition is_digits :: "string \<Rightarrow> bool" where
  "is_digits s \<longleftrightarrow> list_all is_digit_byte s"

definition trim_left_zeros :: "string \<Rightarrow> string" where
  "trim_left_zeros s = dropWhile (\<lambda>c. c = CHR ''0'') s"

text \<open>The conversion \<^verbatim>\<open>string(c)\<close> of a byte: the UTF-8 encoding of the code point with that number.\<close>

definition string_of_byte :: "char \<Rightarrow> string" where
  "string_of_byte c =
     (let n = (of_char c :: nat) in
      if n < 128 then [c] else [char_of (192 + n div 64), char_of (128 + n mod 64)])"

section \<open>Repetitions\<close>

definition repeat_bounds :: "string \<Rightarrow> (string \<times> string \<times> nat) option" where
  "repeat_bounds s =
     (case index_byte (CHR ''}'') s of
        None \<Rightarrow> None
      | Some e \<Rightarrow>
          (case cut_byte (CHR '','') (take (e - 1) (tl s)) of (lo, hi, comma) \<Rightarrow>
             if lo = [] \<or> \<not> is_digits lo \<or> comma \<and> hi \<noteq> [] \<and> \<not> is_digits hi then None
             else Some (lo, if comma then hi else lo, e + 1)))"

definition is_repeat :: "string \<Rightarrow> bool" where
  "is_repeat s \<longleftrightarrow> repeat_bounds s \<noteq> None"

definition compare_decimal :: "string \<Rightarrow> string \<Rightarrow> int" where
  "compare_decimal a b =
     (let a = trim_left_zeros a; b = trim_left_zeros b in
      if length a \<noteq> length b then int (length a) - int (length b)
      else if a < b then -1 else if b < a then 1 else 0)"

definition max_twin_repeat :: int where
  "max_twin_repeat = 1000"

definition decimal :: "string \<Rightarrow> int" where
  "decimal s = foldl (\<lambda>v c. 10 * v + (int (of_char c) - 48)) 0 s"

text \<open>\<^verbatim>\<open>Atoi\<close> on the digit strings it is given here fails only out of range.\<close>

definition clamp_repeat :: "string \<Rightarrow> string" where
  "clamp_repeat s =
     (if s = [] then s
      else if \<not> is_i64 (decimal s) \<or> max_twin_repeat < decimal s then itoa max_twin_repeat
      else s)"

datatype quant_state = QNone | QGreedy | QLazy | QPossessive

definition wr_repeat :: "string \<Rightarrow> twin_writer \<Rightarrow> (nat \<times> twin_writer \<times> quant_state) option" where
  "wr_repeat s w =
     (case repeat_bounds s of
        None \<Rightarrow> Some (1, wr_both ''{'' w, QNone)
      | Some (lo, hi, n) \<Rightarrow>
          if hi \<noteq> [] \<and> 0 < compare_decimal lo hi then None
          else
            let (x, rest, comma) = cut_byte (CHR '','') (take (n - 2) (tl s));
                twin = ''{'' @ clamp_repeat lo @ (if comma then '','' @ clamp_repeat rest else []) @ ''}''
            in Some (n, wr_split (take n s) twin w, QGreedy))"

definition wr_quantifier ::
  "dialect \<Rightarrow> string \<Rightarrow> quant_state \<Rightarrow> twin_writer \<Rightarrow> (nat \<times> twin_writer \<times> quant_state) option" where
  "wr_quantifier d s prev w =
     (let c = hd s in
      if prev = QPossessive \<and> (c \<noteq> CHR ''{'' \<or> is_repeat s) then None
      else if c = CHR ''+'' \<and> (prev = QGreedy \<or> prev = QLazy) then
        map_option (\<lambda>w. (1, w, QPossessive)) (dl_possessive d w)
      else if c = CHR ''?'' \<and> prev = QGreedy then Some (1, wr_both ''?'' w, QLazy)
      else if c = CHR ''{'' then wr_repeat s w
      else Some (1, wr_both (string_of_byte c) w, QGreedy))"

section \<open>The walk\<close>

text \<open>
  One iteration of the loop: the bytes consumed, the writer, whether a class is open, and
  what the token was. \<open>s\<close> is what is left of the pattern, not empty.
\<close>

definition class_open :: "string \<Rightarrow> twin_writer \<Rightarrow> nat \<times> twin_writer" where
  "class_open s w =
     (let w = wr_both ''['' w;
          (j, w) = (if 1 < length s \<and> s ! 1 = CHR ''^'' then (2, wr_both ''^'' w) else (1, w))
      in if j < length s \<and> s ! j = CHR '']'' then (j + 1, wr_both '']'' w) else (j, w))"

definition class_byte ::
  "dialect \<Rightarrow> string \<Rightarrow> twin_writer \<Rightarrow> (nat \<times> twin_writer \<times> bool) option" where
  "class_byte d s w =
     (if hd s = CHR '']'' then Some (1, wr_both '']'' w, False)
      else if hd s = CHR ''['' \<and> prefix ''[:'' s then
        (case index_str '':]'' s of
           None \<Rightarrow> None
         | Some e \<Rightarrow> if \<not> dl_posix_class d then None else Some (e + 2, wr_both (take (e + 2) s) w, True))
      else Some (1, dl_class_literal d w s, True))"

definition run_token ::
  "dialect \<Rightarrow> string \<Rightarrow> bool \<Rightarrow> quant_state \<Rightarrow> twin_writer \<Rightarrow>
   (nat \<times> twin_writer \<times> bool \<times> quant_state) option" where
  "run_token d s in_class prev w =
     (let c = hd s in
      if c = CHR 0x5C then
        (if length s < 2 then None
         else map_option (\<lambda>(n, w). (n, w, in_class, QNone)) (dl_escape d w s in_class))
      else if in_class then map_option (\<lambda>(n, w, b). (n, w, b, QNone)) (class_byte d s w)
      else if c = CHR ''['' then (case class_open s w of (n, w) \<Rightarrow> Some (n, w, True, QNone))
      else if c = CHR ''('' \<and> 1 < length s \<and> s ! 1 = CHR ''?'' then
        map_option (\<lambda>(n, w). (n, w, False, QNone)) (dl_group d w s)
      else if c \<in> {CHR ''*'', CHR ''+'', CHR ''?'', CHR ''{''} then
        map_option (\<lambda>(n, w, q). (n, w, False, q)) (wr_quantifier d s prev w)
      else Some (1, wr_both (string_of_byte c) w, False, QNone))"

datatype run_result = Accepted twin_writer | Rejected | OutOfFuel

fun run_from :: "nat \<Rightarrow> dialect \<Rightarrow> string \<Rightarrow> bool \<Rightarrow> quant_state \<Rightarrow> twin_writer \<Rightarrow> run_result" where
  "run_from fuel d [] in_class q w = (if in_class then Rejected else Accepted w)"
| "run_from 0 d (c # cs) in_class q w = OutOfFuel"
| "run_from (Suc fuel) d (c # cs) in_class q w =
     (case run_token d (c # cs) in_class q w of
        None \<Rightarrow> Rejected
      | Some (n, w', b, q') \<Rightarrow> run_from fuel d (drop n (c # cs)) b q' w')"

definition empty_twin :: twin_writer where
  "empty_twin = \<lparr>wt_out = [], wt_chk = []\<rparr>"

definition run_pattern :: "dialect \<Rightarrow> string \<Rightarrow> run_result" where
  "run_pattern d p = run_from (length p) d p False QNone empty_twin"

text \<open>The translated pattern, or \<^const>\<open>None\<close> when it must be dropped.\<close>

definition translate :: "(string \<Rightarrow> bool) \<Rightarrow> dialect \<Rightarrow> string \<Rightarrow> string option" where
  "translate parse d p =
     (case run_pattern d p of
        Accepted w \<Rightarrow> if parse (wt_chk w) then Some (wt_out w) else None
      | _ \<Rightarrow> None)"

section \<open>What a dialect owes\<close>

text \<open>
  A dialect consumes at least one byte and no more than there are, and it only appends to
  the two spellings.
\<close>

definition extends :: "twin_writer \<Rightarrow> twin_writer \<Rightarrow> bool" where
  "extends w w' \<longleftrightarrow> prefix (wt_out w) (wt_out w') \<and> prefix (wt_chk w) (wt_chk w')"

lemma extends_refl [simp]: "extends w w"
  by (simp add: extends_def)

lemma extends_trans: "extends a b \<Longrightarrow> extends b c \<Longrightarrow> extends a c"
  by (auto simp: extends_def intro: prefix_order.trans)

lemma extends_split [simp]: "extends w (wr_split a b w)"
  by (simp add: extends_def wr_split_def)

lemma extends_both [simp]: "extends w (wr_both a w)"
  by (simp add: wr_both_def)

lemma extends_both2: "extends w v \<Longrightarrow> extends w (wr_both a v)"
  using extends_trans [OF _ extends_both] by blast

locale lawful_dialect =
  fixes d :: dialect
  assumes escape_consumes: "dl_escape d w (CHR 0x5C # x # s) b = Some (n, w') \<Longrightarrow>
      0 < n \<and> n \<le> length (CHR 0x5C # x # s) \<and> extends w w'"
    and group_consumes: "dl_group d w (CHR ''('' # CHR ''?'' # s) = Some (n, w') \<Longrightarrow>
      0 < n \<and> n \<le> length (CHR ''('' # CHR ''?'' # s) \<and> extends w w'"
    and possessive_extends: "dl_possessive d w = Some w' \<Longrightarrow> extends w w'"
    and class_literal_extends: "extends w (dl_class_literal d w s)"
begin

lemma repeat_consumes:
  "wr_repeat s w = Some (n, w', q) \<Longrightarrow> s \<noteq> [] \<Longrightarrow> 0 < n \<and> n \<le> length s \<and> extends w w'"
  by (auto simp: wr_repeat_def repeat_bounds_def Let_def Suc_le_eq dest: index_byte_bound
      split: option.splits prod.splits if_splits)

lemma quantifier_consumes:
  "wr_quantifier d s prev w = Some (n, w', q) \<Longrightarrow> s \<noteq> [] \<Longrightarrow> 0 < n \<and> n \<le> length s \<and> extends w w'"
  by (auto simp: wr_quantifier_def Let_def Suc_le_eq dest: repeat_consumes possessive_extends split: if_splits)

lemma class_byte_consumes:
  "class_byte d s w = Some (n, w', b) \<Longrightarrow> s \<noteq> [] \<Longrightarrow> 0 < n \<and> n \<le> length s \<and> extends w w'"
  by (auto simp: class_byte_def Suc_le_eq class_literal_extends dest: index_str_bound
      split: if_splits option.splits)

lemma token_consumes:
  assumes "run_token d s in_class prev w = Some (n, w', b, q)" "s \<noteq> []"
  shows "0 < n \<and> n \<le> length s \<and> extends w w'"
proof -
  have esc: "dl_escape d w s b = Some (n, w') \<Longrightarrow> hd s = CHR 0x5C \<Longrightarrow> \<not> length s < 2 \<Longrightarrow>
      0 < n \<and> n \<le> length s \<and> extends w w'" for b
    using escape_consumes by (cases s; cases "tl s") auto
  have grp: "dl_group d w s = Some (n, w') \<Longrightarrow> hd s = CHR ''('' \<Longrightarrow> 1 < length s \<Longrightarrow> s ! 1 = CHR ''?'' \<Longrightarrow>
      0 < n \<and> n \<le> length s \<and> extends w w'"
    using group_consumes by (cases s; cases "tl s") auto
  have cls: "class_open s w = (n, w') \<Longrightarrow> 0 < n \<and> n \<le> length s \<and> extends w w'"
    using assms(2) by (auto simp: class_open_def Let_def Suc_le_eq extends_both2 split: if_splits)
  show ?thesis
    using assms esc grp cls
    by (auto simp: run_token_def Let_def Suc_le_eq dest: class_byte_consumes quantifier_consumes
        split: if_splits prod.splits)
qed

text \<open>The loop ends: every iteration consumes, so the fuel of \<open>run_pattern\<close> is enough.\<close>

lemma run_from_ends: "length s \<le> fuel \<Longrightarrow> run_from fuel d s b q w \<noteq> OutOfFuel"
proof (induction fuel arbitrary: s b q w)
  case 0
  then show ?case by simp
next
  case (Suc fuel)
  show ?case
  proof (cases s)
    case (Cons c cs)
    show ?thesis
    proof (cases "run_token d s b q w")
      case (Some r)
      obtain n w' b' q' where r: "r = (n, w', b', q')" by (cases r)
      with Some token_consumes [of s b q w n w' b' q'] Cons have "0 < n" by auto
      with Suc.prems Cons have "length (drop n s) \<le> fuel" by auto
      from Suc.IH [OF this] Some r Cons show ?thesis by simp
    qed (use Cons in simp)
  qed simp
qed

lemma run_pattern_ends: "run_pattern d p \<noteq> OutOfFuel"
  by (simp add: run_pattern_def run_from_ends)

end

section \<open>Decimal counts\<close>

lemma decimal_append: "decimal (s @ [c]) = 10 * decimal s + (int (of_char c) - 48)"
  by (simp add: decimal_def)

lemma decimal_bounds: "is_digits s \<Longrightarrow> 0 \<le> decimal s \<and> decimal s < 10 ^ length s"
proof (induction s rule: rev_induct)
  case (snoc c s)
  then have "0 \<le> int (of_char c) - 48" "int (of_char c) - 48 \<le> 9"
    by (auto simp: is_digits_def is_digit_byte_def)
  with snoc show ?case by (auto simp: decimal_append is_digits_def)
qed (simp add: decimal_def)

lemma decimal_Cons:
  "decimal (c # s) = (int (of_char c) - 48) * 10 ^ length s + decimal s"
proof (induction s rule: rev_induct)
  case (snoc x s)
  have "decimal (c # s @ [x]) = 10 * decimal (c # s) + (int (of_char x) - 48)"
    using decimal_append [of "c # s" x] by simp
  with snoc show ?case by (simp add: decimal_append algebra_simps)
qed (simp add: decimal_def)

lemma decimal_trim: "decimal (trim_left_zeros s) = decimal s"
  by (induction s) (auto simp: trim_left_zeros_def decimal_Cons)

lemma trim_left_zeros_digits: "is_digits s \<Longrightarrow> is_digits (trim_left_zeros s)"
  by (induction s) (auto simp: is_digits_def trim_left_zeros_def)

lemma decimal_less:
  "is_digits a \<Longrightarrow> is_digits b \<Longrightarrow> length a = length b \<Longrightarrow> a < b \<longleftrightarrow> decimal a < decimal b"
proof (induction a arbitrary: b)
  case (Cons x a)
  then obtain y b' where b: "b = y # b'" by (cases b) auto
  have d: "is_digits a" "is_digits b'" "length a = length b'" using Cons.prems by (auto simp: b is_digits_def)
  have xy: "x < y \<longleftrightarrow> (of_char x :: nat) < of_char y" "x = y \<longleftrightarrow> (of_char x :: nat) = of_char y"
    by (simp_all add: less_char_def)
  let ?p = "10 ^ length a :: int"
  have bd: "0 \<le> decimal a" "decimal a < ?p" "0 \<le> decimal b'" "decimal b' < ?p"
    using decimal_bounds [OF d(1)] decimal_bounds [OF d(2)] d(3) by auto
  consider "(of_char x :: nat) < of_char y" | "(of_char x :: nat) = of_char y" | "(of_char y :: nat) < of_char x"
    by linarith
  then show ?case
  proof cases
    case 1
    then have "(int (of_char x) - 48 + 1) * ?p \<le> (int (of_char y) - 48) * ?p"
      by (intro mult_right_mono) auto
    with 1 bd xy show ?thesis by (simp add: b decimal_Cons d(3) algebra_simps)
  next
    case 2
    with xy Cons.IH [OF d] show ?thesis by (simp add: b decimal_Cons d(3))
  next
    case 3
    then have "(int (of_char y) - 48 + 1) * ?p \<le> (int (of_char x) - 48) * ?p"
      by (intro mult_right_mono) auto
    with bd have "\<not> decimal (x # a) < decimal b" by (simp add: b decimal_Cons d(3) algebra_simps)
    moreover from 3 xy have "\<not> x # a < b" by (auto simp: b)
    ultimately show ?thesis by simp
  qed
qed simp

lemma decimal_shorter:
  assumes "is_digits a" "is_digits b" "length a < length b" "b \<noteq> []" "hd b \<noteq> CHR ''0''"
  shows "decimal a < decimal b"
proof -
  from assms(4) obtain y b' where b: "b = y # b'" by (cases b) auto
  have "(of_char y :: nat) \<noteq> 48"
  proof
    assume "(of_char y :: nat) = 48"
    also have "48 = (of_char (CHR ''0'') :: nat)" by simp
    finally have "y = CHR ''0''" by (simp only: of_char_eq_iff)
    with assms(5) b show False by simp
  qed
  with assms(2) b have y: "1 \<le> int (of_char y) - 48" by (auto simp: is_digits_def is_digit_byte_def)
  have "decimal a < 10 ^ length a" using decimal_bounds [OF assms(1)] by simp
  also have "\<dots> \<le> 10 ^ length b'" using assms(3) b by simp
  also have "\<dots> \<le> (int (of_char y) - 48) * 10 ^ length b'" using y by simp
  also have "\<dots> \<le> decimal b" using decimal_bounds [of b'] assms(2) b by (simp add: decimal_Cons is_digits_def)
  finally show ?thesis .
qed

lemma hd_trim_left_zeros: "trim_left_zeros s \<noteq> [] \<Longrightarrow> hd (trim_left_zeros s) \<noteq> CHR ''0''"
  unfolding trim_left_zeros_def by (metis (mono_tags) hd_dropWhile)

text \<open>
  Property (C27): the two bounds of a repetition are compared as numbers, whatever their length and
  leading zeros, so an inverted \<open>{n,m}\<close> is rejected and no other is, although the twin
  sees both bounds clamped to 1000.
\<close>

theorem compare_decimal_correct:
  assumes "is_digits a" and "is_digits b"
  shows "sgn (compare_decimal a b) = sgn (decimal a - decimal b)"
proof -
  let ?a = "trim_left_zeros a" and ?b = "trim_left_zeros b"
  have d: "is_digits ?a" "is_digits ?b" using assms by (simp_all add: trim_left_zeros_digits)
  have "sgn (compare_decimal a b) = sgn (decimal ?a - decimal ?b)"
  proof (cases "length ?a = length ?b")
    case True
    with decimal_less [OF d True] decimal_less [OF d(2,1) True [symmetric]] show ?thesis
      by (cases ?a ?b rule: linorder_cases) (simp_all add: compare_decimal_def)
  next
    case False
    then consider "length ?a < length ?b" | "length ?b < length ?a" by linarith
    then show ?thesis
    proof cases
      case 1
      then have "?b \<noteq> []" by auto
      with decimal_shorter [OF d 1] hd_trim_left_zeros 1 show ?thesis by (simp add: compare_decimal_def)
    next
      case 2
      then have "?a \<noteq> []" by auto
      with decimal_shorter [OF d(2,1) 2] hd_trim_left_zeros 2 show ?thesis by (simp add: compare_decimal_def)
    qed
  qed
  then show ?thesis by (simp add: decimal_trim)
qed

theorem compare_decimal_correct_witness: "sgn (compare_decimal ''0010'' ''9'') = 1"
proof -
  have "is_digits ''0010''" "is_digits ''9''" by (simp_all add: is_digits_def is_digit_byte_def)
  from compare_decimal_correct [OF this] show ?thesis by (simp add: decimal_def)
qed

section \<open>Literal text\<close>

definition literal_byte :: "char \<Rightarrow> bool" where
  "literal_byte c \<longleftrightarrow> c \<noteq> CHR 0x5C \<and> c \<notin> set ''[*+?{''"

lemma run_literal:
  "list_all literal_byte s \<Longrightarrow> length s \<le> fuel \<Longrightarrow>
   run_from fuel d s False QNone w = Accepted (wr_both (concat (map string_of_byte s)) w)"
proof (induction s arbitrary: fuel w)
  case Nil
  then show ?case by (cases fuel) (simp_all add: wr_both_def wr_split_def)
next
  case (Cons c s)
  then obtain f where f: "fuel = Suc f" by (cases fuel) auto
  from Cons.prems have "\<not> (1 < length (c # s) \<and> (c # s) ! 1 = CHR ''?'')"
    by (cases s) (auto simp: literal_byte_def)
  with Cons.prems f have "run_token d (c # s) False QNone w = Some (1, wr_both (string_of_byte c) w, False, QNone)"
    by (auto simp: run_token_def literal_byte_def)
  with Cons f show ?case by (simp add: wr_both_def wr_split_def)
qed

lemma translate_literal:
  "list_all literal_byte p \<Longrightarrow>
   translate parse d p =
     (let q = concat (map string_of_byte p) in if parse q then Some q else None)"
  by (simp add: translate_def run_pattern_def run_literal wr_both_def wr_split_def empty_twin_def Let_def)

text \<open>
  Literal text is left alone. For every dialect, a pattern of ASCII bytes without an
  escape, a class, a quantifier or an extended group is sent unchanged, or dropped when
  the parser rejects it as it is.
\<close>

theorem plain_pattern_unchanged:
  assumes "list_all literal_byte p" and "is_ascii p"
  shows "translate parse d p = (if parse p then Some p else None)"
proof -
  have "concat (map string_of_byte p) = p"
    using assms(2) by (induction p) (auto simp: is_ascii_def string_of_byte_def)
  with assms(1) show ?thesis by (simp add: translate_literal Let_def)
qed

theorem plain_pattern_unchanged_witness:
  "\<forall>d. translate (\<lambda>s. True) d ''^(a|b)$'' = Some ''^(a|b)$''"
  by (subst plain_pattern_unchanged) (simp_all add: literal_byte_def is_ascii_def)

text \<open>
  A literal beyond ASCII is corrupted. Outside a class each byte of the pattern goes
  through a conversion of a byte to a string, which encodes the byte as if it were a character,
  so for every dialect a literal letter e with an acute accent (bytes C3 A9) is sent as
  four bytes.
\<close>

lemma non_ascii_literal_corrupted:
  "translate (\<lambda>s. True) d (byte_str [195, 169]) = Some (byte_str [195, 131, 194, 169])"
proof -
  have "literal_byte c" if "128 \<le> (of_char c :: nat)" for c
    using that by (auto simp: literal_byte_def)
  then have "list_all literal_byte (byte_str [195, 169])" by (simp add: byte_str_def)
  then show ?thesis by (simp add: translate_literal) (simp add: byte_str_def string_of_byte_def Let_def)
qed

end
