(* ===== verification/ToolDialects.thy ===== *)
theory ToolDialects
  imports ToolPattern
begin

text \<open>
  The two dialects of \<^verbatim>\<open>internal/toolschema\<close>: \<^verbatim>\<open>codex.go\<close> (a Python subset) and
  \<^verbatim>\<open>deepseek.go\<close> (a Rust engine). Code points are natural numbers up to
  \<^verbatim>\<open>unicode.MaxRune\<close>. The tables of the package \<^verbatim>\<open>unicode\<close> are data of the Go distribution
  and a parameter of the Codex dialect. Both dialects are interpreted as lawful, so the
  walk of \<open>ToolPattern\<close> ends for each of them.
\<close>

section \<open>Code points and their spellings\<close>

definition max_rune :: nat where
  "max_rune = 1114111"

fun hex_of :: "nat \<Rightarrow> string" where
  "hex_of n = (if n < 16 then [hex_digit n] else hex_of (n div 16) @ [hex_digit (n mod 16)])"

declare hex_of.simps [simp del]

text \<open>The verbs \<^verbatim>\<open>%x\<close> and \<^verbatim>\<open>%0nx\<close>.\<close>

definition hex_pad :: "nat \<Rightarrow> nat \<Rightarrow> string" where
  "hex_pad k n = replicate (k - length (hex_of n)) (CHR ''0'') @ hex_of n"

definition go_codepoint :: "nat \<Rightarrow> string" where
  "go_codepoint c = [CHR 0x5C, CHR ''x'', CHR ''{''] @ hex_of c @ ''}''"

definition py_codepoint :: "nat \<Rightarrow> string" where
  "py_codepoint c =
     (if c < 0x100 then [CHR 0x5C, CHR ''x''] @ hex_pad 2 c
      else if c < 0x10000 then [CHR 0x5C, CHR ''u''] @ hex_pad 4 c
      else [CHR 0x5C, CHR ''U''] @ hex_pad 8 c)"

definition hex_value :: "char \<Rightarrow> nat option" where
  "hex_value c =
     (let n = (of_char c :: nat) in
      if 48 \<le> n \<and> n \<le> 57 then Some (n - 48)
      else if 97 \<le> n \<and> n \<le> 102 then Some (n - 87)
      else if 65 \<le> n \<and> n \<le> 70 then Some (n - 55)
      else None)"

text \<open>\<^verbatim>\<open>strconv.ParseUint\<close> in base 16, before its range check.\<close>

fun hex_number :: "nat \<Rightarrow> string \<Rightarrow> nat option" where
  "hex_number acc [] = Some acc"
| "hex_number acc (c # cs) =
     (case hex_value c of None \<Rightarrow> None | Some v \<Rightarrow> hex_number (16 * acc + v) cs)"

text \<open>A value beyond 32 bits is an error too, and is beyond \<^const>\<open>max_rune\<close> in any case.\<close>

definition parse_rune :: "string \<Rightarrow> nat option" where
  "parse_rune s =
     (if s = [] then None
      else case hex_number 0 s of None \<Rightarrow> None | Some v \<Rightarrow> if max_rune < v then None else Some v)"

definition braced_hex :: "string \<Rightarrow> (nat \<times> nat) option" where
  "braced_hex s =
     (case index_byte (CHR ''}'') s of
        None \<Rightarrow> None
      | Some e \<Rightarrow> map_option (\<lambda>v. (v, e + 1)) (parse_rune (take (e - 3) (drop 3 s))))"

definition fixed_hex :: "string \<Rightarrow> (nat \<times> nat) option" where
  "fixed_hex s =
     (let width = (if s ! 1 = CHR ''U'' then 8 else 4) in
      if length s < 2 + width then None
      else map_option (\<lambda>v. (v, 2 + width)) (parse_rune (take width (drop 2 s))))"

definition property_span :: "string \<Rightarrow> (string \<times> nat) option" where
  "property_span s =
     (if 2 < length s \<and> s ! 2 = CHR ''{'' then
        (case index_byte (CHR ''}'') s of
           None \<Rightarrow> None
         | Some e \<Rightarrow> if e = 3 then None else Some (take (e - 3) (drop 3 s), e + 1))
      else if 2 < length s then Some ([s ! 2], 3)
      else None)"

definition is_ascii_letter :: "char \<Rightarrow> bool" where
  "is_ascii_letter c \<longleftrightarrow>
     (let n = (of_char c :: nat) in 97 \<le> n \<and> n \<le> 122 \<or> 65 \<le> n \<and> n \<le> 90)"

text \<open>The span up to a closing byte, as \<^verbatim>\<open>\k<name>\<close>, comments and \<^verbatim>\<open>(?P=name)\<close> need it.\<close>

definition close_at :: "char \<Rightarrow> string \<Rightarrow> nat option" where
  "close_at c s = map_option Suc (index_byte c s)"

section \<open>DeepSeek\<close>

definition class_neutral :: "bool \<Rightarrow> string \<Rightarrow> string" where
  "class_neutral in_class outside = (if in_class then ''x'' else outside)"

definition ds_property :: "twin_writer \<Rightarrow> string \<Rightarrow> (nat \<times> twin_writer) option" where
  "ds_property w s =
     (case property_span s of
        None \<Rightarrow> None
      | Some (name, n) \<Rightarrow>
          let wire = (if prefix ''^'' name
                      then [CHR 0x5C, if s ! 1 = CHR ''P'' then CHR ''p'' else CHR ''P''] @ ''{'' @ tl name @ ''}''
                      else take n s)
          in Some (n, wr_split wire ''x'' w))"

text \<open>The octal escape: up to two octal digits follow the zero.\<close>

definition octal_len :: "string \<Rightarrow> nat" where
  "octal_len s =
     (let oct = (\<lambda>i. i < length s \<and> 48 \<le> (of_char (s ! i) :: nat) \<and> (of_char (s ! i) :: nat) \<le> 55) in
      if oct 2 then (if oct 3 then 4 else 3) else 2)"

definition octal_value :: "string \<Rightarrow> nat" where
  "octal_value s = foldl (\<lambda>v c. 8 * v + (of_char c - 48)) 0 s"

definition ds_escape :: "twin_writer \<Rightarrow> string \<Rightarrow> bool \<Rightarrow> (nat \<times> twin_writer) option" where
  "ds_escape w s in_class =
     (let c = s ! 1 in
      if c \<in> set ''pP'' then ds_property w s
      else if c = CHR ''k'' then
        (if in_class \<or> \<not> prefix ''<'' (drop 2 s) then None
         else map_option (\<lambda>n. (n, wr_split (take n s) ''x'' w)) (close_at (CHR ''>'') s))
      else if c = CHR ''x'' then
        (if \<not> prefix ''{'' (drop 2 s) then Some (2, wr_both (take 2 s) w)
         else map_option (\<lambda>(cp, n). (n, wr_split (take n s) (go_codepoint cp) w)) (braced_hex s))
      else if c \<in> set ''uU'' then
        map_option (\<lambda>(cp, n). (n, wr_split (take n s) (go_codepoint cp) w)) (fixed_hex s)
      else if c \<in> set ''zZ'' then
        Some (2, wr_split [CHR 0x5C, CHR ''z''] (class_neutral in_class [CHR 0x5C, CHR ''z'']) w)
      else if c \<in> set ''AbB'' then Some (2, wr_split (take 2 s) (class_neutral in_class (take 2 s)) w)
      else if c = CHR ''G'' then
        Some (2, wr_split [CHR 0x5C, CHR ''G''] (class_neutral in_class [CHR 0x5C, CHR ''b'']) w)
      else if c = CHR ''K'' then
        (if in_class then None else Some (2, wr_split [CHR 0x5C, CHR ''K''] [] w))
      else if c = CHR ''e'' then
        Some (2, wr_split [CHR 0x5C, CHR ''e''] ([CHR 0x5C] @ ''x{1b}'') w)
      else if c \<in> set ''hH'' then Some (2, wr_split (take 2 s) [CHR 0x5C, CHR ''s''] w)
      else if c = CHR ''c'' then
        (if length s < 3 \<or> \<not> is_ascii_letter (s ! 2) then None
         else Some (3, wr_split (take 3 s) (go_codepoint (of_char (s ! 2) mod 32)) w))
      else if c = CHR ''0'' then
        (let n = octal_len s in
         Some (n, wr_both ([CHR 0x5C, CHR ''x''] @ hex_pad 2 (octal_value (take (n - 1) (drop 1 s)))) w))
      else if c \<in> set ''123456789'' then
        (if in_class then None else Some (2, wr_split (take 2 s) ''x'' w))
      else if c \<in> set ''afnrtvdDwWsS'' then Some (2, wr_both (take 2 s) w)
      else if 128 \<le> (of_char c :: nat) \<or> is_ascii_letter c \<or> is_digit_byte c then None
      else Some (2, wr_both (take 2 s) w))"

text \<open>
  The inline flags of a group: the loop stops at the first byte that is no flag, and
  accepts if that byte closes the flags.
\<close>

definition flag_span :: "string \<Rightarrow> string \<Rightarrow> (string \<times> char) option" where
  "flag_span flags rest =
     (let fs = takeWhile (\<lambda>c. c \<in> set flags) rest; r = drop (length fs) rest in
      case r of
        [] \<Rightarrow> None
      | c # _ \<Rightarrow> if c = CHR '')'' \<or> c = CHR '':'' then Some (fs, c) else None)"

definition ds_flags :: "twin_writer \<Rightarrow> string \<Rightarrow> (nat \<times> twin_writer) option" where
  "ds_flags w s =
     (case flag_span ''imsxuU-'' (drop 2 s) of
        None \<Rightarrow> None
      | Some (flags, c) \<Rightarrow>
          if flags = [] \<or> suffix ''-'' flags \<or> 1 < length (filter (\<lambda>x. x = CHR ''-'') flags) then None
          else
            let twin = filter (\<lambda>x. x \<noteq> CHR ''x'' \<and> x \<noteq> CHR ''u'') flags;
                twin = (if suffix ''-'' twin then butlast twin else twin);
                n = 2 + length flags + 1
            in Some (n, wr_split (take n s)
                 (if twin \<noteq> [] then ''(?'' @ twin @ [c] else if c = CHR '':'' then ''(?:'' else []) w))"

definition ds_group :: "twin_writer \<Rightarrow> string \<Rightarrow> (nat \<times> twin_writer) option" where
  "ds_group w s =
     (let rest = drop 2 s in
      if prefix '':'' rest \<or> prefix ''P<'' rest then Some (2, wr_both ''(?'' w)
      else if prefix ''#'' rest then
        map_option (\<lambda>n. (n, wr_split (take n s) [] w)) (close_at (CHR '')'') s)
      else if prefix ''P='' rest then
        map_option (\<lambda>n. (n, wr_split (take n s) ''x'' w)) (close_at (CHR '')'') s)
      else if prefix ''<='' rest \<or> prefix ''<!'' rest then Some (4, wr_split (take 4 s) ''(?:'' w)
      else if prefix ''='' rest \<or> prefix ''!'' rest \<or> prefix ''>'' rest then
        Some (3, wr_split (take 3 s) ''(?:'' w)
      else if prefix ''<'' rest then Some (3, wr_both ''(?<'' w)
      else ds_flags w s)"

definition ds_class_literal :: "twin_writer \<Rightarrow> string \<Rightarrow> twin_writer" where
  "ds_class_literal w s =
     (let c = hd s in
      if c = CHR ''['' \<or> (c = CHR ''&'' \<or> c = CHR ''~'') \<and> 1 < length s \<and> s ! 1 = c
      then wr_both (CHR 0x5C # take 1 s) w else wr_both (take 1 s) w)"

definition deepseek_dialect :: dialect where
  "deepseek_dialect =
     \<lparr>dl_escape = ds_escape, dl_group = ds_group, dl_possessive = (\<lambda>w. Some (wr_split ''+'' [] w)),
      dl_posix_class = True, dl_class_literal = ds_class_literal\<rparr>"

section \<open>Code point ranges\<close>

record range_table =
  rt_r16 :: "(nat \<times> nat \<times> nat) list"      \<comment> \<open>low, high, stride\<close>
  rt_r32 :: "(nat \<times> nat \<times> nat) list"

record unicode_tables =
  ut_categories :: "string \<rightharpoonup> range_table"
  ut_scripts :: "string \<rightharpoonup> range_table"
  ut_properties :: "string \<rightharpoonup> range_table"

definition lookup_unicode_table :: "unicode_tables \<Rightarrow> string \<Rightarrow> range_table option" where
  "lookup_unicode_table ut name =
     (if name = ''Any'' then Some \<lparr>rt_r16 = [], rt_r32 = [(0, max_rune, 1)]\<rparr>
      else case ut_categories ut name of
             Some t \<Rightarrow> Some t
           | None \<Rightarrow> (case ut_scripts ut name of Some t \<Rightarrow> Some t | None \<Rightarrow> ut_properties ut name))"

text \<open>Every entry of a table has a positive stride; the loop of \<^verbatim>\<open>appendRange\<close> counts up to \<open>hi\<close>.\<close>

definition append_range :: "(nat \<times> nat) list \<Rightarrow> nat \<times> nat \<times> nat \<Rightarrow> (nat \<times> nat) list" where
  "append_range out r =
     (case r of (lo, hi, stride) \<Rightarrow>
        if stride = 1 then out @ [(lo, hi)]
        else out @ map (\<lambda>k. (lo + k * stride, lo + k * stride))
               (if hi < lo then [] else [0 ..< (hi - lo) div stride + 1]))"

definition table_ranges :: "range_table \<Rightarrow> (nat \<times> nat) list" where
  "table_ranges t = foldl append_range (foldl append_range [] (rt_r16 t)) (rt_r32 t)"

fun complement_from :: "nat \<Rightarrow> (nat \<times> nat) list \<Rightarrow> (nat \<times> nat) list" where
  "complement_from n [] = (if n \<le> max_rune then [(n, max_rune)] else [])"
| "complement_from n ((lo, hi) # rs) =
     (if n < lo then [(n, lo - 1)] else []) @ complement_from (hi + 1) rs"

definition complement_ranges :: "(nat \<times> nat) list \<Rightarrow> (nat \<times> nat) list" where
  "complement_ranges rs = complement_from 0 rs"

section \<open>Codex\<close>

definition max_property_ranges :: nat where
  "max_property_ranges = 64"

definition spell_range :: "(nat \<Rightarrow> string) \<Rightarrow> nat \<times> nat \<Rightarrow> string" where
  "spell_range sp r = sp (fst r) @ (if snd r \<noteq> fst r then ''-'' @ sp (snd r) else [])"

definition spell_class :: "(nat \<Rightarrow> string) \<Rightarrow> bool \<Rightarrow> bool \<Rightarrow> (nat \<times> nat) list \<Rightarrow> string" where
  "spell_class sp in_class negate ranges =
     (if in_class then [] else ''['' @ (if negate then ''^'' else [])) @
     concat (map (spell_range sp) ranges) @ (if in_class then [] else '']'')"

definition codex_property ::
  "unicode_tables \<Rightarrow> twin_writer \<Rightarrow> string \<Rightarrow> bool \<Rightarrow> (nat \<times> twin_writer) option" where
  "codex_property ut w s in_class =
     (case property_span s of
        None \<Rightarrow> None
      | Some (name, n) \<Rightarrow>
          let caret = prefix ''^'' name;
              negate = ((s ! 1 = CHR ''P'') \<noteq> caret);
              name = (if caret then tl name else name)
          in case lookup_unicode_table ut name of
               None \<Rightarrow> None
             | Some t \<Rightarrow>
                 let ranges = (if in_class \<and> negate then complement_ranges (table_ranges t) else table_ranges t)
                 in if max_property_ranges < length ranges then None
                    else Some (n, wr_split (spell_class py_codepoint in_class negate ranges)
                                   (spell_class go_codepoint in_class negate ranges) w))"

definition codex_escape ::
  "unicode_tables \<Rightarrow> twin_writer \<Rightarrow> string \<Rightarrow> bool \<Rightarrow> (nat \<times> twin_writer) option" where
  "codex_escape ut w s in_class =
     (let c = s ! 1 in
      if c \<in> set ''pP'' then codex_property ut w s in_class
      else if c = CHR ''k'' then
        (if in_class \<or> \<not> prefix ''<'' (drop 2 s) then None
         else map_option (\<lambda>n. (n, wr_split (''(?P='' @ take (n - 4) (drop 3 s) @ '')'') ''x'' w))
                (close_at (CHR ''>'') s))
      else if c = CHR ''x'' then
        (if \<not> prefix ''{'' (drop 2 s) then Some (2, wr_both (take 2 s) w)
         else map_option (\<lambda>(cp, n). (n, wr_split (py_codepoint cp) (go_codepoint cp) w)) (braced_hex s))
      else if c \<in> set ''uU'' then
        map_option (\<lambda>(cp, n). (n, wr_split (take n s) (go_codepoint cp) w)) (fixed_hex s)
      else if c \<in> set ''zZ'' then Some (2, wr_split [CHR 0x5C, CHR ''Z''] [CHR 0x5C, CHR ''z''] w)
      else if c \<in> set ''QECG'' then None
      else if c \<in> set ''123456789'' then
        (if in_class then None else Some (2, wr_split (take 2 s) ''x'' w))
      else Some (2, wr_both (take 2 s) w))"

definition codex_group :: "twin_writer \<Rightarrow> string \<Rightarrow> (nat \<times> twin_writer) option" where
  "codex_group w s =
     (let rest = drop 2 s in
      if prefix '':'' rest \<or> prefix ''P<'' rest then Some (2, wr_both ''(?'' w)
      else if prefix ''#'' rest then
        map_option (\<lambda>n. (n, wr_split (take n s) [] w)) (close_at (CHR '')'') s)
      else if prefix ''P='' rest then
        map_option (\<lambda>n. (n, wr_split (take n s) ''x'' w)) (close_at (CHR '')'') s)
      else if prefix ''='' rest \<or> prefix ''!'' rest \<or> prefix ''<='' rest \<or> prefix ''<!'' rest then None
      else if prefix ''<'' rest then Some (3, wr_both ''(?P<'' w)
      else
        (case flag_span ''ims'' rest of
           None \<Rightarrow> None
         | Some (flags, c) \<Rightarrow>
             if flags = [] then None
             else let n = 2 + length flags + 1 in Some (n, wr_both (take n s) w)))"

definition codex_dialect :: "unicode_tables \<Rightarrow> dialect" where
  "codex_dialect ut =
     \<lparr>dl_escape = codex_escape ut, dl_group = codex_group, dl_possessive = (\<lambda>w. None),
      dl_posix_class = False, dl_class_literal = (\<lambda>w s. wr_both (take 1 s) w)\<rparr>"

section \<open>Both dialects are lawful\<close>

lemma close_at_bound: "close_at c s = Some n \<Longrightarrow> 0 < n \<and> n \<le> length s"
  by (auto simp: close_at_def dest: index_byte_bound)

lemma braced_hex_bound: "braced_hex s = Some (v, n) \<Longrightarrow> 0 < n \<and> n \<le> length s"
  by (auto simp: braced_hex_def dest: index_byte_bound split: option.splits)

lemma fixed_hex_bound: "fixed_hex s = Some (v, n) \<Longrightarrow> 0 < n \<and> n \<le> length s"
  by (auto simp: fixed_hex_def Let_def split: if_splits)

lemma property_span_bound: "property_span s = Some (v, n) \<Longrightarrow> 0 < n \<and> n \<le> length s"
  by (auto simp: property_span_def Suc_le_eq dest: index_byte_bound split: option.splits if_splits)

lemma octal_len_bound: "2 \<le> length s \<Longrightarrow> 2 \<le> octal_len s \<and> octal_len s \<le> length s"
  by (auto simp: octal_len_def Let_def)

lemma flag_span_bound: "flag_span fl rest = Some (fs, c) \<Longrightarrow> length fs < length rest"
  (is "_ \<Longrightarrow> ?thesis")
proof -
  assume f: "flag_span fl rest = Some (fs, c)"
  then have "fs = takeWhile (\<lambda>c. c \<in> set fl) rest" "drop (length fs) rest \<noteq> []"
    by (auto simp: flag_span_def Let_def split: list.splits if_splits)
  then show ?thesis by simp
qed

lemmas span_bounds =
  close_at_bound braced_hex_bound fixed_hex_bound property_span_bound flag_span_bound

lemma ds_property_bound: "ds_property w s = Some (n, w') \<Longrightarrow> 0 < n \<and> n \<le> length s \<and> extends w w'"
  by (auto simp: ds_property_def Let_def dest: property_span_bound split: option.splits prod.splits)

lemma codex_property_bound:
  "codex_property ut w s b = Some (n, w') \<Longrightarrow> 0 < n \<and> n \<le> length s \<and> extends w w'"
  by (auto simp: codex_property_def Let_def dest: property_span_bound
      split: option.splits prod.splits if_splits)

lemma ds_escape_bound:
  assumes "ds_escape w s b = Some (n, w')" "2 \<le> length s"
  shows "0 < n \<and> n \<le> length s \<and> extends w w'"
  using assms octal_len_bound [of s]
  by (auto simp: ds_escape_def Let_def dest: span_bounds ds_property_bound split: if_split_asm)

lemma codex_escape_bound:
  "codex_escape ut w s b = Some (n, w') \<Longrightarrow> 2 \<le> length s \<Longrightarrow> 0 < n \<and> n \<le> length s \<and> extends w w'"
  by (auto simp: codex_escape_def Let_def dest: span_bounds codex_property_bound split: if_split_asm)

lemma prefix_length_drop: "prefix p (drop k s) \<Longrightarrow> length p \<le> length s - k"
  by (metis length_drop prefix_length_le)

lemma ds_group_bound:
  "ds_group w s = Some (n, w') \<Longrightarrow> 2 \<le> length s \<Longrightarrow> 0 < n \<and> n \<le> length s \<and> extends w w'"
  by (auto simp: ds_group_def ds_flags_def Let_def dest!: span_bounds prefix_length_drop
      split: if_split_asm option.splits prod.splits)

lemma codex_group_bound:
  "codex_group w s = Some (n, w') \<Longrightarrow> 2 \<le> length s \<Longrightarrow> 0 < n \<and> n \<le> length s \<and> extends w w'"
  by (auto simp: codex_group_def Let_def dest!: span_bounds prefix_length_drop
      split: if_split_asm option.splits prod.splits)

interpretation deepseek: lawful_dialect deepseek_dialect
  by unfold_locales
     (auto simp: deepseek_dialect_def ds_class_literal_def Let_def dest: ds_escape_bound ds_group_bound)

interpretation codex: lawful_dialect "codex_dialect ut" for ut
  by unfold_locales
     (auto simp: codex_dialect_def dest: codex_escape_bound codex_group_bound)

section \<open>Termination\<close>

text \<open>
  Translating a pattern always ends. The walk consumes at least one byte of the
  pattern in every iteration, whichever dialect drives it and whatever the Unicode
  tables hold, so it makes at most as many iterations as the pattern has bytes; the two
  spellings never shrink on the way.
\<close>

theorem translation_ends:
  "run_pattern deepseek_dialect p \<noteq> OutOfFuel \<and> run_pattern (codex_dialect ut) p \<noteq> OutOfFuel"
  by (simp add: deepseek.run_pattern_ends codex.run_pattern_ends)

section \<open>The ranges of a property\<close>

definition covered :: "(nat \<times> nat) list \<Rightarrow> nat set" where
  "covered rs = (\<Union>(lo, hi) \<in> set rs. {lo..hi})"

definition table_points :: "range_table \<Rightarrow> nat set" where
  "table_points t =
     (\<Union>(lo, hi, stride) \<in> set (rt_r16 t @ rt_r32 t). {c. lo \<le> c \<and> c \<le> hi \<and> stride dvd (c - lo)})"

definition range_table_ok :: "range_table \<Rightarrow> bool" where
  "range_table_ok t \<longleftrightarrow> list_all (\<lambda>(lo, hi, stride). 0 < stride \<and> lo \<le> hi) (rt_r16 t @ rt_r32 t)"

lemma covered_simps [simp]: "covered [] = {}" "covered (r # rs) = {fst r..snd r} \<union> covered rs"
  "covered (xs @ ys) = covered xs \<union> covered ys"
  by (auto simp: covered_def)

lemma covered_strided:
  assumes "0 < stride" "lo \<le> hi"
  shows "covered (map (\<lambda>k. (lo + k * stride, lo + k * stride)) [0 ..< (hi - lo) div stride + 1]) =
    {c. lo \<le> c \<and> c \<le> hi \<and> stride dvd (c - lo)}"
proof -
  let ?n = "(hi - lo) div stride + 1"
  have k: "k < ?n \<longleftrightarrow> k * stride \<le> hi - lo" for k
    using less_eq_div_iff_mult_less_eq [OF assms(1), of k "hi - lo"] by auto
  have "c \<in> covered (map (\<lambda>k. (lo + k * stride, lo + k * stride)) [0 ..< ?n]) \<longleftrightarrow>
      (\<exists>k < ?n. c = lo + k * stride)" for c
    unfolding covered_def by (simp only: set_map set_upt) fastforce
  moreover have "(\<exists>k < ?n. c = lo + k * stride) \<longleftrightarrow> lo \<le> c \<and> c \<le> hi \<and> stride dvd (c - lo)" for c
  proof
    assume "\<exists>k < ?n. c = lo + k * stride"
    then obtain m where m: "m * stride \<le> hi - lo" "c = lo + m * stride"
      using k by blast
    with assms(2) have "c \<le> hi" by arith
    with m show "lo \<le> c \<and> c \<le> hi \<and> stride dvd (c - lo)" by simp
  next
    assume c: "lo \<le> c \<and> c \<le> hi \<and> stride dvd (c - lo)"
    then obtain m where m: "c - lo = m * stride" by (auto simp: dvd_def mult.commute)
    with c have "c = lo + m * stride" by arith
    moreover from m c have "m * stride \<le> hi - lo" by arith
    ultimately show "\<exists>k < ?n. c = lo + k * stride" using k by blast
  qed
  ultimately show ?thesis by blast
qed

lemma append_range_covered:
  "0 < stride \<Longrightarrow> lo \<le> hi \<Longrightarrow>
   covered (append_range out (lo, hi, stride)) =
     covered out \<union> {c. lo \<le> c \<and> c \<le> hi \<and> stride dvd (c - lo)}" (is "_ \<Longrightarrow> _ \<Longrightarrow> ?thesis")
proof -
  assume r: "0 < stride" "lo \<le> hi"
  show ?thesis
  proof (cases "stride = 1")
    case True
    then show ?thesis by (auto simp: append_range_def)
  next
    case False
    with r covered_strided [OF r] show ?thesis by (simp add: append_range_def)
  qed
qed

lemma table_ranges_covered: "range_table_ok t \<Longrightarrow> covered (table_ranges t) = table_points t"
proof -
  have fold: "list_all (\<lambda>(lo, hi, stride). 0 < stride \<and> lo \<le> hi) rs \<Longrightarrow>
      covered (foldl append_range out rs) =
        covered out \<union> (\<Union>(lo, hi, stride) \<in> set rs. {c. lo \<le> c \<and> c \<le> hi \<and> stride dvd (c - lo)})" for rs out
    by (induction rs arbitrary: out) (auto simp: append_range_covered)
  show "range_table_ok t \<Longrightarrow> ?thesis" by (simp add: range_table_ok_def table_ranges_def table_points_def fold)
qed

text \<open>Ranges in increasing order, the next one starting after \<open>n\<close>.\<close>

fun ranges_from :: "nat \<Rightarrow> (nat \<times> nat) list \<Rightarrow> bool" where
  "ranges_from n [] \<longleftrightarrow> True"
| "ranges_from n ((lo, hi) # rs) \<longleftrightarrow> n \<le> lo \<and> lo \<le> hi \<and> hi \<le> max_rune \<and> ranges_from (hi + 1) rs"

lemma ranges_from_above: "ranges_from n rs \<Longrightarrow> c \<in> covered rs \<Longrightarrow> n \<le> c \<and> c \<le> max_rune"
  by (induction n rs rule: ranges_from.induct) (fastforce)+

lemma complement_from_covered:
  "ranges_from n rs \<Longrightarrow> covered (complement_from n rs) = {n..max_rune} - covered rs"
proof (induction n rs rule: ranges_from.induct)
  case (2 n lo hi rs)
  then have ih: "covered (complement_from (hi + 1) rs) = {hi + 1..max_rune} - covered rs" by simp
  from 2 have "n \<le> lo" "lo \<le> hi" "hi \<le> max_rune" by auto
  moreover have "c \<notin> covered rs" if "c \<le> hi" for c
    using ranges_from_above [of "hi + 1" rs c] 2 that by auto
  ultimately show ?case by (auto simp: ih [simplified])
qed auto

text \<open>
  The expansion of a Unicode property is exact. The ranges written for a table cover
  exactly its code points, strided entries included, and the ranges written for a
  negated property inside a class cover exactly the other code points up to the last.
\<close>

theorem property_ranges_exact:
  assumes "range_table_ok t" and "ranges_from 0 (table_ranges t)"
  shows "covered (table_ranges t) = table_points t \<and>
    covered (complement_ranges (table_ranges t)) = {0..max_rune} - table_points t"
  using assms complement_from_covered [OF assms(2)]
  by (simp add: complement_ranges_def table_ranges_covered)

definition demo_table :: range_table where
  "demo_table = \<lparr>rt_r16 = [(0, 31, 1), (127, 131, 2)], rt_r32 = [(69821, 69821, 1)]\<rparr>"

theorem property_ranges_exact_witness:
  "covered (complement_ranges (table_ranges demo_table)) = {0..max_rune} - table_points demo_table"
proof -
  have "range_table_ok demo_table" by (simp add: range_table_ok_def demo_table_def)
  moreover have "ranges_from 0 (table_ranges demo_table)"
    by (simp add: demo_table_def table_ranges_def append_range_def max_rune_def upt_conv_Cons)
  ultimately show ?thesis using property_ranges_exact by blast
qed

section \<open>Spellings of a code point\<close>

lemma hex_value_digit: "n < 16 \<Longrightarrow> hex_value (hex_digit n) = Some n"
  by (auto simp: hex_value_def hex_digit_def Let_def)

lemma hex_number_append:
  "hex_number acc (xs @ ys) = (case hex_number acc xs of None \<Rightarrow> None | Some v \<Rightarrow> hex_number v ys)"
  by (induction acc xs rule: hex_number.induct) (auto split: option.split)

lemma hex_number_zeros: "hex_number 0 (replicate k (CHR ''0'') @ s) = hex_number 0 s"
  by (induction k) (auto simp: hex_value_def)

lemma hex_number_hex_of: "hex_number 0 (hex_of n) = Some n"
proof (induction n rule: hex_of.induct)
  case (1 n)
  then show ?case
    by (subst hex_of.simps) (auto simp: hex_value_digit hex_number_append)
qed

lemma hex_of_length: "n < 16 ^ Suc k \<Longrightarrow> length (hex_of n) \<le> Suc k"
proof (induction k arbitrary: n)
  case 0
  then show ?case by (subst hex_of.simps) simp
next
  case (Suc k)
  then have "n div 16 < 16 ^ Suc k" by (simp add: less_mult_imp_div_less mult.commute)
  with Suc.IH [of "n div 16"] show ?case by (subst hex_of.simps) simp
qed

lemma hex_of_nonempty [simp]: "hex_of n \<noteq> []"
  by (subst hex_of.simps) simp

lemma hex_pad_length: "0 < k \<Longrightarrow> n < 16 ^ k \<Longrightarrow> length (hex_pad k n) = k"
  using hex_of_length [of n "k - 1"] by (simp add: hex_pad_def)

lemma parse_rune_pad: "n \<le> max_rune \<Longrightarrow> parse_rune (hex_pad k n) = Some n"
  by (simp add: parse_rune_def hex_pad_def hex_number_zeros hex_number_hex_of)

text \<open>
  Property (C36): a code point survives its spelling for the wire. What \<^verbatim>\<open>pyCodepoint\<close> writes for a
  code point of at least 256 is read by \<^verbatim>\<open>fixedHex\<close> as that code point, of the width it
  was written in, whatever follows; a smaller one is two hexadecimal digits.
\<close>

theorem py_codepoint_roundtrip:
  assumes "c \<le> max_rune" and "256 \<le> c"
  shows "fixed_hex (py_codepoint c @ rest) = Some (c, length (py_codepoint c))"
proof (cases "c < 0x10000")
  case True
  then have "length (hex_pad 4 c) = 4" using hex_pad_length [of 4 c] by simp
  with True assms parse_rune_pad [OF assms(1), of 4] show ?thesis
    by (simp add: py_codepoint_def fixed_hex_def Let_def)
next
  case False
  from assms(1) have "length (hex_pad 8 c) = 8"
    using hex_pad_length [of 8 c] by (simp add: max_rune_def)
  with False assms parse_rune_pad [OF assms(1), of 8] show ?thesis
    by (simp add: py_codepoint_def fixed_hex_def Let_def)
qed

theorem py_codepoint_roundtrip_witness:
  "fixed_hex (py_codepoint 128512 @ ''x'') = Some (128512, length (py_codepoint 128512))"
  by (rule py_codepoint_roundtrip) (simp_all add: max_rune_def)

section \<open>The pattern of the Artifact tool\<close>

text \<open>Two patterns that fail a DeepSeek request as they stand, and what is sent instead.\<close>

lemmas pattern_eval =
  translate_def run_pattern_def run_token_def empty_twin_def wr_both_def wr_split_def class_byte_def
  class_open_def wr_quantifier_def string_of_byte_def deepseek_dialect_def ds_escape_def octal_len_def
  octal_value_def hex_pad_def hex_of.simps hex_digit_def ds_class_literal_def Let_def

lemma zero_digit: "char_of (48 :: nat) = CHR ''0''"
  by code_simp

lemma nul_escape_respelled:
  "translate (\<lambda>s. True) deepseek_dialect (''^[^'' @ [CHR 0x5C] @ ''0]*$'') =
   Some (''^[^'' @ [CHR 0x5C] @ ''x00]*$'')"
  by (simp add: pattern_eval zero_digit)

lemma nested_bracket_escaped:
  "translate (\<lambda>s. True) deepseek_dialect (''[^./['' @ [CHR 0x5C] @ '']]'') =
   Some (''[^./'' @ [CHR 0x5C] @ ''['' @ [CHR 0x5C] @ '']]'')"
  by (simp add: pattern_eval is_ascii_letter_def is_digit_byte_def)

end
