(* ===== verification/ToolSchema.thy ===== *)
theory ToolSchema
  imports ToolDialects "HOL-Library.AList"
begin

text \<open>
  The schema walk of \<^verbatim>\<open>internal/toolschema/pattern.go\<close>: \<^verbatim>\<open>Rewrite\<close> and \<^verbatim>\<open>rewriteNode\<close>, and the
  report of a request. A decoded JSON value is a \<open>jany\<close>, an object an association list
  with distinct keys; \<^verbatim>\<open>json.Unmarshal\<close> and \<^verbatim>\<open>json.Marshal\<close> are parameters. The paths that
  a walk records are sorted at the end, so the order in which Go ranges over the maps of
  a schema does not show.
\<close>

section \<open>Values and results\<close>

datatype jany =
    AStr string
  | AObj "(string \<times> jany) list"
  | AList "jany list"
  | AOther string                       \<comment> \<open>a number, a boolean or null\<close>

record rewrite_result =
  rs_rewritten :: "string list"
  rs_dropped :: "string list"

definition empty_result :: rewrite_result where
  "empty_result = \<lparr>rs_rewritten = [], rs_dropped = []\<rparr>"

definition result_empty :: "rewrite_result \<Rightarrow> bool" where
  "result_empty r \<longleftrightarrow> rs_rewritten r = [] \<and> rs_dropped r = []"

definition join_results :: "rewrite_result list \<Rightarrow> rewrite_result" where
  "join_results rs =
     \<lparr>rs_rewritten = concat (map rs_rewritten rs), rs_dropped = concat (map rs_dropped rs)\<rparr>"

definition path_sep :: string where "path_sep = ''.''"

definition pattern_note :: string where
  "pattern_note = ''Must match the regular expression: ''"

definition schema_single_child :: "string list" where
  "schema_single_child = [''items'', ''additionalProperties'', ''additionalItems'', ''contains'', ''not'',
     ''if'', ''then'', ''else'', ''propertyNames'']"

definition schema_list_child :: "string list" where
  "schema_list_child = [''anyOf'', ''oneOf'', ''allOf'', ''prefixItems'', ''items'']"

definition schema_map_child :: "string list" where
  "schema_map_child = [''properties'', ''patternProperties'', ''definitions'', ''$defs'', ''dependentSchemas'']"

definition join_path :: "string \<Rightarrow> string \<Rightarrow> string" where
  "join_path path key = (if path = [] then key else path @ path_sep @ key)"

section \<open>One node\<close>

definition node_description :: "(string \<times> jany) list \<Rightarrow> string" where
  "node_description fs = (case map_of fs ''description'' of Some (AStr s) \<Rightarrow> s | _ \<Rightarrow> [])"

text \<open>The first part of \<^verbatim>\<open>rewriteNode\<close>: the pattern of the node itself.\<close>

definition node_pattern ::
  "(string \<Rightarrow> bool) \<Rightarrow> dialect \<Rightarrow> string \<Rightarrow> (string \<times> jany) list \<Rightarrow> (string \<times> jany) list \<times> rewrite_result" where
  "node_pattern parse d path fs =
     (case map_of fs ''pattern'' of
        Some (AStr p) \<Rightarrow>
          (case translate parse d p of
             None \<Rightarrow>
               let note = pattern_note @ p; desc = node_description fs;
                   text = (if desc = [] then note else desc @ '' '' @ note)
               in (AList.update ''description'' (AStr text) (AList.delete ''pattern'' fs),
                   empty_result\<lparr>rs_dropped := [path]\<rparr>)
           | Some out \<Rightarrow>
               if out \<noteq> p then (AList.update ''pattern'' (AStr out) fs, empty_result\<lparr>rs_rewritten := [path]\<rparr>)
               else (fs, empty_result))
      | _ \<Rightarrow> (fs, empty_result))"

section \<open>The walk\<close>

text \<open>
  Which values below the key \<open>k\<close> are schemas: the value itself, the elements of a list, or
  the values of a map, each with its path. \<open>items\<close> is in two of the lists of keys; the
  type of the value decides.
\<close>

definition is_object :: "jany \<Rightarrow> bool" where
  "is_object v = (case v of AObj fs \<Rightarrow> True | _ \<Rightarrow> False)"

definition list_path :: "string \<Rightarrow> nat \<Rightarrow> string" where
  "list_path path i = path @ path_sep @ itoa (int i)"

lemma size_field: "(k, v :: jany) \<in> set fs \<Longrightarrow> size v < Suc (size_list (size_prod (\<lambda>x. 0) size) fs)"
  by (induction fs) auto

lemma size_element: "i < length vs \<Longrightarrow> size (vs ! i :: jany) < Suc (size_list size vs)"
proof (induction vs arbitrary: i)
  case (Cons v vs)
  then show ?case by (cases i) (use Cons.IH in fastforce)+
qed simp

text \<open>
  The children are visited with their fields as they were: the keys \<open>pattern\<close> and
  \<open>description\<close>, which the first part may change, lead to no child.
\<close>

function (sequential) rewrite_node ::
  "(string \<Rightarrow> bool) \<Rightarrow> dialect \<Rightarrow> string \<Rightarrow> jany \<Rightarrow> jany \<times> rewrite_result"
and rewrite_child ::
  "(string \<Rightarrow> bool) \<Rightarrow> dialect \<Rightarrow> string \<Rightarrow> string \<Rightarrow> jany \<Rightarrow> jany \<times> rewrite_result" where
  "rewrite_node parse d path (AObj fs) =
     (let kids = map (\<lambda>(k, v). (k, rewrite_child parse d (join_path path k) k v)) fs;
          (fs', res) = node_pattern parse d path (map (\<lambda>(k, v, r). (k, v)) kids)
      in (AObj fs', join_results (res # map (\<lambda>(k, v, r). r) kids)))"
| "rewrite_node parse d path v = (v, empty_result)"
| "rewrite_child parse d path k (AObj fs) =
     (if k \<in> set schema_single_child then rewrite_node parse d path (AObj fs)
      else if k \<in> set schema_map_child then
        (let kids = map (\<lambda>(n, v). (n, rewrite_node parse d (path @ path_sep @ n) v)) fs
         in (AObj (map (\<lambda>(n, v, r). (n, v)) kids), join_results (map (\<lambda>(n, v, r). r) kids)))
      else (AObj fs, empty_result))"
| "rewrite_child parse d path k (AList vs) =
     (if k \<in> set schema_list_child then
        (let kids = map (\<lambda>(i, v). rewrite_node parse d (list_path path i) v) (enumerate 0 vs)
         in (AList (map fst kids), join_results (map snd kids)))
      else (AList vs, empty_result))"
| "rewrite_child parse d path k v = (v, empty_result)"
  by pat_completeness auto
termination
  by (relation "measure (\<lambda>x. case x of Inl (parse, d, path, v) \<Rightarrow> 2 * size v
                                    | Inr (parse, d, path, k, v) \<Rightarrow> Suc (2 * size v))")
     (auto dest!: size_field size_element simp: in_set_enumerate_eq)

text \<open>\<^verbatim>\<open>Rewrite\<close>: the bytes to send and the sorted report.\<close>

definition rewrite ::
  "(string \<Rightarrow> jany option) \<Rightarrow> (jany \<Rightarrow> string option) \<Rightarrow> (string \<Rightarrow> bool) \<Rightarrow> dialect \<Rightarrow> string \<Rightarrow> string \<times> rewrite_result" where
  "rewrite unmarshal marshal parse d raw =
     (if raw = [] then (raw, empty_result)
      else case unmarshal raw of
        Some (AObj fs) \<Rightarrow>
          (case rewrite_node parse d [] (AObj fs) of (v, res) \<Rightarrow>
             if result_empty res then (raw, res)
             else case marshal v of
                    None \<Rightarrow> (raw, empty_result)
                  | Some out \<Rightarrow>
                      (out, \<lparr>rs_rewritten = sort (rs_rewritten res), rs_dropped = sort (rs_dropped res)\<rparr>))
      | _ \<Rightarrow> (raw, empty_result))"

text \<open>The report of a request over all its tools.\<close>

definition node_path :: "string \<Rightarrow> string \<Rightarrow> string" where
  "node_path tool path = (if path = [] then tool else tool @ path_sep @ path)"

definition report_add :: "string \<Rightarrow> rewrite_result \<Rightarrow> rewrite_result \<Rightarrow> rewrite_result" where
  "report_add tool res r =
     \<lparr>rs_rewritten = rs_rewritten r @ map (node_path tool) (rs_rewritten res),
      rs_dropped = rs_dropped r @ map (node_path tool) (rs_dropped res)\<rparr>"

definition report_attrs :: "rewrite_result \<Rightarrow> (string \<times> string list) list" where
  "report_attrs r =
     (if rs_rewritten r \<noteq> [] then [(''rewritten_patterns'', rs_rewritten r)] else []) @
     (if rs_dropped r \<noteq> [] then [(''dropped_patterns'', rs_dropped r)] else [])"

section \<open>The schema nodes\<close>

text \<open>The nodes that a \<open>pattern\<close> keyword may sit on, with their paths: the specification.\<close>

inductive schema_object :: "string \<Rightarrow> jany \<Rightarrow> string \<Rightarrow> (string \<times> jany) list \<Rightarrow> bool"
  and schema_child :: "string \<Rightarrow> string \<Rightarrow> jany \<Rightarrow> string \<Rightarrow> (string \<times> jany) list \<Rightarrow> bool" where
  node_here: "schema_object path (AObj fs) path fs"
| node_below: "(k, v) \<in> set fs \<Longrightarrow> schema_child (join_path path k) k v p q \<Longrightarrow> schema_object path (AObj fs) p q"
| child_single: "k \<in> set schema_single_child \<Longrightarrow> schema_object path (AObj fs) p q \<Longrightarrow>
    schema_child path k (AObj fs) p q"
| child_list: "k \<in> set schema_list_child \<Longrightarrow> i < length vs \<Longrightarrow> schema_object (list_path path i) (vs ! i) p q \<Longrightarrow>
    schema_child path k (AList vs) p q"
| child_map: "k \<in> set schema_map_child \<Longrightarrow> (n, v) \<in> set fs \<Longrightarrow>
    schema_object (path @ path_sep @ n) v p q \<Longrightarrow> schema_child path k (AObj fs) p q"

inductive_simps schema_node_obj: "schema_object path (AObj fs) p q"
inductive_simps schema_child_obj: "schema_child path k (AObj fs) p q"
inductive_simps schema_child_list: "schema_child path k (AList vs) p q"
inductive_simps schema_leaf:
  "schema_object path (AStr s) p q" "schema_object path (AList vs) p q" "schema_object path (AOther s) p q"
  "schema_child path k (AStr s) p q" "schema_child path k (AOther s) p q"

definition node_has_pattern :: "(string \<times> jany) list \<Rightarrow> string \<Rightarrow> bool" where
  "node_has_pattern fs p \<longleftrightarrow> map_of fs ''pattern'' = Some (AStr p)"

definition drops :: "(string \<Rightarrow> bool) \<Rightarrow> dialect \<Rightarrow> (string \<times> jany) list \<Rightarrow> bool" where
  "drops parse d fs \<longleftrightarrow> (\<exists>p. node_has_pattern fs p \<and> translate parse d p = None)"

definition respells :: "(string \<Rightarrow> bool) \<Rightarrow> dialect \<Rightarrow> (string \<times> jany) list \<Rightarrow> bool" where
  "respells parse d fs \<longleftrightarrow> (\<exists>p out. node_has_pattern fs p \<and> translate parse d p = Some out \<and> out \<noteq> p)"

lemma node_pattern_report:
  "set (rs_dropped (snd (node_pattern parse d path fs))) = (if drops parse d fs then {path} else {})"
  "set (rs_rewritten (snd (node_pattern parse d path fs))) = (if respells parse d fs then {path} else {})"
  by (auto simp: node_pattern_def drops_def respells_def node_has_pattern_def empty_result_def Let_def
      split: option.splits jany.splits)

lemma child_keys_disjoint:
  "''pattern'' \<notin> set schema_single_child \<union> set schema_list_child \<union> set schema_map_child"
  "''description'' \<notin> set schema_single_child \<union> set schema_list_child \<union> set schema_map_child"
  "k \<in> set schema_single_child \<Longrightarrow> k \<notin> set schema_map_child"
  by (auto simp: schema_single_child_def schema_list_child_def schema_map_child_def)

lemma rewrite_child_pattern: "rewrite_child parse d path ''pattern'' v = (v, empty_result)"
  using child_keys_disjoint(1) by (cases v) auto

lemma kids_pattern:
  "map_of (map (\<lambda>(k, v, r). (k, v)) (map (\<lambda>(k, v). (k, rewrite_child parse d (pth k) k v)) fs)) ''pattern'' =
   map_of fs ''pattern''"
  by (induction fs) (auto simp: rewrite_child_pattern split: prod.split)

lemma kids_drops:
  "drops parse d (map (\<lambda>(k, v, r). (k, v)) (map (\<lambda>(k, v). (k, rewrite_child parse d (pth k) k v)) fs)) =
   drops parse d fs"
  "respells parse d (map (\<lambda>(k, v, r). (k, v)) (map (\<lambda>(k, v). (k, rewrite_child parse d (pth k) k v)) fs)) =
   respells parse d fs"
  by (simp_all only: drops_def respells_def node_has_pattern_def kids_pattern)

lemma join_results_sets:
  "set (rs_dropped (join_results rs)) = (\<Union>r \<in> set rs. set (rs_dropped r))"
  "set (rs_rewritten (join_results rs)) = (\<Union>r \<in> set rs. set (rs_rewritten r))"
  by (simp_all add: join_results_def)

lemma empty_result_sets [simp]: "rs_dropped empty_result = []" "rs_rewritten empty_result = []"
  by (simp_all add: empty_result_def)

lemma schema_node_paths:
  "{p. \<exists>q. schema_object path (AObj fs) p q \<and> D q} =
   (if D fs then {path} else {}) \<union>
   {p. \<exists>(k, v) \<in> set fs. \<exists>q. schema_child (join_path path k) k v p q \<and> D q}"
  by (simp only: schema_node_obj) auto

text \<open>The report of a walk, for either of the two lists.\<close>

lemma walk_report:
  "set (rs_dropped (snd (rewrite_node parse d path v))) =
     {p. \<exists>fs. schema_object path v p fs \<and> drops parse d fs} \<and>
   set (rs_rewritten (snd (rewrite_node parse d path v))) =
     {p. \<exists>fs. schema_object path v p fs \<and> respells parse d fs}"
  "set (rs_dropped (snd (rewrite_child parse d path k v))) =
     {p. \<exists>fs. schema_child path k v p fs \<and> drops parse d fs} \<and>
   set (rs_rewritten (snd (rewrite_child parse d path k v))) =
     {p. \<exists>fs. schema_child path k v p fs \<and> respells parse d fs}"
proof (induction parse d path v and parse d path k v rule: rewrite_node_rewrite_child.induct)
  case (1 parse d path fs)
  let ?kid = "\<lambda>k v. rewrite_child parse d (join_path path k) k v"
  let ?fs = "map (\<lambda>(k, v, r). (k, v)) (map (\<lambda>(k, v). (k, ?kid k v)) fs)"
  have res: "snd (rewrite_node parse d path (AObj fs)) =
      join_results (snd (node_pattern parse d path ?fs) # map (\<lambda>x. snd (?kid (fst x) (snd x))) fs)"
    by (simp add: Let_def case_prod_beta comp_def)
  have kid: "set (rs_dropped (snd (?kid k v))) =
        {p. \<exists>q. schema_child (join_path path k) k v p q \<and> drops parse d q}"
      "set (rs_rewritten (snd (?kid k v))) =
        {p. \<exists>q. schema_child (join_path path k) k v p q \<and> respells parse d q}" if "(k, v) \<in> set fs" for k v
    using 1 [OF that refl] by auto
  have "(\<Union>x \<in> set fs. set (rs_dropped (snd (?kid (fst x) (snd x))))) =
      {p. \<exists>(k, v) \<in> set fs. \<exists>q. schema_child (join_path path k) k v p q \<and> drops parse d q}"
    using kid(1) by fastforce
  moreover have "(\<Union>x \<in> set fs. set (rs_rewritten (snd (?kid (fst x) (snd x))))) =
      {p. \<exists>(k, v) \<in> set fs. \<exists>q. schema_child (join_path path k) k v p q \<and> respells parse d q}"
    using kid(2) by fastforce
  ultimately show ?case
    by (simp only: res join_results_sets list.simps set_map UN_insert node_pattern_report kids_drops
        schema_node_paths UN_simps simp_thms)
next
  case (3 parse d path k fs)
  let ?kid = "\<lambda>n v. rewrite_node parse d (path @ path_sep @ n) v"
  consider (single) "k \<in> set schema_single_child" "k \<notin> set schema_map_child"
    | (map) "k \<notin> set schema_single_child" "k \<in> set schema_map_child"
    | (none) "k \<notin> set schema_single_child" "k \<notin> set schema_map_child"
    using child_keys_disjoint(3) by blast
  then show ?case
  proof cases
    case single
    with 3(1) show ?thesis by (simp add: schema_child_obj)
  next
    case map
    then have res: "snd (rewrite_child parse d path k (AObj fs)) =
        join_results (map (\<lambda>x. snd (?kid (fst x) (snd x))) fs)"
      by (simp add: Let_def case_prod_beta comp_def)
    have kid: "set (rs_dropped (snd (?kid n v))) =
        {p. \<exists>q. schema_object (path @ path_sep @ n) v p q \<and> drops parse d q}"
      "set (rs_rewritten (snd (?kid n v))) =
        {p. \<exists>q. schema_object (path @ path_sep @ n) v p q \<and> respells parse d q}" if "(n, v) \<in> set fs" for n v
      using 3(2) [OF map that refl] by auto
    have "(\<Union>x \<in> set fs. set (rs_dropped (snd (?kid (fst x) (snd x))))) =
        {p. \<exists>(n, v) \<in> set fs. \<exists>q. schema_object (path @ path_sep @ n) v p q \<and> drops parse d q}"
      using kid(1) by fastforce
    moreover have "(\<Union>x \<in> set fs. set (rs_rewritten (snd (?kid (fst x) (snd x))))) =
        {p. \<exists>(n, v) \<in> set fs. \<exists>q. schema_object (path @ path_sep @ n) v p q \<and> respells parse d q}"
      using kid(2) by fastforce
    ultimately show ?thesis using map
      by (simp only: res join_results_sets list.simps set_map UN_simps schema_child_obj) auto
  next
    case none
    then show ?thesis by (simp add: schema_child_obj)
  qed
next
  case (4 parse d path k vs)
  let ?kid = "\<lambda>i. rewrite_node parse d (list_path path i) (vs ! i)"
  show ?case
  proof (cases "k \<in> set schema_list_child")
    case True
    have "map (\<lambda>(i, v). rewrite_node parse d (list_path path i) v) (enumerate 0 vs) = map ?kid [0 ..< length vs]"
      by (rule nth_equalityI) (simp_all add: nth_enumerate_eq)
    with True have res: "snd (rewrite_child parse d path k (AList vs)) =
        join_results (map (\<lambda>i. snd (?kid i)) [0 ..< length vs])"
      by (simp add: Let_def comp_def)
    have kid: "set (rs_dropped (snd (?kid i))) =
        {p. \<exists>q. schema_object (list_path path i) (vs ! i) p q \<and> drops parse d q}"
      "set (rs_rewritten (snd (?kid i))) =
        {p. \<exists>q. schema_object (list_path path i) (vs ! i) p q \<and> respells parse d q}" if "i < length vs" for i
    proof -
      have "(i, vs ! i) \<in> set (enumerate 0 vs)" using that by (simp add: in_set_enumerate_eq)
      from 4 [OF True this refl] show "set (rs_dropped (snd (?kid i))) =
          {p. \<exists>q. schema_object (list_path path i) (vs ! i) p q \<and> drops parse d q}"
        "set (rs_rewritten (snd (?kid i))) =
          {p. \<exists>q. schema_object (list_path path i) (vs ! i) p q \<and> respells parse d q}" by auto
    qed
    have "(\<Union>i \<in> {0..<length vs}. set (rs_dropped (snd (?kid i)))) =
        {p. \<exists>i < length vs. \<exists>q. schema_object (list_path path i) (vs ! i) p q \<and> drops parse d q}"
      using kid(1) by fastforce
    moreover have "(\<Union>i \<in> {0..<length vs}. set (rs_rewritten (snd (?kid i)))) =
        {p. \<exists>i < length vs. \<exists>q. schema_object (list_path path i) (vs ! i) p q \<and> respells parse d q}"
      using kid(2) by fastforce
    ultimately show ?thesis using True
      by (simp only: res join_results_sets set_map set_upt UN_simps schema_child_list) auto
  qed (simp add: schema_child_list)
qed (simp_all add: schema_leaf)

section \<open>Properties\<close>

lemma result_empty_sets: "result_empty r \<longleftrightarrow> set (rs_dropped r) = {} \<and> set (rs_rewritten r) = {}"
  by (auto simp: result_empty_def)

text \<open>
  The report of a rewrite is exact. The dropped paths are those of the schema nodes
  whose pattern has no translation, the rewritten paths those of the nodes whose pattern
  changes in translation, each list sorted; no data below an unknown keyword is
  visited; and a schema with nothing to report is returned byte for byte.
\<close>

theorem rewrite_report_exact:
  assumes "raw \<noteq> []" and "unmarshal raw = Some (AObj fs)"
    and "marshal (fst (rewrite_node parse d [] (AObj fs))) = Some out"
  shows "let res = snd (rewrite unmarshal marshal parse d raw) in
    set (rs_dropped res) = {p. \<exists>q. schema_object [] (AObj fs) p q \<and> drops parse d q} \<and>
    set (rs_rewritten res) = {p. \<exists>q. schema_object [] (AObj fs) p q \<and> respells parse d q} \<and>
    sorted (rs_dropped res) \<and> sorted (rs_rewritten res) \<and>
    fst (rewrite unmarshal marshal parse d raw) = (if result_empty res then raw else out)"
proof -
  obtain v r where vr: "rewrite_node parse d [] (AObj fs) = (v, r)" by fastforce
  with walk_report(1) [of parse d "[]" "AObj fs"] have sets:
    "set (rs_dropped r) = {p. \<exists>q. schema_object [] (AObj fs) p q \<and> drops parse d q}"
    "set (rs_rewritten r) = {p. \<exists>q. schema_object [] (AObj fs) p q \<and> respells parse d q}" by simp_all
  show ?thesis
  proof (cases "result_empty r")
    case True
    with assms vr have "rewrite unmarshal marshal parse d raw = (raw, r)" by (simp add: rewrite_def)
    with sets True show ?thesis by (simp add: Let_def result_empty_def)
  next
    case False
    with assms vr have "rewrite unmarshal marshal parse d raw =
        (out, \<lparr>rs_rewritten = sort (rs_rewritten r), rs_dropped = sort (rs_dropped r)\<rparr>)"
      by (simp add: rewrite_def)
    moreover from False have "\<not> result_empty \<lparr>rs_rewritten = sort (rs_rewritten r), rs_dropped = sort (rs_dropped r)\<rparr>"
      by (simp add: result_empty_sets)
    ultimately show ?thesis using sets by (simp add: Let_def)
  qed
qed

definition demo_schema :: jany where
  "demo_schema = AObj [(''properties'', AObj [(''field'', AObj [(''pattern'', AStr ''(?=a)'')])])]"

lemma demo_lookahead: "translate (\<lambda>s. True) (codex_dialect ut) ''(?=a)'' = None"
  by (simp add: translate_def run_pattern_def run_token_def codex_dialect_def codex_group_def Let_def)

theorem rewrite_report_exact_witness:
  "let res = snd (rewrite (\<lambda>s. Some demo_schema) (\<lambda>v. Some ''{}'') (\<lambda>s. True)
      (codex_dialect \<lparr>ut_categories = Map.empty, ut_scripts = Map.empty, ut_properties = Map.empty\<rparr>) ''{}'')
   in set (rs_dropped res) = {''properties.field''}"
proof -
  let ?d = "codex_dialect \<lparr>ut_categories = Map.empty, ut_scripts = Map.empty, ut_properties = Map.empty\<rparr>"
  let ?fs = "[(''properties'', AObj [(''field'', AObj [(''pattern'', AStr ''(?=a)'')])])]"
  have "{p. \<exists>q. schema_object [] (AObj ?fs) p q \<and> drops (\<lambda>s. True) ?d q} = {''properties.field''}"
    by (auto simp: schema_node_obj schema_child_obj schema_leaf drops_def node_has_pattern_def demo_lookahead
        schema_single_child_def schema_map_child_def join_path_def path_sep_def)
  with rewrite_report_exact [of "''{}''" "\<lambda>s. Some demo_schema" ?fs "\<lambda>v. Some ''{}''" "\<lambda>s. True" ?d "''{}''"]
  show ?thesis by (simp add: Let_def demo_schema_def)
qed

text \<open>
  A dropped constraint stays visible. When the pattern of a node has no translation,
  the keyword is gone from the node, its description ends in the note with the text of
  the pattern and begins with what it said before, and every other key is untouched.
\<close>

theorem dropped_pattern_noted:
  assumes "distinct (map fst fs)" and "map_of fs ''pattern'' = Some (AStr p)" and "translate parse d p = None"
  shows "\<exists>desc. map_of (fst (node_pattern parse d path fs)) ''description'' = Some (AStr desc) \<and>
      suffix (pattern_note @ p) desc \<and> prefix (node_description fs) desc \<and>
    map_of (fst (node_pattern parse d path fs)) ''pattern'' = None \<and>
    map_of (fst (node_pattern parse d path fs)) |` (- {''pattern'', ''description''}) =
      map_of fs |` (- {''pattern'', ''description''})"
proof -
  define msg where "msg = pattern_note @ p"
  define desc where "desc = (if node_description fs = [] then msg else node_description fs @ '' '' @ msg)"
  have np: "fst (node_pattern parse d path fs) = AList.update ''description'' (AStr desc) (AList.delete ''pattern'' fs)"
    using assms(2,3) by (simp add: node_pattern_def Let_def desc_def msg_def)
  have "suffix msg desc \<and> prefix (node_description fs) desc"
    by (auto simp: desc_def suffix_def)
  moreover have "map_of (AList.update ''description'' (AStr desc) (AList.delete ''pattern'' fs)) =
      (map_of fs)(''pattern'' := None, ''description'' \<mapsto> AStr desc)"
    by (simp add: update_conv' delete_conv')
  ultimately show ?thesis
    unfolding np by (intro exI [of _ desc]) (auto simp: msg_def restrict_map_def fun_eq_iff)
qed

theorem dropped_pattern_noted_witness:
  "\<exists>desc. map_of (fst (node_pattern (\<lambda>s. False) deepseek_dialect []
      [(''pattern'', AStr ''a''), (''description'', AStr ''d'')])) ''description'' = Some (AStr desc) \<and>
     suffix (pattern_note @ ''a'') desc"
proof -
  have "translate (\<lambda>s. False) deepseek_dialect ''a'' = None"
    by (simp add: translate_def split: run_result.split)
  with dropped_pattern_noted [of "[(''pattern'', AStr ''a''), (''description'', AStr ''d'')]" "''a''"
      "\<lambda>s. False" deepseek_dialect "[]"]
  show ?thesis by auto
qed

end
