(* ===== verification/WireTypes.thy ===== *)
theory WireTypes
  imports ToolSet Effort Json
begin

text \<open>
  The types on the two sides of the request translation: the Messages API request of
  \<^verbatim>\<open>internal/anthropic/schema\<close> and the Responses API request of
  \<^verbatim>\<open>internal/codex/schema\<close> with its constructors, the catalog entry of a model, and the
  JSON of the parts that a prompt cache key covers. A raw JSON message is its bytes; a
  number that is only tested for presence is kept as its JSON text.
\<close>

section \<open>Messages requests\<close>

record source =
  src_type :: string
  src_media_type :: string
  src_data :: string
  src_url :: string

text \<open>A content block; its nested content is \<^const>\<open>None\<close> for a nil \<^verbatim>\<open>*Content\<close>.\<close>

datatype block =
  Block (bk_type: string) (bk_text: string) (bk_thinking: string) (bk_signature: string)
        (bk_data: string) (bk_source: "source option") (bk_id: string) (bk_name: string)
        (bk_input: string) (bk_tool_use_id: string) (bk_content: "block list option")
        (bk_is_error: bool) (bk_tool: "tool_target option")

definition BlockText :: string where "BlockText = ''text''"
definition BlockImage :: string where "BlockImage = ''image''"
definition BlockToolUse :: string where "BlockToolUse = ''tool_use''"
definition BlockToolResult :: string where "BlockToolResult = ''tool_result''"
definition BlockThinking :: string where "BlockThinking = ''thinking''"
definition BlockRedactedThinking :: string where "BlockRedactedThinking = ''redacted_thinking''"

lemmas block_type_defs =
  BlockText_def BlockImage_def BlockToolUse_def BlockToolResult_def BlockThinking_def
  BlockRedactedThinking_def BlockToolAddition_def BlockToolRemoval_def

definition text_block :: "string \<Rightarrow> block" where
  "text_block t = Block BlockText t [] [] [] None [] [] [] [] None False None"

definition tool_use_block :: "string \<Rightarrow> string \<Rightarrow> string \<Rightarrow> block" where
  "tool_use_block i n input = Block BlockToolUse [] [] [] [] None i n input [] None False None"

definition thinking_block :: "string \<Rightarrow> string \<Rightarrow> block" where
  "thinking_block t sig = Block BlockThinking [] t sig [] None [] [] [] [] None False None"

definition content_empty :: "block list option \<Rightarrow> bool" where
  "content_empty c \<longleftrightarrow> c = None \<or> c = Some []"

record message =
  mg_role :: string
  mg_content :: "block list option"

definition RoleUser :: string where "RoleUser = ''user''"
definition RoleAssistant :: string where "RoleAssistant = ''assistant''"
definition RoleSystem :: string where "RoleSystem = ''system''"

record atool_choice =
  ac_type :: string
  ac_name :: string
  ac_disable_parallel :: bool

record messages_request =
  rq_model :: string
  rq_messages :: "message list"
  rq_max_tokens :: int
  rq_system :: "block list option"
  rq_stream :: bool
  rq_tools :: "tool list"
  rq_tool_choice :: "atool_choice option"
  rq_temperature :: "string option"
  rq_top_p :: "string option"
  rq_top_k :: "int option"
  rq_stop_sequences :: "string list"
  rq_thinking :: "(string \<times> int) option"
  rq_metadata :: string

section \<open>Responses requests\<close>

definition ItemMessage :: string where "ItemMessage = ''message''"
definition ItemFunctionCall :: string where "ItemFunctionCall = ''function_call''"
definition ItemFunctionCallOutput :: string where "ItemFunctionCallOutput = ''function_call_output''"
definition ItemReasoning :: string where "ItemReasoning = ''reasoning''"

lemmas item_type_defs =
  ItemMessage_def ItemFunctionCall_def ItemFunctionCallOutput_def ItemReasoning_def

definition PartInputText :: string where "PartInputText = ''input_text''"
definition PartInputImage :: string where "PartInputImage = ''input_image''"
definition PartOutputText :: string where "PartOutputText = ''output_text''"

lemmas part_type_defs = PartInputText_def PartInputImage_def PartOutputText_def

definition RoleDeveloper :: string where "RoleDeveloper = ''developer''"

lemmas role_defs = RoleUser_def RoleAssistant_def RoleSystem_def RoleDeveloper_def

record content_part =
  cp_type :: string
  cp_text :: string
  cp_image_url :: string

definition input_text :: "string \<Rightarrow> content_part" where
  "input_text t = \<lparr>cp_type = PartInputText, cp_text = t, cp_image_url = []\<rparr>"

definition output_text :: "string \<Rightarrow> content_part" where
  "output_text t = \<lparr>cp_type = PartOutputText, cp_text = t, cp_image_url = []\<rparr>"

definition input_image :: "string \<Rightarrow> content_part" where
  "input_image url = \<lparr>cp_type = PartInputImage, cp_text = [], cp_image_url = url\<rparr>"

text \<open>\<open>ii_summary\<close> is a pointer to a slice of summaries, each a type and a text.\<close>

record input_item =
  ii_type :: string
  ii_role :: string
  ii_content :: "content_part list"
  ii_name :: string
  ii_arguments :: string
  ii_call_id :: string
  ii_output :: "string option"
  ii_id :: string
  ii_summary :: "(string \<times> string) list option"
  ii_encrypted :: string

definition bare_item :: "string \<Rightarrow> input_item" where
  "bare_item t = \<lparr>ii_type = t, ii_role = [], ii_content = [], ii_name = [], ii_arguments = [],
                  ii_call_id = [], ii_output = None, ii_id = [], ii_summary = None, ii_encrypted = []\<rparr>"

definition message_item :: "string \<Rightarrow> content_part list \<Rightarrow> input_item" where
  "message_item role parts = (bare_item ItemMessage)\<lparr>ii_role := role, ii_content := parts\<rparr>"

definition function_call :: "string \<Rightarrow> string \<Rightarrow> string \<Rightarrow> input_item" where
  "function_call call_id n args =
     (bare_item ItemFunctionCall)\<lparr>ii_call_id := call_id, ii_name := n, ii_arguments := args\<rparr>"

definition function_call_output :: "string \<Rightarrow> string \<Rightarrow> input_item" where
  "function_call_output call_id out =
     (bare_item ItemFunctionCallOutput)\<lparr>ii_call_id := call_id, ii_output := Some out\<rparr>"

definition reasoning_item :: "string \<Rightarrow> string \<Rightarrow> input_item" where
  "reasoning_item i enc =
     (bare_item ItemReasoning)\<lparr>ii_id := i, ii_summary := Some [], ii_encrypted := enc\<rparr>"

lemmas item_defs =
  bare_item_def message_item_def function_call_def function_call_output_def reasoning_item_def

record ctool =
  ct_type :: string
  ct_name :: string
  ct_description :: string
  ct_parameters :: string

definition function_tool :: "string \<Rightarrow> string \<Rightarrow> string \<Rightarrow> ctool" where
  "function_tool n desc params =
     \<lparr>ct_type = ''function'', ct_name = n, ct_description = desc, ct_parameters = params\<rparr>"

record ctool_choice =
  cc_mode :: string
  cc_function :: string

definition mode_choice :: "string \<Rightarrow> ctool_choice" where
  "mode_choice m = \<lparr>cc_mode = m, cc_function = []\<rparr>"

definition function_choice :: "string \<Rightarrow> ctool_choice" where
  "function_choice n = \<lparr>cc_mode = [], cc_function = n\<rparr>"

record reasoning =
  rs_effort :: string
  rs_summary :: string

record responses_request =
  rr_model :: string
  rr_instructions :: string
  rr_input :: "input_item list"
  rr_tools :: "ctool list"
  rr_tool_choice :: "ctool_choice option"
  rr_parallel :: "bool option"
  rr_reasoning :: "reasoning option"
  rr_include :: "string list"
  rr_cache_key :: string
  rr_store :: bool
  rr_stream :: bool

section \<open>The catalog entry of a model\<close>

text \<open>The part of \<^verbatim>\<open>CatalogModel\<close> that a translation reads; a level is its effort and its description.\<close>

record catalog_model =
  cm_slug :: string
  cm_default_level :: string
  cm_default_summary :: string
  cm_levels :: "(string \<times> string) list"

definition supported_efforts :: "catalog_model \<Rightarrow> string list" where
  "supported_efforts m = filter (\<lambda>e. e \<noteq> []) (map fst (cm_levels m))"

section \<open>JSON\<close>

text \<open>A slice tagged \<^verbatim>\<open>omitempty\<close>, and a pointer.\<close>

definition omit_arr :: "string \<Rightarrow> json list \<Rightarrow> (string \<times> json) list" where
  "omit_arr k vs = (if vs = [] then [] else [(k, JArr vs)])"

definition omit_nil :: "string \<Rightarrow> json option \<Rightarrow> (string \<times> json) list" where
  "omit_nil k v = (case v of None \<Rightarrow> [] | Some j \<Rightarrow> [(k, j)])"

definition part_json :: "content_part \<Rightarrow> json" where
  "part_json p =
     JObj ((''type'', JStr (cp_type p)) # omit_str ''text'' (cp_text p) @ omit_str ''image_url'' (cp_image_url p))"

definition summary_json :: "string \<times> string \<Rightarrow> json" where
  "summary_json s = JObj ((''type'', JStr (fst s)) # omit_str ''text'' (snd s))"

definition item_json :: "input_item \<Rightarrow> json" where
  "item_json i =
     JObj ((''type'', JStr (ii_type i)) #
       omit_str ''role'' (ii_role i) @
       omit_arr ''content'' (map part_json (ii_content i)) @
       omit_str ''name'' (ii_name i) @
       omit_str ''arguments'' (ii_arguments i) @
       omit_str ''call_id'' (ii_call_id i) @
       omit_nil ''output'' (map_option JStr (ii_output i)) @
       omit_str ''id'' (ii_id i) @
       omit_nil ''summary'' (map_option (\<lambda>s. JArr (map summary_json s)) (ii_summary i)) @
       omit_str ''encrypted_content'' (ii_encrypted i))"

definition ctool_json :: "ctool \<Rightarrow> json" where
  "ctool_json t =
     JObj ([(''type'', JStr (ct_type t)), (''name'', JStr (ct_name t))] @
       omit_str ''description'' (ct_description t) @
       (if ct_parameters t = [] then [] else [(''parameters'', JRaw (ct_parameters t))]))"

definition choice_json :: "ctool_choice \<Rightarrow> json" where
  "choice_json c =
     (if cc_function c \<noteq> [] then JObj [(''type'', JStr ''function''), (''name'', JStr (cc_function c))]
      else JStr (cc_mode c))"

definition reasoning_json :: "reasoning \<Rightarrow> json" where
  "reasoning_json r = JObj (omit_str ''effort'' (rs_effort r) @ omit_str ''summary'' (rs_summary r))"

definition request_json :: "responses_request \<Rightarrow> json" where
  "request_json r =
     JObj ((''model'', JStr (rr_model r)) #
       omit_str ''instructions'' (rr_instructions r) @
       (''input'', if rr_input r = [] then JNull else JArr (map item_json (rr_input r))) #
       omit_arr ''tools'' (map ctool_json (rr_tools r)) @
       omit_nil ''tool_choice'' (map_option choice_json (rr_tool_choice r)) @
       omit_nil ''parallel_tool_calls'' (map_option JBool (rr_parallel r)) @
       omit_nil ''reasoning'' (map_option reasoning_json (rr_reasoning r)) @
       omit_arr ''include'' (map JStr (rr_include r)) @
       omit_str ''prompt_cache_key'' (rr_cache_key r) @
       [(''store'', JBool (rr_store r)), (''stream'', JBool (rr_stream r))])"

end
