(* ===== verification/Request.thy ===== *)
theory Request
  imports WireTypes Resolve ToolSchema Synthetic
begin

text \<open>
  \<^verbatim>\<open>internal/translate/request/request.go\<close>: a Messages request becomes a Responses request.
  The walk over the conversation keeps the buffer of content parts that the code
  flushes into message items; the specification at the end of the theory has no buffer:
  it sends every block to its items and groups the runs of parts.

  Parameters: \<open>q\<close> (quoting beyond ASCII), \<open>decode\<close> (\<^verbatim>\<open>json.Unmarshal\<close> of a reasoning
  payload), \<open>syntax_error\<close> (the error of \<^verbatim>\<open>encoding/json\<close> for an invalid value),
  \<open>unmarshal\<close>, \<open>remarshal\<close>, \<open>parse\<close> and \<open>ut\<close> (those of \<open>ToolSchema\<close>) and \<open>sha256\<close>.
\<close>

section \<open>Content\<close>

definition billing_header_prefix :: string where
  "billing_header_prefix = ''x-anthropic-billing-header:''"

definition dropped_billing_header :: string where
  "dropped_billing_header = ''system:billing-header''"

definition dropped_image :: string where
  "dropped_image = ''image: empty media_type or data''"

fun join_system_blocks :: "block list \<Rightarrow> string list \<times> string list" where
  "join_system_blocks [] = ([], [])"
| "join_system_blocks (b # bs) =
     (case join_system_blocks bs of (parts, dropped) \<Rightarrow>
        if bk_type b = BlockText then
          (if prefix billing_header_prefix (trim_space (bk_text b))
           then (parts, dropped_billing_header # dropped)
           else (bk_text b # parts, dropped))
        else (parts, (''system:'' @ bk_type b) # dropped))"

definition paragraph_break :: string where
  "paragraph_break = [CHR 0x0A, CHR 0x0A]"

definition join_system :: "block list option \<Rightarrow> string \<times> string list" where
  "join_system c =
     (if content_empty c then ([], [])
      else case join_system_blocks (the c) of
             (parts, dropped) \<Rightarrow> (join_with paragraph_break parts, dropped))"

text \<open>\<^const>\<open>None\<close> where the code reports \<^verbatim>\<open>drop\<close>.\<close>

definition image_url :: "(string \<Rightarrow> string) \<Rightarrow> source option \<Rightarrow> go_error + string option" where
  "image_url q src =
     (case src of
        None \<Rightarrow> Inl (PlainError ''translate: image block has no source'')
      | Some s \<Rightarrow>
          if src_type s = ''url'' then Inr (Some (src_url s))
          else if src_type s = ''base64'' \<or> src_type s = [] then
            (if src_media_type s = [] \<or> src_data s = [] then Inr None
             else Inr (Some (''data:'' @ src_media_type s @ '';base64,'' @ src_data s)))
          else Inl (PlainError (''translate: unsupported image source type '' @ go_quote q (src_type s))))"

definition tool_arguments :: "(string \<Rightarrow> go_error) \<Rightarrow> string \<Rightarrow> go_error + string" where
  "tool_arguments syntax_error input =
     (let trimmed = trim_space input in
      if trimmed = [] \<or> trimmed = ''null'' then Inr ''{}''
      else case json_squeeze trimmed of
             Some s \<Rightarrow> Inr s
           | None \<Rightarrow>
               let e = syntax_error trimmed
               in Inl (Wrapped (''translate: tool_use input is not valid JSON: '' @ error_text e) e))"

record flat_result =
  fl_texts :: "string list"
  fl_images :: "content_part list"
  fl_dropped :: "string list"

fun flatten_blocks :: "(string \<Rightarrow> string) \<Rightarrow> block list \<Rightarrow> flat_result \<Rightarrow> go_error + flat_result" where
  "flatten_blocks q [] r = Inr r"
| "flatten_blocks q (b # bs) r =
     (if bk_type b = BlockText then flatten_blocks q bs (r\<lparr>fl_texts := fl_texts r @ [bk_text b]\<rparr>)
      else if bk_type b = BlockImage then
        (case image_url q (bk_source b) of
           Inl e \<Rightarrow> Inl e
         | Inr None \<Rightarrow> flatten_blocks q bs (r\<lparr>fl_dropped := fl_dropped r @ [dropped_image]\<rparr>)
         | Inr (Some url) \<Rightarrow> flatten_blocks q bs (r\<lparr>fl_images := fl_images r @ [input_image url]\<rparr>))
      else flatten_blocks q bs r)"

definition empty_flat :: flat_result where
  "empty_flat = \<lparr>fl_texts = [], fl_images = [], fl_dropped = []\<rparr>"

text \<open>The text, the images and the reasons of the dropped images.\<close>

definition flatten_tool_result ::
  "(string \<Rightarrow> string) \<Rightarrow> block list option \<Rightarrow> go_error + string \<times> content_part list \<times> string list" where
  "flatten_tool_result q c =
     (if content_empty c then Inr ([], [], [])
      else case flatten_blocks q (the c) empty_flat of
             Inl e \<Rightarrow> Inl e
           | Inr r \<Rightarrow> Inr (join_with paragraph_break (fl_texts r), fl_images r, fl_dropped r))"

definition tool_error_marker :: string where
  "tool_error_marker = ''[tool error]''"

definition mark_tool_error :: "string \<Rightarrow> string" where
  "mark_tool_error t = (if t = [] then tool_error_marker else tool_error_marker @ paragraph_break @ t)"

definition with_image_placeholder :: "string \<Rightarrow> nat \<Rightarrow> string" where
  "with_image_placeholder t n =
     (let msg = ''['' @ itoa (int n) @ '' image(s) provided in the following user message]''
      in if t = [] then msg else t @ paragraph_break @ msg)"

section \<open>The walk over the conversation\<close>

record walk =
  wk_items :: "input_item list"
  wk_orphans :: "string list"
  wk_dropped_images :: "string list"
  wk_system_remapped :: nat
  wk_replayed :: nat
  wk_unreplayable :: nat
  wk_seen :: "string set"
  wk_pending :: "content_part list"     \<comment> \<open>of the current message\<close>
  wk_remapped :: bool

definition empty_walk :: walk where
  "empty_walk =
     \<lparr>wk_items = [], wk_orphans = [], wk_dropped_images = [], wk_system_remapped = 0, wk_replayed = 0,
      wk_unreplayable = 0, wk_seen = {}, wk_pending = [], wk_remapped = False\<rparr>"

definition emit_item :: "input_item \<Rightarrow> walk \<Rightarrow> walk" where
  "emit_item i w = w\<lparr>wk_items := wk_items w @ [i]\<rparr>"

definition flush_parts :: "string \<Rightarrow> walk \<Rightarrow> walk" where
  "flush_parts role w =
     (if wk_pending w = [] then w
      else
        let w = (emit_item (message_item role (wk_pending w)) w)\<lparr>wk_pending := []\<rparr>
        in if wk_remapped w
           then w\<lparr>wk_system_remapped := wk_system_remapped w + 1, wk_remapped := False\<rparr> else w)"

definition add_part :: "content_part \<Rightarrow> walk \<Rightarrow> walk" where
  "add_part p w = w\<lparr>wk_pending := wk_pending w @ [p]\<rparr>"

definition text_part :: "string \<Rightarrow> string \<Rightarrow> content_part" where
  "text_part role t = (if role = RoleAssistant then output_text t else input_text t)"

text \<open>The part of the case \<^verbatim>\<open>tool_result\<close> after the content is flattened.\<close>

definition result_output :: "bool \<Rightarrow> string \<Rightarrow> content_part list \<Rightarrow> string" where
  "result_output is_error t images =
     (let t = (if is_error then mark_tool_error t else t)
      in if images \<noteq> [] then with_image_placeholder t (length images) else t)"

definition result_items :: "block \<Rightarrow> string \<Rightarrow> content_part list \<Rightarrow> input_item list" where
  "result_items b t images =
     function_call_output (bk_tool_use_id b) (result_output (bk_is_error b) t images) #
     (if images \<noteq> [] then [message_item RoleUser images] else [])"

definition walk_tool_use :: "(string \<Rightarrow> go_error) \<Rightarrow> string \<Rightarrow> block \<Rightarrow> walk \<Rightarrow> go_error + walk" where
  "walk_tool_use se role b w =
     (let w = flush_parts role w in
      case tool_arguments se (bk_input b) of
        Inl e \<Rightarrow> Inl e
      | Inr args \<Rightarrow>
          Inr (emit_item (function_call (bk_id b) (bk_name b) args)
                 (w\<lparr>wk_seen := insert (bk_id b) (wk_seen w)\<rparr>)))"

definition walk_tool_result :: "(string \<Rightarrow> string) \<Rightarrow> string \<Rightarrow> block \<Rightarrow> walk \<Rightarrow> go_error + walk" where
  "walk_tool_result q role b w =
     (let w = flush_parts role w;
          w = (if bk_tool_use_id b \<in> wk_seen w then w
               else w\<lparr>wk_orphans := wk_orphans w @ [bk_tool_use_id b]\<rparr>)
      in case flatten_tool_result q (bk_content b) of
           Inl e \<Rightarrow> Inl e
         | Inr (t, images, dropped) \<Rightarrow>
             Inr (fold emit_item (result_items b t images)
                    (w\<lparr>wk_dropped_images := wk_dropped_images w @ dropped\<rparr>)))"

definition walk_thinking ::
  "(string \<Rightarrow> reasoning_payload option) \<Rightarrow> string \<Rightarrow> block \<Rightarrow> walk \<Rightarrow> walk" where
  "walk_thinking decode role b w =
     (let sig = (if bk_type b = BlockRedactedThinking then bk_data b else bk_signature b) in
      case decode_reasoning_signature decode sig of
        Some (i, enc) \<Rightarrow>
          let w = emit_item (reasoning_item i enc) (flush_parts role w)
          in w\<lparr>wk_replayed := wk_replayed w + 1\<rparr>
      | None \<Rightarrow> w\<lparr>wk_unreplayable := wk_unreplayable w + 1\<rparr>)"

record walk_env =
  we_quote :: "string \<Rightarrow> string"
  we_decode :: "string \<Rightarrow> reasoning_payload option"
  we_syntax_error :: "string \<Rightarrow> go_error"

definition walk_block :: "walk_env \<Rightarrow> string \<Rightarrow> block \<Rightarrow> walk \<Rightarrow> go_error + walk" where
  "walk_block ev role b w =
     (if bk_type b = BlockText then Inr (add_part (text_part role (bk_text b)) w)
      else if bk_type b = BlockImage then
        (case image_url (we_quote ev) (bk_source b) of
           Inl e \<Rightarrow> Inl e
         | Inr None \<Rightarrow> Inr (w\<lparr>wk_dropped_images := wk_dropped_images w @ [dropped_image]\<rparr>)
         | Inr (Some url) \<Rightarrow> Inr (add_part (input_image url) w))
      else if bk_type b = BlockToolUse then walk_tool_use (we_syntax_error ev) role b w
      else if bk_type b = BlockToolResult then walk_tool_result (we_quote ev) role b w
      else if bk_type b = BlockThinking \<or> bk_type b = BlockRedactedThinking
      then Inr (walk_thinking (we_decode ev) role b w)
      else Inr w)"

fun walk_blocks :: "walk_env \<Rightarrow> string \<Rightarrow> block list \<Rightarrow> walk \<Rightarrow> go_error + walk" where
  "walk_blocks ev role [] w = Inr w"
| "walk_blocks ev role (b # bs) w =
     (case walk_block ev role b w of Inl e \<Rightarrow> Inl e | Inr w' \<Rightarrow> walk_blocks ev role bs w')"

definition input_role :: "string \<Rightarrow> string" where
  "input_role role = (if role = RoleSystem then RoleDeveloper else role)"

definition walk_message :: "walk_env \<Rightarrow> message \<Rightarrow> walk \<Rightarrow> go_error + walk" where
  "walk_message ev m w =
     (case mg_content m of
        None \<Rightarrow> Inr w
      | Some bs \<Rightarrow>
          let role = input_role (mg_role m) in
          map_sum id (flush_parts role)
            (walk_blocks ev role bs (w\<lparr>wk_pending := [], wk_remapped := (mg_role m = RoleSystem)\<rparr>)))"

fun walk_messages :: "walk_env \<Rightarrow> message list \<Rightarrow> walk \<Rightarrow> go_error + walk" where
  "walk_messages ev [] w = Inr w"
| "walk_messages ev (m # ms) w =
     (case walk_message ev m w of Inl e \<Rightarrow> Inl e | Inr w' \<Rightarrow> walk_messages ev ms w')"

definition translate_messages :: "walk_env \<Rightarrow> message list \<Rightarrow> go_error + walk" where
  "translate_messages ev ms = walk_messages ev ms empty_walk"

section \<open>Tools\<close>

definition default_mutating_tools :: "string \<rightharpoonup> bool" where
  "default_mutating_tools =
     map_of [(''Edit'', True), (''MultiEdit'', True), (''Write'', True), (''NotebookEdit'', True),
             (''Bash'', True), (''BashOutput'', True), (''KillShell'', True)]"

record options =
  op_beta_effort :: level
  op_config_effort :: level
  op_summary :: string
  op_mutating :: "(string \<rightharpoonup> bool) option"

definition mutating_set :: "options \<Rightarrow> string \<rightharpoonup> bool" where
  "mutating_set opts = (case op_mutating opts of Some m \<Rightarrow> m | None \<Rightarrow> default_mutating_tools)"

record schema_env =
  se_unmarshal :: "string \<Rightarrow> jany option"
  se_marshal :: "jany \<Rightarrow> string option"
  se_parse :: "string \<Rightarrow> bool"
  se_tables :: unicode_tables

fun translate_tools :: "schema_env \<Rightarrow> tool list \<Rightarrow> ctool list \<times> rewrite_result \<Rightarrow> ctool list \<times> rewrite_result" where
  "translate_tools sv [] acc = acc"
| "translate_tools sv (t # ts) (out, report) =
     (case rewrite (se_unmarshal sv) (se_marshal sv) (se_parse sv) (codex_dialect (se_tables sv)) (tl_input_schema t) of
        (params, res) \<Rightarrow>
          translate_tools sv ts
            (out @ [function_tool (tl_name t) (tl_description t) params], report_add (tl_name t) res report))"

definition translate_tool_choice :: "atool_choice option \<Rightarrow> ctool_choice option" where
  "translate_tool_choice tc =
     (case tc of
        None \<Rightarrow> None
      | Some c \<Rightarrow>
          if ac_type c = ''auto'' then Some (mode_choice ''auto'')
          else if ac_type c = ''any'' then Some (mode_choice ''required'')
          else if ac_type c = ''none'' then Some (mode_choice ''none'')
          else if ac_type c = ''tool'' then Some (function_choice (ac_name c))
          else None)"

definition disable_parallel :: "tool list \<Rightarrow> (string \<rightharpoonup> bool) \<Rightarrow> bool \<times> string list" where
  "disable_parallel ts mutating =
     (let hits = filter (\<lambda>n. mutating n = Some True) (map tl_name ts)
      in if hits = [] then (False, []) else (True, sort hits))"

datatype disable_reason = DisableNone | DisableClientFlag | DisableToolTrigger | DisableBoth

definition reason_of :: "bool \<Rightarrow> bool \<Rightarrow> disable_reason" where
  "reason_of tools client =
     (if tools \<and> client then DisableBoth else if tools then DisableToolTrigger
      else if client then DisableClientFlag else DisableNone)"

section \<open>Reasoning\<close>

definition summary_none :: string where "summary_none = ''none''"

record effort_result =
  er_requested :: level
  er_applied :: level
  er_source :: effort_source
  er_clamped :: bool

definition choose_effort :: "decision \<Rightarrow> catalog_model \<Rightarrow> options \<Rightarrow> level \<times> effort_source" where
  "choose_effort dec model opts =
     (if dc_effort dec \<noteq> [] \<and> (dc_source dec = SourceSuffix \<or> dc_source dec = SourceBody)
      then (dc_effort dec, dc_source dec)
      else if op_beta_effort opts \<noteq> [] then (op_beta_effort opts, SourceBeta)
      else if op_config_effort opts \<noteq> [] then (op_config_effort opts, SourceConfig)
      else if cm_default_level model \<noteq> [] then (cm_default_level model, SourceCatalog)
      else ([], SourceNone))"

definition clamp_effort :: "level \<Rightarrow> catalog_model \<Rightarrow> level \<times> bool" where
  "clamp_effort requested model = clamp requested (supported_efforts model)"

definition translate_reasoning ::
  "decision \<Rightarrow> catalog_model \<Rightarrow> options \<Rightarrow> reasoning option \<times> effort_result \<times> string" where
  "translate_reasoning dec model opts =
     (let (requested, src) = choose_effort dec model opts;
          (applied, clamped) = clamp_effort requested model;
          res = \<lparr>er_requested = requested, er_applied = applied, er_source = src, er_clamped = clamped\<rparr>;
          summary = (if op_summary opts = [] then cm_default_summary model else op_summary opts);
          emit_summary = (if summary = summary_none then [] else summary)
      in if applied = [] \<and> emit_summary = [] then (None, res, emit_summary)
         else (Some \<lparr>rs_effort = applied, rs_summary = emit_summary\<rparr>, res, emit_summary))"

section \<open>The whole request\<close>

definition dropped_params :: "messages_request \<Rightarrow> string list" where
  "dropped_params r =
     (if rq_temperature r \<noteq> None then [''temperature''] else []) @
     (if rq_top_p r \<noteq> None then [''top_p''] else []) @
     (if rq_top_k r \<noteq> None then [''top_k''] else []) @
     [''max_tokens''] @
     (if rq_stop_sequences r \<noteq> [] then [''stop_sequences''] else []) @
     (if rq_thinking r \<noteq> None then [''thinking''] else [])"

definition hex_encode :: "string \<Rightarrow> string" where
  "hex_encode s = concat (map (\<lambda>c. [hex_digit (of_char c div 16), hex_digit (of_char c mod 16)]) s)"

text \<open>What the key names: the parts of a request that a growing conversation keeps.\<close>

definition key_json :: "responses_request \<Rightarrow> json" where
  "key_json r =
     JObj ([(''model'', JStr (rr_model r)), (''instructions'', JStr (rr_instructions r)),
            (''tools'', if rr_tools r = [] then JNull else JArr (map ctool_json (rr_tools r)))] @
       (case rr_input r of [] \<Rightarrow> [] | i # _ \<Rightarrow> [(''first'', item_json i)]))"

definition prompt_cache_key :: "(string \<Rightarrow> string) \<Rightarrow> responses_request \<Rightarrow> string" where
  "prompt_cache_key sha256 r =
     (case json_marshal (key_json r) of
        None \<Rightarrow> []
      | Some b \<Rightarrow> ''utq-'' @ hex_encode (take 16 (sha256 b)))"

record metadata =
  md_dropped_params :: "string list"
  md_dropped_system :: "string list"
  md_system_remapped :: nat
  md_effort :: effort_result
  md_summary :: string
  md_disable_reason :: disable_reason
  md_disable_triggers :: "string list"
  md_orphans :: "string list"
  md_dropped_images :: "string list"
  md_hoisted :: "string list"
  md_removed :: "string list"
  md_patterns :: rewrite_result
  md_replayed :: nat
  md_unreplayable :: nat
  md_cache_key :: string

definition err_tool_change :: go_error where
  "err_tool_change = Sentinel ''invalid tool change''"

definition tool_blocks :: "message list \<Rightarrow> tool_block list option list" where
  "tool_blocks ms =
     map (\<lambda>m. map_option (map (\<lambda>b. \<lparr>tb_type = bk_type b, tb_tool = bk_tool b\<rparr>)) (mg_content m)) ms"

text \<open>The request once the walk and the tool changes have succeeded.\<close>

definition assemble ::
  "schema_env \<Rightarrow> (string \<Rightarrow> string) \<Rightarrow> messages_request \<Rightarrow> decision \<Rightarrow> catalog_model \<Rightarrow> options \<Rightarrow>
   walk \<Rightarrow> tool_changes \<Rightarrow> responses_request \<times> metadata" where
  "assemble sv sha256 req dec model opts w ch =
     (let (instructions, system_dropped) = join_system (rq_system req);
          (tools, patterns) = translate_tools sv (tc_tools ch) ([], empty_result);
          choice = (if tc_tools ch = [] \<and> tc_removed ch \<noteq> [] then None
                    else translate_tool_choice (rq_tool_choice req));
          (disabled, names) = disable_parallel (tc_tools ch) (mutating_set opts);
          client = (case rq_tool_choice req of None \<Rightarrow> False | Some c \<Rightarrow> ac_disable_parallel c);
          reason = reason_of disabled client;
          (reasoning, effort, summary) = translate_reasoning dec model opts;
          out = \<lparr>rr_model = dc_upstream dec, rr_instructions = instructions, rr_input = wk_items w,
                 rr_tools = tools, rr_tool_choice = choice,
                 rr_parallel = (if reason = DisableNone then None else Some False),
                 rr_reasoning = reasoning, rr_include = [''reasoning.encrypted_content''],
                 rr_cache_key = [], rr_store = False, rr_stream = True\<rparr>;
          key = prompt_cache_key sha256 out
      in (out\<lparr>rr_cache_key := key\<rparr>,
          \<lparr>md_dropped_params = dropped_params req, md_dropped_system = system_dropped,
           md_system_remapped = wk_system_remapped w, md_effort = effort, md_summary = summary,
           md_disable_reason = reason,
           md_disable_triggers = (if reason = DisableNone then [] else names),
           md_orphans = wk_orphans w, md_dropped_images = wk_dropped_images w,
           md_hoisted = tc_hoisted ch, md_removed = tc_removed ch, md_patterns = patterns,
           md_replayed = wk_replayed w, md_unreplayable = wk_unreplayable w, md_cache_key = key\<rparr>))"

definition translate_request ::
  "walk_env \<Rightarrow> schema_env \<Rightarrow> (string \<Rightarrow> string) \<Rightarrow> messages_request option \<Rightarrow> decision \<Rightarrow> catalog_model \<Rightarrow>
   options \<Rightarrow> go_error + responses_request \<times> metadata" where
  "translate_request ev sv sha256 req dec model opts =
     (case req of
        None \<Rightarrow> Inl (PlainError ''translate: nil request'')
      | Some r \<Rightarrow>
          (case translate_messages ev (rq_messages r) of
             Inl e \<Rightarrow> Inl e
           | Inr w \<Rightarrow>
               (case resolve_tool_changes (we_quote ev) (tool_blocks (rq_messages r)) (rq_tools r) of
                  Inl e \<Rightarrow> Inl (Wrapped (error_text err_tool_change @ '': '' @ error_text e) err_tool_change)
                | Inr ch \<Rightarrow> Inr (assemble sv sha256 r dec model opts w ch))))"

end
