(* ===== verification/RequestSpec.thy ===== *)
theory RequestSpec
  imports Request
begin

text \<open>
  What the request translation promises. The specification of the walk has no state: each
  block contributes parts or whole items, and a run of parts between items is one message
  item. The walk of \<open>Request\<close> is shown to compute it, errors included; the other
  properties (well-formed items, exact bookkeeping, a stable prompt prefix) follow.
\<close>

section \<open>The specification of the walk\<close>

datatype piece = Part content_part | Items "input_item list"

definition is_part :: "piece \<Rightarrow> bool" where
  "is_part p \<longleftrightarrow> (case p of Part x \<Rightarrow> True | Items is \<Rightarrow> False)"

definition block_pieces :: "walk_env \<Rightarrow> string \<Rightarrow> block \<Rightarrow> go_error + piece list" where
  "block_pieces ev role b =
     (if bk_type b = BlockText then Inr [Part (text_part role (bk_text b))]
      else if bk_type b = BlockImage then
        (case image_url (we_quote ev) (bk_source b) of
           Inl e \<Rightarrow> Inl e | Inr None \<Rightarrow> Inr [] | Inr (Some url) \<Rightarrow> Inr [Part (input_image url)])
      else if bk_type b = BlockToolUse then
        (case tool_arguments (we_syntax_error ev) (bk_input b) of
           Inl e \<Rightarrow> Inl e | Inr args \<Rightarrow> Inr [Items [function_call (bk_id b) (bk_name b) args]])
      else if bk_type b = BlockToolResult then
        (case flatten_tool_result (we_quote ev) (bk_content b) of
           Inl e \<Rightarrow> Inl e | Inr (t, images, dropped) \<Rightarrow> Inr [Items (result_items b t images)])
      else if bk_type b = BlockThinking \<or> bk_type b = BlockRedactedThinking then
        (case decode_reasoning_signature (we_decode ev)
                (if bk_type b = BlockRedactedThinking then bk_data b else bk_signature b) of
           Some (i, enc) \<Rightarrow> Inr [Items [reasoning_item i enc]] | None \<Rightarrow> Inr [])
      else Inr [])"

text \<open>The parts in \<open>acc\<close> come before the pieces and join the first run.\<close>

fun group_pieces :: "string \<Rightarrow> content_part list \<Rightarrow> piece list \<Rightarrow> input_item list" where
  "group_pieces role acc [] = (if acc = [] then [] else [message_item role acc])"
| "group_pieces role acc (Part p # ps) = group_pieces role (acc @ [p]) ps"
| "group_pieces role acc (Items is # ps) =
     (if acc = [] then [] else [message_item role acc]) @ is @ group_pieces role [] ps"

definition spec_message :: "walk_env \<Rightarrow> message \<Rightarrow> go_error + input_item list" where
  "spec_message ev m =
     (case mg_content m of
        None \<Rightarrow> Inr []
      | Some bs \<Rightarrow>
          map_sum id (group_pieces (input_role (mg_role m)) [] \<circ> concat)
            (traverse (block_pieces ev (input_role (mg_role m))) bs))"

definition spec_items :: "walk_env \<Rightarrow> message list \<Rightarrow> go_error + input_item list" where
  "spec_items ev ms = map_sum id concat (traverse (spec_message ev) ms)"

section \<open>The walk computes the specification\<close>

lemma flush_parts_items [simp]:
  "wk_items (flush_parts role w) =
     wk_items w @ (if wk_pending w = [] then [] else [message_item role (wk_pending w)])"
  "wk_pending (flush_parts role w) = []"
  by (simp_all add: flush_parts_def emit_item_def Let_def)

lemma fold_emit [simp]:
  "wk_items (fold emit_item is w) = wk_items w @ is"
  "wk_pending (fold emit_item is w) = wk_pending w"
  by (induction "is" arbitrary: w) (simp_all add: emit_item_def)

text \<open>One block: the pieces of the specification, run through the buffer.\<close>

definition feed_piece :: "string \<Rightarrow> piece \<Rightarrow> input_item list \<times> content_part list \<Rightarrow> input_item list \<times> content_part list" where
  "feed_piece role p s =
     (case p of
        Part x \<Rightarrow> (fst s, snd s @ [x])
      | Items is \<Rightarrow> (fst s @ (if snd s = [] then [] else [message_item role (snd s)]) @ is, []))"

definition buffer :: "walk \<Rightarrow> input_item list \<times> content_part list" where
  "buffer w = (wk_items w, wk_pending w)"

lemma group_feed:
  "fst s @ group_pieces role (snd s) ps =
     (let (items, pend) = fold (feed_piece role) ps s
      in items @ (if pend = [] then [] else [message_item role pend]))"
proof (induction ps arbitrary: s)
  case (Cons p ps)
  show ?case
  proof (cases p)
    case (Part x)
    then show ?thesis using Cons [of "feed_piece role p s"] by (simp add: feed_piece_def)
  next
    case (Items "is")
    then show ?thesis using Cons [of "feed_piece role p s"] by (simp add: feed_piece_def)
  qed
qed (simp add: Let_def split: prod.split)

lemma walk_block_feeds:
  "map_sum id buffer (walk_block ev role b w) =
     map_sum id (\<lambda>ps. fold (feed_piece role) ps (buffer w)) (block_pieces ev role b)"
  by (auto simp: walk_block_def block_pieces_def walk_tool_use_def walk_tool_result_def walk_thinking_def
      buffer_def feed_piece_def add_part_def Let_def emit_item_def [of "function_call _ _ _"]
      emit_item_def [of "reasoning_item _ _"] split: sum.splits option.splits prod.splits)

lemma walk_blocks_feed:
  "map_sum id buffer (walk_blocks ev role bs w) =
     map_sum id (\<lambda>pss. fold (feed_piece role) (concat pss) (buffer w)) (traverse (block_pieces ev role) bs)"
proof (induction bs arbitrary: w)
  case (Cons b bs)
  note step = walk_block_feeds [of ev role b w]
  show ?case
  proof (cases "walk_block ev role b w")
    case (Inl e)
    with step show ?thesis by (cases "block_pieces ev role b") simp_all
  next
    case (Inr w')
    with step obtain ps where ps: "block_pieces ev role b = Inr ps" "buffer w' = fold (feed_piece role) ps (buffer w)"
      by (cases "block_pieces ev role b") simp_all
    with Inr Cons [of w'] show ?thesis
      by (cases "traverse (block_pieces ev role) bs") simp_all
  qed
qed simp

lemma walk_message_items:
  "map_sum id wk_items (walk_message ev m w) =
     map_sum id (\<lambda>is. wk_items w @ is) (spec_message ev m)"
proof (cases "mg_content m")
  case (Some bs)
  let ?role = "input_role (mg_role m)"
  let ?w = "w\<lparr>wk_pending := [], wk_remapped := (mg_role m = RoleSystem)\<rparr>"
  note feed = walk_blocks_feed [of ev ?role bs ?w]
  show ?thesis
  proof (cases "walk_blocks ev ?role bs ?w")
    case (Inl e)
    with feed Some show ?thesis
      by (cases "traverse (block_pieces ev ?role) bs") (simp_all add: walk_message_def spec_message_def)
  next
    case (Inr w')
    with feed obtain pss where pss: "traverse (block_pieces ev ?role) bs = Inr pss"
      "buffer w' = fold (feed_piece ?role) (concat pss) (wk_items w, [])"
      by (cases "traverse (block_pieces ev ?role) bs") (simp_all add: buffer_def)
    with group_feed [of "(wk_items w, [])" ?role "concat pss"]
    have "wk_items w @ group_pieces ?role [] (concat pss) = wk_items (flush_parts ?role w')"
      by (simp add: buffer_def prod_eq_iff Let_def split: prod.splits)
    with Inr Some pss(1) show ?thesis by (simp add: walk_message_def spec_message_def)
  qed
qed (simp add: walk_message_def spec_message_def)

lemma walk_messages_items:
  "map_sum id wk_items (walk_messages ev ms w) =
     map_sum id (\<lambda>iss. wk_items w @ concat iss) (traverse (spec_message ev) ms)"
proof (induction ms arbitrary: w)
  case (Cons m ms)
  note step = walk_message_items [of ev m w]
  show ?case
  proof (cases "walk_message ev m w")
    case (Inl e)
    with step show ?thesis by (cases "spec_message ev m") simp_all
  next
    case (Inr w')
    with step obtain "is" where "spec_message ev m = Inr is" "wk_items w' = wk_items w @ is"
      by (cases "spec_message ev m") simp_all
    with Inr Cons [of w'] show ?thesis by (cases "traverse (spec_message ev) ms") simp_all
  qed
qed simp

text \<open>
  Property (C7): the buffered walk over a conversation is the stateless specification. It yields
  the same input items, and when a block is at fault the same first error: every block
  goes to its parts or items in order, and each run of parts between two items of a
  message is one message item, so nothing is lost, repeated or moved across an item.
\<close>

theorem translate_messages_refines:
  "map_sum id wk_items (translate_messages ev ms) = spec_items ev ms"
  unfolding translate_messages_def spec_items_def walk_messages_items by (simp add: empty_walk_def)

section \<open>Bookkeeping\<close>

definition flat_blocks :: "message list \<Rightarrow> block list" where
  "flat_blocks ms = concat (map (\<lambda>m. case mg_content m of None \<Rightarrow> [] | Some bs \<Rightarrow> bs) ms)"

definition is_tool_use :: "block \<Rightarrow> bool" where "is_tool_use b \<longleftrightarrow> bk_type b = BlockToolUse"
definition is_tool_result :: "block \<Rightarrow> bool" where "is_tool_result b \<longleftrightarrow> bk_type b = BlockToolResult"
definition is_thinking :: "block \<Rightarrow> bool" where
  "is_thinking b \<longleftrightarrow> bk_type b = BlockThinking \<or> bk_type b = BlockRedactedThinking"

text \<open>What the walk knows beside the items: the calls seen, the orphans and the thinking blocks.\<close>

definition books :: "walk \<Rightarrow> string set \<times> string list \<times> nat" where
  "books w = (wk_seen w, wk_orphans w, wk_replayed w + wk_unreplayable w)"

definition book_step :: "block \<Rightarrow> string set \<times> string list \<times> nat \<Rightarrow> string set \<times> string list \<times> nat" where
  "book_step b s =
     (case s of (seen, orphans, n) \<Rightarrow>
        (if is_tool_use b then insert (bk_id b) seen else seen,
         if is_tool_result b \<and> bk_tool_use_id b \<notin> seen then orphans @ [bk_tool_use_id b] else orphans,
         if is_thinking b then n + 1 else n))"

lemma flush_books [simp]:
  "wk_seen (flush_parts role w) = wk_seen w" "wk_orphans (flush_parts role w) = wk_orphans w"
  "wk_replayed (flush_parts role w) = wk_replayed w"
  "wk_unreplayable (flush_parts role w) = wk_unreplayable w"
  by (simp_all add: flush_parts_def emit_item_def Let_def)

lemma fold_emit_books [simp]:
  "wk_seen (fold emit_item is w) = wk_seen w" "wk_orphans (fold emit_item is w) = wk_orphans w"
  "wk_replayed (fold emit_item is w) = wk_replayed w"
  "wk_unreplayable (fold emit_item is w) = wk_unreplayable w"
  by (induction "is" arbitrary: w) (simp_all add: emit_item_def)

lemma block_types_distinct:
  "distinct [BlockText, BlockImage, BlockToolUse, BlockToolResult, BlockThinking, BlockRedactedThinking]"
  by (simp add: block_type_defs)

lemma walk_tool_use_books:
  "walk_tool_use se role b w = Inr w' \<Longrightarrow>
   books w' = (insert (bk_id b) (wk_seen w), wk_orphans w, wk_replayed w + wk_unreplayable w)"
  by (auto simp: walk_tool_use_def Let_def books_def emit_item_def split: sum.splits)

lemma walk_tool_result_books:
  "walk_tool_result q role b w = Inr w' \<Longrightarrow>
   books w' = (wk_seen w,
     if bk_tool_use_id b \<notin> wk_seen w then wk_orphans w @ [bk_tool_use_id b] else wk_orphans w,
     wk_replayed w + wk_unreplayable w)"
  by (auto simp: walk_tool_result_def Let_def books_def split: sum.splits)

lemma walk_thinking_books:
  "books (walk_thinking d role b w) = (wk_seen w, wk_orphans w, wk_replayed w + wk_unreplayable w + 1)"
  by (auto simp: walk_thinking_def Let_def books_def emit_item_def split: option.splits)

lemma walk_block_books:
  assumes "walk_block ev role b w = Inr w'"
  shows "books w' = book_step b (books w)"
proof -
  have plain: "books (add_part p w) = books w"
    "books (w\<lparr>wk_dropped_images := ds\<rparr>) = books w" for p ds
    by (simp_all add: books_def add_part_def)
  note facts = walk_block_def book_step_def is_tool_use_def is_tool_result_def is_thinking_def block_type_defs
  consider "bk_type b = BlockText" | "bk_type b = BlockImage" | "bk_type b = BlockToolUse"
    | "bk_type b = BlockToolResult" | "is_thinking b"
    | "bk_type b \<notin> {BlockText, BlockImage, BlockToolUse, BlockToolResult}" "\<not> is_thinking b"
    by auto
  then show ?thesis
  proof cases
    case 1
    with assms show ?thesis by (auto simp: facts plain books_def [of w])
  next
    case 2
    with assms show ?thesis by (auto simp: facts plain books_def [of w] split: sum.splits option.splits)
  next
    case 3
    with assms have "walk_tool_use (we_syntax_error ev) role b w = Inr w'" by (simp add: facts)
    from walk_tool_use_books [OF this] 3 show ?thesis by (simp add: facts books_def)
  next
    case 4
    with assms have "walk_tool_result (we_quote ev) role b w = Inr w'" by (simp add: facts)
    from walk_tool_result_books [OF this] 4 show ?thesis by (simp add: facts books_def)
  next
    case 5
    then have "bk_type b \<notin> {BlockText, BlockImage, BlockToolUse, BlockToolResult}"
      using block_types_distinct by (auto simp: is_thinking_def)
    with assms 5 have "w' = walk_thinking (we_decode ev) role b w" by (auto simp: walk_block_def is_thinking_def)
    with walk_thinking_books 5 \<open>bk_type b \<notin> _\<close> show ?thesis
      by (simp add: book_step_def is_tool_use_def is_tool_result_def books_def)
  next
    case 6
    with assms show ?thesis
      by (simp add: walk_block_def is_thinking_def book_step_def is_tool_use_def is_tool_result_def books_def)
  qed
qed

lemma walk_blocks_books: "walk_blocks ev role bs w = Inr w' \<Longrightarrow> books w' = fold book_step bs (books w)"
proof (induction bs arbitrary: w)
  case (Cons b bs)
  then obtain v where "walk_block ev role b w = Inr v" "walk_blocks ev role bs v = Inr w'"
    by (auto split: sum.splits)
  with Cons.IH [of v] walk_block_books show ?case by fastforce
qed simp

lemma walk_messages_books: "walk_messages ev ms w = Inr w' \<Longrightarrow> books w' = fold book_step (flat_blocks ms) (books w)"
proof (induction ms arbitrary: w)
  case (Cons m ms)
  then obtain v where v: "walk_message ev m w = Inr v" "walk_messages ev ms v = Inr w'"
    by (auto split: sum.splits)
  have "books v = fold book_step (case mg_content m of None \<Rightarrow> [] | Some bs \<Rightarrow> bs) (books w)"
  proof (cases "mg_content m")
    case (Some bs)
    with v(1) obtain x where x: "walk_blocks ev (input_role (mg_role m)) bs
        (w\<lparr>wk_pending := [], wk_remapped := (mg_role m = RoleSystem)\<rparr>) = Inr x"
      "v = flush_parts (input_role (mg_role m)) x"
      by (auto simp: walk_message_def Let_def map_sum_def split: sum.splits)
    from walk_blocks_books [OF x(1)] x(2) Some show ?thesis by (simp add: books_def)
  qed (use v(1) in \<open>simp add: walk_message_def\<close>)
  with Cons.IH [OF v(2)] show ?case by (simp add: flat_blocks_def)
qed (simp add: flat_blocks_def)

text \<open>The indices of the tool results that no earlier tool use answers to.\<close>

definition orphan_at :: "block list \<Rightarrow> nat \<Rightarrow> bool" where
  "orphan_at bs i \<longleftrightarrow> is_tool_result (bs ! i) \<and>
     \<not> list_ex (\<lambda>b. is_tool_use b \<and> bk_id b = bk_tool_use_id (bs ! i)) (take i bs)"

lemma fold_book_step:
  "fold book_step bs ({}, [], 0) =
     (bk_id ` {b \<in> set bs. is_tool_use b},
      map (\<lambda>i. bk_tool_use_id (bs ! i)) (filter (orphan_at bs) [0 ..< length bs]),
      length (filter is_thinking bs))"
proof (induction bs rule: rev_induct)
  case (snoc b bs)
  have old: "orphan_at (bs @ [b]) i \<longleftrightarrow> orphan_at bs i" "(bs @ [b]) ! i = bs ! i" if "i < length bs" for i
    using that by (simp_all add: orphan_at_def nth_append)
  have "map (\<lambda>i. bk_tool_use_id ((bs @ [b]) ! i)) (filter (orphan_at (bs @ [b])) [0 ..< length bs]) =
      map (\<lambda>i. bk_tool_use_id (bs ! i)) (filter (orphan_at bs) [0 ..< length bs])"
    using old by (auto intro!: map_cong filter_cong)
  moreover have "orphan_at (bs @ [b]) (length bs) \<longleftrightarrow>
      is_tool_result b \<and> bk_tool_use_id b \<notin> bk_id ` {c \<in> set bs. is_tool_use c}"
    by (auto simp: orphan_at_def list_ex_iff image_iff)
  ultimately show ?case using snoc by (auto simp: book_step_def)
qed simp

text \<open>
  The record of the walk is exact. The orphans are, in order, the ids of
  the tool results with no tool use of that id before them in the conversation, and every
  thinking block is counted once, as replayed or as not replayable.
\<close>

theorem translate_messages_books:
  assumes "translate_messages ev ms = Inr w"
  shows "let bs = flat_blocks ms in
    wk_orphans w = map (\<lambda>i. bk_tool_use_id (bs ! i)) (filter (orphan_at bs) [0 ..< length bs]) \<and>
    wk_replayed w + wk_unreplayable w = length (filter is_thinking bs)"
  using walk_messages_books [OF assms [unfolded translate_messages_def]] fold_book_step [of "flat_blocks ms"]
  by (simp add: books_def empty_walk_def Let_def)

definition demo_env :: walk_env where
  "demo_env = \<lparr>we_quote = id, we_decode = Map.empty, we_syntax_error = PlainError\<rparr>"

definition tool_result_block :: "string \<Rightarrow> string \<Rightarrow> block" where
  "tool_result_block i t =
     Block BlockToolResult [] [] [] [] None [] [] [] i (Some [text_block t]) False None"

theorem translate_messages_books_witness:
  "\<exists>w. translate_messages demo_env [\<lparr>mg_role = ''user'', mg_content = Some [tool_result_block ''t9'' ''x'']\<rparr>] = Inr w \<and>
       wk_orphans w = [''t9'']"
proof -
  let ?ms = "[\<lparr>mg_role = ''user'', mg_content = Some [tool_result_block ''t9'' ''x'']\<rparr>]"
  obtain w where w: "translate_messages demo_env ?ms = Inr w"
    by (simp add: translate_messages_def walk_message_def walk_block_def walk_tool_result_def
        tool_result_block_def text_block_def block_type_defs flatten_tool_result_def content_empty_def Let_def)
  have "orphan_at (flat_blocks ?ms) 0" "bk_tool_use_id (flat_blocks ?ms ! 0) = ''t9''" "length (flat_blocks ?ms) = 1"
    by (simp_all add: flat_blocks_def orphan_at_def is_tool_result_def tool_result_block_def)
  with translate_messages_books [OF w] w show ?thesis by (simp add: Let_def)
qed

section \<open>Well-formed items\<close>

text \<open>
  What the back end demands of an input item: no system role, text parts of the union that
  the role selects, arguments that are compact JSON, and the required fields present.
\<close>

definition part_ok :: "string \<Rightarrow> content_part \<Rightarrow> bool" where
  "part_ok role p \<longleftrightarrow>
     cp_type p = (if role = RoleAssistant then PartOutputText else PartInputText) \<or> cp_type p = PartInputImage"

definition item_ok :: "input_item \<Rightarrow> bool" where
  "item_ok i \<longleftrightarrow>
     ii_type i = ItemMessage \<and> ii_role i \<noteq> RoleSystem \<and> ii_content i \<noteq> [] \<and>
       list_all (part_ok (ii_role i)) (ii_content i) \<or>
     ii_type i = ItemFunctionCall \<and> json_squeeze (ii_arguments i) = Some (ii_arguments i) \<or>
     ii_type i = ItemFunctionCallOutput \<and> ii_output i \<noteq> None \<or>
     ii_type i = ItemReasoning \<and> ii_summary i = Some [] \<and> ii_encrypted i \<noteq> []"

definition piece_ok :: "string \<Rightarrow> piece \<Rightarrow> bool" where
  "piece_ok role p \<longleftrightarrow> (case p of Part x \<Rightarrow> part_ok role x | Items is \<Rightarrow> list_all item_ok is)"

lemma squeeze_empty_object: "json_squeeze ''{}'' = Some ''{}''"
  by (simp add: json_squeeze_def step_begin_value_def is_json_space_def push_context_def
      max_nesting_depth_def step_end_value_def pop_context_def jscan_eof_def)

lemma tool_arguments_compact: "tool_arguments se input = Inr args \<Longrightarrow> json_squeeze args = Some args"
  using json_squeeze_idem squeeze_empty_object
  by (auto simp: tool_arguments_def Let_def split: if_splits option.splits)

lemma flatten_blocks_images:
  "flatten_blocks q bs r = Inr r' \<Longrightarrow> list_all (\<lambda>p. cp_type p = PartInputImage) (fl_images r) \<Longrightarrow>
   list_all (\<lambda>p. cp_type p = PartInputImage) (fl_images r')"
  by (induction q bs r rule: flatten_blocks.induct)
     (auto simp: input_image_def split: if_splits sum.splits option.splits)

lemma flatten_tool_result_images:
  "flatten_tool_result q c = Inr (t, images, dropped) \<Longrightarrow> list_all (\<lambda>p. cp_type p = PartInputImage) images"
  by (auto simp: flatten_tool_result_def empty_flat_def split: if_splits sum.splits dest: flatten_blocks_images)

lemma result_items_ok:
  "list_all (\<lambda>p. cp_type p = PartInputImage) images \<Longrightarrow> list_all item_ok (result_items b t images)"
  by (auto simp: result_items_def item_ok_def item_defs item_type_defs role_defs part_ok_def list_all_iff)

lemma decode_reasoning_nonempty: "decode_reasoning_signature d sig = Some (i, enc) \<Longrightarrow> enc \<noteq> []"
  by (auto simp: decode_reasoning_signature_def split: option.splits if_splits)

lemma block_pieces_ok: "block_pieces ev role b = Inr ps \<Longrightarrow> list_all (piece_ok role) ps"
  using tool_arguments_compact decode_reasoning_nonempty
  by (auto simp: block_pieces_def piece_ok_def part_ok_def text_part_def output_text_def input_text_def
      input_image_def item_ok_def item_defs dest!: flatten_tool_result_images
      intro: result_items_ok split: if_splits sum.splits option.splits)

lemma group_pieces_ok:
  "role \<noteq> RoleSystem \<Longrightarrow> list_all (piece_ok role) ps \<Longrightarrow> list_all (part_ok role) acc \<Longrightarrow>
   list_all item_ok (group_pieces role acc ps)"
  by (induction role acc ps rule: group_pieces.induct)
     (auto simp: piece_ok_def item_ok_def message_item_def bare_item_def)

lemma input_role_not_system: "input_role r \<noteq> RoleSystem"
  by (simp add: input_role_def role_defs)

lemma spec_message_ok: "spec_message ev m = Inr is \<Longrightarrow> list_all item_ok is"
proof -
  assume spec: "spec_message ev m = Inr is"
  show ?thesis
  proof (cases "mg_content m")
    case (Some bs)
    let ?role = "input_role (mg_role m)"
    from spec Some obtain pss where pss: "traverse (block_pieces ev ?role) bs = Inr pss"
      "is = group_pieces ?role [] (concat pss)"
      by (cases "traverse (block_pieces ev ?role) bs") (auto simp: spec_message_def)
    from pss(1) block_pieces_ok have "list_all (list_all (piece_ok ?role)) pss" by (rule traverse_all)
    then have "list_all (piece_ok ?role) (concat pss)" by (auto simp: list_all_iff)
    with pss(2) input_role_not_system show ?thesis by (simp add: group_pieces_ok)
  qed (use spec in \<open>simp add: spec_message_def\<close>)
qed

lemma spec_items_ok: "spec_items ev ms = Inr is \<Longrightarrow> list_all item_ok is"
proof -
  assume "spec_items ev ms = Inr is"
  then obtain iss where iss: "traverse (spec_message ev) ms = Inr iss" "is = concat iss"
    by (cases "traverse (spec_message ev) ms") (auto simp: spec_items_def)
  from iss(1) spec_message_ok have "list_all (list_all item_ok) iss" by (rule traverse_all)
  with iss(2) show ?thesis by (auto simp: list_all_iff)
qed

lemma walk_items_spec: "translate_messages ev ms = Inr w \<Longrightarrow> spec_items ev ms = Inr (wk_items w)"
  using walk_messages_items [of ev ms empty_walk]
  by (simp add: translate_messages_def spec_items_def empty_walk_def)

lemma translate_request_Inr:
  assumes "translate_request ev sv sha (Some req) dec model opts = Inr (out, md)"
  obtains w ch where "translate_messages ev (rq_messages req) = Inr w"
    "resolve_tool_changes (we_quote ev) (tool_blocks (rq_messages req)) (rq_tools req) = Inr ch"
    "(out, md) = assemble sv sha req dec model opts w ch" "rr_input out = wk_items w"
proof -
  from assms obtain w ch where w: "translate_messages ev (rq_messages req) = Inr w"
    and ch: "resolve_tool_changes (we_quote ev) (tool_blocks (rq_messages req)) (rq_tools req) = Inr ch"
    and out: "(out, md) = assemble sv sha req dec model opts w ch"
    by (auto simp: translate_request_def split: sum.splits)
  moreover from out have "rr_input out = wk_items w"
    by (auto simp: assemble_def Let_def split: prod.splits)
  ultimately show ?thesis by (rule that)
qed

text \<open>
  Every input item of a translated request is one that the Responses back end
  accepts. No message item carries the role system, is empty, or holds a text part of the
  wrong union for its role; the arguments of every call are valid JSON with no blank
  between tokens; every call output and every replayed reasoning item has its required fields.
\<close>

theorem translated_items_ok:
  assumes "translate_request ev sv sha (Some req) dec model opts = Inr (out, md)"
  shows "list_all item_ok (rr_input out)"
  using translate_request_Inr [OF assms] walk_items_spec spec_items_ok by metis

section \<open>Demonstration values\<close>

definition demo_schema_env :: schema_env where
  "demo_schema_env =
     \<lparr>se_unmarshal = Map.empty, se_marshal = (\<lambda>v. None), se_parse = (\<lambda>s. True),
      se_tables = \<lparr>ut_categories = Map.empty, ut_scripts = Map.empty, ut_properties = Map.empty\<rparr>\<rparr>"

definition demo_request :: "message list \<Rightarrow> tool list \<Rightarrow> messages_request" where
  "demo_request ms ts =
     \<lparr>rq_model = ''codex'', rq_messages = ms, rq_max_tokens = 1, rq_system = None, rq_stream = True,
      rq_tools = ts, rq_tool_choice = None, rq_temperature = None, rq_top_p = None, rq_top_k = None,
      rq_stop_sequences = [], rq_thinking = None, rq_metadata = []\<rparr>"

definition demo_decision :: decision where
  "demo_decision = \<lparr>dc_backend = Codex, dc_upstream = ''gpt-6-sol'', dc_client = ''codex'',
                     dc_effort = [], dc_source = SourceNone\<rparr>"

definition demo_model :: catalog_model where
  "demo_model = \<lparr>cm_slug = ''gpt-6-sol'', cm_default_level = [], cm_default_summary = [], cm_levels = []\<rparr>"

definition demo_options :: options where
  "demo_options = \<lparr>op_beta_effort = [], op_config_effort = [], op_summary = [], op_mutating = None\<rparr>"

definition user_text :: "string \<Rightarrow> message" where
  "user_text t = \<lparr>mg_role = ''user'', mg_content = Some [text_block t]\<rparr>"

lemma demo_walk:
  "spec_message demo_env (user_text t) = Inr [message_item ''user'' [input_text t]]"
  by (simp add: spec_message_def user_text_def text_block_def block_pieces_def text_part_def input_role_def role_defs)

lemma translate_messages_items:
  "spec_items ev ms = Inr is \<Longrightarrow> \<exists>w. translate_messages ev ms = Inr w \<and> wk_items w = is"
  using translate_messages_refines [of ev ms] by (cases "translate_messages ev ms") auto

lemma demo_translate:
  assumes "spec_items ev ms = Inr is"
    and "resolve_tool_changes (we_quote ev) (tool_blocks ms) ts = Inr ch"
  shows "\<exists>out md. translate_request ev sv sha (Some (demo_request ms ts)) dec model opts = Inr (out, md) \<and>
    rr_input out = is"
proof -
  from translate_messages_items [OF assms(1)] obtain w where w: "translate_messages ev ms = Inr w" "wk_items w = is" by blast
  obtain out md where "assemble sv sha (demo_request ms ts) dec model opts w ch = (out, md)" by fastforce
  moreover from this w(2) have "rr_input out = is" by (auto simp: assemble_def Let_def split: prod.splits)
  ultimately show ?thesis using w assms(2) by (simp add: translate_request_def demo_request_def)
qed

lemma demo_changes: "resolve_tool_changes id (tool_blocks [user_text t]) [] =
    Inr \<lparr>tc_tools = [], tc_hoisted = [], tc_removed = []\<rparr>"
  by (simp add: resolve_tool_changes_def tool_blocks_def user_text_def text_block_def block_type_defs
      new_tool_set_def active_definitions_def hoisted_names_def removed_names_def)

theorem translated_items_ok_witness:
  "\<exists>out md. translate_request demo_env demo_schema_env id (Some (demo_request [user_text ''hi''] [])) demo_decision
     demo_model demo_options = Inr (out, md) \<and> list_all item_ok (rr_input out) \<and> rr_input out \<noteq> []"
proof -
  have "spec_items demo_env [user_text ''hi''] = Inr [message_item ''user'' [input_text ''hi'']]"
    by (simp add: spec_items_def demo_walk)
  moreover have "we_quote demo_env = id" by (simp add: demo_env_def)
  ultimately obtain out md where t: "translate_request demo_env demo_schema_env id (Some (demo_request [user_text ''hi''] []))
      demo_decision demo_model demo_options = Inr (out, md)" and "rr_input out = [message_item ''user'' [input_text ''hi'']]"
    using demo_translate [of demo_env "[user_text ''hi'']"] demo_changes by metis
  with translated_items_ok [OF t] show ?thesis by auto
qed

section \<open>A stable prompt prefix\<close>

definition changes_tools :: "block \<Rightarrow> bool" where
  "changes_tools b \<longleftrightarrow> bk_type b = BlockToolAddition \<or> bk_type b = BlockToolRemoval"

lemma change_blocks_none:
  "list_all (\<lambda>b. tb_type b \<noteq> BlockToolAddition \<and> tb_type b \<noteq> BlockToolRemoval) bs \<Longrightarrow>
   change_blocks q i j bs sd = Inr sd"
  by (induction q i j bs sd rule: change_blocks.induct) auto

lemma tool_blocks_Cons: "tool_blocks (m # ms) =
    map_option (map (\<lambda>b. \<lparr>tb_type = bk_type b, tb_tool = bk_tool b\<rparr>)) (mg_content m) # tool_blocks ms"
  by (simp add: tool_blocks_def)

lemma change_messages_none:
  "list_all (\<lambda>b. \<not> changes_tools b) (flat_blocks ms) \<Longrightarrow> change_messages q i (tool_blocks ms) sd = Inr sd"
proof (induction ms arbitrary: i)
  case (Cons m ms)
  then have "list_all (\<lambda>b. \<not> changes_tools b) (flat_blocks ms)" "mg_content m = Some bs \<Longrightarrow> list_all (\<lambda>b. \<not> changes_tools b) bs" for bs
    by (auto simp: flat_blocks_def split: option.splits)
  with Cons.IH show ?case
    by (auto simp: tool_blocks_Cons changes_tools_def change_blocks_none list_all_iff split: option.splits)
qed (simp add: tool_blocks_def)

lemma change_messages_append:
  "change_messages q i (xs @ ys) sd =
     (case change_messages q i xs sd of Inl e \<Rightarrow> Inl e | Inr sd' \<Rightarrow> change_messages q (i + length xs) ys sd')"
  by (induction xs arbitrary: i sd) (auto split: option.splits sum.splits)

lemma resolve_unchanged:
  "list_all (\<lambda>b. \<not> changes_tools b) (flat_blocks later) \<Longrightarrow>
   resolve_tool_changes q (tool_blocks (ms @ later)) ts = resolve_tool_changes q (tool_blocks ms) ts"
  using change_messages_none [of later]
  by (auto simp: resolve_tool_changes_def tool_blocks_def change_messages_append split: sum.splits)

lemma spec_items_append:
  "spec_items ev (xs @ ys) = Inr is' \<Longrightarrow> spec_items ev xs = Inr is \<Longrightarrow> prefix is is'"
  by (auto simp: spec_items_def traverse_append map_sum_def split: sum.splits)

lemma key_json_cong:
  "rr_model r = rr_model r' \<Longrightarrow> rr_instructions r = rr_instructions r' \<Longrightarrow> rr_tools r = rr_tools r' \<Longrightarrow>
   rr_input r \<noteq> [] \<Longrightarrow> prefix (rr_input r) (rr_input r') \<Longrightarrow> key_json r = key_json r'"
  by (auto simp: key_json_def prefix_def split: list.splits)

lemma assemble_fields:
  assumes "assemble sv sha req dec model opts w ch = (out, md)"
  shows "rr_model out = dc_upstream dec" "rr_instructions out = fst (join_system (rq_system req))"
    "rr_tools out = fst (translate_tools sv (tc_tools ch) ([], empty_result))" "rr_input out = wk_items w"
    "rr_cache_key out = prompt_cache_key sha (out\<lparr>rr_cache_key := []\<rparr>)"
  using assms by (auto simp: assemble_def Let_def split: prod.splits)

text \<open>
  Property (C32): a growing conversation keeps its cached prompt. When messages without tool
  changes are appended to a conversation, the input of the new request begins with the
  whole input of the old one, the tools and instructions are the same, and so is the
  prompt cache key, which is what lets the back end match the prefix it has cached.
\<close>

theorem prompt_prefix_stable:
  assumes "translate_request ev sv sha (Some req) dec model opts = Inr (out, md)"
    and "translate_request ev sv sha (Some (req\<lparr>rq_messages := rq_messages req @ later\<rparr>)) dec model opts = Inr (out', md')"
    and "list_all (\<lambda>b. \<not> changes_tools b) (flat_blocks later)"
    and "rr_input out \<noteq> []"
  shows "prefix (rr_input out) (rr_input out') \<and> rr_tools out' = rr_tools out \<and>
    rr_instructions out' = rr_instructions out \<and> rr_cache_key out' = rr_cache_key out"
proof -
  from assms(1) obtain w ch where w: "translate_messages ev (rq_messages req) = Inr w"
    "resolve_tool_changes (we_quote ev) (tool_blocks (rq_messages req)) (rq_tools req) = Inr ch"
    "assemble sv sha req dec model opts w ch = (out, md)" by (metis translate_request_Inr)
  from assms(2) obtain w' ch' where w': "translate_messages ev (rq_messages req @ later) = Inr w'"
    "resolve_tool_changes (we_quote ev) (tool_blocks (rq_messages req @ later)) (rq_tools req) = Inr ch'"
    "assemble sv sha (req\<lparr>rq_messages := rq_messages req @ later\<rparr>) dec model opts w' ch' = (out', md')"
    by (auto elim!: translate_request_Inr)
  note f = assemble_fields [OF w(3)] and f' = assemble_fields [OF w'(3)]
  from resolve_unchanged [OF assms(3)] w(2) w'(2) have ch: "ch' = ch" by simp
  from spec_items_append [OF walk_items_spec [OF w'(1)] walk_items_spec [OF w(1)]] f(4) f'(4)
  have pre: "prefix (rr_input out) (rr_input out')" by simp
  have same: "rr_model out' = rr_model out" "rr_instructions out' = rr_instructions out" "rr_tools out' = rr_tools out"
    using f f' ch by simp_all
  from key_json_cong [of "out\<lparr>rr_cache_key := []\<rparr>" "out'\<lparr>rr_cache_key := []\<rparr>"] same pre assms(4)
  have "prompt_cache_key sha (out\<lparr>rr_cache_key := []\<rparr>) = prompt_cache_key sha (out'\<lparr>rr_cache_key := []\<rparr>)"
    by (simp add: prompt_cache_key_def)
  with f(5) f'(5) pre same show ?thesis by simp
qed

theorem prompt_prefix_stable_witness:
  "\<exists>out md out' md'.
     translate_request demo_env demo_schema_env id (Some (demo_request [user_text ''hi''] [])) demo_decision
       demo_model demo_options = Inr (out, md) \<and>
     translate_request demo_env demo_schema_env id (Some (demo_request [user_text ''hi'', user_text ''more''] []))
       demo_decision demo_model demo_options = Inr (out', md') \<and>
     rr_cache_key out' = rr_cache_key out \<and> length (rr_input out') = 2"
proof -
  let ?one = "[message_item ''user'' [input_text ''hi'']]"
  have q: "we_quote demo_env = id" by (simp add: demo_env_def)
  have no_change: "list_all (\<lambda>b. \<not> changes_tools b) (flat_blocks [user_text ''more''])"
    by (simp add: flat_blocks_def user_text_def text_block_def changes_tools_def block_type_defs)
  have "spec_items demo_env [user_text ''hi''] = Inr ?one"
    "spec_items demo_env [user_text ''hi'', user_text ''more''] =
       Inr [message_item ''user'' [input_text ''hi''], message_item ''user'' [input_text ''more'']]"
    by (simp_all add: spec_items_def demo_walk)
  moreover have "resolve_tool_changes id (tool_blocks ([user_text ''hi''] @ [user_text ''more''])) [] =
      Inr \<lparr>tc_tools = [], tc_hoisted = [], tc_removed = []\<rparr>"
    using resolve_unchanged [OF no_change] demo_changes by metis
  ultimately obtain out md out' md' where
    t: "translate_request demo_env demo_schema_env id (Some (demo_request [user_text ''hi''] []))
        demo_decision demo_model demo_options = Inr (out, md)" "rr_input out = ?one" and
    t': "translate_request demo_env demo_schema_env id (Some (demo_request [user_text ''hi'', user_text ''more''] []))
        demo_decision demo_model demo_options = Inr (out', md')" "length (rr_input out') = 2"
    using demo_translate [of demo_env _ _ "[]", unfolded q] demo_changes
    by (metis append_Cons append_Nil length_Cons list.size(3) numeral_2_eq_2)
  have "demo_request [user_text ''hi'', user_text ''more''] [] = (demo_request [user_text ''hi''] [])
      \<lparr>rq_messages := rq_messages (demo_request [user_text ''hi''] []) @ [user_text ''more'']\<rparr>"
    by (simp add: demo_request_def)
  with prompt_prefix_stable [OF t(1), of "[user_text ''more'']"] t t' no_change show ?thesis by auto
qed

section \<open>Tools and parallel calls\<close>

lemma translate_tools_names:
  "map ct_name (fst (translate_tools sv ts acc)) = map ct_name (fst acc) @ map tl_name ts"
proof (induction ts arbitrary: acc)
  case (Cons t ts)
  obtain out report where acc: "acc = (out, report)" by (cases acc)
  obtain params res where "rewrite (se_unmarshal sv) (se_marshal sv) (se_parse sv)
      (codex_dialect (se_tables sv)) (tl_input_schema t) = (params, res)" by fastforce
  with acc Cons show ?case by (simp add: function_tool_def)
qed simp

lemma sort_eq_Nil: "sort xs = [] \<longleftrightarrow> xs = []"
  by (metis length_0_conv length_sort)

definition client_serial :: "messages_request \<Rightarrow> bool" where
  "client_serial req = (case rq_tool_choice req of None \<Rightarrow> False | Some c \<Rightarrow> ac_disable_parallel c)"

definition mutating_names :: "options \<Rightarrow> string list \<Rightarrow> string list" where
  "mutating_names opts ns = sort (filter (\<lambda>n. mutating_set opts n = Some True) ns)"

text \<open>
  Property (C29): calls are serialised exactly when they have to be. The field
  \<^verbatim>\<open>parallel_tool_calls\<close> is false when one of the tools sent is in the mutating set or the
  client asked for it, and is left out otherwise; the recorded triggers are the mutating
  tools among those sent, sorted; and no tool choice is sent when every tool was removed.
\<close>

theorem parallel_calls_decided:
  assumes "translate_request ev sv sha (Some req) dec model opts = Inr (out, md)"
  shows "let names = map ct_name (rr_tools out); hits = mutating_names opts names in
    rr_parallel out = (if hits \<noteq> [] \<or> client_serial req then Some False else None) \<and>
    md_disable_triggers md = hits \<and>
    (md_disable_reason md = DisableNone \<longleftrightarrow> rr_parallel out = None) \<and>
    (names = [] \<and> md_removed md \<noteq> [] \<longrightarrow> rr_tool_choice out = None)"
proof -
  from assms obtain w ch where "(out, md) = assemble sv sha req dec model opts w ch"
    by (metis translate_request_Inr)
  then have out: "rr_tools out = fst (translate_tools sv (tc_tools ch) ([], empty_result))"
    "md_removed md = tc_removed ch"
    "rr_tool_choice out = (if tc_tools ch = [] \<and> tc_removed ch \<noteq> [] then None else translate_tool_choice (rq_tool_choice req))"
    and reason: "md_disable_reason md = reason_of (fst (disable_parallel (tc_tools ch) (mutating_set opts))) (client_serial req)"
      "rr_parallel out = (if md_disable_reason md = DisableNone then None else Some False)"
      "md_disable_triggers md = (if md_disable_reason md = DisableNone then []
         else snd (disable_parallel (tc_tools ch) (mutating_set opts)))"
    by (auto simp: assemble_def Let_def client_serial_def split: prod.splits)
  from out(1) translate_tools_names [of sv "tc_tools ch" "([], empty_result)"]
  have names: "map ct_name (rr_tools out) = map tl_name (tc_tools ch)" by simp
  define hits where "hits = mutating_names opts (map tl_name (tc_tools ch))"
  have "disable_parallel (tc_tools ch) (mutating_set opts) = (hits \<noteq> [], hits)"
    unfolding disable_parallel_def hits_def mutating_names_def Let_def
    by (simp add: sort_eq_Nil)
  then have dis: "fst (disable_parallel (tc_tools ch) (mutating_set opts)) = (hits \<noteq> [])"
    "snd (disable_parallel (tc_tools ch) (mutating_set opts)) = hits" by simp_all
  have "rr_parallel out = (if hits \<noteq> [] \<or> client_serial req then Some False else None)"
    using reason unfolding dis by (simp add: reason_of_def)
  moreover have "md_disable_triggers md = hits"
    using reason unfolding dis by (simp add: reason_of_def)
  moreover have "md_disable_reason md = DisableNone \<longleftrightarrow> rr_parallel out = None"
    using reason(2) by simp
  ultimately show ?thesis using out(2,3) unfolding Let_def names hits_def by auto
qed

theorem parallel_calls_decided_witness:
  "\<exists>out md. translate_request demo_env demo_schema_env id (Some (demo_request [user_text ''hi''] [])) demo_decision
     demo_model demo_options = Inr (out, md) \<and> rr_parallel out = None"
proof -
  have "spec_items demo_env [user_text ''hi''] = Inr [message_item ''user'' [input_text ''hi'']]"
    by (simp add: spec_items_def demo_walk)
  moreover have "we_quote demo_env = id" by (simp add: demo_env_def)
  ultimately obtain out md where t: "translate_request demo_env demo_schema_env id (Some (demo_request [user_text ''hi''] []))
      demo_decision demo_model demo_options = Inr (out, md)"
    using demo_translate [of demo_env "[user_text ''hi'']"] demo_changes by metis
  then have "rr_tools out = []"
    by (auto simp: translate_request_def demo_request_def demo_env_def assemble_def Let_def
        demo_changes split: sum.splits prod.splits)
  with parallel_calls_decided [OF t] t show ?thesis
    by (auto simp: Let_def mutating_names_def client_serial_def demo_request_def)
qed

end
