(* ===== verification/Auth.thy ===== *)
theory Auth
  imports Complex_Main Apierr Synthetic Json "HOL-Library.Word" "HOL-Library.AList"
begin

text \<open>
  \<^verbatim>\<open>internal/codex/auth\<close>: the Codex credential. The state of a \<^verbatim>\<open>Source\<close> is its cache, the set
  of tokens reported as rejected, and the 64-bit counter of such reports. A load
  runs under singleflight, so the only operation that changes the state while it runs is
  \<^verbatim>\<open>Invalidate\<close>: the tokens invalidated in each gap between two accesses to the state are
  an input of the load, and so is everything it observes outside the process (the file,
  the clock, the lock, the token endpoint). Times are nanoseconds since the Unix epoch.

  Parameters: \<open>cd_parse_obj\<close> and \<open>cd_unstring\<close> (\<^verbatim>\<open>json.Unmarshal\<close> into a raw map and into a
  string), \<open>cd_exp_claim\<close> (into the claims of a JWT), \<open>cd_refresh\<close> (into the reply of the
  token endpoint), \<open>cd_parse_time\<close> (RFC 3339).
\<close>

section \<open>The file\<close>

record auth_file =
  af_top :: "(string \<times> string) list"        \<comment> \<open>raw values; the keys are distinct\<close>
  af_tokens :: "(string \<times> string) list"

record codec =
  cd_parse_obj :: "string \<Rightarrow> (string \<times> string) list option"
  cd_unstring :: "string \<Rightarrow> string option"
  cd_exp_claim :: "string \<Rightarrow> rat option"
  cd_parse_time :: "string \<Rightarrow> int option"
  cd_refresh :: "string \<Rightarrow> (string \<times> string \<times> string) option"   \<comment> \<open>access, id, refresh\<close>
  cd_marshal_error :: "auth_file \<Rightarrow> go_error"      \<comment> \<open>of \<^verbatim>\<open>json.Marshal\<close>, for an invalid raw value\<close>

definition parse_auth_file :: "codec \<Rightarrow> string \<Rightarrow> auth_file option" where
  "parse_auth_file cd b =
     (case cd_parse_obj cd b of
        None \<Rightarrow> None
      | Some entries \<Rightarrow>
          (case map_of entries ''tokens'' of
             None \<Rightarrow> Some \<lparr>af_top = entries, af_tokens = []\<rparr>
           | Some raw \<Rightarrow>
               if raw = [] \<or> trim_space raw = ''null'' then Some \<lparr>af_top = entries, af_tokens = []\<rparr>
               else map_option (\<lambda>toks. \<lparr>af_top = entries, af_tokens = toks\<rparr>) (cd_parse_obj cd raw)))"

definition json_string :: "codec \<Rightarrow> string option \<Rightarrow> string" where
  "json_string cd raw =
     (case raw of
        None \<Rightarrow> []
      | Some r \<Rightarrow> if r = [] then [] else (case cd_unstring cd r of Some s \<Rightarrow> s | None \<Rightarrow> []))"

definition token_string :: "codec \<Rightarrow> auth_file \<Rightarrow> string \<Rightarrow> string" where
  "token_string cd af k = json_string cd (map_of (af_tokens af) k)"

definition top_string :: "codec \<Rightarrow> auth_file \<Rightarrow> string \<Rightarrow> string" where
  "top_string cd af k = json_string cd (map_of (af_top af) k)"

text \<open>\<^verbatim>\<open>json.Marshal\<close> of a string cannot fail.\<close>

definition set_token_string :: "string \<Rightarrow> string \<Rightarrow> auth_file \<Rightarrow> auth_file" where
  "set_token_string k v af = af\<lparr>af_tokens := AList.update k (quote_json v) (af_tokens af)\<rparr>"

definition set_top_string :: "string \<Rightarrow> string \<Rightarrow> auth_file \<Rightarrow> auth_file" where
  "set_top_string k v af = af\<lparr>af_top := AList.update k (quote_json v) (af_top af)\<rparr>"

text \<open>A raw map is written with its keys sorted.\<close>

definition raw_object :: "(string \<times> string) list \<Rightarrow> json" where
  "raw_object kvs = JObj (map (\<lambda>(k, v). (k, JRaw v)) (sort_key fst kvs))"

definition marshal_auth_file :: "auth_file \<Rightarrow> string option" where
  "marshal_auth_file af =
     (case json_marshal (raw_object (af_tokens af)) of
        None \<Rightarrow> None
      | Some toks \<Rightarrow>
          map_option (\<lambda>b. b @ [CHR 0x0A]) (json_marshal (raw_object (AList.update ''tokens'' toks (af_top af)))))"

section \<open>Expiry\<close>

definition second :: int where "second = 10 ^ 9"

definition fallback_ttl :: int where "fallback_ttl = 3600 * second"

text \<open>The zero \<^verbatim>\<open>time.Time\<close>, the first of January of year 1.\<close>

definition zero_time :: int where "zero_time = - 62135596800 * second"

text \<open>\<^verbatim>\<open>Time.Sub\<close> saturates at the ends of a 64-bit duration.\<close>

definition time_sub :: "int \<Rightarrow> int \<Rightarrow> int" where
  "time_sub a b = max (- (2 ^ 63)) (min (2 ^ 63 - 1) (a - b))"

definition b64_decode_padded :: "string \<Rightarrow> string option" where
  "b64_decode_padded s =
     (let t = filter (\<lambda>c. c \<noteq> CHR 0x0A \<and> c \<noteq> CHR 0x0D) s;
          body = takeWhile (\<lambda>c. c \<noteq> CHR ''='') t; pad = drop (length body) t
      in if length t mod 4 = 0 \<and> length pad \<le> 2 \<and> list_all (\<lambda>c. c = CHR ''='') pad then b64_decode body
         else None)"

definition decode_jwt_segment :: "string \<Rightarrow> string option" where
  "decode_jwt_segment seg =
     (case b64_decode seg of
        Some b \<Rightarrow> Some b
      | None \<Rightarrow>
          let m = length seg mod 4
          in b64_decode_padded (if m \<noteq> 0 then seg @ replicate (4 - m) (CHR ''='') else seg))"

definition jwt_exp :: "codec \<Rightarrow> string \<Rightarrow> int option" where
  "jwt_exp cd token =
     (let parts = split_on (CHR ''.'') token in
      if length parts < 2 then None
      else case decode_jwt_segment (parts ! 1) of
        None \<Rightarrow> None
      | Some payload \<Rightarrow>
          (case cd_exp_claim cd payload of
             None \<Rightarrow> None
           | Some e \<Rightarrow> if e \<le> 0 then None else Some (\<lfloor>e\<rfloor> * second)))"

definition access_token_expiry :: "codec \<Rightarrow> string \<Rightarrow> string \<Rightarrow> int option" where
  "access_token_expiry cd access last_refresh =
     (case jwt_exp cd access of
        Some e \<Rightarrow> Some e
      | None \<Rightarrow>
          if last_refresh \<noteq> [] then map_option (\<lambda>t. t + fallback_ttl) (cd_parse_time cd last_refresh)
          else None)"

section \<open>Credentials\<close>

record credential =
  cr_access :: string
  cr_account :: string
  cr_exp :: int

definition authentication :: "string \<Rightarrow> go_error" where
  "authentication msg = new_error TypeAuthentication msg"

definition overloaded_503 :: "string \<Rightarrow> go_error" where
  "overloaded_503 msg = with_status 503 TypeOverloaded msg"

definition cred_from :: "codec \<Rightarrow> auth_file \<Rightarrow> go_error + credential" where
  "cred_from cd af =
     (let account = token_string cd af ''account_id''; access = token_string cd af ''access_token'' in
      if account = [] then
        Inl (authentication ''codex auth.json has no tokens.account_id; run `codex login`'')
      else if access = [] then
        Inl (authentication ''codex auth.json has no tokens.access_token; run `codex login`'')
      else Inr \<lparr>cr_access = access, cr_account = account,
                cr_exp = (case access_token_expiry cd access (top_string cd af ''last_refresh'') of
                            Some e \<Rightarrow> e | None \<Rightarrow> zero_time)\<rparr>)"

definition fresh :: "int \<Rightarrow> int \<Rightarrow> credential \<Rightarrow> bool" where
  "fresh skew now cred \<longleftrightarrow> skew \<le> time_sub (cr_exp cred) now"

section \<open>The shared state\<close>

record stat_info =
  si_size :: int
  si_mtime :: int

record source_state =
  ss_cached :: "(credential \<times> stat_info) option"
  ss_invalidated :: "string set"
  ss_gen :: "64 word"

definition new_source :: source_state where
  "new_source = \<lparr>ss_cached = None, ss_invalidated = {}, ss_gen = 0\<rparr>"

definition max_invalidated :: nat where
  "max_invalidated = 32"

definition is_invalidated :: "string \<Rightarrow> source_state \<Rightarrow> bool" where
  "is_invalidated tok s \<longleftrightarrow> tok \<in> ss_invalidated s"

definition invalidate :: "string \<Rightarrow> source_state \<Rightarrow> source_state" where
  "invalidate tok s =
     (if tok = [] then s
      else
        let inv = (if tok \<notin> ss_invalidated s \<and> max_invalidated \<le> card (ss_invalidated s) then {}
                   else ss_invalidated s)
        in s\<lparr>ss_gen := ss_gen s + 1, ss_invalidated := insert tok inv,
             ss_cached := (case ss_cached s of
                             Some (c, st) \<Rightarrow> if cr_access c = tok then None else Some (c, st)
                           | None \<Rightarrow> None)\<rparr>)"

definition store :: "credential \<Rightarrow> stat_info \<Rightarrow> 64 word \<Rightarrow> source_state \<Rightarrow> source_state" where
  "store cred st gen s =
     (if ss_gen s \<noteq> gen \<and> cr_access cred \<in> ss_invalidated s then s
      else s\<lparr>ss_cached := Some (cred, st), ss_invalidated := ss_invalidated s - {cr_access cred}\<rparr>)"

text \<open>\<^verbatim>\<open>fastPath\<close>; the file status is \<^const>\<open>None\<close> when \<^verbatim>\<open>os.Stat\<close> fails.\<close>

definition fast_path :: "int \<Rightarrow> stat_info option \<Rightarrow> int \<Rightarrow> source_state \<Rightarrow> credential option" where
  "fast_path skew st now s =
     (case ss_cached s of
        None \<Rightarrow> None
      | Some (c, cst) \<Rightarrow>
          if st \<noteq> Some cst then None
          else if cr_access c \<in> ss_invalidated s then None
          else if \<not> fresh skew now c then None
          else Some c)"

section \<open>Reading the file\<close>

datatype stat_view = Missing | StatFails go_error | StatOk stat_info int   \<comment> \<open>with the permission bits\<close>

definition read_file ::
  "codec \<Rightarrow> string \<Rightarrow> stat_view \<times> (go_error + string) \<Rightarrow> go_error + auth_file \<times> int \<times> stat_info" where
  "read_file cd path v =
     (case fst v of
        Missing \<Rightarrow> Inl (authentication (''codex auth.json not found at '' @ path @ ''; run `codex login`''))
      | StatFails e \<Rightarrow> Inl (wrap_error e TypeAPI ''codex: stat auth.json'')
      | StatOk st mode \<Rightarrow>
          (case snd v of
             Inl e \<Rightarrow> Inl (wrap_error e TypeAPI ''codex: read auth.json'')
           | Inr b \<Rightarrow>
               (case parse_auth_file cd b of
                  None \<Rightarrow> Inl (authentication ''codex auth.json is not valid JSON; run `codex login`'')
                | Some af \<Rightarrow> Inr (af, mode, st))))"

section \<open>The token endpoint\<close>

datatype http_outcome =
    Unbuildable go_error
  | NoResponse bool            \<comment> \<open>whether the context of the request has ended\<close>
  | Response int string

record refresh_result =
  rf_access :: string
  rf_id :: string
  rf_refresh :: string

definition request_refresh :: "codec \<Rightarrow> http_outcome \<Rightarrow> go_error + refresh_result" where
  "request_refresh cd reply =
     (case reply of
        Unbuildable e \<Rightarrow> Inl (wrap_error e TypeAPI ''codex: build refresh request'')
      | NoResponse ended \<Rightarrow>
          Inl (overloaded_503
            (if ended then ''codex token refresh was interrupted before it completed; please retry''
             else ''codex token refresh could not reach the auth endpoint; please retry (run `codex login` if it persists)''))
      | Response st body \<Rightarrow>
          if st \<noteq> 200 then
            Inl (if st = 429 then
                   with_status st TypeRateLimit ''codex token refresh was rate limited (HTTP 429); please retry shortly''
                 else if 500 \<le> st then
                   with_status st (type_for_status st)
                     (''codex token refresh hit a transient upstream error (HTTP '' @ itoa st @ ''); please retry'')
                 else authentication
                   (''codex token refresh was rejected (HTTP '' @ itoa st @ ''); run `codex login` to re-authenticate''))
          else
            (case cd_refresh cd body of
               None \<Rightarrow> Inl (authentication ''codex token refresh returned an unreadable response; run `codex login`'')
             | Some (a, i, r) \<Rightarrow>
                 if a = [] then Inl (authentication ''codex token refresh returned no access token; run `codex login`'')
                 else Inr \<lparr>rf_access = a, rf_id = i, rf_refresh = r\<rparr>))"

text \<open>The rotated tokens go into the file as it was read; every other entry stays.\<close>

definition apply_refresh :: "refresh_result \<Rightarrow> string \<Rightarrow> auth_file \<Rightarrow> auth_file" where
  "apply_refresh res stamp af =
     (let af = set_token_string ''access_token'' (rf_access res) af;
          af = (if rf_id res \<noteq> [] then set_token_string ''id_token'' (rf_id res) af else af);
          af = (if rf_refresh res \<noteq> [] then set_token_string ''refresh_token'' (rf_refresh res) af else af)
      in set_top_string ''last_refresh'' stamp af)"

section \<open>Loading\<close>

datatype lock_outcome = Locked | LockTimedOut | LockInterrupted | LockFails go_error

record settings =
  st_path :: string
  st_skew :: int

text \<open>
  What a load observes, and the tokens that other goroutines invalidate in each gap: before
  the first test of the token, after it, before the test under the lock, after it, and
  before an adopted credential is stored.
\<close>

record load_io =
  li_read1 :: "stat_view \<times> (go_error + string)"
  li_now1 :: int
  li_lock :: lock_outcome
  li_read2 :: "stat_view \<times> (go_error + string)"
  li_now2 :: int
  li_reply :: http_outcome
  li_stamp :: string
  li_check :: "stat_info option"
  li_read3 :: "stat_view \<times> (go_error + string)"
  li_now3 :: int
  li_write :: "go_error option"
  li_after :: "stat_info option"
  li_gap1 :: "string list"
  li_gap2 :: "string list"
  li_gap3 :: "string list"
  li_gap4 :: "string list"
  li_gap5 :: "string list"

record load_result =
  lr_out :: "go_error + credential"
  lr_state :: source_state
  lr_presented :: "string option"       \<comment> \<open>the refresh token sent to the endpoint\<close>
  lr_written :: "auth_file option"      \<comment> \<open>what replaced the file\<close>

definition invalidate_all :: "string list \<Rightarrow> source_state \<Rightarrow> source_state" where
  "invalidate_all ts s = fold invalidate ts s"

definition quiet :: "go_error + credential \<Rightarrow> source_state \<Rightarrow> load_result" where
  "quiet r s = \<lparr>lr_out = r, lr_state = s, lr_presented = None, lr_written = None\<rparr>"

definition stat_or_zero :: "stat_info option \<Rightarrow> stat_info" where
  "stat_or_zero st = (case st of Some i \<Rightarrow> i | None \<Rightarrow> \<lparr>si_size = 0, si_mtime = zero_time\<rparr>)"

definition adopt_from_disk ::
  "codec \<Rightarrow> settings \<Rightarrow> load_io \<Rightarrow> 64 word \<Rightarrow> source_state \<Rightarrow> credential option \<times> source_state" where
  "adopt_from_disk cd se io gen s =
     (case read_file cd (st_path se) (li_read3 io) of
        Inl e \<Rightarrow> (None, s)
      | Inr (af, mode, st) \<Rightarrow>
          (case cred_from cd af of
             Inl e \<Rightarrow> (None, s)
           | Inr cred \<Rightarrow>
               if \<not> fresh (st_skew se) (li_now3 io) cred \<or> is_invalidated (cr_access cred) s then (None, s)
               else (Some cred, store cred st gen (invalidate_all (li_gap5 io) s))))"

text \<open>After the refresh: the file is replaced only if it is still the one that was read.\<close>

definition persist ::
  "codec \<Rightarrow> settings \<Rightarrow> load_io \<Rightarrow> 64 word \<Rightarrow> stat_info \<Rightarrow> auth_file \<Rightarrow> credential \<Rightarrow> source_state \<Rightarrow>
   (go_error + credential) \<times> source_state \<times> auth_file option" where
  "persist cd se io gen st af new s =
     (if li_check io \<noteq> Some st then
        (case adopt_from_disk cd se io gen s of
           (Some cred, s') \<Rightarrow> (Inr cred, s', None)
         | (None, s') \<Rightarrow>
             (Inl (overloaded_503 ''codex auth.json was updated by another process during refresh; please retry''), s', None))
      else case li_write io of
        Some e \<Rightarrow> (Inr new, store new (stat_or_zero (li_after io)) gen s, None)
      | None \<Rightarrow> (Inr new, store new (stat_or_zero (li_after io)) gen s, Some af))"

definition network_refresh ::
  "codec \<Rightarrow> settings \<Rightarrow> load_io \<Rightarrow> 64 word \<Rightarrow> stat_info \<Rightarrow> auth_file \<Rightarrow> source_state \<Rightarrow> load_result" where
  "network_refresh cd se io gen st af s =
     (let tok = token_string cd af ''refresh_token'' in
      if tok = [] then
        quiet (Inl (authentication ''codex auth.json has no tokens.refresh_token; run `codex login`'')) s
      else case request_refresh cd (li_reply io) of
        Inl e \<Rightarrow> (quiet (Inl e) s)\<lparr>lr_presented := Some tok\<rparr>
      | Inr res \<Rightarrow>
          let af = apply_refresh res (li_stamp io) af in
          (case marshal_auth_file af of
             None \<Rightarrow> (quiet (Inl (wrap_error (cd_marshal_error cd af) TypeAPI ''codex: encode auth.json'')) s)
                       \<lparr>lr_presented := Some tok\<rparr>
           | Some b \<Rightarrow>
               (case cred_from cd af of
                  Inl e \<Rightarrow> (quiet (Inl e) s)\<lparr>lr_presented := Some tok\<rparr>
                | Inr new \<Rightarrow>
                    (case persist cd se io gen st af new s of
                       (r, s', w) \<Rightarrow> \<lparr>lr_out = r, lr_state = s', lr_presented = Some tok, lr_written = w\<rparr>))))"

definition lock_error :: "lock_outcome \<Rightarrow> go_error option" where
  "lock_error l =
     (case l of
        Locked \<Rightarrow> None
      | LockTimedOut \<Rightarrow> Some (overloaded_503
          ''codex token refresh is busy (another process holds the lock); please retry'')
      | LockInterrupted \<Rightarrow> Some (overloaded_503
          ''codex token refresh was interrupted while waiting for the auth lock; please retry'')
      | LockFails e \<Rightarrow> Some (wrap_error e TypeAPI ''codex: acquire auth lock''))"

definition refresh_under_lock :: "codec \<Rightarrow> settings \<Rightarrow> load_io \<Rightarrow> source_state \<Rightarrow> load_result" where
  "refresh_under_lock cd se io s =
     (let gen = ss_gen s in
      case lock_error (li_lock io) of
        Some e \<Rightarrow> quiet (Inl e) s
      | None \<Rightarrow>
          (case read_file cd (st_path se) (li_read2 io) of
             Inl e \<Rightarrow> quiet (Inl e) s
           | Inr (af, mode, st) \<Rightarrow>
               (case cred_from cd af of
                  Inl e \<Rightarrow> quiet (Inl e) s
                | Inr cred \<Rightarrow>
                    let s = invalidate_all (li_gap3 io) s in
                    if fresh (st_skew se) (li_now2 io) cred \<and> \<not> is_invalidated (cr_access cred) s
                    then quiet (Inr cred) (store cred st gen (invalidate_all (li_gap4 io) s))
                    else network_refresh cd se io gen st af (invalidate_all (li_gap4 io) s))))"

definition load :: "codec \<Rightarrow> settings \<Rightarrow> load_io \<Rightarrow> source_state \<Rightarrow> load_result" where
  "load cd se io s =
     (let gen = ss_gen s in
      case read_file cd (st_path se) (li_read1 io) of
        Inl e \<Rightarrow> quiet (Inl e) s
      | Inr (af, mode, st) \<Rightarrow>
          (case cred_from cd af of
             Inl e \<Rightarrow> quiet (Inl e) s
           | Inr cred \<Rightarrow>
               let s = invalidate_all (li_gap1 io) s in
               if fresh (st_skew se) (li_now1 io) cred \<and> \<not> is_invalidated (cr_access cred) s
               then quiet (Inr cred) (store cred st gen (invalidate_all (li_gap2 io) s))
               else refresh_under_lock cd se io (invalidate_all (li_gap2 io) s)))"

section \<open>Getting a credential\<close>

text \<open>
  An attempt is served by the fast path, leads a load, or joins a load that another
  goroutine leads; \<open>at_gap\<close> is what is invalidated before the result is looked at.
\<close>

datatype lead = Lead load_io | Join "go_error + credential"

record attempt =
  at_stat :: "stat_info option"
  at_now :: int
  at_load :: lead
  at_gap :: "string list"

definition run_lead :: "codec \<Rightarrow> settings \<Rightarrow> lead \<Rightarrow> source_state \<Rightarrow> (go_error + credential) \<times> source_state" where
  "run_lead cd se l s =
     (case l of
        Lead io \<Rightarrow> (let r = load cd se io s in (lr_out r, lr_state r))
      | Join r \<Rightarrow> (r, s))"

text \<open>The last attempt returns whatever it got.\<close>

fun get_loop :: "codec \<Rightarrow> settings \<Rightarrow> attempt list \<Rightarrow> credential \<Rightarrow> source_state \<Rightarrow> (go_error + credential) \<times> source_state" where
  "get_loop cd se [] cred s = (Inr cred, s)"
| "get_loop cd se (a # as) cred s =
     (case fast_path (st_skew se) (at_stat a) (at_now a) s of
        Some c \<Rightarrow> (Inr c, s)
      | None \<Rightarrow>
          (case run_lead cd se (at_load a) s of
             (Inl e, s') \<Rightarrow> (Inl e, s')
           | (Inr c, s') \<Rightarrow>
               let s' = invalidate_all (at_gap a) s' in
               if \<not> is_invalidated (cr_access c) s' then (Inr c, s') else get_loop cd se as c s'))"

definition empty_credential :: credential where
  "empty_credential = \<lparr>cr_access = [], cr_account = [], cr_exp = zero_time\<rparr>"

definition get :: "codec \<Rightarrow> settings \<Rightarrow> attempt \<Rightarrow> attempt \<Rightarrow> source_state \<Rightarrow> (go_error + credential) \<times> source_state" where
  "get cd se a1 a2 s = get_loop cd se [a1, a2] empty_credential s"

section \<open>Peek\<close>

datatype cred_state = StateOK | StateStale | StateMissing

record status =
  su_state :: cred_state
  su_reason :: string
  su_expires_in :: int
  su_has_expiry :: bool

text \<open>The two readings of the clock are \<open>now\<close> and \<open>now'\<close>.\<close>

definition peek ::
  "codec \<Rightarrow> settings \<Rightarrow> stat_view \<times> (go_error + string) \<Rightarrow> int \<Rightarrow> int \<Rightarrow> source_state \<Rightarrow> status" where
  "peek cd se v now now' s =
     (let missing = \<lparr>su_state = StateMissing, su_reason = [], su_expires_in = 0, su_has_expiry = False\<rparr> in
      case read_file cd (st_path se) v of
        Inl e \<Rightarrow> missing
      | Inr (af, mode, st) \<Rightarrow>
          (case cred_from cd af of
             Inl e \<Rightarrow> missing
           | Inr cred \<Rightarrow>
               let st = \<lparr>su_state = StateOK, su_reason = [], su_expires_in = time_sub (cr_exp cred) now,
                         su_has_expiry = (cr_exp cred \<noteq> zero_time)\<rparr>
               in if is_invalidated (cr_access cred) s then st\<lparr>su_state := StateStale, su_reason := ''invalidated''\<rparr>
                  else if fresh (st_skew se) now' cred then st
                  else st\<lparr>su_state := StateStale, su_reason := ''expiring''\<rparr>))"

end
