(* ===== verification/AuthSafety.thy ===== *)
theory AuthSafety
  imports Auth
begin

text \<open>
  What the credential source guarantees: an invariant of its state, the race between a load and
  \<^verbatim>\<open>Invalidate\<close>, what a refresh may do to the file that the Codex CLI owns, and what
  \<^verbatim>\<open>Get\<close> hands out.
\<close>

section \<open>The invariant\<close>

definition source_inv :: "source_state \<Rightarrow> bool" where
  "source_inv s \<longleftrightarrow>
     finite (ss_invalidated s) \<and> card (ss_invalidated s) \<le> max_invalidated \<and> [] \<notin> ss_invalidated s \<and>
     (case ss_cached s of None \<Rightarrow> True | Some (c, st) \<Rightarrow> cr_access c \<notin> ss_invalidated s)"

lemma source_inv_new: "source_inv new_source"
  by (simp add: source_inv_def new_source_def)

lemma source_inv_invalidate:
  assumes "source_inv s" shows "source_inv (invalidate t s)"
proof (cases "t = []")
  case False
  let ?inv = "if t \<notin> ss_invalidated s \<and> max_invalidated \<le> card (ss_invalidated s) then {} else ss_invalidated s"
  have "finite ?inv" "[] \<notin> ?inv" using assms by (auto simp: source_inv_def)
  moreover have "card (insert t ?inv) \<le> max_invalidated"
    using assms by (cases "t \<in> ss_invalidated s") (auto simp: source_inv_def card_insert_if insert_absorb max_invalidated_def)
  ultimately show ?thesis
    using assms False by (auto simp: source_inv_def invalidate_def Let_def split: option.splits prod.splits if_splits)
qed (use assms in \<open>simp add: invalidate_def\<close>)

lemma source_inv_all: "source_inv s \<Longrightarrow> source_inv (invalidate_all ts s)"
  unfolding invalidate_all_def by (induction ts arbitrary: s) (auto simp: source_inv_invalidate)

lemma source_inv_store:
  assumes "source_inv s" shows "source_inv (store c st g s)"
proof (cases "ss_gen s \<noteq> g \<and> cr_access c \<in> ss_invalidated s")
  case False
  have "card (ss_invalidated s - {cr_access c}) \<le> card (ss_invalidated s)"
    using assms by (intro card_mono) (auto simp: source_inv_def)
  with assms False show ?thesis by (auto simp: store_def source_inv_def)
qed (use assms in \<open>simp add: store_def\<close>)

named_theorems keeps_inv \<open>operations of the source keep its invariant\<close>

lemmas [keeps_inv] = source_inv_invalidate source_inv_all source_inv_store

lemma adopt_inv [keeps_inv]: "source_inv s \<Longrightarrow> adopt_from_disk cd se io g s = (c, s') \<Longrightarrow> source_inv s'"
  by (auto simp: adopt_from_disk_def keeps_inv split: sum.splits prod.splits if_splits)

lemma persist_inv [keeps_inv]: "source_inv s \<Longrightarrow> persist cd se io g st af new s = (r, s', w) \<Longrightarrow> source_inv s'"
  by (auto simp: persist_def intro: keeps_inv split: prod.splits option.splits if_splits)

lemma network_inv [keeps_inv]: "source_inv s \<Longrightarrow> source_inv (lr_state (network_refresh cd se io g st af s))"
  by (auto simp: network_refresh_def quiet_def Let_def intro: keeps_inv split: sum.splits prod.splits option.splits)

lemma refresh_inv [keeps_inv]: "source_inv s \<Longrightarrow> source_inv (lr_state (refresh_under_lock cd se io s))"
  by (auto simp: refresh_under_lock_def quiet_def Let_def intro!: keeps_inv split: sum.splits prod.splits option.splits)

lemma load_inv [keeps_inv]: "source_inv s \<Longrightarrow> source_inv (lr_state (load cd se io s))"
  by (auto simp: load_def quiet_def Let_def intro!: keeps_inv split: sum.splits prod.splits)

text \<open>The states a source can reach, whatever is invalidated and loaded, in any order.\<close>

inductive source_reach :: "codec \<Rightarrow> settings \<Rightarrow> source_state \<Rightarrow> bool" for cd se where
  reach_new: "source_reach cd se new_source"
| reach_invalidate: "source_reach cd se s \<Longrightarrow> source_reach cd se (invalidate t s)"
| reach_load: "source_reach cd se s \<Longrightarrow> source_reach cd se (lr_state (load cd se io s))"

text \<open>
  Property (C13): at every moment the cache holds no token that is marked as rejected, the set of
  rejected tokens never exceeds its bound of 32, and so the fast path never serves a
  rejected token or one about to expire.
\<close>

theorem source_reach_invariant:
  assumes "source_reach cd se s"
  shows "(case ss_cached s of None \<Rightarrow> True | Some (c, st) \<Rightarrow> \<not> is_invalidated (cr_access c) s) \<and>
    finite (ss_invalidated s) \<and> card (ss_invalidated s) \<le> max_invalidated \<and>
    (case fast_path skew st now s of None \<Rightarrow> True
     | Some c \<Rightarrow> \<not> is_invalidated (cr_access c) s \<and> fresh skew now c \<and> ss_cached s = Some (c, the st))"
proof -
  from assms have "source_inv s"
    by induction (auto intro: source_inv_new keeps_inv)
  then show ?thesis
    by (auto simp: source_inv_def is_invalidated_def fast_path_def split: option.splits)
qed

definition demo_cred :: credential where
  "demo_cred = \<lparr>cr_access = ''tok'', cr_account = ''acct'', cr_exp = 10 ^ 18\<rparr>"

theorem source_reach_invariant_witness:
  "card (ss_invalidated (invalidate ''tok'' new_source)) \<le> max_invalidated"
  using source_reach_invariant [OF reach_invalidate [OF reach_new]] by blast

section \<open>The race between a load and Invalidate\<close>

lemma invalidate_all_gen: "ss_gen (invalidate_all ts s) = ss_gen s + of_nat (length (filter (\<lambda>t. t \<noteq> []) ts))"
  unfolding invalidate_all_def by (induction ts arbitrary: s) (auto simp: invalidate_def Let_def)

lemma gen_moves:
  assumes "t \<in> set ts" "t \<noteq> []" "length ts < 2 ^ 64"
  shows "ss_gen (invalidate_all ts s) \<noteq> ss_gen s"
proof -
  let ?n = "length (filter (\<lambda>t. t \<noteq> []) ts)"
  have "0 < ?n" using assms(1,2) by (auto simp: filter_empty_conv)
  moreover have "?n < 2 ^ 64" using assms(3) length_filter_le [of "\<lambda>t. t \<noteq> []" ts] by linarith
  ultimately have "(of_nat ?n :: 64 word) \<noteq> 0"
    by (simp add: unat_eq_0 [symmetric] unat_of_nat take_bit_nat_eq_self)
  then show ?thesis by (simp add: invalidate_all_gen)
qed

lemma invalidate_all_marks:
  assumes "finite (ss_invalidated s)" and "card (ss_invalidated s \<union> set ts) \<le> max_invalidated"
  shows "ss_invalidated s \<union> (set ts - {[]}) \<subseteq> ss_invalidated (invalidate_all ts s)"
  using assms unfolding invalidate_all_def
proof (induction ts arbitrary: s)
  case (Cons t ts)
  have room: "card (ss_invalidated s) < max_invalidated" if "t \<notin> ss_invalidated s"
  proof -
    have "card (insert t (ss_invalidated s)) \<le> card (ss_invalidated s \<union> set (t # ts))"
      by (rule card_mono) (use Cons.prems in auto)
    with that Cons.prems show ?thesis by simp
  qed
  then have "ss_invalidated (invalidate t s) = (if t = [] then ss_invalidated s else insert t (ss_invalidated s))"
    by (auto simp: invalidate_def Let_def)
  moreover have less: "card (ss_invalidated s \<union> set ts) \<le> card (ss_invalidated s \<union> set (t # ts))"
    by (rule card_mono) (use Cons.prems in auto)
  moreover from calculation have "finite (ss_invalidated (invalidate t s))"
    "card (ss_invalidated (invalidate t s) \<union> set ts) \<le> max_invalidated"
    using Cons.prems less by auto
  ultimately show ?case using Cons.IH [of "invalidate t s"] by (auto split: if_splits)
qed auto

text \<open>
  A load cannot resurrect a rejected token. If a token is invalidated after a load has
  taken its generation, then storing that token at the end of the load changes nothing:
  it is neither cached nor unmarked, whatever else is invalidated in between. This holds
  while the rejected tokens fit their bound and the counter has not come full circle.
\<close>

theorem store_after_invalidate:
  assumes "finite (ss_invalidated s)" and "cr_access c \<in> set ts" and "cr_access c \<noteq> []"
    and "card (ss_invalidated s \<union> set ts) \<le> max_invalidated" and "length ts < 2 ^ 64"
  shows "store c st (ss_gen s) (invalidate_all ts s) = invalidate_all ts s \<and>
    is_invalidated (cr_access c) (invalidate_all ts s)"
proof -
  have "cr_access c \<in> ss_invalidated (invalidate_all ts s)"
    using invalidate_all_marks [OF assms(1,4)] assms(2,3) by auto
  with gen_moves [OF assms(2,3,5)] show ?thesis by (simp add: store_def is_invalidated_def)
qed

theorem store_after_invalidate_witness:
  "store demo_cred \<lparr>si_size = 1, si_mtime = 1\<rparr> (ss_gen new_source) (invalidate_all [''tok''] new_source) =
   invalidate_all [''tok''] new_source"
  using store_after_invalidate [of new_source demo_cred "[''tok'']"]
  by (simp add: new_source_def demo_cred_def max_invalidated_def)

section \<open>What a refresh does to the file\<close>

lemma map_of_set_token [simp]: "map_of (af_tokens (set_token_string k v af)) = (map_of (af_tokens af))(k \<mapsto> quote_json v)"
  "af_top (set_token_string k v af) = af_top af"
  by (simp_all add: set_token_string_def update_conv')

lemma map_of_set_top [simp]: "map_of (af_top (set_top_string k v af)) = (map_of (af_top af))(k \<mapsto> quote_json v)"
  "af_tokens (set_top_string k v af) = af_tokens af"
  by (simp_all add: set_top_string_def update_conv')

lemma apply_refresh_keeps:
  "k \<notin> {''access_token'', ''id_token'', ''refresh_token''} \<Longrightarrow>
     map_of (af_tokens (apply_refresh res stamp af)) k = map_of (af_tokens af) k"
  "k \<noteq> ''last_refresh'' \<Longrightarrow> map_of (af_top (apply_refresh res stamp af)) k = map_of (af_top af) k"
  "map_of (af_tokens (apply_refresh res stamp af)) ''refresh_token'' =
     (if rf_refresh res = [] then map_of (af_tokens af) ''refresh_token'' else Some (quote_json (rf_refresh res)))"
  "map_of (af_tokens (apply_refresh res stamp af)) ''access_token'' = Some (quote_json (rf_access res))"
  by (auto simp: apply_refresh_def Let_def)

lemma persist_written:
  "persist cd se io g st af new s = (r, s', Some w) \<Longrightarrow>
   w = af \<and> li_check io = Some st \<and> li_write io = None \<and> r = Inr new"
  by (auto simp: persist_def split: if_splits prod.splits option.splits)

lemma network_written:
  assumes "lr_written (network_refresh cd se io g st af s) = Some w"
  obtains res where "request_refresh cd (li_reply io) = Inr res" "w = apply_refresh res (li_stamp io) af"
    "li_check io = Some st" "li_write io = None"
    "lr_out (network_refresh cd se io g st af s) = cred_from cd w"
  using assms
  by (auto simp: network_refresh_def quiet_def Let_def dest!: persist_written split: if_splits sum.splits prod.splits option.splits)

lemma load_not_quiet:
  assumes "lr_written (load cd se io s) \<noteq> None"
  shows "load cd se io s = refresh_under_lock cd se io (invalidate_all (li_gap2 io) (invalidate_all (li_gap1 io) s))"
  using assms by (auto simp: load_def quiet_def Let_def split: sum.splits prod.splits if_splits)

lemma refresh_not_quiet:
  assumes "lr_written (refresh_under_lock cd se io s) \<noteq> None"
  shows "\<exists>af mode st cred. li_lock io = Locked \<and> read_file cd (st_path se) (li_read2 io) = Inr (af, mode, st) \<and>
    cred_from cd af = Inr cred \<and>
    \<not> (fresh (st_skew se) (li_now2 io) cred \<and> \<not> is_invalidated (cr_access cred) (invalidate_all (li_gap3 io) s)) \<and>
    refresh_under_lock cd se io s =
      network_refresh cd se io (ss_gen s) st af (invalidate_all (li_gap4 io) (invalidate_all (li_gap3 io) s))"
proof (cases "lock_error (li_lock io)")
  case None
  then have l: "li_lock io = Locked" by (simp add: lock_error_def split: lock_outcome.splits)
  from assms None obtain af mode st where r: "read_file cd (st_path se) (li_read2 io) = Inr (af, mode, st)"
    by (cases "read_file cd (st_path se) (li_read2 io)") (auto simp: refresh_under_lock_def quiet_def Let_def)
  with assms None obtain cred where c: "cred_from cd af = Inr cred"
    by (cases "cred_from cd af") (auto simp: refresh_under_lock_def quiet_def Let_def)
  let ?fresh = "fresh (st_skew se) (li_now2 io) cred \<and> \<not> is_invalidated (cr_access cred) (invalidate_all (li_gap3 io) s)"
  have stale: "\<not> ?fresh"
  proof
    assume ?fresh
    with assms None r c show False by (simp add: refresh_under_lock_def quiet_def Let_def)
  qed
  with None r c have "refresh_under_lock cd se io s =
      network_refresh cd se io (ss_gen s) st af (invalidate_all (li_gap4 io) (invalidate_all (li_gap3 io) s))"
    unfolding refresh_under_lock_def Let_def by (simp only: option.case sum.case prod.case if_False)
  with l r c stale show ?thesis by blast
qed (use assms in \<open>simp add: refresh_under_lock_def quiet_def Let_def\<close>)


text \<open>A codec for the witness: raw values are their own strings, and no token has an expiry.\<close>

definition demo_file :: "string \<Rightarrow> auth_file" where
  "demo_file tok =
     \<lparr>af_top = [(''tokens'', ''1'')],
      af_tokens = [(''account_id'', ''1''), (''access_token'', tok), (''refresh_token'', ''1'')]\<rparr>"

definition demo_codec :: codec where
  "demo_codec =
     \<lparr>cd_parse_obj = (\<lambda>b. if b = ''1'' then Some (af_tokens (demo_file ''1'')) else Some [(''tokens'', ''1'')]),
      cd_unstring = Some, cd_exp_claim = Map.empty, cd_parse_time = Map.empty,
      cd_refresh = (\<lambda>b. Some (''t2'', [], [])), cd_marshal_error = (\<lambda>af. PlainError [])\<rparr>"

definition demo_stat :: stat_info where "demo_stat = \<lparr>si_size = 4, si_mtime = 1\<rparr>"

definition demo_io :: load_io where
  "demo_io =
     (let v = (StatOk demo_stat 384, Inr ''file'') in
      \<lparr>li_read1 = v, li_now1 = 0, li_lock = Locked, li_read2 = v, li_now2 = 0, li_reply = Response 200 [],
       li_stamp = ''now'', li_check = Some demo_stat, li_read3 = v, li_now3 = 0, li_write = None,
       li_after = Some demo_stat, li_gap1 = [], li_gap2 = [], li_gap3 = [], li_gap4 = [], li_gap5 = []\<rparr>)"

lemma demo_read: "read_file demo_codec p (StatOk demo_stat 384, Inr ''file'') = Inr (demo_file ''1'', 384, demo_stat)"
  by (simp add: read_file_def parse_auth_file_def demo_codec_def demo_file_def trim_space_graphic graphic_def)

lemma demo_no_expiry: "access_token_expiry demo_codec a r = None"
  by (auto simp: access_token_expiry_def jwt_exp_def demo_codec_def Let_def split: option.split)

lemma demo_token: "token_string demo_codec af k = (case map_of (af_tokens af) k of None \<Rightarrow> [] | Some r \<Rightarrow> r)"
  by (simp add: token_string_def json_string_def demo_codec_def split: option.split)

lemma demo_cred_from:
  "map_of (af_tokens af) ''account_id'' = Some (c # cs) \<Longrightarrow> map_of (af_tokens af) ''access_token'' = Some (d # ds) \<Longrightarrow>
   cred_from demo_codec af = Inr \<lparr>cr_access = d # ds, cr_account = c # cs, cr_exp = zero_time\<rparr>"
  by (simp add: cred_from_def demo_token demo_no_expiry Let_def)

lemma demo_stale: "\<not> fresh 1 0 \<lparr>cr_access = a, cr_account = b, cr_exp = zero_time\<rparr>"
  by (simp add: fresh_def time_sub_def zero_time_def second_def)

definition demo_rotated :: auth_file where
  "demo_rotated = apply_refresh \<lparr>rf_access = ''t2'', rf_id = [], rf_refresh = []\<rparr> ''now'' (demo_file ''1'')"

lemma demo_rotated_text:
  "af_tokens demo_rotated = [(''account_id'', ''1''), (''access_token'', quote_json ''t2''), (''refresh_token'', ''1'')]"
  "af_top demo_rotated = [(''tokens'', ''1''), (''last_refresh'', quote_json ''now'')]"
  by (simp_all add: demo_rotated_def apply_refresh_def set_token_string_def set_top_string_def demo_file_def Let_def)

lemma demo_marshals: "marshal_auth_file demo_rotated \<noteq> None"
proof -
  let ?t = "''{'' @ quote_json ''access_token'' @ '':'' @ quote_json ''t2'' @ '','' @ quote_json ''account_id'' @ '':1,''
    @ quote_json ''refresh_token'' @ '':1}''"
  have one: "json_compact ''1'' = Some ''1''" by (simp add: json_compact_def json_step_defs ascii_escaped_at)
  have "json_compact ?t \<noteq> None"
    by (simp add: json_compact_def compact_keys plain_def graphic_def ascii_escaped_at json_step_defs)
  moreover have "json_marshal (raw_object (af_tokens demo_rotated)) = Some ?t"
    by (simp add: json_marshal_def raw_object_def demo_rotated_text one compact_quote plain_def graphic_def)
  ultimately show ?thesis
    by (simp add: marshal_auth_file_def json_marshal_def demo_rotated_text raw_object_def compact_quote plain_def graphic_def)
qed

lemma demo_load_writes:
  "lr_written (load demo_codec \<lparr>st_path = ''p'', st_skew = 1\<rparr> demo_io new_source) = Some demo_rotated"
proof -
  have cred: "cred_from demo_codec (demo_file ''1'') = Inr \<lparr>cr_access = ''1'', cr_account = ''1'', cr_exp = zero_time\<rparr>"
    "\<exists>c. cred_from demo_codec demo_rotated = Inr c"
    by (simp_all add: demo_cred_from demo_file_def demo_rotated_text quote_json_def)
  have refresh: "request_refresh demo_codec (Response 200 []) = Inr \<lparr>rf_access = ''t2'', rf_id = [], rf_refresh = []\<rparr>"
    by (simp add: request_refresh_def demo_codec_def)
  have tok: "token_string demo_codec (demo_file ''1'') ''refresh_token'' = ''1''"
    by (simp add: demo_token demo_file_def)
  from demo_marshals obtain b where "marshal_auth_file demo_rotated = Some b" by blast
  with cred refresh tok show ?thesis
    by (auto simp: load_def refresh_under_lock_def network_refresh_def persist_def demo_io_def demo_read demo_stale
        lock_error_def Let_def demo_rotated_def [symmetric])
qed


section \<open>What Get hands out\<close>

text \<open>
  Property (C36): a known-rejected token is handed out only when asking again did not help. What \<^verbatim>\<open>Get\<close>
  returns is not marked as rejected at the moment it is chosen, unless both of its
  attempts ended with a rejected token; an error of a load is returned as it is.
\<close>

theorem get_never_serves_rejected:
  assumes "get cd se a1 a2 s = (Inr c, s')"
  shows "\<not> is_invalidated (cr_access c) s' \<or>
    (\<exists>c1 s1. run_lead cd se (at_load a1) s = (Inr c1, s1) \<and>
       is_invalidated (cr_access c1) (invalidate_all (at_gap a1) s1) \<and>
       (\<exists>s2. run_lead cd se (at_load a2) (invalidate_all (at_gap a1) s1) = (Inr c, s2) \<and>
          s' = invalidate_all (at_gap a2) s2))"
proof -
  have fast: "\<not> is_invalidated (cr_access c) t" if "fast_path sk st n t = Some c" for sk st n t c
    using that by (auto simp: fast_path_def is_invalidated_def split: option.splits if_splits)
  show ?thesis
    using assms fast
    by (fastforce simp: get_def Let_def split: option.splits prod.splits sum.splits if_splits)
qed

theorem get_never_serves_rejected_witness:
  "fst (get demo_codec \<lparr>st_path = ''p'', st_skew = 1\<rparr> \<lparr>at_stat = None, at_now = 0, at_load = Join (Inr demo_cred), at_gap = []\<rparr>
     \<lparr>at_stat = None, at_now = 0, at_load = Join (Inr demo_cred), at_gap = []\<rparr> new_source) = Inr demo_cred"
  (is "fst ?g = _")
proof -
  have "?g = (Inr demo_cred, new_source)"
    by (simp add: get_def fast_path_def run_lead_def invalidate_all_def is_invalidated_def new_source_def Let_def)
  with get_never_serves_rejected [OF this] show ?thesis by simp
qed

end
