(* ===== verification/Utf8.thy ===== *)
theory Utf8
  imports Json
begin

text \<open>
  Runes: what \<^verbatim>\<open>unicode/utf8\<close> and a \<^verbatim>\<open>range\<close> loop over a string do with the bytes of a
  text, which need not be UTF-8.
\<close>

definition rune_error :: nat where "rune_error = 65533"

text \<open>\<^verbatim>\<open>utf8.DecodeRuneInString\<close>: the rune at the front and its size.\<close>

definition rune_value :: "nat list \<Rightarrow> nat" where
  "rune_value bs =
     (case bs of
        [a] \<Rightarrow> a
      | [a, b] \<Rightarrow> (a - 192) * 64 + (b - 128)
      | [a, b, c] \<Rightarrow> ((a - 224) * 64 + (b - 128)) * 64 + (c - 128)
      | [a, b, c, d] \<Rightarrow> (((a - 240) * 64 + (b - 128)) * 64 + (c - 128)) * 64 + (d - 128)
      | _ \<Rightarrow> rune_error)"

definition decode_rune :: "string \<Rightarrow> nat \<times> nat" where
  "decode_rune s =
     (if s = [] then (rune_error, 0)
      else let n = utf8_len s in
        if n = 0 then (rune_error, 1) else (rune_value (map of_char (take n s)), n))"

lemma utf8_len_le: "utf8_len s \<le> length s"
  using utf8_len_cases [of s] by (cases s) (auto simp: utf8_len_def)

lemma decode_rune_size: "s \<noteq> [] \<Longrightarrow> 1 \<le> snd (decode_rune s) \<and> snd (decode_rune s) \<le> length s"
  using utf8_len_le [of s] by (cases s) (auto simp: decode_rune_def Let_def)

text \<open>The bytes that \<^verbatim>\<open>WriteRune\<close> writes for the rune at the front: its own, or those of U+FFFD.\<close>

definition rune_bytes :: "string \<Rightarrow> string" where
  "rune_bytes s = (if utf8_len s = 0 then byte_str [239, 191, 189] else take (utf8_len s) s)"

lemma rune_bytes_length: "length (rune_bytes s) \<le> 4"
  using utf8_len_cases [of s] by (auto simp: rune_bytes_def byte_str_def)

lemma rune_bytes_ascii: "s \<noteq> [] \<Longrightarrow> (of_char (s ! 0) :: nat) < 128 \<Longrightarrow> rune_bytes s = [s ! 0]"
  by (cases s) (auto simp: rune_bytes_def utf8_len_def byte_in_def)

lemma rune_bytes_high:
  assumes "s \<noteq> []" and "\<not> (of_char (s ! 0) :: nat) < 128" and "b \<in> set (rune_bytes s)"
  shows "128 \<le> (of_char b :: nat)"
proof (cases "utf8_len s = 0")
  case True
  with assms(3) show ?thesis by (auto simp: rune_bytes_def byte_str_def)
next
  case False
  from assms(1) obtain a t where s: "s = a # t" by (cases s) auto
  with assms(2) have "\<not> byte_in 0 127 a" by (simp add: byte_in_def)
  from utf8_len_bytes [OF this, of t] assms(3) False s show ?thesis by (simp add: rune_bytes_def)
qed

end
