(* ===== verification/Tokens.thy ===== *)
theory Tokens
  imports WireTypes ToolSchema Utf8 "HOL-Library.Word"
begin

text \<open>
  The token counts of \<^verbatim>\<open>internal/tokens\<close>: the exact estimator over the o200k codec with
  its cache (\<^verbatim>\<open>o200k.go\<close>), the walk over the fields of a request (\<^verbatim>\<open>tokens.go\<close>), and the
  heuristic over bytes (\<^verbatim>\<open>chars.go\<close>, \<^verbatim>\<open>prompt.go\<close>). Parameters are what comes from outside
  the repository: \<^verbatim>\<open>codec.Count\<close>, the seeded hash, the Unicode categories above ASCII,
  \<^verbatim>\<open>json.Unmarshal\<close> and the formatting of a float. A byte offset is a \<^typ>\<open>nat\<close>, a count of
  tokens an \<^typ>\<open>int\<close>.
\<close>

record tokenizer =
  tk_count :: "string \<Rightarrow> int option"              \<comment> \<open>\<^verbatim>\<open>codec.Count\<close>; no value on an error\<close>
  tk_hash :: "string \<Rightarrow> 64 word"
  tk_letter :: "nat \<Rightarrow> bool"
  tk_number :: "nat \<Rightarrow> bool"
  tk_mark :: "nat \<Rightarrow> bool"
  tk_unmarshal :: "string \<Rightarrow> jany option"
  tk_float :: "string \<Rightarrow> string"
  tk_max_piece :: int
  tk_capacity :: nat

section \<open>The last rune\<close>

text \<open>
  \<^verbatim>\<open>utf8.DecodeLastRuneInString\<close>: back over at most three bytes to one that may start a rune
  (it is not a continuation byte), then forward again.
\<close>

definition rune_start :: "char \<Rightarrow> bool" where
  "rune_start c \<longleftrightarrow> \<not> byte_in 128 191 c"

fun start_before :: "nat \<Rightarrow> string \<Rightarrow> nat \<Rightarrow> nat" where
  "start_before 0 s i = i"
| "start_before (Suc k) s i =
     (if i = 0 \<or> rune_start (s ! i) then i else start_before k s (i - 1))"

definition decode_last_rune :: "string \<Rightarrow> nat \<times> nat" where
  "decode_last_rune s =
     (if s = [] then (rune_error, 0)
      else
        let e = length s in
        if byte_in 0 127 (s ! (e - 1)) then (of_char (s ! (e - 1)), 1)
        else if e = 1 then (rune_error, 1)
        else
          let start = start_before 2 s (e - 2);
              (r, size) = decode_rune (drop start s)
          in if start + size \<noteq> e then (rune_error, 1) else (r, size))"

section \<open>Rune classes and runs\<close>

datatype rune_class = ClassNone | ClassLetter | ClassDigit | ClassOther | ClassMark

definition ascii_letter :: "nat \<Rightarrow> bool" where
  "ascii_letter r \<longleftrightarrow> 97 \<le> r \<and> r \<le> 122 \<or> 65 \<le> r \<and> r \<le> 90"

definition ascii_digit :: "nat \<Rightarrow> bool" where
  "ascii_digit r \<longleftrightarrow> 48 \<le> r \<and> r \<le> 57"

text \<open>\<^verbatim>\<open>unicode.IsLetter\<close>, \<^verbatim>\<open>unicode.IsNumber\<close> and \<^verbatim>\<open>unicode.IsMark\<close>; in ASCII there are no marks.\<close>

definition is_letter :: "tokenizer \<Rightarrow> nat \<Rightarrow> bool" where
  "is_letter tk r \<longleftrightarrow> (if r < 128 then ascii_letter r else tk_letter tk r)"

definition is_number :: "tokenizer \<Rightarrow> nat \<Rightarrow> bool" where
  "is_number tk r \<longleftrightarrow> (if r < 128 then ascii_digit r else tk_number tk r)"

definition is_mark :: "tokenizer \<Rightarrow> nat \<Rightarrow> bool" where
  "is_mark tk r \<longleftrightarrow> 128 \<le> r \<and> tk_mark tk r"

definition class_of :: "tokenizer \<Rightarrow> nat \<Rightarrow> rune_class" where
  "class_of tk r =
     (if is_letter tk r then ClassLetter
      else if is_number tk r then ClassDigit
      else if is_mark tk r then ClassMark
      else ClassOther)"

text \<open>The class and size of the rune at the front, in a run of the class \<open>cls\<close>.\<close>

definition next_class :: "tokenizer \<Rightarrow> string \<Rightarrow> rune_class \<Rightarrow> rune_class \<times> nat" where
  "next_class tk s cls =
     (let b = (of_char (s ! 0) :: nat) in
      if b < 128 then
        (if ascii_letter b then ClassLetter else if ascii_digit b then ClassDigit else ClassOther, 1)
      else
        let (r, size) = decode_rune s in
        (if is_letter tk r then ClassLetter
         else if is_number tk r then ClassDigit
         else if is_mark tk r \<and> cls \<noteq> ClassDigit then cls
         else ClassOther, size))"

lemma next_class_size: "s \<noteq> [] \<Longrightarrow> 1 \<le> snd (next_class tk s cls) \<and> snd (next_class tk s cls) \<le> length s"
  using decode_rune_size [of s] by (auto simp: next_class_def Let_def split: prod.splits)

function run_scan :: "tokenizer \<Rightarrow> string \<Rightarrow> nat \<Rightarrow> rune_class \<Rightarrow> nat \<Rightarrow> rune_class \<times> nat" where
  "run_scan tk s i cls e =
     (if length s \<le> e then (cls, e)
      else
        let c = fst (next_class tk (drop e s) cls); size = snd (next_class tk (drop e s) cls) in
        if c \<noteq> cls \<and> cls \<noteq> ClassNone then (cls, e)
        else if c = ClassDigit \<and> i < e \<and> cls = ClassNone then (cls, e)
        else run_scan tk s i c (e + size))"
  by pat_completeness auto
termination
proof (relation "measure (\<lambda>(tk, s, i, cls, e). length s - e)")
  fix tk :: tokenizer and s :: string and i e :: nat and cls :: rune_class and x xa
  assume "\<not> length s \<le> e" "xa = snd (next_class tk (drop e s) cls)"
  then show "((tk, s, i, x, e + xa), (tk, s, i, cls, e)) \<in> measure (\<lambda>(tk, s, i, cls, e). length s - e)"
    using next_class_size [of "drop e s" tk cls] by auto
qed simp

declare run_scan.simps [simp del]

definition run_end :: "tokenizer \<Rightarrow> string \<Rightarrow> nat \<Rightarrow> rune_class \<times> nat" where
  "run_end tk s i =
     (let r = run_scan tk s i ClassNone i in (if fst r = ClassNone then ClassOther else fst r, snd r))"

section \<open>Runs, backwards\<close>

definition last_rune :: "tokenizer \<Rightarrow> string \<Rightarrow> nat \<Rightarrow> rune_class \<times> nat" where
  "last_rune tk s e =
     (let (r, size) = decode_last_rune (take e s) in (class_of tk r, size))"

lemma start_before_le: "start_before k s i \<le> i"
  by (induction k arbitrary: i) (auto intro: le_trans [OF _ diff_le_self])

lemma decode_last_rune_size:
  assumes "s \<noteq> []"
  shows "1 \<le> snd (decode_last_rune s) \<and> snd (decode_last_rune s) \<le> length s"
proof -
  let ?k = "start_before 2 s (length s - 2)"
  have "?k \<le> length s - 2" by (rule start_before_le)
  moreover have "0 < length s" using assms by simp
  ultimately have k: "?k < length s" by linarith
  from k have "1 \<le> snd (decode_rune (drop ?k s))" using decode_rune_size [of "drop ?k s"] by simp
  with assms show ?thesis by (auto simp: decode_last_rune_def Let_def Suc_le_eq split: prod.splits)
qed

lemma last_rune_size: "0 < e \<Longrightarrow> s \<noteq> [] \<Longrightarrow> 1 \<le> snd (last_rune tk s e)"
  using decode_last_rune_size [of "take e s"] by (auto simp: last_rune_def split: prod.splits)

lemma last_rune_shrinks: "0 < e \<Longrightarrow> s \<noteq> [] \<Longrightarrow> e - snd (last_rune tk s e) < e"
  using last_rune_size [of e s tk] by linarith

text \<open>An offset past the text does not occur; the guard on an empty text makes the loops total.\<close>

function marks_before :: "tokenizer \<Rightarrow> string \<Rightarrow> nat \<Rightarrow> nat" where
  "marks_before tk s e =
     (if e = 0 \<or> s = [] then e
      else if fst (last_rune tk s e) \<noteq> ClassMark then e
      else marks_before tk s (e - snd (last_rune tk s e)))"
  by pat_completeness auto
termination by (relation "measure (\<lambda>(tk, s, e). e)") (auto simp: last_rune_shrinks)

function digits_back :: "tokenizer \<Rightarrow> string \<Rightarrow> nat \<Rightarrow> nat" where
  "digits_back tk s start =
     (if start = 0 \<or> s = [] then start
      else if fst (last_rune tk s start) \<noteq> ClassDigit then start
      else digits_back tk s (start - snd (last_rune tk s start)))"
  by pat_completeness auto
termination by (relation "measure (\<lambda>(tk, s, e). e)") (auto simp: last_rune_shrinks)

declare marks_before.simps [simp del] digits_back.simps [simp del]

lemma marks_before_le: "marks_before tk s e \<le> e"
proof (induction tk s e rule: marks_before.induct)
  case (1 tk s e)
  then show ?case by (subst marks_before.simps) (auto intro: le_trans)
qed

function class_back :: "tokenizer \<Rightarrow> string \<Rightarrow> rune_class \<Rightarrow> nat \<Rightarrow> nat" where
  "class_back tk s cls start =
     (if start = 0 \<or> s = [] then start
      else
        let (c, size) = last_rune tk s start in
        if c = cls then class_back tk s cls (start - snd (last_rune tk s start))
        else if c \<noteq> ClassMark then start
        else
          let p = marks_before tk s start in
          if p = 0 then 0
          else
            let (pc, psize) = last_rune tk s p in
            if pc = cls then class_back tk s cls (marks_before tk s start - snd (last_rune tk s (marks_before tk s start)))
            else if pc = ClassDigit then p
            else start)"
  by pat_completeness auto
termination
proof (relation "measure (\<lambda>(tk, s, cls, e). e)")
  fix tk :: tokenizer and s :: string and cls :: rune_class and start :: nat
  have "marks_before tk s start - snd (last_rune tk s (marks_before tk s start)) < start"
    if "start > 0" "s \<noteq> []" "marks_before tk s start \<noteq> 0"
    using last_rune_shrinks [of "marks_before tk s start" s tk] marks_before_le [of tk s start] that by linarith
  then show "\<And>x xa y p xb ya. \<not> (start = 0 \<or> s = []) \<Longrightarrow> x = last_rune tk s start \<Longrightarrow> (xa, y) = x \<Longrightarrow>
      xa \<noteq> cls \<Longrightarrow> \<not> xa \<noteq> ClassMark \<Longrightarrow> p = marks_before tk s start \<Longrightarrow> p \<noteq> 0 \<Longrightarrow>
      xb = last_rune tk s p \<Longrightarrow> (ya, z) = xb \<Longrightarrow> ya = cls \<Longrightarrow>
      ((tk, s, cls, marks_before tk s start - snd (last_rune tk s (marks_before tk s start))), tk, s, cls, start)
        \<in> measure (\<lambda>(tk, s, cls, e). e)" for z
    by auto
qed (auto simp: last_rune_shrinks)

declare class_back.simps [simp del]

definition prev_run :: "tokenizer \<Rightarrow> string \<Rightarrow> nat \<Rightarrow> rune_class \<times> nat" where
  "prev_run tk s e =
     (let go_back = (\<lambda>c start. (c, if c = ClassDigit then digits_back tk s start else class_back tk s c start));
          (c, size) = last_rune tk s e
      in if c = ClassMark then
           (let p = marks_before tk s e in
            if p = 0 then (ClassOther, 0)
            else
              let (pc, psize) = last_rune tk s p in
              if pc = ClassDigit then (ClassOther, p) else go_back pc (p - psize))
         else go_back c (e - size))"

lemma below_diff: "k \<le> e - (n::nat) \<Longrightarrow> k \<le> e"
  by simp

lemma digits_back_le: "digits_back tk s e \<le> e"
proof (induction tk s e rule: digits_back.induct)
  case (1 tk s e)
  then show ?case by (subst digits_back.simps) (auto intro: below_diff)
qed

lemma class_back_le: "class_back tk s cls e \<le> e"
proof (induction e rule: less_induct)
  case (less e)
  have m: "marks_before tk s e \<le> e" by (rule marks_before_le)
  show ?case
  proof (cases "0 < e \<and> s \<noteq> []")
    case True
    obtain c n pc pn where l: "last_rune tk s e = (c, n)" "last_rune tk s (marks_before tk s e) = (pc, pn)"
      by fastforce
    have a: "class_back tk s cls (e - n) \<le> e"
      using less [of "e - n"] True last_rune_shrinks [of e s tk] l by simp
    have b: "marks_before tk s e \<noteq> 0 \<Longrightarrow> class_back tk s cls (marks_before tk s e - pn) \<le> e"
      using less [of "marks_before tk s e - pn"] True last_rune_shrinks [of "marks_before tk s e" s tk] m l by simp
    from True l a b m show ?thesis
      by (subst class_back.simps) (simp add: Let_def)
  qed (simp add: class_back.simps)
qed

lemma prev_run_less:
  assumes "0 < e" and "s \<noteq> []"
  shows "snd (prev_run tk s e) < e"
proof -
  have m: "marks_before tk s e \<le> e" by (rule marks_before_le)
  have p: "k - n < e" if "k \<le> e" "n = snd (last_rune tk s k)" "k \<noteq> 0" for k n
    using last_rune_shrinks [of k s tk] that assms by simp
  have "fst (last_rune tk s e) = ClassMark \<Longrightarrow> marks_before tk s e < e"
    using assms last_rune_shrinks [of e s tk] marks_before_le [of tk s "e - snd (last_rune tk s e)"]
    by (subst marks_before.simps) auto
  then show ?thesis
    using assms m p [of e] p [of "marks_before tk s e"]
    by (auto simp: prev_run_def Let_def split: prod.split
        intro: le_less_trans [OF class_back_le] le_less_trans [OF digits_back_le])
qed

lemma prev_run_twice:
  "0 < e \<Longrightarrow> e < length s \<Longrightarrow> 0 < snd (prev_run tk s e) \<Longrightarrow> snd (prev_run tk s (snd (prev_run tk s e))) < e"
  using prev_run_less [of e s tk] prev_run_less [of "snd (prev_run tk s e)" s tk] by fastforce

section \<open>Regions that the codec is not given\<close>

definition apostrophe :: char where "apostrophe = CHR 0x27"

function contraction_start :: "tokenizer \<Rightarrow> string \<Rightarrow> nat \<Rightarrow> nat \<Rightarrow> nat" where
  "contraction_start tk s ra letters =
     (if 0 < ra \<and> letters = ra + 1 \<and> ra < length s \<and> s ! ra = apostrophe then
        (if fst (prev_run tk s ra) \<noteq> ClassLetter then ra
         else
           let ls = snd (prev_run tk s ra) in
           if ls = 0 then ls
           else if fst (prev_run tk s ls) \<noteq> ClassOther then ls
           else contraction_start tk s (snd (prev_run tk s ls)) ls)
      else ra)"
  by pat_completeness auto
termination by (relation "measure (\<lambda>(tk, s, ra, l). ra)") (auto simp: prev_run_twice)

declare contraction_start.simps [simp del]

lemma run_scan_ge: "e \<le> snd (run_scan tk s i cls e)"
proof (induction "length s - e" arbitrary: e cls rule: less_induct)
  case less
  let ?n = "snd (next_class tk (drop e s) cls)"
  have "e \<le> snd (run_scan tk s i c (e + ?n))" if "e < length s" for c
  proof -
    have "length s - (e + ?n) < length s - e" using next_class_size [of "drop e s" tk cls] that by auto
    from less [OF this] show ?thesis by (rule add_leD1)
  qed
  then show ?case by (subst run_scan.simps, cases "e < length s") (auto simp: Let_def)
qed

lemma run_end_ge: "i \<le> snd (run_end tk s i)"
  by (simp add: run_end_def Let_def run_scan_ge)

lemma run_end_gt: "i < length s \<Longrightarrow> i < snd (run_end tk s i)"
proof -
  assume i: "i < length s"
  have "i < i + n \<Longrightarrow> i < snd (run_scan tk s i c (i + n))" for n c
    using run_scan_ge [of "i + n" tk s i c] by linarith
  moreover have "1 \<le> snd (next_class tk (drop i s) ClassNone)" using next_class_size [of "drop i s"] i by simp
  ultimately have "i < snd (run_scan tk s i ClassNone i)"
    using i by (subst run_scan.simps) (auto simp: Let_def Suc_le_eq)
  then show ?thesis by (simp add: run_end_def Let_def)
qed

text \<open>The contractions after a letter run, however many.\<close>

function chain_end :: "tokenizer \<Rightarrow> string \<Rightarrow> nat \<Rightarrow> nat" where
  "chain_end tk s re =
     (if re < length s \<and> s ! re = apostrophe then
        (if fst (run_end tk s (re + 1)) \<noteq> ClassLetter then re
         else chain_end tk s (snd (run_end tk s (re + 1))))
      else re)"
  by pat_completeness auto
termination
proof (relation "measure (\<lambda>(tk, s, re). length s - re)")
  fix tk s re
  assume "re < length s \<and> s ! re = apostrophe"
  then show "((tk, s, snd (run_end tk s (re + 1))), tk, s, re) \<in> measure (\<lambda>(tk, s, re). length s - re)"
    using run_end_ge [of "re + 1" tk s] by auto
qed simp

declare chain_end.simps [simp del]

lemma chain_end_ge: "re \<le> chain_end tk s re"
proof (induction tk s re rule: chain_end.induct)
  case (1 tk s re)
  with run_end_ge [of "re + 1" tk s] show ?case by (subst chain_end.simps) (auto intro: le_trans)
qed

definition region :: "tokenizer \<Rightarrow> string \<Rightarrow> rune_class \<Rightarrow> nat \<Rightarrow> nat \<Rightarrow> rune_class \<Rightarrow> nat \<Rightarrow> nat \<times> nat" where
  "region tk s c a b prev_class prev_start =
     (let ra = (if c = ClassLetter \<and> prev_class = ClassOther then contraction_start tk s prev_start a
                else if c = ClassOther \<and> b = a + 1 \<and> s ! a = apostrophe \<and> prev_class = ClassLetter
                  then contraction_start tk s a b
                else a);
          re = (if c \<noteq> ClassLetter \<and> fst (run_end tk s b) = ClassLetter then snd (run_end tk s b) else b)
      in (ra, chain_end tk s re))"

lemma region_ge: "b \<le> snd (region tk s c a b pc ps)"
  using run_end_ge [of b tk s] chain_end_ge [of _ tk s]
  by (auto simp: region_def Let_def intro: le_trans)

section \<open>Counting a text\<close>

definition max_token_bytes :: nat where "max_token_bytes = 128"

definition max_piece_bytes :: int where "max_piece_bytes = 1024"

definition floor_tokens :: "nat \<Rightarrow> int" where
  "floor_tokens n = (if n = 0 then 0 else int ((n + max_token_bytes - 1) div max_token_bytes))"

definition count_whole :: "tokenizer \<Rightarrow> string \<Rightarrow> int" where
  "count_whole tk s =
     (if s = [] then 0
      else case tk_count tk s of
        None \<Rightarrow> floor_tokens (length s)
      | Some n \<Rightarrow> if n < 0 then floor_tokens (length s) else n)"

definition slice :: "nat \<Rightarrow> nat \<Rightarrow> string \<Rightarrow> string" where
  "slice a b s = take (b - a) (drop a s)"

definition piece_limit :: "tokenizer \<Rightarrow> int" where
  "piece_limit tk = (if tk_max_piece tk \<le> 0 then max_piece_bytes else tk_max_piece tk)"

text \<open>The loop of \<^verbatim>\<open>count\<close>: the total, the start of the open span, the run before, and the offset.\<close>

function count_loop ::
  "tokenizer \<Rightarrow> string \<Rightarrow> int \<Rightarrow> nat \<Rightarrow> rune_class \<Rightarrow> nat \<Rightarrow> nat \<Rightarrow> int" where
  "count_loop tk s tot span_start prev_class prev_start i =
     (if length s \<le> i then tot + count_whole tk (drop span_start s)
      else
        let c = fst (run_end tk s i); e = snd (run_end tk s i) in
        if int (e - i) < piece_limit tk \<or> c = ClassDigit
        then count_loop tk s tot span_start c i e
        else
          let re = snd (region tk s c i e prev_class prev_start);
              ra = max (fst (region tk s c i e prev_class prev_start)) span_start in
          count_loop tk s (tot + count_whole tk (slice span_start ra s) + floor_tokens (re - ra))
            re ClassNone prev_start re)"
  by pat_completeness auto
termination
proof (relation "measure (\<lambda>(tk, s, t, st, pc, ps, i). length s - i)")
  fix tk s and tot :: int and span_start prev_start i xa :: nat and pc x :: rune_class
  assume i: "\<not> length s \<le> i" and xa: "xa = snd (run_end tk s i)"
  then show "((tk, s, tot, span_start, x, i, xa), tk, s, tot, span_start, pc, prev_start, i)
      \<in> measure (\<lambda>(tk, s, t, st, pc, ps, i). length s - i)"
    using run_end_gt [of i s tk] by auto
  fix xb :: nat and t :: int
  assume "xb = snd (region tk s x i xa pc prev_start)"
  then show "((tk, s, t, xb, ClassNone, prev_start, xb), tk, s, tot, span_start, pc, prev_start, i)
      \<in> measure (\<lambda>(tk, s, t, st, pc, ps, i). length s - i)"
    using run_end_gt [of i s tk] region_ge [of xa tk s x i pc prev_start] i xa by auto
qed simp

declare count_loop.simps [simp del]

definition count :: "tokenizer \<Rightarrow> string \<Rightarrow> int" where
  "count tk s = count_loop tk s 0 0 ClassNone 0 0"

end
