(* ===== verification/TokenRuns.thy ===== *)
theory TokenRuns
  imports Tokens
begin

text \<open>
  The backward scan of \<^verbatim>\<open>o200k.go\<close> mirrors the forward one. \<^const>\<open>decode_last_rune\<close> finds the
  rune that decoding from the front ends with, also in text that is not UTF-8; and
  \<^const>\<open>prev_run\<close> finds the run that \<^const>\<open>run_end\<close> started, combining marks included. Both
  scans are compared through the list of the classes and sizes of the runes.
\<close>

section \<open>The last rune\<close>

definition two_bytes :: "char \<Rightarrow> char \<Rightarrow> bool" where
  "two_bytes a b \<longleftrightarrow> byte_in 194 223 a \<and> byte_in 128 191 b"

definition three_bytes :: "char \<Rightarrow> char \<Rightarrow> char \<Rightarrow> bool" where
  "three_bytes a b c \<longleftrightarrow> byte_in 128 191 c \<and>
     (byte_in 224 224 a \<and> byte_in 160 191 b \<or> byte_in 225 236 a \<and> byte_in 128 191 b \<or>
      byte_in 237 237 a \<and> byte_in 128 159 b \<or> byte_in 238 239 a \<and> byte_in 128 191 b)"

definition four_bytes :: "char \<Rightarrow> char \<Rightarrow> char \<Rightarrow> char \<Rightarrow> bool" where
  "four_bytes a b c d \<longleftrightarrow> byte_in 128 191 c \<and> byte_in 128 191 d \<and>
     (byte_in 240 240 a \<and> byte_in 144 191 b \<or> byte_in 241 243 a \<and> byte_in 128 191 b \<or>
      byte_in 244 244 a \<and> byte_in 128 143 b)"

lemma utf8_len_rules:
  "utf8_len [] = 0"
  "utf8_len [a] = (if byte_in 0 127 a then 1 else 0)"
  "utf8_len [a, b] = (if byte_in 0 127 a then 1 else if two_bytes a b then 2 else 0)"
  "utf8_len [a, b, c] =
     (if byte_in 0 127 a then 1 else if two_bytes a b then 2 else if three_bytes a b c then 3 else 0)"
  "utf8_len (a # b # c # d # r) =
     (if byte_in 0 127 a then 1 else if two_bytes a b then 2 else if three_bytes a b c then 3
      else if four_bytes a b c d then 4 else 0)"
  unfolding utf8_len_def two_bytes_def three_bytes_def four_bytes_def list.case by (rule refl)+

lemma string_shapes:
  "s = [] \<or> (\<exists>a. s = [a]) \<or> (\<exists>a b. s = [a, b]) \<or> (\<exists>a b c. s = [a, b, c]) \<or>
   (\<exists>a b c d r. s = a # b # c # d # r)"
  by (cases s; cases "tl s"; cases "tl (tl s)"; cases "tl (tl (tl s))") auto

lemma not_start_lead:
  assumes "\<not> rune_start a"
  shows "utf8_len (a # s) = 0"
proof -
  have "\<not> byte_in 0 127 a" "\<not> two_bytes a b" "\<not> three_bytes a b c" "\<not> four_bytes a b c d" for b c d
    using assms by (auto simp: rune_start_def byte_in_def two_bytes_def three_bytes_def four_bytes_def)
  then show ?thesis using string_shapes [of "a # s"] by (elim disjE exE) (simp_all add: utf8_len_rules)
qed

lemma decode_continuation: "\<not> rune_start a \<Longrightarrow> decode_rune (a # s) = (rune_error, 1)"
  by (simp add: decode_rune_def not_start_lead)

lemma trailing_bytes:
  "two_bytes a b \<Longrightarrow> byte_in 128 191 b"
  "three_bytes a b c \<Longrightarrow> byte_in 128 191 b \<and> byte_in 128 191 c"
  "four_bytes a b c d \<Longrightarrow> byte_in 128 191 b \<and> byte_in 128 191 c \<and> byte_in 128 191 d"
  by (auto simp: two_bytes_def three_bytes_def four_bytes_def byte_in_def)

lemma utf8_len_tail: "\<forall>x \<in> set (take (utf8_len s - 1) (tl s)). byte_in 128 191 x"
  using string_shapes [of s]
  by (elim disjE exE) (auto simp: utf8_len_rules numeral_3_eq_3 dest: trailing_bytes)

lemma decode_inside:
  assumes "0 < i" and "i < snd (decode_rune s)"
  shows "\<not> rune_start (s ! i)"
proof -
  from assms have n: "i < utf8_len s" by (auto simp: decode_rune_def Let_def split: if_splits)
  with utf8_len_le [of s] have l: "i < length s" by simp
  with assms(1) have "s ! i = tl s ! (i - 1)" by (cases s) auto
  moreover have "tl s ! (i - 1) \<in> set (take (utf8_len s - 1) (tl s))"
    unfolding in_set_conv_nth using n l assms(1) by (intro exI [of _ "i - 1"]) auto
  ultimately show ?thesis using utf8_len_tail [of s] by (auto simp: rune_start_def)
qed

lemma utf8_len_take:
  assumes "0 < k" and "utf8_len s \<le> k"
  shows "utf8_len (take k s) = utf8_len s"
proof -
  note s = string_shapes [of s]
  have k: "k = 1 \<or> k = 2 \<or> k = 3 \<or> (\<exists>j. k = Suc (Suc (Suc (Suc j))))"
    using assms(1) by (cases k; cases "k - 1"; cases "k - 2"; cases "k - 3") auto
  from s k assms(2) show ?thesis
    by (elim disjE exE) (simp_all add: utf8_len_rules numeral_2_eq_2 numeral_3_eq_3 split: if_splits)
qed

lemma decode_take: "snd (decode_rune s) \<le> k \<Longrightarrow> s \<noteq> [] \<Longrightarrow> decode_rune (take k s) = decode_rune s"
proof -
  assume k: "snd (decode_rune s) \<le> k" and s: "s \<noteq> []"
  then have "0 < k" using decode_rune_size [of s] by simp
  moreover have "utf8_len s \<le> k" using k s by (auto simp: decode_rune_def Let_def split: if_splits)
  ultimately show ?thesis using s by (auto simp: decode_rune_def utf8_len_take Let_def min_def)
qed

lemma start_before_search:
  "start_before k s i = j \<Longrightarrow> j \<le> i \<and> i - j \<le> k \<and> (j = 0 \<or> rune_start (s ! j) \<or> i - j = k)"
proof (induction k arbitrary: i)
  case (Suc k)
  then show ?case by (fastforce split: if_splits)
qed simp

lemma start_before_skip:
  "(\<And>j. 0 < j \<Longrightarrow> j \<le> i \<Longrightarrow> \<not> rune_start (s ! j)) \<Longrightarrow> i \<le> k \<Longrightarrow> start_before k s i = 0"
  by (induction k arbitrary: i) auto

lemma decode_last_single:
  assumes "snd (decode_rune s) = length s" and "s \<noteq> []"
  shows "decode_last_rune s = decode_rune s"
proof -
  let ?n = "length s"
  consider "?n = 1" | "2 \<le> ?n" using assms(2) by (cases ?n) (auto simp: Suc_le_eq)
  then show ?thesis
  proof cases
    case 1
    then obtain a where "s = [a]" by (auto simp: length_Suc_conv)
    then show ?thesis by (simp add: decode_last_rune_def decode_rune_def utf8_len_def rune_value_def)
  next
    case 2
    have inside: "\<not> rune_start (s ! j)" if "0 < j" "j < ?n" for j
      using decode_inside [of j s] that assms(1) by simp
    have "?n \<le> 4" using assms utf8_len_cases [of s] by (auto simp: decode_rune_def Let_def split: if_splits)
    then have "start_before 2 s (?n - 2) = 0" by (intro start_before_skip inside) auto
    moreover have "0 < ?n - 1" "?n - 1 < ?n" using 2 by simp_all
    then have "\<not> byte_in 0 127 (s ! (?n - 1))"
      using inside [of "?n - 1"] by (auto simp: rune_start_def byte_in_def)
    ultimately show ?thesis using 2 assms by (auto simp: decode_last_rune_def Let_def split: prod.split)
  qed
qed

lemma start_before_shift:
  "start_before k s i = j \<Longrightarrow> 0 < j \<or> rune_start (s ! 0) \<or> i = k \<Longrightarrow>
   start_before k (w @ s) (length w + i) = length w + j"
proof (induction k arbitrary: i)
  case (Suc k)
  show ?case
  proof (cases "i = 0 \<or> rune_start (s ! i)")
    case True
    with Suc.prems show ?thesis by (auto simp: nth_append)
  next
    case False
    then have "start_before k (w @ s) (length w + (i - 1)) = length w + j"
      by (intro Suc.IH) (use Suc.prems in auto)
    with False show ?thesis by (auto simp: nth_append)
  qed
qed simp

text \<open>A rune before other bytes does not reach the end, wherever the backward search meets it.\<close>

lemma decode_stops_short:
  assumes "snd (decode_rune (w @ r)) = length w" and "w \<noteq> []" and "r \<noteq> []" and "q < length w"
    and "q + 1 < length (w @ r)"
  shows "q + snd (decode_rune (drop q (w @ r))) \<noteq> length (w @ r)"
proof (cases "q = 0")
  case False
  with assms have "\<not> rune_start ((w @ r) ! q)" by (intro decode_inside) auto
  moreover have "drop q (w @ r) = ((w @ r) ! q) # drop (Suc q) (w @ r)"
    using assms(4) by (intro Cons_nth_drop_Suc [symmetric]) auto
  ultimately have "decode_rune (drop q (w @ r)) = (rune_error, 1)"
    by (metis decode_continuation)
  with assms(5) show ?thesis by simp
qed (use assms in simp)

lemma decode_last_append:
  assumes "snd (decode_rune (w @ r)) = length w" and "w \<noteq> []" and "r \<noteq> []"
  shows "decode_last_rune (w @ r) = decode_last_rune r"
proof (cases "byte_in 0 127 (r ! (length r - 1))")
  case True
  moreover have "(w @ r) ! (length (w @ r) - 1) = r ! (length r - 1)"
    by (metis assms(3) append_is_Nil_conv last_appendR last_conv_nth)
  ultimately show ?thesis using assms(2,3) by (simp add: decode_last_rune_def Let_def)
next
  case False
  let ?s = "w @ r" and ?m = "length r"
  define j where "j = start_before 2 ?s (length ?s - 2)"
  have last: "?s ! (length ?s - 1) = r ! (?m - 1)"
    by (metis assms(3) append_is_Nil_conv last_appendR last_conv_nth)
  have m: "0 < ?m" "0 < length w" using assms(2,3) by auto
  have "length ?s \<noteq> 1" using m unfolding length_append by linarith
  with False last m have s: "decode_last_rune ?s =
      (if j + snd (decode_rune (drop j ?s)) \<noteq> length ?s then (rune_error, 1) else decode_rune (drop j ?s))"
    unfolding decode_last_rune_def j_def by (auto simp: Let_def split: prod.splits)
  have jl: "j \<le> length ?s - 2" unfolding j_def by (rule start_before_le)
  have "j + 1 < length ?s" using jl m unfolding length_append by linarith
  then have error: "decode_last_rune ?s = (rune_error, 1)" if "j < length w"
    using decode_stops_short [OF assms that] s by simp
  show ?thesis
  proof (cases "?m = 1")
    case True
    then have "j < length w" using jl m unfolding length_append by linarith
    with error have "decode_last_rune ?s = (rune_error, 1)" .
    moreover have "decode_last_rune r = (rune_error, 1)"
      using False True assms(3) by (simp add: decode_last_rune_def)
    ultimately show ?thesis by simp
  next
    case two: False
    define k where "k = start_before 2 r (?m - 2)"
    have kl: "k \<le> ?m - 2" unfolding k_def by (rule start_before_le)
    have r: "decode_last_rune r =
        (if k + snd (decode_rune (drop k r)) \<noteq> ?m then (rune_error, 1) else decode_rune (drop k r))"
      using False two m unfolding decode_last_rune_def k_def by (auto simp: Let_def split: prod.splits)
    have "2 \<le> ?m" using m two by linarith
    then have e: "length ?s - 2 = length w + (?m - 2)" by simp
    show ?thesis
    proof (cases "0 < k \<or> rune_start (r ! 0) \<or> ?m - 2 = 2")
      case True
      then have "j = length w + k"
        unfolding j_def e k_def by (intro start_before_shift) auto
      with s r show ?thesis by simp
    next
      case False
      then have "\<not> rune_start (hd r)" and k0: "k = 0" using assms(3) by (auto simp: hd_conv_nth)
      then have "decode_rune r = (rune_error, 1)"
        using assms(3) by (cases r) (auto simp: decode_continuation)
      then have er: "decode_last_rune r = (rune_error, 1)" using r k0 by simp
      have "?m - 2 \<le> 2" using start_before_search [OF k_def [symmetric]] k0 by simp
      with False two m have "?m = 2 \<or> ?m = 3" by linarith
      moreover have "\<not> rune_start (r ! 0)" using False by simp
      moreover have "\<not> rune_start (r ! 1)" if "?m = 3"
        using k_def k0 that by (auto simp: numeral_2_eq_2 numeral_3_eq_3 split: if_splits)
      ultimately have "j < length w"
        using m start_before_le [of 1 ?s "length w - 1"]
        by (auto simp: j_def e numeral_2_eq_2 numeral_3_eq_3 nth_append)
      with error er show ?thesis by simp
    qed
  qed
qed

section \<open>Cells\<close>

text \<open>A text as the list of the classes and sizes of its runes.\<close>

type_synonym cell = "rune_class \<times> nat"

function cells :: "tokenizer \<Rightarrow> string \<Rightarrow> cell list" where
  "cells tk s =
     (if s = [] then []
      else (class_of tk (fst (decode_rune s)), snd (decode_rune s)) # cells tk (drop (snd (decode_rune s)) s))"
  by pat_completeness auto
termination
proof (relation "measure (\<lambda>(tk, s). length s)")
  fix tk :: tokenizer and s :: string
  assume "s \<noteq> []"
  then show "((tk, drop (snd (decode_rune s)) s), tk, s) \<in> measure (\<lambda>(tk, s). length s)"
    using decode_rune_size [of s] by (cases s) auto
qed simp

declare cells.simps [simp del]

definition span :: "cell list \<Rightarrow> nat" where
  "span cs = sum_list (map snd cs)"

lemma span_simps [simp]: "span [] = 0" "span (c # cs) = snd c + span cs" "span (xs @ ys) = span xs + span ys"
  by (simp_all add: span_def)

lemma cells_Nil [simp]: "cells tk s = [] \<longleftrightarrow> s = []" "cells tk [] = []"
  by (subst cells.simps, simp)+

lemma cells_cut: "cells tk s = xs @ ys \<Longrightarrow>
    span xs \<le> length s \<and> cells tk (take (span xs) s) = xs \<and> cells tk (drop (span xs) s) = ys"
proof (induction xs arbitrary: s)
  case (Cons x xs)
  let ?n = "snd (decode_rune s)"
  from Cons.prems have s: "s \<noteq> []" by (metis cells_Nil(2) append_Cons list.distinct(1))
  with Cons.prems have x: "x = (class_of tk (fst (decode_rune s)), ?n)"
    and rest: "cells tk (drop ?n s) = xs @ ys"
    by (subst (asm) cells.simps, simp)+
  note n = decode_rune_size [OF s]
  from Cons.IH [OF rest] have IH: "span xs \<le> length s - ?n" "cells tk (take (span xs) (drop ?n s)) = xs"
    "cells tk (drop (span xs) (drop ?n s)) = ys" by auto
  let ?t = "take (?n + span xs) s"
  have t: "?t \<noteq> []" "decode_rune ?t = decode_rune s" using s n by (auto intro: decode_take)
  have "cells tk ?t = x # cells tk (drop ?n ?t)"
    using t x by (subst cells.simps) simp
  moreover have "drop ?n ?t = take (span xs) (drop ?n s)" by (simp add: drop_take)
  moreover have "?n + span xs \<le> length s" using IH(1) n by auto
  ultimately show ?case using IH x by (simp add: drop_drop add.commute)
qed simp

lemma cells_span: "span (cells tk s) = length s"
  using cells_cut [of tk s "cells tk s" "[]"] by simp

lemma cells_positive: "c \<in> set (cells tk s) \<Longrightarrow> 0 < snd c"
proof (induction tk s rule: cells.induct)
  case (1 tk s)
  show ?case
  proof (cases "s = []")
    case False
    with 1 decode_rune_size [of s] show ?thesis by (subst (asm) (2) cells.simps) auto
  qed (use 1 in simp)
qed

lemma cells_last: "s \<noteq> [] \<Longrightarrow> last (cells tk s) = last_rune tk s (length s)"
proof (induction tk s rule: cells.induct)
  case (1 tk s)
  let ?n = "snd (decode_rune s)"
  note n = decode_rune_size [OF 1(2)]
  have c: "cells tk s = (class_of tk (fst (decode_rune s)), ?n) # cells tk (drop ?n s)"
    using 1(2) by (subst cells.simps) simp
  show ?case
  proof (cases "drop ?n s = []")
    case True
    with n have "?n = length s" by simp
    with decode_last_single [OF _ 1(2)] show ?thesis
      unfolding c by (cases "decode_rune s") (simp add: last_rune_def)
  next
    case False
    then have "decode_last_rune (take ?n s @ drop ?n s) = decode_last_rune (drop ?n s)"
      using n 1(2) by (intro decode_last_append) auto
    with False 1 show ?thesis
      unfolding c by (simp add: last_rune_def split: prod.splits)
  qed
qed

lemma last_rune_cell:
  assumes "cells tk s = xs @ c # ys"
  shows "last_rune tk s (span xs + snd c) = c"
proof -
  from assms have "cells tk s = (xs @ [c]) @ ys" by simp
  note cut = cells_cut [OF this]
  let ?t = "take (span (xs @ [c])) s"
  from cut have "?t \<noteq> []" by (metis cells_Nil(2) append_is_Nil_conv list.distinct(1))
  from cells_last [OF this, of tk] cut show ?thesis by (simp add: last_rune_def min_absorb1 min_absorb2)
qed

section \<open>Forwards\<close>

definition fold_mark :: "rune_class \<Rightarrow> rune_class \<Rightarrow> rune_class" where
  "fold_mark cls c = (if c = ClassMark then if cls \<noteq> ClassDigit then cls else ClassOther else c)"

lemma decode_ascii: "s \<noteq> [] \<Longrightarrow> (of_char (s ! 0) :: nat) < 128 \<Longrightarrow> decode_rune s = (of_char (s ! 0), 1)"
  by (cases s) (auto simp: decode_rune_def utf8_len_def byte_in_def rune_value_def)

lemma next_class_cell:
  "cells tk s = x # ys \<Longrightarrow> next_class tk s cls = (fold_mark cls (fst x), snd x)"
proof -
  assume c: "cells tk s = x # ys"
  then have s: "s \<noteq> []" by auto
  with c have x: "x = (class_of tk (fst (decode_rune s)), snd (decode_rune s))"
    by (subst (asm) cells.simps) simp
  show ?thesis
  proof (cases "(of_char (s ! 0) :: nat) < 128")
    case True
    with s x show ?thesis
      by (auto simp: next_class_def Let_def decode_ascii class_of_def fold_mark_def is_letter_def is_number_def is_mark_def)
  next
    case False
    with x show ?thesis
      by (auto simp: next_class_def Let_def class_of_def fold_mark_def split: prod.split)
  qed
qed

lemma cells_class: "x \<in> set (cells tk s) \<Longrightarrow> fst x \<noteq> ClassNone"
proof (induction tk s rule: cells.induct)
  case (1 tk s)
  show ?case
  proof (cases "s = []")
    case False
    with 1 show ?thesis by (subst (asm) (2) cells.simps) (auto simp: class_of_def split: if_splits)
  qed (use 1 in simp)
qed

fun scan_cells :: "bool \<Rightarrow> rune_class \<Rightarrow> cell list \<Rightarrow> rune_class \<times> cell list" where
  "scan_cells start cls [] = (cls, [])"
| "scan_cells start cls (x # ys) =
     (let c = fold_mark cls (fst x) in
      if c \<noteq> cls \<and> cls \<noteq> ClassNone then (cls, [])
      else if c = ClassDigit \<and> \<not> start \<and> cls = ClassNone then (cls, [])
      else (fst (scan_cells False c ys), x # snd (scan_cells False c ys)))"

lemma run_scan_cells:
  "cells tk s = xs @ ys \<Longrightarrow> i \<le> span xs \<Longrightarrow>
   run_scan tk s i cls (span xs) =
     (fst (scan_cells (i = span xs) cls ys), span xs + span (snd (scan_cells (i = span xs) cls ys)))"
proof (induction ys arbitrary: xs cls)
  case Nil
  then have "length s = span xs" using cells_span [of tk s] by simp
  then show ?case by (subst run_scan.simps) simp
next
  case (Cons y ys)
  from cells_cut [OF Cons.prems(1)] have c: "cells tk (drop (span xs) s) = y # ys" by simp
  then have "\<not> length s \<le> span xs" by auto
  moreover note next_class_cell [OF c, of cls]
  moreover have "0 < snd y" using cells_positive [of y tk s] Cons.prems(1) by simp
  moreover have "cells tk s = (xs @ [y]) @ ys" using Cons.prems(1) by simp
  note Cons.IH [OF this, of "fold_mark cls (fst y)"]
  ultimately show ?case
    using Cons.prems(2) by (subst run_scan.simps) (auto simp: Let_def add.assoc)
qed

definition run_of :: "cell list \<Rightarrow> rune_class \<times> cell list" where
  "run_of ys =
     (let r = scan_cells True ClassNone ys in (if fst r = ClassNone then ClassOther else fst r, snd r))"

lemma run_end_cells:
  "cells tk s = xs @ ys \<Longrightarrow> run_end tk s (span xs) = (fst (run_of ys), span xs + span (snd (run_of ys)))"
  by (simp add: run_end_def run_of_def Let_def run_scan_cells)

lemma scan_word: "c \<in> {ClassLetter, ClassOther} \<Longrightarrow>
    scan_cells b c ys = (c, takeWhile (\<lambda>x. fst x \<in> {c, ClassMark}) ys)"
  by (induction ys arbitrary: b) (auto simp: Let_def fold_mark_def)

lemma scan_digits: "scan_cells b ClassDigit ys = (ClassDigit, takeWhile (\<lambda>x. fst x = ClassDigit) ys)"
  by (induction ys arbitrary: b) (auto simp: Let_def fold_mark_def)

lemma dropWhile_member: "dropWhile P ys = z # zs \<Longrightarrow> \<exists>x \<in> set ys. \<not> P x"
  by (metis dropWhile_eq_Nil_conv list.distinct(1))

lemma scan_none:
  assumes "\<forall>x \<in> set ys. fst x \<noteq> ClassNone"
  shows "scan_cells b ClassNone ys =
    (let ms = takeWhile (\<lambda>x. fst x = ClassMark) ys in
     case dropWhile (\<lambda>x. fst x = ClassMark) ys of
       [] \<Rightarrow> (ClassNone, ms)
     | x # r \<Rightarrow>
         if fst x = ClassDigit then
           (if ms = [] \<and> b then (ClassDigit, x # takeWhile (\<lambda>x. fst x = ClassDigit) r) else (ClassNone, ms))
         else (fst x, ms @ x # takeWhile (\<lambda>y. fst y \<in> {fst x, ClassMark}) r))"
  using assms
proof (induction ys arbitrary: b)
  case (Cons y ys)
  show ?case
  proof (cases "fst y")
    case ClassMark
    with Cons show ?thesis
      by (auto simp: Let_def fold_mark_def split: list.split dest: dropWhile_member)
  next
    case ClassDigit
    then show ?thesis by (simp add: Let_def fold_mark_def scan_digits)
  next
    case ClassLetter
    then show ?thesis by (simp add: Let_def fold_mark_def scan_word)
  next
    case ClassOther
    then show ?thesis by (simp add: Let_def fold_mark_def scan_word)
  qed (use Cons in simp)
qed simp

text \<open>The three forms of a run and what stops it.\<close>

lemma hd_dropWhile': "dropWhile P xs = [] \<or> \<not> P (hd (dropWhile P xs))"
  by (induction xs) auto

lemma run_of_cases:
  assumes "ys \<noteq> []" and "\<forall>x \<in> set ys. fst x \<noteq> ClassNone"
  obtains
    (digits) zs rest where "ys = zs @ rest" "run_of ys = (ClassDigit, zs)" "zs \<noteq> []"
      "\<forall>x \<in> set zs. fst x = ClassDigit" "rest = [] \<or> fst (hd rest) \<noteq> ClassDigit"
  | (word) c ms x mid rest where "ys = (ms @ x # mid) @ rest" "run_of ys = (c, ms @ x # mid)"
      "c = ClassLetter \<or> c = ClassOther" "fst x = c" "\<forall>y \<in> set ms. fst y = ClassMark"
      "\<forall>y \<in> set mid. fst y = c \<or> fst y = ClassMark"
      "rest = [] \<or> fst (hd rest) \<noteq> c \<and> fst (hd rest) \<noteq> ClassMark"
  | (marks) zs rest where "ys = zs @ rest" "run_of ys = (ClassOther, zs)" "zs \<noteq> []"
      "\<forall>x \<in> set zs. fst x = ClassMark" "rest = [] \<or> fst (hd rest) = ClassDigit"
proof -
  let ?ms = "takeWhile (\<lambda>x. fst x = ClassMark) ys" and ?r = "dropWhile (\<lambda>x. fst x = ClassMark) ys"
  have ys: "ys = ?ms @ ?r" by simp
  have ms: "\<forall>y \<in> set ?ms. fst y = ClassMark" by (auto dest: set_takeWhileD)
  note scan = scan_none [OF assms(2), of True]
  show thesis
  proof (cases ?r)
    case Nil
    with scan have "run_of ys = (ClassOther, ?ms)" by (simp add: run_of_def Let_def)
    with marks [of ?ms "[]"] ys ms Nil assms(1) show thesis by simp
  next
    case (Cons x r)
    then have nm: "fst x \<noteq> ClassMark" using hd_dropWhile' [of "\<lambda>x. fst x = ClassMark" ys] by simp
    have "x \<in> set ys" using Cons by (metis list.set_intros(1) set_dropWhileD)
    with assms(2) have nn: "fst x \<noteq> ClassNone" by blast
    show thesis
    proof (cases "fst x = ClassDigit")
      case True
      show thesis
      proof (cases "?ms = []")
        case False
        with scan Cons True have "run_of ys = (ClassOther, ?ms)" by (simp add: run_of_def Let_def)
        with marks [of ?ms ?r] ys ms Cons True False show thesis by simp
      next
        case empty: True
        let ?zs = "x # takeWhile (\<lambda>x. fst x = ClassDigit) r"
        have "ys = ?zs @ dropWhile (\<lambda>x. fst x = ClassDigit) r" using ys empty Cons by simp
        moreover have "run_of ys = (ClassDigit, ?zs)" using scan Cons True empty by (simp add: run_of_def Let_def)
        moreover have "\<forall>y \<in> set ?zs. fst y = ClassDigit" using True by (auto dest: set_takeWhileD)
        ultimately show thesis
          using digits [of ?zs] hd_dropWhile' [of "\<lambda>x. fst x = ClassDigit" r] by blast
      qed
    next
      case False
      let ?mid = "takeWhile (\<lambda>y. fst y \<in> {fst x, ClassMark}) r"
        and ?rest = "dropWhile (\<lambda>y. fst y \<in> {fst x, ClassMark}) r"
      have "ys = (?ms @ x # ?mid) @ ?rest" using ys Cons by simp
      moreover have "run_of ys = (fst x, ?ms @ x # ?mid)" using scan Cons False nn by (simp add: run_of_def Let_def)
      moreover have "fst x = ClassLetter \<or> fst x = ClassOther" using False nm nn by (cases "fst x") auto
      moreover have "\<forall>y \<in> set ?mid. fst y = fst x \<or> fst y = ClassMark" by (auto dest: set_takeWhileD)
      ultimately show thesis
        using word [of ?ms x ?mid ?rest "fst x"] ms hd_dropWhile' [of "\<lambda>y. fst y \<in> {fst x, ClassMark}" r] by blast
    qed
  qed
qed

section \<open>Backwards\<close>

inductive cell_cut :: "cell list \<Rightarrow> cell list \<Rightarrow> bool" for cs where
  cell_start: "cell_cut cs []"
| cell_run: "cell_cut cs xs \<Longrightarrow> cs = xs @ ys \<Longrightarrow> ys \<noteq> [] \<Longrightarrow> cell_cut cs (xs @ snd (run_of ys))"

lemma run_of_append: "\<forall>x \<in> set ys. fst x \<noteq> ClassNone \<Longrightarrow> ys \<noteq> [] \<Longrightarrow>
    \<exists>zs rest. ys = zs @ rest \<and> snd (run_of ys) = zs \<and> zs \<noteq> []"
  by (erule run_of_cases [rotated]) auto

lemma cell_cut_last:
  assumes "cell_cut cs xs" and "xs \<noteq> []" and "\<forall>x \<in> set cs. fst x \<noteq> ClassNone"
  obtains pre zs rest where "xs = pre @ zs" "cs = pre @ zs @ rest" "snd (run_of (zs @ rest)) = zs" "zs \<noteq> []"
    "cell_cut cs pre"
  using assms
proof cases
  case (cell_run pre ys)
  then obtain zs rest where "ys = zs @ rest" "snd (run_of ys) = zs" "zs \<noteq> []"
    using run_of_append [of ys] assms(3) by auto
  with cell_run that [of pre zs rest] show thesis by simp
qed simp

text \<open>What stands before a run that starts with a cell of class \<open>c\<close>: nothing that would have taken it in.\<close>

definition before_run :: "rune_class \<Rightarrow> cell list \<Rightarrow> bool" where
  "before_run c pre \<longleftrightarrow> pre = [] \<or>
     (\<exists>p y mk. pre = p @ y # mk \<and> (\<forall>x \<in> set mk. fst x = ClassMark) \<and>
        (if c = ClassMark then mk = [] \<and> fst y = ClassDigit
         else if c = ClassDigit then fst y \<noteq> ClassDigit \<or> mk \<noteq> []
         else fst y \<noteq> c \<and> fst y \<noteq> ClassMark \<and> (mk \<noteq> [] \<longrightarrow> fst y \<noteq> ClassDigit)))"

lemma cell_cut_before:
  assumes "cell_cut cs pre" and "cs = pre @ z # zs" and "\<forall>x \<in> set cs. fst x \<noteq> ClassNone"
  shows "before_run (fst z) pre"
proof (cases "pre = []")
  case False
  from cell_cut_last [OF assms(1) False assms(3)] obtain p ws rest where p: "pre = p @ ws" "cs = p @ ws @ rest"
    "snd (run_of (ws @ rest)) = ws" "ws \<noteq> []" by metis
  with assms(2) have rest: "rest = z # zs" by simp
  have nn: "\<forall>x \<in> set (ws @ rest). fst x \<noteq> ClassNone" using assms(3) p by auto
  have z: "fst z \<noteq> ClassNone" using nn rest by simp
  from p(4) have "ws @ rest \<noteq> []" by simp
  then show ?thesis using nn
  proof (cases rule: run_of_cases)
    case (digits ws' rest')
    with p rest have w: "ws' = ws" "rest' = z # zs" by auto
    obtain q y where "ws = q @ [y]" using p(4) by (cases ws rule: rev_cases) auto
    with digits w p(1) z show ?thesis
      unfolding before_run_def by (intro disjI2 exI [of _ "p @ q"] exI [of _ y] exI [of _ "[]"]) auto
  next
    case (word c ms x mid rest')
    with p rest have w: "ms @ x # mid = ws" "rest' = z # zs" by auto
    have z': "fst z \<noteq> c" "fst z \<noteq> ClassMark" using word(7) w by auto
    have "\<exists>y \<in> set (x # mid). fst y \<noteq> ClassMark" using word(3,4) by auto
    from split_list_last_prop [OF this] obtain r y t where t: "x # mid = r @ y # t" "fst y \<noteq> ClassMark"
      "\<forall>z \<in> set t. fst z = ClassMark" by auto
    then have "y \<in> set (x # mid)" by simp
    with t(2) word(4,6) have "fst y = c" by auto
    moreover have "pre = (p @ ms @ r) @ y # t" using p(1) w(1) t(1) by simp
    ultimately show ?thesis
      unfolding before_run_def using z' word(3) t(3)
      by (intro disjI2 exI [of _ "p @ ms @ r"] exI [of _ y] exI [of _ t]) auto
  next
    case (marks ws' rest')
    with p rest have w: "ws' = ws" "rest' = z # zs" by auto
    obtain q y where q: "ws = q @ [y]" using p(4) by (cases ws rule: rev_cases) auto
    with marks w p(1) z show ?thesis
      unfolding before_run_def by (intro disjI2 exI [of _ "p @ q"] exI [of _ y] exI [of _ "[]"]) auto
  qed
qed (simp add: before_run_def)

lemma span_snoc: "span (xs @ [c]) = span xs + snd c"
  by simp

lemma span_zero: "cells tk s = xs @ ys \<Longrightarrow> span xs = 0 \<longleftrightarrow> xs = []"
  using cells_positive [of "hd xs" tk s] by (cases xs) auto

lemma cells_nonempty: "cells tk s = xs @ c # ys \<Longrightarrow> s \<noteq> []"
  by auto

lemma marks_before_cells:
  assumes "cells tk s = ws @ mk @ ys" and "\<forall>x \<in> set mk. fst x = ClassMark"
    and "ws = [] \<or> fst (last ws) \<noteq> ClassMark"
  shows "marks_before tk s (span (ws @ mk)) = span ws"
  using assms(1,2)
proof (induction mk arbitrary: ys rule: rev_induct)
  case Nil
  show ?case
  proof (cases ws rule: rev_cases)
    case (snoc ws' w)
    with Nil.prems have "last_rune tk s (span ws) = w" using last_rune_cell [of tk s ws' w] by simp
    with snoc assms(3) show ?thesis by (subst marks_before.simps) simp
  qed (subst marks_before.simps, simp)
next
  case (snoc m mk)
  from snoc.prems have c: "cells tk s = (ws @ mk) @ m # ys" by simp
  have "last_rune tk s (span (ws @ mk @ [m])) = m" using last_rune_cell [OF c] by (simp add: add.assoc)
  moreover have "0 < span (ws @ mk @ [m])" using cells_positive [of m tk s] c by simp
  ultimately show ?case
    using snoc.IH [of "m # ys"] snoc.prems cells_nonempty [OF c]
    by (subst marks_before.simps) (simp add: add.assoc)
qed

lemma digits_back_cells:
  assumes "cells tk s = ws @ ds @ ys" and "\<forall>x \<in> set ds. fst x = ClassDigit"
    and "ws = [] \<or> fst (last ws) \<noteq> ClassDigit"
  shows "digits_back tk s (span (ws @ ds)) = span ws"
  using assms(1,2)
proof (induction ds arbitrary: ys rule: rev_induct)
  case Nil
  show ?case
  proof (cases ws rule: rev_cases)
    case (snoc ws' w)
    with Nil.prems have "last_rune tk s (span ws) = w" using last_rune_cell [of tk s ws' w] by simp
    with snoc assms(3) show ?thesis by (subst digits_back.simps) simp
  qed (subst digits_back.simps, simp)
next
  case (snoc m mk)
  from snoc.prems have c: "cells tk s = (ws @ mk) @ m # ys" by simp
  have "last_rune tk s (span (ws @ mk @ [m])) = m" using last_rune_cell [OF c] by (simp add: add.assoc)
  moreover have "0 < span (ws @ mk @ [m])" using cells_positive [of m tk s] c by simp
  ultimately show ?case
    using snoc.IH [of "m # ys"] snoc.prems cells_nonempty [OF c]
    by (subst digits_back.simps) (simp add: add.assoc)
qed

text \<open>The walk walk_back inside a run of letters or others, over the marks that it contains.\<close>

lemma class_back_unfold:
  assumes "0 < e" and "s \<noteq> []"
  shows "class_back tk s c e =
    (if fst (last_rune tk s e) = c then class_back tk s c (e - snd (last_rune tk s e))
     else if fst (last_rune tk s e) \<noteq> ClassMark then e
     else let p = marks_before tk s e in
       if p = 0 then 0
       else if fst (last_rune tk s p) = c then class_back tk s c (p - snd (last_rune tk s p))
       else if fst (last_rune tk s p) = ClassDigit then p else e)"
  using assms
  by (subst class_back.simps, cases "last_rune tk s e", cases "last_rune tk s (marks_before tk s e)") (simp add: Let_def)

lemma class_back_cells:
  assumes "cells tk s = (pre @ ms @ mid) @ ys" and "c = ClassLetter \<or> c = ClassOther"
    and "\<forall>x \<in> set ms. fst x = ClassMark" and "\<forall>x \<in> set mid. fst x = c \<or> fst x = ClassMark"
    and "mid = [] \<or> fst (hd mid) = c"
    and "ms \<noteq> [] \<Longrightarrow> before_run ClassMark pre" and "ms = [] \<Longrightarrow> before_run c pre"
  shows "class_back tk s c (span (pre @ ms @ mid)) = span pre"
  using assms(1,4,5)
proof (induction "length mid" arbitrary: mid ys rule: less_induct)
  case less
  let ?e = "span (pre @ ms @ mid)"
  show ?case
  proof (cases "pre @ ms @ mid = []")
    case True
    then show ?thesis by (subst class_back.simps) simp
  next
    case False
    then have e: "0 < ?e" using span_zero [OF less.prems(1)] by blast
    have s: "s \<noteq> []" using less.prems(1) False by auto
    note walk_back = class_back_unfold [OF e s, of tk c]
    have cell_at: "last_rune tk s (span (us @ [x])) = x" if "pre @ ms @ mid = us @ x # vs" for us x vs
      using last_rune_cell [of tk s us x "vs @ ys"] less.prems(1) that by simp
    have marks: "marks_before tk s ?e = span us"
      if "pre @ ms @ mid = us @ mk" "\<forall>x \<in> set mk. fst x = ClassMark" "us = [] \<or> fst (last us) \<noteq> ClassMark" for us mk
      using marks_before_cells [of tk s us mk ys] less.prems(1) that by simp
    show ?thesis
    proof (cases "mid = []")
      case False
      then have "\<exists>x \<in> set mid. fst x \<noteq> ClassMark" using less.prems(3) assms(2) by (cases mid) auto
      from split_list_last_prop [OF this] obtain r y t where t: "mid = r @ y # t" "fst y \<noteq> ClassMark"
        "\<forall>z \<in> set t. fst z = ClassMark" by auto
      have y: "fst y = c" using less.prems(2) t by auto
      have IH: "class_back tk s c (span (pre @ ms @ r)) = span pre"
        using less.hyps [of r "y # t @ ys"] less.prems t by (cases r) auto
      show ?thesis
      proof (cases "t = []")
        case True
        with cell_at [of "pre @ ms @ r" y "[]"] t IH y walk_back show ?thesis by (simp add: add.assoc)
      next
        case False
        then obtain t' z where z: "t = t' @ [z]" by (cases t rule: rev_cases) auto
        have "last_rune tk s ?e = z" using cell_at [of "pre @ ms @ r @ y # t'" z "[]"] t z by (simp add: add.assoc)
        moreover have "marks_before tk s ?e = span (pre @ ms @ r @ [y])"
          using marks [of "pre @ ms @ r @ [y]" t] t by simp
        moreover have "last_rune tk s (span (pre @ ms @ r @ [y])) = y"
          using cell_at [of "pre @ ms @ r" y t] t by simp
        moreover have "0 < snd y" using cells_positive [of y tk s] less.prems(1) t by simp
        ultimately show ?thesis using walk_back IH y t(3) z assms(2) by (auto simp: Let_def add.assoc)
      qed
    next
      case mid: True
      show ?thesis
      proof (cases "ms = []")
        case ms: False
        then obtain m' m where m: "ms = m' @ [m]" by (cases ms rule: rev_cases) auto
        have "last_rune tk s ?e = m" using cell_at [of "pre @ m'" m "[]"] m mid by (simp add: add.assoc)
        moreover have "fst m = ClassMark" using assms(3) m by simp
        moreover have p: "marks_before tk s ?e = span pre"
          using marks [of pre ms] assms(3,6) ms mid by (fastforce simp: before_run_def)
        moreover have "pre = [] \<or> fst (last_rune tk s (span pre)) = ClassDigit \<and> 0 < span pre"
          using assms(6) [OF ms] cell_at [of _ _ "[] @ ms"] mid span_zero [of tk s pre "ms @ ys"] less.prems(1)
          by (fastforce simp: before_run_def)
        ultimately show ?thesis using walk_back assms(2) by (auto simp: Let_def)
      next
        case True
        have "c \<noteq> ClassMark" "c \<noteq> ClassDigit" "pre \<noteq> []" using assms(2) False True mid by auto
        with assms(7) [OF True] have "\<exists>p y mk. pre = p @ y # mk \<and> (\<forall>x \<in> set mk. fst x = ClassMark) \<and>
            fst y \<noteq> c \<and> fst y \<noteq> ClassMark \<and> (mk \<noteq> [] \<longrightarrow> fst y \<noteq> ClassDigit)"
          by (simp add: before_run_def)
        then obtain p y mk where y: "pre = p @ y # mk" "\<forall>x \<in> set mk. fst x = ClassMark"
          "fst y \<noteq> c" "fst y \<noteq> ClassMark" "mk \<noteq> [] \<longrightarrow> fst y \<noteq> ClassDigit" by blast
        show ?thesis
        proof (cases mk rule: rev_cases)
          case Nil
          with cell_at [of p y "[]"] y True mid walk_back show ?thesis by (simp add: add.assoc)
        next
          case (snoc mk' z)
          have "last_rune tk s ?e = z" using cell_at [of "p @ y # mk'" z "[]"] y snoc True mid by (simp add: add.assoc)
          moreover have "marks_before tk s ?e = span (p @ [y])"
            using marks [of "p @ [y]" mk] y True mid by simp
          moreover have "last_rune tk s (span (p @ [y])) = y" using cell_at [of p y mk] y True mid by simp
          moreover have "0 < span (p @ [y])" using cells_positive [of y tk s] less.prems(1) y by simp
          ultimately show ?thesis using walk_back y snoc True mid assms(2) by (auto simp: Let_def)
        qed
      qed
    qed
  qed
qed

text \<open>The run that ends at a cut, found backwards, is the run that the forward scan put there.\<close>

lemma prev_run_cells:
  assumes "cell_cut (cells tk s) pre" and "cells tk s = pre @ zs @ rest" and "zs \<noteq> []"
    and "run_of (zs @ rest) = (c, zs)"
  shows "prev_run tk s (span (pre @ zs)) = (c, span pre)"
proof -
  let ?e = "span (pre @ zs)"
  have nn: "\<forall>x \<in> set (cells tk s). fst x \<noteq> ClassNone" using cells_class by auto
  have before: "before_run (fst (hd zs)) pre"
    using cell_cut_before [OF assms(1) _ nn, of "hd zs" "tl zs @ rest"] assms(2,3) by simp
  have cell_at: "last_rune tk s (span (us @ [x])) = x" if "pre @ zs = us @ x # vs" for us x vs
    using last_rune_cell [of tk s us x "vs @ rest"] assms(2) that by simp
  obtain z' z where z: "zs = z' @ [z]" using assms(3) by (cases zs rule: rev_cases) auto
  have last: "last_rune tk s ?e = z" using cell_at [of "pre @ z'" z "[]"] z by (simp add: add.assoc)
  have e: "0 < ?e" using span_zero [of tk s "pre @ zs" rest] assms(2,3) by auto
  have prev: "prev_run tk s ?e =
      (let go_back = (\<lambda>c start. (c, if c = ClassDigit then digits_back tk s start else class_back tk s c start))
       in if fst z = ClassMark then
            (let p = marks_before tk s ?e in
             if p = 0 then (ClassOther, 0)
             else if fst (last_rune tk s p) = ClassDigit then (ClassOther, p)
             else go_back (fst (last_rune tk s p)) (p - snd (last_rune tk s p)))
          else go_back (fst z) (?e - snd z))"
    unfolding prev_run_def last by (auto simp: Let_def split: prod.split)
  have "zs @ rest \<noteq> []" "\<forall>x \<in> set (zs @ rest). fst x \<noteq> ClassNone" using assms nn by auto
  then show ?thesis
  proof (cases rule: run_of_cases)
    case (digits zs' rest')
    then have d: "zs' = zs" "c = ClassDigit" using assms(4) by auto
    with digits z have zd: "fst z = ClassDigit" "\<forall>x \<in> set z'. fst x = ClassDigit" "fst (hd zs) = ClassDigit"
      using hd_in_set [OF assms(3)] by auto
    have "pre = [] \<or> fst (last pre) \<noteq> ClassDigit"
      using before zd by (auto simp: before_run_def split: if_splits)
    then have "digits_back tk s (span (pre @ z')) = span pre"
      using digits_back_cells [of tk s pre z' "z # rest"] assms(2) z zd by simp
    with prev zd z d show ?thesis by (simp add: Let_def add.assoc)
  next
    case (marks zs' rest')
    then have d: "zs' = zs" "c = ClassOther" using assms(4) by auto
    with marks z have zd: "fst z = ClassMark" "\<forall>x \<in> set zs. fst x = ClassMark" "fst (hd zs) = ClassMark"
      using hd_in_set [OF assms(3)] by auto
    then obtain p where p: "pre = [] \<or> (\<exists>y. pre = p @ [y] \<and> fst y = ClassDigit)"
      using before by (auto simp: before_run_def)
    have "marks_before tk s ?e = span pre"
      using marks_before_cells [of tk s pre zs rest] assms(2) zd p by auto
    moreover have "pre = [] \<or> fst (last_rune tk s (span pre)) = ClassDigit \<and> 0 < span pre"
      using p cell_at [of p _ zs] span_zero [of tk s pre "zs @ rest"] assms(2) by auto
    ultimately show ?thesis using prev zd d by (auto simp: Let_def)
  next
    case (word c' ms x mid rest')
    then have d: "ms @ x # mid = zs" "c' = c" using assms(4) by auto
    note word = word [unfolded d(2)]
    have "\<exists>y \<in> set (x # mid). fst y \<noteq> ClassMark" using word(3,4) by auto
    from split_list_last_prop [OF this] obtain r y t where t: "x # mid = r @ y # t" "fst y \<noteq> ClassMark"
      "\<forall>z \<in> set t. fst z = ClassMark" by auto
    have "y \<in> set (x # mid)" using t(1) by simp
    with t(2) word(4,6) have y: "fst y = c" by auto
    have r: "\<forall>x \<in> set r. fst x = c \<or> fst x = ClassMark" "r = [] \<or> fst (hd r) = c"
      using t(1) word(4,6) by (cases r; auto)+
    have pre: "ms \<noteq> [] \<Longrightarrow> before_run ClassMark pre" "ms = [] \<Longrightarrow> before_run c pre"
      using before d(1) word(4,5) by (cases ms; auto)+
    have zs: "zs = ms @ r @ y # t" using d(1) t(1) by simp
    have walk_back: "class_back tk s c (span (pre @ ms @ r)) = span pre"
      by (rule class_back_cells [of tk s pre ms r "y # t @ rest"])
         (use assms(2) zs word(3,5) r pre in auto)
    have cd: "c \<noteq> ClassDigit" using word(3) by auto
    show ?thesis
    proof (cases "t = []")
      case True
      then have "z = y" "z' = ms @ r" using zs z by auto
      with prev y t(2) cd walk_back zs True show ?thesis by (simp add: Let_def add.assoc)
    next
      case False
      then have "fst z = ClassMark" using z zs t(3) by (cases t rule: rev_cases) auto
      moreover have "marks_before tk s ?e = span (pre @ ms @ r @ [y])"
        using marks_before_cells [of tk s "pre @ ms @ r @ [y]" t rest] assms(2) zs t by simp
      moreover have "last_rune tk s (span (pre @ ms @ r @ [y])) = y"
        using cell_at [of "pre @ ms @ r" y t] zs by simp
      moreover have "0 < snd y" using cells_positive [of y tk s] assms(2) zs by simp
      ultimately show ?thesis using prev y cd walk_back by (simp add: Let_def add.assoc)
    qed
  qed
qed

section \<open>Cuts\<close>

text \<open>The offsets at which a forward scan from the start ends a run.\<close>

inductive run_cut :: "tokenizer \<Rightarrow> string \<Rightarrow> nat \<Rightarrow> bool" for tk s where
  cut_start: "run_cut tk s 0"
| cut_next: "run_cut tk s p \<Longrightarrow> p < length s \<Longrightarrow> run_cut tk s (snd (run_end tk s p))"

lemma run_cut_cells:
  "run_cut tk s p \<Longrightarrow> \<exists>xs ys. cells tk s = xs @ ys \<and> p = span xs \<and> cell_cut (cells tk s) xs"
proof (induction rule: run_cut.induct)
  case cut_start
  then show ?case by (intro exI [of _ "[]"] exI [of _ "cells tk s"]) (simp add: cell_start)
next
  case (cut_next p)
  then obtain xs ys where c: "cells tk s = xs @ ys" "p = span xs" "cell_cut (cells tk s) xs" by blast
  have "ys \<noteq> []" using c cut_next.hyps(2) cells_span [of tk s] by auto
  moreover have "\<forall>x \<in> set ys. fst x \<noteq> ClassNone" using cells_class [of _ tk s] c(1) by auto
  ultimately obtain zs rest where z: "ys = zs @ rest" "snd (run_of ys) = zs" using run_of_append by blast
  have "cell_cut (cells tk s) (xs @ zs)" using cell_run [OF c(3,1) \<open>ys \<noteq> []\<close>] z by simp
  moreover have "snd (run_end tk s p) = span (xs @ zs)" using run_end_cells [OF c(1)] c(2) z by simp
  ultimately show ?case using c(1) z by (intro exI [of _ "xs @ zs"] exI [of _ rest]) simp
qed

lemma cell_cut_run_cut: "cell_cut (cells tk s) xs \<Longrightarrow> run_cut tk s (span xs)"
proof (induction rule: cell_cut.induct)
  case cell_start
  then show ?case by (simp add: cut_start)
next
  case (cell_run xs ys)
  have "span xs < length s"
    using cells_span [of tk s] cell_run(2,3) cells_positive [of "hd ys" tk s] by (cases ys) auto
  from cut_next [OF cell_run(4) this] run_end_cells [OF cell_run(2)] show ?case by simp
qed

text \<open>
  The backward scan over a text mirrors the forward one. At every offset where the
  forward scan ends a run, the backward scan finds the class and the start of exactly that
  run, in any text: with combining marks, and with bytes that are not UTF-8.
\<close>

theorem prev_run_mirrors:
  assumes "run_cut tk s p" and "0 < p"
  shows "run_cut tk s (snd (prev_run tk s p)) \<and> snd (prev_run tk s p) < p \<and>
    run_end tk s (snd (prev_run tk s p)) = (fst (prev_run tk s p), p)"
proof -
  from run_cut_cells [OF assms(1)] obtain xs ys where c: "cells tk s = xs @ ys" "p = span xs"
    "cell_cut (cells tk s) xs" by blast
  have nn: "\<forall>x \<in> set (cells tk s). fst x \<noteq> ClassNone" using cells_class by auto
  have "xs \<noteq> []" using c(2) assms(2) by auto
  from cell_cut_last [OF c(3) this nn] obtain pre zs rest where z: "xs = pre @ zs" "cells tk s = pre @ zs @ rest"
    "snd (run_of (zs @ rest)) = zs" "zs \<noteq> []" "cell_cut (cells tk s) pre" by blast
  obtain d where d: "run_of (zs @ rest) = (d, zs)" using z(3) by (cases "run_of (zs @ rest)") auto
  have "prev_run tk s p = (d, span pre)" using prev_run_cells [OF z(5,2,4) d] c(2) z(1) by simp
  moreover have "run_end tk s (span pre) = (d, p)" using run_end_cells [OF z(2)] d c(2) z(1) by simp
  moreover have "span pre < p"
    using c(2) z(1,2,4) cells_positive [of "hd zs" tk s] by (cases zs) auto
  ultimately show ?thesis using cell_cut_run_cut [OF z(5)] by simp
qed

definition demo_marks :: tokenizer where
  "demo_marks =
     \<lparr>tk_count = (\<lambda>s. Some (int (length s))), tk_hash = (\<lambda>s. 0), tk_letter = (\<lambda>r. False), tk_number = (\<lambda>r. False),
      tk_mark = (\<lambda>r. r = 769), tk_unmarshal = (\<lambda>s. None), tk_float = (\<lambda>s. s), tk_max_piece = 1, tk_capacity = 4\<rparr>"

lemma demo_run: "run_end demo_marks ''ab7'' 0 = (ClassLetter, 2)"
  by (simp add: run_end_def run_scan.simps next_class_def ascii_letter_def ascii_digit_def Let_def)

theorem prev_run_mirrors_witness:
  "run_end demo_marks ''ab7'' (snd (prev_run demo_marks ''ab7'' 2)) = (fst (prev_run demo_marks ''ab7'' 2), 2)"
proof -
  have "run_cut demo_marks ''ab7'' 2" using cut_next [OF cut_start, of "''ab7''" demo_marks] demo_run by simp
  from prev_run_mirrors [OF this] show ?thesis by simp
qed

end
