(* ===== verification/TokenBound.thy ===== *)
theory TokenBound
  imports TokenRuns
begin

text \<open>
  The count of a text is a lower bound. The tokens of the codec are a parameter; what is
  assumed of them is what the split expression of o200k promises and the comments of
  \<^verbatim>\<open>o200k.go\<close> rely on (\<open>piece_contract\<close>). The lemmas show that the regions that the loop
  takes out end at such cuts, so that the spans in between are counted as in place, and
  that the guard against a region that starts too early never acts.
\<close>

section \<open>Runs of a text from an offset\<close>

lemma next_class_drop: "next_class tk (drop (k + e) s) cls = next_class tk (drop e (drop k s)) cls"
  by (simp add: add.commute)

lemma run_scan_drop:
  "run_scan tk (drop k s) i cls e =
     (fst (run_scan tk s (k + i) cls (k + e)), snd (run_scan tk s (k + i) cls (k + e)) - k)"
proof (induction "length s - e" arbitrary: e cls rule: less_induct)
  case less
  show ?case
  proof (cases "length s \<le> k + e")
    case True
    then show ?thesis by (subst (1 2 3) run_scan.simps) auto
  next
    case False
    let ?c = "fst (next_class tk (drop (k + e) s) cls)" and ?n = "snd (next_class tk (drop (k + e) s) cls)"
    have "1 \<le> ?n" using next_class_size [of "drop (k + e) s" tk cls] False by simp
    then have IH: "run_scan tk (drop k s) i ?c (e + ?n) =
        (fst (run_scan tk s (k + i) ?c (k + e + ?n)), snd (run_scan tk s (k + i) ?c (k + e + ?n)) - k)"
      using less.hyps [of "e + ?n" ?c] False by (simp add: add.assoc)
    have nc: "next_class tk (drop e (drop k s)) cls = next_class tk (drop (k + e) s) cls"
      by (simp add: add.commute)
    from False IH show ?thesis
      by (subst (1 2 3) run_scan.simps) (simp only: nc Let_def length_drop, auto)
  qed
qed

lemma run_end_drop: "run_end tk (drop k s) i = (fst (run_end tk s (k + i)), snd (run_end tk s (k + i)) - k)"
  by (simp add: run_end_def Let_def run_scan_drop [of tk k s i ClassNone i])

lemma run_end_length: "i \<le> length s \<Longrightarrow> snd (run_end tk s i) \<le> length s"
proof -
  have "e \<le> length s \<Longrightarrow> snd (run_scan tk s i cls e) \<le> length s" for e cls
  proof (induction "length s - e" arbitrary: e cls rule: less_induct)
    case less
    show ?case
    proof (cases "length s \<le> e")
      case True
      with less.prems show ?thesis by (subst run_scan.simps) simp
    next
      case False
      let ?n = "snd (next_class tk (drop e s) cls)"
      have "1 \<le> ?n \<and> ?n \<le> length s - e" using next_class_size [of "drop e s" tk cls] False by simp
      then have "length s - (e + ?n) < length s - e" "e + ?n \<le> length s" using False by auto
      then have "snd (run_scan tk s i c (e + ?n)) \<le> length s" for c by (rule less.hyps)
      with False less.prems show ?thesis by (subst run_scan.simps) (auto simp: Let_def)
    qed
  qed
  then show "i \<le> length s \<Longrightarrow> snd (run_end tk s i) \<le> length s" by (simp add: run_end_def Let_def)
qed

lemma run_cut_le: "run_cut tk s p \<Longrightarrow> p \<le> length s"
  by (induction rule: run_cut.induct) (auto simp: run_end_length)

text \<open>Cuts are linearly ordered: after a cut, the next one is the end of its run.\<close>

lemma run_cut_after: "run_cut tk s p \<Longrightarrow> run_cut tk s q \<Longrightarrow> q < p \<Longrightarrow> snd (run_end tk s q) \<le> p"
proof (induction arbitrary: q rule: run_cut.induct)
  case (cut_next p)
  note IH = cut_next.IH
  consider "q < p" | "q = p" | "p < q" by linarith
  then show ?case
  proof cases
    case 1
    with cut_next have "snd (run_end tk s q) \<le> p" by blast
    with run_end_gt [OF cut_next.hyps(2), of tk] show ?thesis by linarith
  next
    case 3
    have "\<not> (p < r \<and> r < snd (run_end tk s p))" if "run_cut tk s r" for r
      using that
    proof (induction rule: run_cut.induct)
      case (cut_next r)
      show ?case
      proof (cases r p rule: linorder_cases)
        case less
        with cut_next.hyps(1) IH show ?thesis by fastforce
      next
        case greater
        with cut_next.IH run_end_gt [OF cut_next.hyps(2), of tk] show ?thesis by linarith
      qed simp
    qed simp
    with 3 cut_next.prems show ?thesis by simp
  qed simp
qed simp

lemma run_cut_drop:
  assumes "run_cut tk s p" and "run_cut tk s k" and "k \<le> p"
  shows "run_cut tk (drop k s) (p - k)"
  using assms(1,3)
proof (induction rule: run_cut.induct)
  case cut_start
  then show ?case by (simp add: run_cut.cut_start)
next
  case (cut_next p)
  show ?case
  proof (cases "k \<le> p")
    case True
    with cut_next have c: "run_cut tk (drop k s) (p - k)" by simp
    have "p - k < length (drop k s)" using cut_next.hyps(2) True by simp
    from run_cut.cut_next [OF c this] show ?thesis using True by (simp add: run_end_drop)
  next
    case False
    then have "snd (run_end tk s p) \<le> k" using run_cut_after [OF assms(2) cut_next.hyps(1)] by simp
    with cut_next.prems have "snd (run_end tk s p) = k" by simp
    then show ?thesis by (simp add: run_cut.cut_start)
  qed
qed

text \<open>A run has one of three classes, and neighbouring runs differ in class.\<close>

lemma run_kind:
  assumes "run_cut tk s q" and "q < length s"
  shows "fst (run_end tk s q) = ClassLetter \<or> fst (run_end tk s q) = ClassDigit \<or> fst (run_end tk s q) = ClassOther"
proof -
  from run_cut_cells [OF assms(1)] obtain xs ys where c: "cells tk s = xs @ ys" "q = span xs" by blast
  have "ys \<noteq> []" "\<forall>x \<in> set ys. fst x \<noteq> ClassNone"
    using c assms(2) cells_span [of tk s] cells_class [of _ tk s] by auto
  then have "fst (run_of ys) = ClassLetter \<or> fst (run_of ys) = ClassDigit \<or> fst (run_of ys) = ClassOther"
    by (cases rule: run_of_cases) auto
  with run_end_cells [OF c(1)] c(2) show ?thesis by simp
qed

lemma run_classes:
  assumes "run_cut tk s q" and "q < length s" and "run_end tk s q = (c, p)" and "p < length s"
  shows "fst (run_end tk s p) \<noteq> c"
proof -
  have nn: "\<forall>x \<in> set (cells tk s). fst x \<noteq> ClassNone" using cells_class by auto
  from run_cut_cells [OF assms(1)] obtain xs ys where c: "cells tk s = xs @ ys" "q = span xs" by blast
  have ys: "ys \<noteq> []" "\<forall>x \<in> set ys. fst x \<noteq> ClassNone" using c assms(2) cells_span [of tk s] nn by auto
  from run_end_cells [OF c(1)] c(2) assms(3) have r: "fst (run_of ys) = c" "p = span (xs @ snd (run_of ys))" by auto
  obtain zs rest where z: "ys = zs @ rest" "snd (run_of ys) = zs" using run_of_append [OF ys(2,1)] by blast
  have c2: "cells tk s = (xs @ zs) @ rest" using c z by simp
  have rest: "rest \<noteq> []" using c2 r z assms(4) cells_span [of tk s] by auto
  have nr: "\<forall>x \<in> set rest. fst x \<noteq> ClassNone" using ys(2) z by auto
  have e: "fst (run_end tk s p) = fst (run_of rest)" using run_end_cells [OF c2] r z by simp
  have first: "fst (run_of rest) = ClassDigit \<longleftrightarrow> fst (hd rest) = ClassDigit"
    "fst (run_of rest) = d \<Longrightarrow> fst (hd rest) = d \<or> fst (hd rest) = ClassMark" for d
    using rest nr by (cases rule: run_of_cases; auto simp: hd_append Cons_eq_append_conv split: if_splits)+
  show ?thesis
    using ys rest first z r(1) unfolding e by (cases rule: run_of_cases; auto)
qed

text \<open>Past an apostrophe that starts a run, the letters that follow end at a cut.\<close>

lemma past_apostrophe:
  assumes "run_cut tk s p" and "p < length s" and "s ! p = apostrophe"
    and "run_end tk s (p + 1) = (ClassLetter, e)"
  shows "\<exists>q. run_cut tk s q \<and> p < q \<and> q < e \<and> run_end tk s q = (ClassLetter, e)"
proof -
  have nn: "\<forall>x \<in> set (cells tk s). fst x \<noteq> ClassNone" using cells_class by auto
  from run_cut_cells [OF assms(1)] obtain xs ys where c: "cells tk s = xs @ ys" "p = span xs"
    "cell_cut (cells tk s) xs" by blast
  have ys: "cells tk (drop p s) = ys" using cells_cut [OF c(1)] c(2) by simp
  have dp: "drop p s \<noteq> []" "drop p s ! 0 = apostrophe" using assms(2,3) by auto
  then have "decode_rune (drop p s) = (39, 1)" by (subst decode_ascii) (auto simp: apostrophe_def)
  with dp ys have y: "ys = (ClassOther, 1) # cells tk (drop 1 (drop p s))"
    by (subst (asm) cells.simps)
       (simp add: class_of_def is_letter_def is_number_def is_mark_def ascii_letter_def ascii_digit_def)
  define ts where "ts = cells tk (drop 1 (drop p s))"
  have c1: "cells tk s = (xs @ [(ClassOther, 1)]) @ ts" using c(1) y ts_def by simp
  from run_end_cells [OF c1] assms(4) c(2) have r: "fst (run_of ts) = ClassLetter" "e = p + 1 + span (snd (run_of ts))"
    by auto
  have nt: "\<forall>x \<in> set ts. fst x \<noteq> ClassNone" using nn c1 by simp
  have "ts \<noteq> []" using r(1) by (auto simp: run_of_def)
  then show ?thesis using nt
  proof (cases rule: run_of_cases)
    case (word d ms x mid rest)
    then have d: "d = ClassLetter" "snd (run_of ts) = ms @ x # mid" using r(1) by auto
    have "run_of ys = (ClassOther, (ClassOther, 1) # ms)"
      using word(1,4,5) d(1) unfolding y ts_def [symmetric] run_of_def
      by (simp add: Let_def fold_mark_def scan_word takeWhile_append2)
    then have cut: "cell_cut (cells tk s) (xs @ (ClassOther, 1) # ms)" using cell_run [OF c(3,1)] y by simp
    have cs: "cells tk s = (xs @ (ClassOther, 1) # ms) @ x # mid @ rest" using c1 word(1) by simp
    have "run_of (x # mid @ rest) = (ClassLetter, x # mid)"
      using word(4,6,7) d(1) unfolding run_of_def
      by (cases rest) (auto simp: Let_def fold_mark_def scan_word takeWhile_append2)
    with run_end_cells [OF cs] r(2) d(2) c(2)
    have "run_end tk s (span (xs @ (ClassOther, 1) # ms)) = (ClassLetter, e)" by (simp add: add.assoc)
    moreover have "0 < snd x" using cells_positive [of x tk s] cs by simp
    ultimately show ?thesis
      using cell_cut_run_cut [OF cut] c(2) r(2) d(2)
      by (intro exI [of _ "span (xs @ (ClassOther, 1) # ms)"]) auto
  qed (use r(1) in auto)
qed

section \<open>What the codec promises\<close>

text \<open>
  An apostrophe that may begin a contraction: a run of its own, followed by letters. An
  offset before which no piece can reach over: it does not start with letters, which a
  rune before them may lead, nor with such an apostrophe.
\<close>

definition contraction_at :: "tokenizer \<Rightarrow> string \<Rightarrow> nat \<Rightarrow> bool" where
  "contraction_at tk s p \<longleftrightarrow> p < length s \<and> s ! p = apostrophe \<and> fst (run_end tk s (p + 1)) = ClassLetter"

definition free_start :: "tokenizer \<Rightarrow> string \<Rightarrow> nat \<Rightarrow> bool" where
  "free_start tk s p \<longleftrightarrow> fst (run_end tk s p) \<noteq> ClassLetter \<and> \<not> contraction_at tk s p"

text \<open>
  The tokens tile the text and none is longer than the longest of the vocabulary. The
  expression cuts where a run begins freely, and scans on from there as from a start. It
  also cuts after a run of letters or digits, unless an apostrophe may continue it, and
  then the text before is cut as it is on its own. An error of the codec may occur.
\<close>

definition piece_contract :: "tokenizer \<Rightarrow> (string \<Rightarrow> string list) \<Rightarrow> bool" where
  "piece_contract tk toks \<longleftrightarrow>
     (\<forall>s. concat (toks s) = s) \<and>
     (\<forall>s. \<forall>t \<in> set (toks s). t \<noteq> [] \<and> length t \<le> max_token_bytes) \<and>
     (\<forall>s p. run_cut tk s p \<and> free_start tk s p \<longrightarrow>
        (\<exists>ts. toks s = ts @ toks (drop p s) \<and> concat ts = take p s)) \<and>
     (\<forall>s q c p. run_cut tk s q \<and> run_end tk s q = (c, p) \<and> p < length s \<and> c \<in> {ClassLetter, ClassDigit} \<and>
        \<not> (c = ClassLetter \<and> run_end tk s p = (ClassOther, p + 1) \<and> contraction_at tk s p) \<longrightarrow>
        toks s = toks (take p s) @ toks (drop p s)) \<and>
     (\<forall>s n. tk_count tk s = Some n \<longrightarrow> n = int (length (toks s)))"

lemma contraction_drop: "k \<le> p \<Longrightarrow> contraction_at tk (drop k s) (p - k) = contraction_at tk s p"
  by (auto simp: contraction_at_def run_end_drop nth_append)

lemma free_start_drop: "k \<le> p \<Longrightarrow> free_start tk (drop k s) (p - k) = free_start tk s p"
  by (simp add: free_start_def run_end_drop contraction_drop)

lemma floor_tokens_le:
  assumes "concat ts = w" and "\<forall>t \<in> set ts. length t \<le> max_token_bytes"
  shows "floor_tokens (length w) \<le> int (length ts)"
proof -
  have "length w \<le> max_token_bytes * length ts"
    using assms unfolding assms(1) [symmetric] by (induction ts) auto
  then have "(length w + max_token_bytes - 1) div max_token_bytes \<le> length ts"
    by (auto simp: max_token_bytes_def)
  then show ?thesis by (auto simp: floor_tokens_def)
qed

section \<open>The ends of a region\<close>

lemma prev_cut_from:
  assumes "run_cut tk s p" and "run_cut tk s st" and "st < p"
  shows "st \<le> snd (prev_run tk s p) \<and> run_cut tk s (snd (prev_run tk s p)) \<and> snd (prev_run tk s p) < p \<and>
    run_end tk s (snd (prev_run tk s p)) = (fst (prev_run tk s p), p)"
proof -
  from assms have m: "run_cut tk s (snd (prev_run tk s p)) \<and> snd (prev_run tk s p) < p \<and>
      run_end tk s (snd (prev_run tk s p)) = (fst (prev_run tk s p), p)"
    by (intro prev_run_mirrors) auto
  have "st \<le> snd (prev_run tk s p)"
  proof (rule ccontr)
    assume "\<not> st \<le> snd (prev_run tk s p)"
    then have "snd (run_end tk s (snd (prev_run tk s p))) \<le> st"
      using run_cut_after [OF assms(2), of "snd (prev_run tk s p)"] m by simp
    with m assms(3) show False by simp
  qed
  with m show ?thesis by simp
qed

text \<open>A good left end: after a run of letters or digits that no apostrophe continues.\<close>

definition good_left :: "tokenizer \<Rightarrow> string \<Rightarrow> nat \<Rightarrow> nat \<Rightarrow> bool" where
  "good_left tk s st p \<longleftrightarrow> p = st \<or>
     (\<exists>q c. st \<le> q \<and> q < p \<and> run_cut tk s q \<and> run_end tk s q = (c, p) \<and> c \<in> {ClassLetter, ClassDigit} \<and>
        \<not> (c = ClassLetter \<and> run_end tk s p = (ClassOther, p + 1) \<and> contraction_at tk s p))"

lemma contraction_start_good:
  assumes "run_cut tk s st" and "st = 0 \<or> free_start tk s st"
    and "run_cut tk s ra" and "st \<le> ra" and "ra < length s" and "run_end tk s ra = (ClassOther, letters)"
    and "ra = st \<Longrightarrow> fst (run_end tk s letters) = ClassLetter"
  shows "run_cut tk s (contraction_start tk s ra letters) \<and> st \<le> contraction_start tk s ra letters \<and>
    contraction_start tk s ra letters \<le> ra \<and> good_left tk s st (contraction_start tk s ra letters)"
  using assms(3-)
proof (induction ra arbitrary: letters rule: less_induct)
  case (less ra)
  define c ls where "c = fst (prev_run tk s ra)" and "ls = snd (prev_run tk s ra)"
  have prev: "st \<le> ls \<and> run_cut tk s ls \<and> ls < ra \<and> run_end tk s ls = (c, ra)" if "st < ra"
    using prev_cut_from [OF less.prems(1) assms(1) that] by (simp add: c_def ls_def)
  have kind: "c = ClassLetter \<or> c = ClassDigit" if "st < ra"
    using run_classes [of tk s ls c ra] run_kind [of tk s ls] prev [OF that] less.prems(3,4) by auto
  have stop: "good_left tk s st ra" if "st < ra \<Longrightarrow> c = ClassLetter \<Longrightarrow> \<not> (letters = ra + 1 \<and> s ! ra = apostrophe)"
    using prev kind that less.prems(2,4) unfolding good_left_def
    by (cases "ra = st") (auto simp: contraction_at_def)
  show ?case
  proof (cases "0 < ra \<and> letters = ra + 1 \<and> ra < length s \<and> s ! ra = apostrophe \<and> c = ClassLetter")
    case False
    then have "contraction_start tk s ra letters = ra"
      by (subst contraction_start.simps) (auto simp: c_def)
    with stop False less.prems show ?thesis by auto
  next
    case True
    have "ra \<noteq> st"
    proof
      assume eq: "ra = st"
      with less.prems(5) True have "contraction_at tk s st" by (simp add: contraction_at_def)
      with assms(2) eq True show False by (auto simp: free_start_def)
    qed
    with less.prems(2) have st: "st < ra" by simp
    note prev = prev [OF st]
    define pc ps where "pc = fst (prev_run tk s ls)" and "ps = snd (prev_run tk s ls)"
    have step: "contraction_start tk s ra letters =
        (if ls = 0 then ls else if pc \<noteq> ClassOther then ls else contraction_start tk s ps ls)"
      using True by (subst contraction_start.simps) (simp add: c_def ls_def pc_def ps_def Let_def)
    show ?thesis
    proof (cases "ls = 0")
      case True
      with step prev show ?thesis by (simp add: good_left_def)
    next
      case False
      have "ls \<noteq> st" using assms(2) prev True False by (auto simp: free_start_def)
      with prev have sl: "st < ls" by simp
      have before: "st \<le> ps \<and> run_cut tk s ps \<and> ps < ls \<and> run_end tk s ps = (pc, ls)"
        using prev_cut_from [OF _ assms(1) sl] prev by (simp add: pc_def ps_def)
      have len: "ls < length s" using prev less.prems(3) by simp
      have pc: "pc \<noteq> ClassLetter" "pc = ClassLetter \<or> pc = ClassDigit \<or> pc = ClassOther"
        using run_classes [of tk s ps pc ls] run_kind [of tk s ps] before len prev True by auto
      show ?thesis
      proof (cases "pc = ClassOther")
        case other: True
        from less.IH [of ps ls] before prev len other True have
          "run_cut tk s (contraction_start tk s ps ls) \<and> st \<le> contraction_start tk s ps ls \<and>
           contraction_start tk s ps ls \<le> ps \<and> good_left tk s st (contraction_start tk s ps ls)" by auto
        with step False other before prev show ?thesis by auto
      next
        case no: False
        with pc have "pc = ClassDigit" by simp
        with step no prev before show ?thesis by (auto simp: good_left_def)
      qed
    qed
  qed
qed

lemma chain_end_free:
  assumes "run_cut tk s re" and "fst (run_end tk s re) \<noteq> ClassLetter"
  shows "run_cut tk s (chain_end tk s re) \<and> free_start tk s (chain_end tk s re)"
  using assms
proof (induction "length s - re" arbitrary: re rule: less_induct)
  case less
  show ?case
  proof (cases "contraction_at tk s re")
    case False
    then have "chain_end tk s re = re" by (subst chain_end.simps) (auto simp: contraction_at_def)
    with less.prems False show ?thesis by (simp add: free_start_def)
  next
    case True
    define e where "e = snd (run_end tk s (re + 1))"
    have r: "re < length s" "s ! re = apostrophe" "run_end tk s (re + 1) = (ClassLetter, e)"
      using True by (auto simp: contraction_at_def e_def prod_eq_iff)
    from past_apostrophe [OF less.prems(1) r] obtain q where q: "run_cut tk s q" "re < q" "q < e"
      "run_end tk s q = (ClassLetter, e)" by blast
    have "e \<le> length s" unfolding e_def by (rule run_end_length) (use r in simp)
    with q have cut: "run_cut tk s e" using cut_next [OF q(1)] by simp
    have after: "fst (run_end tk s e) \<noteq> ClassLetter"
    proof (cases "e < length s")
      case True
      with run_classes [OF q(1) _ q(4)] q show ?thesis by simp
    next
      case False
      then show ?thesis by (subst run_end_def, subst run_scan.simps) simp
    qed
    have "chain_end tk s re = chain_end tk s e" using True by (subst chain_end.simps) (simp add: contraction_at_def e_def)
    with less.hyps [OF _ cut after] r q show ?thesis by simp
  qed
qed

section \<open>The loop\<close>

text \<open>
  What the loop keeps: the open span starts at a cut, freely unless it is the start of the
  text; and the run before the offset is the one it remembers, inside the span.
\<close>

definition loop_inv :: "tokenizer \<Rightarrow> string \<Rightarrow> nat \<Rightarrow> rune_class \<Rightarrow> nat \<Rightarrow> nat \<Rightarrow> bool" where
  "loop_inv tk s st pc ps i \<longleftrightarrow>
     run_cut tk s st \<and> run_cut tk s i \<and> (st = 0 \<or> free_start tk s st) \<and>
     (if pc = ClassNone then i = st
      else st \<le> ps \<and> ps < i \<and> run_cut tk s ps \<and> run_end tk s ps = (pc, i))"

lemma loop_inv_start: "loop_inv tk s 0 ClassNone 0 0"
  by (simp add: loop_inv_def cut_start)

lemma run_end_class: "fst (run_end tk s i) \<noteq> ClassNone"
  by (simp add: run_end_def Let_def)

lemma loop_inv_next:
  "loop_inv tk s st pc ps i \<Longrightarrow> i < length s \<Longrightarrow>
   loop_inv tk s st (fst (run_end tk s i)) i (snd (run_end tk s i))"
  using run_end_gt [of i s tk] run_end_class [of tk s i]
  by (auto simp: loop_inv_def intro: cut_next split: if_splits)

text \<open>The region of a long run: where it starts and where it ends.\<close>

lemma region_left:
  assumes "loop_inv tk s st pc ps i" and "i < length s" and "run_end tk s i = (c, e)" and "c \<noteq> ClassDigit"
  shows "run_cut tk s (fst (region tk s c i e pc ps)) \<and> st \<le> fst (region tk s c i e pc ps) \<and>
    fst (region tk s c i e pc ps) \<le> i \<and> good_left tk s st (fst (region tk s c i e pc ps))"
proof -
  note inv = assms(1) [unfolded loop_inv_def]
  have st: "run_cut tk s st" "st = 0 \<or> free_start tk s st" "run_cut tk s i" using inv by auto
  have c: "c = ClassLetter \<or> c = ClassOther" using run_kind [OF st(3) assms(2)] assms(3,4) by auto
  have prev: "st \<le> ps" "ps < i" "run_cut tk s ps" "run_end tk s ps = (pc, i)" if "pc \<noteq> ClassNone"
    using inv that by auto
  have pc: "pc \<noteq> c" "pc = ClassLetter \<or> pc = ClassDigit \<or> pc = ClassOther" if "pc \<noteq> ClassNone"
    using run_classes [OF prev(3) _ prev(4) assms(2)] run_kind [OF prev(3)] prev(4) that prev(2) assms(2,3) by auto
  consider (led) "c = ClassLetter" "pc = ClassOther"
    | (apos) "c = ClassOther" "e = i + 1" "s ! i = apostrophe" "pc = ClassLetter"
    | (plain) "\<not> (c = ClassLetter \<and> pc = ClassOther)"
        "\<not> (c = ClassOther \<and> e = i + 1 \<and> s ! i = apostrophe \<and> pc = ClassLetter)" by blast
  then show ?thesis
  proof cases
    case led
    then have "run_end tk s ps = (ClassOther, i)" "st \<le> ps" "ps < i" "run_cut tk s ps" using prev by auto
    with contraction_start_good [OF st(1,2), of ps i] assms(2,3) led show ?thesis
      by (auto simp: region_def Let_def)
  next
    case apos
    then have "st < i" using prev by auto
    with contraction_start_good [OF st(1,2,3), of e] assms(2,3) apos show ?thesis
      by (auto simp: region_def Let_def)
  next
    case plain
    then have "fst (region tk s c i e pc ps) = i" by (auto simp: region_def Let_def)
    moreover have "good_left tk s st i"
      using inv pc prev plain c assms(3) by (auto simp: good_left_def contraction_at_def split: if_splits)
    ultimately show ?thesis using st inv by (auto split: if_splits)
  qed
qed

lemma region_right:
  assumes "run_cut tk s i" and "i < length s" and "run_end tk s i = (c, e)"
  shows "run_cut tk s (snd (region tk s c i e pc ps)) \<and> free_start tk s (snd (region tk s c i e pc ps)) \<and>
    i < snd (region tk s c i e pc ps)"
proof -
  have e: "run_cut tk s e" using cut_next [OF assms(1,2)] assms(3) by simp
  have i: "i < e" using run_end_gt [OF assms(2), of tk] assms(3) by simp
  have past: "fst (run_end tk s (snd (run_end tk s p))) \<noteq> ClassLetter"
    if "run_cut tk s p" "p < length s" "fst (run_end tk s p) = ClassLetter" for p
  proof (cases "snd (run_end tk s p) < length s")
    case True
    from run_classes [OF that(1,2) _ True] that(3) show ?thesis by (metis prod.collapse)
  next
    case False
    then show ?thesis by (subst run_end_def, subst run_scan.simps) simp
  qed
  define re where "re = (if c \<noteq> ClassLetter \<and> fst (run_end tk s e) = ClassLetter then snd (run_end tk s e) else e)"
  have "e < length s" if "fst (run_end tk s e) = ClassLetter"
    by (rule ccontr) (use that in \<open>subst (asm) run_end_def, subst (asm) run_scan.simps, simp\<close>)
  with e past [OF e] past [OF assms(1,2)] assms(3) have "run_cut tk s re" "fst (run_end tk s re) \<noteq> ClassLetter"
    unfolding re_def by (auto intro: cut_next)
  from chain_end_free [OF this] have "run_cut tk s (chain_end tk s re) \<and> free_start tk s (chain_end tk s re)" .
  moreover have "snd (region tk s c i e pc ps) = chain_end tk s re" by (simp add: region_def Let_def re_def)
  moreover have "e \<le> re" using run_end_ge [of e tk s] by (simp add: re_def)
  then have "i < chain_end tk s re" using i chain_end_ge [of re tk s] by linarith
  ultimately show ?thesis by simp
qed

text \<open>The consequences of the contract that the loop uses.\<close>

lemma contract_tiles:
  "piece_contract tk toks \<Longrightarrow> concat (toks w) = w \<and> (\<forall>t \<in> set (toks w). t \<noteq> [] \<and> length t \<le> max_token_bytes)"
  unfolding piece_contract_def by blast

lemma contract_free:
  "piece_contract tk toks \<Longrightarrow> run_cut tk w p \<Longrightarrow> free_start tk w p \<Longrightarrow>
   \<exists>ts. toks w = ts @ toks (drop p w) \<and> concat ts = take p w"
  unfolding piece_contract_def by blast

lemma contract_left:
  "piece_contract tk toks \<Longrightarrow> run_cut tk w q \<Longrightarrow> run_end tk w q = (c, p) \<Longrightarrow> p < length w \<Longrightarrow>
   c \<in> {ClassLetter, ClassDigit} \<Longrightarrow>
   \<not> (c = ClassLetter \<and> run_end tk w p = (ClassOther, p + 1) \<and> contraction_at tk w p) \<Longrightarrow>
   toks w = toks (take p w) @ toks (drop p w)"
  unfolding piece_contract_def by blast

lemma contract_codec: "piece_contract tk toks \<Longrightarrow> tk_count tk w = Some n \<Longrightarrow> n = int (length (toks w))"
  unfolding piece_contract_def by blast

lemma contract_nil: "piece_contract tk toks \<Longrightarrow> toks [] = []"
  using contract_tiles [of tk toks "[]"] by (cases "toks []") auto

lemma count_whole_bound:
  assumes "piece_contract tk toks"
  shows "0 \<le> count_whole tk w \<and> count_whole tk w \<le> int (length (toks w))"
proof -
  have "floor_tokens (length w) \<le> int (length (toks w))"
    using floor_tokens_le [of "toks w" w] contract_tiles [OF assms, of w] by blast
  moreover have "0 \<le> floor_tokens (length w)" by (simp add: floor_tokens_def)
  ultimately show ?thesis
    using contract_codec [OF assms, of w] by (auto simp: count_whole_def split: option.split)
qed

lemma count_whole_exact:
  "piece_contract tk toks \<Longrightarrow> tk_count tk w \<noteq> None \<Longrightarrow> count_whole tk w = int (length (toks w))"
  using contract_codec [of tk toks w] contract_nil [of tk toks] by (auto simp: count_whole_def)

text \<open>Taking a region out never charges more than the tokens of what the loop has passed.\<close>

lemma span_before_region:
  assumes "piece_contract tk toks" and "run_cut tk s st" and "run_cut tk s ra" and "st \<le> ra" and "ra < length s"
    and "good_left tk s st ra"
  shows "count_whole tk (slice st ra s) + int (length (toks (drop ra s))) \<le> int (length (toks (drop st s)))"
proof (cases "ra = st")
  case True
  then show ?thesis by (simp add: slice_def count_whole_def)
next
  case False
  with assms(6) obtain q c where q: "st \<le> q" "q < ra" "run_cut tk s q" "run_end tk s q = (c, ra)"
    "c \<in> {ClassLetter, ClassDigit}" "\<not> (c = ClassLetter \<and> run_end tk s ra = (ClassOther, ra + 1) \<and> contraction_at tk s ra)"
    by (auto simp: good_left_def)
  have "run_end tk (drop st s) (q - st) = (c, ra - st)" using q by (simp add: run_end_drop)
  moreover have "run_end tk (drop st s) (ra - st) = (ClassOther, ra - st + 1) \<longleftrightarrow> run_end tk s ra = (ClassOther, ra + 1)"
    using assms(4) run_end_gt [OF assms(5), of tk] by (auto simp: run_end_drop prod_eq_iff)
  ultimately have "toks (drop st s) = toks (take (ra - st) (drop st s)) @ toks (drop (ra - st) (drop st s))"
    using q assms(4,5) contraction_drop [OF assms(4), of tk s]
    by (intro contract_left [OF assms(1) run_cut_drop [OF q(3) assms(2) q(1)]]) auto
  then have "int (length (toks (drop st s))) = int (length (toks (slice st ra s))) + int (length (toks (drop ra s)))"
    using assms(4) by (simp add: slice_def)
  with count_whole_bound [OF assms(1), of "slice st ra s"] show ?thesis by simp
qed

lemma region_charge:
  assumes "piece_contract tk toks" and "run_cut tk s ra" and "run_cut tk s re" and "ra \<le> re" and "free_start tk s re"
  shows "floor_tokens (re - ra) + int (length (toks (drop re s))) \<le> int (length (toks (drop ra s)))"
proof -
  have "free_start tk (drop ra s) (re - ra)" using assms(4,5) by (simp add: free_start_drop)
  from contract_free [OF assms(1) run_cut_drop [OF assms(3,2,4)] this] obtain ts where
    ts: "toks (drop ra s) = ts @ toks (drop re s)" "concat ts = take (re - ra) (drop ra s)" using assms(4) by auto
  have "length (take (re - ra) (drop ra s)) = re - ra" using run_cut_le [OF assms(3)] by simp
  moreover have "\<forall>t \<in> set ts. length t \<le> max_token_bytes" using contract_tiles [OF assms(1), of "drop ra s"] ts(1) by auto
  ultimately have "floor_tokens (re - ra) \<le> int (length ts)" using floor_tokens_le [OF ts(2)] by simp
  with ts(1) show ?thesis by simp
qed

lemma count_loop_bound:
  assumes "piece_contract tk toks" and "loop_inv tk s st pc ps i"
  shows "tot \<le> count_loop tk s tot st pc ps i \<and>
    count_loop tk s tot st pc ps i \<le> tot + int (length (toks (drop st s)))"
  using assms(2)
proof (induction "length s - i" arbitrary: tot st pc ps i rule: less_induct)
  case less
  show ?case
  proof (cases "length s \<le> i")
    case True
    with count_whole_bound [OF assms(1), of "drop st s"] show ?thesis by (subst (1 2) count_loop.simps) simp
  next
    case False
    then have i: "i < length s" by simp
    obtain c e where e: "run_end tk s i = (c, e)" by fastforce
    have ie: "i < e" using run_end_gt [OF i, of tk] e by simp
    show ?thesis
    proof (cases "int (e - i) < piece_limit tk \<or> c = ClassDigit")
      case True
      with e i have "count_loop tk s tot st pc ps i = count_loop tk s tot st c i e"
        by (subst count_loop.simps) (simp add: Let_def)
      moreover have "loop_inv tk s st c i e" using loop_inv_next [OF less.prems i] e by simp
      ultimately show ?thesis using less.hyps [of e st c i tot] ie i by simp
    next
      case long: False
      define ra re where "ra = fst (region tk s c i e pc ps)" and "re = snd (region tk s c i e pc ps)"
      have cut: "run_cut tk s st" "run_cut tk s i" using less.prems by (auto simp: loop_inv_def)
      have ra: "run_cut tk s ra" "st \<le> ra" "ra \<le> i" "good_left tk s st ra"
        using region_left [OF less.prems i e] long by (auto simp: ra_def)
      have re: "run_cut tk s re" "free_start tk s re" "i < re"
        using region_right [OF cut(2) i e, of pc ps] by (auto simp: re_def)
      let ?t = "tot + count_whole tk (slice st ra s) + floor_tokens (re - ra)"
      have "count_loop tk s tot st pc ps i = count_loop tk s ?t re ClassNone ps re"
        using e i long ra(2) by (subst count_loop.simps) (simp add: Let_def ra_def re_def)
      moreover have "loop_inv tk s re ClassNone ps re" using re by (simp add: loop_inv_def)
      then have "?t \<le> count_loop tk s ?t re ClassNone ps re \<and>
          count_loop tk s ?t re ClassNone ps re \<le> ?t + int (length (toks (drop re s)))"
        using less.hyps [of re re ClassNone ps ?t] re(3) i by simp
      moreover have "0 \<le> count_whole tk (slice st ra s)" using count_whole_bound [OF assms(1)] by blast
      moreover have "0 \<le> floor_tokens (re - ra)" by (simp add: floor_tokens_def)
      moreover note span_before_region [OF assms(1) cut(1) ra(1,2) _ ra(4)] region_charge [OF assms(1) ra(1) re(1) _ re(2)]
      ultimately show ?thesis using ra(3) re(3) i by simp
    qed
  qed
qed

lemma count_loop_short:
  assumes "\<And>p. p < length s \<Longrightarrow> run_cut tk s p \<Longrightarrow>
      fst (run_end tk s p) = ClassDigit \<or> int (snd (run_end tk s p) - p) < piece_limit tk"
  shows "run_cut tk s i \<Longrightarrow> count_loop tk s tot st pc ps i = tot + count_whole tk (drop st s)"
proof (induction "length s - i" arbitrary: pc ps i rule: less_induct)
  case less
  show ?case
  proof (cases "length s \<le> i")
    case False
    then have i: "i < length s" by simp
    have "count_loop tk s tot st pc ps i = count_loop tk s tot st (fst (run_end tk s i)) i (snd (run_end tk s i))"
      using assms [OF i less.prems] i by (subst count_loop.simps) (auto simp: Let_def)
    with less.hyps [OF _ cut_next [OF less.prems i]] run_end_gt [OF i, of tk] i show ?thesis by simp
  qed (subst count_loop.simps, simp)
qed

text \<open>
  Property (C30): the count of a text is a lower bound, and a tight one. For any codec that keeps the
  contract, the count is not negative and not above the number of tokens of the text; a text
  without a long run, on which the codec does not fail, is counted exactly.
\<close>

theorem count_lower_bound:
  assumes "piece_contract tk toks"
  shows "0 \<le> count tk s \<and> count tk s \<le> int (length (toks s)) \<and>
    ((\<forall>p < length s. run_cut tk s p \<longrightarrow>
        fst (run_end tk s p) = ClassDigit \<or> int (snd (run_end tk s p) - p) < piece_limit tk) \<and>
      tk_count tk s \<noteq> None \<longrightarrow> count tk s = int (length (toks s)))"
proof -
  have "0 \<le> count tk s \<and> count tk s \<le> int (length (toks s))"
    using count_loop_bound [OF assms loop_inv_start [of tk s], of 0] by (simp add: count_def)
  moreover have "count tk s = count_whole tk s"
    if "\<forall>p < length s. run_cut tk s p \<longrightarrow>
        fst (run_end tk s p) = ClassDigit \<or> int (snd (run_end tk s p) - p) < piece_limit tk"
    using count_loop_short [where s = s and tk = tk and tot = 0 and st = 0 and pc = ClassNone and ps = 0 and i = 0]
      cut_start [of tk s] that by (auto simp: count_def)
  ultimately show ?thesis using count_whole_exact [OF assms] by auto
qed

text \<open>One token per byte keeps the contract.\<close>

definition byte_tokens :: "string \<Rightarrow> string list" where
  "byte_tokens s = map (\<lambda>c. [c]) s"

lemma concat_byte_tokens: "concat (byte_tokens s) = s"
  by (induction s) (auto simp: byte_tokens_def)

lemma byte_tokens_contract: "piece_contract demo_marks byte_tokens"
proof -
  have cut: "byte_tokens s = byte_tokens (take p s) @ byte_tokens (drop p s)" for p s
    unfolding byte_tokens_def map_append [symmetric] by simp
  have free: "\<exists>ts. byte_tokens s = ts @ byte_tokens (drop p s) \<and> concat ts = take p s" for p s
    using cut [of s p] concat_byte_tokens by blast
  show ?thesis
    unfolding piece_contract_def using concat_byte_tokens cut free
    by (auto simp: byte_tokens_def max_token_bytes_def demo_marks_def)
qed

theorem count_lower_bound_witness: "count demo_marks ''ab7'' \<le> 3"
  using count_lower_bound [OF byte_tokens_contract, of "''ab7''"] by (simp add: byte_tokens_def)

end
