(* ===== verification/TokenCache.thy ===== *)
theory TokenCache
  imports Tokens
begin

text \<open>
  The estimators of \<^verbatim>\<open>internal/tokens\<close> over the counts of theory \<open>Tokens\<close>: the
  two-generation cache, the walk over the fields of a request, and the exact and the
  heuristic estimates. A cache that other goroutines use meanwhile is modelled by the
  operations that fall between the two steps of one field. The lemmas show that the cache
  is invisible: whatever interleaving, an estimate is the sum of the uncached counts, and
  the cache stays within its bound.
\<close>

section \<open>The cache\<close>

record memo_key =
  mk_hash :: "64 word"
  mk_len :: nat

record memo =
  mm_cap :: nat
  mm_young :: "(memo_key \<times> int) list"
  mm_old :: "(memo_key \<times> int) list"

definition memo_generation_entries :: nat where
  "memo_generation_entries = 2 ^ 16"

definition new_memo :: "nat \<Rightarrow> memo" where
  "new_memo capacity = \<lparr>mm_cap = capacity, mm_young = [], mm_old = []\<rparr>"

definition insert_locked :: "memo_key \<Rightarrow> int \<Rightarrow> memo \<Rightarrow> memo" where
  "insert_locked k n m =
     (let m = (if mm_cap m \<le> length (mm_young m) then m\<lparr>mm_old := mm_young m, mm_young := []\<rparr> else m)
      in m\<lparr>mm_young := AList.update k n (mm_young m)\<rparr>)"

definition memo_lookup :: "memo_key \<Rightarrow> memo \<Rightarrow> int option \<times> memo" where
  "memo_lookup k m =
     (case map_of (mm_young m) k of
        Some n \<Rightarrow> (Some n, m)
      | None \<Rightarrow>
          (case map_of (mm_old m) k of
             Some n \<Rightarrow> (Some n, insert_locked k n m)
           | None \<Rightarrow> (None, m)))"

definition memo_store :: "memo_key \<Rightarrow> int \<Rightarrow> memo \<Rightarrow> memo" where
  "memo_store k n m = insert_locked k n m"

definition memo_len :: "memo \<Rightarrow> nat" where
  "memo_len m = length (mm_young m) + length (mm_old m)"

definition key_of :: "tokenizer \<Rightarrow> string \<Rightarrow> memo_key" where
  "key_of tk s = \<lparr>mk_hash = tk_hash tk s, mk_len = length s\<rparr>"

definition tool_bytes :: "ctool \<Rightarrow> string" where
  "tool_bytes t = ct_name t @ CHR 0x00 # ct_description t @ CHR 0x00 # ct_parameters t"

definition tool_key :: "tokenizer \<Rightarrow> ctool \<Rightarrow> memo_key" where
  "tool_key tk t =
     \<lparr>mk_hash = tk_hash tk (tool_bytes t),
      mk_len = length (ct_name t) + length (ct_description t) + length (ct_parameters t)\<rparr>"

section \<open>The prose of a schema\<close>

definition scalar_text :: "tokenizer \<Rightarrow> jany \<Rightarrow> string" where
  "scalar_text tk v =
     (case v of
        AStr s \<Rightarrow> s
      | AOther raw \<Rightarrow>
          if raw = ''true'' \<or> raw = ''false'' then raw
          else if raw = ''null'' then []
          else tk_float tk raw
      | _ \<Rightarrow> [])"

definition type_texts :: "jany \<Rightarrow> string list" where
  "type_texts v =
     (case v of
        AStr s \<Rightarrow> [s]
      | AList vs \<Rightarrow> concat (map (\<lambda>e. case e of AStr s \<Rightarrow> [s] | _ \<Rightarrow> []) vs)
      | _ \<Rightarrow> [])"

definition schema_name_keys :: "string list" where
  "schema_name_keys = [''properties'', ''$defs'', ''definitions'', ''patternProperties'']"

definition schema_node_keys :: "string list" where
  "schema_node_keys = [''items'', ''additionalProperties'', ''not'', ''if'', ''then'', ''else'']"

definition schema_list_keys :: "string list" where
  "schema_list_keys = [''anyOf'', ''oneOf'', ''allOf'', ''prefixItems'']"

lemma size_member: "(x :: jany) \<in> set xs \<Longrightarrow> size x < Suc (size_list size xs)"
  by (induction xs) auto

function (sequential) schema_node :: "tokenizer \<Rightarrow> jany \<Rightarrow> string list"
  and schema_key :: "tokenizer \<Rightarrow> string \<Rightarrow> jany \<Rightarrow> string list" where
  "schema_node tk (AObj fs) = concat (map (\<lambda>(k, v). schema_key tk k v) fs)"
| "schema_node tk _ = []"
| "schema_key tk k v =
     (if k = ''description'' then (case v of AStr s \<Rightarrow> [s] | _ \<Rightarrow> [])
      else if k = ''type'' then type_texts v
      else if k = ''enum'' then (case v of AList vs \<Rightarrow> map (scalar_text tk) vs | _ \<Rightarrow> [])
      else if k = ''default'' then [scalar_text tk v]
      else if k \<in> set schema_name_keys then
        (case v of AObj ps \<Rightarrow> concat (map (\<lambda>(n, sub). n # schema_node tk sub) ps) | _ \<Rightarrow> [])
      else if k \<in> set schema_node_keys then schema_node tk v
      else if k \<in> set schema_list_keys then
        (case v of AList vs \<Rightarrow> concat (map (schema_node tk) vs) | _ \<Rightarrow> [])
      else [])"
  by pat_completeness auto
termination
  by (relation "measure (\<lambda>x. case x of Inl (tk, v) \<Rightarrow> 2 * size v | Inr (tk, k, v) \<Rightarrow> Suc (2 * size v))")
     (auto dest!: size_field size_member)

definition schema_text :: "tokenizer \<Rightarrow> string \<Rightarrow> string list" where
  "schema_text tk raw =
     (if raw = [] then []
      else case tk_unmarshal tk raw of None \<Rightarrow> [] | Some node \<Rightarrow> schema_node tk node)"

section \<open>The walk over a request\<close>

datatype visit = VisitText string | VisitImage | VisitItem | VisitTool ctool

definition visit_item :: "input_item \<Rightarrow> visit list" where
  "visit_item it =
     VisitItem #
     (if ii_type it = ItemMessage then
        map (\<lambda>p. if cp_type p = PartInputImage then VisitImage else VisitText (cp_text p)) (ii_content it)
      else if ii_type it = ItemFunctionCall then [VisitText (ii_name it), VisitText (ii_arguments it)]
      else if ii_type it = ItemFunctionCallOutput then
        (case ii_output it of Some out \<Rightarrow> [VisitText out] | None \<Rightarrow> [])
      else if ii_type it = ItemReasoning then []
      else
        map (\<lambda>p. VisitText (cp_text p)) (ii_content it) @ [VisitText (ii_name it), VisitText (ii_arguments it)] @
        (case ii_output it of Some out \<Rightarrow> [VisitText out] | None \<Rightarrow> []))"

definition walk_fields :: "responses_request option \<Rightarrow> visit list" where
  "walk_fields req =
     (case req of
        None \<Rightarrow> []
      | Some r \<Rightarrow> VisitText (rr_instructions r) # concat (map visit_item (rr_input r)) @ map VisitTool (rr_tools r))"

section \<open>The exact estimate\<close>

text \<open>What other goroutines do to the cache, each under its lock.\<close>

datatype memo_op = OpLookup memo_key | OpStore memo_key int

definition run_op :: "memo_op \<Rightarrow> memo \<Rightarrow> memo" where
  "run_op p m = (case p of OpLookup k \<Rightarrow> snd (memo_lookup k m) | OpStore k n \<Rightarrow> memo_store k n m)"

definition run_ops :: "memo_op list \<Rightarrow> memo \<Rightarrow> memo" where
  "run_ops ps m = fold run_op ps m"

text \<open>
  \<^verbatim>\<open>EstimateString\<close>; the gap holds what happens to the cache before the lookup and
  between the lookup and the store.
\<close>

definition estimate_string :: "tokenizer \<Rightarrow> memo_op list \<times> memo_op list \<Rightarrow> string \<Rightarrow> memo \<Rightarrow> int \<times> memo" where
  "estimate_string tk gap s m =
     (if s = [] then (0, m)
      else case memo_lookup (key_of tk s) (run_ops (fst gap) m) of
        (Some n, m') \<Rightarrow> (n, m')
      | (None, m') \<Rightarrow> (count tk s, memo_store (key_of tk s) (count tk s) (run_ops (snd gap) m')))"

definition count_tool :: "tokenizer \<Rightarrow> ctool \<Rightarrow> int" where
  "count_tool tk t =
     count tk (ct_name t) + count tk (ct_description t) +
     sum_list (map (count tk) (schema_text tk (ct_parameters t)))"

definition estimate_tool :: "tokenizer \<Rightarrow> memo_op list \<times> memo_op list \<Rightarrow> ctool \<Rightarrow> memo \<Rightarrow> int \<times> memo" where
  "estimate_tool tk gap t m =
     (case memo_lookup (tool_key tk t) (run_ops (fst gap) m) of
        (Some n, m') \<Rightarrow> (n, m')
      | (None, m') \<Rightarrow> (count_tool tk t, memo_store (tool_key tk t) (count_tool tk t) (run_ops (snd gap) m')))"

definition exact_visit ::
  "tokenizer \<Rightarrow> visit \<times> memo_op list \<times> memo_op list \<Rightarrow> int \<times> memo \<Rightarrow> int \<times> memo" where
  "exact_visit tk v tm =
     (case fst v of
        VisitText s \<Rightarrow> (case estimate_string tk (snd v) s (snd tm) of (n, m) \<Rightarrow> (fst tm + n, m))
      | VisitImage \<Rightarrow> tm
      | VisitItem \<Rightarrow> tm
      | VisitTool t \<Rightarrow> (case estimate_tool tk (snd v) t (snd tm) of (n, m) \<Rightarrow> (fst tm + n, m)))"

text \<open>\<^verbatim>\<open>EstimateRequest\<close> of the exact estimator; \<open>gaps\<close> has one entry per visit.\<close>

definition estimate_request ::
  "tokenizer \<Rightarrow> (nat \<Rightarrow> memo_op list \<times> memo_op list) \<Rightarrow> responses_request option \<Rightarrow> memo \<Rightarrow> int \<times> memo" where
  "estimate_request tk gaps req m =
     (let vs = walk_fields req
      in fold (exact_visit tk) (zip vs (map gaps [0..<length vs])) (0, m))"

section \<open>The heuristic over bytes\<close>

record chars_per_token =
  cpt_divisor :: int
  cpt_per_item :: int
  cpt_per_tool :: int
  cpt_image :: int

definition default_divisor :: int where "default_divisor = 4"
definition default_per_item :: int where "default_per_item = 4"
definition default_per_tool :: int where "default_per_tool = 8"
definition default_image_tokens :: int where "default_image_tokens = 1024"

definition divisor :: "chars_per_token \<Rightarrow> int" where
  "divisor e = (if cpt_divisor e \<le> 0 then default_divisor else cpt_divisor e)"

definition setting_or :: "int \<Rightarrow> int \<Rightarrow> int" where
  "setting_or v dflt = (if v < 0 then 0 else if v = 0 then dflt else v)"

definition ceil_div :: "int \<Rightarrow> int \<Rightarrow> int" where
  "ceil_div n d = (if n \<le> 0 then 0 else (n + d - 1) div d)"

definition chars_name :: "chars_per_token \<Rightarrow> string" where
  "chars_name e = ''chars/'' @ itoa (divisor e)"

definition chars_string :: "chars_per_token \<Rightarrow> string \<Rightarrow> int" where
  "chars_string e s = ceil_div (int (length s)) (divisor e)"

text \<open>The bytes and the whole tokens are summed apart.\<close>

definition chars_visit :: "chars_per_token \<Rightarrow> visit \<Rightarrow> int \<times> int \<Rightarrow> int \<times> int" where
  "chars_visit e v bt =
     (case bt of (b, t) \<Rightarrow>
        (case v of
           VisitText s \<Rightarrow> (b + int (length s), t)
         | VisitImage \<Rightarrow> (b, t + setting_or (cpt_image e) default_image_tokens)
         | VisitItem \<Rightarrow> (b, t + setting_or (cpt_per_item e) default_per_item)
         | VisitTool c \<Rightarrow>
             (b + int (length (ct_name c) + length (ct_description c) + length (ct_parameters c)),
              t + setting_or (cpt_per_tool e) default_per_tool)))"

definition chars_request :: "chars_per_token \<Rightarrow> responses_request option \<Rightarrow> int" where
  "chars_request e req =
     (case fold (chars_visit e) (walk_fields req) (0, 0) of (b, t) \<Rightarrow> t + ceil_div b (divisor e))"

section \<open>The heuristic over a prompt\<close>

definition BlockDocument :: string where "BlockDocument = ''document''"

function (sequential) prompt_content :: "int \<Rightarrow> block list option \<Rightarrow> int \<times> int"
  and prompt_block :: "int \<Rightarrow> block \<Rightarrow> int \<times> int" where
  "prompt_content img None = (0, 0)"
| "prompt_content img (Some bs) =
     (let xs = map (prompt_block img) bs in (sum_list (map fst xs), sum_list (map snd xs)))"
| "prompt_block img b =
     (if bk_type b = BlockText then (int (length (bk_text b)), 0)
      else if bk_type b = BlockThinking then (int (length (bk_thinking b)), 0)
      else if bk_type b = BlockRedactedThinking then (0, 0)
      else if bk_type b = BlockImage \<or> bk_type b = BlockDocument then (0, img)
      else if bk_type b = BlockToolUse then (int (length (bk_name b) + length (bk_input b)), 0)
      else if bk_type b = BlockToolResult then
        (case prompt_content img (bk_content b) of (c, t) \<Rightarrow> (int (length (bk_tool_use_id b)) + c, t))
      else (int (length (bk_text b) + length (bk_input b)), 0))"
  by pat_completeness auto
termination
proof (relation "measure (\<lambda>x. case x of Inl (i, c) \<Rightarrow> 2 * (case c of None \<Rightarrow> 0 | Some bs \<Rightarrow> size_list size bs)
                                   | Inr (i, b) \<Rightarrow> Suc (2 * size b))", goal_cases)
  case (2 img bs z)
  then have "size z < size_list size bs"
    by (induction bs) auto
  then show ?case by simp
next
  case (3 img b)
  then show ?case by (cases b) (auto split: option.split)
qed simp

record prompt =
  pr_system :: "block list option"
  pr_messages :: "message list"
  pr_tools :: "tool list"

definition prompt_from_messages :: "messages_request option \<Rightarrow> prompt" where
  "prompt_from_messages req =
     (case req of
        None \<Rightarrow> \<lparr>pr_system = None, pr_messages = [], pr_tools = []\<rparr>
      | Some r \<Rightarrow> \<lparr>pr_system = rq_system r, pr_messages = rq_messages r, pr_tools = rq_tools r\<rparr>)"

definition estimate_prompt :: "chars_per_token \<Rightarrow> prompt \<Rightarrow> int" where
  "estimate_prompt e p =
     (let img = setting_or (cpt_image e) default_image_tokens;
          sys = prompt_content img (pr_system p);
          chars = fst sys
            + sum_list (map (\<lambda>m. int (length (mg_role m)) + fst (prompt_content img (mg_content m))) (pr_messages p))
            + sum_list (map (\<lambda>t. int (length (tl_name t) + length (tl_description t) + length (tl_input_schema t))) (pr_tools p));
          tokens = snd sys
            + sum_list (map (\<lambda>m. setting_or (cpt_per_item e) default_per_item + snd (prompt_content img (mg_content m))) (pr_messages p))
            + sum_list (map (\<lambda>t. setting_or (cpt_per_tool e) default_per_tool) (pr_tools p))
      in tokens + ceil_div chars (divisor e))"

section \<open>A memo table\<close>

text \<open>
  What a counting loop needs of its table: a value found is one the table holds, and no
  operation makes the table hold anything but what it held or was given. \<open>sound\<close> says
  that everything held is right by the relation \<open>good\<close>.
\<close>

locale memo_table =
  fixes find :: "'k \<Rightarrow> 'm \<Rightarrow> 'v option \<times> 'm"
    and save :: "'k \<Rightarrow> 'v \<Rightarrow> 'm \<Rightarrow> 'm"
    and holds :: "'m \<Rightarrow> 'k \<Rightarrow> 'v \<Rightarrow> bool"
  assumes find_holds: "find k m = (Some v, m') \<Longrightarrow> holds m k v"
    and find_only: "holds (snd (find k m)) k' v \<Longrightarrow> holds m k' v"
    and save_only: "holds (save k v m) k' v' \<Longrightarrow> k' = k \<and> v' = v \<or> holds m k' v'"
begin

definition sound :: "('k \<Rightarrow> 'v \<Rightarrow> bool) \<Rightarrow> 'm \<Rightarrow> bool" where
  "sound good m \<longleftrightarrow> (\<forall>k v. holds m k v \<longrightarrow> good k v)"

lemma sound_find: "sound good m \<Longrightarrow> sound good (snd (find k m))"
  unfolding sound_def using find_only by blast

lemma sound_save: "sound good m \<Longrightarrow> good k v \<Longrightarrow> sound good (save k v m)"
  unfolding sound_def using save_only by blast

lemma sound_hit: "sound good m \<Longrightarrow> find k m = (Some v, m') \<Longrightarrow> good k v"
  unfolding sound_def using find_holds by blast

end

definition memo_holds :: "memo \<Rightarrow> memo_key \<Rightarrow> int \<Rightarrow> bool" where
  "memo_holds m k n \<longleftrightarrow> map_of (mm_young m) k = Some n \<or> map_of (mm_old m) k = Some n"

lemma insert_locked_holds:
  "memo_holds (insert_locked k n m) k' n' \<Longrightarrow> k' = k \<and> n' = n \<or> memo_holds m k' n'"
  by (auto simp: memo_holds_def insert_locked_def Let_def update_conv' split: if_splits)

interpretation generational: memo_table memo_lookup memo_store memo_holds
proof (unfold_locales, goal_cases)
  case (1 k m v m')
  then show ?case by (auto simp: memo_lookup_def memo_holds_def split: option.splits)
next
  case (2 k m k' v)
  then show ?case
    by (auto simp: memo_lookup_def split: option.splits dest!: insert_locked_holds)
       (auto simp: memo_holds_def)
next
  case (3 k v m k' v')
  then show ?case by (simp add: memo_store_def insert_locked_holds)
qed

section \<open>Bounds of the cache\<close>

definition memo_bounded :: "memo \<Rightarrow> bool" where
  "memo_bounded m \<longleftrightarrow>
     distinct (map fst (mm_young m)) \<and> distinct (map fst (mm_old m)) \<and>
     length (mm_young m) \<le> mm_cap m \<and> length (mm_old m) \<le> mm_cap m"

lemma length_update: "length (AList.update k v xs) \<le> Suc (length xs)"
  by (induction xs) auto

lemma insert_locked_bounded: "memo_bounded m \<Longrightarrow> 0 < mm_cap m \<Longrightarrow> memo_bounded (insert_locked k n m)"
  using length_update [of k n "mm_young m"]
  by (auto simp: memo_bounded_def insert_locked_def Let_def intro: distinct_update)

lemma insert_locked_cap [simp]: "mm_cap (insert_locked k n m) = mm_cap m"
  by (simp add: insert_locked_def Let_def)

lemma memo_lookup_cap [simp]: "mm_cap (snd (memo_lookup k m)) = mm_cap m"
  by (simp add: memo_lookup_def split: option.split)

section \<open>The cache is invisible\<close>

text \<open>A field that is counted, its key, the bytes that are hashed for it, and its count.\<close>

datatype field = TextField string | ToolField ctool

fun field_key :: "tokenizer \<Rightarrow> field \<Rightarrow> memo_key" where
  "field_key tk (TextField s) = key_of tk s"
| "field_key tk (ToolField t) = tool_key tk t"

fun field_bytes :: "field \<Rightarrow> string" where
  "field_bytes (TextField s) = s"
| "field_bytes (ToolField t) = tool_bytes t"

fun field_count :: "tokenizer \<Rightarrow> field \<Rightarrow> int" where
  "field_count tk (TextField s) = (if s = [] then 0 else count tk s)"
| "field_count tk (ToolField t) = count_tool tk t"

text \<open>The fields of one request, and its count without any cache.\<close>

definition visit_field :: "visit \<Rightarrow> field option" where
  "visit_field v = (case v of VisitText s \<Rightarrow> Some (TextField s) | VisitTool t \<Rightarrow> Some (ToolField t) | _ \<Rightarrow> None)"

definition request_fields :: "responses_request option \<Rightarrow> field list" where
  "request_fields req = List.map_filter visit_field (walk_fields req)"

definition plain_request :: "tokenizer \<Rightarrow> responses_request option \<Rightarrow> int" where
  "plain_request tk req = sum_list (map (field_count tk) (request_fields req))"

text \<open>
  No collision among the fields \<open>U\<close>: the 64-bit hash tells apart the byte strings that are
  hashed, and the names and descriptions of tools contain no zero byte, which separates them.
\<close>

definition zero_free :: "field \<Rightarrow> bool" where
  "zero_free f = (case f of TextField s \<Rightarrow> True
                          | ToolField t \<Rightarrow> CHR 0x00 \<notin> set (ct_name t) \<and> CHR 0x00 \<notin> set (ct_description t))"

definition no_collision :: "tokenizer \<Rightarrow> field set \<Rightarrow> bool" where
  "no_collision tk U \<longleftrightarrow> inj_on (tk_hash tk) (field_bytes ` U) \<and> (\<forall>f \<in> U. zero_free f)"

lemma append_sep_inject:
  "x \<notin> set as \<Longrightarrow> x \<notin> set bs \<Longrightarrow> as @ x # cs = bs @ x # ds \<longleftrightarrow> as = bs \<and> cs = ds"
proof (induction as arbitrary: bs)
  case Nil
  then show ?case by (cases bs) auto
next
  case (Cons a as)
  then show ?case by (cases bs) auto
qed

text \<open>The separators make the keys of two tools, and of a tool and a text, differ with the hashed bytes.\<close>

lemma field_key_count:
  assumes "no_collision tk U" and "f \<in> U" and "g \<in> U" and "field_key tk f = field_key tk g"
    and "f \<noteq> TextField []" "g \<noteq> TextField []"
  shows "field_count tk f = field_count tk g"
proof -
  have hash: "tk_hash tk (field_bytes f) = tk_hash tk (field_bytes g)"
    using assms(4) by (cases f; cases g) (auto simp: key_of_def tool_key_def)
  with assms(1-3) have bytes: "field_bytes f = field_bytes g"
    by (auto simp: no_collision_def dest: inj_onD)
  have z: "zero_free f" "zero_free g" using assms(1-3) by (auto simp: no_collision_def)
  show ?thesis
  proof (cases f)
    case (TextField s)
    with bytes assms(4) show ?thesis
      by (cases g) (auto simp: key_of_def tool_key_def tool_bytes_def)
  next
    case (ToolField t)
    show ?thesis
    proof (cases g)
      case (TextField s)
      with ToolField bytes [symmetric] assms(4) show ?thesis
        by (auto simp: key_of_def tool_key_def tool_bytes_def)
    next
      case (ToolField t')
      with \<open>f = ToolField t\<close> bytes z
      have "ct_name t = ct_name t' \<and> ct_description t = ct_description t' \<and> ct_parameters t = ct_parameters t'"
        by (simp add: tool_bytes_def zero_free_def append_sep_inject)
      then show ?thesis using \<open>f = ToolField t\<close> ToolField by (simp add: count_tool_def)
    qed
  qed
qed

text \<open>A stored value is the count of every counted field that has the key.\<close>

definition right_count :: "tokenizer \<Rightarrow> field set \<Rightarrow> memo_key \<Rightarrow> int \<Rightarrow> bool" where
  "right_count tk U k n \<longleftrightarrow> (\<forall>f \<in> U. f \<noteq> TextField [] \<and> field_key tk f = k \<longrightarrow> field_count tk f = n)"

text \<open>The caches that estimates over \<open>U\<close> reach, from any number of goroutines.\<close>

inductive memo_reach :: "tokenizer \<Rightarrow> field set \<Rightarrow> nat \<Rightarrow> memo \<Rightarrow> bool" for tk U cap where
  reach_fresh: "memo_reach tk U cap (new_memo cap)"
| reach_lookup: "memo_reach tk U cap m \<Longrightarrow> memo_reach tk U cap (snd (memo_lookup k m))"
| reach_put: "memo_reach tk U cap m \<Longrightarrow> f \<in> U \<Longrightarrow> f \<noteq> TextField [] \<Longrightarrow>
    memo_reach tk U cap (memo_store (field_key tk f) (field_count tk f) m)"

lemma memo_reach_sound:
  assumes "memo_reach tk U cap m" and "no_collision tk U" and "0 < cap"
  shows "generational.sound (right_count tk U) m \<and> memo_bounded m \<and> mm_cap m = cap"
  using assms
proof induction
  case reach_fresh
  then show ?case
    unfolding generational.sound_def by (simp add: memo_holds_def new_memo_def memo_bounded_def)
next
  case (reach_lookup m k)
  have "memo_bounded (snd (memo_lookup k m))"
    using reach_lookup insert_locked_bounded [of m k] by (auto simp: memo_lookup_def split: option.split)
  with reach_lookup show ?case by (simp add: generational.sound_find)
next
  case (reach_put m f)
  have "right_count tk U (field_key tk f) (field_count tk f)"
    unfolding right_count_def using field_key_count [OF reach_put.prems(1)] reach_put.hyps by blast
  with reach_put insert_locked_bounded [of m] show ?case
    by (simp add: generational.sound_save memo_store_def [symmetric]) (simp add: memo_store_def)
qed

text \<open>What other goroutines may do: look up anything, store right counts of fields of \<open>U\<close>.\<close>

definition fair_op :: "tokenizer \<Rightarrow> field set \<Rightarrow> memo_op \<Rightarrow> bool" where
  "fair_op tk U p =
     (case p of
        OpLookup k \<Rightarrow> True
      | OpStore k n \<Rightarrow> \<exists>f \<in> U. f \<noteq> TextField [] \<and> k = field_key tk f \<and> n = field_count tk f)"

lemma run_ops_reach: "memo_reach tk U cap m \<Longrightarrow> list_all (fair_op tk U) ps \<Longrightarrow> memo_reach tk U cap (run_ops ps m)"
  unfolding run_ops_def
proof (induction ps arbitrary: m)
  case (Cons p ps)
  have "memo_reach tk U cap (run_op p m)"
    using Cons.prems by (auto simp: run_op_def fair_op_def intro: reach_lookup reach_put split: memo_op.splits)
  with Cons show ?case by simp
qed simp

lemma reach_hit:
  assumes "memo_reach tk U cap m" "no_collision tk U" "0 < cap" "f \<in> U" "f \<noteq> TextField []"
    and "memo_lookup (field_key tk f) m = (Some n, m')"
  shows "n = field_count tk f"
  using generational.sound_hit [OF conjunct1 [OF memo_reach_sound [OF assms(1-3)]] assms(6)] assms(4,5)
  by (simp add: right_count_def)

lemma estimate_field_reach:
  assumes "memo_reach tk U cap m" "no_collision tk U" "0 < cap"
    and "list_all (fair_op tk U) (fst gap)" "list_all (fair_op tk U) (snd gap)"
  shows "TextField s \<in> U \<Longrightarrow> \<exists>m'. estimate_string tk gap s m = (field_count tk (TextField s), m') \<and> memo_reach tk U cap m'"
    and "ToolField t \<in> U \<Longrightarrow> \<exists>m'. estimate_tool tk gap t m = (field_count tk (ToolField t), m') \<and> memo_reach tk U cap m'"
proof -
  let ?m = "run_ops (fst gap) m"
  have m: "memo_reach tk U cap ?m" by (rule run_ops_reach) (use assms in auto)
  have after: "memo_reach tk U cap (memo_store (field_key tk f) (field_count tk f) (run_ops (snd gap) m'))"
    if "memo_lookup (field_key tk f) ?m = (r, m')" "f \<in> U" "f \<noteq> TextField []" for f r m'
    using reach_put [OF run_ops_reach [OF _ assms(5)] that(2,3)] reach_lookup [OF m, of "field_key tk f"] that(1)
    by simp
  have hit: "memo_reach tk U cap m'" if "memo_lookup k ?m = (r, m')" for k r m'
    using reach_lookup [OF m, of k] that by simp
  show "\<exists>m'. estimate_string tk gap s m = (field_count tk (TextField s), m') \<and> memo_reach tk U cap m'"
    if "TextField s \<in> U"
    using assms(1) that reach_hit [OF m assms(2,3), of "TextField s"] after [of "TextField s"] hit
    by (auto simp: estimate_string_def split: option.split prod.split)
  show "\<exists>m'. estimate_tool tk gap t m = (field_count tk (ToolField t), m') \<and> memo_reach tk U cap m'"
    if "ToolField t \<in> U"
    using that reach_hit [OF m assms(2,3), of "ToolField t"] after [of "ToolField t"] hit
    by (auto simp: estimate_tool_def split: option.split prod.split)
qed

lemma exact_visit_simps:
  "estimate_string tk gap s m = (k, m') \<Longrightarrow> exact_visit tk (VisitText s, gap) (n, m) = (n + k, m')"
  "estimate_tool tk gap t m = (k, m') \<Longrightarrow> exact_visit tk (VisitTool t, gap) (n, m) = (n + k, m')"
  "exact_visit tk (VisitImage, gap) (n, m) = (n, m)"
  "exact_visit tk (VisitItem, gap) (n, m) = (n, m)"
  by (simp_all add: exact_visit_def)

lemma visit_field_simps:
  "visit_field (VisitText s) = Some (TextField s)" "visit_field (VisitTool t) = Some (ToolField t)"
  "visit_field VisitImage = None" "visit_field VisitItem = None"
  by (simp_all add: visit_field_def)

lemma exact_visits_reach:
  assumes "memo_reach tk U cap m" "no_collision tk U" "0 < cap"
    and "set (List.map_filter visit_field (map fst vs)) \<subseteq> U"
    and "\<forall>v \<in> set vs. list_all (fair_op tk U) (fst (snd v)) \<and> list_all (fair_op tk U) (snd (snd v))"
  shows "\<exists>m'. fold (exact_visit tk) vs (n, m) =
      (n + sum_list (map (field_count tk) (List.map_filter visit_field (map fst vs))), m') \<and> memo_reach tk U cap m'"
  using assms
proof (induction vs arbitrary: n m)
  case Nil
  then show ?case by (auto simp: List.map_filter_def)
next
  case (Cons v vs)
  obtain x gap where v: "v = (x, gap)" by (cases v)
  have gap: "list_all (fair_op tk U) (fst gap)" "list_all (fair_op tk U) (snd gap)"
    using Cons.prems(5) v by auto
  note field = estimate_field_reach [OF Cons.prems(1-3) gap]
  have rest: "set (List.map_filter visit_field (map fst vs)) \<subseteq> U"
    using Cons.prems(4) by (auto simp: map_filter_simps split: option.splits)
  have others: "\<forall>v \<in> set vs. list_all (fair_op tk U) (fst (snd v)) \<and> list_all (fair_op tk U) (snd (snd v))"
    using Cons.prems(5) by simp
  have IH: "\<exists>m''. fold (exact_visit tk) vs (k, m') =
      (k + sum_list (map (field_count tk) (List.map_filter visit_field (map fst vs))), m'') \<and> memo_reach tk U cap m''"
    if "memo_reach tk U cap m'" for k m'
    by (rule Cons.IH [OF that Cons.prems(2,3) rest others])
  have u: "visit_field x = Some f \<Longrightarrow> f \<in> U" for f
    using Cons.prems(4) v by (auto simp: map_filter_simps)
  have step: ?case if "exact_visit tk v (n, m) = (n + field_count tk f, m')" "visit_field x = Some f"
    "memo_reach tk U cap m'" for f m'
    using IH [OF that(3), of "n + field_count tk f"] that(1,2) v by (simp add: map_filter_simps add.assoc)
  show ?case
  proof (cases x)
    case (VisitText s)
    then have "TextField s \<in> U" using u by (simp add: visit_field_simps)
    with field(1) obtain m' where "estimate_string tk gap s m = (field_count tk (TextField s), m')"
      "memo_reach tk U cap m'" by blast
    with VisitText v show ?thesis by (intro step) (auto simp: exact_visit_simps visit_field_simps)
  next
    case (VisitTool t)
    then have "ToolField t \<in> U" using u by (simp add: visit_field_simps)
    with field(2) obtain m' where "estimate_tool tk gap t m = (field_count tk (ToolField t), m')"
      "memo_reach tk U cap m'" by blast
    with VisitTool v show ?thesis by (intro step) (auto simp: exact_visit_simps visit_field_simps)
  qed (use IH [OF Cons.prems(1), of n] v in \<open>simp_all add: exact_visit_simps visit_field_simps map_filter_simps\<close>)
qed

text \<open>
  Property (C31): the cache of token counts is invisible and bounded. Whatever other goroutines look up
  and store meanwhile, the exact estimate of a request is the sum of the uncached counts of its
  fields, and the cache that it leaves behind holds at most twice its capacity.
\<close>

theorem cached_estimate_exact:
  assumes "memo_reach tk U cap m" and "no_collision tk U" and "0 < cap"
    and "set (request_fields req) \<subseteq> U"
    and "\<forall>i. list_all (fair_op tk U) (fst (gaps i)) \<and> list_all (fair_op tk U) (snd (gaps i))"
  shows "\<exists>m'. estimate_request tk gaps req m = (plain_request tk req, m') \<and>
    memo_reach tk U cap m' \<and> memo_len m' \<le> 2 * cap"
proof -
  let ?vs = "zip (walk_fields req) (map gaps [0..<length (walk_fields req)])"
  have fst: "map fst ?vs = walk_fields req" by simp
  have "\<forall>v \<in> set ?vs. list_all (fair_op tk U) (fst (snd v)) \<and> list_all (fair_op tk U) (snd (snd v))"
    using assms(5) by (auto simp: set_zip) (metis fst_conv snd_conv)+
  moreover have "set (List.map_filter visit_field (map fst ?vs)) \<subseteq> U"
    using assms(4) unfolding fst request_fields_def .
  ultimately obtain m' where m': "fold (exact_visit tk) ?vs (0, m) =
      (0 + sum_list (map (field_count tk) (List.map_filter visit_field (map fst ?vs))), m')" "memo_reach tk U cap m'"
    using exact_visits_reach [OF assms(1-3)] by blast
  with memo_reach_sound [OF m'(2) assms(2,3)] show ?thesis
    unfolding fst by (auto simp: estimate_request_def Let_def plain_request_def request_fields_def memo_bounded_def memo_len_def)
qed

definition demo_tokenizer :: tokenizer where
  "demo_tokenizer =
     \<lparr>tk_count = (\<lambda>s. Some (int (length s))), tk_hash = (\<lambda>s. of_nat (length s)),
      tk_letter = (\<lambda>r. False), tk_number = (\<lambda>r. False), tk_mark = (\<lambda>r. False),
      tk_unmarshal = (\<lambda>s. None), tk_float = (\<lambda>s. s), tk_max_piece = 0, tk_capacity = 4\<rparr>"

definition demo_request :: responses_request where
  "demo_request =
     \<lparr>rr_model = [], rr_instructions = ''ab'', rr_input = [], rr_tools = [function_tool ''t'' ''d'' []],
      rr_tool_choice = None, rr_parallel = None, rr_reasoning = None, rr_include = [], rr_cache_key = [],
      rr_store = False, rr_stream = True\<rparr>"

theorem cached_estimate_exact_witness:
  "\<exists>m'. estimate_request demo_tokenizer (\<lambda>i. ([OpLookup (key_of demo_tokenizer ''ab'')], [])) (Some demo_request) (new_memo 4) =
     (plain_request demo_tokenizer (Some demo_request), m') \<and> memo_len m' \<le> 8"
proof -
  let ?U = "{TextField ''ab'', ToolField (function_tool ''t'' ''d'' [])}"
  have "no_collision demo_tokenizer ?U"
    by (simp add: no_collision_def zero_free_def demo_tokenizer_def function_tool_def tool_bytes_def)
  moreover have "set (request_fields (Some demo_request)) \<subseteq> ?U"
    by (simp add: request_fields_def List.map_filter_def walk_fields_def visit_field_def demo_request_def)
  ultimately show ?thesis
    using cached_estimate_exact [OF reach_fresh [of demo_tokenizer ?U 4], of "Some demo_request"
        "\<lambda>i. ([OpLookup (key_of demo_tokenizer ''ab'')], [])"]
    by (auto simp: fair_op_def)
qed

end
