(* ===== verification/JsonTree.thy ===== *)
theory JsonTree
  imports ToolSchema
begin

text \<open>
  What \<^verbatim>\<open>encoding/json\<close> does for a program that takes a body apart into
  \<^verbatim>\<open>map[string]json.RawMessage\<close> values: a raw message is the value it holds, a \<open>jany\<close>, and
  \<^verbatim>\<open>json.Unmarshal\<close> into a string, a boolean, a list of maps or a struct reads that value.
  A map may be nil, which is \<^const>\<open>None\<close>; a key that is missing from a map gives a nil raw
  message, also \<^const>\<open>None\<close>. A decoder gives \<^const>\<open>None\<close> for an error. Object members keep
  their order and have distinct keys.
\<close>

section \<open>Values\<close>

definition json_null :: jany where "json_null = AOther ''null''"

definition json_bool :: "bool \<Rightarrow> jany" where
  "json_bool b = AOther (if b then ''true'' else ''false'')"

text \<open>\<^verbatim>\<open>json.Unmarshal\<close> into a string or a boolean that holds \<open>d\<close>: null leaves it alone.\<close>

definition into_string :: "string \<Rightarrow> jany \<Rightarrow> string option" where
  "into_string d v = (case v of AStr s \<Rightarrow> Some s | _ \<Rightarrow> if v = json_null then Some d else None)"

definition into_bool :: "bool \<Rightarrow> jany \<Rightarrow> bool option" where
  "into_bool d v =
     (if v = json_bool True then Some True
      else if v = json_bool False then Some False
      else if v = json_null then Some d else None)"

definition string_of :: "jany option \<Rightarrow> string option" where
  "string_of v = (case v of None \<Rightarrow> None | Some v \<Rightarrow> into_string [] v)"

text \<open>Into a nil \<^verbatim>\<open>map[string]json.RawMessage\<close>, and into a slice of them.\<close>

type_synonym jmap = "(string \<times> jany) list option"

definition map_value :: "jany \<Rightarrow> jmap option" where
  "map_value v =
     (case v of AObj fs \<Rightarrow> Some (Some fs) | _ \<Rightarrow> if v = json_null then Some None else None)"

fun map_values :: "jany list \<Rightarrow> jmap list option" where
  "map_values [] = Some []"
| "map_values (v # vs) =
     (case map_value v of
        None \<Rightarrow> None
      | Some m \<Rightarrow> (case map_values vs of None \<Rightarrow> None | Some ms \<Rightarrow> Some (m # ms)))"

definition maps_of :: "jany option \<Rightarrow> jmap list option" where
  "maps_of v =
     (case v of
        None \<Rightarrow> None
      | Some (AList vs) \<Rightarrow> map_values vs
      | Some v \<Rightarrow> if v = json_null then Some [] else None)"

definition map_of_raw :: "jany option \<Rightarrow> jmap option" where
  "map_of_raw v = (case v of None \<Rightarrow> None | Some v \<Rightarrow> map_value v)"

text \<open>The members of a map; \<^verbatim>\<open>json.Marshal\<close> of a map and of a slice of maps.\<close>

definition jget :: "jmap \<Rightarrow> string \<Rightarrow> jany option" where
  "jget m k = (case m of None \<Rightarrow> None | Some fs \<Rightarrow> map_of fs k)"

definition jset :: "string \<Rightarrow> jany \<Rightarrow> jmap \<Rightarrow> jmap" where
  "jset k v m = map_option (AList.update k v) m"

definition jdel :: "string \<Rightarrow> jmap \<Rightarrow> jmap" where
  "jdel k m = map_option (AList.delete k) m"

definition of_map :: "jmap \<Rightarrow> jany" where
  "of_map m = (case m of None \<Rightarrow> json_null | Some fs \<Rightarrow> AObj fs)"

definition of_maps :: "jmap list \<Rightarrow> jany" where
  "of_maps ms = AList (map of_map ms)"

section \<open>Struct fields\<close>

text \<open>
  A member sets the field whose tag equals its key up to case folding, where the two runes
  outside ASCII that fold to an ASCII letter, the long s and the Kelvin sign, count too.
\<close>

fun fold_name :: "string \<Rightarrow> string" where
  "fold_name (a # b # c # s) =
     (if [a, b, c] = byte_str [226, 132, 170] then CHR ''k'' # fold_name s
      else if [a, b] = byte_str [197, 191] then CHR ''s'' # fold_name (c # s)
      else lower_char a # fold_name (b # c # s))"
| "fold_name [a, b] =
     (if [a, b] = byte_str [197, 191] then ''s'' else [lower_char a, lower_char b])"
| "fold_name [a] = [lower_char a]"
| "fold_name [] = []"

definition names_field :: "string \<Rightarrow> string \<Rightarrow> bool" where
  "names_field tag key \<longleftrightarrow> fold_name key = tag"

text \<open>The members of an object act on a struct in their order; the first error stays.\<close>

definition into_struct :: "('a \<Rightarrow> string \<Rightarrow> jany \<Rightarrow> 'a option) \<Rightarrow> 'a \<Rightarrow> (string \<times> jany) list \<Rightarrow> 'a option" where
  "into_struct member zero fs =
     foldl (\<lambda>acc (k, v). case acc of None \<Rightarrow> None | Some s \<Rightarrow> member s k v) (Some zero) fs"

definition struct_value :: "('a \<Rightarrow> string \<Rightarrow> jany \<Rightarrow> 'a option) \<Rightarrow> 'a \<Rightarrow> jany \<Rightarrow> 'a option" where
  "struct_value member zero v =
     (case v of AObj fs \<Rightarrow> into_struct member zero fs | _ \<Rightarrow> if v = json_null then Some zero else None)"

fun struct_values :: "('a \<Rightarrow> string \<Rightarrow> jany \<Rightarrow> 'a option) \<Rightarrow> 'a \<Rightarrow> jany list \<Rightarrow> 'a list option" where
  "struct_values member zero [] = Some []"
| "struct_values member zero (v # vs) =
     (case struct_value member zero v of
        None \<Rightarrow> None
      | Some s \<Rightarrow> (case struct_values member zero vs of None \<Rightarrow> None | Some ss \<Rightarrow> Some (s # ss)))"

definition structs_of :: "('a \<Rightarrow> string \<Rightarrow> jany \<Rightarrow> 'a option) \<Rightarrow> 'a \<Rightarrow> jany option \<Rightarrow> 'a list option" where
  "structs_of member zero v =
     (case v of
        None \<Rightarrow> None
      | Some (AList vs) \<Rightarrow> struct_values member zero vs
      | Some v \<Rightarrow> if v = json_null then Some [] else None)"

section \<open>Facts\<close>

lemma map_value_of_map [simp]: "map_value (of_map m) = Some m"
  by (simp add: of_map_def map_value_def json_null_def split: option.split)

lemma map_values_of_maps: "map_values (map of_map ms) = Some ms"
  by (induction ms) auto

lemma maps_of_maps [simp]: "maps_of (Some (of_maps ms)) = Some ms"
  by (simp add: maps_of_def of_maps_def map_values_of_maps)

lemma map_values_Some: "map_values vs = Some ms \<longleftrightarrow> vs = map of_map ms"
proof
  show "map_values vs = Some ms \<Longrightarrow> vs = map of_map ms"
    by (induction vs arbitrary: ms)
       (auto simp: of_map_def map_value_def split: option.splits jany.splits if_splits)
qed (simp add: map_values_of_maps)

lemma jget_set [simp]: "jget (Some (AList.update k v fs)) k' = (if k' = k then Some v else jget (Some fs) k')"
  by (simp add: jget_def update_conv')

lemma jget_jset: "m \<noteq> None \<Longrightarrow> jget (jset k v m) k' = (if k' = k then Some v else jget m k')"
  by (auto simp: jset_def)

lemma jget_jdel: "jget (jdel k m) k' = (if k' = k then None else jget m k')"
  by (auto simp: jdel_def jget_def delete_conv' split: option.split)

lemma string_of_Some: "s \<noteq> [] \<Longrightarrow> string_of v = Some s \<longleftrightarrow> v = Some (AStr s)"
  by (cases v; cases "the v") (auto simp: string_of_def into_string_def)

lemma jget_Some: "jget m k = Some v \<Longrightarrow> m \<noteq> None"
  by (cases m) (auto simp: jget_def)

lemma jget_None [simp]: "jget None k = None"
  by (simp add: jget_def)

lemma fold_name_lower: "lower_ascii s \<Longrightarrow> fold_name s = s"
  by (induction s rule: fold_name.induct)
     (auto simp: lower_ascii_def byte_str_def lower_char_id)

declare fold_name.simps [simp del]

end
