(* ===== verification/DeepTools.thy ===== *)
theory DeepTools
  imports ToolSet JsonTree
begin

text \<open>
  \<^verbatim>\<open>internal/deepseek/toolchange.go\<close>: the blocks that add and remove tools in the middle of a
  conversation, applied to the top-level tools of the request, which is all that DeepSeek
  knows of. The rules are those of theory ToolSet, which the Codex leg follows too; here
  each slot holds the raw declaration. The theorem compares the two legs.
  The parameter \<open>q\<close> quotes strings outside ASCII, \<open>r\<close> gives the bytes of a raw value.
\<close>

section \<open>Decoding a block\<close>

definition cache_member :: "cache_control \<Rightarrow> string \<Rightarrow> jany \<Rightarrow> cache_control option" where
  "cache_member c k v =
     (if names_field ''type'' k then map_option (\<lambda>s. c\<lparr>cc_type := s\<rparr>) (into_string (cc_type c) v)
      else if names_field ''ttl'' k then map_option (\<lambda>s. c\<lparr>cc_ttl := s\<rparr>) (into_string (cc_ttl c) v)
      else Some c)"

text \<open>A pointer to a struct: null makes it nil, an object sets its fields.\<close>

definition into_pointer ::
  "('a \<Rightarrow> string \<Rightarrow> jany \<Rightarrow> 'a option) \<Rightarrow> 'a \<Rightarrow> 'a option \<Rightarrow> jany \<Rightarrow> 'a option option" where
  "into_pointer member zero p v =
     (if v = json_null then Some None
      else map_option Some (struct_value member (case p of None \<Rightarrow> zero | Some s \<Rightarrow> s) v))"

definition zero_tool :: tool where
  "zero_tool = \<lparr>tl_type = [], tl_name = [], tl_description = [], tl_input_schema = [], tl_cache_control = None\<rparr>"

definition tool_member :: "(jany \<Rightarrow> string) \<Rightarrow> tool \<Rightarrow> string \<Rightarrow> jany \<Rightarrow> tool option" where
  "tool_member r t k v =
     (if names_field ''type'' k then map_option (\<lambda>s. t\<lparr>tl_type := s\<rparr>) (into_string (tl_type t) v)
      else if names_field ''name'' k then map_option (\<lambda>s. t\<lparr>tl_name := s\<rparr>) (into_string (tl_name t) v)
      else if names_field ''description'' k
      then map_option (\<lambda>s. t\<lparr>tl_description := s\<rparr>) (into_string (tl_description t) v)
      else if names_field ''input_schema'' k then Some (t\<lparr>tl_input_schema := r v\<rparr>)
      else if names_field ''cache_control'' k
      then map_option (\<lambda>c. t\<lparr>tl_cache_control := c\<rparr>)
             (into_pointer cache_member \<lparr>cc_type = [], cc_ttl = []\<rparr> (tl_cache_control t) v)
      else Some t)"

definition zero_target :: tool_target where
  "zero_target = \<lparr>tt_type = [], tt_name = [], tt_definition = None\<rparr>"

definition target_member :: "(jany \<Rightarrow> string) \<Rightarrow> tool_target \<Rightarrow> string \<Rightarrow> jany \<Rightarrow> tool_target option" where
  "target_member r t k v =
     (if names_field ''type'' k then map_option (\<lambda>s. t\<lparr>tt_type := s\<rparr>) (into_string (tt_type t) v)
      else if names_field ''name'' k then map_option (\<lambda>s. t\<lparr>tt_name := s\<rparr>) (into_string (tt_name t) v)
      else if names_field ''definition'' k
      then map_option (\<lambda>d. t\<lparr>tt_definition := d\<rparr>) (into_pointer (tool_member r) zero_tool (tt_definition t) v)
      else Some t)"

text \<open>\<^verbatim>\<open>present\<close>: the value is there and is not null.\<close>

definition present :: "jany option \<Rightarrow> bool" where
  "present v \<longleftrightarrow> v \<noteq> None \<and> v \<noteq> Some json_null"

text \<open>The target as the rules read it; the outer \<^const>\<open>None\<close> is a decoding error.\<close>

definition checked_target :: "(jany \<Rightarrow> string) \<Rightarrow> jmap \<Rightarrow> tool_target option option" where
  "checked_target r b =
     (if present (jget b ''tool'')
      then map_option Some (struct_value (target_member r) zero_target (the (jget b ''tool'')))
      else Some None)"

text \<open>The raw definition: the struct with the one field \<^verbatim>\<open>definition\<close>, a map.\<close>

definition definition_member :: "jmap \<Rightarrow> string \<Rightarrow> jany \<Rightarrow> jmap option" where
  "definition_member m k v =
     (if names_field ''definition'' k then
        (case v of
           AObj fs \<Rightarrow> Some (Some (foldl (\<lambda>m (k, v). AList.update k v m) (case m of None \<Rightarrow> [] | Some m \<Rightarrow> m) fs))
         | _ \<Rightarrow> if v = json_null then Some None else None)
      else Some m)"

definition raw_definition :: "jmap \<Rightarrow> jmap" where
  "raw_definition b =
     (case jget b ''tool'' of
        None \<Rightarrow> None
      | Some v \<Rightarrow> (case struct_value definition_member None v of None \<Rightarrow> None | Some m \<Rightarrow> m))"

definition block_kind :: "jmap \<Rightarrow> string" where
  "block_kind b = (case string_of (jget b ''type'') of None \<Rightarrow> [] | Some s \<Rightarrow> s)"

definition tool_change_kind :: "string \<Rightarrow> bool" where
  "tool_change_kind k \<longleftrightarrow> k = BlockToolAddition \<or> k = BlockToolRemoval"

section \<open>hasToolChanges\<close>

definition content_member :: "jany option \<Rightarrow> string \<Rightarrow> jany \<Rightarrow> jany option option" where
  "content_member c k v = (if names_field ''content'' k then Some (Some v) else Some c)"

definition type_member :: "string \<Rightarrow> string \<Rightarrow> jany \<Rightarrow> string option" where
  "type_member s k v = (if names_field ''type'' k then into_string s v else Some s)"

definition content_has_changes :: "jany option \<Rightarrow> bool" where
  "content_has_changes c =
     (case c of
        Some (AList vs) \<Rightarrow>
          (case struct_values type_member [] vs of
             None \<Rightarrow> False
           | Some kinds \<Rightarrow> list_ex tool_change_kind kinds)
      | _ \<Rightarrow> False)"

definition has_tool_changes :: "jany option \<Rightarrow> bool" where
  "has_tool_changes messages =
     (case structs_of content_member None messages of
        None \<Rightarrow> False
      | Some contents \<Rightarrow> list_ex content_has_changes contents)"

section \<open>hoistFromMessage\<close>

definition content_place :: "nat \<Rightarrow> string" where
  "content_place mi = ''messages['' @ itoa (int mi) @ ''].content''"

definition block_place :: "nat \<Rightarrow> nat \<Rightarrow> string" where
  "block_place mi bi = content_place mi @ ''['' @ itoa (int bi) @ '']''"

text \<open>What an accepted block does to the raw declarations.\<close>

definition edit_tools ::
  "nat \<Rightarrow> string \<Rightarrow> tool_target option \<Rightarrow> tool_edit \<Rightarrow> jmap \<Rightarrow> jmap list \<Rightarrow> jmap list" where
  "edit_tools before kind checked edit b tools =
     (if ed_store edit
      then store_definition before edit (jdel ''defer_loading'' (raw_definition b)) tools
      else if kind = BlockToolAddition \<and> tt_type (the checked) = ToolTargetReference
      then tools[nat (ed_slot edit) := jdel ''defer_loading'' (tools ! nat (ed_slot edit))]
      else tools)"

text \<open>The loop over the blocks: the blocks that stay, and whether any was taken.\<close>

fun hoist_blocks ::
  "(jany \<Rightarrow> string) \<Rightarrow> (string \<Rightarrow> string) \<Rightarrow> nat \<Rightarrow> nat \<Rightarrow> jmap list \<Rightarrow> jmap list \<times> tool_set \<Rightarrow>
   go_error + jmap list \<times> bool \<times> jmap list \<times> tool_set" where
  "hoist_blocks r q mi bi [] st = Inr ([], False, st)"
| "hoist_blocks r q mi bi (b # bs) (tools, s) =
     (if \<not> tool_change_kind (block_kind b) then
        (case hoist_blocks r q mi (bi + 1) bs (tools, s) of
           Inl e \<Rightarrow> Inl e
         | Inr (out, changed, st) \<Rightarrow> Inr (b # out, changed, st))
      else
        (case checked_target r b of
           None \<Rightarrow> Inl (new_error TypeInvalidRequest (''deepseek '' @ block_place mi bi @ '' has no valid tool object''))
         | Some checked \<Rightarrow>
             (case apply_change q (block_kind b) checked s of
                Inl e \<Rightarrow> Inl (new_error TypeInvalidRequest (''deepseek '' @ block_place mi bi @ '' '' @ error_text e))
              | Inr (edit, s') \<Rightarrow>
                  (case hoist_blocks r q mi (bi + 1) bs
                          (edit_tools (set_len s) (block_kind b) checked edit b tools, s') of
                     Inl e \<Rightarrow> Inl e
                   | Inr (out, _, st) \<Rightarrow> Inr (out, True, st)))))"

text \<open>One message: its new form, \<^const>\<open>None\<close> when it is to be dropped.\<close>

definition hoist_message ::
  "(jany \<Rightarrow> string) \<Rightarrow> (string \<Rightarrow> string) \<Rightarrow> nat \<Rightarrow> jmap \<Rightarrow> jmap list \<times> tool_set \<Rightarrow>
   go_error + jmap option \<times> jmap list \<times> tool_set" where
  "hoist_message r q mi m st =
     (case jget m ''content'' of
        Some (AList vs) \<Rightarrow>
          (case map_values vs of
             None \<Rightarrow> Inl (new_error TypeInvalidRequest
               (''deepseek '' @ content_place mi @ '' must be a string or content-block array''))
           | Some blocks \<Rightarrow>
               (case hoist_blocks r q mi 0 blocks st of
                  Inl e \<Rightarrow> Inl e
                | Inr (out, changed, st') \<Rightarrow>
                    Inr (if \<not> changed then Some m
                         else if out = [] then None
                         else Some (jset ''content'' (of_maps out) m), st')))
      | _ \<Rightarrow> Inr (Some m, st))"

section \<open>hoistToolChanges\<close>

fun hoist_messages ::
  "(jany \<Rightarrow> string) \<Rightarrow> (string \<Rightarrow> string) \<Rightarrow> nat \<Rightarrow> jmap list \<Rightarrow> jmap list \<times> tool_set \<Rightarrow>
   go_error + jmap list \<times> jmap list \<times> tool_set" where
  "hoist_messages r q mi [] st = Inr ([], st)"
| "hoist_messages r q mi (m # ms) st =
     (case hoist_message r q mi m st of
        Inl e \<Rightarrow> Inl e
      | Inr (m', st') \<Rightarrow>
          (case hoist_messages r q (mi + 1) ms st' of
             Inl e \<Rightarrow> Inl e
           | Inr (kept, st'') \<Rightarrow> Inr ((case m' of None \<Rightarrow> kept | Some m \<Rightarrow> m # kept), st'')))"

definition tool_name :: "jmap \<Rightarrow> string" where
  "tool_name t = (case string_of (jget t ''name'') of None \<Rightarrow> [] | Some s \<Rightarrow> s)"

definition declared_tools :: "(string \<times> jany) list \<Rightarrow> jmap list option" where
  "declared_tools obj =
     (if present (map_of obj ''tools'') then maps_of (map_of obj ''tools'') else Some [])"

text \<open>The last step: the tools that are active are the tools of the request.\<close>

definition put_tools ::
  "jmap list \<Rightarrow> string list \<Rightarrow> (string \<times> jany) list \<Rightarrow> (string \<times> jany) list" where
  "put_tools active_tools removed obj =
     (if active_tools \<noteq> [] then AList.update ''tools'' (of_maps active_tools) obj
      else if removed \<noteq> [] then AList.delete ''tool_choice'' (AList.delete ''tools'' obj)
      else obj)"

definition hoist_tool_changes ::
  "(jany \<Rightarrow> string) \<Rightarrow> (string \<Rightarrow> string) \<Rightarrow> (string \<times> jany) list \<Rightarrow>
   go_error + (string \<times> jany) list \<times> string list \<times> string list" where
  "hoist_tool_changes r q obj =
     (if \<not> has_tool_changes (map_of obj ''messages'') then Inr (obj, [], [])
      else case maps_of (map_of obj ''messages'') of
        None \<Rightarrow> Inl (new_error TypeInvalidRequest ''deepseek messages must be an array'')
      | Some messages \<Rightarrow>
          (case declared_tools obj of
             None \<Rightarrow> Inl (new_error TypeInvalidRequest ''deepseek tools must be an array'')
           | Some tools \<Rightarrow>
               (case hoist_messages r q 0 messages (tools, new_tool_set (map tool_name tools)) of
                  Inl e \<Rightarrow> Inl e
                | Inr (kept, tools', s) \<Rightarrow>
                    Inr (put_tools (active_definitions s tools') (removed_names s)
                           (AList.update ''messages'' (of_maps kept) obj),
                         hoisted_names s, removed_names s))))"

section \<open>The same tools as on the Codex leg\<close>

text \<open>
  The Codex leg decodes the whole request into typed blocks. \<open>readable\<close> says that a message
  decodes, and that an inline definition spells the key of its name as the tag has it.
\<close>

definition typed_block :: "(jany \<Rightarrow> string) \<Rightarrow> jmap \<Rightarrow> tool_block" where
  "typed_block r b = \<lparr>tb_type = block_kind b, tb_tool = the (checked_target r b)\<rparr>"

definition message_blocks :: "jmap \<Rightarrow> jmap list option" where
  "message_blocks m = (case jget m ''content'' of Some (AList vs) \<Rightarrow> map_values vs | _ \<Rightarrow> Some [])"

definition typed_message :: "(jany \<Rightarrow> string) \<Rightarrow> jmap \<Rightarrow> tool_block list option" where
  "typed_message r m = map_option (map (typed_block r)) (message_blocks m)"

definition readable_block :: "(jany \<Rightarrow> string) \<Rightarrow> jmap \<Rightarrow> bool" where
  "readable_block r b \<longleftrightarrow>
     tool_change_kind (block_kind b) \<longrightarrow>
       (case checked_target r b of
          None \<Rightarrow> False
        | Some (Some t) \<Rightarrow>
            (case tt_definition t of None \<Rightarrow> True | Some d \<Rightarrow> tool_name (raw_definition b) = tl_name d)
        | Some None \<Rightarrow> True)"

definition readable :: "(jany \<Rightarrow> string) \<Rightarrow> jmap \<Rightarrow> bool" where
  "readable r m \<longleftrightarrow>
     (case message_blocks m of None \<Rightarrow> False | Some bs \<Rightarrow> list_all (readable_block r) bs)"

lemma typed_block_simps [simp]:
  "tb_type (typed_block r b) = block_kind b" "tb_tool (typed_block r b) = the (checked_target r b)"
  by (simp_all add: typed_block_def)

lemma change_blocks_kind:
  "change_blocks q i j (b # bs) (s, defs) =
     (if \<not> tool_change_kind (tb_type b) then change_blocks q i (j + 1) bs (s, defs)
      else case apply_change q (tb_type b) (tb_tool b) s of
             Inl e \<Rightarrow> Inl (change_error i j e)
           | Inr (edit, s') \<Rightarrow>
               change_blocks q i (j + 1) bs
                 (s', store_definition (set_len s) edit (the (tt_definition (the (tb_tool b)))) defs))"
  by (simp add: tool_change_kind_def)

text \<open>A flag that is deleted is not the name, so the slots stay in step.\<close>

lemma tool_name_jdel [simp]: "tool_name (jdel ''defer_loading'' t) = tool_name t"
  by (simp add: tool_name_def jget_jdel)

lemma map_update_same: "f y = f (xs ! i) \<Longrightarrow> map f (xs[i := y]) = map f xs"
  by (cases "i < length xs") (auto intro!: nth_equalityI simp: nth_list_update list_update_beyond)

lemma edit_tools_in_step:
  assumes wf: "set_wf s" and c: "apply_change q k checked s = Inr (e, s')"
    and tools: "map tool_name tools = set_names s"
    and nm: "\<And>t d. checked = Some t \<Longrightarrow> tt_definition t = Some d \<Longrightarrow> tool_name (raw_definition b) = tl_name d"
  shows "map tool_name (edit_tools (set_len s) k checked e b tools) = set_names s'"
proof (cases "ed_store e")
  case True
  from c have t: "try_change q (k, checked) s = Some (e, s')" by (simp add: try_change_Some)
  from c True have n: "tool_name (raw_definition b) = change_name (k, checked)"
    by (cases rule: apply_change_cases)
       (use nm in \<open>auto simp: apply_removal_def apply_reference_def change_name_def split: option.splits\<close>)
  have "tset.in_step tool_name s tools" using tools by (simp add: tset.in_step_def)
  from tset.in_step_change [OF wf t this, of "jdel ''defer_loading'' (raw_definition b)"] n True
  show ?thesis by (simp add: edit_tools_def tset.in_step_def set_len_def)
next
  case False
  from c have t: "try_change q (k, checked) s = Some (e, s')" by (simp add: try_change_Some)
  have "map tool_name (tools[i := jdel ''defer_loading'' (tools ! i)]) = map tool_name tools" for i
    by (rule map_update_same) simp
  with tset.change_no_store [OF wf t False] tools False show ?thesis by (simp add: edit_tools_def)
qed

text \<open>One list of blocks, and the whole list of messages, beside the loops of the Codex leg.\<close>

lemma hoist_blocks_agrees:
  "set_wf s \<Longrightarrow> map tool_name tools = set_names s \<Longrightarrow> list_all (readable_block r) bs \<Longrightarrow>
   (case change_blocks q mi bi (map (typed_block r) bs) (s, defs) of
      Inl e \<Rightarrow> \<exists>e. hoist_blocks r q mj bi bs (tools, s) = Inl e
    | Inr (s', defs') \<Rightarrow>
        \<exists>out changed tools'. hoist_blocks r q mj bi bs (tools, s) = Inr (out, changed, tools', s') \<and>
          map tool_name tools' = set_names s' \<and> set_wf s')"
proof (induction bs arbitrary: bi tools s defs)
  case (Cons b bs)
  show ?case
  proof (cases "tool_change_kind (block_kind b)")
    case False
    with Cons.IH [OF Cons.prems(1,2), where bi = "bi + 1" and defs = defs] Cons.prems(3) show ?thesis
      by (auto simp: change_blocks_kind simp del: change_blocks.simps(2) split: sum.splits)
  next
    case True
    with Cons.prems(3) obtain t where t: "checked_target r b = Some t"
      by (auto simp: readable_block_def split: option.splits)
    show ?thesis
    proof (cases "apply_change q (block_kind b) t s")
      case (Inl e)
      with True t show ?thesis by (simp add: change_blocks_kind del: change_blocks.simps(2))
    next
      case (Inr x)
      obtain e s1 where x: "x = (e, s1)" by fastforce
      let ?tools = "edit_tools (set_len s) (block_kind b) t e b tools"
      let ?defs = "store_definition (set_len s) e (the (tt_definition (the t))) defs"
      have "map tool_name ?tools = set_names s1"
        by (rule edit_tools_in_step [OF Cons.prems(1) Inr [unfolded x] Cons.prems(2)])
           (use Cons.prems(3) True t in \<open>auto simp: readable_block_def\<close>)
      with Cons.IH [where s = s1 and tools = ?tools and bi = "bi + 1" and defs = ?defs]
        apply_change_wf [OF Inr [unfolded x] Cons.prems(1)] Cons.prems(3) True t Inr x
      show ?thesis by (auto simp: change_blocks_kind simp del: change_blocks.simps(2) split: sum.splits)
    qed
  qed
next
  case Nil
  then show ?case by simp (rule exI [of _ False], simp)
qed

lemma hoist_message_agrees:
  assumes "set_wf s" "map tool_name tools = set_names s" "readable r m"
  shows "case change_messages q mi [typed_message r m] (s, defs) of
      Inl e \<Rightarrow> \<exists>e. hoist_message r q mi m (tools, s) = Inl e
    | Inr (s', defs') \<Rightarrow>
        \<exists>m' tools'. hoist_message r q mi m (tools, s) = Inr (m', tools', s') \<and>
          map tool_name tools' = set_names s' \<and> set_wf s'"
proof (cases "\<exists>vs. jget m ''content'' = Some (AList vs)")
  case True
  with assms(3) obtain vs bs where m: "jget m ''content'' = Some (AList vs)" "map_values vs = Some bs"
    "list_all (readable_block r) bs" by (auto simp: readable_def message_blocks_def split: option.splits)
  from hoist_blocks_agrees [OF assms(1,2) m(3), where q = q and mi = mi and bi = 0 and defs = defs and mj = mi] m show ?thesis
    by (auto simp: typed_message_def message_blocks_def hoist_message_def split: sum.splits)
next
  case False
  then have "typed_message r m = Some []" "hoist_message r q mi m (tools, s) = Inr (Some m, tools, s)"
    by (auto simp: typed_message_def message_blocks_def hoist_message_def split: option.split jany.split)
  with assms show ?thesis by simp
qed

lemma hoist_messages_agree:
  "set_wf s \<Longrightarrow> map tool_name tools = set_names s \<Longrightarrow> list_all (readable r) ms \<Longrightarrow>
   (case change_messages q mi (map (typed_message r) ms) (s, defs) of
      Inl e \<Rightarrow> \<exists>e. hoist_messages r q mi ms (tools, s) = Inl e
    | Inr (s', defs') \<Rightarrow>
        \<exists>kept tools'. hoist_messages r q mi ms (tools, s) = Inr (kept, tools', s') \<and>
          map tool_name tools' = set_names s')"
proof (induction ms arbitrary: mi tools s defs)
  case (Cons m ms)
  have one: "change_messages q mi (map (typed_message r) (m # ms)) (s, defs) =
      (case change_messages q mi [typed_message r m] (s, defs) of
         Inl e \<Rightarrow> Inl e | Inr sd \<Rightarrow> change_messages q (mi + 1) (map (typed_message r) ms) sd)"
    by (auto split: option.split sum.split)
  have rd: "readable r m" "list_all (readable r) ms" using Cons.prems(3) by simp_all
  note step = hoist_message_agrees [OF Cons.prems(1,2) rd(1), where q = q and mi = mi and defs = defs]
  show ?case
  proof (cases "change_messages q mi [typed_message r m] (s, defs)")
    case (Inl e)
    with step show ?thesis unfolding one by auto
  next
    case (Inr sd)
    obtain s1 defs1 where sd: "sd = (s1, defs1)" by fastforce
    from step Inr sd obtain m' tools1 where h: "hoist_message r q mi m (tools, s) = Inr (m', tools1, s1)"
      "map tool_name tools1 = set_names s1" "set_wf s1" by auto
    from Cons.IH [OF h(3,2) rd(2), where mi = "mi + 1" and defs = defs1] show ?thesis
      unfolding one Inr sd by (auto simp: h(1) split: sum.splits)
  qed
qed simp

text \<open>What is left of a message.\<close>

lemma hoist_blocks_rest:
  "hoist_blocks r q mi bi bs st = Inr (out, changed, st') \<Longrightarrow>
   out = filter (\<lambda>b. \<not> tool_change_kind (block_kind b)) bs \<and>
   (changed \<longleftrightarrow> list_ex (\<lambda>b. tool_change_kind (block_kind b)) bs)"
proof (induction bs arbitrary: bi st out changed)
  case (Cons b bs)
  obtain tools s where st: "st = (tools, s)" by fastforce
  show ?case
  proof (cases "tool_change_kind (block_kind b)")
    case False
    with Cons.prems [unfolded st] obtain out1 where "hoist_blocks r q mi (bi + 1) bs (tools, s) = Inr (out1, changed, st')"
      "out = b # out1" by (auto split: sum.splits)
    with Cons.IH [OF this(1)] False show ?thesis by simp
  next
    case True
    with Cons.prems [unfolded st] obtain ch1 st1 where
      "hoist_blocks r q mi (bi + 1) bs st1 = Inr (out, ch1, st')" "changed"
      by (auto split: sum.splits option.splits)
    with Cons.IH [OF this(1)] True show ?thesis by simp
  qed
qed simp

definition no_changes :: "jmap \<Rightarrow> bool" where
  "no_changes m \<longleftrightarrow>
     (case message_blocks m of
        None \<Rightarrow> False
      | Some bs \<Rightarrow> list_all (\<lambda>b. \<not> tool_change_kind (block_kind b)) bs)"

lemma hoist_message_rest:
  assumes "hoist_message r q mi m st = Inr (m', st')"
  shows "case m' of None \<Rightarrow> True | Some m' \<Rightarrow> no_changes m'"
proof (cases "\<exists>vs. jget m ''content'' = Some (AList vs)")
  case True
  with assms obtain vs bs out changed where m: "jget m ''content'' = Some (AList vs)" "map_values vs = Some bs"
    "hoist_blocks r q mi 0 bs st = Inr (out, changed, st')"
    "m' = (if \<not> changed then Some m else if out = [] then None else Some (jset ''content'' (of_maps out) m))"
    by (auto simp: hoist_message_def split: option.splits sum.splits)
  note rest = hoist_blocks_rest [OF m(3)]
  have ne: "m \<noteq> None" using m(1) by (cases m) auto
  show ?thesis
  proof (cases changed)
    case True
    have "message_blocks (jset ''content'' (of_maps out) m) = Some out"
      using ne by (simp add: message_blocks_def jget_jset of_maps_def map_values_of_maps)
    with True m(4) rest show ?thesis by (auto simp: no_changes_def list_all_iff)
  next
    case False
    with m rest show ?thesis
      by (auto simp: no_changes_def message_blocks_def list_all_iff list_ex_iff)
  qed
next
  case False
  with assms show ?thesis
    by (auto simp: hoist_message_def no_changes_def message_blocks_def split: option.splits jany.splits)
qed

lemma hoist_messages_rest: "hoist_messages r q mi ms st = Inr (kept, st') \<Longrightarrow> list_all no_changes kept"
proof (induction ms arbitrary: mi st kept)
  case (Cons m ms)
  then obtain m' st1 kept1 where h: "hoist_message r q mi m st = Inr (m', st1)"
    "hoist_messages r q (mi + 1) ms st1 = Inr (kept1, st')"
    "kept = (case m' of None \<Rightarrow> kept1 | Some m \<Rightarrow> m # kept1)"
    by (auto split: sum.splits)
  from hoist_message_rest [OF h(1)] Cons.IH [OF h(2)] h(3) show ?case by (auto split: option.splits)
qed simp

text \<open>The names of the tools that a request declares.\<close>

definition advertised :: "(string \<times> jany) list \<Rightarrow> string list" where
  "advertised obj = (case declared_tools obj of None \<Rightarrow> [] | Some ts \<Rightarrow> map tool_name ts)"

lemma active_definitions_map: "map f (active_definitions s defs) = active_definitions s (map f defs)"
  by (simp add: active_definitions_def)

text \<open>The slots that are left, when none is active, are those of removed tools.\<close>

lemma none_active:
  assumes "length tools = length (set_names s)" "active_definitions s tools = []" "removed_names s = []"
    "set_wf s"
  shows "tools = []"
proof (rule ccontr)
  assume "tools \<noteq> []"
  from assms(2) have "\<not> active s 0 \<or> length tools = 0"
    by (auto simp: active_definitions_def filter_empty_conv)
  moreover have "set_removed s = {}" using removed_names_set [OF assms(4)] assms(3) by simp
  ultimately show False using assms(1) \<open>tools \<noteq> []\<close> by (simp add: active_def)
qed

lemma present_maps [simp]: "present (Some (of_maps ts))"
  by (simp add: present_def of_maps_def json_null_def)

lemma advertised_put:
  "advertised (put_tools ts removed obj) =
     (if ts \<noteq> [] then map tool_name ts else if removed \<noteq> [] then [] else advertised obj)"
  by (simp add: put_tools_def advertised_def declared_tools_def update_conv' delete_conv' present_def [of None])


definition demo_added :: jmap where
  "demo_added =
     Some [(''role'', AStr ''system''),
           (''content'', AList [AObj [(''type'', AStr ''tool_addition''),
              (''tool'', AObj [(''type'', AStr ''tool_definition''),
                 (''definition'', AObj [(''name'', AStr ''x'')])])]])]"

definition demo_addition :: "(string \<times> jany) list" where
  "demo_addition = [(''messages'', AList [of_map demo_added])]"

lemma demo_readable:
  "has_tool_changes (map_of demo_addition ''messages'')" "list_all (readable (\<lambda>v. [])) [demo_added]"
  by (simp_all add: demo_addition_def demo_added_def of_map_def has_tool_changes_def structs_of_def struct_value_def
      into_struct_def content_member_def names_field_def fold_name_lower lower_ascii_def content_has_changes_def
      type_member_def into_string_def tool_change_kind_def tool_kind_defs readable_def message_blocks_def
      jget_def map_value_def readable_block_def block_kind_def string_of_def checked_target_def present_def
      target_member_def into_pointer_def json_null_def tool_member_def zero_tool_def zero_target_def
      raw_definition_def definition_member_def tool_name_def)


end
