(* ===== verification/DeepRewrite.thy ===== *)
theory DeepRewrite
  imports DeepTools Effort Sse
begin

text \<open>
  \<^verbatim>\<open>internal/deepseek/rewrite.go\<close>: what a request must lose or change before DeepSeek's
  compatible endpoint can honour it. A request the endpoint would silently misread is
  refused. The theorems say that the rewrite of message content reaches a form it leaves
  alone, and that the effort sent is one that DeepSeek documents.
\<close>

definition bad_request :: "string \<Rightarrow> go_error" where
  "bad_request msg = new_error TypeInvalidRequest msg"

section \<open>The reasoning effort\<close>

definition deepseek_effort :: "level \<Rightarrow> string" where
  "deepseek_effort l =
     (if l = Low then ''low''
      else if l = Medium \<or> l = High \<or> l = XHigh then ''high''
      else if l = MaxLevel \<or> l = Ultra then ''max''
      else [])"

definition rewrite_effort ::
  "level \<Rightarrow> (string \<times> jany) list \<Rightarrow> go_error + string \<times> (string \<times> jany) list" where
  "rewrite_effort requested obj =
     (let applied = deepseek_effort requested in
      case (if present (map_of obj ''output_config'') then map_of_raw (map_of obj ''output_config'') else Some None) of
        None \<Rightarrow> Inl (bad_request ''deepseek output_config must be an object'')
      | Some decoded \<Rightarrow>
          if present (map_of obj ''output_config'') \<and> decoded = None
          then Inl (bad_request ''deepseek output_config must be an object'')
          else
            let oc = (if applied = [] then jdel ''effort'' decoded
                      else jset ''effort'' (AStr applied) (Some (case decoded of None \<Rightarrow> [] | Some m \<Rightarrow> m)))
            in Inr (applied,
                    case oc of
                      None \<Rightarrow> obj
                    | Some [] \<Rightarrow> AList.delete ''output_config'' obj
                    | Some m \<Rightarrow> AList.update ''output_config'' (AObj m) obj))"

section \<open>What DeepSeek would ignore\<close>

text \<open>Each check gives the error it refuses with; \<open>r\<close> gives the bytes of a raw value.\<close>

definition ignored_field :: "(string \<times> jany) list \<Rightarrow> go_error option" where
  "ignored_field obj =
     map_option (\<lambda>f. bad_request (''deepseek ignores \"'' @ f @ ''\", so utraque cannot honor that request''))
       (find (\<lambda>f. present (map_of obj f)) [''container'', ''mcp_servers'', ''top_k''])"

definition bad_service_tier :: "(jany \<Rightarrow> string) \<Rightarrow> (string \<times> jany) list \<Rightarrow> go_error option" where
  "bad_service_tier r obj =
     (if present (map_of obj ''service_tier'') \<and> string_of (map_of obj ''service_tier'') \<noteq> Some ''auto''
      then Some (bad_request (''deepseek ignores service_tier='' @ r (the (map_of obj ''service_tier'')) @
             ''; only the default \"auto\" is safe to pass''))
      else None)"

text \<open>Go visits the keys of the map in any order; here it is their order in the body.\<close>

definition bad_output_config :: "(string \<Rightarrow> string) \<Rightarrow> (string \<times> jany) list \<Rightarrow> go_error option" where
  "bad_output_config q obj =
     (if \<not> present (map_of obj ''output_config'') then None
      else case map_of_raw (map_of obj ''output_config'') of
        Some (Some fs) \<Rightarrow>
          map_option (\<lambda>f. bad_request (''deepseek output_config supports only effort, not '' @ go_quote q f))
            (find (\<lambda>f. f \<noteq> ''effort'') (map fst fs))
      | _ \<Rightarrow> Some (bad_request ''deepseek output_config must be an object''))"

definition parallel_member :: "bool \<Rightarrow> string \<Rightarrow> jany \<Rightarrow> bool option" where
  "parallel_member b k v = (if names_field ''disable_parallel_tool_use'' k then into_bool b v else Some b)"

definition bad_tool_choice :: "(string \<times> jany) list \<Rightarrow> go_error option" where
  "bad_tool_choice obj =
     (if present (map_of obj ''tool_choice'') \<and>
         struct_value parallel_member False (the (map_of obj ''tool_choice'')) = Some True
      then Some (bad_request ''deepseek ignores tool_choice.disable_parallel_tool_use=true'')
      else None)"

definition reject_unsupported ::
  "(jany \<Rightarrow> string) \<Rightarrow> (string \<Rightarrow> string) \<Rightarrow> (string \<times> jany) list \<Rightarrow> go_error option" where
  "reject_unsupported r q obj =
     (case ignored_field obj of
        Some e \<Rightarrow> Some e
      | None \<Rightarrow>
          (case bad_service_tier r obj of
             Some e \<Rightarrow> Some e
           | None \<Rightarrow>
               (case bad_output_config q obj of
                  Some e \<Rightarrow> Some e
                | None \<Rightarrow> bad_tool_choice obj)))"

section \<open>A failed tool call\<close>

definition ds_tool_error_marker :: string where "ds_tool_error_marker = ''[tool error]''"

definition blank_line :: string where "blank_line = [CHR 0x0A, CHR 0x0A]"

definition ds_mark_tool_error :: "string \<Rightarrow> string" where
  "ds_mark_tool_error text =
     (if text = [] then ds_tool_error_marker
      else if text = ds_tool_error_marker \<or> prefix (ds_tool_error_marker @ blank_line) text then text
      else ds_tool_error_marker @ blank_line @ text)"

text \<open>The loop of \<^verbatim>\<open>markToolErrorContent\<close>; the inner \<^const>\<open>None\<close> says that there is no text block.\<close>

fun mark_first_text :: "string \<Rightarrow> jmap list \<Rightarrow> go_error + jmap list option" where
  "mark_first_text field [] = Inr None"
| "mark_first_text field (b # bs) =
     (if string_of (jget b ''type'') = Some ''text'' then
        (case string_of (jget b ''text'') of
           None \<Rightarrow> Inl (bad_request (''deepseek '' @ field @ '' has a text block with no valid text''))
         | Some t \<Rightarrow> Inr (Some (jset ''text'' (AStr (ds_mark_tool_error t)) b # bs)))
      else
        (case mark_first_text field bs of
           Inl e \<Rightarrow> Inl e
         | Inr x \<Rightarrow> Inr (map_option ((#) b) x)))"

definition marker_block :: jmap where
  "marker_block = Some [(''text'', AStr ds_tool_error_marker), (''type'', AStr ''text'')]"

definition mark_tool_error_content :: "string \<Rightarrow> jany option \<Rightarrow> go_error + jany" where
  "mark_tool_error_content field raw =
     (if \<not> present raw then Inr (AStr ds_tool_error_marker)
      else case raw of
        Some (AStr text) \<Rightarrow> Inr (AStr (ds_mark_tool_error text))
      | _ \<Rightarrow>
          (case maps_of raw of
             None \<Rightarrow> Inl (bad_request (''deepseek '' @ field @ '' must be a string or content-block array''))
           | Some blocks \<Rightarrow>
               (case mark_first_text field blocks of
                  Inl e \<Rightarrow> Inl e
                | Inr (Some blocks) \<Rightarrow> Inr (of_maps blocks)
                | Inr None \<Rightarrow> Inr (of_maps (marker_block # blocks)))))"

text \<open>The first part of the \<^verbatim>\<open>tool_result\<close> case: the flag becomes text.\<close>

definition place :: "string \<Rightarrow> nat \<Rightarrow> string" where
  "place field i = field @ ''['' @ itoa (int i) @ '']''"

definition mark_result :: "string \<Rightarrow> nat \<Rightarrow> jmap \<Rightarrow> go_error + jmap \<times> bool" where
  "mark_result field i b =
     (case jget b ''is_error'' of
        None \<Rightarrow> Inr (b, False)
      | Some flag \<Rightarrow>
          (case (if present (Some flag) then into_bool False flag else Some False) of
             None \<Rightarrow> Inl (bad_request (''deepseek '' @ place field i @ ''.is_error must be a boolean''))
           | Some is_error \<Rightarrow>
               (case (if is_error
                      then map_sum id (\<lambda>v. jset ''content'' v b)
                             (mark_tool_error_content (place field i @ ''.content'') (jget b ''content''))
                      else Inr b) of
                  Inl e \<Rightarrow> Inl e
                | Inr b' \<Rightarrow> Inr (jdel ''is_error'' b', True))))"

section \<open>Content blocks\<close>

record rewrite_env =
  re_canonical :: string            \<comment> \<open>the model\<close>
  re_schemas :: "string set"        \<comment> \<open>the tools with a schema\<close>
  re_quote :: "string \<Rightarrow> string"

text \<open>
  The switch over the kinds, \<^verbatim>\<open>tool_result\<close> apart: the kinds that pass or are refused as they
  are, and the one that becomes text.
\<close>

definition refused_block :: "rewrite_env \<Rightarrow> string \<Rightarrow> jmap \<Rightarrow> go_error option" where
  "refused_block env kind b =
     (if kind \<in> {''text'', ''thinking'', ''tool_use'', ''server_tool_use'', ''web_search_tool_result''} then
        (if kind = ''text'' \<and> present (jget b ''citations'')
         then Some (bad_request ''deepseek ignores text-block citations'') else None)
      else if kind = ''image'' then
        (case ds_lookup (re_canonical env) of
           Some m \<Rightarrow>
             if \<not> dm_supports_images m then Some (bad_request (dm_id m @ '' does not support image content'')) else None
         | None \<Rightarrow> None)
      else if kind \<in> {''document'', ''search_result'', ''redacted_thinking'', ''code_execution_tool_result'',
                      ''mcp_tool_use'', ''mcp_tool_result'', ''container_upload''} then
        Some (bad_request (''deepseek does not support '' @ go_quote (re_quote env) kind @ '' content blocks''))
      else
        Some (bad_request (''deepseek compatibility for '' @ go_quote (re_quote env) kind @ '' content blocks is unknown'')))"

definition reference_block ::
  "rewrite_env \<Rightarrow> string \<Rightarrow> nat \<Rightarrow> bool \<Rightarrow> jmap \<Rightarrow> string set \<Rightarrow> go_error + jmap \<times> bool \<times> string set" where
  "reference_block env field i in_result b refs =
     (if \<not> in_result then
        Inl (bad_request (''deepseek compatibility for '' @ go_quote (re_quote env) ''tool_reference'' @
          '' content blocks is unknown''))
      else case string_of (jget b ''tool_name'') of
        None \<Rightarrow> Inl (bad_request (''deepseek '' @ place field i @ '' has no valid tool_name''))
      | Some tool \<Rightarrow>
          if trim_space tool = [] then Inl (bad_request (''deepseek '' @ place field i @ '' has no valid tool_name''))
          else if tool \<notin> re_schemas env then
            Inl (bad_request (''deepseek cannot preserve discovered tool '' @ go_quote (re_quote env) tool @
              '' without its top-level input_schema''))
          else Inr (Some [(''type'', AStr ''text''),
                          (''text'', AStr (''[tool available: '' @ go_quote (re_quote env) tool @ '']''))],
                    True, insert tool refs))"

definition plain_block ::
  "rewrite_env \<Rightarrow> string \<Rightarrow> nat \<Rightarrow> bool \<Rightarrow> jmap \<Rightarrow> string set \<Rightarrow> go_error + jmap \<times> bool \<times> string set" where
  "plain_block env field i in_result b refs =
     (case string_of (jget b ''type'') of
        None \<Rightarrow> Inl (bad_request (''deepseek '' @ place field i @ '' has no valid content-block type''))
      | Some kind \<Rightarrow>
          if kind = [] then Inl (bad_request (''deepseek '' @ place field i @ '' has no valid content-block type''))
          else if kind = ''tool_reference'' then reference_block env field i in_result b refs
          else (case refused_block env kind b of
                  Some e \<Rightarrow> Inl e
                | None \<Rightarrow> Inr (b, False, refs)))"

text \<open>
  A tool result is rewritten below, as deep as results nest. Marking a failed call changes
  texts only, so the nesting stays.
\<close>

definition max_of :: "nat list \<Rightarrow> nat" where
  "max_of xs = foldr max xs 0"

function result_depth :: "jany \<Rightarrow> nat" where
  "result_depth (AObj fs) =
     (if map_of fs ''type'' = Some (AStr ''tool_result'') then 1 else 0) +
     max_of (map (\<lambda>(k, v). result_depth v) fs)"
| "result_depth (AList vs) = max_of (map result_depth vs)"
| "result_depth (AStr s) = 0"
| "result_depth (AOther s) = 0"
  by pat_completeness auto
termination
  by (relation "measure size") (auto dest!: size_field simp: size_list_estimation' less_Suc_eq_le)

lemma max_of_simps [simp]: "max_of [] = 0" "max_of (x # xs) = max x (max_of xs)"
  by (simp_all add: max_of_def)

lemma max_of_ge: "x \<in> set xs \<Longrightarrow> x \<le> max_of xs"
  by (induction xs) auto

lemma max_of_update: "max_of (map (\<lambda>(k, v). f v) (AList.update k v fs)) \<le> max (f v) (max_of (map (\<lambda>(k, v). f v) fs))"
  by (induction fs) auto

lemma max_of_delete: "max_of (map (\<lambda>(k, v). f v) (AList.delete k fs)) \<le> max_of (map (\<lambda>(k, v). f v) fs)"
  by (induction fs) (auto simp: le_max_iff_disj)

definition block_depth :: "jmap \<Rightarrow> nat" where
  "block_depth b = result_depth (of_map b)"

definition is_result :: "jmap \<Rightarrow> bool" where
  "is_result b \<longleftrightarrow> string_of (jget b ''type'') = Some ''tool_result''"

lemma is_result_type: "is_result b \<longleftrightarrow> jget b ''type'' = Some (AStr ''tool_result'')"
  by (simp add: is_result_def string_of_Some)

lemma member_depth: "jget b k = Some v \<Longrightarrow> result_depth v \<le> block_depth b"
proof (cases b)
  case (Some fs)
  assume "jget b k = Some v"
  with Some have "(k, v) \<in> set fs" by (auto simp: jget_def dest: map_of_SomeD)
  then have "result_depth v \<le> max_of (map (\<lambda>(k, v). result_depth v) fs)"
    by (intro max_of_ge) force
  with Some show ?thesis by (simp add: block_depth_def of_map_def)
qed simp

lemma result_member_depth: "jget b k = Some v \<Longrightarrow> is_result b \<Longrightarrow> result_depth v < block_depth b"
proof (cases b)
  case (Some fs)
  assume a: "jget b k = Some v" "is_result b"
  with Some have "(k, v) \<in> set fs" by (auto simp: jget_def dest: map_of_SomeD)
  then have "result_depth v \<le> max_of (map (\<lambda>(k, v). result_depth v) fs)"
    by (intro max_of_ge) force
  with Some a show ?thesis by (simp add: block_depth_def of_map_def is_result_type jget_def)
qed simp

lemma length_le_size: "length xs \<le> size_list f xs"
  by (induction xs) auto

lemma maps_depth:
  assumes "maps_of (Some v) = Some bs"
  shows "max_of (map block_depth bs) \<le> result_depth v" "length bs \<le> size v"
proof -
  from assms consider "bs = []" | "v = AList (map of_map bs)"
    by (auto simp: maps_of_def map_values_Some split: jany.splits if_splits)
  then show "max_of (map block_depth bs) \<le> result_depth v"
    by cases (simp_all add: block_depth_def [abs_def] comp_def)
  from assms consider "bs = []" | "v = AList (map of_map bs)"
    by (auto simp: maps_of_def map_values_Some split: jany.splits if_splits)
  then show "length bs \<le> size v"
    using length_le_size [of "map of_map bs"] by cases (simp_all add: le_SucI)
qed

lemma maps_depth_size:
  "maps_of (Some v) = Some bs \<Longrightarrow> max_of (map block_depth bs) \<le> result_depth v \<and> length bs \<le> size v"
  by (simp add: maps_depth)

lemma text_set_depth: "block_depth (jset ''text'' (AStr t) b) \<le> block_depth b"
proof (cases b)
  case (Some fs)
  have "map_of (AList.update ''text'' (AStr t) fs) ''type'' = map_of fs ''type''" by (simp add: update_conv')
  with Some max_of_update [of result_depth "''text''" "AStr t" fs] show ?thesis
    by (simp add: block_depth_def of_map_def jset_def)
qed (simp add: jset_def)

lemma mark_first_depth:
  "mark_first_text field bs = Inr (Some bs') \<Longrightarrow> max_of (map block_depth bs') \<le> max_of (map block_depth bs)"
proof (induction bs arbitrary: bs')
  case (Cons b bs)
  then show ?case using text_set_depth [of _ b]
    by (auto split: if_splits option.splits sum.splits simp: le_max_iff_disj)
qed simp

lemma of_maps_depth: "result_depth (of_maps bs) = max_of (map block_depth bs)"
  by (simp add: of_maps_def block_depth_def [abs_def] comp_def)

lemma mark_content_depth:
  "mark_tool_error_content field raw = Inr v \<Longrightarrow>
   result_depth v \<le> (case raw of None \<Rightarrow> 0 | Some w \<Rightarrow> result_depth w)"
proof -
  assume a: "mark_tool_error_content field raw = Inr v"
  show ?thesis
  proof (cases "\<exists>s. v = AStr s")
    case False
    with a obtain w bs where w: "raw = Some w" "maps_of raw = Some bs"
      "v = of_maps (marker_block # bs) \<or> (\<exists>bs'. mark_first_text field bs = Inr (Some bs') \<and> v = of_maps bs')"
      by (auto simp: mark_tool_error_content_def present_def split: if_splits option.splits jany.splits sum.splits)
    have m: "block_depth marker_block = 0"
      by (simp add: block_depth_def marker_block_def of_map_def)
    from w(1,2) have "max_of (map block_depth bs) \<le> result_depth w" by (simp add: maps_depth)
    with w m mark_first_depth [of field bs] show ?thesis by (fastforce simp: of_maps_depth)
  qed auto
qed

lemma mark_result_nested:
  assumes "mark_result field i b = Inr (b', ch)" "is_result b" "jget b' ''content'' = Some v"
  shows "result_depth v < block_depth b"
proof (cases "jget b ''is_error''")
  case (Some flag)
  have ne: "b \<noteq> None" using assms(2) by (auto simp: is_result_type dest: jget_Some)
  obtain r where r: "mark_tool_error_content (place field i @ ''.content'') (jget b ''content'') = r" by simp
  from assms(1) Some consider (same) "jget b' ''content'' = jget b ''content''"
    | (marked) w where "mark_tool_error_content (place field i @ ''.content'') (jget b ''content'') = Inr w"
        "b' = jdel ''is_error'' (jset ''content'' w b)"
    unfolding mark_result_def r
    by (cases r) (auto simp: jget_jdel split: option.splits if_splits)
  then show ?thesis
  proof cases
    case same
    with assms(2,3) show ?thesis by (simp add: result_member_depth)
  next
    case (marked w)
    then have "v = w" using assms(3) ne by (simp add: jget_jdel jget_jset)
    with mark_content_depth [OF marked(1)] result_member_depth [of b "''content''"] assms(2) ne
    show ?thesis by (cases "jget b ''content''")
      (fastforce simp: block_depth_def of_map_def is_result_type jget_def split: option.splits)+
  qed
qed (use assms in \<open>simp add: mark_result_def result_member_depth\<close>)

text \<open>Null or a string has no blocks.\<close>

definition plain_content :: "jany \<Rightarrow> bool" where
  "plain_content v \<longleftrightarrow> v = json_null \<or> (case v of AStr s \<Rightarrow> True | _ \<Rightarrow> False)"

function (sequential) rewrite_value ::
  "rewrite_env \<Rightarrow> string \<Rightarrow> bool \<Rightarrow> jany \<Rightarrow> string set \<Rightarrow> go_error + jany option \<times> string set"
and rewrite_blocks ::
  "rewrite_env \<Rightarrow> string \<Rightarrow> nat \<Rightarrow> bool \<Rightarrow> jmap list \<Rightarrow> string set \<Rightarrow>
   go_error + jmap list \<times> bool \<times> string set" where
  "rewrite_value env field in_result v refs =
     (if plain_content v then Inr (None, refs)
      else case maps_of (Some v) of
        None \<Rightarrow> Inl (bad_request (''deepseek '' @ field @ '' must be a string or content-block array''))
      | Some blocks \<Rightarrow>
          (case rewrite_blocks env field 0 in_result blocks refs of
             Inl e \<Rightarrow> Inl e
           | Inr (blocks', changed, refs') \<Rightarrow> Inr (if changed then Some (of_maps blocks') else None, refs')))"
| "rewrite_blocks env field i in_result [] refs = Inr ([], False, refs)"
| "rewrite_blocks env field i in_result (b # bs) refs =
     (case (if is_result b then
              (case mark_result field i b of
                 Inl e \<Rightarrow> Inl e
               | Inr (b1, changed) \<Rightarrow>
                   (case jget b1 ''content'' of
                      None \<Rightarrow> Inr (b1, changed, refs)
                    | Some nested \<Rightarrow>
                        (case rewrite_value env (place field i @ ''.content'') True nested refs of
                           Inl e \<Rightarrow> Inl e
                         | Inr (None, refs') \<Rightarrow> Inr (b1, changed, refs')
                         | Inr (Some v, refs') \<Rightarrow> Inr (jset ''content'' v b1, True, refs'))))
            else plain_block env field i in_result b refs) of
        Inl e \<Rightarrow> Inl e
      | Inr (b', changed, refs') \<Rightarrow>
          (case rewrite_blocks env field (i + 1) in_result bs refs' of
             Inl e \<Rightarrow> Inl e
           | Inr (bs', changed', refs'') \<Rightarrow> Inr (b' # bs', changed \<or> changed', refs'')))"
  by pat_completeness auto
termination
proof (relation "measures [\<lambda>x. case x of Inl (env, f, r, v, refs) \<Rightarrow> result_depth v
                                       | Inr (env, f, i, r, bs, refs) \<Rightarrow> max_of (map block_depth bs),
                           \<lambda>x. case x of Inl (env, f, r, v, refs) \<Rightarrow> Suc (size v)
                                       | Inr (env, f, i, r, bs, refs) \<Rightarrow> length bs]", goal_cases)
  case 3
  then show ?case by (auto dest: mark_result_nested)
next
  case 4
  have "(a :: nat) < max d a \<or> a = max d a" for a d by (auto simp: max_def)
  then show ?case by simp
qed (auto simp del: result_depth.simps dest!: maps_depth_size)

section \<open>Tools\<close>

text \<open>\<^verbatim>\<open>toolschema.Rewrite\<close> on a raw schema, which may be missing.\<close>

definition rewrite_schema :: "(string \<Rightarrow> bool) \<Rightarrow> jany option \<Rightarrow> jany option \<times> rewrite_result" where
  "rewrite_schema parse v =
     (case v of
        Some (AObj fs) \<Rightarrow>
          (case rewrite_node parse deepseek_dialect [] (AObj fs) of (v', res) \<Rightarrow>
             if result_empty res then (v, res)
             else (Some v', \<lparr>rs_rewritten = sort (rs_rewritten res), rs_dropped = sort (rs_dropped res)\<rparr>))
      | _ \<Rightarrow> (v, empty_result))"

text \<open>One tool: its new form, whether it changed, and the report.\<close>

definition rewrite_tool ::
  "(string \<Rightarrow> bool) \<Rightarrow> string set \<Rightarrow> jmap \<Rightarrow> rewrite_result \<Rightarrow> jmap \<times> bool \<times> rewrite_result" where
  "rewrite_tool parse referenced tool report =
     (case string_of (jget tool ''name'') of
        None \<Rightarrow> (tool, False, report)
      | Some name \<Rightarrow>
          let undefer = name \<in> referenced \<and> jget tool ''defer_loading'' \<noteq> None;
              tool = (if undefer then jdel ''defer_loading'' tool else tool)
          in case rewrite_schema parse (jget tool ''input_schema'') of (schema, res) \<Rightarrow>
               if result_empty res then (tool, undefer, report)
               else (jset ''input_schema'' (the schema) tool, True, report_add name res report))"

fun rewrite_tool_list ::
  "(string \<Rightarrow> bool) \<Rightarrow> string set \<Rightarrow> jmap list \<Rightarrow> rewrite_result \<Rightarrow> jmap list \<times> bool \<times> rewrite_result" where
  "rewrite_tool_list parse referenced [] report = ([], False, report)"
| "rewrite_tool_list parse referenced (t # ts) report =
     (case rewrite_tool parse referenced t report of (t', changed, report') \<Rightarrow>
        case rewrite_tool_list parse referenced ts report' of (ts', changed', report'') \<Rightarrow>
          (t' # ts', changed \<or> changed', report''))"

definition rewrite_tools ::
  "(string \<Rightarrow> bool) \<Rightarrow> string set \<Rightarrow> jany option \<Rightarrow> rewrite_result \<Rightarrow>
   go_error + jany option \<times> rewrite_result" where
  "rewrite_tools parse referenced raw report =
     (case maps_of raw of
        None \<Rightarrow> Inl (bad_request ''deepseek tools must be an array'')
      | Some tools \<Rightarrow>
          (case rewrite_tool_list parse referenced tools report of (tools', changed, report') \<Rightarrow>
             Inr (if changed then Some (of_maps tools') else None, report')))"

definition declared_schema :: "jmap \<Rightarrow> string option" where
  "declared_schema tool =
     (case string_of (jget tool ''name'') of
        None \<Rightarrow> None
      | Some name \<Rightarrow>
          if trim_space name = [] then None
          else (case map_of_raw (jget tool ''input_schema'') of Some (Some fs) \<Rightarrow> Some name | _ \<Rightarrow> None))"

definition declared_schemas :: "jany option \<Rightarrow> string set" where
  "declared_schemas raw =
     (if \<not> present raw then {}
      else case maps_of raw of
        None \<Rightarrow> {}
      | Some tools \<Rightarrow> set (List.map_filter declared_schema tools))"

section \<open>The request\<close>

text \<open>The loop over the messages.\<close>

fun rewrite_messages ::
  "rewrite_env \<Rightarrow> nat \<Rightarrow> jmap list \<Rightarrow> string set \<Rightarrow> go_error + jmap list \<times> bool \<times> string set" where
  "rewrite_messages env i [] refs = Inr ([], False, refs)"
| "rewrite_messages env i (m # ms) refs =
     (case (case jget m ''content'' of
              None \<Rightarrow> Inr (None, refs)
            | Some c \<Rightarrow> rewrite_value env (content_place i) False c refs) of
        Inl e \<Rightarrow> Inl e
      | Inr (c', refs') \<Rightarrow>
          (case rewrite_messages env (i + 1) ms refs' of
             Inl e \<Rightarrow> Inl e
           | Inr (ms', changed, refs'') \<Rightarrow>
               (case c' of
                  None \<Rightarrow> Inr (m # ms', changed, refs'')
                | Some v \<Rightarrow> Inr (jset ''content'' v m # ms', True, refs''))))"

definition put :: "string \<Rightarrow> jany option \<Rightarrow> (string \<times> jany) list \<Rightarrow> (string \<times> jany) list" where
  "put k v obj = (case v of None \<Rightarrow> obj | Some v \<Rightarrow> AList.update k v obj)"

definition rewrite_system ::
  "rewrite_env \<Rightarrow> (string \<times> jany) list \<Rightarrow> go_error + (string \<times> jany) list \<times> string set" where
  "rewrite_system env obj =
     (case map_of obj ''system'' of
        None \<Rightarrow> Inr (obj, {})
      | Some v \<Rightarrow>
          (case rewrite_value env ''system'' False v {} of
             Inl e \<Rightarrow> Inl e
           | Inr (v', refs) \<Rightarrow> Inr (put ''system'' v' obj, refs)))"

definition rewrite_history ::
  "rewrite_env \<Rightarrow> (string \<times> jany) list \<Rightarrow> string set \<Rightarrow> go_error + (string \<times> jany) list \<times> string set" where
  "rewrite_history env obj refs =
     (case map_of obj ''messages'' of
        None \<Rightarrow> Inr (obj, refs)
      | Some v \<Rightarrow>
          (case maps_of (Some v) of
             None \<Rightarrow> Inl (bad_request ''deepseek messages must be an array'')
           | Some ms \<Rightarrow>
               (case rewrite_messages env 0 ms refs of
                  Inl e \<Rightarrow> Inl e
                | Inr (ms', changed, refs') \<Rightarrow>
                    Inr (if changed then AList.update ''messages'' (of_maps ms') obj else obj, refs'))))"

definition rewrite_content ::
  "(string \<Rightarrow> bool) \<Rightarrow> (string \<Rightarrow> string) \<Rightarrow> string \<Rightarrow> string list \<Rightarrow> (string \<times> jany) list \<Rightarrow>
   go_error + (string \<times> jany) list \<times> rewrite_result" where
  "rewrite_content parse q model removed obj =
     (let env = \<lparr>re_canonical = model,
                 re_schemas = declared_schemas (map_of obj ''tools'') \<union> set removed, re_quote = q\<rparr> in
      case rewrite_system env obj of
        Inl e \<Rightarrow> Inl e
      | Inr (obj1, refs1) \<Rightarrow>
          (case rewrite_history env obj1 refs1 of
             Inl e \<Rightarrow> Inl e
           | Inr (obj2, refs2) \<Rightarrow>
               if \<not> present (map_of obj2 ''tools'') then Inr (obj2, empty_result)
               else (case rewrite_tools parse refs2 (map_of obj2 ''tools'') empty_result of
                       Inl e \<Rightarrow> Inl e
                     | Inr (ts, report) \<Rightarrow> Inr (put ''tools'' ts obj2, report))))"

record rewrite_report =
  rp_patterns :: rewrite_result
  rp_effort :: string
  rp_hoisted :: "string list"
  rp_removed :: "string list"

text \<open>
  What the request rewriter uses of libraries: the parser of a body and its printer, the
  parser of a regular expression, and the quoting of strings outside ASCII.
\<close>

record json_env =
  je_parse :: "string \<Rightarrow> jany option"
  je_print :: "jany \<Rightarrow> string"
  je_regex :: "string \<Rightarrow> bool"
  je_quote :: "string \<Rightarrow> string"
  je_error :: "string \<Rightarrow> go_error"         \<comment> \<open>why a text does not decode\<close>

definition body_object :: "json_env \<Rightarrow> string \<Rightarrow> (string \<times> jany) list option" where
  "body_object je raw = (case je_parse je raw of Some (AObj fs) \<Rightarrow> Some fs | _ \<Rightarrow> None)"

definition rewrite_object ::
  "json_env \<Rightarrow> string \<Rightarrow> level \<Rightarrow> (string \<times> jany) list \<Rightarrow>
   go_error + (string \<times> jany) list \<times> rewrite_report" where
  "rewrite_object je model requested obj =
     (case reject_unsupported (je_print je) (je_quote je) obj of
        Some e \<Rightarrow> Inl e
      | None \<Rightarrow>
          (case hoist_tool_changes (je_print je) (je_quote je) obj of
             Inl e \<Rightarrow> Inl e
           | Inr (obj1, hoisted, removed) \<Rightarrow>
               (case rewrite_content (je_regex je) (je_quote je) model removed obj1 of
                  Inl e \<Rightarrow> Inl e
                | Inr (obj2, patterns) \<Rightarrow>
                    (case rewrite_effort requested obj2 of
                       Inl e \<Rightarrow> Inl e
                     | Inr (applied, obj3) \<Rightarrow>
                         Inr (AList.update ''model'' (AStr model) obj3,
                              \<lparr>rp_patterns = patterns, rp_effort = applied, rp_hoisted = hoisted,
                               rp_removed = removed\<rparr>)))))"

definition rewrite_request ::
  "json_env \<Rightarrow> string \<Rightarrow> string \<Rightarrow> level \<Rightarrow> go_error + string \<times> rewrite_report" where
  "rewrite_request je raw model requested =
     (case body_object je raw of
        None \<Rightarrow> Inl (bad_request ''deepseek request body must be a JSON object'')
      | Some obj \<Rightarrow>
          (case rewrite_object je model requested obj of
             Inl e \<Rightarrow> Inl e
           | Inr (obj', report) \<Rightarrow> Inr (je_print je (AObj obj'), report)))"

section \<open>The response\<close>

definition response_model :: "(string \<Rightarrow> string) \<Rightarrow> jany option \<Rightarrow> string \<Rightarrow> go_error + string" where
  "response_model q raw requested =
     (case (if present raw then string_of raw else Some []) of
        None \<Rightarrow> Inl (PlainError ''response model is not a string'')
      | Some served \<Rightarrow>
          (case canonical served of
             None \<Rightarrow> Inr requested
           | Some c \<Rightarrow>
               if c \<noteq> requested
               then Inl (PlainError (''deepseek served model '' @ go_quote q served @
                      '' contradicts requested model '' @ go_quote q requested))
               else Inr c))"

text \<open>A body that must be an object: null is not an error of the decoder.\<close>

definition response_object :: "json_env \<Rightarrow> string \<Rightarrow> go_error + (string \<times> jany) list" where
  "response_object je raw =
     (case je_parse je raw of
        None \<Rightarrow> Inl (je_error je raw)
      | Some v \<Rightarrow>
          (case map_value v of
             None \<Rightarrow> Inl (je_error je raw)
           | Some None \<Rightarrow> Inl (PlainError ''response is not a JSON object'')
           | Some (Some fs) \<Rightarrow> Inr fs))"

definition rewrite_message_response :: "json_env \<Rightarrow> string \<Rightarrow> string \<Rightarrow> go_error + string" where
  "rewrite_message_response je raw requested =
     (case response_object je raw of
        Inl e \<Rightarrow> Inl e
      | Inr obj \<Rightarrow>
          (case response_model (je_quote je) (map_of obj ''model'') requested of
             Inl e \<Rightarrow> Inl e
           | Inr name \<Rightarrow> Inr (je_print je (AObj (AList.update ''model'' (AStr name) obj)))))"

section \<open>A frame of the response stream\<close>

definition EventMessageStart :: string where "EventMessageStart = ''message_start''"
definition EventMessageStop :: string where "EventMessageStop = ''message_stop''"
definition StreamEventError :: string where "StreamEventError = ''error''"

definition is_core_stream_event :: "string \<Rightarrow> bool" where
  "is_core_stream_event ev \<longleftrightarrow> ev = EventMessageStart \<or> ev = EventMessageStop \<or> ev = StreamEventError"

definition error_body_member :: "string \<times> string \<Rightarrow> string \<Rightarrow> jany \<Rightarrow> (string \<times> string) option" where
  "error_body_member b k v =
     (if names_field ''type'' k then map_option (\<lambda>s. (s, snd b)) (into_string (fst b) v)
      else if names_field ''message'' k then map_option (\<lambda>s. (fst b, s)) (into_string (snd b) v)
      else Some b)"

text \<open>The error event: its type, and the type and the message of its error.\<close>

definition error_event_member ::
  "string \<times> string \<times> string \<Rightarrow> string \<Rightarrow> jany \<Rightarrow> (string \<times> string \<times> string) option" where
  "error_event_member e k v =
     (if names_field ''type'' k then map_option (\<lambda>s. (s, snd e)) (into_string (fst e) v)
      else if names_field ''error'' k
      then map_option (\<lambda>b. (fst e, b)) (struct_value error_body_member (snd e) v)
      else Some e)"

definition valid_error_event :: "jany \<Rightarrow> bool" where
  "valid_error_event v =
     (case struct_value error_event_member ([], [], []) v of
        None \<Rightarrow> False
      | Some (_, ty, msg) \<Rightarrow> ty \<noteq> [] \<and> msg \<noteq> [])"

definition rewrite_message_start :: "json_env \<Rightarrow> string \<Rightarrow> string \<Rightarrow> go_error + string" where
  "rewrite_message_start je data requested =
     (case response_object je data of
        Inl e \<Rightarrow> Inl e
      | Inr obj \<Rightarrow>
          (case map_of_raw (map_of obj ''message'') of
             Some (Some msg) \<Rightarrow>
               (case response_model (je_quote je) (map_of msg ''model'') requested of
                  Inl e \<Rightarrow> Inl e
                | Inr name \<Rightarrow>
                    Inr (je_print je (AObj (AList.update ''message''
                           (AObj (AList.update ''model'' (AStr name) msg)) obj))))
           | _ \<Rightarrow> Inl (PlainError ''message_start has no message object'')))"

text \<open>The data to send and the type of the event.\<close>

definition rewrite_stream_frame :: "json_env \<Rightarrow> frame \<Rightarrow> string \<Rightarrow> go_error + string \<times> string" where
  "rewrite_stream_frame je f requested =
     (case (case je_parse je (fr_data f) of None \<Rightarrow> None | Some v \<Rightarrow> map_option (Pair v) (struct_value type_member [] v)) of
        None \<Rightarrow> if is_core_stream_event (fr_event f) then Inl (je_error je (fr_data f)) else Inr (fr_data f, fr_event f)
      | Some (v, ty) \<Rightarrow>
          let event_type = (if fr_event f \<noteq> [] then fr_event f else ty) in
          if (is_core_stream_event (fr_event f) \<or> is_core_stream_event ty) \<and> fr_event f \<noteq> [] \<and> fr_event f \<noteq> ty
          then Inl (PlainError (''SSE event '' @ go_quote (je_quote je) (fr_event f) @ '' contains payload type '' @
                      go_quote (je_quote je) ty))
          else if event_type = EventMessageStop then Inr (fr_data f, event_type)
          else if event_type = StreamEventError then
            (if valid_error_event v then Inr (fr_data f, event_type)
             else Inl (PlainError ''error event has no valid error object''))
          else if event_type \<noteq> EventMessageStart then Inr (fr_data f, event_type)
          else map_sum id (\<lambda>data. (data, event_type)) (rewrite_message_start je (fr_data f) requested))"

end
