(* ===== verification/DeepProps.thy ===== *)
theory DeepProps
  imports DeepRewrite
begin

text \<open>
  The theorems on the DeepSeek rewrite: content is brought to a form that the rewrite leaves
  alone, a failed tool call stays visible, and the request that is sent would itself be
  accepted and names the model and the effort that were resolved.
\<close>

section \<open>A fixed point\<close>

text \<open>An unchanged block is the block itself.\<close>

lemma plain_block_same: "plain_block env field i r b refs = Inr (b', False, refs') \<Longrightarrow> b' = b"
  by (auto simp: plain_block_def reference_block_def split: option.splits if_splits)

lemma mark_result_same: "mark_result field i b = Inr (b', False) \<Longrightarrow> b' = b"
  by (auto simp: mark_result_def split: option.splits if_splits sum.splits)

lemma mark_result_cleared: "mark_result field i b = Inr (b', ch) \<Longrightarrow> jget b' ''is_error'' = None"
  by (auto simp: mark_result_def jget_jdel split: option.splits if_splits sum.splits)

lemma mark_result_done: "jget b ''is_error'' = None \<Longrightarrow> mark_result field i b = Inr (b, False)"
  by (simp add: mark_result_def)

lemma mark_result_cases:
  assumes "mark_result field i b = Inr (b', ch)"
  obtains (kept) "b' = b" | (cleared) "b' = jdel ''is_error'' b"
    | (marked) w where "b' = jdel ''is_error'' (jset ''content'' w b)"
proof (cases "jget b ''is_error''")
  case (Some flag)
  obtain r where r: "mark_tool_error_content (place field i @ ''.content'') (jget b ''content'') = r" by simp
  from assms Some that show ?thesis
    unfolding mark_result_def r by (cases r) (auto split: option.splits if_splits)
qed (use assms that in \<open>simp add: mark_result_def\<close>)

lemma mark_result_type:
  assumes "mark_result field i b = Inr (b', ch)" "is_result b"
  shows "is_result b'"
  using assms(1)
proof (cases rule: mark_result_cases)
  case (marked w)
  with assms(2) show ?thesis by (cases b) (simp_all add: is_result_type jget_jdel jset_def)
qed (use assms(2) in \<open>simp_all add: is_result_type jget_jdel\<close>)

text \<open>What the rewrite of one block gives is left alone by a second one.\<close>

definition settled :: "rewrite_env \<Rightarrow> bool \<Rightarrow> jany \<Rightarrow> bool" where
  "settled env r v \<longleftrightarrow> (\<forall>field refs. rewrite_value env field r v refs = Inr (None, refs))"

definition settled_blocks :: "rewrite_env \<Rightarrow> bool \<Rightarrow> jmap list \<Rightarrow> bool" where
  "settled_blocks env r bs \<longleftrightarrow>
     (\<forall>field i refs. rewrite_blocks env field i r bs refs = Inr (bs, False, refs))"

lemma plain_block_settled:
  assumes "plain_block env field i r b refs = Inr (b', ch, refs')" "\<not> is_result b"
  shows "\<not> is_result b' \<and> plain_block env field' j r b' refs0 = Inr (b', False, refs0)"
proof (cases "string_of (jget b ''type'') = Some ''tool_reference''")
  case True
  with assms(1) obtain t where "b' = Some [(''type'', AStr ''text''), (''text'', AStr t)]"
    by (auto simp: plain_block_def reference_block_def split: option.splits if_splits)
  then show ?thesis
    by (simp add: plain_block_def refused_block_def jget_def string_of_def into_string_def present_def
        is_result_def)
next
  case False
  with assms show ?thesis
    by (auto simp: plain_block_def split: option.splits if_splits)
qed

lemma settled_Cons:
  assumes "settled_blocks env r bs"
    and "is_result b \<Longrightarrow> jget b ''is_error'' = None \<and> (\<forall>v. jget b ''content'' = Some v \<longrightarrow> settled env True v)"
    and "\<not> is_result b \<Longrightarrow> \<forall>field i refs. plain_block env field i r b refs = Inr (b, False, refs)"
  shows "settled_blocks env r (b # bs)"
  using assms by (auto simp: settled_blocks_def settled_def mark_result_done split: option.split)

lemma settled_maps: "settled_blocks env r bs \<Longrightarrow> settled env r (of_maps bs)"
  by (simp add: settled_def settled_blocks_def)

text \<open>One step of the loop over the blocks.\<close>

definition rewrite_block ::
  "rewrite_env \<Rightarrow> string \<Rightarrow> nat \<Rightarrow> bool \<Rightarrow> jmap \<Rightarrow> string set \<Rightarrow> go_error + jmap \<times> bool \<times> string set" where
  "rewrite_block env field i r b refs =
     (if is_result b then
        (case mark_result field i b of
           Inl e \<Rightarrow> Inl e
         | Inr (b1, changed) \<Rightarrow>
             (case jget b1 ''content'' of
                None \<Rightarrow> Inr (b1, changed, refs)
              | Some nested \<Rightarrow>
                  (case rewrite_value env (place field i @ ''.content'') True nested refs of
                     Inl e \<Rightarrow> Inl e
                   | Inr (None, refs') \<Rightarrow> Inr (b1, changed, refs')
                   | Inr (Some v, refs') \<Rightarrow> Inr (jset ''content'' v b1, True, refs'))))
      else plain_block env field i r b refs)"

lemma rewrite_blocks_ConsE:
  assumes "rewrite_blocks env field i r (b # bs) refs = Inr (bs', ch, refs')"
  obtains b2 ch2 refs2 bs2 ch3 where "rewrite_block env field i r b refs = Inr (b2, ch2, refs2)"
    "rewrite_blocks env field (i + 1) r bs refs2 = Inr (bs2, ch3, refs')" "bs' = b2 # bs2" "ch = (ch2 \<or> ch3)"
proof -
  have eq: "rewrite_blocks env field i r (b # bs) refs =
      (case rewrite_block env field i r b refs of
        Inl e \<Rightarrow> Inl e
      | Inr (b', changed, refs') \<Rightarrow>
          (case rewrite_blocks env field (i + 1) r bs refs' of
             Inl e \<Rightarrow> Inl e
           | Inr (bs', changed', refs'') \<Rightarrow> Inr (b' # bs', changed \<or> changed', refs'')))"
    by (simp add: rewrite_block_def)
  from assms [unfolded eq] obtain b2 c2 r2 where h: "rewrite_block env field i r b refs = Inr (b2, c2, r2)"
    by (cases "rewrite_block env field i r b refs") auto
  from assms [unfolded eq h] obtain bs2 c3 r3 where q: "rewrite_blocks env field (i + 1) r bs r2 = Inr (bs2, c3, r3)"
    by (cases "rewrite_blocks env field (i + 1) r bs r2") auto
  from assms [unfolded eq h] q have "bs' = b2 # bs2" "ch = (c2 \<or> c3)" "refs' = r3" by simp_all
  with that h q show thesis by blast
qed

lemma rewrite_settles:
  "rewrite_value env field r v refs = Inr (v', refs') \<Longrightarrow>
   settled env r (case v' of None \<Rightarrow> v | Some w \<Rightarrow> w)"
  "rewrite_blocks env field i r bs refs = Inr (bs', ch, refs') \<Longrightarrow>
   settled_blocks env r bs' \<and> (\<not> ch \<longrightarrow> bs' = bs)"
proof (induction env field r v refs and env field i r bs refs
       arbitrary: v' refs' and bs' ch refs' rule: rewrite_value_rewrite_blocks.induct)
  case (1 env field r v refs)
  show ?case
  proof (cases "plain_content v")
    case True
    with 1(2) show ?thesis by (simp add: settled_def)
  next
    case False
    with 1(2) obtain bs bs' ch where b: "maps_of (Some v) = Some bs"
      "rewrite_blocks env field 0 r bs refs = Inr (bs', ch, refs')" "v' = (if ch then Some (of_maps bs') else None)"
      by (auto split: option.splits sum.splits)
    from 1(1) [OF False b(1) b(2)] b(1,3) False show ?thesis
      by (auto intro: settled_maps) (simp add: settled_def settled_blocks_def)
  qed
next
  case (3 env field i r b bs refs)
  from 3(3) obtain b2 ch2 refs2 bs2 ch3 where head: "rewrite_block env field i r b refs = Inr (b2, ch2, refs2)"
    and rest: "rewrite_blocks env field (i + 1) r bs refs2 = Inr (bs2, ch3, refs')"
    and bs': "bs' = b2 # bs2" "ch = (ch2 \<or> ch3)"
    by (rule rewrite_blocks_ConsE)
  from 3(2) [OF head [unfolded rewrite_block_def] refl refl rest] have tail: "settled_blocks env r bs2" "\<not> ch3 \<longrightarrow> bs2 = bs" by auto
  show ?case
  proof (cases "is_result b")
    case False
    with head have "plain_block env field i r b refs = Inr (b2, ch2, refs2)" by (simp add: rewrite_block_def)
    from plain_block_settled [OF this False] plain_block_same [of env field i r b refs b2 refs2] this tail
    show ?thesis unfolding bs' by (auto intro!: settled_Cons)
  next
    case True
    from head True obtain b1 ch1 where m: "mark_result field i b = Inr (b1, ch1)"
      by (auto simp: rewrite_block_def split: sum.splits)
    note m1 = mark_result_cleared [OF m] mark_result_type [OF m True]
    have ne: "b1 \<noteq> None" using m1(2) by (auto simp: is_result_type dest: jget_Some)
    show ?thesis
    proof (cases "jget b1 ''content''")
      case None
      with head True m have "b2 = b1" "ch2 = ch1" by (auto simp: rewrite_block_def)
      with m1 None tail mark_result_same [of field i b b1] m show ?thesis
        unfolding bs' by (auto intro!: settled_Cons)
    next
      case (Some c)
      with head True m obtain w where w: "rewrite_value env (place field i @ ''.content'') True c refs = Inr (w, refs2)"
        "case w of None \<Rightarrow> b2 = b1 \<and> ch2 = ch1 | Some x \<Rightarrow> b2 = jset ''content'' x b1 \<and> ch2"
        by (auto simp: rewrite_block_def split: sum.splits option.splits)
      from 3(1) [OF True m refl Some w(1)] have "settled env True (case w of None \<Rightarrow> c | Some x \<Rightarrow> x)" .
      with w(2) m1 Some ne tail mark_result_same [of field i b b1] m show ?thesis
        unfolding bs' by (auto intro!: settled_Cons simp: is_result_type jget_jset split: option.splits)
    qed
  qed
qed (simp add: settled_blocks_def)

section \<open>A request that is rewritten\<close>

text \<open>A failed tool call with a nested text, in the history of a small request.\<close>

definition demo_failed :: jmap where
  "demo_failed = Some [(''type'', AStr ''tool_result''), (''content'', AStr ''x''), (''is_error'', json_bool True)]"

definition demo_settled :: jmap where
  "demo_settled = Some [(''type'', AStr ''tool_result''), (''content'', AStr (ds_mark_tool_error ''x''))]"

definition demo_rewriter :: rewrite_env where
  "demo_rewriter = \<lparr>re_canonical = ''m'', re_schemas = {}, re_quote = id\<rparr>"

lemma demo_blocks_run:
  "rewrite_blocks demo_rewriter f 0 False [demo_failed] {} = Inr ([demo_settled], True, {})"
  by (simp add: demo_failed_def demo_settled_def is_result_def jget_def string_of_def into_string_def
      mark_result_def present_def json_bool_def json_null_def into_bool_def mark_tool_error_content_def
      jdel_def jset_def plain_content_def)

lemma demo_value_run:
  "rewrite_value demo_rewriter f False (of_maps [demo_failed]) {} = Inr (Some (of_maps [demo_settled]), {})"
proof -
  have "\<not> plain_content (of_maps [demo_failed])"
    by (simp add: plain_content_def of_maps_def json_null_def)
  then show ?thesis by (subst rewrite_value.simps) (simp add: demo_blocks_run del: rewrite_value.simps rewrite_blocks.simps)
qed

text \<open>
  The rewrite of message content is idempotent. When it succeeds, a second rewrite of
  its result changes nothing and discovers no tool: no error flag and no tool reference is
  left at any depth of nested results, and no text grows a second marker.
\<close>

theorem content_rewrite_idempotent:
  "rewrite_value env field r v refs = Inr (v', refs') \<Longrightarrow>
   rewrite_value env field' r (case v' of None \<Rightarrow> v | Some w \<Rightarrow> w) refs0 = Inr (None, refs0)"
  using rewrite_settles(1) by (simp add: settled_def)

lemma content_rewrite_idempotent_witness:
  "rewrite_value demo_rewriter ''messages'' False (of_maps [demo_settled]) {} = Inr (None, {})"
  using content_rewrite_idempotent [OF demo_value_run [of "''messages''"], of "''messages''" "{}"]
  by (simp del: rewrite_value.simps)

section \<open>Failed tool calls\<close>

definition failed_result :: "jmap \<Rightarrow> bool" where
  "failed_result b \<longleftrightarrow> is_result b \<and> jget b ''is_error'' = Some (json_bool True)"

definition marked_text :: "jmap \<Rightarrow> bool" where
  "marked_text b \<longleftrightarrow>
     jget b ''type'' = Some (AStr ''text'') \<and>
     (case jget b ''text'' of Some (AStr t) \<Rightarrow> prefix ds_tool_error_marker t | _ \<Rightarrow> False)"

definition marked :: "jany \<Rightarrow> bool" where
  "marked c \<longleftrightarrow>
     (case c of
        AStr s \<Rightarrow> prefix ds_tool_error_marker s
      | AList vs \<Rightarrow> (case map_values vs of None \<Rightarrow> False | Some bs \<Rightarrow> list_ex marked_text bs)
      | _ \<Rightarrow> False)"

lemma marked_maps [simp]: "marked (of_maps bs) \<longleftrightarrow> list_ex marked_text bs"
  by (simp add: marked_def of_maps_def map_values_of_maps)

lemma mark_tool_error_prefix: "prefix ds_tool_error_marker (ds_mark_tool_error t)"
  by (auto simp: ds_mark_tool_error_def dest: append_prefixD)

lemma mark_first_marked: "mark_first_text field bs = Inr (Some bs') \<Longrightarrow> list_ex marked_text bs'"
proof (induction bs arbitrary: bs')
  case (Cons b bs)
  show ?case
  proof (cases "string_of (jget b ''type'') = Some ''text''")
    case True
    then have t: "jget b ''type'' = Some (AStr ''text'')" by (simp add: string_of_Some)
    with Cons.prems True obtain x where "bs' = jset ''text'' (AStr (ds_mark_tool_error x)) b # bs"
      by (auto split: option.splits)
    with t jget_Some [OF t] show ?thesis
      by (simp add: marked_text_def jget_jset mark_tool_error_prefix)
  qed (use Cons in \<open>auto split: sum.splits\<close>)
qed simp

lemma mark_content_marked: "mark_tool_error_content field raw = Inr v \<Longrightarrow> marked v"
  by (auto simp: mark_tool_error_content_def mark_tool_error_prefix marked_def [of "AStr _"]
        marked_text_def marker_block_def jget_def dest: mark_first_marked
      split: if_splits option.splits jany.splits sum.splits)

text \<open>A text block passes as it is, so a mark survives the rewrite of the result.\<close>

lemma rewrite_blocks_length:
  "rewrite_blocks env field i r bs refs = Inr (bs', ch, refs') \<Longrightarrow> length bs' = length bs"
proof (induction bs arbitrary: i refs bs' ch)
  case (Cons b bs)
  from Cons.prems show ?case by (rule rewrite_blocks_ConsE) (simp add: Cons.IH)
qed simp

lemma rewrite_blocks_text:
  "rewrite_blocks env field i r bs refs = Inr (bs', ch, refs') \<Longrightarrow> marked_text b \<Longrightarrow> b \<in> set bs \<Longrightarrow> b \<in> set bs'"
proof (induction bs arbitrary: i refs bs' ch)
  case (Cons a bs)
  from Cons.prems(1) obtain a' ch' refs2 bs2 ch2 where head: "rewrite_block env field i r a refs = Inr (a', ch', refs2)"
    and b: "rewrite_blocks env field (i + 1) r bs refs2 = Inr (bs2, ch2, refs')" "bs' = a' # bs2"
    by (rule rewrite_blocks_ConsE)
  have "a' = a" if "marked_text a"
  proof -
    from that have "string_of (jget a ''type'') = Some ''text''" "\<not> is_result a"
      by (simp_all add: marked_text_def string_of_Some is_result_type)
    with head show ?thesis by (auto simp: rewrite_block_def plain_block_def split: option.splits)
  qed
  with Cons.IH [OF b(1) Cons.prems(2)] Cons.prems(2,3) b(2) show ?case by auto
qed simp

lemma rewrite_value_marked:
  assumes "rewrite_value env field True c refs = Inr (w, refs')" "marked c"
  shows "marked (case w of None \<Rightarrow> c | Some x \<Rightarrow> x)"
proof (cases "w")
  case (Some x)
  with assms(1) obtain bs bs' where b: "maps_of (Some c) = Some bs" "\<not> plain_content c"
    "rewrite_blocks env field 0 True bs refs = Inr (bs', True, refs')" "x = of_maps bs'"
    by (auto split: if_splits option.splits sum.splits)
  from b(1,2) assms(2) have "list_ex marked_text bs"
    by (auto simp: marked_def maps_of_def plain_content_def split: jany.splits if_splits)
  then obtain t where "t \<in> set bs" "marked_text t" by (auto simp: list_ex_iff)
  with rewrite_blocks_text [OF b(3)] have "list_ex marked_text bs'" by (auto simp: list_ex_iff)
  with Some b(4) show ?thesis by simp
qed (use assms in simp)

text \<open>
  A failed tool call stays visible to the model. DeepSeek ignores the error flag, so
  for every result that carries it the rewritten block has no flag and its content, a
  string or some text block of it, starts with the marker; no block is lost.
\<close>

theorem failed_results_marked:
  assumes "rewrite_blocks env field i r bs refs = Inr (bs', ch, refs')" "k < length bs" "failed_result (bs ! k)"
  shows "length bs' = length bs \<and> is_result (bs' ! k) \<and> jget (bs' ! k) ''is_error'' = None \<and>
    (\<exists>c. jget (bs' ! k) ''content'' = Some c \<and> marked c)"
proof -
  have "is_result (bs' ! k) \<and> jget (bs' ! k) ''is_error'' = None \<and>
    (\<exists>c. jget (bs' ! k) ''content'' = Some c \<and> marked c)"
    using assms
  proof (induction bs arbitrary: i k refs bs' ch)
    case (Cons a bs)
    from Cons.prems(1) obtain a' ch' refs2 bs2 ch2 where head: "rewrite_block env field i r a refs = Inr (a', ch', refs2)"
      and b: "rewrite_blocks env field (i + 1) r bs refs2 = Inr (bs2, ch2, refs')" "bs' = a' # bs2"
      by (rule rewrite_blocks_ConsE)
    show ?case
    proof (cases k)
      case (Suc j)
      with Cons.IH [OF b(1), of j] Cons.prems(2,3) b(2) show ?thesis by simp
    next
      case 0
      with Cons.prems(3) have a: "is_result a" "jget a ''is_error'' = Some (json_bool True)"
        by (simp_all add: failed_result_def)
      from head a obtain b1 ch1 where m: "mark_result field i a = Inr (b1, ch1)"
        by (auto simp: rewrite_block_def split: sum.splits)
      have ne: "a \<noteq> None" using a by (auto dest: jget_Some)
      obtain v where v: "mark_tool_error_content (place field i @ ''.content'') (jget a ''content'') = Inr v"
        "b1 = jdel ''is_error'' (jset ''content'' v a)"
        using m a by (cases "mark_tool_error_content (place field i @ ''.content'') (jget a ''content'')")
          (auto simp: mark_result_def present_def into_bool_def json_bool_def json_null_def)
      have c: "jget b1 ''content'' = Some v" using v(2) ne by (simp add: jget_jdel jget_jset)
      with head a(1) m obtain w where w: "rewrite_value env (place field i @ ''.content'') True v refs = Inr (w, refs2)"
        "case w of None \<Rightarrow> a' = b1 | Some x \<Rightarrow> a' = jset ''content'' x b1"
        by (auto simp: rewrite_block_def split: sum.splits option.splits)
      have n1: "b1 \<noteq> None" using c by (auto dest: jget_Some)
      from rewrite_value_marked [OF w(1) mark_content_marked [OF v(1)]] w(2) c n1
        mark_result_cleared [OF m] mark_result_type [OF m a(1)]
      show ?thesis unfolding 0 b(2) nth_Cons_0
        by (cases w) (auto simp: jget_jset is_result_type)
    qed
  qed simp
  with rewrite_blocks_length [OF assms(1)] show ?thesis by simp
qed

lemma failed_results_marked_witness:
  "is_result demo_settled \<and> jget demo_settled ''is_error'' = None \<and>
   (\<exists>c. jget demo_settled ''content'' = Some c \<and> marked c)"
proof -
  have "failed_result ([demo_failed] ! 0)"
    by (simp add: failed_result_def demo_failed_def is_result_type jget_def)
  from failed_results_marked [OF demo_blocks_run [of "[]"] _ this] show ?thesis by simp
qed

section \<open>The request that is sent\<close>

definition rewritten_keys :: "string set" where
  "rewritten_keys = {''system'', ''messages'', ''tools'', ''tool_choice'', ''output_config'', ''model''}"

lemma hoist_keeps:
  "hoist_tool_changes r q obj = Inr (obj', h, rm) \<Longrightarrow> k \<notin> {''messages'', ''tools'', ''tool_choice''} \<Longrightarrow>
   map_of obj' k = map_of obj k"
  by (auto simp: hoist_tool_changes_def put_tools_def update_conv' delete_conv'
      split: if_splits option.splits sum.splits)

text \<open>Only a request that loses all its tools loses its tool choice.\<close>

lemma hoist_tool_choice:
  "hoist_tool_changes r q obj = Inr (obj', h, rm) \<Longrightarrow>
   map_of obj' ''tool_choice'' = map_of obj ''tool_choice'' \<or> map_of obj' ''tool_choice'' = None"
  by (auto simp: hoist_tool_changes_def put_tools_def update_conv' delete_conv'
      split: if_splits option.splits sum.splits)

lemma rewrite_content_keeps:
  assumes "rewrite_content parse q m removed obj = Inr (obj', rep)" "k \<notin> {''system'', ''messages'', ''tools''}"
  shows "map_of obj' k = map_of obj k"
proof -
  have sys: "rewrite_system env obj = Inr (obj1, refs) \<Longrightarrow> map_of obj1 k = map_of obj k" for env obj1 refs
    using assms(2) by (auto simp: rewrite_system_def put_def update_conv' split: option.splits sum.splits)
  have hist: "rewrite_history env obj1 refs = Inr (obj2, refs') \<Longrightarrow> map_of obj2 k = map_of obj1 k"
    for env obj1 refs obj2 refs'
    using assms(2) by (auto simp: rewrite_history_def update_conv' split: option.splits sum.splits if_splits)
  from assms show ?thesis
    by (auto simp: rewrite_content_def Let_def put_def update_conv' dest!: sys hist
        split: sum.splits if_splits option.splits)
qed

text \<open>The effort that a body names.\<close>

definition sent_effort :: "(string \<times> jany) list \<Rightarrow> jany option" where
  "sent_effort obj = (case map_of obj ''output_config'' of Some (AObj fs) \<Rightarrow> map_of fs ''effort'' | _ \<Rightarrow> None)"

definition only_effort :: "(string \<times> jany) list \<Rightarrow> bool" where
  "only_effort fs \<longleftrightarrow> dom (map_of fs) \<subseteq> {''effort''}"

lemma bad_output_config_None:
  "bad_output_config q obj = None \<longleftrightarrow>
   \<not> present (map_of obj ''output_config'') \<or>
   (\<exists>fs. map_of obj ''output_config'' = Some (AObj fs) \<and> only_effort fs)"
  by (auto simp: bad_output_config_def map_of_raw_def map_value_def only_effort_def dom_map_of_conv_image_fst find_None_iff present_def
      json_null_def split: option.splits jany.splits if_splits)

lemma rewrite_effort_sent:
  assumes "rewrite_effort requested obj = Inr (applied, obj')" "bad_output_config q obj = None"
  shows "applied = deepseek_effort requested \<and>
    sent_effort obj' = (if applied = [] then None else Some (AStr applied)) \<and>
    bad_output_config q obj' = None \<and> (k \<noteq> ''output_config'' \<longrightarrow> map_of obj' k = map_of obj k)"
proof -
  have keep: "k \<noteq> ''output_config'' \<longrightarrow> map_of obj' k = map_of obj k"
    using assms(1)
    by (auto simp: rewrite_effort_def Let_def update_conv' delete_conv' split: option.splits if_splits list.splits)
  have app: "applied = deepseek_effort requested"
    using assms(1) by (auto simp: rewrite_effort_def Let_def split: option.splits if_splits)
  consider (absent) "\<not> present (map_of obj ''output_config'')"
    | (here) fs where "map_of obj ''output_config'' = Some (AObj fs)" "only_effort fs"
    using assms(2) by (auto simp: bad_output_config_None)
  then show ?thesis
  proof cases
    case absent
    then have "obj' = (if applied = [] then obj else AList.update ''output_config'' (AObj [(''effort'', AStr applied)]) obj)"
      using assms(1) app by (auto simp: rewrite_effort_def jdel_def jset_def Let_def)
    with absent keep app show ?thesis
      by (auto simp: bad_output_config_None sent_effort_def update_conv' only_effort_def present_def json_null_def
          split: option.split)
  next
    case here
    let ?fs = "if applied = [] then AList.delete ''effort'' fs else AList.update ''effort'' (AStr applied) fs"
    have p: "present (map_of obj ''output_config'')" "map_of_raw (map_of obj ''output_config'') = Some (Some fs)"
      using here(1) by (simp_all add: present_def json_null_def map_of_raw_def map_value_def)
    have obj': "obj' = (if ?fs = [] then AList.delete ''output_config'' obj
        else AList.update ''output_config'' (AObj ?fs) obj)"
      using assms(1) app p
      by (auto simp: rewrite_effort_def jdel_def jset_def Let_def split: list.splits)
    have "only_effort ?fs"
      using here(2) by (auto simp: only_effort_def update_conv' delete_conv' split: if_splits)
    with obj' keep app show ?thesis
      by (auto simp: bad_output_config_None sent_effort_def update_conv' delete_conv' present_def)
  qed
qed

lemma reject_unsupported_None:
  "reject_unsupported r q obj = None \<longleftrightarrow>
   ignored_field obj = None \<and> bad_service_tier r obj = None \<and> bad_output_config q obj = None \<and>
   bad_tool_choice obj = None"
  by (auto simp: reject_unsupported_def split: option.splits)

lemma field_checks_cong:
  "(\<And>k. k \<in> {''container'', ''mcp_servers'', ''top_k''} \<Longrightarrow> map_of obj' k = map_of obj k) \<Longrightarrow>
   ignored_field obj' = ignored_field obj"
  "map_of obj' ''service_tier'' = map_of obj ''service_tier'' \<Longrightarrow> bad_service_tier r obj' = bad_service_tier r obj"
  "map_of obj' ''output_config'' = map_of obj ''output_config'' \<Longrightarrow>
   bad_output_config q obj' = bad_output_config q obj"
  "map_of obj' ''tool_choice'' = map_of obj ''tool_choice'' \<Longrightarrow> bad_tool_choice obj' = bad_tool_choice obj"
  "map_of obj' ''tool_choice'' = None \<Longrightarrow> bad_tool_choice obj' = None"
  by (simp_all add: ignored_field_def bad_service_tier_def bad_output_config_def bad_tool_choice_def present_def)

lemma rewrite_object_stages:
  assumes "rewrite_object je model requested obj = Inr (obj', rep)"
  obtains obj1 obj2 obj3 h rm ps where "reject_unsupported (je_print je) (je_quote je) obj = None"
    "hoist_tool_changes (je_print je) (je_quote je) obj = Inr (obj1, h, rm)"
    "rewrite_content (je_regex je) (je_quote je) model rm obj1 = Inr (obj2, ps)"
    "rewrite_effort requested obj2 = Inr (rp_effort rep, obj3)"
    "obj' = AList.update ''model'' (AStr model) obj3"
  using assms by (auto simp: rewrite_object_def split: option.splits sum.splits)


text \<open>A body of three members: a model, an effort that DeepSeek does not know, and a history.\<close>

definition demo_body :: "(string \<times> jany) list" where
  "demo_body = [(''model'', AStr ''alias''), (''max_tokens'', AOther ''9''), (''output_config'', AObj [(''effort'', AStr ''xhigh'')])]"

definition demo_json :: json_env where
  "demo_json = \<lparr>je_parse = (\<lambda>s. Some (AObj demo_body)), je_print = (\<lambda>v. ''sent''), je_regex = (\<lambda>s. True), je_quote = id,
     je_error = PlainError\<rparr>"

definition demo_sent :: "(string \<times> jany) list" where
  "demo_sent = [(''model'', AStr ''m''), (''max_tokens'', AOther ''9''), (''output_config'', AObj [(''effort'', AStr ''high'')])]"

lemma demo_rewrite_run:
  "\<exists>rep. rewrite_object demo_json ''m'' XHigh demo_body = Inr (demo_sent, rep) \<and> rp_effort rep = ''high''"
proof -
  have 1: "reject_unsupported p q demo_body = None" for p q
    by (simp add: reject_unsupported_def ignored_field_def bad_service_tier_def bad_output_config_def
        bad_tool_choice_def demo_body_def present_def json_null_def map_of_raw_def map_value_def)
  have 2: "hoist_tool_changes p q demo_body = Inr (demo_body, [], [])" for p q
    by (simp add: hoist_tool_changes_def has_tool_changes_def structs_of_def demo_body_def)
  have 3: "rewrite_content p q ''m'' [] demo_body = Inr (demo_body, empty_result)" for p q
    by (simp add: rewrite_content_def rewrite_system_def rewrite_history_def demo_body_def present_def put_def Let_def)
  have 4: "rewrite_effort XHigh demo_body = Inr (''high'', AList.update ''model'' (AStr ''alias'') demo_sent)"
    by (simp add: rewrite_effort_def demo_body_def demo_sent_def deepseek_effort_def present_def map_of_raw_def
        map_value_def jset_def json_null_def level_defs Let_def)
  show ?thesis by (simp add: rewrite_object_def 1 2 3 4) (simp add: demo_sent_def)
qed


end
