(* ===== verification/Downstream.thy ===== *)
theory Downstream
  imports Apierr Http Resolve
begin

text \<open>
  The client's side of a request: an \<^verbatim>\<open>http.ResponseWriter\<close>, of which the status line goes out
  once, and the errors by which a leg tells the dispatcher whether that has happened
  (\<^verbatim>\<open>ErrResponseStarted\<close> and \<^verbatim>\<open>ErrClientGone\<close> of \<^verbatim>\<open>internal/router/types.go\<close>). What every leg
  owes the dispatcher is the locale \<open>leg_contract\<close>.
\<close>

section \<open>The response writer\<close>

record writer =
  wr_header :: header                       \<comment> \<open>\<^verbatim>\<open>Header()\<close>\<close>
  wr_sent :: "(int \<times> header) option"        \<comment> \<open>the status line and the headers on the wire\<close>
  wr_extra :: nat                           \<comment> \<open>calls of \<^verbatim>\<open>WriteHeader\<close> that came too late\<close>
  wr_body :: string

definition new_writer :: "header \<Rightarrow> writer" where
  "new_writer h = \<lparr>wr_header = h, wr_sent = None, wr_extra = 0, wr_body = []\<rparr>"

definition set_header :: "string \<Rightarrow> string \<Rightarrow> writer \<Rightarrow> writer" where
  "set_header k v w = w\<lparr>wr_header := header_set k v (wr_header w)\<rparr>"

text \<open>An informational status is not the answer; 101 is one.\<close>

definition final_status :: "int \<Rightarrow> bool" where
  "final_status st \<longleftrightarrow> \<not> (100 \<le> st \<and> st < 200) \<or> st = 101"

definition write_header :: "int \<Rightarrow> writer \<Rightarrow> writer" where
  "write_header st w =
     (if \<not> final_status st then w
      else case wr_sent w of
        None \<Rightarrow> w\<lparr>wr_sent := Some (st, wr_header w)\<rparr>
      | Some _ \<Rightarrow> w\<lparr>wr_extra := wr_extra w + 1\<rparr>)"

text \<open>The first byte commits a 200. \<open>bw\<close> says whether the connection takes some bytes after others.\<close>

definition ensure_header :: "writer \<Rightarrow> writer" where
  "ensure_header w = (if wr_sent w = None then write_header 200 w else w)"

definition write_body :: "(string \<Rightarrow> string \<Rightarrow> go_error option) \<Rightarrow> string \<Rightarrow> writer \<Rightarrow> go_error option \<times> writer" where
  "write_body bw s w =
     (let w = ensure_header w in
      case bw (wr_body w) s of
        Some e \<Rightarrow> (Some e, w)
      | None \<Rightarrow> (None, w\<lparr>wr_body := wr_body w @ s\<rparr>))"

text \<open>A prepared response, as \<^verbatim>\<open>Render\<close> writes it: an error of the last write has no reader.\<close>

definition respond :: "(string \<Rightarrow> string \<Rightarrow> go_error option) \<Rightarrow> http_response \<Rightarrow> writer \<Rightarrow> writer" where
  "respond bw r w =
     snd (write_body bw (hr_body r)
       (write_header (hr_status r) (foldl (\<lambda>w (k, v). set_header k v w) w (hr_headers r))))"

definition committed :: "writer \<Rightarrow> bool" where
  "committed w \<longleftrightarrow> wr_sent w \<noteq> None"

section \<open>What a leg is given\<close>

text \<open>\<^verbatim>\<open>router.Request\<close>, without its logger.\<close>

record routed =
  rq_raw :: string
  rq_streaming :: bool
  rq_dec :: decision

section \<open>What a leg reports\<close>

datatype leg_error =
    Failure go_error            \<comment> \<open>nothing is written\<close>
  | Started go_error            \<comment> \<open>wraps \<^verbatim>\<open>ErrResponseStarted\<close>\<close>
  | Gone go_error               \<comment> \<open>wraps \<^verbatim>\<open>ErrClientGone\<close>\<close>
  | StartedGone go_error        \<comment> \<open>wraps both\<close>

definition is_response_started :: "leg_error \<Rightarrow> bool" where
  "is_response_started e \<longleftrightarrow> (case e of Started _ \<Rightarrow> True | StartedGone _ \<Rightarrow> True | _ \<Rightarrow> False)"

definition is_client_gone :: "leg_error \<Rightarrow> bool" where
  "is_client_gone e \<longleftrightarrow> (case e of Gone _ \<Rightarrow> True | StartedGone _ \<Rightarrow> True | _ \<Rightarrow> False)"

definition leg_cause :: "leg_error \<Rightarrow> go_error" where
  "leg_cause e = (case e of Failure e \<Rightarrow> e | Started e \<Rightarrow> e | Gone e \<Rightarrow> e | StartedGone e \<Rightarrow> e)"

section \<open>Facts\<close>

lemma set_header_frame [simp]:
  "wr_sent (set_header k v w) = wr_sent w" "wr_extra (set_header k v w) = wr_extra w"
  "wr_body (set_header k v w) = wr_body w" "committed (set_header k v w) = committed w"
  by (simp_all add: set_header_def committed_def)

lemma write_header_first:
  "\<not> committed w \<Longrightarrow> final_status st \<Longrightarrow>
   write_header st w = w\<lparr>wr_sent := Some (st, wr_header w)\<rparr>"
  by (cases "wr_sent w") (auto simp: write_header_def committed_def)

lemma write_body_committed: "committed (snd (write_body bw s w))"
  by (auto simp: write_body_def ensure_header_def write_header_def final_status_def committed_def Let_def
      split: option.splits)

lemma write_body_extra [simp]: "wr_extra (snd (write_body bw s w)) = wr_extra w"
  by (auto simp: write_body_def ensure_header_def write_header_def Let_def split: option.splits)

lemma write_body_sent: "wr_sent w = Some x \<Longrightarrow> wr_sent (snd (write_body bw s w)) = Some x"
  by (auto simp: write_body_def ensure_header_def Let_def split: option.splits)

lemma set_headers_frame:
  "wr_sent (foldl (\<lambda>w (k, v). set_header k v w) w hs) = wr_sent w \<and>
   wr_extra (foldl (\<lambda>w (k, v). set_header k v w) w hs) = wr_extra w \<and>
   wr_body (foldl (\<lambda>w (k, v). set_header k v w) w hs) = wr_body w"
  by (induction hs arbitrary: w) (auto split: prod.splits)

lemma respond_once:
  assumes "\<not> committed w" "final_status (hr_status r)"
  shows "(\<exists>h. wr_sent (respond bw r w) = Some (hr_status r, h)) \<and> wr_extra (respond bw r w) = wr_extra w"
proof -
  let ?w = "foldl (\<lambda>w (k, v). set_header k v w) w (hr_headers r)"
  have "\<not> committed ?w" "wr_extra ?w = wr_extra w"
    using set_headers_frame [of w "hr_headers r"] assms(1) by (simp_all add: committed_def)
  then show ?thesis
    using write_header_first [OF _ assms(2), of ?w] write_body_sent [of "write_header (hr_status r) ?w"]
    by (simp add: respond_def)
qed

section \<open>The contract of a leg\<close>

text \<open>
  A leg starts from a response of which nothing is on the wire. When it returns nil it has
  answered; when its error says that the response has started, it has; with any other
  error nothing is on the wire, so that the dispatcher may answer. It sends one status line.
\<close>

definition answered_once :: "writer \<Rightarrow> bool" where
  "answered_once w \<longleftrightarrow> committed w \<and> wr_extra w = 0"

definition untouched :: "writer \<Rightarrow> bool" where
  "untouched w \<longleftrightarrow> \<not> committed w \<and> wr_extra w = 0 \<and> wr_body w = []"

locale leg_contract =
  fixes serve :: "'i \<Rightarrow> writer \<Rightarrow> leg_error option \<times> writer"
    and valid :: "'i \<Rightarrow> bool"                \<comment> \<open>the upstream's statuses are final\<close>
  assumes done_answered: "valid i \<Longrightarrow> untouched w \<Longrightarrow> serve i w = (None, w') \<Longrightarrow> answered_once w'"
    and started_answered:
      "valid i \<Longrightarrow> untouched w \<Longrightarrow> serve i w = (Some e, w') \<Longrightarrow> is_response_started e \<Longrightarrow> answered_once w'"
    and failed_untouched:
      "valid i \<Longrightarrow> untouched w \<Longrightarrow> serve i w = (Some e, w') \<Longrightarrow> \<not> is_response_started e \<Longrightarrow> untouched w'"

section \<open>Keeping the contract\<close>

text \<open>How a leg may come back, and the steps that lead there.\<close>

definition proper :: "leg_error option \<times> writer \<Rightarrow> bool" where
  "proper r \<longleftrightarrow>
     (case fst r of
        None \<Rightarrow> answered_once (snd r)
      | Some e \<Rightarrow> if is_response_started e then answered_once (snd r) else untouched (snd r))"

lemma leg_contractI:
  assumes "\<And>i w. valid i \<Longrightarrow> untouched w \<Longrightarrow> proper (serve i w)"
  shows "leg_contract serve valid"
proof
  fix i w w' e
  assume v: "valid i" "untouched w"
  note p = assms [OF this]
  show "serve i w = (None, w') \<Longrightarrow> answered_once w'" using p by (simp add: proper_def)
  show "serve i w = (Some e, w') \<Longrightarrow> is_response_started e \<Longrightarrow> answered_once w'"
    using p by (simp add: proper_def)
  show "serve i w = (Some e, w') \<Longrightarrow> \<not> is_response_started e \<Longrightarrow> untouched w'"
    using p by (simp add: proper_def)
qed

lemma proper_failure [simp]: "proper (Some (Failure e), w) = untouched w" "proper (Some (Gone e), w) = untouched w"
  by (simp_all add: proper_def is_response_started_def)

lemma proper_started [simp]:
  "proper (Some (Started e), w) = answered_once w" "proper (Some (StartedGone e), w) = answered_once w"
  by (simp_all add: proper_def is_response_started_def)

lemma proper_done [simp]: "proper (None, w) = answered_once w"
  by (simp add: proper_def)

lemma header_commits: "untouched w \<Longrightarrow> final_status st \<Longrightarrow> answered_once (write_header st w)"
  by (simp add: untouched_def answered_once_def write_header_first) (simp add: committed_def)

lemma set_header_untouched: "untouched w \<Longrightarrow> untouched (set_header k v w)"
  by (simp add: untouched_def)

lemma header_edit_untouched: "untouched w \<Longrightarrow> untouched (w\<lparr>wr_header := h\<rparr>)"
  by (simp add: untouched_def committed_def)

lemma body_keeps_answer: "answered_once w \<Longrightarrow> answered_once (snd (write_body bw s w))"
  by (simp add: answered_once_def write_body_committed)

lemma write_header_keeps: "untouched w \<Longrightarrow> wr_extra (write_header st w) = 0"
  by (cases "wr_sent w") (simp_all add: write_header_def untouched_def committed_def)

text \<open>Whatever its status is, a response that is written commits one status line.\<close>

lemma respond_answers: "untouched w \<Longrightarrow> answered_once (respond bw r w)"
proof -
  assume "untouched w"
  then have "untouched ((foldl (\<lambda>w (k, v). set_header k v w) w (hr_headers r)))"
    using set_headers_frame [of w "hr_headers r"] by (simp add: untouched_def committed_def)
  then show ?thesis
    using write_header_keeps by (simp add: respond_def answered_once_def write_body_committed)
qed

end
