(* ===== verification/Relay.thy ===== *)
theory Relay
  imports Downstream
begin

text \<open>
  \<^verbatim>\<open>internal/relay/relay.go\<close>, which the two relaying legs share: the classification of a
  failed round trip, with the URL in its error stripped of what may be a credential, and
  the rolling idle guard. The guard is a step relation over a clock, Go's runtime timer and
  the goroutine that the timer starts; a read is two steps, since it tests the flag before
  it re-arms the timer.
\<close>

section \<open>URLs\<close>

text \<open>\<^verbatim>\<open>url.URL\<close>; its parser and its printer belong to the library.\<close>

record url =
  u_scheme :: string
  u_user :: "string option"
  u_host :: string
  u_path :: string
  u_raw_path :: string
  u_raw_query :: string
  u_force_query :: bool
  u_fragment :: string
  u_raw_fragment :: string

record url_env =
  ur_parse :: "string \<Rightarrow> go_error + url"
  ur_string :: "url \<Rightarrow> string"
  ur_quote :: "string \<Rightarrow> string"
  ur_error :: "go_error \<Rightarrow> (string \<times> string \<times> go_error) option"  \<comment> \<open>\<^verbatim>\<open>errors.As\<close> to a \<^verbatim>\<open>*url.Error\<close>\<close>
  ur_timeout :: "go_error \<Rightarrow> bool"                                \<comment> \<open>a \<^verbatim>\<open>net.Error\<close> that is a timeout\<close>

definition bare_url :: "url \<Rightarrow> url" where
  "bare_url u =
     u\<lparr>u_user := None, u_raw_query := [], u_fragment := [], u_raw_fragment := [], u_force_query := False\<rparr>"

text \<open>\<^verbatim>\<open>strings.TrimSuffix\<close> of a slash, as both legs do with the path of their base URL.\<close>

definition trim_slash :: "string \<Rightarrow> string" where
  "trim_slash s = (if s \<noteq> [] \<and> last s = CHR ''/'' then butlast s else s)"

text \<open>An error made by \<^verbatim>\<open>net/http\<close>: the operation, the URL and the cause.\<close>

definition url_error :: "url_env \<Rightarrow> string \<Rightarrow> string \<Rightarrow> go_error \<Rightarrow> go_error" where
  "url_error ue op u cause = Wrapped (op @ '' '' @ go_quote (ur_quote ue) u @ '': '' @ error_text cause) cause"

definition scrub_url_error :: "url_env \<Rightarrow> go_error \<Rightarrow> go_error" where
  "scrub_url_error ue err =
     (case ur_error ue err of
        None \<Rightarrow> err
      | Some (op, u, cause) \<Rightarrow>
          let safe = (case ur_parse ue u of Inl _ \<Rightarrow> ''invalid-url'' | Inr parsed \<Rightarrow> ur_string ue (bare_url parsed))
          in url_error ue op safe cause)"

section \<open>A failed round trip\<close>

definition deadline_exceeded :: go_error where
  "deadline_exceeded = Sentinel ''context deadline exceeded''"

text \<open>\<open>fired\<close> is the idle guard's answer, with the text of its timeout.\<close>

definition upstream_failure :: "url_env \<Rightarrow> string \<Rightarrow> go_error \<Rightarrow> bool \<Rightarrow> string \<Rightarrow> go_error" where
  "upstream_failure ue pre err fired timeout =
     (if fired then
        wrap_error (scrub_url_error ue err) TypeTimeout (pre @ '' sent nothing for '' @ timeout)
      else if ur_timeout ue err \<or> error_is err deadline_exceeded then
        wrap_error (scrub_url_error ue err) TypeTimeout (pre @ '' request timed out'')
      else ApiError TypeAPI (pre @ '' request failed'') 502 (Some (scrub_url_error ue err)))"

lemma upstream_failure_status:
  "http_status (Some (upstream_failure ue pre err fired timeout)) =
     (if fired \<or> ur_timeout ue err \<or> error_is err deadline_exceeded then 504 else 502)"
  by (simp add: upstream_failure_def wrap_error_def status_for_def error_type_defs)

section \<open>The idle guard\<close>

text \<open>
  The guard of one round trip, with its world: the clock, the runtime timer (armed with a
  deadline or not), the goroutine that the timer has started, and the reads that have seen
  the flag clear and have yet to re-arm. Two fields are ghosts: \<open>gd_mark\<close>, when the timer was
  last armed, and \<open>gd_silent\<close>, how long before the last ring that was.
\<close>

record guard =
  gd_timeout :: int
  gd_now :: int
  gd_armed :: "int option"
  gd_ringing :: nat                 \<comment> \<open>goroutines of the timer that have not run yet\<close>
  gd_tripped :: bool
  gd_cancelled :: bool
  gd_rearming :: nat
  gd_stopped :: bool
  gd_mark :: int
  gd_silent :: int

definition with_idle_deadline :: "int \<Rightarrow> int \<Rightarrow> guard" where
  "with_idle_deadline timeout now =
     \<lparr>gd_timeout = timeout, gd_now = now, gd_armed = (if timeout \<le> 0 then None else Some (now + timeout)),
      gd_ringing = 0, gd_tripped = False, gd_cancelled = False, gd_rearming = 0, gd_stopped = False,
      gd_mark = now, gd_silent = 0\<rparr>"

definition guard_stop :: "guard \<Rightarrow> guard" where
  "guard_stop g =
     (if gd_timeout g \<le> 0 then g else g\<lparr>gd_armed := None, gd_cancelled := True, gd_stopped := True\<rparr>)"

text \<open>The function that the timer runs.\<close>

definition guard_trip :: "guard \<Rightarrow> guard" where
  "guard_trip g = g\<lparr>gd_ringing := gd_ringing g - 1, gd_tripped := True, gd_cancelled := True\<rparr>"

text \<open>A read that delivered bytes; an inert guard has no wrapper.\<close>

definition read_bytes_in :: "guard \<Rightarrow> guard" where
  "read_bytes_in g =
     (if gd_timeout g \<le> 0 \<or> gd_tripped g then g else g\<lparr>gd_rearming := gd_rearming g + 1\<rparr>)"

definition guard_rearm :: "guard \<Rightarrow> guard" where
  "guard_rearm g = g\<lparr>gd_rearming := gd_rearming g - 1, gd_armed := Some (gd_now g + gd_timeout g),
                   gd_mark := gd_now g\<rparr>"

inductive guard_step :: "guard \<Rightarrow> guard \<Rightarrow> bool" where
  pass: "gd_now g \<le> n \<Longrightarrow> guard_step g (g\<lparr>gd_now := n\<rparr>)"
| ring: "gd_armed g = Some d \<Longrightarrow> d \<le> gd_now g \<Longrightarrow>
         guard_step g (g\<lparr>gd_armed := None, gd_ringing := gd_ringing g + 1, gd_silent := gd_now g - gd_mark g\<rparr>)"
| trip: "0 < gd_ringing g \<Longrightarrow> guard_step g (guard_trip g)"
| deliver: "guard_step g (read_bytes_in g)"
| rearm: "0 < gd_rearming g \<Longrightarrow> guard_step g (guard_rearm g)"
| halt: "guard_step g (guard_stop g)"

inductive guard_reach :: "int \<Rightarrow> guard \<Rightarrow> bool" for timeout where
  guard_init: "guard_reach timeout (with_idle_deadline timeout now)"
| guard_next: "guard_reach timeout g \<Longrightarrow> guard_step g g' \<Longrightarrow> guard_reach timeout g'"

inductive_cases guard_stepE: "guard_step g g'"

lemmas guard_op_defs = guard_stop_def guard_trip_def read_bytes_in_def guard_rearm_def

definition guard_inv :: "int \<Rightarrow> guard \<Rightarrow> bool" where
  "guard_inv timeout g \<longleftrightarrow>
     gd_timeout g = timeout \<and> gd_mark g \<le> gd_now g \<and>
     (if timeout \<le> 0
      then gd_armed g = None \<and> gd_ringing g = 0 \<and> \<not> gd_tripped g \<and> \<not> gd_cancelled g \<and> gd_rearming g = 0
      else (\<forall>d. gd_armed g = Some d \<longrightarrow> d = gd_mark g + timeout) \<and>
           (0 < gd_ringing g \<or> gd_tripped g \<longrightarrow> timeout \<le> gd_silent g) \<and>
           (gd_armed g = None \<longrightarrow> gd_stopped g \<or> gd_tripped g \<or> 0 < gd_ringing g) \<and>
           (gd_cancelled g \<longrightarrow> gd_stopped g \<or> gd_tripped g))"

lemma guard_inv_init: "guard_inv timeout (with_idle_deadline timeout now)"
  by (simp add: guard_inv_def with_idle_deadline_def)

lemma guard_inv_step: "guard_step g g' \<Longrightarrow> guard_inv timeout g \<Longrightarrow> guard_inv timeout g'"
  by (erule guard_stepE) (auto simp: guard_inv_def guard_op_defs split: if_splits)

lemma guard_reach_inv: "guard_reach timeout g \<Longrightarrow> guard_inv timeout g"
  by (induction rule: guard_reach.induct) (auto intro: guard_inv_init guard_inv_step)


text \<open>A run of three steps: time passes, the timer rings, its function runs.\<close>

definition demo_fired :: guard where
  "demo_fired =
     guard_trip ((with_idle_deadline 5 0)\<lparr>gd_now := 7, gd_armed := None, gd_ringing := 1, gd_silent := 7\<rparr>)"

lemma demo_fired_reach: "guard_reach 5 demo_fired"
proof -
  let ?g = "(with_idle_deadline 5 0)\<lparr>gd_now := 7\<rparr>"
  have "guard_reach 5 ?g"
    by (rule guard_next [OF guard_init pass]) (simp add: with_idle_deadline_def)
  then have "guard_reach 5 (?g\<lparr>gd_armed := None, gd_ringing := gd_ringing ?g + 1,
      gd_silent := gd_now ?g - gd_mark ?g\<rparr>)"
    by (rule guard_next) (rule ring [of _ 5], simp_all add: with_idle_deadline_def)
  then have "guard_reach 5 (guard_trip (?g\<lparr>gd_armed := None, gd_ringing := gd_ringing ?g + 1,
      gd_silent := gd_now ?g - gd_mark ?g\<rparr>))"
    by (rule guard_next) (rule trip, simp)
  then show ?thesis by (simp add: demo_fired_def with_idle_deadline_def)
qed


end
