(* ===== verification/DeepLeg.thy ===== *)
theory DeepLeg
  imports DeepProps Relay Resolve
begin

text \<open>
  \<^verbatim>\<open>internal/deepseek/leg.go\<close>: the DeepSeek leg around the rewriter. One request is a pure
  function of the routed request, of the caller's headers and of what the outside does (the
  reply of the upstream, whether the idle guard fired and whether the caller has gone, and
  what the client's connection accepts). Logging and the per-request summary are left out.
\<close>

section \<open>Configuration\<close>

record ds_leg =
  dl_base :: url
  dl_api_key :: string
  dl_idle :: int

text \<open>\<^verbatim>\<open>New\<close>; \<open>tr\<close> says whether there is a transport. An option may then set the idle timeout.\<close>

definition new_ds_leg :: "url_env \<Rightarrow> string \<Rightarrow> string \<Rightarrow> bool \<Rightarrow> go_error + ds_leg" where
  "new_ds_leg ue base_url api_key tr =
     (if \<not> tr then Inl (PlainError ''utraque/deepseek: nil transport'')
      else if trim_space api_key = [] then Inl (PlainError ''utraque/deepseek: empty api key'')
      else case ur_parse ue (trim_space base_url) of
        Inl e \<Rightarrow> Inl (Wrapped (''utraque/deepseek: parse base url: '' @ error_text e) e)
      | Inr u \<Rightarrow>
          if (u_scheme u \<noteq> ''http'' \<and> u_scheme u \<noteq> ''https'') \<or> u_host u = []
          then Inl (PlainError ''utraque/deepseek: base url must be an absolute http or https URL'')
          else if u_user u \<noteq> None \<or> u_raw_query u \<noteq> [] \<or> u_force_query u \<or> u_fragment u \<noteq> []
          then Inl (PlainError ''utraque/deepseek: base url must not contain credentials, a query, or a fragment'')
          else Inr \<lparr>dl_base = u\<lparr>u_path := trim_slash (u_path u), u_raw_path := []\<rparr>,
                    dl_api_key = trim_space api_key, dl_idle = 0\<rparr>)"

definition with_ds_idle :: "int \<Rightarrow> ds_leg \<Rightarrow> ds_leg" where
  "with_ds_idle d l = l\<lparr>dl_idle := (if d < 0 then 0 else d)\<rparr>"

section \<open>Headers\<close>

definition request_header_allow :: "string list" where
  "request_header_allow =
     [''Accept'', ''Anthropic-Beta'', ''Anthropic-Version'', ''Content-Type'', ''User-Agent'', ''X-Request-Id'']"

text \<open>A loop over the list, each name looked up as it is spelt.\<close>

definition ds_copy_request_headers :: "header \<Rightarrow> header \<Rightarrow> header" where
  "ds_copy_request_headers src dst =
     foldl (\<lambda>h k. case map_of src k of None \<Rightarrow> h | Some vs \<Rightarrow> AList.update k vs h) dst request_header_allow"

definition ds_request_headers :: "ds_leg \<Rightarrow> header \<Rightarrow> header" where
  "ds_request_headers l caller =
     (let h = header_set ''Accept-Encoding'' ''identity''
                (header_set ''Content-Type'' ''application/json''
                  (header_set ''X-Api-Key'' (dl_api_key l) (ds_copy_request_headers caller [])))
      in if map_of h ''User-Agent'' = None then AList.update ''User-Agent'' [] h else h)"

definition ds_response_allowed :: "string \<Rightarrow> bool" where
  "ds_response_allowed canon \<longleftrightarrow>
     canon \<in> {''Content-Type'', ''Cache-Control'', ''Retry-After'', ''Request-Id'', ''X-Request-Id''} \<or>
     prefix ''x-ratelimit-'' (map lower_char canon) \<or> prefix ''anthropic-ratelimit-'' (map lower_char canon)"

definition ds_copy_response_headers :: "header \<Rightarrow> writer \<Rightarrow> writer" where
  "ds_copy_response_headers src w =
     set_header ''X-Content-Type-Options'' ''nosniff''
       (w\<lparr>wr_header := foldl (\<lambda>h (k, vs). let c = canonical_key k in
            if ds_response_allowed c then AList.update c vs h else h) (wr_header w) src\<rparr>)"

definition ds_mark_route :: "string \<Rightarrow> writer \<Rightarrow> writer" where
  "ds_mark_route model w =
     (let w = set_header ''X-Utraque-Route'' ''deepseek'' w
      in if model \<noteq> [] then set_header ''X-Utraque-Model'' model w else w)"

section \<open>What the outside does\<close>

record ds_reply =
  dr_status :: int
  dr_header :: header
  dr_body :: string
  dr_end :: go_error                \<comment> \<open>how the body ends, \<^verbatim>\<open>io.EOF\<close> for all of it\<close>

record ds_world =
  dw_json :: json_env
  dw_url :: url_env
  dw_media_type :: "string \<Rightarrow> string option"    \<comment> \<open>\<^verbatim>\<open>mime.ParseMediaType\<close>\<close>
  dw_lower :: "string \<Rightarrow> string"
  dw_request :: "go_error option"                \<comment> \<open>an error of \<^verbatim>\<open>NewRequestWithContext\<close>\<close>
  dw_reply :: "go_error + ds_reply"
  dw_gone :: "go_error option"                   \<comment> \<open>\<^verbatim>\<open>r.Context().Err()\<close> when the exchange fails\<close>
  dw_fired :: bool                               \<comment> \<open>the idle guard\<close>
  dw_timeout :: string                           \<comment> \<open>the text of its timeout\<close>
  dw_accepts :: "string \<Rightarrow> string \<Rightarrow> go_error option"
  dw_flush :: "string \<Rightarrow> go_error option"        \<comment> \<open>a flush once these bytes are written\<close>

definition max_response_bytes :: nat where "max_response_bytes = 128 * 1024 * 1024"

section \<open>Relaying a stream\<close>

text \<open>
  The loop of \<^verbatim>\<open>streamResponse\<close>. Its flags: a start, an end, an error. Each frame is written and
  flushed before the next is read, so a failure leaves what came before it on the wire.
\<close>

record stream_flags =
  sf_start :: bool
  sf_terminal :: bool
  sf_error :: bool

definition no_flags :: stream_flags where
  "no_flags = \<lparr>sf_start = False, sf_terminal = False, sf_error = False\<rparr>"

definition saw :: "string \<Rightarrow> stream_flags \<Rightarrow> stream_flags" where
  "saw ty f =
     \<lparr>sf_start = (sf_start f \<or> ty = EventMessageStart),
      sf_terminal = (sf_terminal f \<or> ty = EventMessageStop \<or> ty = StreamEventError),
      sf_error = (sf_error f \<or> ty = StreamEventError)\<rparr>"

definition write_chunks ::
  "(string \<Rightarrow> string \<Rightarrow> go_error option) \<Rightarrow> string list \<Rightarrow> writer \<Rightarrow> go_error option \<times> writer" where
  "write_chunks bw cs w =
     foldl (\<lambda>(e, w) s. case e of Some e \<Rightarrow> (Some e, w) | None \<Rightarrow> write_body bw s w) (None, w) cs"

fun stream_frames ::
  "ds_world \<Rightarrow> string \<Rightarrow> frame list \<Rightarrow> stream_flags \<times> writer \<Rightarrow> leg_error option \<times> stream_flags \<times> writer" where
  "stream_frames dw model [] (fl, w) = (None, fl, w)"
| "stream_frames dw model (f # fs) (fl, w) =
     (case rewrite_stream_frame (dw_json dw) f model of
        Inl e \<Rightarrow> (Some (Started (Wrapped (''invalid deepseek stream: '' @ error_text e) e)), fl, w)
      | Inr (data, ty) \<Rightarrow>
          (case write_chunks (dw_accepts dw) (frame_chunks (fr_event f) data) w of
             (Some e, w) \<Rightarrow> (Some (Started (Wrapped (''writing deepseek stream: '' @ error_text e) e)), saw ty fl, w)
           | (None, w) \<Rightarrow>
               (case dw_flush dw (wr_body w) of
                  Some e \<Rightarrow> (Some (Started (Wrapped (''flushing deepseek stream: '' @ error_text e) e)), saw ty fl, w)
                | None \<Rightarrow> stream_frames dw model fs (saw ty fl, w))))"

definition stream_end :: "ds_world \<Rightarrow> go_error option \<Rightarrow> stream_flags \<Rightarrow> leg_error option" where
  "stream_end dw scan_err fl =
     (case scan_err of
        Some e \<Rightarrow>
          Some (case dw_gone dw of
                  Some g \<Rightarrow> StartedGone g
                | None \<Rightarrow>
                    if dw_fired dw
                    then Started (Wrapped (''deepseek stream went silent for '' @ dw_timeout dw @ '': '' @ error_text e) e)
                    else Started (Wrapped (''reading deepseek stream: '' @ error_text e) e))
      | None \<Rightarrow>
          if \<not> sf_terminal fl then Some (Started (PlainError ''deepseek stream ended without message_stop or error''))
          else if \<not> sf_start fl \<and> \<not> sf_error fl
          then Some (Started (PlainError ''deepseek stream ended without message_start''))
          else None)"

definition ds_stream_response :: "ds_world \<Rightarrow> string \<Rightarrow> ds_reply \<Rightarrow> writer \<Rightarrow> leg_error option \<times> writer" where
  "ds_stream_response dw model reply w =
     (let w = write_header (dr_status reply)
                (set_header ''Content-Type'' ''text/event-stream'' (ds_copy_response_headers (dr_header reply) w));
          (frames, sc) = scan_all (new_scanner (dr_body reply) (dr_end reply))
      in case stream_frames dw model frames (no_flags, w) of
           (Some e, fl, w) \<Rightarrow> (Some e, w)
         | (None, fl, w) \<Rightarrow> (stream_end dw (sc_err sc) fl, w))"

section \<open>Relaying a body\<close>

definition ds_json_response :: "ds_world \<Rightarrow> string \<Rightarrow> ds_reply \<Rightarrow> writer \<Rightarrow> leg_error option \<times> writer" where
  "ds_json_response dw model reply w =
     (if dr_end reply \<noteq> EOF \<and> length (dr_body reply) \<le> max_response_bytes then
        (Some (case dw_gone dw of
                 Some g \<Rightarrow> Gone g
               | None \<Rightarrow> Failure (upstream_failure (dw_url dw) ''deepseek upstream'' (dr_end reply) (dw_fired dw) (dw_timeout dw))), w)
      else if max_response_bytes < length (dr_body reply) then
        (Some (Failure (with_status 502 TypeAPI ''deepseek response exceeded the safety limit'')), w)
      else case rewrite_message_response (dw_json dw) (dr_body reply) model of
        Inl e \<Rightarrow> (Some (Failure (ApiError TypeAPI ''deepseek returned an invalid message response'' 502 (Some e))), w)
      | Inr b \<Rightarrow>
          (let w = write_header (dr_status reply)
                     (set_header ''Content-Length'' (itoa (int (length b))) (ds_copy_response_headers (dr_header reply) w))
           in case write_body (dw_accepts dw) b w of
                (Some e, w) \<Rightarrow> (Some (Started (Wrapped (''writing deepseek response: '' @ error_text e) e)), w)
              | (None, w) \<Rightarrow> (None, w)))"

text \<open>\<^verbatim>\<open>copyBody\<close>: the body of a failure is relayed as it comes; an empty one writes nothing.\<close>

definition ds_copy_body :: "ds_world \<Rightarrow> ds_reply \<Rightarrow> writer \<Rightarrow> leg_error option \<times> writer" where
  "ds_copy_body dw reply w =
     (let (we, w) = (if dr_body reply = [] then (None, w) else write_body (dw_accepts dw) (dr_body reply) w);
          err = (case we of Some e \<Rightarrow> Some e | None \<Rightarrow> if dr_end reply = EOF then None else Some (dr_end reply))
      in (map_option (\<lambda>e. case dw_gone dw of
              Some g \<Rightarrow> StartedGone g
            | None \<Rightarrow> Started (Wrapped (''relaying deepseek response: '' @ error_text e) e)) err, w))"

section \<open>A request\<close>

definition ds_media_type :: "ds_world \<Rightarrow> header \<Rightarrow> string" where
  "ds_media_type dw h =
     (case dw_media_type dw (header_get h ''Content-Type'') of None \<Rightarrow> [] | Some t \<Rightarrow> to_lower (dw_lower dw) t)"

text \<open>What the leg does with a reply.\<close>

definition ds_answer :: "ds_world \<Rightarrow> routed \<Rightarrow> ds_reply \<Rightarrow> writer \<Rightarrow> leg_error option \<times> writer" where
  "ds_answer dw rq reply w =
     (let enc = trim_space (header_get (dr_header reply) ''Content-Encoding'');
          st = dr_status reply; model = dc_upstream (rq_dec rq);
          kind = ds_media_type dw (dr_header reply) in
      if enc \<noteq> [] \<and> \<not> equal_fold enc ''identity'' then
        (Some (Failure (with_status 502 TypeAPI ''deepseek upstream returned an unexpected content encoding'')), w)
      else if 300 \<le> st \<and> st < 400 then
        (Some (Failure (with_status 502 TypeAPI
           ''deepseek upstream returned a redirect, which utraque will not follow'')), w)
      else if st < 200 \<or> 300 \<le> st then
        ds_copy_body dw reply (write_header st (ds_copy_response_headers (dr_header reply) w))
      else if rq_streaming rq then
        (if kind \<noteq> [] \<and> kind \<noteq> ''text/event-stream'' then
           (Some (Failure (with_status 502 TypeAPI
              ''deepseek returned a non-stream response to a streaming request'')), w)
         else ds_stream_response dw model reply w)
      else ds_json_response dw model reply w)"

text \<open>\<^verbatim>\<open>forward\<close>: the request that is sent, with its headers and its body, and the answer.\<close>

definition ds_forward ::
  "ds_leg \<Rightarrow> ds_world \<Rightarrow> header \<Rightarrow> routed \<Rightarrow> writer \<Rightarrow> (header \<times> string) option \<times> leg_error option \<times> writer" where
  "ds_forward l dw caller rq w =
     (if dc_backend (rq_dec rq) \<noteq> DeepSeek \<or> dc_upstream (rq_dec rq) = [] then
        (None, Some (Failure (bad_request ''deepseek request has no resolved model'')), w)
      else case rewrite_request (dw_json dw) (rq_raw rq) (dc_upstream (rq_dec rq)) (dc_effort (rq_dec rq)) of
        Inl e \<Rightarrow> (None, Some (Failure e), w)
      | Inr (body, report) \<Rightarrow>
          (case dw_request dw of
             Some e \<Rightarrow> (None, Some (Failure (wrap_error e TypeInvalidRequest ''build deepseek request'')), w)
           | None \<Rightarrow>
               (Some (ds_request_headers l caller, body),
                (case dw_reply dw of
                   Inl e \<Rightarrow>
                     (Some (case dw_gone dw of
                              Some g \<Rightarrow> Gone g
                            | None \<Rightarrow> Failure (upstream_failure (dw_url dw) ''deepseek upstream'' e (dw_fired dw) (dw_timeout dw))), w)
                 | Inr reply \<Rightarrow> ds_answer dw rq reply w))))"

definition ds_messages ::
  "ds_leg \<Rightarrow> ds_world \<Rightarrow> header \<Rightarrow> routed \<Rightarrow> writer \<Rightarrow> (header \<times> string) option \<times> leg_error option \<times> writer" where
  "ds_messages l dw caller rq w = ds_forward l dw caller rq (ds_mark_route (dc_upstream (rq_dec rq)) w)"

text \<open>
  \<^verbatim>\<open>CountTokens\<close>: the estimate of the rewritten body, \<^const>\<open>None\<close> when it is not a request;
  the estimator and the encoding of its answer are parameters.
\<close>

definition ds_count_tokens ::
  "ds_world \<Rightarrow> (string \<Rightarrow> go_error + string) \<Rightarrow> string \<Rightarrow> routed \<Rightarrow> writer \<Rightarrow> leg_error option \<times> writer" where
  "ds_count_tokens dw estimate name rq w =
     (if dc_backend (rq_dec rq) \<noteq> DeepSeek \<or> dc_upstream (rq_dec rq) = [] then
        (Some (Failure (bad_request ''deepseek request has no resolved model'')), w)
      else case rewrite_request (dw_json dw) (rq_raw rq) (dc_upstream (rq_dec rq)) (dc_effort (rq_dec rq)) of
        Inl e \<Rightarrow> (Some (Failure e), w)
      | Inr (body, report) \<Rightarrow>
          (case estimate body of
             Inl e \<Rightarrow> (Some (Failure (wrap_error e TypeInvalidRequest
                        ''request body is not a valid count_tokens request'')), w)
           | Inr answer \<Rightarrow>
               (None, snd (write_body (dw_accepts dw) (answer @ [CHR 0x0A])
                 (write_header 200
                   (set_header ''X-Utraque-Token-Count-Method'' (''estimated; estimator='' @ name)
                     (set_header ''X-Content-Type-Options'' ''nosniff''
                       (set_header ''Content-Type'' ''application/json'' w))))))))"

end
