(* ===== verification/DeepServe.thy ===== *)
theory DeepServe
  imports DeepLeg
begin

text \<open>
  The theorems on the DeepSeek leg: which of the caller's headers leave the proxy, what a
  stream that ends well has put on the wire, and that the leg keeps the contract between a
  leg and the dispatcher.
\<close>

section \<open>Headers\<close>

lemma allow_names: "distinct request_header_allow" "''X-Api-Key'' \<notin> set request_header_allow"
  "''Accept-Encoding'' \<notin> set request_header_allow"
  by (auto simp: request_header_allow_def)

lemma ds_header_names:
  "canonical_key ''X-Api-Key'' = ''X-Api-Key''" "canonical_key ''Content-Type'' = ''Content-Type''"
  "canonical_key ''Accept-Encoding'' = ''Accept-Encoding''"
  by code_simp+

lemma copy_allowed:
  "map_of (foldl (\<lambda>h k. case map_of src k of None \<Rightarrow> h | Some vs \<Rightarrow> AList.update k vs h) dst ks) k =
   (if k \<in> set ks \<and> map_of src k \<noteq> None then map_of src k else map_of dst k)"
  by (induction ks arbitrary: dst) (auto simp: update_conv' split: option.splits)

lemma ds_request_headers_of:
  "map_of (ds_request_headers l caller) k =
     (if k = ''X-Api-Key'' then Some [dl_api_key l]
      else if k = ''Content-Type'' then Some [''application/json'']
      else if k = ''Accept-Encoding'' then Some [''identity'']
      else if k \<in> set request_header_allow \<and> map_of caller k \<noteq> None then map_of caller k
      else if k = ''User-Agent'' then Some [] else None)"
  by (auto simp: ds_request_headers_def ds_copy_request_headers_def header_set_def ds_header_names Let_def
      update_conv' copy_allowed)

text \<open>
  The caller's credentials do not reach DeepSeek. Whatever headers a caller sends, a
  request that goes out carries no header beyond the listed ones and the leg's own key,
  and what the caller sent in the place of the key, of the content type or of the accepted
  encoding is not in it.
\<close>

theorem ds_caller_headers_filtered:
  assumes "fst (ds_messages l dw caller rq w) = Some (h, body)"
  shows "map_of h ''X-Api-Key'' = Some [dl_api_key l] \<and> map_of h ''Accept-Encoding'' = Some [''identity''] \<and>
    (\<forall>k vs. map_of h k = Some vs \<longrightarrow>
       k \<in> set request_header_allow \<union> {''X-Api-Key'', ''Accept-Encoding''}) \<and>
    (\<forall>caller'. (\<forall>k \<in> set request_header_allow - {''Content-Type''}. map_of caller' k = map_of caller k) \<longrightarrow>
       map_of (ds_request_headers l caller') = map_of h)"
proof -
  have h: "h = ds_request_headers l caller"
    using assms by (auto simp: ds_messages_def ds_forward_def split: if_splits sum.splits option.splits prod.splits)
  show ?thesis unfolding h
    by (auto simp: ds_request_headers_of request_header_allow_def fun_eq_iff split: if_splits)
qed

text \<open>A caller with its own credential, and an upstream that is not reached.\<close>

definition demo_url :: url where
  "demo_url = \<lparr>u_scheme = ''https'', u_user = None, u_host = ''h'', u_path = [], u_raw_path = [],
     u_raw_query = [], u_force_query = False, u_fragment = [], u_raw_fragment = []\<rparr>"

definition demo_urls :: url_env where
  "demo_urls = \<lparr>ur_parse = (\<lambda>s. Inr demo_url), ur_string = u_host, ur_quote = id, ur_error = (\<lambda>e. None),
     ur_timeout = (\<lambda>e. False)\<rparr>"

definition demo_world :: ds_world where
  "demo_world = \<lparr>dw_json = demo_json, dw_url = demo_urls, dw_media_type = Some, dw_lower = id, dw_request = None,
     dw_reply = Inl (PlainError ''down''), dw_gone = None, dw_fired = False, dw_timeout = ''1s'',
     dw_accepts = (\<lambda>a b. None), dw_flush = (\<lambda>a. None)\<rparr>"

definition demo_ds_leg :: ds_leg where
  "demo_ds_leg = \<lparr>dl_base = demo_url, dl_api_key = ''key'', dl_idle = 0\<rparr>"

definition demo_routed :: routed where
  "demo_routed = \<lparr>rq_raw = ''raw'', rq_streaming = True,
     rq_dec = \<lparr>dc_backend = DeepSeek, dc_upstream = ''m'', dc_client = ''m'', dc_effort = XHigh,
       dc_source = SourceSuffix\<rparr>\<rparr>"

theorem ds_caller_headers_filtered_witness:
  "\<exists>h body. fst (ds_messages demo_ds_leg demo_world [(''Authorization'', [''secret''])] demo_routed (new_writer [])) = Some (h, body) \<and>
     map_of h ''X-Api-Key'' = Some [''key''] \<and> map_of h ''Authorization'' = None"
proof -
  obtain rep where "rewrite_object demo_json ''m'' XHigh demo_body = Inr (demo_sent, rep)"
    using demo_rewrite_run by blast
  then have "rewrite_request demo_json ''raw'' ''m'' XHigh = Inr (''sent'', rep)"
    by (simp add: rewrite_request_def body_object_def demo_json_def)
  then obtain h body where h: "fst (ds_messages demo_ds_leg demo_world [(''Authorization'', [''secret''])] demo_routed (new_writer []))
      = Some (h, body)"
    by (simp add: ds_messages_def ds_forward_def demo_routed_def demo_world_def)
  note f = ds_caller_headers_filtered [OF h]
  then have "map_of h ''Authorization'' = None"
    by (auto simp: request_header_allow_def not_None_eq [symmetric] simp del: not_None_eq)
  with f h show ?thesis by (simp add: demo_ds_leg_def)
qed

section \<open>A stream\<close>

text \<open>The bytes of a frame that was passed on.\<close>

definition passed :: "frame \<times> string \<times> string \<Rightarrow> string" where
  "passed p = (case p of (f, data, ty) \<Rightarrow> concat (frame_chunks (fr_event f) data))"

lemma passed_simp: "passed (f, data, ty) = concat (frame_chunks (fr_event f) data)"
  by (simp add: passed_def)

lemma write_chunks_error: "foldl (\<lambda>(e, w) s. case e of Some e \<Rightarrow> (Some e, w) | None \<Rightarrow> write_body bw s w) (Some x, w) cs = (Some x, w)"
  by (induction cs) auto

lemma write_chunks_ok:
  "write_chunks bw cs w = (None, w') \<Longrightarrow> committed w \<Longrightarrow> w' = w\<lparr>wr_body := wr_body w @ concat cs\<rparr>"
proof (induction cs arbitrary: w)
  case (Cons c cs)
  then have w1: "write_body bw c w = (None, w\<lparr>wr_body := wr_body w @ c\<rparr>)"
    by (cases "bw (wr_body w) c")
       (auto simp: write_chunks_def write_body_def ensure_header_def committed_def write_chunks_error Let_def)
  with Cons.prems(1) have "write_chunks bw cs (w\<lparr>wr_body := wr_body w @ c\<rparr>) = (None, w')"
    by (simp add: write_chunks_def)
  from Cons.IH [OF this] Cons.prems(2) show ?case by (simp add: committed_def)
qed (simp add: write_chunks_def)

lemma write_chunks_frame:
  "wr_extra (snd (write_chunks bw cs w)) = wr_extra w \<and> (committed w \<longrightarrow> committed (snd (write_chunks bw cs w)))"
proof (induction cs arbitrary: w)
  case (Cons c cs)
  obtain e w1 where w1: "write_body bw c w = (e, w1)" by fastforce
  with write_body_extra [of bw c w] write_body_committed [of bw c w]
  have "wr_extra w1 = wr_extra w" "committed w1" by simp_all
  with w1 Cons [of w1] show ?case
    by (cases e) (simp_all add: write_chunks_def write_chunks_error)
qed (simp add: write_chunks_def)

lemma stream_frames_frame:
  "stream_frames dw model fs (fl, w) = (e, fl', w') \<Longrightarrow> committed w \<Longrightarrow>
   committed w' \<and> wr_extra w' = wr_extra w \<and> (\<forall>x. e = Some x \<longrightarrow> is_response_started x)"
proof (induction fs arbitrary: fl w)
  case (Cons f fs)
  show ?case
  proof (cases "rewrite_stream_frame (dw_json dw) f model")
    case (Inl x)
    with Cons.prems show ?thesis by (auto simp: is_response_started_def)
  next
    case (Inr p)
    obtain data ty where p: "p = (data, ty)" by fastforce
    obtain e1 w1 where w1: "write_chunks (dw_accepts dw) (frame_chunks (fr_event f) data) w = (e1, w1)"
      by fastforce
    with write_chunks_frame [of "dw_accepts dw" "frame_chunks (fr_event f) data" w] Cons.prems(2)
    have "committed w1" "wr_extra w1 = wr_extra w" by simp_all
    with Cons.prems(1) Inr p w1 Cons.IH [of "saw ty fl" w1] show ?thesis
      by (auto simp: is_response_started_def split: option.splits)
  qed
qed simp

lemma stream_frames_ok:
  "stream_frames dw model fs (fl, w) = (None, fl', w') \<Longrightarrow> committed w \<Longrightarrow>
   \<exists>outs. list_all2 (\<lambda>f out. rewrite_stream_frame (dw_json dw) f model = Inr out) fs outs \<and>
     wr_body w' = wr_body w @ concat (map passed (zip fs outs)) \<and>
     fl' = foldl (\<lambda>fl (data, ty). saw ty fl) fl outs"
proof (induction fs arbitrary: fl w)
  case (Cons f fs)
  from Cons.prems(1) obtain data ty where r: "rewrite_stream_frame (dw_json dw) f model = Inr (data, ty)"
    by (auto split: sum.splits)
  from Cons.prems(1) r obtain w1 where w1: "write_chunks (dw_accepts dw) (frame_chunks (fr_event f) data) w = (None, w1)"
    and rest: "stream_frames dw model fs (saw ty fl, w1) = (None, fl', w')"
    by (auto split: option.splits prod.splits)
  note eq = write_chunks_ok [OF w1 Cons.prems(2)]
  then have "committed w1" using Cons.prems(2) by (simp add: committed_def)
  from Cons.IH [OF rest this] obtain outs where "list_all2 (\<lambda>f out. rewrite_stream_frame (dw_json dw) f model = Inr out) fs outs"
    "wr_body w' = wr_body w1 @ concat (map passed (zip fs outs))" "fl' = foldl (\<lambda>fl (data, ty). saw ty fl) (saw ty fl) outs"
    by blast
  with r eq show ?case by (intro exI [of _ "(data, ty) # outs"]) (simp add: passed_simp)
qed simp

lemma saw_fold:
  "sf_terminal (foldl (\<lambda>fl (data, ty). saw ty fl) fl outs) \<longleftrightarrow>
     sf_terminal fl \<or> (\<exists>x \<in> set outs. snd x \<in> {EventMessageStop, StreamEventError})"
  "sf_start (foldl (\<lambda>fl (data, ty). saw ty fl) fl outs) \<longleftrightarrow>
     sf_start fl \<or> (\<exists>x \<in> set outs. snd x = EventMessageStart)"
  "sf_error (foldl (\<lambda>fl (data, ty). saw ty fl) fl outs) \<longleftrightarrow>
     sf_error fl \<or> (\<exists>x \<in> set outs. snd x = StreamEventError)"
  by (induction outs arbitrary: fl) (auto simp: saw_def)

text \<open>A start of a message names the routed model, whatever alias DeepSeek serves it under.\<close>

lemma response_model_requested: "response_model q raw m = Inr c \<Longrightarrow> c = m"
  by (auto simp: response_model_def split: option.splits if_splits)

lemma event_types: "EventMessageStop \<noteq> EventMessageStart" "StreamEventError \<noteq> EventMessageStart"
  by (simp_all add: EventMessageStop_def EventMessageStart_def StreamEventError_def)

definition names_model :: "json_env \<Rightarrow> string \<Rightarrow> string \<Rightarrow> bool" where
  "names_model je data m \<longleftrightarrow>
     (\<exists>fs msg. data = je_print je (AObj fs) \<and> map_of fs ''message'' = Some (AObj msg) \<and>
        map_of msg ''model'' = Some (AStr m))"

lemma message_start_model:
  assumes r: "rewrite_stream_frame je f m = Inr (data, EventMessageStart)"
  shows "names_model je data m"
proof -
  from r have "rewrite_message_start je (fr_data f) m = Inr data"
  proof (cases "case je_parse je (fr_data f) of None \<Rightarrow> None | Some v \<Rightarrow> map_option (Pair v) (struct_value type_member [] v)")
    case None
    with r show ?thesis
      unfolding rewrite_stream_frame_def by (auto simp: is_core_stream_event_def split: if_splits)
  next
    case (Some p)
    obtain v ty where "p = (v, ty)" by fastforce
    with Some r event_types show ?thesis
      unfolding rewrite_stream_frame_def
      by (cases "rewrite_message_start je (fr_data f) m") (auto simp: Let_def split: if_splits)
  qed
  then obtain fs msg c where o: "map_of_raw (map_of fs ''message'') = Some (Some msg)"
    "response_model (je_quote je) (map_of msg ''model'') m = Inr c"
    "data = je_print je (AObj (AList.update ''message'' (AObj (AList.update ''model'' (AStr c) msg)) fs))"
    by (auto simp: rewrite_message_start_def split: sum.splits option.splits)
  with response_model_requested [OF o(2)] show ?thesis
    unfolding names_model_def by (auto simp: update_conv' simp del: update_conv)
qed


text \<open>A stream of one error event.\<close>

definition demo_error :: frame where
  "demo_error = \<lparr>fr_event = ''error'', fr_data = ''{}''\<rparr>"

definition demo_error_world :: ds_world where
  "demo_error_world = demo_world\<lparr>dw_json := demo_json\<lparr>je_parse := (\<lambda>s. Some (AObj [(''type'', AStr ''error''),
     (''error'', AObj [(''type'', AStr ''api_error''), (''message'', AStr ''no'')])]))\<rparr>\<rparr>"

lemma demo_error_frame: "rewrite_stream_frame (dw_json demo_error_world) demo_error m = Inr (''{}'', ''error'')"
  by (simp add: rewrite_stream_frame_def demo_error_world_def demo_error_def struct_value_def into_struct_def
      type_member_def names_field_def fold_name_lower lower_ascii_def into_string_def is_core_stream_event_def
      StreamEventError_def EventMessageStop_def EventMessageStart_def valid_error_event_def
      error_event_member_def error_body_member_def)

lemma write_chunks_total: "(\<And>a b. bw a b = None) \<Longrightarrow> fst (write_chunks bw cs w) = None"
proof (induction cs arbitrary: w)
  case (Cons c cs)
  then have "write_body bw c w = (None, snd (write_body bw c w))"
    by (simp add: write_body_def Let_def)
  then obtain w1 where "write_body bw c w = (None, w1)" ..
  with Cons.IH [OF Cons.prems, of w1] show ?case by (simp add: write_chunks_def)
qed (simp add: write_chunks_def)


section \<open>The contract\<close>

lemma copy_response_untouched: "untouched w \<Longrightarrow> untouched (ds_copy_response_headers h w)"
  by (simp add: ds_copy_response_headers_def untouched_def committed_def)

lemma mark_route_untouched: "untouched w \<Longrightarrow> untouched (ds_mark_route m w)"
  by (simp add: ds_mark_route_def untouched_def Let_def)

lemma ds_stream_proper:
  assumes "untouched w" "final_status (dr_status reply)"
  shows "proper (ds_stream_response dw model reply w)"
proof -
  obtain frames sc where sc: "scan_all (new_scanner (dr_body reply) (dr_end reply)) = (frames, sc)" by fastforce
  let ?w = "write_header (dr_status reply)
      (set_header ''Content-Type'' ''text/event-stream'' (ds_copy_response_headers (dr_header reply) w))"
  have a: "answered_once ?w"
    by (intro header_commits set_header_untouched copy_response_untouched assms)
  obtain e fl w' where r: "stream_frames dw model frames (no_flags, ?w) = (e, fl, w')"
    by (cases "stream_frames dw model frames (no_flags, ?w)") auto
  from stream_frames_frame [OF r] a have w': "answered_once w'" "\<forall>x. e = Some x \<longrightarrow> is_response_started x"
    by (simp_all add: answered_once_def)
  have "is_response_started x" if "stream_end dw (sc_err sc) fl = Some x" for x
    using that by (auto simp: stream_end_def is_response_started_def split: option.splits if_splits)
  with w' r sc show ?thesis
    by (auto simp: ds_stream_response_def proper_def Let_def split: option.splits)
qed

lemma ds_json_proper:
  assumes "untouched w" "final_status (dr_status reply)"
  shows "proper (ds_json_response dw model reply w)"
proof -
  have a: "answered_once (write_header (dr_status reply)
      (set_header ''Content-Length'' l (ds_copy_response_headers (dr_header reply) w)))" for l
    by (intro header_commits set_header_untouched copy_response_untouched assms)
  have b: "answered_once w'" if "write_body bw s (write_header (dr_status reply)
      (set_header ''Content-Length'' l (ds_copy_response_headers (dr_header reply) w))) = (e, w')" for bw s l e w'
    using body_keeps_answer [OF a, of bw s l] that by simp
  show ?thesis using assms(1)
    by (auto simp: ds_json_response_def proper_def is_response_started_def Let_def
        split: option.splits sum.splits prod.splits dest: b)
qed

lemma ds_copy_proper: "answered_once w \<Longrightarrow> proper (ds_copy_body dw reply w)"
  using body_keeps_answer [of w "dw_accepts dw" "dr_body reply"]
  by (auto simp: ds_copy_body_def proper_def is_response_started_def Let_def split: option.splits prod.splits if_splits)

lemma ds_answer_proper:
  assumes "untouched w" "final_status (dr_status reply)"
  shows "proper (ds_answer dw rq reply w)"
proof -
  have "answered_once (write_header (dr_status reply) (ds_copy_response_headers (dr_header reply) w))"
    by (intro header_commits copy_response_untouched assms)
  note parts = ds_copy_proper [OF this] ds_stream_proper [OF assms] ds_json_proper [OF assms]
  have early: "proper (Some (Failure e), w)" for e
    using assms(1) by (simp add: proper_def is_response_started_def)
  show ?thesis by (auto simp: ds_answer_def Let_def parts early assms(1) simp del: proper_failure)
qed

definition ds_serve :: "ds_leg \<times> ds_world \<times> header \<times> routed \<Rightarrow> writer \<Rightarrow> leg_error option \<times> writer" where
  "ds_serve i w = (case i of (l, dw, caller, rq) \<Rightarrow> snd (ds_messages l dw caller rq w))"

definition ds_valid :: "ds_leg \<times> ds_world \<times> header \<times> routed \<Rightarrow> bool" where
  "ds_valid i \<longleftrightarrow> (case i of (l, dw, caller, rq) \<Rightarrow>
     (case dw_reply dw of Inl _ \<Rightarrow> True | Inr r \<Rightarrow> final_status (dr_status r)))"

lemma ds_serve_proper: "ds_valid i \<Longrightarrow> untouched w \<Longrightarrow> proper (ds_serve i w)"
proof -
  assume v: "ds_valid i" and u: "untouched w"
  obtain l dw caller rq where i: "i = (l, dw, caller, rq)" by (cases i)
  let ?w = "ds_mark_route (dc_upstream (rq_dec rq)) w"
  have m: "untouched ?w" using u by (rule mark_route_untouched)
  have early: "proper (Some (Failure e), ?w)" "proper (Some (Gone e), ?w)" for e
    using m by (simp_all add: proper_def is_response_started_def)
  have "proper (ds_answer dw rq r ?w)" if "dw_reply dw = Inr r" for r
    using ds_answer_proper [OF m] v i that by (simp add: ds_valid_def)
  with early show ?thesis
    by (auto simp: i ds_serve_def ds_messages_def ds_forward_def split: sum.splits option.splits prod.splits)
qed

interpretation ds: leg_contract ds_serve ds_valid
  by (rule leg_contractI) (rule ds_serve_proper)

end
