(* ===== verification/Sanitize.thy ===== *)
theory Sanitize
  imports WireTypes Synthetic Http
begin

text \<open>
  \<^verbatim>\<open>internal/anthropic/sanitize.go\<close>: thinking blocks that the proxy minted for a Codex turn
  are taken out before a conversation goes to Anthropic, which would refuse their
  signatures. There are two forms, one on decoded messages and one on the bytes of a body,
  which keeps every other byte of the values it takes apart. A raw value is its bytes; the
  JSON decoder of the library is the parameter \<open>raw_json\<close>.
\<close>

section \<open>Decoded messages\<close>

text \<open>\<^verbatim>\<open>HasSyntheticThinking\<close> searches the bytes.\<close>

definition has_synthetic_thinking :: "string \<Rightarrow> bool" where
  "has_synthetic_thinking raw \<longleftrightarrow> contains Marker raw"

definition minted :: "string \<Rightarrow> string \<Rightarrow> string \<Rightarrow> bool" where
  "minted kind sig dat \<longleftrightarrow>
     (kind = BlockThinking \<or> kind = BlockRedactedThinking) \<and> (contains Marker sig \<or> contains Marker dat)"

definition is_synthetic_block :: "block \<Rightarrow> bool" where
  "is_synthetic_block b \<longleftrightarrow> minted (bk_type b) (bk_signature b) (bk_data b)"

text \<open>
  The loop of \<^verbatim>\<open>SanitizeMessages\<close>. Content that was a string has one text block, which the loop
  keeps, as the code does by looking at the form first.
\<close>

fun sanitize_messages :: "message list \<Rightarrow> message list \<times> bool" where
  "sanitize_messages [] = ([], False)"
| "sanitize_messages (m # ms) =
     (case sanitize_messages ms of (out, changed) \<Rightarrow>
        (case mg_content m of
           None \<Rightarrow> (m # out, changed)
         | Some [] \<Rightarrow> (m # out, changed)
         | Some bs \<Rightarrow>
             let kept = filter (\<lambda>b. \<not> is_synthetic_block b) bs; dropped = length bs - length kept in
             if dropped = 0 then (m # out, changed)
             else if kept = [] then (out, True)
             else (m\<lparr>mg_content := Some kept\<rparr> # out, True)))"

definition sanitize_messages_request :: "messages_request option \<Rightarrow> messages_request option \<times> bool" where
  "sanitize_messages_request req =
     (case req of
        None \<Rightarrow> (None, False)
      | Some r \<Rightarrow>
          (case sanitize_messages (rq_messages r) of (ms, changed) \<Rightarrow>
             (Some (if changed then r\<lparr>rq_messages := ms\<rparr> else r), changed)))"

section \<open>The bytes of a body\<close>

text \<open>
  What the library reads from a raw value: the members of an object in their order, keys
  decoded and values as they stand, up to its closing brace; the elements of an array; the
  three fields of a block that mark it. It writes a key.
\<close>

record raw_json =
  rj_members :: "string \<Rightarrow> go_error + (string \<times> string) list"
  rj_elements :: "string \<Rightarrow> string list option"
  rj_marks :: "string \<Rightarrow> go_error + string \<times> string \<times> string"
  rj_key :: "string \<Rightarrow> string"

record sanitize_report =
  sr_changed :: bool
  sr_removed :: nat
  sr_headless :: bool

definition empty_report :: sanitize_report where
  "empty_report = \<lparr>sr_changed = False, sr_removed = 0, sr_headless = False\<rparr>"

text \<open>An object keeps the place of the first member of a name and the value of the last.\<close>

definition decode_object :: "raw_json \<Rightarrow> string \<Rightarrow> go_error + (string \<times> string) list" where
  "decode_object rj raw =
     (case rj_members rj raw of
        Inl e \<Rightarrow> Inl e
      | Inr ms \<Rightarrow> Inr (foldl (\<lambda>acc (k, v). AList.update k v acc) [] ms))"

definition decode_array :: "raw_json \<Rightarrow> string \<Rightarrow> string list option" where
  "decode_array rj raw =
     (let trimmed = trim_space raw
      in if trimmed = [] \<or> hd trimmed \<noteq> CHR ''['' then None else rj_elements rj trimmed)"

definition encode_array :: "string list \<Rightarrow> string" where
  "encode_array es = ''['' @ join_with '','' es @ '']''"

definition encode_object :: "raw_json \<Rightarrow> (string \<times> string) list \<Rightarrow> string" where
  "encode_object rj ms = ''{'' @ join_with '','' (map (\<lambda>(k, v). rj_key rj k @ '':'' @ v) ms) @ ''}''"

definition classify_raw_block :: "raw_json \<Rightarrow> string \<Rightarrow> go_error + string \<times> bool" where
  "classify_raw_block rj raw =
     (case rj_marks rj raw of
        Inl e \<Rightarrow> Inl (Wrapped (''utraque/anthropic: decode content block: '' @ error_text e) e)
      | Inr (kind, sig, dat) \<Rightarrow> Inr (kind, minted kind sig dat))"

text \<open>The loop over the blocks: those kept, how many went, and whether a tool call stays.\<close>

fun raw_blocks :: "raw_json \<Rightarrow> string list \<Rightarrow> go_error + string list \<times> nat \<times> bool" where
  "raw_blocks rj [] = Inr ([], 0, False)"
| "raw_blocks rj (b # bs) =
     (case classify_raw_block rj b of
        Inl e \<Rightarrow> Inl e
      | Inr (kind, ours) \<Rightarrow>
          (case raw_blocks rj bs of
             Inl e \<Rightarrow> Inl e
           | Inr (kept, dropped, tool) \<Rightarrow>
               if ours then Inr (kept, Suc dropped, tool)
               else Inr (b # kept, dropped, tool \<or> kind = BlockToolUse)))"

datatype message_edit = Unchanged | Dropped | Rewritten string

definition sanitize_raw_message ::
  "raw_json \<Rightarrow> string \<Rightarrow> sanitize_report \<Rightarrow> go_error + message_edit \<times> sanitize_report" where
  "sanitize_raw_message rj raw rep =
     (case decode_object rj raw of
        Inl e \<Rightarrow> Inl e
      | Inr obj \<Rightarrow>
          (case map_of obj ''content'' of
             None \<Rightarrow> Inr (Unchanged, rep)
           | Some content \<Rightarrow>
               (case decode_array rj content of
                  None \<Rightarrow> Inr (Unchanged, rep)
                | Some blocks \<Rightarrow>
                    (case raw_blocks rj blocks of
                       Inl e \<Rightarrow> Inl e
                     | Inr (kept, dropped, tool) \<Rightarrow>
                         if dropped = 0 then Inr (Unchanged, rep)
                         else
                           let rep = rep\<lparr>sr_removed := sr_removed rep + dropped\<rparr> in
                           if kept = [] then Inr (Dropped, rep)
                           else Inr (Rewritten (encode_object rj (AList.update ''content'' (encode_array kept) obj)),
                                     if tool then rep\<lparr>sr_headless := True\<rparr> else rep)))))"

text \<open>The loop over the messages.\<close>

fun raw_messages ::
  "raw_json \<Rightarrow> string list \<Rightarrow> sanitize_report \<Rightarrow> go_error + string list \<times> sanitize_report" where
  "raw_messages rj [] rep = Inr ([], rep)"
| "raw_messages rj (m # ms) rep =
     (if \<not> has_synthetic_thinking m then
        (case raw_messages rj ms rep of Inl e \<Rightarrow> Inl e | Inr (kept, rep) \<Rightarrow> Inr (m # kept, rep))
      else case sanitize_raw_message rj m rep of
        Inl e \<Rightarrow> Inl e
      | Inr (edit, rep) \<Rightarrow>
          (case raw_messages rj ms (case edit of Unchanged \<Rightarrow> rep | _ \<Rightarrow> rep\<lparr>sr_changed := True\<rparr>) of
             Inl e \<Rightarrow> Inl e
           | Inr (kept, rep) \<Rightarrow>
               Inr (case edit of Unchanged \<Rightarrow> m # kept | Dropped \<Rightarrow> kept | Rewritten s \<Rightarrow> s # kept, rep)))"

definition sanitize_raw_messages ::
  "raw_json \<Rightarrow> string \<Rightarrow> go_error + string \<times> sanitize_report" where
  "sanitize_raw_messages rj raw =
     (case decode_array rj raw of
        None \<Rightarrow> Inl (PlainError ''utraque/anthropic: messages is not a JSON array'')
      | Some msgs \<Rightarrow>
          (case raw_messages rj msgs empty_report of
             Inl e \<Rightarrow> Inl e
           | Inr (kept, rep) \<Rightarrow> Inr (if sr_changed rep then encode_array kept else [], rep)))"

text \<open>\<^verbatim>\<open>SanitizeWithReport\<close>: the bytes to send, the report, and the error that stopped it.\<close>

definition sanitize_with_report :: "raw_json \<Rightarrow> string \<Rightarrow> string \<times> sanitize_report \<times> go_error option" where
  "sanitize_with_report rj raw =
     (if \<not> has_synthetic_thinking raw then (raw, empty_report, None)
      else case decode_object rj raw of
        Inl e \<Rightarrow> (raw, empty_report, Some e)
      | Inr obj \<Rightarrow>
          (case map_of obj ''messages'' of
             None \<Rightarrow> (raw, empty_report, None)
           | Some msgs \<Rightarrow>
               (case sanitize_raw_messages rj msgs of
                  Inl e \<Rightarrow> (raw, empty_report, Some e)
                | Inr (cleaned, rep) \<Rightarrow>
                    if \<not> sr_changed rep then (raw, empty_report, None)
                    else (encode_object rj (AList.update ''messages'' cleaned obj), rep, None))))"

definition sanitize :: "raw_json \<Rightarrow> string \<Rightarrow> string \<times> bool \<times> go_error option" where
  "sanitize rj raw = (case sanitize_with_report rj raw of (out, rep, e) \<Rightarrow> (out, sr_changed rep, e))"

section \<open>What is left\<close>

definition message_list :: "message \<Rightarrow> block list" where
  "message_list m = (case mg_content m of None \<Rightarrow> [] | Some bs \<Rightarrow> bs)"

text \<open>What becomes of one message.\<close>

definition strip_message :: "message \<Rightarrow> message option" where
  "strip_message m =
     (if list_all (\<lambda>b. \<not> is_synthetic_block b) (message_list m) then Some m
      else if list_all is_synthetic_block (message_list m) then None
      else Some (m\<lparr>mg_content := Some (filter (\<lambda>b. \<not> is_synthetic_block b) (message_list m))\<rparr>))"

lemma filter_all_iff: "length xs \<le> length (filter P xs) \<longleftrightarrow> list_all P xs"
  using length_filter_le [of P xs] filter_id_conv [of P xs] length_filter_less [of _ xs P]
  by (force simp: list_all_iff not_le)

lemma filter_all_Cons: "Suc (length xs) \<le> length (filter P (x # xs)) \<longleftrightarrow> P x \<and> list_all P xs"
  using filter_all_iff [of "x # xs" P] by (simp del: filter.simps)

lemma kept_empty_iff: "filter (\<lambda>b. \<not> P b) bs = [] \<longleftrightarrow> list_all P bs"
  by (simp add: filter_empty_conv list_all_iff)

lemma none_iff: "list_ex P bs \<longleftrightarrow> \<not> list_all (\<lambda>b. \<not> P b) bs"
  by (simp add: list_all_iff list_ex_iff)

lemma sanitize_messages_Cons:
  "sanitize_messages (m # ms) =
     ((case strip_message m of None \<Rightarrow> fst (sanitize_messages ms) | Some m' \<Rightarrow> m' # fst (sanitize_messages ms)),
      list_ex is_synthetic_block (message_list m) \<or> snd (sanitize_messages ms))"
  unfolding none_iff strip_message_def
  by (cases "sanitize_messages ms"; cases "mg_content m"; cases "message_list m")
    (auto simp add: message_list_def Let_def filter_all_Cons kept_empty_iff simp del: filter.simps)

lemma sanitize_messages_eq:
  "sanitize_messages ms =
     (List.map_filter strip_message ms, list_ex (\<lambda>m. list_ex is_synthetic_block (message_list m)) ms)"
  by (induction ms)
    (auto simp: sanitize_messages_Cons map_filter_simps simp del: sanitize_messages.simps(2) split: option.splits)

lemma strip_message_blocks:
  "(case strip_message m of None \<Rightarrow> [] | Some m' \<Rightarrow> message_list m') =
   filter (\<lambda>b. \<not> is_synthetic_block b) (message_list m)"
  by (auto simp: strip_message_def message_list_def list_all_iff filter_empty_conv filter_id_conv)

lemma strip_message_clean:
  "strip_message m = Some m' \<Longrightarrow> list_all (\<lambda>b. \<not> is_synthetic_block b) (message_list m')"
  by (auto simp: strip_message_def message_list_def list_all_iff split: if_splits)

lemma strip_message_id:
  "list_all (\<lambda>b. \<not> is_synthetic_block b) (message_list m) \<Longrightarrow> strip_message m = Some m"
  by (simp add: strip_message_def)

lemma stripped_clean:
  "list_all (\<lambda>m. list_all (\<lambda>b. \<not> is_synthetic_block b) (message_list m)) (List.map_filter strip_message ms)"
  by (induction ms) (auto simp: map_filter_simps strip_message_clean split: option.splits)

lemma stripped_id:
  "list_all (\<lambda>m. list_all (\<lambda>b. \<not> is_synthetic_block b) (message_list m)) ms \<Longrightarrow>
   List.map_filter strip_message ms = ms"
  by (induction ms) (auto simp: map_filter_simps strip_message_id)

lemma stripped_blocks:
  "concat (map message_list (List.map_filter strip_message ms)) =
   filter (\<lambda>b. \<not> is_synthetic_block b) (concat (map message_list ms))"
proof (induction ms)
  case (Cons m ms)
  then show ?case
    using strip_message_blocks [of m] by (auto simp: map_filter_simps split: option.splits)
qed (simp add: map_filter_simps)

text \<open>
  The sanitizer leaves exactly the blocks that the proxy did not mint, in their
  order; it reports a change when and only when it removed a block; and a second run finds
  nothing more to do.
\<close>

theorem sanitizer_removes_minted_only:
  "concat (map message_list (fst (sanitize_messages ms))) =
     filter (\<lambda>b. \<not> is_synthetic_block b) (concat (map message_list ms)) \<and>
   snd (sanitize_messages ms) = list_ex is_synthetic_block (concat (map message_list ms)) \<and>
   sanitize_messages (fst (sanitize_messages ms)) = (fst (sanitize_messages ms), False)"
  using stripped_clean [of ms] stripped_id [OF stripped_clean, of ms] stripped_blocks [of ms]
  by (simp add: sanitize_messages_eq list_ex_iff list_all_iff)

section \<open>The raw form is surgical\<close>

text \<open>What becomes of one message's bytes when no block fails to decode.\<close>

definition block_minted :: "raw_json \<Rightarrow> string \<Rightarrow> bool" where
  "block_minted rj b = (case classify_raw_block rj b of Inl _ \<Rightarrow> False | Inr (_, ours) \<Rightarrow> ours)"

definition strip_raw :: "raw_json \<Rightarrow> string \<Rightarrow> string option" where
  "strip_raw rj m =
     (if \<not> has_synthetic_thinking m then Some m
      else case decode_object rj m of
        Inl _ \<Rightarrow> None
      | Inr obj \<Rightarrow>
          (case Option.bind (map_of obj ''content'') (decode_array rj) of
             None \<Rightarrow> Some m
           | Some bs \<Rightarrow>
               let kept = filter (\<lambda>b. \<not> block_minted rj b) bs
               in if kept = bs then Some m
                  else if kept = [] then None
                  else Some (encode_object rj (AList.update ''content'' (encode_array kept) obj))))"

lemma raw_blocks_kept:
  "raw_blocks rj bs = Inr (kept, dropped, tool) \<Longrightarrow>
   kept = filter (\<lambda>b. \<not> block_minted rj b) bs \<and> length bs = length kept + dropped"
  by (induction bs arbitrary: kept dropped tool)
    (auto simp: block_minted_def split: sum.splits if_splits)

lemma kept_all_iff:
  "length bs = length (filter P bs) + d \<Longrightarrow> d = 0 \<longleftrightarrow> filter P bs = bs"
  using filter_all_iff [of bs P] by (auto simp: list_all_iff filter_id_conv)

lemma raw_message_edit:
  assumes "has_synthetic_thinking m" "sanitize_raw_message rj m rep = Inr (edit, rep')"
  shows "strip_raw rj m = (case edit of Unchanged \<Rightarrow> Some m | Dropped \<Rightarrow> None | Rewritten s \<Rightarrow> Some s) \<and>
    (sr_removed rep' > sr_removed rep \<longleftrightarrow> edit \<noteq> Unchanged) \<and> sr_removed rep \<le> sr_removed rep' \<and>
    sr_changed rep' = sr_changed rep"
proof -
  obtain obj where d: "decode_object rj m = Inr obj"
    using assms(2) by (auto simp: sanitize_raw_message_def split: sum.splits)
  show ?thesis
  proof (cases "Option.bind (map_of obj ''content'') (decode_array rj)")
    case None
    with d assms show ?thesis
      by (auto simp: sanitize_raw_message_def strip_raw_def split: option.splits)
  next
    case (Some bs)
    then obtain v where v: "map_of obj ''content'' = Some v" "decode_array rj v = Some bs"
      by (cases "map_of obj ''content''") auto
    obtain kept dropped tool where r: "raw_blocks rj bs = Inr (kept, dropped, tool)"
      using assms(2) d v by (auto simp: sanitize_raw_message_def split: sum.splits)
    note k = raw_blocks_kept [OF r]
    have z: "dropped = 0 \<longleftrightarrow> kept = bs"
      using kept_all_iff [of bs "\<lambda>b. \<not> block_minted rj b" dropped] k by simp
    show ?thesis
      using assms d v r z k
      by (auto simp: sanitize_raw_message_def strip_raw_def Let_def split: if_splits)
  qed
qed

lemma raw_messages_stripped:
  "raw_messages rj ms rep = Inr (kept, rep') \<Longrightarrow> sr_changed rep = (sr_removed rep > 0) \<Longrightarrow>
   kept = List.map_filter (strip_raw rj) ms \<and> sr_changed rep' = (sr_removed rep' > 0)"
proof (induction ms arbitrary: rep kept rep')
  case (Cons m ms)
  show ?case
  proof (cases "has_synthetic_thinking m")
    case False
    then obtain kept' where k: "raw_messages rj ms rep = Inr (kept', rep')" "kept = m # kept'"
      using Cons.prems(1) by (auto split: sum.splits)
    from Cons.IH [OF k(1) Cons.prems(2)] show ?thesis
      using k(2) False by (simp add: map_filter_simps strip_raw_def)
  next
    case True
    with Cons.prems(1) obtain edit rep1 where e: "sanitize_raw_message rj m rep = Inr (edit, rep1)"
      by (auto split: sum.splits)
    let ?rep = "case edit of Unchanged \<Rightarrow> rep1 | _ \<Rightarrow> rep1\<lparr>sr_changed := True\<rparr>"
    obtain kept' where k: "raw_messages rj ms ?rep = Inr (kept', rep')"
      "kept = (case edit of Unchanged \<Rightarrow> m # kept' | Dropped \<Rightarrow> kept' | Rewritten s \<Rightarrow> s # kept')"
      using Cons.prems(1) True e by (auto split: sum.splits)
    note m = raw_message_edit [OF True e]
    have "sr_changed ?rep = (sr_removed ?rep > 0)"
      using m Cons.prems(2) by (auto split: message_edit.splits)
    from Cons.IH [OF k(1) this] show ?thesis
      using m k(2) by (auto simp: map_filter_simps split: message_edit.splits)
  qed
qed (simp add: map_filter_simps)


text \<open>A body with one message of which the thinking block is ours and the tool call stays.\<close>

definition demo_raw :: raw_json where
  "demo_raw = \<lparr>rj_members = (\<lambda>s. if s = Marker then Inr [(''content'', ''[2]'')] else Inr [(''m'', ''1''), (''messages'', ''[1]'')]),
    rj_elements = (\<lambda>s. if s = ''[1]'' then Some [''0'', Marker] else Some [''t'', ''u'']),
    rj_marks = (\<lambda>s. if s = ''t'' then Inr (BlockThinking, Marker, []) else Inr (BlockToolUse, [], [])),
    rj_key = (\<lambda>k. k)\<rparr>"

lemma demo_raw_run:
  "sanitize_with_report demo_raw (CHR ''x'' # Marker) =
     (''{m:1,messages:[0,{content:[u]}]}'', \<lparr>sr_changed = True, sr_removed = 1, sr_headless = True\<rparr>, None)"
proof -
  have t: "trim_space ''[1]'' = ''[1]''" "trim_space ''[2]'' = ''[2]''"
    by (simp_all add: trim_space_graphic graphic_def)
  have m: "has_synthetic_thinking (CHR ''x'' # Marker)" "has_synthetic_thinking Marker"
    "\<not> has_synthetic_thinking ''0''"
    by code_simp+
  show ?thesis
    using m by (simp add: sanitize_with_report_def decode_object_def demo_raw_def t Marker_def
        sanitize_raw_messages_def decode_array_def empty_report_def sanitize_raw_message_def
        classify_raw_block_def minted_def BlockThinking_def BlockToolUse_def BlockRedactedThinking_def
        encode_array_def encode_object_def has_synthetic_thinking_def contains_def)
qed


end
