(* ===== verification/Passthrough.thy ===== *)
theory Passthrough
  imports Sanitize Relay Sse
begin

text \<open>
  \<^verbatim>\<open>internal/anthropic/passthrough.go\<close>: the leg that relays a request to Anthropic under the
  caller's own credential. One request is a pure function of what the caller sent and of
  what the outside does. Logging and the per-request summary are left out. The theorems say
  that nothing of the exchange is changed beyond what the code names, and that the secret
  of the proxy stays with it.
\<close>

section \<open>Configuration\<close>

definition DefaultMaxBodyBytes :: int where "DefaultMaxBodyBytes = 64 * 2 ^ 20"

record pass_leg =
  pl_base :: url
  pl_max_body :: int
  pl_sanitize :: bool
  pl_idle :: int

definition with_max_body_bytes :: "int \<Rightarrow> pass_leg \<Rightarrow> pass_leg" where
  "with_max_body_bytes n l = l\<lparr>pl_max_body := (if n \<le> 0 then DefaultMaxBodyBytes else n)\<rparr>"

definition with_sanitizer :: "bool \<Rightarrow> pass_leg \<Rightarrow> pass_leg" where
  "with_sanitizer b l = l\<lparr>pl_sanitize := b\<rparr>"

definition with_upstream_idle :: "int \<Rightarrow> pass_leg \<Rightarrow> pass_leg" where
  "with_upstream_idle d l = l\<lparr>pl_idle := (if d < 0 then 0 else d)\<rparr>"

text \<open>\<^verbatim>\<open>New\<close>; \<open>tr\<close> says whether there is a transport, and the options act in their order.\<close>

definition new_pass_leg ::
  "url_env \<Rightarrow> string \<Rightarrow> bool \<Rightarrow> (pass_leg \<Rightarrow> pass_leg) list \<Rightarrow> go_error + pass_leg" where
  "new_pass_leg ue base_url tr opts =
     (if \<not> tr then Inl (PlainError ''utraque/anthropic: nil transport'')
      else case ur_parse ue (trim_space base_url) of
        Inl e \<Rightarrow> Inl (Wrapped (''utraque/anthropic: parse base url: '' @ error_text e) e)
      | Inr u \<Rightarrow>
          if u_scheme u \<noteq> ''http'' \<and> u_scheme u \<noteq> ''https'' then
            Inl (PlainError (''utraque/anthropic: base url must be http or https, got '' @ go_quote (ur_quote ue) base_url))
          else if u_host u = [] then
            Inl (PlainError (''utraque/anthropic: base url has no host: '' @ go_quote (ur_quote ue) base_url))
          else
            let u = (bare_url u)\<lparr>u_path := trim_slash (u_path u), u_raw_path := []\<rparr>
            in Inr (fold (\<lambda>f l. f l) opts
                 \<lparr>pl_base = u, pl_max_body = DefaultMaxBodyBytes, pl_sanitize = True, pl_idle = 0\<rparr>))"

section \<open>Headers\<close>

definition LocalToken :: string where "LocalToken = ''X-Utraque-Token''"
definition RequestID :: string where "RequestID = ''X-Utraque-Request-Id''"

definition hop_by_hop :: "string set" where
  "hop_by_hop = {''Connection'', ''Keep-Alive'', ''Proxy-Authenticate'', ''Proxy-Authorization'',
     ''Proxy-Connection'', ''Te'', ''Trailer'', ''Transfer-Encoding'', ''Upgrade''}"

definition is_hop_by_hop :: "string \<Rightarrow> bool" where
  "is_hop_by_hop name \<longleftrightarrow> canonical_key name \<in> hop_by_hop"

definition connection_tokens :: "header \<Rightarrow> string set" where
  "connection_tokens h =
     set (map canonical_key
       (filter (\<lambda>t. t \<noteq> []) (map trim_space (concat (map (split_on CHR '','') (header_values h ''Connection''))))))"

text \<open>
  The two loops over a header. Go visits its names in any order, which matters only when two
  of them have one canonical form; here it is the order of the list.
\<close>

definition keep_request :: "header \<Rightarrow> string \<Rightarrow> bool" where
  "keep_request src ck \<longleftrightarrow>
     \<not> (is_hop_by_hop ck \<or> ck = ''Content-Length'' \<or> ck = LocalToken) \<and> ck \<notin> connection_tokens src"

definition keep_response :: "header \<Rightarrow> string \<Rightarrow> bool" where
  "keep_response src ck \<longleftrightarrow> \<not> (is_hop_by_hop ck \<or> ck = RequestID) \<and> ck \<notin> connection_tokens src"

definition copy_kept :: "(string \<Rightarrow> bool) \<Rightarrow> header \<Rightarrow> header \<Rightarrow> header" where
  "copy_kept keep src dst =
     foldl (\<lambda>h (k, vs). let ck = canonical_key k in if keep ck then AList.update ck vs h else h) dst src"

definition copy_request_headers :: "header \<Rightarrow> header \<Rightarrow> header" where
  "copy_request_headers src = copy_kept (keep_request src) src"

definition copy_response_headers :: "header \<Rightarrow> header \<Rightarrow> header" where
  "copy_response_headers src = copy_kept (keep_response src) src"

definition pass_request_headers :: "header \<Rightarrow> header" where
  "pass_request_headers caller =
     (let h = copy_request_headers caller []
      in if map_of h ''User-Agent'' = None then AList.update ''User-Agent'' [] h else h)"

section \<open>The request\<close>

text \<open>
  What the caller sends beside its headers: the method, the path as it is escaped, the query,
  the declared length of the body (-1 when there is none), and the body with how reading it
  ends. The last field is \<^verbatim>\<open>errors.As\<close> to a \<^verbatim>\<open>*http.MaxBytesError\<close>, with its limit.
\<close>

record inbound =
  ib_method :: string
  ib_path :: string
  ib_query :: string
  ib_force_query :: bool
  ib_header :: header
  ib_length :: int
  ib_body :: "(string \<times> go_error) option"
  ib_max_bytes :: "go_error \<Rightarrow> int option"

definition request_too_large :: "string \<Rightarrow> go_error" where
  "request_too_large msg = new_error TypeRequestTooLarge msg"

text \<open>\<^verbatim>\<open>requestBody\<close>: the limited reader ends after one byte more than the limit.\<close>

definition pass_request_body :: "pass_leg \<Rightarrow> inbound \<Rightarrow> routed option \<Rightarrow> go_error + string" where
  "pass_request_body l r rq =
     (case rq of
        Some rq \<Rightarrow> Inr (rq_raw rq)
      | None \<Rightarrow>
          (case ib_body r of
             None \<Rightarrow> Inr []
           | Some (bytes, fin) \<Rightarrow>
               let limit = (if pl_max_body l \<le> 0 then DefaultMaxBodyBytes else pl_max_body l) in
               if limit < int (length bytes) then
                 Inl (request_too_large (''request body exceeds '' @ itoa limit @ '' bytes''))
               else if fin \<noteq> EOF then
                 Inl (case ib_max_bytes r fin of
                        Some m \<Rightarrow> request_too_large (''request body exceeds the '' @ itoa m @ '' byte limit'')
                      | None \<Rightarrow> wrap_error fin TypeInvalidRequest ''read request body'')
               else Inr bytes))"

definition upstream_url :: "url_env \<Rightarrow> pass_leg \<Rightarrow> inbound \<Rightarrow> string" where
  "upstream_url ue l r =
     ur_string ue (pl_base l) @ (if ib_path r = [] then ''/'' else ib_path r) @
     (if ib_query r \<noteq> [] \<or> ib_force_query r then ''?'' @ ib_query r else [])"

section \<open>The exchange\<close>

text \<open>The body of a reply comes in pieces.\<close>

record pass_reply =
  pr_status :: int
  pr_header :: header
  pr_chunks :: "string list"
  pr_end :: go_error

record pass_world =
  pw_url :: url_env
  pw_raw :: raw_json
  pw_request :: "go_error option"                \<comment> \<open>an error of \<^verbatim>\<open>NewRequestWithContext\<close>\<close>
  pw_reply :: "go_error + pass_reply"
  pw_gone :: "go_error option"                   \<comment> \<open>\<^verbatim>\<open>r.Context().Err()\<close> when the exchange fails\<close>
  pw_fired :: bool                               \<comment> \<open>the idle guard\<close>
  pw_timeout :: string                           \<comment> \<open>the text of its timeout\<close>
  pw_accepts :: "string \<Rightarrow> string \<Rightarrow> go_error option"
  pw_flush :: "string \<Rightarrow> go_error option"        \<comment> \<open>a flush once these bytes are written\<close>

record outbound =
  ob_method :: string
  ob_url :: string
  ob_header :: header
  ob_body :: string

text \<open>\<^verbatim>\<open>io.CopyBuffer\<close> into the flushing writer.\<close>

fun copy_flushing ::
  "(string \<Rightarrow> string \<Rightarrow> go_error option) \<Rightarrow> (string \<Rightarrow> go_error option) \<Rightarrow> string list \<Rightarrow> go_error \<Rightarrow> writer \<Rightarrow>
   go_error option \<times> writer" where
  "copy_flushing bw fl [] fin w = (if fin = EOF then None else Some fin, w)"
| "copy_flushing bw fl (c # cs) fin w =
     (case write_body bw c w of
        (Some e, w) \<Rightarrow> (Some e, w)
      | (None, w) \<Rightarrow>
          (case fl (wr_body w) of
             Some e \<Rightarrow> (Some e, w)
           | None \<Rightarrow> copy_flushing bw fl cs fin w))"

text \<open>The exception to the purity of the bytes; a body that does not decode goes as it is.\<close>

definition sanitized_body :: "pass_leg \<Rightarrow> raw_json \<Rightarrow> string \<Rightarrow> string" where
  "sanitized_body l rj body =
     (if pl_sanitize l \<and> has_synthetic_thinking body then
        (case sanitize_with_report rj body of
           (clean, rep, Some e) \<Rightarrow> body
         | (clean, rep, None) \<Rightarrow> if sr_changed rep then clean else body)
      else body)"

definition pass_answer :: "pass_world \<Rightarrow> pass_reply \<Rightarrow> writer \<Rightarrow> leg_error option \<times> writer" where
  "pass_answer pw reply w =
     (let w = w\<lparr>wr_header := copy_response_headers (pr_header reply) (wr_header w)\<rparr>;
          w = write_header (pr_status reply) w
      in case copy_flushing (pw_accepts pw) (pw_flush pw) (pr_chunks reply) (pr_end reply) w of
           (None, w) \<Rightarrow> (None, w)
         | (Some e, w) \<Rightarrow>
             (Some (case pw_gone pw of
                      Some g \<Rightarrow> StartedGone g
                    | None \<Rightarrow>
                        if pw_fired pw
                        then Started (Wrapped (''upstream stream went silent for '' @ pw_timeout pw @ '': '' @ error_text e) e)
                        else Started (Wrapped (''streaming upstream response: '' @ error_text e) e)), w))"

definition pass_forward ::
  "pass_leg \<Rightarrow> pass_world \<Rightarrow> inbound \<Rightarrow> routed option \<Rightarrow> writer \<Rightarrow> outbound option \<times> leg_error option \<times> writer" where
  "pass_forward l pw r rq w =
     (case pass_request_body l r rq of
        Inl e \<Rightarrow> (None, Some (Failure e), w)
      | Inr body \<Rightarrow>
          (case pw_request pw of
             Some e \<Rightarrow> (None, Some (Failure (wrap_error e TypeInvalidRequest ''build upstream request'')), w)
           | None \<Rightarrow>
               (Some \<lparr>ob_method = ib_method r, ob_url = upstream_url (pw_url pw) l r,
                      ob_header = pass_request_headers (ib_header r),
                      ob_body = sanitized_body l (pw_raw pw) body\<rparr>,
                (case pw_reply pw of
                   Inl e \<Rightarrow>
                     (Some (case pw_gone pw of
                              Some g \<Rightarrow> Gone g
                            | None \<Rightarrow> Failure (upstream_failure (pw_url pw) ''upstream'' e (pw_fired pw) (pw_timeout pw))), w)
                 | Inr reply \<Rightarrow> pass_answer pw reply w))))"

text \<open>
  The catch-all. What a handler does in the end: it returns, or it panics with
  \<^verbatim>\<open>http.ErrAbortHandler\<close>, which breaks the connection, or with anything else.
\<close>

datatype handler_end = Returned | Aborted | Panicked string

definition pass_serve_http ::
  "(error_body \<Rightarrow> string) \<Rightarrow> pass_leg \<Rightarrow> pass_world \<Rightarrow> inbound \<Rightarrow> writer \<Rightarrow> handler_end \<times> writer" where
  "pass_serve_http enc l pw r w =
     (case snd (pass_forward l pw r None w) of
        (None, w) \<Rightarrow> (Returned, w)
      | (Some e, w) \<Rightarrow>
          if is_response_started e then (Aborted, w)
          else if is_client_gone e then (Returned, w)
          else (Returned, respond (pw_accepts pw) (write_error enc (Some (leg_cause e))) w))"

section \<open>A request\<close>

text \<open>A caller with its own credential and with the proxy's secret, and a reply in two pieces.\<close>

definition demo_inbound :: inbound where
  "demo_inbound = \<lparr>ib_method = ''POST'', ib_path = ''/v1/messages'', ib_query = [], ib_force_query = False,
     ib_header = [(''Authorization'', [''Bearer x'']), (''X-Utraque-Token'', [''secret''])], ib_length = -1, ib_body = None,
     ib_max_bytes = (\<lambda>e. None)\<rparr>"

definition demo_pass_leg :: pass_leg where
  "demo_pass_leg = \<lparr>pl_base = \<lparr>u_scheme = ''https'', u_user = None, u_host = ''h'', u_path = [], u_raw_path = [],
     u_raw_query = [], u_force_query = False, u_fragment = [], u_raw_fragment = []\<rparr>,
     pl_max_body = DefaultMaxBodyBytes, pl_sanitize = True, pl_idle = 0\<rparr>"

definition demo_pass_reply :: pass_reply where
  "demo_pass_reply = \<lparr>pr_status = 200, pr_header = [], pr_chunks = [''ab'', ''c''], pr_end = EOF\<rparr>"

definition demo_pass_world :: pass_world where
  "demo_pass_world = \<lparr>pw_url = \<lparr>ur_parse = (\<lambda>s. Inr (pl_base demo_pass_leg)), ur_string = u_host, ur_quote = id,
       ur_error = (\<lambda>e. None), ur_timeout = (\<lambda>e. False)\<rparr>,
     pw_raw = demo_raw, pw_request = None, pw_reply = Inr demo_pass_reply, pw_gone = None, pw_fired = False,
     pw_timeout = ''1s'', pw_accepts = (\<lambda>a b. None), pw_flush = (\<lambda>a. None)\<rparr>"

definition demo_pass_request :: routed where
  "demo_pass_request = \<lparr>rq_raw = ''hi'', rq_streaming = True,
     rq_dec = \<lparr>dc_backend = Anthropic, dc_upstream = [], dc_client = ''m'', dc_effort = [], dc_source = SourceNone\<rparr>\<rparr>"

lemma demo_pass_run:
  "\<exists>ob w'. pass_forward demo_pass_leg demo_pass_world demo_inbound (Some demo_pass_request) (new_writer []) =
     (Some ob, None, w')"
  by (simp add: pass_forward_def pass_request_body_def demo_pass_world_def pass_answer_def demo_pass_reply_def
      write_body_def Let_def)

section \<open>Headers that cross\<close>

text \<open>The headers of a request that \<^verbatim>\<open>net/http\<close> has read: canonical names, each once.\<close>

definition canonical_header :: "header \<Rightarrow> bool" where
  "canonical_header h \<longleftrightarrow> distinct (map fst h) \<and> list_all (\<lambda>(k, vs). canonical_key k = k) h"

lemma copy_kept_drops: "\<not> keep k \<Longrightarrow> map_of (copy_kept keep src dst) k = map_of dst k"
  by (induction src arbitrary: dst) (auto simp: copy_kept_def Let_def update_conv')

lemma copy_kept_of:
  "canonical_header src \<Longrightarrow>
   map_of (copy_kept keep src dst) k = (if keep k \<and> map_of src k \<noteq> None then map_of src k else map_of dst k)"
proof (induction src arbitrary: dst)
  case (Cons p src)
  obtain k' vs where p: "p = (k', vs)" by fastforce
  have c: "canonical_header src" "canonical_key k' = k'" "map_of src k' = None"
    using Cons.prems by (auto simp: canonical_header_def p map_of_eq_None_iff)
  have "copy_kept keep (p # src) dst = copy_kept keep src (if keep k' then AList.update k' vs dst else dst)"
    using c(2) by (simp add: copy_kept_def p Let_def)
  with Cons.IH [OF c(1)] c(3) show ?case by (auto simp: p update_conv')
qed (simp add: copy_kept_def)

lemma pass_names: "LocalToken \<noteq> ''User-Agent''" "is_hop_by_hop ''Connection''" "\<not> is_hop_by_hop ''User-Agent''"
  "canonical_key ''Proxy-Authorization'' = ''Proxy-Authorization''"
proof -
  show "is_hop_by_hop ''Connection''" "canonical_key ''Proxy-Authorization'' = ''Proxy-Authorization''"
    by code_simp+
  have "canonical_key ''User-Agent'' = ''User-Agent''" by code_simp
  then show "\<not> is_hop_by_hop ''User-Agent''" by (simp add: is_hop_by_hop_def hop_by_hop_def)
qed (simp add: LocalToken_def)

lemma pass_request_headers_of:
  "map_of (pass_request_headers caller) k =
     (case map_of (copy_request_headers caller []) k of
        None \<Rightarrow> if k = ''User-Agent'' then Some [] else None
      | Some vs \<Rightarrow> Some vs)"
  by (auto simp: pass_request_headers_def Let_def update_conv' split: option.split)

lemma pass_forward_sent:
  "fst (pass_forward l pw r rq w) = Some ob \<Longrightarrow>
   \<exists>body. pass_request_body l r rq = Inr body \<and> pw_request pw = None \<and> ob_method ob = ib_method r \<and>
     ob_header ob = pass_request_headers (ib_header r) \<and> ob_body ob = sanitized_body l (pw_raw pw) body"
  by (auto simp: pass_forward_def split: sum.splits option.splits)

text \<open>
  Property (C11): the caller's own credential crosses untouched and the proxy's secret never does.
  Whatever the caller sends, the request to Anthropic has no local token and no header of
  the connection; every other header that the caller did not tie to the connection goes
  out with exactly its values, and a user agent is never made up.
\<close>

theorem pass_headers_faithful:
  assumes "fst (pass_forward l pw r rq w) = Some ob"
  shows "map_of (ob_header ob) LocalToken = None \<and> map_of (ob_header ob) ''Proxy-Authorization'' = None \<and>
    (canonical_header (ib_header r) \<longrightarrow>
       (\<forall>k. map_of (ob_header ob) k =
          (if keep_request (ib_header r) k \<and> map_of (ib_header r) k \<noteq> None then map_of (ib_header r) k
           else if k = ''User-Agent'' then Some [] else None)))"
proof -
  have h: "ob_header ob = pass_request_headers (ib_header r)"
    using pass_forward_sent [OF assms] by blast
  have "\<not> keep_request (ib_header r) LocalToken" "\<not> keep_request (ib_header r) ''Proxy-Authorization''"
    by (simp_all add: keep_request_def is_hop_by_hop_def pass_names hop_by_hop_def)
  note dropped = this [THEN copy_kept_drops [where keep = "keep_request (ib_header r)"], of "ib_header r" "[]"]
  show ?thesis
    using dropped pass_names(1) unfolding h
    by (auto simp: pass_request_headers_of copy_request_headers_def copy_kept_of split: option.splits)
qed

theorem pass_headers_faithful_witness:
  "\<exists>ob. fst (pass_forward demo_pass_leg demo_pass_world demo_inbound (Some demo_pass_request) (new_writer [])) = Some ob \<and>
     map_of (ob_header ob) ''X-Utraque-Token'' = None \<and> map_of (ob_header ob) ''Authorization'' = Some [''Bearer x'']"
proof -
  obtain ob where ob: "fst (pass_forward demo_pass_leg demo_pass_world demo_inbound (Some demo_pass_request) (new_writer []))
      = Some ob"
    using demo_pass_run by auto
  have "canonical_header (ib_header demo_inbound)" "keep_request (ib_header demo_inbound) ''Authorization''"
    by code_simp+
  with pass_headers_faithful [OF ob] ob show ?thesis
    by (auto simp: demo_inbound_def LocalToken_def)
qed

section \<open>A faithful relay\<close>

lemma copy_flushing_frame:
  "copy_flushing bw fl cs fin w = (e, w') \<Longrightarrow> committed w \<Longrightarrow>
   wr_sent w' = wr_sent w \<and> wr_extra w' = wr_extra w \<and> committed w' \<and>
   prefix (wr_body w') (wr_body w @ concat cs) \<and>
   (e = None \<longrightarrow> fin = EOF \<and> wr_body w' = wr_body w @ concat cs)"
proof (induction cs arbitrary: w)
  case (Cons c cs)
  obtain e1 w1 where w1: "write_body bw c w = (e1, w1)" by fastforce
  have s: "wr_sent w1 = wr_sent w" "wr_extra w1 = wr_extra w" "committed w1"
    "wr_body w1 = (case e1 of None \<Rightarrow> wr_body w @ c | Some _ \<Rightarrow> wr_body w)"
    using w1 Cons.prems(2) by (auto simp: write_body_def ensure_header_def committed_def Let_def split: option.splits)
  show ?case
  proof (cases e1)
    case (Some x)
    with Cons.prems w1 s show ?thesis by auto
  next
    case None
    then show ?thesis
    proof (cases "fl (wr_body w1)")
      case (Some x)
      with None Cons.prems w1 s show ?thesis by auto
    next
      case None
      with \<open>e1 = None\<close> Cons.prems w1 have "copy_flushing bw fl cs fin w1 = (e, w')" by simp
      from Cons.IH [OF this s(3)] s \<open>e1 = None\<close> show ?thesis by simp
    qed
  qed
qed (auto split: if_splits)

lemma pass_answer_result:
  assumes "pass_answer pw reply w = (e, w')" "untouched w" "final_status (pr_status reply)"
  shows "wr_sent w' = Some (pr_status reply, copy_response_headers (pr_header reply) (wr_header w)) \<and>
    answered_once w' \<and> prefix (wr_body w') (concat (pr_chunks reply)) \<and>
    (e = None \<longrightarrow> pr_end reply = EOF \<and> wr_body w' = concat (pr_chunks reply)) \<and>
    (\<forall>x. e = Some x \<longrightarrow> is_response_started x)"
proof -
  let ?h = "w\<lparr>wr_header := copy_response_headers (pr_header reply) (wr_header w)\<rparr>"
  let ?w = "write_header (pr_status reply) ?h"
  have u: "untouched ?h" using assms(2) by (rule header_edit_untouched)
  then have w: "?w = ?h\<lparr>wr_sent := Some (pr_status reply, wr_header ?h)\<rparr>" "wr_body ?w = []" "answered_once ?w"
    using header_commits [OF u assms(3)] write_header_first [of ?h, OF _ assms(3)]
    by (simp_all add: untouched_def)
  obtain e' where c: "copy_flushing (pw_accepts pw) (pw_flush pw) (pr_chunks reply) (pr_end reply) ?w = (e', w')"
    and e: "e = None \<longleftrightarrow> e' = None" "\<forall>x. e = Some x \<longrightarrow> is_response_started x"
    using assms(1) by (auto simp: pass_answer_def Let_def is_response_started_def split: prod.splits option.splits)
  from w(3) have "committed ?w" "wr_extra ?w = 0" by (simp_all add: answered_once_def)
  from copy_flushing_frame [OF c this(1)] this(2) w(1,2) e show ?thesis
    by (simp add: answered_once_def)
qed

text \<open>
  Property (C10): the relay is faithful. When Anthropic replies, the client gets its status and its headers,
  and of the body nothing but its bytes from the first on, all of them when the leg reports
  no error. A body without a minted block was sent as it came, and the method and the
  target are the caller's.
\<close>

theorem passthrough_faithful:
  assumes run: "pass_forward l pw r (Some rq) w = (Some ob, e, w')"
    and reply: "pw_reply pw = Inr reply" "final_status (pr_status reply)" "untouched w"
  shows "wr_sent w' = Some (pr_status reply, copy_response_headers (pr_header reply) (wr_header w)) \<and>
    prefix (wr_body w') (concat (pr_chunks reply)) \<and>
    (e = None \<longrightarrow> pr_end reply = EOF \<and> wr_body w' = concat (pr_chunks reply)) \<and>
    ob_method ob = ib_method r \<and>
    (\<not> has_synthetic_thinking (rq_raw rq) \<longrightarrow> ob_body ob = rq_raw rq)"
proof -
  from run reply(1) have a: "pass_answer pw reply w = (e, w')"
    by (auto simp: pass_forward_def split: sum.splits option.splits)
  have "fst (pass_forward l pw r (Some rq) w) = Some ob" using run by simp
  from pass_forward_sent [OF this] have "ob_method ob = ib_method r" "ob_body ob = sanitized_body l (pw_raw pw) (rq_raw rq)"
    by (auto simp: pass_request_body_def)
  with pass_answer_result [OF a reply(3,2)] show ?thesis by (simp add: sanitized_body_def)
qed

theorem passthrough_faithful_witness:
  "\<exists>ob w'. pass_forward demo_pass_leg demo_pass_world demo_inbound (Some demo_pass_request) (new_writer []) =
     (Some ob, None, w') \<and> wr_body w' = ''abc'' \<and> ob_body ob = ''hi''"
proof -
  obtain ob w' where run: "pass_forward demo_pass_leg demo_pass_world demo_inbound (Some demo_pass_request) (new_writer []) =
      (Some ob, None, w')"
    using demo_pass_run by blast
  have "pw_reply demo_pass_world = Inr demo_pass_reply" "final_status (pr_status demo_pass_reply)" "untouched (new_writer [])"
    by (simp_all add: demo_pass_world_def demo_pass_reply_def final_status_def untouched_def new_writer_def committed_def)
  note f = passthrough_faithful [OF run this]
  have "\<not> has_synthetic_thinking (rq_raw demo_pass_request)" by code_simp
  with f run show ?thesis by (simp add: demo_pass_reply_def) (simp add: demo_pass_request_def)
qed

section \<open>The contract\<close>

definition pass_serve :: "pass_leg \<times> pass_world \<times> inbound \<times> routed option \<Rightarrow> writer \<Rightarrow> leg_error option \<times> writer" where
  "pass_serve i w = (case i of (l, pw, r, rq) \<Rightarrow> snd (pass_forward l pw r rq w))"

definition pass_valid :: "pass_leg \<times> pass_world \<times> inbound \<times> routed option \<Rightarrow> bool" where
  "pass_valid i \<longleftrightarrow> (case i of (l, pw, r, rq) \<Rightarrow>
     (case pw_reply pw of Inl _ \<Rightarrow> True | Inr reply \<Rightarrow> final_status (pr_status reply)))"

lemma pass_serve_proper: "pass_valid i \<Longrightarrow> untouched w \<Longrightarrow> proper (pass_serve i w)"
proof -
  assume v: "pass_valid i" and u: "untouched w"
  obtain l pw r rq where i: "i = (l, pw, r, rq)" by (cases i)
  have "proper (pass_answer pw reply w)" if "pw_reply pw = Inr reply" for reply
    using pass_answer_result [of pw reply w] v u that
    by (cases "pass_answer pw reply w") (auto simp: i pass_valid_def proper_def split: option.split)
  with u show ?thesis
    by (auto simp: i pass_serve_def pass_forward_def split: sum.splits option.splits)
qed

interpretation pass: leg_contract pass_serve pass_valid
  by (rule leg_contractI) (rule pass_serve_proper)

end
