(* ===== verification/CodexErrors.thy ===== *)
theory CodexErrors
  imports Apierr Registry Auth Http Utf8
begin

text \<open>
  How a failed call of the Codex back end becomes a typed error:
  \<^verbatim>\<open>internal/codex/responses/ratelimit.go\<close> and \<^verbatim>\<open>errors.go\<close>. Parameters are the JSON
  decoding of an error body, the parsing of floats and HTTP dates, the rendering of a
  duration and the Unicode tables. A float is kept as its text. A \<^verbatim>\<open>time.Duration\<close> is a
  64-bit number of nanoseconds, so that a delay in seconds may wrap around.
\<close>

record wire_error =
  we_error :: "(string \<times> string \<times> string) option"     \<comment> \<open>message, type, raw code\<close>
  we_detail :: string
  we_message :: string
  we_type :: string

record error_env =
  ee_lower :: "string \<Rightarrow> string"
  ee_quote :: "string \<Rightarrow> string"
  ee_space :: "nat \<Rightarrow> bool"
  ee_print :: "nat \<Rightarrow> bool"
  ee_float :: "string \<Rightarrow> string option"
  ee_http_time :: "string \<Rightarrow> int option"
  ee_clock :: int
  ee_duration :: "int \<Rightarrow> string"
  ee_body :: "string \<Rightarrow> wire_error option"
  ee_string :: "string \<Rightarrow> string option"
  ee_detail :: "string \<Rightarrow> (string \<times> string) option"   \<comment> \<open>message and detail of an object\<close>
  ee_number :: "string \<Rightarrow> string option"

section \<open>Rate limits\<close>

record window =
  wd_used_percent :: "string option"
  wd_window_minutes :: "int option"
  wd_reset_after :: "int option"

definition window_reported :: "window \<Rightarrow> bool" where
  "window_reported w \<longleftrightarrow> wd_used_percent w \<noteq> None \<or> wd_window_minutes w \<noteq> None \<or> wd_reset_after w \<noteq> None"

record rate_limits =
  rl_headers :: header
  rl_primary :: window
  rl_secondary :: window
  rl_retry_after :: "int option"
  rl_retry_after_raw :: string

definition prefix_codex :: string where "prefix_codex = ''x-codex-''"
definition prefix_rate_limit :: string where "prefix_rate_limit = ''x-ratelimit-''"
definition header_retry_after :: string where "header_retry_after = ''Retry-After''"

text \<open>A number of seconds as a duration, with the wrap-around of the multiplication.\<close>

definition seconds :: "int \<Rightarrow> int" where
  "seconds n = i64 (n * second)"

definition parse_retry_after :: "error_env \<Rightarrow> string \<Rightarrow> int \<Rightarrow> int option" where
  "parse_retry_after ev raw now =
     (case atoi raw of
        Some secs \<Rightarrow> Some (if secs < 0 then 0 else seconds secs)
      | None \<Rightarrow>
          (case ee_http_time ev raw of
             None \<Rightarrow> None
           | Some t \<Rightarrow>
               let now = (if now = zero_time then ee_clock ev else now); d = time_sub t now
               in Some (if d < 0 then 0 else d)))"

definition parse_window :: "error_env \<Rightarrow> header \<Rightarrow> string \<Rightarrow> window" where
  "parse_window ev h scope =
     (let field = (\<lambda>suffix. trim_space (header_get h (prefix_codex @ scope @ ''-'' @ suffix)));
          used = field ''used-percent''; minutes = field ''window-minutes''; reset = field ''reset-after-seconds''
      in \<lparr>wd_used_percent = (if used = [] then None else ee_float ev used),
          wd_window_minutes = (if minutes = [] then None else atoi minutes),
          wd_reset_after = (if reset = [] then None else map_option (\<lambda>n. seconds (max n 0)) (atoi reset))\<rparr>)"

definition forwarded :: "error_env \<Rightarrow> string \<Rightarrow> bool" where
  "forwarded ev k \<longleftrightarrow>
     (let lk = to_lower (ee_lower ev) k
      in prefix prefix_codex lk \<or> prefix prefix_rate_limit lk \<or> lk = ''retry-after'')"

definition parse_rate_limits :: "error_env \<Rightarrow> header \<Rightarrow> int \<Rightarrow> rate_limits" where
  "parse_rate_limits ev h now =
     (let raw = trim_space (header_get h header_retry_after) in
      \<lparr>rl_headers = fold (\<lambda>(k, vs) m. if forwarded ev k then AList.update (canonical_key k) vs m else m) h [],
       rl_primary = parse_window ev h ''primary'',
       rl_secondary = parse_window ev h ''secondary'',
       rl_retry_after = (if raw = [] then None else parse_retry_after ev raw now),
       rl_retry_after_raw = raw\<rparr>)"

definition limits_empty :: "rate_limits \<Rightarrow> bool" where
  "limits_empty rl \<longleftrightarrow> rl_headers rl = []"

text \<open>\<^verbatim>\<open>Apply\<close>: each forwarded header replaces what the response had.\<close>

definition apply_limits :: "rate_limits \<Rightarrow> header \<Rightarrow> header" where
  "apply_limits rl dst =
     fold (\<lambda>(k, vs) d. fold (\<lambda>v d. header_add k v d) vs (header_del k d)) (rl_headers rl) dst"

section \<open>Typed failures\<close>

datatype failure_class =
    ClassAuth | ClassRateLimit | ClassServerError | ClassTerminal | ClassGate | ClassNetwork | ClassTimeout | ClassCanceled

definition class_name :: "failure_class \<Rightarrow> string" where
  "class_name c =
     (case c of ClassAuth \<Rightarrow> ''auth'' | ClassRateLimit \<Rightarrow> ''rate_limit'' | ClassServerError \<Rightarrow> ''server_error''
      | ClassTerminal \<Rightarrow> ''terminal'' | ClassGate \<Rightarrow> ''gate'' | ClassNetwork \<Rightarrow> ''network''
      | ClassTimeout \<Rightarrow> ''timeout'' | ClassCanceled \<Rightarrow> ''canceled'')"

definition error_label :: "failure_class \<Rightarrow> string" where
  "error_label c = (if c = ClassServerError then ''upstream'' else class_name c)"

definition canceled_status :: int where "canceled_status = 499"

record upstream_error =
  ue_class :: failure_class
  ue_status :: int
  ue_message :: string
  ue_type :: string
  ue_code :: string
  ue_limits :: rate_limits
  ue_api :: "go_error option"
  ue_cause :: "go_error option"

definition upstream_error_text :: "upstream_error option \<Rightarrow> string" where
  "upstream_error_text e =
     (case e of
        None \<Rightarrow> ''<nil>''
      | Some e \<Rightarrow>
          ''codex responses: '' @ error_label (ue_class e) @
          (if 0 < ue_status e then '' (HTTP '' @ itoa (ue_status e) @ '')'' else []) @
          (case ue_api e of Some (ApiError ty msg st c) \<Rightarrow> '': '' @ msg | _ \<Rightarrow> []) @
          (case ue_cause e of Some c \<Rightarrow> '': '' @ error_text c | None \<Rightarrow> []))"

definition unwrap_upstream :: "upstream_error \<Rightarrow> go_error list" where
  "unwrap_upstream e =
     (case ue_api e of Some a \<Rightarrow> [a] | None \<Rightarrow> []) @ (case ue_cause e of Some c \<Rightarrow> [c] | None \<Rightarrow> [])"

definition api_error :: "upstream_error option \<Rightarrow> go_error" where
  "api_error e =
     (case Option.bind e ue_api of
        Some a \<Rightarrow> a
      | None \<Rightarrow> new_error TypeAPI ''codex responses: unknown failure'')"

definition upstream_http_status :: "upstream_error option \<Rightarrow> int" where
  "upstream_http_status e = http_status (Some (api_error e))"

definition retryable :: "upstream_error option \<Rightarrow> bool" where
  "retryable e =
     (case e of
        None \<Rightarrow> False
      | Some e \<Rightarrow> ue_class e \<in> {ClassRateLimit, ClassServerError, ClassNetwork, ClassTimeout})"

definition needs_credential_refresh :: "upstream_error option \<Rightarrow> bool" where
  "needs_credential_refresh e = (case e of None \<Rightarrow> False | Some e \<Rightarrow> ue_class e = ClassAuth)"

definition is_gate :: "upstream_error option \<Rightarrow> bool" where
  "is_gate e = (case e of None \<Rightarrow> False | Some e \<Rightarrow> ue_class e = ClassGate)"

definition retry_after_delay :: "upstream_error option \<Rightarrow> int option" where
  "retry_after_delay e = (case e of None \<Rightarrow> None | Some e \<Rightarrow> rl_retry_after (ue_limits e))"

definition apply_headers :: "upstream_error option \<Rightarrow> header \<Rightarrow> header" where
  "apply_headers e dst = (case e of None \<Rightarrow> dst | Some e \<Rightarrow> apply_limits (ue_limits e) dst)"

section \<open>One line of text\<close>

definition max_error_message :: nat where "max_error_message = 512"

definition rune_space :: "error_env \<Rightarrow> nat \<Rightarrow> bool" where
  "rune_space ev r \<longleftrightarrow> (if r < 128 then 9 \<le> r \<and> r \<le> 13 \<or> r = 32 else ee_space ev r)"

definition rune_print :: "error_env \<Rightarrow> nat \<Rightarrow> bool" where
  "rune_print ev r \<longleftrightarrow> (if r < 128 then 32 \<le> r \<and> r < 127 else ee_print ev r)"

definition ellipsis :: string where "ellipsis = byte_str [226, 128, 166]"

function one_line_from :: "error_env \<Rightarrow> nat \<Rightarrow> string \<Rightarrow> string \<Rightarrow> bool \<Rightarrow> nat \<Rightarrow> string" where
  "one_line_from ev limit s out space runes =
     (if s = [] then out
      else
        let r = fst (decode_rune s); rest = drop (snd (decode_rune s)) s in
        if rune_space ev r \<or> \<not> rune_print ev r then one_line_from ev limit rest out (out \<noteq> []) runes
        else
          let out' = (if space then out @ '' '' else out); runes' = (if space then runes + 1 else runes) in
          if 0 < limit \<and> limit \<le> runes' then trim_space out' @ ellipsis
          else one_line_from ev limit rest (out' @ rune_bytes s) False (runes' + 1))"
  by pat_completeness auto
termination
proof (relation "measure (\<lambda>(ev, limit, s, out, space, runes). length s)", goal_cases)
  case (2 ev limit s out space runes x xa)
  then show ?case using decode_rune_size [of s] by (cases s) auto
next
  case (3 ev limit s out space runes x xa xb xc)
  then show ?case using decode_rune_size [of s] by (cases s) auto
qed simp

declare one_line_from.simps [simp del]

definition one_line :: "error_env \<Rightarrow> string \<Rightarrow> nat \<Rightarrow> string" where
  "one_line ev s limit = one_line_from ev limit s [] False 0"

definition with_detail :: "string \<Rightarrow> string \<Rightarrow> string" where
  "with_detail base msg = (if msg = [] then base else base @ '': '' @ msg)"

section \<open>The body of a failure\<close>

definition is_html_content_type :: "error_env \<Rightarrow> string \<Rightarrow> bool" where
  "is_html_content_type ev ct \<longleftrightarrow> contains ''text/html'' (to_lower (ee_lower ev) ct)"

definition looks_html :: "error_env \<Rightarrow> string \<Rightarrow> string \<Rightarrow> bool" where
  "looks_html ev ct raw \<longleftrightarrow>
     is_html_content_type ev ct \<or>
     prefix ''<'' (dropWhile (\<lambda>c. c \<in> {CHR '' '', CHR 0x09, CHR 0x0D, CHR 0x0A}) raw)"

definition challenge_markers :: "string list" where
  "challenge_markers = [''just a moment'', ''cf-browser-verification'', ''__cf_chl'', ''cf_chl_opt'',
     ''attention required! | cloudflare'', ''enable javascript and cookies to continue'',
     ''checking your browser before accessing'', ''sorry, you have been blocked'']"

definition has_challenge_marker :: "error_env \<Rightarrow> string \<Rightarrow> bool" where
  "has_challenge_marker ev raw \<longleftrightarrow>
     (let low = to_lower (ee_lower ev) (take 8192 raw) in list_ex (\<lambda>m. contains m low) challenge_markers)"

definition is_gate_response :: "error_env \<Rightarrow> int \<Rightarrow> header \<Rightarrow> string \<Rightarrow> bool \<Rightarrow> bool" where
  "is_gate_response ev st h raw has_msg \<longleftrightarrow>
     (let html = looks_html ev (header_get h ''Content-Type'') raw in
      if html \<and> has_challenge_marker ev raw then True
      else if has_msg then False
      else if st = 403 \<and> header_get h ''cf-ray'' \<noteq> [] then True
      else (st = 403 \<or> st = 503) \<and> equal_fold (trim_space (header_get h ''Server'')) ''cloudflare'' \<and> html)"

definition accept_sse :: string where "accept_sse = ''text/event-stream''"

definition is_stream_content_type :: "error_env \<Rightarrow> string \<Rightarrow> bool" where
  "is_stream_content_type ev ct \<longleftrightarrow>
     (let ct = to_lower (ee_lower ev) (trim_space ct) in ct = [] \<or> prefix accept_sse ct)"

definition detail_message :: "error_env \<Rightarrow> string \<Rightarrow> string" where
  "detail_message ev raw =
     (case ee_string ev raw of
        Some s \<Rightarrow> s
      | None \<Rightarrow>
          (case ee_detail ev raw of
             Some (m, d) \<Rightarrow> if m \<noteq> [] then m else d
           | None \<Rightarrow> []))"

definition raw_to_string :: "error_env \<Rightarrow> string \<Rightarrow> string" where
  "raw_to_string ev raw =
     (if raw = [] then []
      else case ee_string ev raw of
        Some s \<Rightarrow> s
      | None \<Rightarrow> (case ee_number ev raw of Some n \<Rightarrow> n | None \<Rightarrow> []))"

definition unlabelled_message :: "error_env \<Rightarrow> wire_error \<Rightarrow> string \<times> string \<times> string" where
  "unlabelled_message ev eb =
     (if we_detail eb \<noteq> [] then
        (let d = detail_message ev (we_detail eb) in
         if d \<noteq> [] then (one_line ev d max_error_message, we_type eb, []) else ([], we_type eb, []))
      else if trim_space (we_message eb) \<noteq> [] then (one_line ev (we_message eb) max_error_message, we_type eb, [])
      else ([], we_type eb, []))"

definition parse_upstream_message :: "error_env \<Rightarrow> string \<Rightarrow> string \<Rightarrow> string \<times> string \<times> string" where
  "parse_upstream_message ev ct raw =
     (let trimmed = trim_space raw in
      if trimmed = [] then ([], [], [])
      else if looks_html ev ct trimmed then ([], [], [])
      else case ee_body ev trimmed of
        Some eb \<Rightarrow>
          (case we_error eb of
             Some (m, t, c) \<Rightarrow>
               if trim_space m \<noteq> [] then (one_line ev m max_error_message, t, raw_to_string ev c)
               else unlabelled_message ev eb
           | None \<Rightarrow> unlabelled_message ev eb)
      | None \<Rightarrow>
          if contains ''text/plain'' (to_lower (ee_lower ev) ct) \<or> length trimmed \<le> max_error_message
          then (one_line ev trimmed max_error_message, [], [])
          else ([], [], []))"

section \<open>Classification\<close>

definition gate_message :: "int \<Rightarrow> string" where
  "gate_message st =
     ''codex upstream answered with a bot/TLS challenge instead of the API (HTTP '' @ itoa st @ '', Cloudflare): '' @
     ''the request never reached the Codex backend, so retrying it unchanged cannot help. '' @
     ''The account itself is probably fine '' @ byte_str [226, 128, 148] @ '' confirm with the Codex CLI. '' @
     ''The fix is to present a browser TLS fingerprint via the uTLS transport; '' @
     ''in the default codex.transport=auto mode this failure has already switched the process onto it, so the next request uses it '' @
     ''(force it from the start with UTRAQUE_CODEX_TRANSPORT=utls)''"

definition tls_gate_message :: "error_env \<Rightarrow> go_error \<Rightarrow> string" where
  "tls_gate_message ev err =
     ''codex upstream refused the TLS connection, which is how a fingerprint-based bot gate looks from the client side: '' @
     one_line ev (error_text err) max_error_message @ ''. '' @
     ''Retrying unchanged cannot help; the fix is the uTLS (browser-fingerprint) transport, '' @
     ''which codex.transport=auto has already switched to for the rest of this process '' @
     ''(force it from the start with UTRAQUE_CODEX_TRANSPORT=utls)''"

definition tls_gate_markers :: "string list" where
  "tls_gate_markers = [''tls: handshake failure'', ''tls: unrecognized name'', ''tls: no application protocol'',
     ''tls: bad record mac'']"

definition looks_like_tls_gate :: "error_env \<Rightarrow> go_error \<Rightarrow> bool" where
  "looks_like_tls_gate ev err \<longleftrightarrow>
     (let msg = to_lower (ee_lower ev) (error_text err) in list_ex (\<lambda>m. contains m msg) tls_gate_markers)"

text \<open>The class, the error that the client is answered with, and the message that is kept.\<close>

definition classify_response :: "error_env \<Rightarrow> int \<Rightarrow> header \<Rightarrow> rate_limits \<Rightarrow> string \<Rightarrow> upstream_error" where
  "classify_response ev st h rl raw =
     (case parse_upstream_message ev (header_get h ''Content-Type'') raw of (msg, ty, code) \<Rightarrow>
        let failed = (\<lambda>c m api. \<lparr>ue_class = c, ue_status = st, ue_message = m, ue_type = ty, ue_code = code,
                                ue_limits = rl, ue_api = Some api, ue_cause = None\<rparr>) in
        if is_gate_response ev st h raw (msg \<noteq> []) then
          failed ClassGate [] (with_status 502 TypeAPI (gate_message st))
        else if st = 401 then
          failed ClassAuth msg (with_status 401 TypeAuthentication
            (with_detail (''codex rejected the credential (HTTP 401); the access token needs refreshing '' @
               byte_str [226, 128, 148] @ '' run `codex login` if this persists'') msg))
        else if st = 429 then
          failed ClassRateLimit msg (with_status 429 TypeRateLimit
            (with_detail (''codex rate limit or quota exceeded (HTTP 429)'' @
               (case rl_retry_after rl of Some d \<Rightarrow> ''; retry after '' @ ee_duration ev d | None \<Rightarrow> [])) msg))
        else if 500 \<le> st then
          failed ClassServerError msg (with_status st (type_for_status st)
            (with_detail (''codex upstream error (HTTP '' @ itoa st @ '')'') msg))
        else if 400 \<le> st then
          failed ClassTerminal msg (with_status st
            (if type_for_status st = TypeAPI then TypeInvalidRequest else type_for_status st)
            (with_detail (''codex rejected the request (HTTP '' @ itoa st @ '')'') msg))
        else if 300 \<le> st then
          failed ClassTerminal msg (with_status 502 TypeAPI
            (''codex returned an unexpected redirect (HTTP '' @ itoa st @ '' to '' @
             go_quote (ee_quote ev) (header_get h ''Location'') @ ''); redirects are never followed''))
        else
          failed ClassTerminal msg (with_status 502 TypeAPI
            (with_detail (''codex returned an unexpected response (HTTP '' @ itoa st @ '', content-type '' @
               go_quote (ee_quote ev) (header_get h ''Content-Type'') @ '') where an '' @ accept_sse @
               '' stream was expected'') msg)))"

definition ctx_canceled :: go_error where "ctx_canceled = Sentinel ''context canceled''"
definition ctx_deadline :: go_error where "ctx_deadline = Sentinel ''context deadline exceeded''"

definition no_limits :: rate_limits where
  "no_limits =
     (let w = \<lparr>wd_used_percent = None, wd_window_minutes = None, wd_reset_after = None\<rparr>
      in \<lparr>rl_headers = [], rl_primary = w, rl_secondary = w, rl_retry_after = None, rl_retry_after_raw = []\<rparr>)"

text \<open>\<open>ended\<close> is \<^verbatim>\<open>ctx.Err()\<close>.\<close>

definition classify_transport :: "error_env \<Rightarrow> go_error option \<Rightarrow> go_error \<Rightarrow> upstream_error" where
  "classify_transport ev ended err =
     (let ctx_is = (\<lambda>t. error_is err t \<or> (case ended of Some e \<Rightarrow> error_is e t | None \<Rightarrow> False));
          failed = (\<lambda>c api. \<lparr>ue_class = c, ue_status = 0, ue_message = [], ue_type = [], ue_code = [],
                            ue_limits = no_limits, ue_api = Some api, ue_cause = Some err\<rparr>) in
      if ctx_is ctx_canceled then
        failed ClassCanceled (with_status canceled_status TypeAPI
          ''codex responses request was cancelled before the stream opened'')
      else if ctx_is ctx_deadline then
        failed ClassTimeout (with_status 504 TypeTimeout
          ''codex responses request timed out before the stream opened'')
      else if looks_like_tls_gate ev err then
        failed ClassGate (with_status 502 TypeAPI (tls_gate_message ev err))
      else
        failed ClassNetwork (with_status 502 TypeAPI
          (''codex responses request could not reach the upstream: '' @ one_line ev (error_text err) max_error_message)))"

section \<open>Text that is safe to log\<close>

definition clean :: "string \<Rightarrow> bool" where
  "clean s \<longleftrightarrow> (\<forall>b \<in> set s. 32 \<le> (of_char b :: nat) \<and> (of_char b :: nat) \<noteq> 127)"

lemma clean_append [simp]: "clean (a @ b) \<longleftrightarrow> clean a \<and> clean b"
  by (auto simp: clean_def)

lemma clean_simps: "clean []" "clean '' ''" "clean ellipsis"
  by (auto simp: clean_def ellipsis_def byte_str_def)

lemma trim_with_suffix: "\<exists>p. s = p @ trim_with ws s"
proof (induction ws s rule: trim_with.induct)
  case (1 ws s)
  show ?case
  proof (cases "find (\<lambda>w. w \<noteq> [] \<and> prefix w s) ws")
    case (Some w)
    with 1 obtain p where "drop (length w) s = p @ trim_with ws (drop (length w) s)" by blast
    moreover from Some have "s = w @ drop (length w) s" by (auto simp: find_Some_iff prefix_def)
    ultimately have "s = (w @ p) @ trim_with ws (drop (length w) s)" by simp
    with Some show ?thesis by (subst trim_with.simps) (metis option.simps(5))
  qed (subst trim_with.simps, simp)
qed

lemma trim_space_inside: "\<exists>p q. s = p @ trim_space s @ q"
proof -
  obtain p where p: "s = p @ trim_with white_space s" using trim_with_suffix by blast
  let ?t = "trim_with white_space s"
  obtain q where "rev ?t = q @ trim_with (map rev white_space) (rev ?t)" using trim_with_suffix by blast
  then have "?t = trim_space s @ rev q" unfolding trim_space_def by (metis rev_append rev_rev_ident)
  with p show ?thesis by metis
qed

lemma clean_trim: "clean s \<Longrightarrow> clean (trim_space s) \<and> length (trim_space s) \<le> length s"
proof -
  assume c: "clean s"
  obtain p q where s: "s = p @ trim_space s @ q" using trim_space_inside by blast
  then have "length s = length p + length (trim_space s) + length q" by (metis length_append add.assoc)
  moreover from c s have "clean (trim_space s)" by (metis clean_append)
  ultimately show ?thesis by simp
qed

lemma clean_rune:
  assumes "s \<noteq> []" and "rune_print ev (fst (decode_rune s))" and "\<not> rune_space ev (fst (decode_rune s))"
  shows "clean (rune_bytes s)"
proof (cases "(of_char (s ! 0) :: nat) < 128")
  case True
  with assms show ?thesis
    by (cases s) (auto simp: clean_def rune_bytes_ascii decode_rune_def utf8_len_def byte_in_def rune_value_def rune_print_def)
next
  case False
  with rune_bytes_high [OF assms(1)] show ?thesis by (fastforce simp: clean_def)
qed

lemma one_line_from_clean:
  assumes "clean out" and "length out \<le> 4 * runes"
  shows "clean (one_line_from ev limit s out space runes) \<and>
    (0 < limit \<and> runes \<le> limit \<longrightarrow> length (one_line_from ev limit s out space runes) \<le> 4 * limit + 4)"
  using assms
proof (induction "length s" arbitrary: s out space runes rule: less_induct)
  case less
  show ?case
  proof (cases "s = []")
    case True
    with less.prems show ?thesis by (subst (1 2) one_line_from.simps) auto
  next
    case False
    let ?r = "fst (decode_rune s)" and ?rest = "drop (snd (decode_rune s)) s"
    have short: "length ?rest < length s" using decode_rune_size [OF False] False by (cases s) auto
    show ?thesis
    proof (cases "rune_space ev ?r \<or> \<not> rune_print ev ?r")
      case True
      then have "one_line_from ev limit s out space runes = one_line_from ev limit ?rest out (out \<noteq> []) runes"
        using False by (subst one_line_from.simps) (simp add: Let_def)
      with less.hyps [OF short less.prems] show ?thesis by simp
    next
      case shown: False
      define out' runes' where "out' = (if space then out @ '' '' else out)" and "runes' = (if space then runes + 1 else runes)"
      have out': "clean out'" "length out' \<le> 4 * runes'" "runes \<le> runes'"
        using less.prems clean_simps by (auto simp: out'_def runes'_def)
      have step: "one_line_from ev limit s out space runes =
          (if 0 < limit \<and> limit \<le> runes' then trim_space out' @ ellipsis
           else one_line_from ev limit ?rest (out' @ rune_bytes s) False (runes' + 1))"
        using False shown by (subst one_line_from.simps) (simp add: Let_def out'_def runes'_def)
      show ?thesis
      proof (cases "0 < limit \<and> limit \<le> runes'")
        case True
        have "runes \<le> limit \<Longrightarrow> length (trim_space out') \<le> 4 * limit + 1"
          using clean_trim [OF out'(1)] less.prems(2) True by (cases space) (auto simp: out'_def runes'_def)
        then show ?thesis using step True clean_trim [OF out'(1)] clean_simps by (auto simp: ellipsis_def byte_str_def)
      next
        case go: False
        have c: "clean (out' @ rune_bytes s)" using out'(1) clean_rune [OF False, of ev] shown by simp
        have l: "length (out' @ rune_bytes s) \<le> 4 * (runes' + 1)" using out'(2) rune_bytes_length [of s] by simp
        from less.hyps [OF short c l, of False] step go show ?thesis by auto
      qed
    qed
  qed
qed

lemma one_line_clean: "clean (one_line ev s limit) \<and> (0 < limit \<longrightarrow> length (one_line ev s limit) \<le> 4 * limit + 4)"
  using one_line_from_clean [of "[]" 0 ev limit s False] by (simp add: one_line_def clean_simps)

lemma parsed_message_clean:
  assumes "parse_upstream_message ev ct raw = (m, t, c)"
  shows "clean m \<and> length m \<le> 2052"
proof -
  have l: "clean (one_line ev s max_error_message) \<and> length (one_line ev s max_error_message) \<le> 2052" for s
    using one_line_clean [of ev s max_error_message] by (simp add: max_error_message_def)
  with assms clean_simps(1) show ?thesis
    by (auto simp: parse_upstream_message_def unlabelled_message_def Let_def split: if_splits option.splits)
qed

section \<open>What a failure means\<close>

lemma type_for_status_nonempty: "type_for_status st \<noteq> []"
  by (simp add: type_for_status_def error_type_defs)

lemma no_gate_with_message:
  "is_gate_response ev st h raw True \<Longrightarrow>
   looks_html ev (header_get h ''Content-Type'') raw \<and> has_challenge_marker ev raw"
  by (auto simp: is_gate_response_def Let_def split: if_splits)

text \<open>
  Property (C37): every response that is not a stream becomes an error that can be acted on. The client
  is answered with an error status and a typed envelope; only a 401 asks for a new
  credential, only a 429 or a 5xx for a retry, and a bot challenge for neither; a response
  with a message of its own is a challenge only if it is a challenge page. What is kept of
  the upstream's text is one line of bounded length without control characters.
\<close>

theorem classify_response_sound:
  fixes ev st h rl raw
  defines "e \<equiv> classify_response ev st h rl raw"
    and "gate \<equiv> is_gate_response ev st h raw (fst (parse_upstream_message ev (header_get h ''Content-Type'') raw) \<noteq> [])"
  shows "400 \<le> upstream_http_status (Some e) \<and>
    eb_type (envelope (Some (api_error (Some e)))) \<noteq> [] \<and>
    (st \<in> {401, 429} \<union> {400..} \<and> \<not> gate \<longrightarrow> upstream_http_status (Some e) = st) \<and>
    (is_gate (Some e) \<longleftrightarrow> gate) \<and>
    (needs_credential_refresh (Some e) \<longleftrightarrow> st = 401 \<and> \<not> gate) \<and>
    (retryable (Some e) \<longleftrightarrow> (st = 429 \<or> 500 \<le> st) \<and> \<not> gate) \<and>
    (ue_message e \<noteq> [] \<longrightarrow> \<not> gate) \<and>
    (gate \<and> fst (parse_upstream_message ev (header_get h ''Content-Type'') raw) \<noteq> [] \<longrightarrow>
       looks_html ev (header_get h ''Content-Type'') raw \<and> has_challenge_marker ev raw) \<and>
    clean (ue_message e) \<and> length (ue_message e) \<le> 2052"
proof -
  obtain m t c where p: "parse_upstream_message ev (header_get h ''Content-Type'') raw = (m, t, c)"
    by (cases "parse_upstream_message ev (header_get h ''Content-Type'') raw") auto
  note clean = parsed_message_clean [OF p] clean_simps(1)
  have g: "gate = is_gate_response ev st h raw (m \<noteq> [])" by (simp add: gate_def p)
  have html: "gate \<and> m \<noteq> [] \<longrightarrow> looks_html ev (header_get h ''Content-Type'') raw \<and> has_challenge_marker ev raw"
    unfolding g using no_gate_with_message [of ev st h raw] by auto
  have "e = classify_response ev st h rl raw" by (simp add: e_def)
  note e = this [unfolded classify_response_def p prod.case Let_def, folded g]
  note defs = upstream_http_status_def api_error_def is_gate_def needs_credential_refresh_def retryable_def with_status_def
  consider "gate" | "\<not> gate" "st = 401" | "\<not> gate" "st = 429" | "\<not> gate" "500 \<le> st"
    | "\<not> gate" "400 \<le> st" "st < 500" "st \<noteq> 401" "st \<noteq> 429" | "\<not> gate" "st < 400" by fastforce
  then show ?thesis
    by cases
       (use clean html in \<open>simp_all add: e p defs type_for_status_nonempty
          TypeAPI_def TypeAuthentication_def TypeRateLimit_def TypeInvalidRequest_def\<close>)
qed

text \<open>
  Property (C24): a delay may wrap around. A \<^verbatim>\<open>Retry-After\<close> of a number of seconds that fits a 64-bit
  integer but not a duration is reported as a negative delay, although the delay is
  documented as never negative; up to the largest whole number of seconds of a duration it
  is not negative.
\<close>

theorem retry_after_overflows:
  "(\<exists>d < 0. parse_retry_after ev ''9223372037'' now = Some d) \<and>
   (\<forall>raw secs d. atoi raw = Some secs \<and> secs \<le> 9223372036 \<and> parse_retry_after ev raw now = Some d \<longrightarrow> 0 \<le> d)"
proof -
  have "atoi ''9223372037'' = Some 9223372037"
    by (simp add: atoi_def digits_value_def dec_digit_def is_i64_def)
  moreover have "seconds 9223372037 < 0" by (simp add: seconds_def i64_def second_def)
  moreover have "0 \<le> seconds n" if "0 \<le> n" "n \<le> 9223372036" for n
    unfolding seconds_def using that by (subst i64_id) (auto simp: is_i64_def second_def)
  ultimately show ?thesis by (auto simp: parse_retry_after_def split: if_splits)
qed

definition demo_env :: error_env where
  "demo_env =
     \<lparr>ee_lower = id, ee_quote = id, ee_space = (\<lambda>r. False), ee_print = (\<lambda>r. True), ee_float = (\<lambda>s. None),
      ee_http_time = (\<lambda>s. None), ee_clock = 0, ee_duration = (\<lambda>d. []), ee_body = (\<lambda>s. None),
      ee_string = (\<lambda>s. None), ee_detail = (\<lambda>s. None), ee_number = (\<lambda>s. None)\<rparr>"

lemma demo_parse: "parse_upstream_message demo_env ct [] = ([], [], [])"
  by (simp add: parse_upstream_message_def trim_space_def trim_with.simps white_space_def byte_str_def)

lemma demo_header: "header_get [] k = []"
  by (simp add: header_get_def header_values_def)

theorem classify_response_sound_witness:
  "upstream_http_status (Some (classify_response demo_env 401 [] no_limits [])) = 401 \<and>
   needs_credential_refresh (Some (classify_response demo_env 401 [] no_limits []))"
proof -
  have "\<not> is_gate_response demo_env 401 [] []
      (fst (parse_upstream_message demo_env (header_get [] ''Content-Type'') []) \<noteq> [])"
    by (simp add: is_gate_response_def looks_html_def is_html_content_type_def demo_parse demo_header
        to_lower_def is_ascii_def Let_def)
  with classify_response_sound [of demo_env 401 "[]" no_limits "[]"] show ?thesis by simp
qed

theorem retry_after_overflows_witness: "\<exists>d. parse_retry_after demo_env ''30'' 0 = Some d \<and> 0 \<le> d"
proof -
  have a: "atoi ''30'' = Some 30"
    by (simp add: atoi_def digits_value_def dec_digit_def is_i64_def)
  then obtain d where d: "parse_retry_after demo_env ''30'' 0 = Some d"
    by (auto simp: parse_retry_after_def)
  from retry_after_overflows [of demo_env 0] a d have "0 \<le> d" by fastforce
  with d show ?thesis by blast
qed

end
