(* ===== verification/CodexClient.thy ===== *)
theory CodexClient
  imports CodexErrors AuthSafety Request
begin

text \<open>
  \<^verbatim>\<open>internal/codex/responses/responses.go\<close> and \<^verbatim>\<open>internal/transport/auto.go\<close>: opening the
  upstream stream, the one retry after a 401, and the one-way switch of the TLS stack. An
  exchange is what the outside does with one request; the state collects the requests that
  were sent, with the TLS stack that carried each. The credential source is a parameter of
  the retry (\<^verbatim>\<open>auth.CredentialSource\<close> is an interface); the laws that the lemmas use are the
  locale \<open>credential_source\<close>, which the source of theory \<open>Auth\<close> satisfies.
\<close>

section \<open>The transport\<close>

datatype transport = StdTransport | UtlsTransport | AutoTransport bool   \<comment> \<open>flipped\<close>

definition KindStd :: string where "KindStd = ''std''"
definition KindUTLS :: string where "KindUTLS = ''utls''"

definition transport_kind :: "transport \<Rightarrow> string" where
  "transport_kind t =
     (case t of
        StdTransport \<Rightarrow> KindStd
      | UtlsTransport \<Rightarrow> KindUTLS
      | AutoTransport flipped \<Rightarrow> if flipped then KindUTLS else KindStd)"

text \<open>\<^verbatim>\<open>ReportGate\<close>: whether this call switched, and the transport after it.\<close>

definition report_gate :: "transport \<Rightarrow> bool \<times> transport" where
  "report_gate t = (case t of AutoTransport False \<Rightarrow> (True, AutoTransport True) | _ \<Rightarrow> (False, t))"

section \<open>The session\<close>

definition session_hex :: "char \<Rightarrow> bool" where
  "session_hex c \<longleftrightarrow>
     (let n = (of_char c :: nat) in 48 \<le> n \<and> n \<le> 57 \<or> 97 \<le> n \<and> n \<le> 102)"

definition session_id :: "string \<Rightarrow> string" where
  "session_id key =
     (case cut_prefix ''utq-'' key of
        None \<Rightarrow> []
      | Some d \<Rightarrow>
          if length d \<noteq> 32 then []
          else if \<not> list_all session_hex d then []
          else take 8 d @ ''-'' @ take 4 (drop 8 d) @ ''-'' @ take 4 (drop 12 d) @ ''-'' @
               take 4 (drop 16 d) @ ''-'' @ drop 20 d)"

section \<open>Opening a stream\<close>

record client =
  cl_base_url :: string
  cl_max_error_body :: nat

definition default_base_url :: string where
  "default_base_url = ''https://chatgpt.com/backend-api/codex''"

definition default_max_error_body :: nat where "default_max_error_body = 64 * 1024"

definition trim_right_slashes :: "string \<Rightarrow> string" where
  "trim_right_slashes s = rev (dropWhile (\<lambda>c. c = CHR ''/'') (rev s))"

definition new_client :: "string \<Rightarrow> int \<Rightarrow> client" where
  "new_client base max_body =
     (let url = trim_right_slashes (trim_space base) in
      \<lparr>cl_base_url = (if url = [] then default_base_url else url),
       cl_max_error_body = (if max_body \<le> 0 then default_max_error_body else nat max_body)\<rparr>)"

datatype reply =
    NoReply go_error "go_error option"      \<comment> \<open>with \<^verbatim>\<open>ctx.Err()\<close>\<close>
  | Reply int header string nat             \<comment> \<open>status, headers, body, major protocol version\<close>

record exchange =
  ex_build :: "go_error option"             \<comment> \<open>an error of \<^verbatim>\<open>NewRequestWithContext\<close>\<close>
  ex_now :: int
  ex_reply :: reply

datatype call_error = Upstream upstream_error | Plain go_error

record response =
  rs_status :: int
  rs_header :: header
  rs_limits :: rate_limits
  rs_body :: string
  rs_proto :: nat

record sent =
  sn_kind :: string
  sn_url :: string
  sn_header :: header
  sn_body :: string

record client_state =
  cs_transport :: transport
  cs_sent :: "sent list"
  cs_limits :: "rate_limits list"

definition encode_request :: "(responses_request \<Rightarrow> go_error) \<Rightarrow> responses_request \<Rightarrow> go_error + string" where
  "encode_request marshal_error req =
     (case json_marshal (request_json (req\<lparr>rr_stream := True\<rparr>)) of
        Some b \<Rightarrow> Inr b
      | None \<Rightarrow> Inl (wrap_error (marshal_error req) TypeAPI ''codex responses: encode request''))"

definition request_headers :: "credential \<Rightarrow> responses_request \<Rightarrow> header" where
  "request_headers cred req =
     (let h = header_set ''Authorization'' (''Bearer '' @ cr_access cred) [];
          h = header_set ''chatgpt-account-id'' (cr_account cred) h;
          h = header_set ''OpenAI-Beta'' ''responses=experimental'' h;
          h = header_set ''originator'' ''codex_cli_rs'' h;
          h = header_set ''Content-Type'' ''application/json'' h;
          h = header_set ''Accept'' accept_sse h;
          sid = session_id (rr_cache_key req)
      in if sid \<noteq> [] then header_set ''session_id'' sid h else h)"

definition note_gate :: "upstream_error \<Rightarrow> client_state \<Rightarrow> client_state" where
  "note_gate e st =
     (if is_gate (Some e) then st\<lparr>cs_transport := snd (report_gate (cs_transport st))\<rparr> else st)"

definition observe :: "rate_limits \<Rightarrow> client_state \<Rightarrow> client_state" where
  "observe rl st = (if limits_empty rl then st else st\<lparr>cs_limits := cs_limits st @ [rl]\<rparr>)"

text \<open>\<^verbatim>\<open>StreamResponse\<close>.\<close>

definition stream_response ::
  "error_env \<Rightarrow> (responses_request \<Rightarrow> go_error) \<Rightarrow> client \<Rightarrow> credential \<Rightarrow> responses_request option \<Rightarrow> exchange \<Rightarrow>
   client_state \<Rightarrow> (call_error + response) \<times> client_state" where
  "stream_response ev me cl cred req ex st =
     (case req of
        None \<Rightarrow> (Inl (Plain (new_error TypeInvalidRequest ''codex responses: no request to send'')), st)
      | Some r \<Rightarrow>
          if cr_access cred = [] \<or> cr_account cred = [] then
            (Inl (Plain (new_error TypeAuthentication
               ''codex responses: no usable Codex credential; run `codex login`'')), st)
          else case encode_request me r of
            Inl e \<Rightarrow> (Inl (Plain e), st)
          | Inr body \<Rightarrow>
              (case ex_build ex of
                 Some e \<Rightarrow> (Inl (Plain (wrap_error e TypeAPI ''codex responses: build request'')), st)
               | None \<Rightarrow>
                   let st = st\<lparr>cs_sent := cs_sent st @
                          [\<lparr>sn_kind = transport_kind (cs_transport st), sn_url = cl_base_url cl @ ''/responses'',
                            sn_header = request_headers cred r, sn_body = body\<rparr>]\<rparr>
                   in case ex_reply ex of
                        NoReply err ended \<Rightarrow>
                          let e = classify_transport ev ended err in (Inl (Upstream e), note_gate e st)
                      | Reply status h raw proto \<Rightarrow>
                          let rl = parse_rate_limits ev h (ex_now ex); st = observe rl st in
                          if status = 200 \<and> is_stream_content_type ev (header_get h ''Content-Type'') then
                            (Inr \<lparr>rs_status = status, rs_header = h, rs_limits = rl, rs_body = raw, rs_proto = proto\<rparr>, st)
                          else
                            let e = classify_response ev status h rl (take (cl_max_error_body cl) raw)
                            in (Inl (Upstream e), note_gate e st)))"

text \<open>\<^verbatim>\<open>StreamResponseWithRefresh\<close>: \<open>fetch\<close> and \<open>reject\<close> are the methods of the source.\<close>

definition stream_with_refresh ::
  "error_env \<Rightarrow> (responses_request \<Rightarrow> go_error) \<Rightarrow> client \<Rightarrow>
   ('i \<Rightarrow> 's \<Rightarrow> (go_error + credential) \<times> 's) \<Rightarrow> (credential \<Rightarrow> 's \<Rightarrow> 's) \<Rightarrow>
   responses_request option \<Rightarrow> 'i \<times> exchange \<Rightarrow> 'i \<times> exchange \<Rightarrow> 's \<times> client_state \<Rightarrow>
   (call_error + response) \<times> 's \<times> client_state" where
  "stream_with_refresh ev me cl fetch reject req x1 x2 st =
     (case fetch (fst x1) (fst st) of
        (Inl e, src) \<Rightarrow> (Inl (Plain e), src, snd st)
      | (Inr cred, src) \<Rightarrow>
          (case stream_response ev me cl cred req (snd x1) (snd st) of
             (Inr r, c) \<Rightarrow> (Inr r, src, c)
           | (Inl (Plain e), c) \<Rightarrow> (Inl (Plain e), src, c)
           | (Inl (Upstream e), c) \<Rightarrow>
               if \<not> needs_credential_refresh (Some e) then (Inl (Upstream e), src, c)
               else
                 (case fetch (fst x2) (reject cred src) of
                    (Inl ge, src) \<Rightarrow> (Inl (Plain ge), src, c)
                  | (Inr new, src) \<Rightarrow>
                      if cr_access new = cr_access cred \<and> cr_account new = cr_account cred
                      then (Inl (Upstream e), src, c)
                      else (case stream_response ev me cl new req (snd x2) c of (r, c) \<Rightarrow> (r, src, c)))))"

section \<open>One conversation, one identity\<close>

lemma hex_digit_session: "n < 16 \<Longrightarrow> session_hex (hex_digit n)"
  by (auto simp: session_hex_def hex_digit_def Let_def)

lemma hex_encode_session: "list_all session_hex (hex_encode s) \<and> length (hex_encode s) = 2 * length s"
proof (induction s)
  case (Cons c s)
  have "(of_char c :: nat) mod 256 = of_char c" by simp
  then have "(of_char c :: nat) < 256" by (metis mod_less_divisor zero_less_numeral)
  then have "(of_char c :: nat) div 16 < 16" by (intro less_mult_imp_div_less) simp
  with Cons show ?case by (simp add: hex_encode_def hex_digit_session)
qed (simp add: hex_encode_def)

definition session_digest :: "string \<Rightarrow> string" where
  "session_digest sid = filter (\<lambda>c. c \<noteq> CHR ''-'') sid"

lemma session_hex_dash: "list_all session_hex d \<Longrightarrow> filter (\<lambda>c. c \<noteq> CHR ''-'') d = d"
  by (intro filter_True) (auto simp: list_all_iff session_hex_def Let_def)

lemma session_digest_id:
  assumes "length d = 32" and "list_all session_hex d"
  shows "session_digest (session_id (''utq-'' @ d)) = d"
proof -
  have "list_all session_hex (take n x) \<and> list_all session_hex (drop n x)" if "list_all session_hex x" for n x
    using that by (auto simp: list_all_iff dest: in_set_takeD in_set_dropD)
  note f = session_hex_dash [OF conjunct1 [OF this]] session_hex_dash [OF conjunct2 [OF this]] this
  have "session_digest (session_id (''utq-'' @ d)) =
      take 8 d @ take 4 (drop 8 d) @ take 4 (drop 12 d) @ take 4 (drop 16 d) @ drop 20 d"
    using assms f by (simp add: session_id_def cut_prefix_def session_digest_def)
  also have "\<dots> = d"
    using append_take_drop_id [of 8 d] append_take_drop_id [of 4 "drop 8 d"] append_take_drop_id [of 4 "drop 12 d"]
      append_take_drop_id [of 4 "drop 16 d"] by (simp add: drop_drop)
  finally show ?thesis .
qed

text \<open>
  A conversation has one identity. For every request with a prompt cache key, the
  session header is present, and it and the key determine each other: two requests have
  the same session if and only if they have the same key.
\<close>

theorem session_names_conversation:
  assumes "\<And>b. length (sha256 b) = 32"
    and "prompt_cache_key sha256 r \<noteq> []" and "prompt_cache_key sha256 r' \<noteq> []"
  shows "prompt_cache_key sha256 r = ''utq-'' @ session_digest (session_id (prompt_cache_key sha256 r)) \<and>
    session_id (prompt_cache_key sha256 r) \<noteq> [] \<and>
    (session_id (prompt_cache_key sha256 r) = session_id (prompt_cache_key sha256 r') \<longleftrightarrow>
     prompt_cache_key sha256 r = prompt_cache_key sha256 r')"
proof -
  have key: "prompt_cache_key sha256 x = ''utq-'' @ session_digest (session_id (prompt_cache_key sha256 x))"
    if "prompt_cache_key sha256 x \<noteq> []" for x
  proof -
    from that obtain b where b: "prompt_cache_key sha256 x = ''utq-'' @ hex_encode (take 16 (sha256 b))"
      by (auto simp: prompt_cache_key_def split: option.splits)
    have "length (hex_encode (take 16 (sha256 b))) = 32" "list_all session_hex (hex_encode (take 16 (sha256 b)))"
      using hex_encode_session [of "take 16 (sha256 b)"] assms(1) by auto
    from session_digest_id [OF this] show ?thesis using b by simp
  qed
  from key [OF assms(2)] key [OF assms(3)] show ?thesis
  proof (intro conjI)
    show "session_id (prompt_cache_key sha256 r) \<noteq> []"
    proof
      assume empty: "session_id (prompt_cache_key sha256 r) = []"
      with key [OF assms(2)] have "prompt_cache_key sha256 r = ''utq-''" by (simp add: session_digest_def)
      moreover from assms(2) obtain b where "prompt_cache_key sha256 r = ''utq-'' @ hex_encode (take 16 (sha256 b))"
        by (auto simp: prompt_cache_key_def split: option.splits)
      ultimately show False using hex_encode_session [of "take 16 (sha256 b)"] assms(1) [of b] by simp
    qed
  qed metis+
qed

definition demo_sha :: "string \<Rightarrow> string" where
  "demo_sha b = replicate 32 (CHR ''a'')"

definition demo_responses :: responses_request where
  "demo_responses =
     \<lparr>rr_model = ''m'', rr_instructions = ''i'', rr_input = [], rr_tools = [], rr_tool_choice = None,
      rr_parallel = None, rr_reasoning = None, rr_include = [], rr_cache_key = [], rr_store = False, rr_stream = False\<rparr>"

theorem session_names_conversation_witness:
  "session_id (prompt_cache_key demo_sha demo_responses) \<noteq> []"
proof -
  have "prompt_cache_key demo_sha demo_responses \<noteq> []"
    by (simp add: prompt_cache_key_def json_marshal_def key_json_def demo_responses_def)
  from session_names_conversation [of demo_sha, OF _ this this] show ?thesis by (simp add: demo_sha_def)
qed

section \<open>One request\<close>

lemma canonical_names:
  "canonical_key ''Authorization'' = ''Authorization''" "canonical_key ''chatgpt-account-id'' = ''Chatgpt-Account-Id''"
  "canonical_key ''OpenAI-Beta'' = ''Openai-Beta''" "canonical_key ''originator'' = ''Originator''"
  "canonical_key ''Content-Type'' = ''Content-Type''" "canonical_key ''Accept'' = ''Accept''"
  "canonical_key ''session_id'' = ''Session_id''"
  by code_simp+

lemma request_headers_get:
  "header_get (request_headers cred r) ''Authorization'' = ''Bearer '' @ cr_access cred"
  "header_get (request_headers cred r) ''chatgpt-account-id'' = cr_account cred"
  "header_get (request_headers cred r) ''session_id'' = session_id (rr_cache_key r)"
  by (simp_all add: request_headers_def Let_def header_get_set canonical_names)
     (simp add: header_get_def header_values_def)

text \<open>The credential that a sent request carries.\<close>

definition signed_by :: "credential \<Rightarrow> sent \<Rightarrow> bool" where
  "signed_by cred x \<longleftrightarrow>
     header_get (sn_header x) ''Authorization'' = ''Bearer '' @ cr_access cred \<and>
     header_get (sn_header x) ''chatgpt-account-id'' = cr_account cred"

lemma stream_response_sent:
  assumes "stream_response ev me cl cred req ex st = (r, st')"
  shows "cs_sent st' = cs_sent st \<and> cs_transport st' = cs_transport st \<and> (\<exists>e. r = Inl (Plain e)) \<or>
    (\<exists>x. cs_sent st' = cs_sent st @ [x] \<and> signed_by cred x \<and> sn_kind x = transport_kind (cs_transport st) \<and>
       cs_transport st' =
         (case r of Inl (Upstream e) \<Rightarrow> if is_gate (Some e) then snd (report_gate (cs_transport st)) else cs_transport st
                  | _ \<Rightarrow> cs_transport st))"
  using assms
  by (auto simp: stream_response_def Let_def signed_by_def request_headers_get note_gate_def observe_def
      split: option.splits sum.splits if_splits reply.splits)

section \<open>The credential source\<close>

text \<open>
  What the retry relies on: rejecting a credential marks its token, and a source does not
  hand out a marked token. \<open>helpless\<close> says when a source may: nothing that it tried gave
  a better one.
\<close>

locale credential_source =
  fixes fetch :: "'i \<Rightarrow> 's \<Rightarrow> (go_error + credential) \<times> 's"
    and reject :: "credential \<Rightarrow> 's \<Rightarrow> 's"
    and marked :: "string \<Rightarrow> 's \<Rightarrow> bool"
    and helpless :: "'i \<Rightarrow> 's \<Rightarrow> bool"
  assumes reject_marks: "cr_access c \<noteq> [] \<Longrightarrow> marked (cr_access c) (reject c s)"
    and fetch_unmarked: "fetch i s = (Inr c, s') \<Longrightarrow> \<not> helpless i s \<Longrightarrow> \<not> marked (cr_access c) s'"
begin

lemma retry_cases:
  assumes "stream_with_refresh ev me cl fetch reject req x1 x2 (s, c) = (r, s', c')"
  shows "(\<exists>xs. cs_sent c' = cs_sent c @ xs \<and> length xs \<le> 1) \<or>
    (\<exists>a b old new s1 e. cs_sent c' = cs_sent c @ [a, b] \<and> signed_by old a \<and> signed_by new b \<and>
       (cr_access new \<noteq> cr_access old \<or> cr_account new \<noteq> cr_account old) \<and>
       fst (stream_response ev me cl old req (snd x1) c) = Inl (Upstream e) \<and> ue_class e = ClassAuth \<and>
       marked (cr_access old) (reject old s1) \<and>
       (helpless (fst x2) (reject old s1) \<or> \<not> marked (cr_access new) s'))"
proof -
  note run = assms [unfolded stream_with_refresh_def fst_conv snd_conv]
  obtain f s1 where f: "fetch (fst x1) s = (f, s1)" by fastforce
  show ?thesis
  proof (cases f)
    case (Inl e)
    with run f show ?thesis by auto
  next
    case (Inr old)
    obtain r1 c1 where r1: "stream_response ev me cl old req (snd x1) c = (r1, c1)" by fastforce
    note sent1 = stream_response_sent [OF r1]
    show ?thesis
    proof (cases "\<exists>e. r1 = Inl (Upstream e) \<and> needs_credential_refresh (Some e)")
      case False
      with run f Inr r1 have "c' = c1" by (auto split: sum.splits call_error.splits)
      with sent1 show ?thesis by fastforce
    next
      case True
      then obtain e where e: "r1 = Inl (Upstream e)" "ue_class e = ClassAuth" "needs_credential_refresh (Some e)"
        by (auto simp: needs_credential_refresh_def)
      with sent1 obtain a where a: "cs_sent c1 = cs_sent c @ [a]" "signed_by old a" by auto
      have tok: "cr_access old \<noteq> []"
        using r1 e(1) by (auto simp: stream_response_def split: option.splits if_splits)
      obtain g s2 where g: "fetch (fst x2) (reject old s1) = (g, s2)" by fastforce
      show ?thesis
      proof (cases "\<exists>new. g = Inr new \<and> (cr_access new \<noteq> cr_access old \<or> cr_account new \<noteq> cr_account old)")
        case False
        with run f Inr r1 e g have "c' = c1" by (auto split: sum.splits if_splits)
        with a show ?thesis by auto
      next
        case True
        then obtain new where new: "g = Inr new" "cr_access new \<noteq> cr_access old \<or> cr_account new \<noteq> cr_account old"
          by blast
        obtain r2 c2 where r2: "stream_response ev me cl new req (snd x2) c1 = (r2, c2)" by fastforce
        from run f Inr r1 e g new r2 have c2: "c' = c2" "s' = s2" by (auto split: if_splits)
        have "helpless (fst x2) (reject old s1) \<or> \<not> marked (cr_access new) s'"
          using fetch_unmarked [of "fst x2" "reject old s1" new s2] g new c2 by blast
        with stream_response_sent [OF r2] a c2 new e r1 reject_marks [OF tok] show ?thesis by fastforce
      qed
    qed
  qed
qed

end

text \<open>The source of theory \<open>Auth\<close>: it is helpless when both attempts ended with a marked token.\<close>

definition source_fetch :: "codec \<Rightarrow> settings \<Rightarrow> attempt \<times> attempt \<Rightarrow> source_state \<Rightarrow> (go_error + credential) \<times> source_state" where
  "source_fetch cd se a s = get cd se (fst a) (snd a) s"

definition source_reject :: "credential \<Rightarrow> source_state \<Rightarrow> source_state" where
  "source_reject c s = invalidate (cr_access c) s"

definition ends_marked :: "codec \<Rightarrow> settings \<Rightarrow> attempt \<Rightarrow> source_state \<Rightarrow> bool" where
  "ends_marked cd se a s =
     (case run_lead cd se (at_load a) s of
        (Inr c, s') \<Rightarrow> is_invalidated (cr_access c) (invalidate_all (at_gap a) s')
      | _ \<Rightarrow> False)"

definition both_marked :: "codec \<Rightarrow> settings \<Rightarrow> attempt \<times> attempt \<Rightarrow> source_state \<Rightarrow> bool" where
  "both_marked cd se a s \<longleftrightarrow>
     ends_marked cd se (fst a) s \<and>
     ends_marked cd se (snd a) (invalidate_all (at_gap (fst a)) (snd (run_lead cd se (at_load (fst a)) s)))"

lemma get_loop_unmarked:
  assumes "get_loop cd se [a1, a2] c0 s = (Inr c, s')" and "\<not> both_marked cd se (a1, a2) s"
  shows "\<not> is_invalidated (cr_access c) s'"
proof -
  have fast: "\<not> is_invalidated (cr_access c) t" if "fast_path sk st n t = Some c" for sk st n t c
    using that by (auto simp: fast_path_def is_invalidated_def split: option.splits if_splits)
  show ?thesis
    using assms fast
    by (fastforce simp: both_marked_def ends_marked_def Let_def split: option.splits prod.splits sum.splits if_splits)
qed

interpretation codex_source: credential_source "source_fetch cd se" source_reject is_invalidated "both_marked cd se"
proof (unfold_locales, goal_cases)
  case (1 c s)
  then show ?case by (simp add: source_reject_def invalidate_def is_invalidated_def Let_def)
next
  case (2 i s c s')
  then show ?case
    using get_loop_unmarked [of cd se "fst i" "snd i"] by (simp add: source_fetch_def get_def)
qed

text \<open>
  Property (C15): one retry, for a rejected credential only. However the back end answers, at most two
  requests are sent. The second one follows a 401 alone, carries another token or
  account than the first, whose token has been marked as rejected, and its own token is
  not a rejected one unless neither attempt of the source found any other.
\<close>

theorem refresh_retries_once:
  assumes "stream_with_refresh ev me cl (source_fetch cd se) source_reject req x1 x2 (s, c) = (r, s', c')"
  shows "(\<exists>xs. cs_sent c' = cs_sent c @ xs \<and> length xs \<le> 1) \<or>
    (\<exists>a b old new s1 e. cs_sent c' = cs_sent c @ [a, b] \<and> signed_by old a \<and> signed_by new b \<and>
       (cr_access new \<noteq> cr_access old \<or> cr_account new \<noteq> cr_account old) \<and>
       fst (stream_response ev me cl old req (snd x1) c) = Inl (Upstream e) \<and> ue_class e = ClassAuth \<and>
       is_invalidated (cr_access old) (source_reject old s1) \<and>
       (both_marked cd se (fst x2) (source_reject old s1) \<or> \<not> is_invalidated (cr_access new) s'))"
  by (rule codex_source.retry_cases [OF assms])

section \<open>The switch of the TLS stack\<close>

text \<open>Calls one after another, with whatever credential and request each.\<close>

fun run_calls ::
  "error_env \<Rightarrow> (responses_request \<Rightarrow> go_error) \<Rightarrow> client \<Rightarrow> (credential \<times> responses_request option \<times> exchange) list \<Rightarrow>
   client_state \<Rightarrow> (call_error + response) list \<times> client_state" where
  "run_calls ev me cl [] st = ([], st)"
| "run_calls ev me cl ((cred, req, ex) # calls) st =
     (case stream_response ev me cl cred req ex st of (r, st') \<Rightarrow>
        (case run_calls ev me cl calls st' of (rs, st'') \<Rightarrow> (r # rs, st'')))"

definition gated :: "call_error + response \<Rightarrow> bool" where
  "gated r = (case r of Inl (Upstream e) \<Rightarrow> is_gate (Some e) | _ \<Rightarrow> False)"

lemma transport_after:
  assumes "stream_response ev me cl cred req ex st = (r, st')" and "cs_transport st = AutoTransport b"
  shows "cs_transport st' = AutoTransport (b \<or> gated r) \<and>
    (\<exists>xs. cs_sent st' = cs_sent st @ xs \<and> (\<forall>x \<in> set xs. sn_kind x = (if b then KindUTLS else KindStd)) \<and>
       (gated r \<longrightarrow> xs \<noteq> []))"
  using stream_response_sent [OF assms(1)] assms(2)
  by (auto simp: gated_def transport_kind_def report_gate_def split: sum.splits call_error.splits if_splits)

text \<open>
  The switch is one-way. Over any sequence of calls from a fresh automatic transport,
  the requests go out on the standard stack up to and including the first one that is
  answered by a bot challenge, and on the browser stack from then on; without a
  challenge, all of them go out on the standard stack.
\<close>

theorem gate_switches_once:
  assumes "run_calls ev me cl calls st = (rs, st')" and "cs_transport st = AutoTransport False"
  shows "\<exists>before after. cs_sent st' = cs_sent st @ before @ after \<and>
    (\<forall>x \<in> set before. sn_kind x = KindStd) \<and> (\<forall>x \<in> set after. sn_kind x = KindUTLS) \<and>
    cs_transport st' = AutoTransport (\<exists>r \<in> set rs. gated r) \<and>
    (if \<exists>r \<in> set rs. gated r then before \<noteq> [] else after = [])"
proof -
  have flipped: "\<exists>xs. cs_sent t' = cs_sent t @ xs \<and> (\<forall>x \<in> set xs. sn_kind x = KindUTLS) \<and> cs_transport t' = AutoTransport True"
    if "run_calls ev me cl calls t = (rs, t')" "cs_transport t = AutoTransport True" for calls t rs t'
    using that
  proof (induction calls arbitrary: t rs)
    case (Cons call calls)
    obtain cred req ex where call: "call = (cred, req, ex)" by (cases call) auto
    obtain r u where u: "stream_response ev me cl cred req ex t = (r, u)" by fastforce
    obtain rs' where rest: "run_calls ev me cl calls u = (rs', t')"
      using Cons.prems(1) call u by (auto split: prod.splits)
    from transport_after [OF u Cons.prems(2)] Cons.IH [OF rest] show ?case by fastforce
  qed simp
  show ?thesis
    using assms
  proof (induction calls arbitrary: st rs)
    case (Cons call calls)
    obtain cred req ex where call: "call = (cred, req, ex)" by (cases call) auto
    obtain r u where u: "stream_response ev me cl cred req ex st = (r, u)" by fastforce
    obtain rs' where rest: "run_calls ev me cl calls u = (rs', st')" "rs = r # rs'"
      using Cons.prems(1) call u by (auto split: prod.splits)
    note after = transport_after [OF u Cons.prems(2)]
    show ?case
    proof (cases "gated r")
      case True
      with after obtain xs where xs: "cs_sent u = cs_sent st @ xs" "\<forall>x \<in> set xs. sn_kind x = KindStd" "xs \<noteq> []"
        "cs_transport u = AutoTransport True" by auto
      from flipped [OF rest(1) xs(4)] obtain ys where ys: "cs_sent st' = cs_sent u @ ys"
        "\<forall>x \<in> set ys. sn_kind x = KindUTLS" "cs_transport st' = AutoTransport True" by blast
      with xs rest(2) True show ?thesis by (intro exI [of _ xs] exI [of _ ys]) auto
    next
      case False
      with after obtain xs where xs: "cs_sent u = cs_sent st @ xs" "\<forall>x \<in> set xs. sn_kind x = KindStd"
        "cs_transport u = AutoTransport False" by auto
      from Cons.IH [OF rest(1) xs(3)] obtain ys zs where ys: "cs_sent st' = cs_sent u @ ys @ zs"
        "\<forall>x \<in> set ys. sn_kind x = KindStd" "\<forall>x \<in> set zs. sn_kind x = KindUTLS"
        "cs_transport st' = AutoTransport (\<exists>r \<in> set rs'. gated r)"
        "if \<exists>r \<in> set rs'. gated r then ys \<noteq> [] else zs = []" by blast
      with xs rest(2) False show ?thesis
        by (intro exI [of _ "xs @ ys"] exI [of _ zs]) (auto split: if_splits)
    qed
  qed simp
qed

section \<open>Two runs\<close>

definition demo_exchange :: "int \<Rightarrow> header \<Rightarrow> exchange" where
  "demo_exchange status h = \<lparr>ex_build = None, ex_now = 0, ex_reply = Reply status h [] 1\<rparr>"

definition demo_state :: client_state where
  "demo_state = \<lparr>cs_transport = AutoTransport False, cs_sent = [], cs_limits = []\<rparr>"

definition demo_fetch :: "string \<Rightarrow> attempt \<times> attempt" where
  "demo_fetch tok =
     (let a = \<lparr>at_stat = None, at_now = 0, at_load = Join (Inr (demo_cred\<lparr>cr_access := tok\<rparr>)), at_gap = []\<rparr> in (a, a))"

lemma demo_encodes: "\<exists>b. encode_request me demo_responses = Inr b"
  by (simp add: encode_request_def json_marshal_def request_json_def demo_responses_def omit_str_def omit_arr_def
      omit_nil_def)

lemma demo_401: "classify_response demo_env 401 [] rl [] = e \<Longrightarrow> ue_class e = ClassAuth"
  by (auto simp: classify_response_def demo_parse is_gate_response_def looks_html_def is_html_content_type_def
      demo_header to_lower_def is_ascii_def equal_fold_def Let_def)

lemma demo_stream: "is_stream_content_type demo_env (header_get [] k)"
  by (simp add: is_stream_content_type_def demo_header to_lower_def is_ascii_def Let_def trim_space_def trim_with.simps
      white_space_def byte_str_def)

lemma demo_calls:
  assumes "cr_access cred \<noteq> []" "cr_account cred \<noteq> []"
  shows "\<exists>e c'. stream_response demo_env me cl cred (Some demo_responses) (demo_exchange 401 []) c = (Inl (Upstream e), c') \<and>
      ue_class e = ClassAuth \<and> length (cs_sent c') = Suc (length (cs_sent c))"
    and "\<exists>r c'. stream_response demo_env me cl cred (Some demo_responses) (demo_exchange 200 []) c = (Inr r, c') \<and>
      length (cs_sent c') = Suc (length (cs_sent c))"
  using assms demo_encodes [of me] demo_stream demo_401
  by (auto simp: stream_response_def demo_exchange_def Let_def note_gate_def is_gate_def observe_def)

lemma demo_get: "\<not> is_invalidated tok s \<Longrightarrow> ss_cached s = None \<Longrightarrow>
    source_fetch cd se (demo_fetch tok) s = (Inr (demo_cred\<lparr>cr_access := tok\<rparr>), s)"
  by (simp add: source_fetch_def demo_fetch_def get_def fast_path_def run_lead_def invalidate_all_def Let_def)

definition demo_retry :: "(call_error + response) \<times> source_state \<times> client_state" where
  "demo_retry =
     stream_with_refresh demo_env (\<lambda>r. PlainError []) (new_client [] 0)
       (source_fetch demo_codec \<lparr>st_path = [], st_skew = 1\<rparr>) source_reject (Some demo_responses)
       (demo_fetch ''t1'', demo_exchange 401 []) (demo_fetch ''t2'', demo_exchange 200 []) (new_source, demo_state)"

theorem refresh_retries_once_witness:
  "\<exists>a b old new. cs_sent (snd (snd demo_retry)) = [a, b] \<and> signed_by old a \<and> signed_by new b \<and>
     (cr_access new \<noteq> cr_access old \<or> cr_account new \<noteq> cr_account old)"
proof -
  let ?c1 = "demo_cred\<lparr>cr_access := ''t1''\<rparr>" and ?c2 = "demo_cred\<lparr>cr_access := ''t2''\<rparr>"
  have cred: "cr_access ?c1 \<noteq> []" "cr_account ?c1 \<noteq> []" "cr_access ?c2 \<noteq> []" "cr_account ?c2 \<noteq> []"
    by (simp_all add: demo_cred_def)
  obtain e c1 where e: "stream_response demo_env (\<lambda>r. PlainError []) (new_client [] 0) ?c1 (Some demo_responses)
      (demo_exchange 401 []) demo_state = (Inl (Upstream e), c1)" "ue_class e = ClassAuth" "length (cs_sent c1) = 1"
    using demo_calls(1) [OF cred(1,2)] by (fastforce simp: demo_state_def)
  obtain r c2 where r: "stream_response demo_env (\<lambda>r. PlainError []) (new_client [] 0) ?c2 (Some demo_responses)
      (demo_exchange 200 []) c1 = (Inr r, c2)" "length (cs_sent c2) = 2"
    using demo_calls(2) [OF cred(3,4), of _ _ c1] e(3) by (metis One_nat_def Suc_1)
  have "source_fetch demo_codec \<lparr>st_path = [], st_skew = 1\<rparr> (demo_fetch ''t1'') new_source = (Inr ?c1, new_source)"
    by (rule demo_get) (simp_all add: new_source_def is_invalidated_def)
  moreover have "source_fetch demo_codec \<lparr>st_path = [], st_skew = 1\<rparr> (demo_fetch ''t2'') (source_reject ?c1 new_source) =
      (Inr ?c2, source_reject ?c1 new_source)"
    by (rule demo_get) (simp_all add: new_source_def is_invalidated_def source_reject_def invalidate_def Let_def)
  ultimately have R: "demo_retry = (Inr r, source_reject ?c1 new_source, c2)"
    using e r by (simp add: demo_retry_def stream_with_refresh_def needs_credential_refresh_def)
  have nil: "cs_sent demo_state = []" by (simp add: demo_state_def)
  from refresh_retries_once [OF R [unfolded demo_retry_def]] show ?thesis
    unfolding R snd_conv nil append_Nil using r(2) by (elim disjE exE conjE) (simp, blast+)
qed

definition demo_gate :: header where
  "demo_gate = [(''Cf-Ray'', [''x''])]"

lemma canonical_gate: "canonical_key ''cf-ray'' = ''Cf-Ray''" "canonical_key ''Server'' = ''Server''"
  "canonical_key ''Location'' = ''Location''"
  by code_simp+

lemma demo_gated: "ue_class (classify_response demo_env 403 demo_gate rl []) = ClassGate"
  by (simp add: classify_response_def demo_parse is_gate_response_def demo_gate_def header_get_def header_values_def
      canonical_gate canonical_names looks_html_def is_html_content_type_def to_lower_def is_ascii_def Let_def)

theorem gate_switches_once_witness:
  "cs_transport (snd (run_calls demo_env (\<lambda>r. PlainError []) (new_client [] 0)
     [(demo_cred, Some demo_responses, demo_exchange 403 demo_gate)] demo_state)) = AutoTransport True"
proof -
  obtain b where b: "encode_request (\<lambda>r. PlainError []) demo_responses = Inr b" using demo_encodes by blast
  obtain rs st where R: "run_calls demo_env (\<lambda>r. PlainError []) (new_client [] 0)
     [(demo_cred, Some demo_responses, demo_exchange 403 demo_gate)] demo_state = (rs, st)" by fastforce
  then have "\<exists>e. rs = [Inl (Upstream e)] \<and> ue_class e = ClassGate"
    using demo_gated
    by (auto simp: stream_response_def demo_exchange_def Let_def demo_cred_def b split: prod.splits)
  then have "\<exists>r \<in> set rs. gated r" by (auto simp: gated_def is_gate_def)
  with gate_switches_once [OF R] R show ?thesis by (auto simp: demo_state_def)
qed

end
