(* ===== verification/CodexLeg.thy ===== *)
theory CodexLeg
  imports CodexClient StreamRun SseWriter Downstream
begin

text \<open>
  \<^verbatim>\<open>internal/codex/leg\<close>: the Codex leg, which composes the credential source, the request
  translation, the client with its one retry, the stream translator and one of the two
  sinks. One request is a pure function of the routed request, of the state of the source
  and of the client, and of what the outside does; logging, tracing and the per-request
  summary are left out. \<^verbatim>\<open>MessageJSON\<close> of \<^verbatim>\<open>internal/translate/stream/aggregator.go\<close> is here too.
\<close>

section \<open>The lazy writer\<close>

text \<open>The status line waits for the first byte of the body.\<close>

record lazy_writer =
  lw_w :: writer
  lw_started :: bool

definition prepare_stream :: "writer \<Rightarrow> writer" where
  "prepare_stream w =
     set_header ''X-Accel-Buffering'' ''no''
       (set_header ''Cache-Control'' ''no-cache'' (set_header ''Content-Type'' ''text/event-stream'' w))"

definition new_lazy_writer :: "writer \<Rightarrow> lazy_writer" where
  "new_lazy_writer w = \<lparr>lw_w = w, lw_started = False\<rparr>"

definition lazy_start :: "lazy_writer \<Rightarrow> lazy_writer" where
  "lazy_start lw =
     (if lw_started lw then lw
      else \<lparr>lw_w = write_header 200 (prepare_stream (lw_w lw)), lw_started = True\<rparr>)"

definition lazy_write ::
  "(string \<Rightarrow> string \<Rightarrow> go_error option) \<Rightarrow> string \<Rightarrow> lazy_writer \<Rightarrow> go_error option \<times> lazy_writer" where
  "lazy_write bw p lw =
     (let lw = lazy_start lw in
      case write_body bw p (lw_w lw) of (e, w) \<Rightarrow> (e, lw\<lparr>lw_w := w\<rparr>))"

text \<open>
  The streaming sink over it. The frame writer keeps its first error; its buffer passes a
  frame on in one piece, and the flush below it answers no error.
\<close>

record lazy_sink =
  lk_lazy :: lazy_writer
  lk_err :: "go_error option"

definition lazy_call ::
  "(json \<Rightarrow> go_error) \<Rightarrow> (string \<Rightarrow> string \<Rightarrow> go_error option) \<Rightarrow> sink_call \<Rightarrow> lazy_sink \<Rightarrow> go_error option \<times> lazy_sink" where
  "lazy_call me bw c lk =
     (case json_marshal (payload c) of
        None \<Rightarrow> (Some (me (payload c)), lk)
      | Some data \<Rightarrow>
          if lk_err lk \<noteq> None then (lk_err lk, lk)
          else case lazy_write bw (concat (frame_chunks (event_name c) data)) (lk_lazy lk) of
            (e, lw) \<Rightarrow> (e, \<lparr>lk_lazy = lw, lk_err = e\<rparr>))"

definition lazy_calls ::
  "(json \<Rightarrow> go_error) \<Rightarrow> (string \<Rightarrow> string \<Rightarrow> go_error option) \<Rightarrow> writer \<Rightarrow> sink_call list \<Rightarrow> lazy_sink" where
  "lazy_calls me bw w cs =
     foldl (\<lambda>lk c. snd (lazy_call me bw c lk)) \<lparr>lk_lazy = new_lazy_writer w, lk_err = None\<rparr> cs"

definition lazy_sink_of ::
  "(json \<Rightarrow> go_error) \<Rightarrow> (string \<Rightarrow> string \<Rightarrow> go_error option) \<Rightarrow> writer \<Rightarrow> sink" where
  "lazy_sink_of me bw w cs c = fst (lazy_call me bw c (lazy_calls me bw w cs))"

section \<open>The answer to a request that does not stream\<close>

definition response_block :: "content_block \<Rightarrow> json" where
  "response_block b =
     (case cb_type b of
        Sink.BlockText \<Rightarrow> JObj [(''type'', JStr ''text''), (''text'', JStr (cb_text b))]
      | Sink.BlockThinking \<Rightarrow>
          JObj [(''type'', JStr ''thinking''), (''thinking'', JStr (cb_thinking b)), (''signature'', JStr (cb_signature b))]
      | Sink.BlockToolUse \<Rightarrow>
          JObj [(''type'', JStr ''tool_use''), (''id'', JStr (cb_id b)), (''name'', JStr (cb_name b)),
                (''input'', JRaw (if cb_input b = [] then ''{}'' else cb_input b))]
      | BlockOther s \<Rightarrow> json_block b)"

definition response_json :: "messages_response \<Rightarrow> json" where
  "response_json m =
     JObj [(''id'', JStr (mr_id m)), (''type'', JStr ''message''), (''role'', JStr ''assistant''),
           (''model'', JStr (mr_model m)), (''content'', JArr (map response_block (mr_content m))),
           (''stop_reason'', str_ptr (stop_reason_text (mr_stop_reason m))), (''stop_sequence'', JNull),
           (''usage'', json_usage (mr_usage m))]"

definition message_json ::
  "(json \<Rightarrow> go_error) \<Rightarrow> (string \<Rightarrow> string) \<Rightarrow> (string \<Rightarrow> bool) \<Rightarrow> agg \<Rightarrow> go_error + string" where
  "message_json me q valid a =
     (case agg_message q valid a of
        Inl e \<Rightarrow> Inl e
      | Inr m \<Rightarrow> (case json_marshal (response_json m) of None \<Rightarrow> Inl (me (response_json m)) | Some b \<Rightarrow> Inr b))"

section \<open>Configuration\<close>

text \<open>Whether there is a credential source and a catalog is part of it; they are themselves parameters.\<close>

record codex_options =
  xo_client :: bool
  xo_creds :: bool
  xo_catalog :: bool
  xo_emit_reasoning :: "reasoning_mode option"
  xo_truncate_mode :: "truncate_mode option"
  xo_summary :: string
  xo_heartbeat :: int
  xo_upstream_idle :: int

definition reasoning_valid :: "reasoning_mode \<Rightarrow> bool" where
  "reasoning_valid m \<longleftrightarrow> m = ReasoningThinking \<or> m = ReasoningDrop"

definition truncate_valid :: "truncate_mode \<Rightarrow> bool" where
  "truncate_valid m \<longleftrightarrow> m = TruncateError \<or> m = TruncateFinish"

definition reasoning_text :: "reasoning_mode \<Rightarrow> string" where
  "reasoning_text m = (case m of ReasoningThinking \<Rightarrow> ''thinking'' | ReasoningDrop \<Rightarrow> ''drop'' | ReasoningUnknown s \<Rightarrow> s)"

definition truncate_text :: "truncate_mode \<Rightarrow> string" where
  "truncate_text m = (case m of TruncateError \<Rightarrow> ''error'' | TruncateFinish \<Rightarrow> ''finish'' | TruncateUnknown s \<Rightarrow> s)"

definition new_codex_leg :: "(string \<Rightarrow> string) \<Rightarrow> codex_options \<Rightarrow> go_error + codex_options" where
  "new_codex_leg q opts =
     (if \<not> xo_client opts then Inl (PlainError ''utraque/codex/leg: nil responses client'')
      else case xo_emit_reasoning opts of
        Some m \<Rightarrow>
          if \<not> reasoning_valid m
          then Inl (PlainError (''utraque/codex/leg: unknown EmitReasoning mode '' @ go_quote q (reasoning_text m)))
          else (case xo_truncate_mode opts of
                  Some m \<Rightarrow> if \<not> truncate_valid m
                    then Inl (PlainError (''utraque/codex/leg: unknown TruncateMode '' @ go_quote q (truncate_text m)))
                    else Inr opts
                | None \<Rightarrow> Inr opts)
      | None \<Rightarrow> (case xo_truncate_mode opts of
                  Some m \<Rightarrow> if \<not> truncate_valid m
                    then Inl (PlainError (''utraque/codex/leg: unknown TruncateMode '' @ go_quote q (truncate_text m)))
                    else Inr opts
                | None \<Rightarrow> Inr opts))"

section \<open>What the outside does\<close>

text \<open>
  The translator selects among a frame, a tick of one of its two timers and the end of the
  context. A schedule says which comes next; where it stops, what is left of the stream
  comes as it is read. After the last frame comes the end of the stream.
\<close>

datatype turn = NextFrame | Beat | Silence | Cancelled go_error

fun weave :: "turn list \<Rightarrow> frame list \<Rightarrow> go_error option \<Rightarrow> signal list" where
  "weave [] fs fin = map FrameIn fs @ [ScanEnd fin]"
| "weave (NextFrame # ts) [] fin = ScanEnd fin # weave ts [] fin"
| "weave (NextFrame # ts) (f # fs) fin = FrameIn f # weave ts fs fin"
| "weave (Beat # ts) fs fin = HeartbeatTick # weave ts fs fin"
| "weave (Silence # ts) fs fin = IdleTick # weave ts fs fin"
| "weave (Cancelled e # ts) fs fin = CtxDone e # weave ts fs fin"

text \<open>
  The world of one request: the decoders of the library, the answers of the credential
  source's own environment (\<open>'i\<close>), of the catalog and of the upstream, the end of the body,
  the schedule, and what the client's connection accepts. The estimate of a prompt is
  \<^const>\<open>None\<close> when the estimator panics.
\<close>

record 'i codex_world =
  xw_request :: "string \<Rightarrow> go_error + messages_request"
  xw_quote :: "string \<Rightarrow> string"
  xw_fold :: "string \<Rightarrow> string \<Rightarrow> bool"             \<comment> \<open>\<^verbatim>\<open>strings.EqualFold\<close>\<close>
  xw_get :: 'i
  xw_catalog :: "go_error + catalog_model list"
  xw_walk :: walk_env
  xw_schema :: schema_env
  xw_sha256 :: "string \<Rightarrow> string"
  xw_client :: client
  xw_errors :: error_env
  xw_encode_error :: "responses_request \<Rightarrow> go_error"
  xw_first :: "'i \<times> exchange"
  xw_second :: "'i \<times> exchange"
  xw_body_end :: go_error
  xw_schedule :: "turn list"
  xw_event :: "string \<Rightarrow> stream_event option"
  xw_payload :: "reasoning_payload \<Rightarrow> string"
  xw_valid_json :: "string \<Rightarrow> bool"
  xw_raw_error :: "json \<Rightarrow> go_error"
  xw_envelope :: "Apierr.error_body \<Rightarrow> string"
  xw_upstream :: "go_error \<Rightarrow> upstream_error option"       \<comment> \<open>\<^verbatim>\<open>AsUpstream\<close> of an error of the stream\<close>
  xw_estimate :: "responses_request \<Rightarrow> int option"
  xw_counted :: bool                                       \<comment> \<open>the count is ready before the context ends\<close>
  xw_gone :: "go_error option"                             \<comment> \<open>\<^verbatim>\<open>ctx.Err()\<close> when the exchange fails\<close>
  xw_accepts :: "string \<Rightarrow> string \<Rightarrow> go_error option"

section \<open>Errors\<close>

definition translate_error :: "go_error \<Rightarrow> go_error" where
  "translate_error e =
     (if error_is e err_tool_change then wrap_error e TypeInvalidRequest (error_text e)
      else wrap_error e TypeInvalidRequest ''translating the request for the codex backend failed'')"

definition no_credential_error :: "(string \<Rightarrow> string) \<Rightarrow> decision \<Rightarrow> go_error" where
  "no_credential_error q dec =
     with_status 503 TypeAPI
       (''codex leg unavailable: no Codex credential is configured, so model '' @ go_quote q (dc_client dec) @
        '' (upstream model '' @ go_quote q (dc_upstream dec) @
        '') cannot be served; run `codex login` or set UTRAQUE_CODEX_AUTH_FILE'')"

definition credential_error :: "go_error \<Rightarrow> go_error" where
  "credential_error e =
     (case as_api_error e of
        Some ae \<Rightarrow> ae
      | None \<Rightarrow>
          with_status 503 TypeAPI
            (''codex leg unavailable: could not obtain a usable Codex credential ('' @ error_text e @ ''); try `codex login`''))"

definition bad_gateway :: "go_error \<Rightarrow> string \<Rightarrow> go_error" where
  "bad_gateway e msg = ApiError TypeAPI msg 502 (Some e)"

definition classify_stream_failure :: "(go_error \<Rightarrow> upstream_error option) \<Rightarrow> go_error \<Rightarrow> go_error" where
  "classify_stream_failure au e =
     (if error_is e ErrNoData then bad_gateway e ''the codex backend opened a stream but sent no events''
      else if error_is e ErrIdleTimeout then wrap_error e TypeTimeout ''the codex backend stopped sending data''
      else if error_is e ErrTruncated \<or> error_is e ErrIncomplete then
        bad_gateway e ''the codex backend closed the stream before the response was complete''
      else case au e of
        Some ue \<Rightarrow> api_error (Some ue)
      | None \<Rightarrow>
          (case as_api_error e of
             Some ae \<Rightarrow> ae
           | None \<Rightarrow> bad_gateway e ''the codex backend stream failed''))"

section \<open>Answering\<close>

definition render_upstream_failure ::
  "'i codex_world \<Rightarrow> call_error \<Rightarrow> writer \<Rightarrow> leg_error option \<times> writer" where
  "render_upstream_failure xw err w =
     (case xw_gone xw of
        Some g \<Rightarrow> (Some (Gone g), w)
      | None \<Rightarrow>
          (case err of
             Plain e \<Rightarrow> (Some (Failure e), w)
           | Upstream ue \<Rightarrow>
               (None, respond (xw_accepts xw)
                  (render_error (xw_envelope xw) (Some (api_error (Some ue))) (upstream_http_status (Some ue)))
                  (w\<lparr>wr_header := apply_headers (Some ue) (wr_header w)\<rparr>))))"

definition render_start_failure ::
  "'i codex_world \<Rightarrow> go_error \<Rightarrow> writer \<Rightarrow> leg_error option \<times> writer" where
  "render_start_failure xw err w =
     (case xw_gone xw of
        Some g \<Rightarrow> (Some (Gone g), w)
      | None \<Rightarrow>
          (None, respond (xw_accepts xw)
             (render_error (xw_envelope xw) (Some (classify_stream_failure (xw_upstream xw) err)) 0) w))"

definition codex_mark_route :: "decision \<Rightarrow> writer \<Rightarrow> writer" where
  "codex_mark_route dec w =
     (let w = set_header ''X-Utraque-Route'' ''codex'' w
      in if dc_upstream dec \<noteq> [] then set_header ''X-Utraque-Model'' (dc_upstream dec) w else w)"

definition codex_upstream_model :: "routed \<Rightarrow> string" where
  "codex_upstream_model rq = (if dc_upstream (rq_dec rq) \<noteq> [] then dc_upstream (rq_dec rq) else dc_client (rq_dec rq))"

text \<open>The catalog's entry for the routed slug; without one the effort is not clamped.\<close>

definition zero_catalog_model :: catalog_model where
  "zero_catalog_model = \<lparr>cm_slug = [], cm_default_level = [], cm_default_summary = [], cm_levels = []\<rparr>"

definition catalog_model_of :: "codex_options \<Rightarrow> 'i codex_world \<Rightarrow> string \<Rightarrow> catalog_model" where
  "catalog_model_of l xw slug =
     (if \<not> xo_catalog l \<or> slug = [] then zero_catalog_model
      else case xw_catalog xw of
        Inl e \<Rightarrow> zero_catalog_model
      | Inr ms \<Rightarrow> (case find (\<lambda>m. xw_fold xw (cm_slug m) slug) ms of None \<Rightarrow> zero_catalog_model | Some m \<Rightarrow> m))"

text \<open>\<^verbatim>\<open>seed.Value\<close>: a finished count wins; a panic of the estimator counts as zero.\<close>

definition seed_value :: "'i codex_world \<Rightarrow> responses_request \<Rightarrow> int" where
  "seed_value xw creq =
     (if xw_counted xw then (case xw_estimate xw creq of None \<Rightarrow> 0 | Some n \<Rightarrow> n) else 0)"

definition translator_options ::
  "codex_options \<Rightarrow> 'i codex_world \<Rightarrow> routed \<Rightarrow> responses_request \<Rightarrow> int \<Rightarrow> stream_options" where
  "translator_options l xw rq creq heartbeat =
     \<lparr>op_upstream_model = codex_upstream_model rq, op_input_tokens = 0,
      op_input_tokens_func = Some (seed_value xw creq), op_emit_reasoning = xo_emit_reasoning l,
      op_truncate_mode = xo_truncate_mode l, op_heartbeat = heartbeat, op_upstream_idle = xo_upstream_idle l,
      op_max_pending_bytes = 0, op_max_pending_items = 0\<rparr>"

text \<open>How a run comes back: its error and its state. Its loops end, so \<^const>\<open>Diverge\<close> stays out.\<close>

definition outcome_of :: "loop_end \<Rightarrow> go_error option \<times> tstate" where
  "outcome_of r =
     (case r of
        Running t \<Rightarrow> (None, t)
      | Returned None t \<Rightarrow> (None, t)
      | Returned (Some (Fail e)) t \<Rightarrow> (Some e, t)
      | Returned (Some Diverge) t \<Rightarrow> (None, t))"

definition stream_signals :: "'i codex_world \<Rightarrow> string \<Rightarrow> signal list" where
  "stream_signals xw body =
     (case scan_all (new_scanner body (xw_body_end xw)) of
        (fs, sc) \<Rightarrow> weave (xw_schedule xw) fs (sc_err sc))"

definition run_translator ::
  "codex_options \<Rightarrow> 'i codex_world \<Rightarrow> routed \<Rightarrow> responses_request \<Rightarrow> int \<Rightarrow> sink \<Rightarrow> string \<Rightarrow> loop_end" where
  "run_translator l xw rq creq heartbeat sk body =
     run \<lparr>ev_sink = sk, ev_marshal = xw_payload xw\<rparr> (xw_event xw)
       (translator_options l xw rq creq heartbeat) (stream_signals xw body)"

definition serve_stream ::
  "codex_options \<Rightarrow> 'i codex_world \<Rightarrow> routed \<Rightarrow> responses_request \<Rightarrow> string \<Rightarrow> writer \<Rightarrow> leg_error option \<times> writer" where
  "serve_stream l xw rq creq body w =
     (case outcome_of (run_translator l xw rq creq (xo_heartbeat l)
             (lazy_sink_of (xw_raw_error xw) (xw_accepts xw) w) body) of
        (err, t) \<Rightarrow>
          let lw = lk_lazy (lazy_calls (xw_raw_error xw) (xw_accepts xw) w (ts_out t)) in
          (case err of
             None \<Rightarrow> (None, lw_w lw)
           | Some e \<Rightarrow>
               if lw_started lw then (Some (Started e), lw_w lw)
               else render_start_failure xw e (lw_w lw)))"

definition serve_aggregate ::
  "codex_options \<Rightarrow> 'i codex_world \<Rightarrow> routed \<Rightarrow> responses_request \<Rightarrow> string \<Rightarrow> writer \<Rightarrow> leg_error option \<times> writer" where
  "serve_aggregate l xw rq creq body w =
     (case outcome_of (run_translator l xw rq creq (-1) (agg_sink (xw_quote xw)) body) of
        (Some e, t) \<Rightarrow> render_start_failure xw e w
      | (None, t) \<Rightarrow>
          (case message_json (xw_raw_error xw) (xw_quote xw) (xw_valid_json xw) (agg_run (ts_out t)) of
             Inl e \<Rightarrow> render_start_failure xw e w
           | Inr b \<Rightarrow>
               (None, snd (write_body (xw_accepts xw) (b @ [CHR 0x0A])
                  (write_header 200
                    (set_header ''X-Content-Type-Options'' ''nosniff''
                      (set_header ''Content-Type'' ''application/json'' w)))))))"

section \<open>A request\<close>

text \<open>\<^verbatim>\<open>Messages\<close>; \<open>fetch\<close> and \<open>reject\<close> are the methods of the credential source.\<close>

definition codex_messages ::
  "('i \<Rightarrow> 's \<Rightarrow> (go_error + credential) \<times> 's) \<Rightarrow> (credential \<Rightarrow> 's \<Rightarrow> 's) \<Rightarrow> codex_options \<Rightarrow> 'i codex_world \<Rightarrow>
   routed \<Rightarrow> 's \<times> client_state \<Rightarrow> writer \<Rightarrow> (leg_error option \<times> writer) \<times> 's \<times> client_state" where
  "codex_messages fetch reject l xw rq st w =
     (let w = codex_mark_route (rq_dec rq) w in
      case xw_request xw (rq_raw rq) of
        Inl e \<Rightarrow>
          ((Some (Failure (wrap_error e TypeInvalidRequest ''request body is not a valid Messages request'')), w), st)
      | Inr req \<Rightarrow>
          if \<not> xo_creds l then ((Some (Failure (no_credential_error (xw_quote xw) (rq_dec rq))), w), st)
          else case fetch (xw_get xw) (fst st) of
            (Inl e, src) \<Rightarrow> ((Some (Failure (credential_error e)), w), src, snd st)
          | (Inr cred, src) \<Rightarrow>
              (case translate_request (xw_walk xw) (xw_schema xw) (xw_sha256 xw) (Some req) (rq_dec rq)
                      (catalog_model_of l xw (dc_upstream (rq_dec rq)))
                      \<lparr>op_beta_effort = [], op_config_effort = [], op_summary = xo_summary l, op_mutating = None\<rparr> of
                 Inl e \<Rightarrow> ((Some (Failure (translate_error e)), w), src, snd st)
               | Inr (creq, meta) \<Rightarrow>
                   (case stream_with_refresh (xw_errors xw) (xw_encode_error xw) (xw_client xw) fetch reject
                           (Some creq) (xw_first xw) (xw_second xw) (src, snd st) of
                      (Inl e, st) \<Rightarrow> (render_upstream_failure xw e w, st)
                    | (Inr resp, st) \<Rightarrow>
                        ((if rq_streaming rq then serve_stream l xw rq creq (rs_body resp) w
                          else serve_aggregate l xw rq creq (rs_body resp) w), st))))"

text \<open>
  \<^verbatim>\<open>CountTokens\<close>: the request is translated as a turn would be and the result is counted.
  \<open>decode\<close> reads a count request, whose missing fields are zero.
\<close>

definition codex_count_tokens ::
  "(string \<Rightarrow> go_error + messages_request) \<Rightarrow> (responses_request \<Rightarrow> int) \<Rightarrow> string \<Rightarrow> codex_options \<Rightarrow>
   'i codex_world \<Rightarrow> routed \<Rightarrow> writer \<Rightarrow> leg_error option \<times> writer" where
  "codex_count_tokens decode count name l xw rq w =
     (let w = codex_mark_route (rq_dec rq) w in
      case decode (rq_raw rq) of
        Inl e \<Rightarrow>
          (Some (Failure (wrap_error e TypeInvalidRequest ''request body is not a valid count_tokens request'')), w)
      | Inr req \<Rightarrow>
          (case translate_request (xw_walk xw) (xw_schema xw) (xw_sha256 xw) (Some req) (rq_dec rq) zero_catalog_model
                  \<lparr>op_beta_effort = [], op_config_effort = [], op_summary = xo_summary l, op_mutating = None\<rparr> of
             Inl e \<Rightarrow> (Some (Failure (translate_error e)), w)
           | Inr (creq, meta) \<Rightarrow>
               (None, snd (write_body (xw_accepts xw) (marshal (JObj [(''input_tokens'', JNum (count creq))]) @ [CHR 0x0A])
                  (write_header 200
                    (set_header ''X-Utraque-Token-Count-Method'' (''estimated; estimator='' @ name)
                      (set_header ''X-Content-Type-Options'' ''nosniff''
                        (set_header ''Content-Type'' ''application/json'' w))))))))"

end
