(* ===== verification/CodexServe.thy ===== *)
theory CodexServe
  imports CodexLeg
begin

text \<open>
  The theorems on the Codex leg: an exchange always ends, what a client has received when
  the leg reports no error is one error envelope or one whole answer, and the leg keeps
  the contract between a leg and the dispatcher.
\<close>

section \<open>An exchange ends\<close>

lemma run_loop_returns:
  "ScanEnd fin \<in> set ss \<Longrightarrow> \<exists>err t'. run_loop ev um cf t ss = Returned err t'"
proof (induction ev um cf t ss rule: run_loop.induct)
  case (3 ev um cf t fr ss)
  then show ?case by (cases "handle ev um cf fr t") (auto split: option.splits)
next
  case (4 ev um cf t e ss)
  then show ?case by (cases "handle_end ev cf e t") simp
next
  case (5 ev um cf t ss)
  then show ?case by (cases "emit ev Ping t") (auto split: option.splits)
next
  case (6 ev um cf t ss)
  then show ?case by (cases "handle_end ev cf (Some ErrIdleTimeout) t") auto
qed simp_all

lemma weave_ends: "ScanEnd fin \<in> set (weave ts fs fin)"
  by (induction ts fs fin rule: weave.induct) auto

lemma run_translator_returns:
  obtains err t where "run_translator l xw rq creq hb sk body = Returned err t" "err \<noteq> Some Diverge"
proof -
  let ?ev = "\<lparr>ev_sink = sk, ev_marshal = xw_payload xw\<rparr>"
  let ?opt = "translator_options l xw rq creq hb"
  have "\<exists>err t. run ?ev (xw_event xw) ?opt (stream_signals xw body) = Returned err t"
    unfolding run_def stream_signals_def new_translator_def
    by (simp split: prod.split) (blast intro: run_loop_returns weave_ends)
  then obtain err t where r: "run ?ev (xw_event xw) ?opt (stream_signals xw body) = Returned err t" by blast
  moreover have "err \<noteq> Some Diverge"
    using run_run_ok [of ?ev "stream_signals xw body" "xw_event xw" ?opt] r by (auto simp: run_ok_def)
  ultimately show thesis using that by (simp add: run_translator_def)
qed

lemma translator_grammar:
  assumes "run_translator l xw rq creq hb sk body = Returned None t"
  shows "well_formed (ts_out t) \<and>
    (ts_terminus t = TerminusClean \<and> sink_phase (ts_out t) = Done \<or>
     ts_terminus t = TerminusErrored \<and> sink_phase (ts_out t) = Failed)"
proof -
  have "run_ok \<lparr>ev_sink = sk, ev_marshal = xw_payload xw\<rparr> (stream_signals xw body) (Returned None t)"
    using run_run_ok assms unfolding run_translator_def by metis
  then show ?thesis
    by (auto simp: run_ok_def ended_def tinv_well_formed tinv_def [unfolded phase_of_def] split: option.splits)
qed

section \<open>What the lazy writer has sent\<close>

text \<open>The bytes of calls, those apart whose raw JSON is not valid.\<close>

definition call_bytes :: "sink_call list \<Rightarrow> string" where
  "call_bytes cs = concat (map (frame_bytes \<circ> call_frame) (filter (\<lambda>c. raw_valid (payload c)) cs))"

definition lazy_ok :: "writer \<Rightarrow> sink_call list \<Rightarrow> lazy_sink \<Rightarrow> bool" where
  "lazy_ok w cs lk \<longleftrightarrow>
     (if lw_started (lk_lazy lk)
      then wr_sent (lw_w (lk_lazy lk)) = Some (200, wr_header (prepare_stream w)) \<and>
           wr_extra (lw_w (lk_lazy lk)) = 0 \<and>
           prefix (wr_body (lw_w (lk_lazy lk))) (call_bytes cs) \<and>
           (lk_err lk = None \<longrightarrow> wr_body (lw_w (lk_lazy lk)) = call_bytes cs)
      else lw_w (lk_lazy lk) = w \<and> lk_err lk = None \<and> call_bytes cs = []) \<and>
     (lw_started (lk_lazy lk) \<longleftrightarrow> list_ex (\<lambda>c. raw_valid (payload c)) cs)"

lemma lazy_write_first:
  assumes "untouched w" "lazy_write bw p (new_lazy_writer w) = (e, lw)"
  shows "lw_started lw \<and> wr_sent (lw_w lw) = Some (200, wr_header (prepare_stream w)) \<and> wr_extra (lw_w lw) = 0 \<and>
    wr_body (lw_w lw) = (if e = None then p else [])"
  using assms
  by (auto simp: lazy_write_def lazy_start_def new_lazy_writer_def write_body_def ensure_header_def Let_def
      write_header_def final_status_def untouched_def committed_def prepare_stream_def split: option.splits)

lemma lazy_write_next:
  assumes "lw_started lw" "wr_sent (lw_w lw) = Some x" "lazy_write bw p lw = (e, lw')"
  shows "lw_started lw' \<and> wr_sent (lw_w lw') = Some x \<and> wr_extra (lw_w lw') = wr_extra (lw_w lw) \<and>
    wr_body (lw_w lw') = wr_body (lw_w lw) @ (if e = None then p else [])"
  using assms
  by (auto simp: lazy_write_def lazy_start_def write_body_def ensure_header_def Let_def split: option.splits)

lemma call_bytes_snoc:
  "call_bytes (cs @ [c]) = call_bytes cs @ (if raw_valid (payload c) then frame_bytes (call_frame c) else [])"
  by (simp add: call_bytes_def)

lemma lazy_calls_ok:
  assumes u: "untouched w"
  shows "lazy_ok w cs (lazy_calls me bw w cs)"
proof (induction cs rule: rev_induct)
  case Nil
  then show ?case by (simp add: lazy_ok_def lazy_calls_def new_lazy_writer_def call_bytes_def)
next
  case (snoc c cs)
  let ?lk = "lazy_calls me bw w cs"
  have step: "lazy_calls me bw w (cs @ [c]) = snd (lazy_call me bw c ?lk)" by (simp add: lazy_calls_def)
  show ?case
  proof (cases "raw_valid (payload c)")
    case False
    with snoc show ?thesis
      by (simp add: step lazy_call_def json_marshal_def lazy_ok_def call_bytes_snoc)
  next
    case True
    let ?p = "frame_bytes (call_frame c)"
    have call: "lazy_call me bw c ?lk =
        (if lk_err ?lk \<noteq> None then (lk_err ?lk, ?lk)
         else case lazy_write bw ?p (lk_lazy ?lk) of (e, lw) \<Rightarrow> (e, \<lparr>lk_lazy = lw, lk_err = e\<rparr>))"
      using True by (simp add: lazy_call_def json_marshal_def frame_bytes_def call_frame_def)
    show ?thesis
    proof (cases "lk_err ?lk")
      case (Some e)
      with snoc show ?thesis
        by (auto simp: step call lazy_ok_def call_bytes_snoc True split: if_splits)
    next
      case None
      obtain e lw where w: "lazy_write bw ?p (lk_lazy ?lk) = (e, lw)" by fastforce
      show ?thesis
      proof (cases "lw_started (lk_lazy ?lk)")
        case started: True
        with snoc None have "wr_sent (lw_w (lk_lazy ?lk)) = Some (200, wr_header (prepare_stream w))"
          "wr_extra (lw_w (lk_lazy ?lk)) = 0" "wr_body (lw_w (lk_lazy ?lk)) = call_bytes cs"
          "list_ex (\<lambda>c. raw_valid (payload c)) cs"
          by (simp_all add: lazy_ok_def)
        with lazy_write_next [OF started _ w] None w True show ?thesis
          by (auto simp: step call lazy_ok_def call_bytes_snoc)
      next
        case False
        with snoc None have z: "lw_w (lk_lazy ?lk) = w" "call_bytes cs = []" by (simp_all add: lazy_ok_def)
        then have "lk_lazy ?lk = new_lazy_writer w" using False by (simp add: new_lazy_writer_def)
        with lazy_write_first [OF u] w have "lw_started lw \<and> wr_sent (lw_w lw) = Some (200, wr_header (prepare_stream w)) \<and>
            wr_extra (lw_w lw) = 0 \<and> wr_body (lw_w lw) = (if e = None then ?p else [])" by metis
        with None w z True show ?thesis
          by (auto simp: step call lazy_ok_def call_bytes_snoc)
      qed
    qed
  qed
qed

lemma message_start_raw_valid: "raw_valid (payload (MessageStart i m n))"
  by (simp add: payload_def wire_message_def json_usage_def omit_num_def)

text \<open>A stream that has begun, began with message_start.\<close>

lemma started_first:
  assumes "well_formed cs" "cs \<noteq> []"
  shows "list_ex (\<lambda>c. raw_valid (payload c)) cs"
proof -
  obtain c ds where cs: "cs = c # ds" using assms(2) by (cases cs) auto
  have "phase_step Idle c \<noteq> Bad"
    using assms(1) by (auto simp: cs well_formed_def sink_phase_def)
  then obtain i m n where "c = MessageStart i m n" by (cases c) auto
  then show ?thesis by (simp add: cs message_start_raw_valid)
qed

section \<open>What the client has received\<close>

text \<open>One error envelope, one whole stream, or one whole message.\<close>

definition error_answer :: "'i codex_world \<Rightarrow> writer \<Rightarrow> bool" where
  "error_answer xw w' \<longleftrightarrow>
     (\<exists>w0 e st. untouched w0 \<and> w' = respond (xw_accepts xw) (render_error (xw_envelope xw) (Some e) st) w0)"

definition stream_answer :: "writer \<Rightarrow> bool" where
  "stream_answer w' \<longleftrightarrow>
     (\<exists>cs w0. well_formed cs \<and> (sink_phase cs = Done \<or> sink_phase cs = Failed) \<and>
        wr_sent w' = Some (200, wr_header (prepare_stream w0)) \<and> wr_extra w' = 0 \<and> prefix (wr_body w') (call_bytes cs))"

definition whole_stream :: "writer \<Rightarrow> bool" where
  "whole_stream w' \<longleftrightarrow>
     (\<exists>cs. well_formed cs \<and> (sink_phase cs = Done \<or> sink_phase cs = Failed) \<and> wr_body w' = call_bytes cs)"

definition json_answer :: "'i codex_world \<Rightarrow> writer \<Rightarrow> bool" where
  "json_answer xw w' \<longleftrightarrow>
     (\<exists>cs m b w0. well_formed cs \<and> sink_phase cs = Done \<and> agg_message (xw_quote xw) (xw_valid_json xw) (agg_run cs) = Inr m \<and>
        json_marshal (response_json m) = Some b \<and> untouched w0 \<and>
        w' = snd (write_body (xw_accepts xw) (b @ [CHR 0x0A]) (write_header 200 w0)))"

lemma start_failure_cases:
  assumes "render_start_failure xw e w = (r, w')" "untouched w"
  shows "r = None \<and> error_answer xw w' \<or> (\<exists>g. r = Some (Gone g) \<and> w' = w)"
  using assms by (auto simp: render_start_failure_def error_answer_def split: option.splits)

lemma upstream_failure_cases:
  assumes "render_upstream_failure xw e w = (r, w')" "untouched w"
  shows "r = None \<and> error_answer xw w' \<or> (\<exists>g. r = Some (Gone g) \<and> w' = w) \<or> (\<exists>x. r = Some (Failure x) \<and> w' = w)"
proof -
  have "untouched (w\<lparr>wr_header := h\<rparr>)" for h using assms(2) by (rule header_edit_untouched)
  with assms show ?thesis
    by (auto simp: render_upstream_failure_def error_answer_def split: option.splits call_error.splits)
qed

text \<open>A connection that accepts everything leaves no error behind.\<close>

lemma lazy_calls_open:
  assumes "\<And>a b. bw a b = None"
  shows "lk_err (lazy_calls me bw w cs) = None"
proof (induction cs rule: rev_induct)
  case (snoc c cs)
  let ?lk = "lazy_calls me bw w cs"
  have w: "fst (lazy_write bw p lw) = None" for p lw
    using assms by (simp add: lazy_write_def write_body_def Let_def)
  have "lk_err (snd (lazy_call me bw c ?lk)) = None"
  proof (cases "json_marshal (payload c)")
    case (Some d)
    obtain e lw where "lazy_write bw (concat (frame_chunks (event_name c) d)) (lk_lazy ?lk) = (e, lw)"
      by fastforce
    with w [of "concat (frame_chunks (event_name c) d)" "lk_lazy ?lk"] Some snoc show ?thesis
      by (simp add: lazy_call_def)
  qed (use snoc in \<open>simp add: lazy_call_def\<close>)
  then show ?case by (simp add: lazy_calls_def)
qed (simp add: lazy_calls_def)

lemma outcome_of_returned [simp]:
  "outcome_of (Returned None t) = (None, t)" "outcome_of (Returned (Some (Fail e)) t) = (Some e, t)"
  by (simp_all add: outcome_of_def)

lemma serve_stream_cases:
  assumes run: "serve_stream l xw rq creq body w = (r, w')" and u: "untouched w"
  shows "(case r of
      None \<Rightarrow> error_answer xw w' \<or>
        stream_answer w' \<and> ((\<forall>a b. xw_accepts xw a b = None) \<longrightarrow> whole_stream w')
    | Some e \<Rightarrow> if is_response_started e then answered_once w' else untouched w')"
proof -
  let ?sk = "lazy_sink_of (xw_raw_error xw) (xw_accepts xw) w"
  obtain err t where r: "run_translator l xw rq creq (xo_heartbeat l) ?sk body = Returned err t" "err \<noteq> Some Diverge"
    by (rule run_translator_returns)
  let ?lk = "lazy_calls (xw_raw_error xw) (xw_accepts xw) w (ts_out t)"
  have ok: "lazy_ok w (ts_out t) ?lk" by (rule lazy_calls_ok [OF u])
  show ?thesis
  proof (cases err)
    case None
    with r run have w': "r = None" "w' = lw_w (lk_lazy ?lk)" by (auto simp: serve_stream_def Let_def)
    from r None have g: "well_formed (ts_out t)" "sink_phase (ts_out t) = Done \<or> sink_phase (ts_out t) = Failed"
      using translator_grammar by blast+
    then have "ts_out t \<noteq> []" by (auto simp: sink_phase_Nil)
    with g(1) ok have s: "lw_started (lk_lazy ?lk)" by (simp add: lazy_ok_def started_first)
    with ok g have "stream_answer w'" unfolding stream_answer_def w' lazy_ok_def by auto
    moreover have "whole_stream w'" if "\<forall>a b. xw_accepts xw a b = None"
    proof -
      have "lk_err ?lk = None" using that by (intro lazy_calls_open) simp
      with ok s g show ?thesis unfolding whole_stream_def w' lazy_ok_def by auto
    qed
    ultimately show ?thesis by (simp add: w')
  next
    case (Some f)
    with r obtain e where e: "err = Some (Fail e)" by (cases f) auto
    show ?thesis
    proof (cases "lw_started (lk_lazy ?lk)")
      case True
      with r e run have "r = Some (Started e)" "w' = lw_w (lk_lazy ?lk)" by (auto simp: serve_stream_def Let_def)
      with True ok show ?thesis
        by (simp add: is_response_started_def answered_once_def committed_def lazy_ok_def)
    next
      case False
      with r e run ok have "render_start_failure xw e w = (r, w')"
        by (simp add: serve_stream_def Let_def lazy_ok_def)
      from start_failure_cases [OF this u] u show ?thesis by (auto simp: is_response_started_def)
    qed
  qed
qed

lemma aggregate_done:
  assumes "well_formed cs" "agg_message q valid (agg_run cs) = Inr m"
  shows "sink_phase cs = Done"
proof -
  have "agg_rel cs (agg_run cs)" by (rule agg_rel_run [OF assms(1)])
  then have "ag_stopped (agg_run cs) = (sink_phase cs = Done)" by (simp add: agg_rel_def Let_def)
  with assms(2) show ?thesis
    by (auto simp: agg_message_def finished_blocks_def Let_def split: sum.splits if_splits)
qed

lemma serve_aggregate_cases:
  assumes run: "serve_aggregate l xw rq creq body w = (r, w')" and u: "untouched w"
  shows "r = None \<and> (error_answer xw w' \<or> json_answer xw w') \<or> (\<exists>g. r = Some (Gone g) \<and> w' = w)"
proof -
  obtain err t where r: "run_translator l xw rq creq (- 1) (agg_sink (xw_quote xw)) body = Returned err t" "err \<noteq> Some Diverge"
    by (rule run_translator_returns)
  show ?thesis
  proof (cases err)
    case (Some f)
    with r obtain e where e: "err = Some (Fail e)" by (cases f) auto
    with r run have "render_start_failure xw e w = (r, w')" by (simp add: serve_aggregate_def)
    from start_failure_cases [OF this u] show ?thesis by blast
  next
    case None
    have g: "well_formed (ts_out t)" using translator_grammar r None by blast
    show ?thesis
    proof (cases "message_json (xw_raw_error xw) (xw_quote xw) (xw_valid_json xw) (agg_run (ts_out t))")
      case (Inl e)
      with r None run have "render_start_failure xw e w = (r, w')" by (simp add: serve_aggregate_def)
      from start_failure_cases [OF this u] show ?thesis by blast
    next
      case (Inr b)
      let ?w = "set_header ''X-Content-Type-Options'' ''nosniff'' (set_header ''Content-Type'' ''application/json'' w)"
      from Inr obtain m where m: "agg_message (xw_quote xw) (xw_valid_json xw) (agg_run (ts_out t)) = Inr m"
        "json_marshal (response_json m) = Some b"
        by (auto simp: message_json_def split: sum.splits option.splits)
      from r None run Inr have w': "r = None" "w' = snd (write_body (xw_accepts xw) (b @ [CHR 0x0A]) (write_header 200 ?w))"
        by (simp_all add: serve_aggregate_def)
      have "untouched ?w" by (intro set_header_untouched u)
      with g m w' aggregate_done [OF g m(1)] have "json_answer xw w'" unfolding json_answer_def by blast
      with w' show ?thesis by simp
    qed
  qed
qed

section \<open>The contract\<close>

lemma answer_once: "error_answer xw w' \<Longrightarrow> answered_once w'" "stream_answer w' \<Longrightarrow> answered_once w'"
  "json_answer xw w' \<Longrightarrow> answered_once w'"
proof -
  show "error_answer xw w' \<Longrightarrow> answered_once w'" by (auto simp: error_answer_def respond_answers)
  show "stream_answer w' \<Longrightarrow> answered_once w'" by (auto simp: stream_answer_def answered_once_def committed_def)
  have "final_status 200" by (simp add: final_status_def)
  then show "json_answer xw w' \<Longrightarrow> answered_once w'"
    by (auto simp: json_answer_def intro: body_keeps_answer header_commits)
qed

lemma codex_mark_untouched: "untouched w \<Longrightarrow> untouched (codex_mark_route dec w)"
  by (simp add: codex_mark_route_def Let_def set_header_untouched)

text \<open>How a request comes back, after the route has been marked.\<close>

definition codex_result :: "'i codex_world \<Rightarrow> routed \<Rightarrow> leg_error option \<times> writer \<Rightarrow> bool" where
  "codex_result xw rq r \<longleftrightarrow>
     (case fst r of
        None \<Rightarrow> error_answer xw (snd r) \<or>
          (if rq_streaming rq
           then stream_answer (snd r) \<and> ((\<forall>a b. xw_accepts xw a b = None) \<longrightarrow> whole_stream (snd r))
           else json_answer xw (snd r))
      | Some e \<Rightarrow> if is_response_started e then answered_once (snd r) else untouched (snd r))"

lemma codex_result_failure [simp]:
  "codex_result xw rq (Some (Failure e), w) = untouched w" "codex_result xw rq (Some (Gone e), w) = untouched w"
  by (simp_all add: codex_result_def is_response_started_def)

lemma render_upstream_result: "untouched w \<Longrightarrow> codex_result xw rq (render_upstream_failure xw e w)"
  using upstream_failure_cases [of xw e w] by (cases "render_upstream_failure xw e w") (auto simp: codex_result_def is_response_started_def)

lemma serve_result:
  "untouched w \<Longrightarrow> codex_result xw rq
     (if rq_streaming rq then serve_stream l xw rq creq body w else serve_aggregate l xw rq creq body w)"
  using serve_stream_cases [of l xw rq creq body w] serve_aggregate_cases [of l xw rq creq body w]
  by (cases "serve_stream l xw rq creq body w"; cases "serve_aggregate l xw rq creq body w")
    (auto simp: codex_result_def is_response_started_def split: option.splits)

lemma codex_messages_result:
  assumes "untouched w"
  shows "codex_result xw rq (fst (codex_messages fetch reject l xw rq st w))"
proof -
  note u = codex_mark_untouched [OF assms, of "rq_dec rq"]
  show ?thesis
    unfolding codex_messages_def Let_def
    by (auto simp: u render_upstream_result [OF u] serve_result [OF u, simplified] split: sum.splits prod.splits)
qed

definition codex_serve ::
  "('i \<Rightarrow> 's \<Rightarrow> (go_error + credential) \<times> 's) \<Rightarrow> (credential \<Rightarrow> 's \<Rightarrow> 's) \<Rightarrow>
   codex_options \<times> 'i codex_world \<times> routed \<times> 's \<times> client_state \<Rightarrow> writer \<Rightarrow> leg_error option \<times> writer" where
  "codex_serve fetch reject i w = (case i of (l, xw, rq, st) \<Rightarrow> fst (codex_messages fetch reject l xw rq st w))"

lemma codex_result_proper: "codex_result xw rq r \<Longrightarrow> proper r"
  by (auto simp: codex_result_def proper_def answer_once split: option.splits if_splits)

interpretation codex: leg_contract "codex_serve fetch reject" "\<lambda>i. True" for fetch reject
proof (rule leg_contractI)
  fix i :: "codex_options \<times> 'a codex_world \<times> routed \<times> 'b \<times> client_state" and w
  assume u: "untouched w"
  obtain l xw rq st where i: "i = (l, xw, rq, st)" by (cases i)
  from codex_messages_result [OF u] show "proper (codex_serve fetch reject i w)"
    unfolding i codex_serve_def prod.case by (rule codex_result_proper)
qed

text \<open>
  Property (C5): the Codex leg gives a whole answer or none. When it reports no error, the client has
  got one status line and then either one error envelope, or, if it asked for a stream, a
  stream that follows the grammar to its terminus (and all of it on a connection that
  accepts it), or else a message folded from the calls of a clean terminus: no truncated
  answer passes for a whole one, whatever the credentials, the back end, the timers and
  the client do.
\<close>

theorem codex_answers_whole:
  assumes "codex_messages fetch reject l xw rq st w = ((None, w'), st')" "untouched w"
  shows "answered_once w' \<and>
    (error_answer xw w' \<or>
     (if rq_streaming rq
      then stream_answer w' \<and> ((\<forall>a b. xw_accepts xw a b = None) \<longrightarrow> whole_stream w')
      else json_answer xw w'))"
  using codex_messages_result [OF assms(2), of xw rq fetch reject l st] assms(1)
  by (auto simp: codex_result_def answer_once split: if_splits)


end
