(* ===== verification/CodexDemo.thy ===== *)
theory CodexDemo
  imports CodexServe
begin

text \<open>
  One request through the Codex leg, from the body to the bytes on the wire: the credential,
  the translation, the upstream's stream of three events, and a text block for the client.
\<close>

definition demo_turn :: messages_request where
  "demo_turn =
     \<lparr>rq_model = ''codex'', rq_messages = [], rq_max_tokens = 1, rq_system = None, rq_stream = True,
      rq_tools = [], rq_tool_choice = None, rq_temperature = None, rq_top_p = None, rq_top_k = None,
      rq_stop_sequences = [], rq_thinking = None, rq_metadata = []\<rparr>"

definition demo_upstream :: "frame list" where
  "demo_upstream = map (\<lambda>s. \<lparr>fr_event = [], fr_data = s\<rparr>) [''a'', ''e'', ''g'']"

definition demo_codex_world :: "unit codex_world" where
  "demo_codex_world =
     \<lparr>xw_request = (\<lambda>s. Inr demo_turn), xw_quote = id, xw_fold = (=), xw_get = (), xw_catalog = Inr [],
      xw_walk = \<lparr>we_quote = id, we_decode = Map.empty, we_syntax_error = PlainError\<rparr>,
      xw_schema = \<lparr>se_unmarshal = Map.empty, se_marshal = (\<lambda>v. None), se_parse = (\<lambda>s. True),
        se_tables = \<lparr>ut_categories = Map.empty, ut_scripts = Map.empty, ut_properties = Map.empty\<rparr>\<rparr>,
      xw_sha256 = demo_sha, xw_client = new_client [] 0, xw_errors = demo_env,
      xw_encode_error = (\<lambda>r. PlainError []),
      xw_first = ((), \<lparr>ex_build = None, ex_now = 0, ex_reply = Reply 200 [] (concat (map frame_bytes demo_upstream)) 1\<rparr>),
      xw_second = ((), demo_exchange 401 []),
      xw_body_end = EOF, xw_schedule = [], xw_event = demo_unmarshal, xw_payload = (\<lambda>p. []),
      xw_valid_json = (\<lambda>s. True), xw_raw_error = (\<lambda>j. PlainError []), xw_envelope = eb_message,
      xw_upstream = (\<lambda>e. None), xw_estimate = (\<lambda>r. Some 7), xw_counted = True, xw_gone = None,
      xw_accepts = (\<lambda>a b. None)\<rparr>"

definition demo_codex_leg :: codex_options where
  "demo_codex_leg = \<lparr>xo_client = True, xo_creds = True, xo_catalog = False, xo_emit_reasoning = None,
     xo_truncate_mode = None, xo_summary = [], xo_heartbeat = 0, xo_upstream_idle = 0\<rparr>"

definition demo_codex_routed :: routed where
  "demo_codex_routed = \<lparr>rq_raw = ''raw'', rq_streaming = True,
     rq_dec = \<lparr>dc_backend = Codex, dc_upstream = ''gpt-6-sol'', dc_client = ''codex'', dc_effort = [],
       dc_source = SourceNone\<rparr>\<rparr>"

text \<open>The translation of a request without messages and tools can be sent.\<close>

lemma demo_turn_translates:
  "\<exists>creq md. translate_request (xw_walk demo_codex_world) (xw_schema demo_codex_world) (xw_sha256 demo_codex_world)
      (Some demo_turn) dec model opts = Inr (creq, md) \<and> rr_tools creq = []"
proof -
  have m: "translate_messages ev [] = Inr empty_walk" for ev
    by (simp add: translate_messages_def)
  have t: "resolve_tool_changes q [] [] = Inr \<lparr>tc_tools = [], tc_hoisted = [], tc_removed = []\<rparr>" for q
    by (simp add: resolve_tool_changes_def new_tool_set_def active_definitions_def hoisted_names_def removed_names_def)
  show ?thesis
    by (simp add: translate_request_def demo_turn_def m t tool_blocks_def assemble_def Let_def split: prod.split)
qed

lemma toolless_request_valid: "rr_tools r = [] \<Longrightarrow> raw_valid (request_json r)"
proof -
  have p: "raw_valid (part_json x)" "raw_valid (summary_json y)" for x y
    by (simp_all add: part_json_def summary_json_def omit_str_def)
  have i: "raw_valid (item_json x)" for x
    by (cases "ii_output x"; cases "ii_summary x")
      (simp_all add: item_json_def omit_str_def omit_arr_def omit_nil_def list_all_iff p)
  have c: "raw_valid (choice_json x)" "raw_valid (reasoning_json y)" for x y
    by (simp_all add: choice_json_def reasoning_json_def omit_str_def)
  assume "rr_tools r = []"
  then show ?thesis
    by (cases "rr_tool_choice r"; cases "rr_parallel r"; cases "rr_reasoning r")
      (simp_all add: request_json_def omit_str_def omit_arr_def omit_nil_def list_all_iff i c)
qed

lemma demo_sink_open:
  "raw_valid (payload c) \<Longrightarrow> lazy_sink_of (xw_raw_error demo_codex_world) (xw_accepts demo_codex_world) w cs c = None"
proof -
  assume v: "raw_valid (payload c)"
  have a: "xw_accepts demo_codex_world a b = None" for a b by (simp add: demo_codex_world_def)
  let ?lk = "lazy_calls (xw_raw_error demo_codex_world) (xw_accepts demo_codex_world) w cs"
  have "lk_err ?lk = None" by (rule lazy_calls_open) (rule a)
  moreover have "fst (lazy_write (xw_accepts demo_codex_world) p lw) = None" for p lw
    by (simp add: lazy_write_def write_body_def Let_def a)
  ultimately show ?thesis
    using v by (simp add: lazy_sink_of_def lazy_call_def json_marshal_def split: prod.split) (metis fst_conv)
qed

lemma demo_payloads:
  "raw_valid (payload (MessageStart i m n))" "raw_valid (payload (BlockStart k (empty_block Sink.BlockText)))"
  "raw_valid (payload (BlockDelta k (text_delta t)))" "raw_valid (payload (BlockStop k))"
  "raw_valid (payload (MessageDelta r u))" "raw_valid (payload MessageStop)"
  by (simp_all add: payload_def wire_message_def json_usage_def omit_num_def omit_str_def str_ptr_def
      json_start_block_def empty_block_def json_delta_body_def text_delta_def)

lemma demo_signals: "stream_signals demo_codex_world (concat (map frame_bytes demo_upstream)) =
    map FrameIn demo_upstream @ [ScanEnd None]"
proof -
  have "list_all (codec_frame default_max_line_bytes) demo_upstream"
    by (simp add: demo_upstream_def codec_frame_def plain_line_def default_max_line_bytes_def)
  from scan_frames_back [OF this] show ?thesis
    by (cases "scan_all (new_scanner (concat (map frame_bytes demo_upstream)) EOF)")
      (simp add: stream_signals_def demo_codex_world_def)
qed

lemma demo_text_run:
  assumes "\<And>cs c. raw_valid (payload c) \<Longrightarrow> sk cs c = None"
  shows "\<exists>t. run \<lparr>ev_sink = sk, ev_marshal = (\<lambda>p. [])\<rparr> demo_unmarshal
      \<lparr>op_upstream_model = ''gpt-6-sol'', op_input_tokens = 0, op_input_tokens_func = Some n, op_emit_reasoning = None,
       op_truncate_mode = None, op_heartbeat = 0, op_upstream_idle = 0, op_max_pending_bytes = 0,
       op_max_pending_items = 0\<rparr> (map FrameIn demo_upstream @ [ScanEnd None]) = Returned None t"
proof -
  note sink = demo_payloads [THEN assms]
  show ?thesis
    by (simp add: stream_eval demo_upstream_def demo_unmarshal_def demo_event_def
        sink [unfolded empty_block_def text_delta_def])
qed

lemma demo_codex_run:
  "\<exists>t. run_translator demo_codex_leg demo_codex_world demo_codex_routed creq 0
      (lazy_sink_of (xw_raw_error demo_codex_world) (xw_accepts demo_codex_world) w)
      (concat (map frame_bytes demo_upstream)) = Returned None t"
proof -
  have o: "translator_options demo_codex_leg demo_codex_world demo_codex_routed creq 0 =
      \<lparr>op_upstream_model = ''gpt-6-sol'', op_input_tokens = 0, op_input_tokens_func = Some 7, op_emit_reasoning = None,
       op_truncate_mode = None, op_heartbeat = 0, op_upstream_idle = 0, op_max_pending_bytes = 0,
       op_max_pending_items = 0\<rparr>"
    by (simp add: translator_options_def demo_codex_leg_def codex_upstream_model_def demo_codex_routed_def
        seed_value_def demo_codex_world_def)
  have e: "xw_event demo_codex_world = demo_unmarshal" "xw_payload demo_codex_world = (\<lambda>p. [])"
    by (simp_all add: demo_codex_world_def)
  show ?thesis
    unfolding run_translator_def demo_signals o e by (rule demo_text_run) (rule demo_sink_open)
qed

lemma demo_codex_messages:
  "\<exists>w' st'. codex_messages (\<lambda>i s. (Inr demo_cred, s)) (\<lambda>c s. s) demo_codex_leg demo_codex_world demo_codex_routed
     ((), demo_state) (new_writer []) = ((None, w'), st')"
proof -
  let ?w = "codex_mark_route (rq_dec demo_codex_routed) (new_writer [])"
  let ?body = "concat (map frame_bytes demo_upstream)"
  obtain creq md where t: "translate_request (xw_walk demo_codex_world) (xw_schema demo_codex_world)
      (xw_sha256 demo_codex_world) (Some demo_turn) (rq_dec demo_codex_routed)
      (catalog_model_of demo_codex_leg demo_codex_world (dc_upstream (rq_dec demo_codex_routed)))
      \<lparr>op_beta_effort = [], op_config_effort = [], op_summary = xo_summary demo_codex_leg, op_mutating = None\<rparr> =
      Inr (creq, md)" "rr_tools creq = []"
    using demo_turn_translates by blast
  obtain t0 where "run_translator demo_codex_leg demo_codex_world demo_codex_routed creq 0
      (lazy_sink_of (xw_raw_error demo_codex_world) (xw_accepts demo_codex_world) ?w) ?body = Returned None t0"
    using demo_codex_run by blast
  then have s: "\<exists>w'. serve_stream demo_codex_leg demo_codex_world demo_codex_routed creq ?body ?w = (None, w')"
    by (simp add: serve_stream_def Let_def demo_codex_leg_def)
  have "raw_valid (request_json (creq\<lparr>rr_stream := True\<rparr>))"
    using t(2) by (intro toolless_request_valid) simp
  then have enc: "encode_request me creq = Inr (marshal (request_json (creq\<lparr>rr_stream := True\<rparr>)))" for me
    by (simp add: encode_request_def json_marshal_def)
  have cr: "cr_access demo_cred \<noteq> []" "cr_account demo_cred \<noteq> []" by (simp_all add: demo_cred_def)
  have ok: "is_stream_content_type (xw_errors demo_codex_world) (header_get [] k)" for k
    using demo_stream by (simp add: demo_codex_world_def)
  have "\<exists>r c'. stream_with_refresh (xw_errors demo_codex_world) (xw_encode_error demo_codex_world)
      (xw_client demo_codex_world) (\<lambda>i s. (Inr demo_cred, s)) (\<lambda>c s. s) (Some creq) (xw_first demo_codex_world)
      (xw_second demo_codex_world) ((), demo_state) = (Inr r, (), c') \<and> rs_body r = ?body"
    using cr enc ok
    by (simp add: stream_with_refresh_def stream_response_def demo_codex_world_def Let_def)
  then obtain r c' where r: "stream_with_refresh (xw_errors demo_codex_world) (xw_encode_error demo_codex_world)
      (xw_client demo_codex_world) (\<lambda>i s. (Inr demo_cred, s)) (\<lambda>c s. s) (Some creq) (xw_first demo_codex_world)
      (xw_second demo_codex_world) ((), demo_state) = (Inr r, (), c')" "rs_body r = ?body" by blast
  have q: "xw_request demo_codex_world b = Inr demo_turn" "xo_creds demo_codex_leg" "rq_streaming demo_codex_routed" for b
    by (simp_all add: demo_codex_world_def demo_codex_leg_def demo_codex_routed_def)
  show ?thesis
    unfolding codex_messages_def Let_def using s t r q by (simp del: One_nat_def)
qed

text \<open>The client of this request has a whole stream.\<close>

theorem codex_answers_whole_witness:
  "\<exists>w' st'. codex_messages (\<lambda>i s. (Inr demo_cred, s)) (\<lambda>c s. s) demo_codex_leg demo_codex_world demo_codex_routed
     ((), demo_state) (new_writer []) = ((None, w'), st') \<and> answered_once w' \<and>
     (error_answer demo_codex_world w' \<or> whole_stream w')"
proof -
  obtain w' st' where m: "codex_messages (\<lambda>i s. (Inr demo_cred, s)) (\<lambda>c s. s) demo_codex_leg demo_codex_world
      demo_codex_routed ((), demo_state) (new_writer []) = ((None, w'), st')"
    using demo_codex_messages by blast
  have u: "untouched (new_writer [])" by (simp add: untouched_def new_writer_def committed_def)
  have a: "\<forall>a b. xw_accepts demo_codex_world a b = None" "rq_streaming demo_codex_routed"
    by (simp_all add: demo_codex_world_def demo_codex_routed_def)
  have "answered_once w' \<and> (error_answer demo_codex_world w' \<or> whole_stream w')"
    using codex_answers_whole [OF m u] a by auto
  with m show ?thesis by blast
qed

end
