(* ===== verification/Dispatch.thy ===== *)
theory Dispatch
  imports Passthrough DeepServe CodexServe
begin

text \<open>
  The dispatcher of \<^verbatim>\<open>cmd/utraque/main.go\<close>: it reads a request, peeks the fields that decide
  the route, and hands the request to one of three legs. A leg is a function, so that the
  dispatcher's own theorem speaks of any leg that keeps its contract; the last section plugs
  in the three models. \<^verbatim>\<open>ReadBody\<close> of \<^verbatim>\<open>internal/server/middleware.go\<close> is here. Logging and the
  per-request summary are left out.
\<close>

section \<open>The body\<close>

text \<open>\<^verbatim>\<open>ReadBody\<close>.\<close>

definition read_body :: "inbound \<Rightarrow> go_error + string" where
  "read_body r =
     (case ib_body r of
        None \<Rightarrow> Inr []
      | Some (bytes, fin) \<Rightarrow>
          if fin = EOF then Inr bytes
          else Inl (case ib_max_bytes r fin of
                      Some m \<Rightarrow> request_too_large (''request body exceeds the '' @ itoa m @ '' byte limit'')
                    | None \<Rightarrow> wrap_error fin TypeInvalidRequest ''reading request body''))"

text \<open>The fields that are peeked; \<^verbatim>\<open>output_config\<close> stays raw.\<close>

record peeked =
  pk_model :: string
  pk_stream :: bool
  pk_output_config :: "jany option"

definition peeked_member :: "peeked \<Rightarrow> string \<Rightarrow> jany \<Rightarrow> peeked option" where
  "peeked_member p k v =
     (if names_field ''model'' k then map_option (\<lambda>s. p\<lparr>pk_model := s\<rparr>) (into_string (pk_model p) v)
      else if names_field ''stream'' k then map_option (\<lambda>b. p\<lparr>pk_stream := b\<rparr>) (into_bool (pk_stream p) v)
      else if names_field ''output_config'' k then Some (p\<lparr>pk_output_config := Some v\<rparr>)
      else Some p)"

definition peek_body :: "json_env \<Rightarrow> string \<Rightarrow> go_error + peeked" where
  "peek_body je raw =
     (case je_parse je raw of
        None \<Rightarrow> Inl (je_error je raw)
      | Some v \<Rightarrow>
          (case struct_value peeked_member \<lparr>pk_model = [], pk_stream = False, pk_output_config = None\<rparr> v of
             None \<Rightarrow> Inl (je_error je raw)
           | Some p \<Rightarrow> Inr p))"

definition effort_member :: "string \<Rightarrow> string \<Rightarrow> jany \<Rightarrow> string option" where
  "effort_member s k v = (if names_field ''effort'' k then into_string s v else Some s)"

definition body_effort :: "peeked \<Rightarrow> string" where
  "body_effort p =
     (case pk_output_config p of
        None \<Rightarrow> []
      | Some v \<Rightarrow> (case struct_value effort_member [] v of None \<Rightarrow> [] | Some s \<Rightarrow> s))"

section \<open>The answer to a leg\<close>

text \<open>
  What the dispatcher uses of its surroundings: the decoder of bodies, the writer of error
  envelopes, the lower case and the quoting of strings outside ASCII, the alias registry,
  and what the client's connection accepts.
\<close>

record dispatch_env =
  de_json :: json_env
  de_envelope :: "error_body \<Rightarrow> string"
  de_lower :: "string \<Rightarrow> string"
  de_quote :: "string \<Rightarrow> string"
  de_registry :: registry
  de_accepts :: "string \<Rightarrow> string \<Rightarrow> go_error option"

definition write_api_error :: "dispatch_env \<Rightarrow> go_error \<Rightarrow> writer \<Rightarrow> writer" where
  "write_api_error de e w = respond (de_accepts de) (write_error (de_envelope de) (Some e)) w"

text \<open>\<^verbatim>\<open>fail\<close>.\<close>

definition dispatch_fail :: "dispatch_env \<Rightarrow> leg_error \<Rightarrow> writer \<Rightarrow> handler_end \<times> writer" where
  "dispatch_fail de e w =
     (if is_response_started e then (Aborted, w)
      else if is_client_gone e then (handler_end.Returned, w)
      else (handler_end.Returned, write_api_error de (leg_cause e) w))"

text \<open>The call of a leg, with its error.\<close>

definition call_leg ::
  "dispatch_env \<Rightarrow> (routed \<Rightarrow> writer \<Rightarrow> leg_error option \<times> writer) \<Rightarrow> routed \<Rightarrow> writer \<Rightarrow> handler_end \<times> writer" where
  "call_leg de leg rq w =
     (case leg rq w of
        (None, w) \<Rightarrow> (handler_end.Returned, w)
      | (Some e, w) \<Rightarrow> dispatch_fail de e w)"

section \<open>dispatch\<close>

definition leg_name :: "leg_id \<Rightarrow> string" where
  "leg_name i =
     (case i of Anthropic \<Rightarrow> ''anthropic'' | Codex \<Rightarrow> ''codex'' | DeepSeek \<Rightarrow> ''deepseek''
      | UnknownLeg \<Rightarrow> ''unknown'' | OtherLeg s \<Rightarrow> s)"

record dispatcher =
  dp_anthropic :: "routed \<Rightarrow> writer \<Rightarrow> leg_error option \<times> writer"
  dp_codex :: "(routed \<Rightarrow> writer \<Rightarrow> leg_error option \<times> writer) option"
  dp_deepseek :: "(routed \<Rightarrow> writer \<Rightarrow> leg_error option \<times> writer) option"

text \<open>What the request asks for: the request to route, or the error to answer with.\<close>

definition route_request :: "dispatch_env \<Rightarrow> inbound \<Rightarrow> go_error + routed" where
  "route_request de r =
     (case read_body r of
        Inl e \<Rightarrow> Inl e
      | Inr raw \<Rightarrow>
          (case peek_body (de_json de) raw of
             Inl e \<Rightarrow> Inl (wrap_error e TypeInvalidRequest
               ''request body must be a JSON object carrying a \"model\" field'')
           | Inr p \<Rightarrow>
               (case resolve_with (de_lower de) (de_quote de) (de_registry de) None (pk_model p)
                       (join_with '','' (header_values (ib_header r) ''anthropic-beta'')) of
                  Inl e \<Rightarrow> Inl e
                | Inr dec \<Rightarrow>
                    Inr \<lparr>rq_raw = raw, rq_streaming = pk_stream p,
                         rq_dec = with_body_effort (de_lower de) (body_effort p) dec\<rparr>)))"

definition send_to_leg :: "dispatch_env \<Rightarrow> dispatcher \<Rightarrow> routed \<Rightarrow> writer \<Rightarrow> handler_end \<times> writer" where
  "send_to_leg de d rq w =
     (let backend = dc_backend (rq_dec rq) in
      if backend = Anthropic then call_leg de (dp_anthropic d) rq w
      else if backend = Codex then
        (case dp_codex d of
           None \<Rightarrow> (handler_end.Returned, write_api_error de (with_status 503 TypeAPI ''codex leg is not configured'') w)
         | Some leg \<Rightarrow> call_leg de leg rq w)
      else if backend = DeepSeek then
        (case dp_deepseek d of
           None \<Rightarrow> (handler_end.Returned, write_api_error de (with_status 503 TypeAPI
             ''deepseek leg is not configured; set DEEPSEEK_API_KEY or UTRAQUE_DEEPSEEK_API_KEY_FILE'') w)
         | Some leg \<Rightarrow> call_leg de leg rq w)
      else (handler_end.Returned, write_api_error de (new_error TypeAPI
              (''router returned an unknown backend '' @ go_quote (de_quote de) (leg_name backend))) w))"

definition dispatch_request :: "dispatch_env \<Rightarrow> dispatcher \<Rightarrow> inbound \<Rightarrow> writer \<Rightarrow> handler_end \<times> writer" where
  "dispatch_request de d r w =
     (case route_request de r of
        Inl e \<Rightarrow> (handler_end.Returned, write_api_error de e w)
      | Inr rq \<Rightarrow> send_to_leg de d rq w)"

section \<open>One answer\<close>

text \<open>
  How a handler may leave a response of which nothing was on the wire: with one status
  line, or, when there is nobody to answer, with none. The connection is broken only under
  an answer that has begun.
\<close>

definition ends_well :: "bool \<Rightarrow> handler_end \<times> writer \<Rightarrow> bool" where
  "ends_well gone r \<longleftrightarrow>
     (case r of (end_, w) \<Rightarrow>
        wr_extra w = 0 \<and> (committed w \<or> (gone \<and> end_ = handler_end.Returned \<and> wr_body w = [])) \<and>
        (end_ = handler_end.Returned \<or> end_ = Aborted))"

lemma error_ends_well: "untouched w \<Longrightarrow> ends_well gone (handler_end.Returned, write_api_error de e w)"
  using respond_answers by (simp add: ends_well_def write_api_error_def answered_once_def)

text \<open>A leg that, besides, says that the client is gone only when it is.\<close>

locale reporting_leg = leg_contract +
  fixes gone :: "'a \<Rightarrow> bool"
  assumes gone_reported: "serve i w = (Some e, w') \<Longrightarrow> is_client_gone e \<Longrightarrow> gone i"
begin

lemma call_ends_well:
  assumes "valid i" "untouched w" "\<And>w. leg rq w = serve i w"
  shows "ends_well (gone i) (call_leg de leg rq w)"
proof -
  obtain r w' where run: "serve i w = (r, w')" by fastforce
  show ?thesis
  proof (cases r)
    case None
    with done_answered [OF assms(1,2)] run show ?thesis
      by (simp add: call_leg_def assms(3) ends_well_def answered_once_def)
  next
    case (Some e)
    note s = started_answered [OF assms(1,2) run [unfolded Some]]
      and f = failed_untouched [OF assms(1,2) run [unfolded Some]]
      and g = gone_reported [OF run [unfolded Some]]
    from f have "\<not> is_response_started e \<Longrightarrow> ends_well (gone i) (handler_end.Returned, write_api_error de (leg_cause e) w')"
      by (simp add: error_ends_well)
    with s f g run Some show ?thesis
      by (auto simp: call_leg_def assms(3) dispatch_fail_def ends_well_def answered_once_def untouched_def)
  qed
qed

end

section \<open>The three legs\<close>

definition pass_gone :: "pass_leg \<times> pass_world \<times> inbound \<times> routed option \<Rightarrow> bool" where
  "pass_gone i \<longleftrightarrow> pw_gone (fst (snd i)) \<noteq> None"

lemma pass_serve_gone: "pass_serve i w = (Some e, w') \<Longrightarrow> is_client_gone e \<Longrightarrow> pass_gone i"
  by (auto simp: pass_serve_def pass_forward_def pass_answer_def pass_gone_def is_client_gone_def Let_def
      split: prod.splits sum.splits option.splits if_splits)

interpretation pass: reporting_leg pass_serve pass_valid pass_gone
  by unfold_locales (rule pass_serve_gone)

definition ds_gone :: "ds_leg \<times> ds_world \<times> header \<times> routed \<Rightarrow> bool" where
  "ds_gone i \<longleftrightarrow> dw_gone (fst (snd i)) \<noteq> None"

lemma stream_frames_gone: "stream_frames dw model fs s = (Some e, t) \<Longrightarrow> \<not> is_client_gone e"
  by (induction dw model fs s rule: stream_frames.induct)
     (auto simp: is_client_gone_def split: sum.splits prod.splits option.splits)

lemma ds_answer_gone: "ds_answer dw rq reply w = (Some e, w') \<Longrightarrow> is_client_gone e \<Longrightarrow> dw_gone dw \<noteq> None"
  by (auto simp: ds_answer_def ds_copy_body_def ds_stream_response_def ds_json_response_def stream_end_def
      is_client_gone_def Let_def dest!: stream_frames_gone
      split: prod.splits sum.splits option.splits if_splits)

lemma ds_serve_gone: "ds_serve i w = (Some e, w') \<Longrightarrow> is_client_gone e \<Longrightarrow> ds_gone i"
  using ds_answer_gone
  by (fastforce simp: ds_serve_def ds_messages_def ds_forward_def ds_gone_def is_client_gone_def
      split: prod.splits sum.splits option.splits if_splits)

interpretation ds: reporting_leg ds_serve ds_valid ds_gone
  by unfold_locales (rule ds_serve_gone)

definition codex_gone :: "codex_options \<times> 'i codex_world \<times> routed \<times> 's \<times> client_state \<Rightarrow> bool" where
  "codex_gone i \<longleftrightarrow> xw_gone (fst (snd i)) \<noteq> None"

lemma render_gone:
  "render_start_failure xw err w = (Some e, w') \<Longrightarrow> is_client_gone e \<Longrightarrow> xw_gone xw \<noteq> None"
  "render_upstream_failure xw cerr w = (Some e, w') \<Longrightarrow> is_client_gone e \<Longrightarrow> xw_gone xw \<noteq> None"
  by (auto simp: render_start_failure_def render_upstream_failure_def is_client_gone_def
      split: option.splits call_error.splits)

lemma serve_gone:
  "serve_stream l xw rq creq body w = (Some e, w') \<Longrightarrow> is_client_gone e \<Longrightarrow> xw_gone xw \<noteq> None"
  "serve_aggregate l xw rq creq body w = (Some e, w') \<Longrightarrow> is_client_gone e \<Longrightarrow> xw_gone xw \<noteq> None"
  by (auto simp: serve_stream_def serve_aggregate_def is_client_gone_def Let_def
      dest!: render_gone [unfolded is_client_gone_def] split: prod.splits option.splits sum.splits if_splits)

lemma codex_serve_gone: "codex_serve fetch reject i w = (Some e, w') \<Longrightarrow> is_client_gone e \<Longrightarrow> codex_gone i"
  using render_gone serve_gone
  by (fastforce simp: codex_serve_def codex_messages_def codex_gone_def is_client_gone_def Let_def
      split: prod.splits option.splits sum.splits if_splits)

interpretation codex: reporting_leg "codex_serve fetch reject" "\<lambda>i. True" codex_gone for fetch reject
  by unfold_locales (rule codex_serve_gone)

section \<open>The proxy\<close>

text \<open>
  The dispatcher over the three models, for one request \<open>r\<close>: the Anthropic leg is always
  there, the others when they are configured.
\<close>

type_synonym ('i, 's) codex_setup = "codex_options \<times> 'i codex_world \<times> 's \<times> client_state"

definition model_legs ::
  "('i \<Rightarrow> 's \<Rightarrow> (go_error + credential) \<times> 's) \<Rightarrow> (credential \<Rightarrow> 's \<Rightarrow> 's) \<Rightarrow> pass_leg \<times> pass_world \<Rightarrow>
   ('i, 's) codex_setup option \<Rightarrow> (ds_leg \<times> ds_world) option \<Rightarrow> inbound \<Rightarrow> dispatcher" where
  "model_legs fetch reject a cx ds r =
     \<lparr>dp_anthropic = (\<lambda>rq. pass_serve (fst a, snd a, r, Some rq)),
      dp_codex = map_option (\<lambda>(l, xw, st) rq. codex_serve fetch reject (l, xw, rq, st)) cx,
      dp_deepseek = map_option (\<lambda>(l, dw) rq. ds_serve (l, dw, ib_header r, rq)) ds\<rparr>"

definition upstreams_final :: "pass_leg \<times> pass_world \<Rightarrow> (ds_leg \<times> ds_world) option \<Rightarrow> bool" where
  "upstreams_final a ds \<longleftrightarrow>
     (case pw_reply (snd a) of Inl _ \<Rightarrow> True | Inr reply \<Rightarrow> final_status (pr_status reply)) \<and>
     (case ds of
        None \<Rightarrow> True
      | Some (l, dw) \<Rightarrow> (case dw_reply dw of Inl _ \<Rightarrow> True | Inr reply \<Rightarrow> final_status (dr_status reply)))"

text \<open>Whether the context of the request has ended in one of the worlds.\<close>

definition client_left ::
  "pass_leg \<times> pass_world \<Rightarrow> ('i, 's) codex_setup option \<Rightarrow> (ds_leg \<times> ds_world) option \<Rightarrow> bool" where
  "client_left a cx ds \<longleftrightarrow>
     pw_gone (snd a) \<noteq> None \<or> (\<exists>l xw st. cx = Some (l, xw, st) \<and> xw_gone xw \<noteq> None) \<or>
     (\<exists>l dw. ds = Some (l, dw) \<and> dw_gone dw \<noteq> None)"

lemma ends_well_mono: "ends_well g r \<Longrightarrow> (g \<Longrightarrow> g') \<Longrightarrow> ends_well g' r"
  by (auto simp: ends_well_def)

lemma send_to_leg_ends_well:
  assumes "upstreams_final a ds" "untouched w"
  shows "ends_well (client_left a cx ds) (send_to_leg de (model_legs fetch reject a cx ds r) rq w)"
proof -
  have p: "ends_well (client_left a cx ds)
      (call_leg de (\<lambda>rq. pass_serve (fst a, snd a, r, Some rq)) rq w)"
    by (rule ends_well_mono [OF pass.call_ends_well [where i = "(fst a, snd a, r, Some rq)"]])
       (use assms in \<open>auto simp: pass_valid_def upstreams_final_def pass_gone_def client_left_def\<close>)
  have c: "ends_well (client_left a cx ds)
      (call_leg de (\<lambda>rq. codex_serve fetch reject (l, xw, rq, st)) rq w)" if "cx = Some (l, xw, st)" for l xw st
    by (rule ends_well_mono [OF codex.call_ends_well [where i = "(l, xw, rq, st)"]])
       (use assms that in \<open>auto simp: codex_gone_def client_left_def\<close>)
  have d: "ends_well (client_left a cx ds)
      (call_leg de (\<lambda>rq. ds_serve (l, dw, ib_header r, rq)) rq w)" if "ds = Some (l, dw)" for l dw
    by (rule ends_well_mono [OF ds.call_ends_well [where i = "(l, dw, ib_header r, rq)"]])
       (use assms that in \<open>auto simp: ds_valid_def upstreams_final_def ds_gone_def client_left_def\<close>)
  show ?thesis
    using p c d by (auto simp: send_to_leg_def model_legs_def Let_def error_ends_well [OF assms(2)] split: option.split)
qed

lemma dispatch_ends_well:
  assumes "upstreams_final a ds" "untouched w"
  shows "ends_well (client_left a cx ds) (dispatch_request de (model_legs fetch reject a cx ds r) r w)"
  by (simp add: dispatch_request_def send_to_leg_ends_well [OF assms] error_ends_well [OF assms(2)] split: sum.split)

text \<open>
  Property (C4): every request gets one answer. Whatever the caller sends and whatever the three
  legs meet, the dispatcher sends one status line and never a second; it leaves a request
  without an answer only when the client has gone; and it breaks the connection only under
  an answer that has begun, so that no error is appended to a body and no body that was cut
  short ends as if it were whole.
\<close>

theorem proxy_answers_once:
  assumes "upstreams_final a ds" "untouched w"
    and "dispatch_request de (model_legs fetch reject a cx ds r) r w = (fin, w')"
  shows "wr_extra w' = 0 \<and> (committed w' \<or> client_left a cx ds \<and> fin = handler_end.Returned \<and> wr_body w' = []) \<and>
    (fin = handler_end.Returned \<or> fin = Aborted \<and> committed w')"
  using dispatch_ends_well [OF assms(1,2), of cx de fetch reject r] assms(3) by (auto simp: ends_well_def)

text \<open>A request for a Claude model, on a proxy with one leg.\<close>

definition demo_claude_json :: json_env where
  "demo_claude_json = \<lparr>je_parse = (\<lambda>s. Some (AObj [(''model'', AStr ''opus''), (''stream'', json_bool True)])),
     je_print = (\<lambda>v. []), je_regex = (\<lambda>s. True), je_quote = id, je_error = (\<lambda>s. EOF)\<rparr>"

definition demo_dispatch :: dispatch_env where
  "demo_dispatch = \<lparr>de_json = demo_claude_json, de_envelope = (\<lambda>e. []), de_lower = id, de_quote = id,
     de_registry = new_registry, de_accepts = (\<lambda>a b. None)\<rparr>"

definition demo_proxy :: dispatcher where
  "demo_proxy = model_legs (\<lambda>(i :: unit) (s :: unit). (Inl EOF, s)) (\<lambda>c s. s) (demo_pass_leg, demo_pass_world)
     None None demo_inbound"

theorem proxy_answers_once_witness:
  "committed (snd (dispatch_request demo_dispatch demo_proxy demo_inbound (new_writer [])))"
proof -
  obtain fin w' where run: "dispatch_request demo_dispatch demo_proxy demo_inbound (new_writer []) = (fin, w')"
    by fastforce
  have "upstreams_final (demo_pass_leg, demo_pass_world) None"
    by (simp add: upstreams_final_def demo_pass_world_def demo_pass_reply_def final_status_def)
  moreover have "untouched (new_writer [])" by (simp add: untouched_def new_writer_def committed_def)
  moreover have "\<not> client_left (demo_pass_leg, demo_pass_world) (None :: (unit, unit) codex_setup option) None"
    by (simp add: client_left_def demo_pass_world_def)
  ultimately show ?thesis
    using proxy_answers_once [OF _ _ run [unfolded demo_proxy_def]] run by simp
qed

text \<open>
  A request for a Claude model goes to Anthropic and nowhere else, as it came. For a
  name of a Claude family that discovery has not registered, whatever the other legs are
  and whatever effort the body names, the dispatcher does what the Anthropic leg does with
  the caller's bytes.
\<close>

theorem claude_requests_relayed:
  assumes "read_body r = Inr bytes" "peek_body (de_json de) bytes = Inr p"
    and "is_anthropic_name (to_lower (de_lower de) (trim_space (pk_model p)))"
    and "\<not> prefix anthropic_compat_prefix (to_lower (de_lower de) (trim_space (pk_model p)))"
    and "the_picker_route (de_registry de) (to_lower (de_lower de) (trim_space (pk_model p))) = None"
  shows "dispatch_request de d r w =
    call_leg de (dp_anthropic d) \<lparr>rq_raw = bytes, rq_streaming = pk_stream p,
      rq_dec = \<lparr>dc_backend = Anthropic, dc_upstream = [], dc_client = trim_space (pk_model p),
                 dc_effort = [], dc_source = SourceNone\<rparr>\<rparr> w"
proof -
  have "to_lower (de_lower de) (trim_space (pk_model p)) \<noteq> []"
    using assms(3) by (auto simp: is_anthropic_name_def anthropic_prefixes_def)
  with assms have "route_request de r = Inr \<lparr>rq_raw = bytes, rq_streaming = pk_stream p,
      rq_dec = \<lparr>dc_backend = Anthropic, dc_upstream = [], dc_client = trim_space (pk_model p),
                 dc_effort = [], dc_source = SourceNone\<rparr>\<rparr>"
    by (simp add: route_request_def resolve_with_def resolve_tiers_def resolve_picker_def cut_prefix_def
        with_body_effort_def Let_def)
  then show ?thesis by (simp add: dispatch_request_def send_to_leg_def)
qed

theorem claude_requests_relayed_witness:
  "dispatch_request demo_dispatch demo_proxy (demo_inbound\<lparr>ib_body := Some (''hi'', EOF)\<rparr>) (new_writer []) =
   call_leg demo_dispatch (dp_anthropic demo_proxy)
     \<lparr>rq_raw = ''hi'', rq_streaming = True,
      rq_dec = \<lparr>dc_backend = Anthropic, dc_upstream = [], dc_client = ''opus'', dc_effort = [],
                 dc_source = SourceNone\<rparr>\<rparr> (new_writer [])"
proof -
  let ?p = "\<lparr>pk_model = ''opus'', pk_stream = True, pk_output_config = None\<rparr>"
  have n: "trim_space ''opus'' = ''opus''" "to_lower id ''opus'' = ''opus''"
    by (simp_all add: trim_space_graphic graphic_def to_lower_lower_ascii lower_ascii_def)
  have "fold_name ''model'' = ''model''" "fold_name ''stream'' = ''stream''"
    by (simp_all add: fold_name_lower lower_ascii_def)
  then have "peek_body (de_json demo_dispatch) ''hi'' = Inr ?p"
    by (simp add: peek_body_def demo_dispatch_def demo_claude_json_def struct_value_def into_struct_def
        peeked_member_def names_field_def into_string_def into_bool_def)
  moreover have "read_body (demo_inbound\<lparr>ib_body := Some (''hi'', EOF)\<rparr>) = Inr ''hi''"
    by (simp add: read_body_def)
  ultimately show ?thesis
    using claude_requests_relayed [of "demo_inbound\<lparr>ib_body := Some (''hi'', EOF)\<rparr>" "''hi''" demo_dispatch ?p]
    by (simp add: n demo_dispatch_def is_anthropic_name_def anthropic_prefixes_def anthropic_compat_prefix_def
        the_picker_route_def new_registry_def)
qed

end
