(* ===== verification/Scrub.thy ===== *)
theory Scrub
  imports Prelude
begin

text \<open>
  \<^verbatim>\<open>Scrub\<close> of \<^verbatim>\<open>internal/obs/scrub.go\<close>: the replacement of whatever in a text has the shape of a
  credential. The expression is fixed, so that its matching is written out: each of its five
  alternatives reads in one way only, because what follows a repetition is never of the
  repeated class. The flag \<^verbatim>\<open>(?i)\<close> holds from where it stands to the end of the group, and
  the first alternative sets it, so that all five ignore case; in the folding of Go the
  letters s and k then match U+017F and U+212A too.
\<close>

definition Redacted :: string where "Redacted = ''[REDACTED]''"

section \<open>Pieces of the expression\<close>

text \<open>A literal, given in lower case, without regard to case: what is left after it.\<close>

definition long_s :: string where "long_s = byte_str [197, 191]"
definition kelvin :: string where "kelvin = byte_str [226, 132, 170]"

definition match_letter :: "char \<Rightarrow> string \<Rightarrow> string option" where
  "match_letter w s =
     (if s \<noteq> [] \<and> lower_char (hd s) = w then Some (tl s)
      else if w = CHR ''s'' \<and> prefix long_s s then Some (drop 2 s)
      else if w = CHR ''k'' \<and> prefix kelvin s then Some (drop 3 s)
      else None)"

fun match_word :: "string \<Rightarrow> string \<Rightarrow> string option" where
  "match_word [] s = Some s"
| "match_word (w # ws) s = (case match_letter w s of None \<Rightarrow> None | Some t \<Rightarrow> match_word ws t)"

text \<open>The first of some words that matches, none of which begins another.\<close>

fun match_words :: "string list \<Rightarrow> string \<Rightarrow> string option" where
  "match_words [] s = None"
| "match_words (w # ws) s = (case match_word w s of None \<Rightarrow> match_words ws s | Some t \<Rightarrow> Some t)"

definition alnum :: "char \<Rightarrow> bool" where
  "alnum c \<longleftrightarrow>
     (let n = (of_char c :: nat) in 48 \<le> n \<and> n \<le> 57 \<or> 65 \<le> n \<and> n \<le> 90 \<or> 97 \<le> n \<and> n \<le> 122)"

text \<open>\<^verbatim>\<open>[A-Za-z0-9...]\<close> with the characters of \<open>extra\<close>, as often as it goes: how often, and what is left.\<close>

definition class_step :: "string \<Rightarrow> string \<Rightarrow> string option" where
  "class_step extra s =
     (if s \<noteq> [] \<and> (alnum (hd s) \<or> hd s \<in> set extra) then Some (tl s)
      else if prefix long_s s then Some (drop 2 s)
      else if prefix kelvin s then Some (drop 3 s)
      else None)"

lemma class_step_shorter: "class_step extra s = Some t \<Longrightarrow> length t < length s"
  by (auto simp: class_step_def long_s_def kelvin_def byte_str_def prefix_def split: if_splits)

function take_class :: "string \<Rightarrow> string \<Rightarrow> nat \<times> string" where
  "take_class extra s =
     (case class_step extra s of
        None \<Rightarrow> (0, s)
      | Some t \<Rightarrow> (case take_class extra t of (n, r) \<Rightarrow> (Suc n, r)))"
  by pat_completeness auto
termination
  by (relation "measure (\<lambda>(extra, s). length s)") (simp_all add: class_step_shorter)

declare take_class.simps [simp del]

definition re_space :: "char \<Rightarrow> bool" where
  "re_space c \<longleftrightarrow> of_char c \<in> {9, 10, 12, 13, 32 :: nat}"

definition word_char :: "char \<Rightarrow> bool" where
  "word_char c \<longleftrightarrow> alnum c \<or> c = CHR ''_''"

text \<open>\<^verbatim>\<open>\b\<close> between what comes before and what follows.\<close>

definition word_boundary :: "char option \<Rightarrow> string \<Rightarrow> bool" where
  "word_boundary prev s \<longleftrightarrow>
     (case prev of None \<Rightarrow> False | Some c \<Rightarrow> word_char c) \<noteq> (s \<noteq> [] \<and> word_char (hd s))"

section \<open>The alternatives\<close>

definition bearer_class :: string where "bearer_class = ''._~+/=-''"

definition match_bearer :: "string \<Rightarrow> string option" where
  "match_bearer s =
     (case match_word ''bearer'' s of
        None \<Rightarrow> None
      | Some t \<Rightarrow>
          if t = [] \<or> \<not> re_space (hd t) then None
          else (case take_class bearer_class (dropWhile re_space t) of (n, r) \<Rightarrow> if 8 \<le> n then Some r else None))"

definition match_jwt :: "string \<Rightarrow> string option" where
  "match_jwt s =
     (case match_word ''eyj'' s of
        None \<Rightarrow> None
      | Some t \<Rightarrow>
          (case take_class ''_-'' t of
             (n, r) \<Rightarrow>
               if n < 8 \<or> r = [] \<or> hd r \<noteq> CHR ''.'' then None
               else (case take_class ''_-'' (tl r) of
                       (m, r') \<Rightarrow>
                         if m < 8 then None
                         else if r' \<noteq> [] \<and> hd r' = CHR ''.'' then Some (snd (take_class ''_-'' (tl r')))
                         else Some r')))"

definition match_key :: "string \<Rightarrow> string option" where
  "match_key s =
     (case match_word ''sk-'' s of
        None \<Rightarrow> None
      | Some t \<Rightarrow> (case take_class ''._-'' t of (n, r) \<Rightarrow> if 12 \<le> n then Some r else None))"

definition param_names :: "string list" where
  "param_names = [''access_token'', ''refresh_token'', ''id_token'', ''api_key'', ''client_secret'']"

definition field_names :: "string list" where
  "field_names = param_names @ [''authorization'', ''password'', ''secret'']"

text \<open>A byte that must come next.\<close>

definition match_byte :: "char \<Rightarrow> string \<Rightarrow> string option" where
  "match_byte c s = (if s \<noteq> [] \<and> hd s = c then Some (tl s) else None)"

definition match_field :: "string \<Rightarrow> string option" where
  "match_field s =
     Option.bind (match_byte CHR 0x22 s) (\<lambda>s.
     Option.bind (match_words field_names s) (\<lambda>s.
     Option.bind (match_byte CHR 0x22 s) (\<lambda>s.
     Option.bind (match_byte CHR '':'' (dropWhile re_space s)) (\<lambda>s.
     Option.bind (match_byte CHR 0x22 (dropWhile re_space s)) (\<lambda>s.
     match_byte CHR 0x22 (dropWhile (\<lambda>c. c \<noteq> CHR 0x22) s))))))"

definition param_value_char :: "char \<Rightarrow> bool" where
  "param_value_char c \<longleftrightarrow> c \<noteq> CHR ''&'' \<and> \<not> re_space c \<and> c \<noteq> CHR 0x22 \<and> c \<noteq> CHR 0x27"

definition match_param :: "string \<Rightarrow> string option" where
  "match_param s =
     Option.bind (match_words param_names s) (\<lambda>s.
     Option.bind (match_byte CHR ''='' s) (\<lambda>s.
     if s \<noteq> [] \<and> param_value_char (hd s) then Some (dropWhile param_value_char s) else None))"

text \<open>The whole expression at a place: the first alternative that matches.\<close>

definition match_here :: "char option \<Rightarrow> string \<Rightarrow> string option" where
  "match_here prev s =
     (let b = word_boundary prev s; or = (\<lambda>x y. case x of Some r \<Rightarrow> Some r | None \<Rightarrow> y) in
      or (if b then match_bearer s else None)
        (or (if b then match_jwt s else None)
          (or (if b then match_key s else None)
            (or (match_field s)
              (if b then match_param s else None)))))"

section \<open>A match consumes\<close>

lemma match_letter_shorter: "match_letter w s = Some t \<Longrightarrow> length t < length s"
  by (auto simp: match_letter_def long_s_def kelvin_def byte_str_def prefix_def split: if_splits)

lemma match_word_shorter: "match_word w s = Some t \<Longrightarrow> length t + length w \<le> length s"
  by (induction w s rule: match_word.induct) (fastforce dest: match_letter_shorter split: option.splits)+

lemma match_words_shorter: "match_words ws s = Some t \<Longrightarrow> [] \<notin> set ws \<Longrightarrow> length t < length s"
proof (induction ws)
  case (Cons w ws)
  show ?case
  proof (cases "match_word w s")
    case None
    with Cons show ?thesis by simp
  next
    case (Some t')
    with Cons.prems match_word_shorter [OF Some] show ?thesis by (cases w) simp_all
  qed
qed simp

lemma take_class_shorter: "length (snd (take_class extra s)) \<le> length s"
proof (induction extra s rule: take_class.induct)
  case (1 extra s)
  show ?case
  proof (cases "class_step extra s")
    case None
    then show ?thesis by (simp add: take_class.simps)
  next
    case (Some t)
    with 1 class_step_shorter [OF Some] show ?thesis
      by (subst take_class.simps) (simp add: split_def)
  qed
qed

lemma take_class_length: "take_class extra s = (n, r) \<Longrightarrow> length r \<le> length s"
  using take_class_shorter [of extra s] by simp

lemma match_byte_shorter: "match_byte c s = Some t \<Longrightarrow> length t < length s"
  by (auto simp: match_byte_def split: if_splits)

lemma dropWhile_shorter: "length (dropWhile P s) \<le> length s"
  by (rule length_dropWhile_le)

lemma match_bearer_shorter: "match_bearer s = Some r \<Longrightarrow> length r < length s"
proof -
  assume r: "match_bearer s = Some r"
  then obtain t where t: "match_word ''bearer'' s = Some t" by (auto simp: match_bearer_def split: option.splits)
  obtain n r1 where r1: "take_class bearer_class (dropWhile re_space t) = (n, r1)" by fastforce
  have "length r1 \<le> length t" using take_class_length [OF r1] dropWhile_shorter [of re_space t] by simp
  moreover have "r = r1" using r t r1 by (simp add: match_bearer_def split: if_splits)
  ultimately show ?thesis using match_word_shorter [OF t] by simp
qed

lemma match_jwt_shorter: "match_jwt s = Some r \<Longrightarrow> length r < length s"
proof -
  assume r: "match_jwt s = Some r"
  then obtain t where t: "match_word ''eyj'' s = Some t" by (auto simp: match_jwt_def split: option.splits)
  obtain n r1 where r1: "take_class ''_-'' t = (n, r1)" by fastforce
  obtain m r2 where r2: "take_class ''_-'' (tl r1) = (m, r2)" by fastforce
  have "length t < length s" using match_word_shorter [OF t] by simp
  moreover have "length r1 \<le> length t" "length r2 \<le> length (tl r1)"
    by (rule take_class_length [OF r1], rule take_class_length [OF r2])
  moreover have "length r \<le> length r2"
    using r t r1 r2 take_class_shorter [of "''_-''" "tl r2"] by (auto simp: match_jwt_def split: if_splits)
  ultimately show ?thesis by simp
qed

lemma match_key_shorter: "match_key s = Some r \<Longrightarrow> length r < length s"
proof -
  assume r: "match_key s = Some r"
  then obtain t where t: "match_word ''sk-'' s = Some t" by (auto simp: match_key_def split: option.splits)
  obtain n r1 where r1: "take_class ''._-'' t = (n, r1)" by fastforce
  have "r = r1" using r t r1 by (simp add: match_key_def split: if_splits)
  with take_class_length [OF r1] match_word_shorter [OF t] show ?thesis by simp
qed

lemma match_field_shorter: "match_field s = Some r \<Longrightarrow> length r < length s"
proof -
  assume "match_field s = Some r"
  then obtain t where t: "match_byte CHR 0x22 s = Some t"
    "Option.bind (match_words field_names t) (\<lambda>s.
     Option.bind (match_byte CHR 0x22 s) (\<lambda>s.
     Option.bind (match_byte CHR '':'' (dropWhile re_space s)) (\<lambda>s.
     Option.bind (match_byte CHR 0x22 (dropWhile re_space s)) (\<lambda>s.
     match_byte CHR 0x22 (dropWhile (\<lambda>c. c \<noteq> CHR 0x22) s))))) = Some r"
    by (auto simp: match_field_def bind_eq_Some_conv)
  have byte: "match_byte c (dropWhile P x) = Some y \<Longrightarrow> length y \<le> length x" for c P x y
    using match_byte_shorter [of c "dropWhile P x" y] dropWhile_shorter [of P x] by simp
  have "[] \<notin> set field_names" by (simp add: field_names_def param_names_def)
  with t(2) have "length r \<le> length t"
    by (auto simp: bind_eq_Some_conv dest!: match_words_shorter match_byte_shorter byte)
  with match_byte_shorter [OF t(1)] show ?thesis by simp
qed

lemma match_param_shorter: "match_param s = Some r \<Longrightarrow> length r < length s"
proof -
  assume "match_param s = Some r"
  then obtain t t' where t: "match_words param_names s = Some t" "match_byte CHR ''='' t = Some t'"
    "r = dropWhile param_value_char t'"
    by (auto simp: match_param_def bind_eq_Some_conv split: if_splits)
  have "[] \<notin> set param_names" by (simp add: param_names_def)
  from match_words_shorter [OF t(1) this] match_byte_shorter [OF t(2)] dropWhile_shorter [of param_value_char t'] t(3)
  show ?thesis by simp
qed

lemma match_here_shorter: "match_here prev s = Some r \<Longrightarrow> length r < length s"
  by (auto simp: match_here_def Let_def match_bearer_shorter match_jwt_shorter match_key_shorter match_field_shorter
      match_param_shorter split: option.splits if_splits)

section \<open>Scrub\<close>

text \<open>What precedes the first \<open>c\<close>, with it; nothing if \<open>c\<close> comes first or never.\<close>

definition up_to :: "char \<Rightarrow> string \<Rightarrow> string option" where
  "up_to c m =
     (let p = takeWhile (\<lambda>d. d \<noteq> c) m in if p = [] \<or> length p = length m then None else Some (p @ [c]))"

text \<open>
  \<^verbatim>\<open>redactMatch\<close>. A match of which the lower case begins with \<^verbatim>\<open>bearer\<close> begins with six
  letters of ASCII.
\<close>

definition redact_match :: "string \<Rightarrow> string" where
  "redact_match m =
     (case (if prefix [CHR 0x22] m then up_to CHR '':'' m else None) of
        Some p \<Rightarrow> p @ '' '' @ [CHR 0x22] @ Redacted @ [CHR 0x22]
      | None \<Rightarrow>
          (case (if map lower_char (take 6 m) \<noteq> ''bearer'' then up_to CHR ''='' m else None) of
             Some p \<Rightarrow> p @ Redacted
           | None \<Rightarrow> Redacted))"

function scrub_from :: "char option \<Rightarrow> string \<Rightarrow> string" where
  "scrub_from prev [] = []"
| "scrub_from prev (c # s) =
     (case match_here prev (c # s) of
        None \<Rightarrow> c # scrub_from (Some c) s
      | Some r \<Rightarrow>
          let m = take (length (c # s) - length r) (c # s)
          in redact_match m @ scrub_from (Some (last m)) r)"
  by pat_completeness auto
termination
  by (relation "measure (\<lambda>(prev, s). length s)") (auto dest: match_here_shorter)

definition min_scrub_len :: nat where "min_scrub_len = 8"

definition scrub :: "string \<Rightarrow> string" where
  "scrub s = (if length s < min_scrub_len then s else scrub_from None s)"

end
