(* ===== verification/Server.thy ===== *)
theory Server
  imports Dispatch Idle Scrub
begin

text \<open>
  \<^verbatim>\<open>internal/server\<close>: the routes and the chain of handlers around them. A handler is a
  function of the request and of the response; what a middleware does beside calling the
  next handler is in its definition, logging, tracing and the response recorder's times
  apart. The panic of a handler is one of its ends. The library's \<^verbatim>\<open>ServeMux\<close> is modelled for
  the patterns that are registered here.
\<close>

type_synonym handler = "inbound \<Rightarrow> writer \<Rightarrow> handler_end \<times> writer"

text \<open>The writer of error envelopes and what the client's connection accepts.\<close>

record server_env =
  se_envelope :: "error_body \<Rightarrow> string"
  se_accepts :: "string \<Rightarrow> string \<Rightarrow> go_error option"
  se_quote :: "string \<Rightarrow> string"

definition answer_error :: "server_env \<Rightarrow> go_error \<Rightarrow> writer \<Rightarrow> handler_end \<times> writer" where
  "answer_error se e w = (handler_end.Returned, respond (se_accepts se) (write_error (se_envelope se) (Some e)) w)"

section \<open>Paths\<close>

text \<open>\<^verbatim>\<open>url.PathUnescape\<close>, which gives \<^const>\<open>None\<close> for a malformed escape.\<close>

definition hex_val :: "char \<Rightarrow> nat option" where
  "hex_val c =
     (let n = (of_char c :: nat) in
      if 48 \<le> n \<and> n \<le> 57 then Some (n - 48)
      else if 97 \<le> n \<and> n \<le> 102 then Some (n - 87)
      else if 65 \<le> n \<and> n \<le> 70 then Some (n - 55)
      else None)"

fun path_unescape :: "string \<Rightarrow> string option" where
  "path_unescape [] = Some []"
| "path_unescape (c # s) =
     (if c \<noteq> CHR ''%'' then map_option ((#) c) (path_unescape s)
      else case s of
        a # b # t \<Rightarrow>
          (case (hex_val a, hex_val b) of
             (Some x, Some y) \<Rightarrow> map_option ((#) (char_of (16 * x + y))) (path_unescape t)
           | _ \<Rightarrow> None)
      | _ \<Rightarrow> None)"

text \<open>\<^verbatim>\<open>URL.Path\<close> is the decoded form of the escaped path that the request carries.\<close>

definition url_path :: "inbound \<Rightarrow> string" where
  "url_path r = (case path_unescape (ib_path r) of None \<Rightarrow> [] | Some p \<Rightarrow> p)"

text \<open>\<^verbatim>\<open>path.Clean\<close> of a rooted path: the segments that are left, then the path.\<close>

fun clean_segments :: "string list \<Rightarrow> string list \<Rightarrow> string list" where
  "clean_segments acc [] = rev acc"
| "clean_segments acc (s # ss) =
     (if s = [] \<or> s = ''.'' then clean_segments acc ss
      else if s = ''..'' then clean_segments (tl acc) ss
      else clean_segments (s # acc) ss)"

definition rooted_clean :: "string \<Rightarrow> string" where
  "rooted_clean p = ''/'' @ join_with ''/'' (clean_segments [] (split_on CHR ''/'' p))"

definition clean_path :: "string \<Rightarrow> string" where
  "clean_path p =
     (if p = [] then ''/''
      else
        let p = (if hd p \<noteq> CHR ''/'' then ''/'' @ p else p); np = rooted_clean p
        in if last p = CHR ''/'' \<and> np \<noteq> ''/'' then np @ ''/'' else np)"

section \<open>Routes\<close>

definition HealthPath :: string where "HealthPath = ''/healthz''"
definition ProviderReportV1Path :: string where "ProviderReportV1Path = ''/utraque/providers/v1''"
definition ProviderReportV2Path :: string where "ProviderReportV2Path = ''/utraque/providers/v2''"
definition ProviderReportPath :: string where "ProviderReportPath = ''/v1/utraque/providers''"

definition is_health :: "inbound \<Rightarrow> bool" where
  "is_health r \<longleftrightarrow> url_path r = HealthPath"

definition is_provider_report :: "inbound \<Rightarrow> bool" where
  "is_provider_report r \<longleftrightarrow> url_path r \<in> {ProviderReportV1Path, ProviderReportV2Path, ProviderReportPath}"

record routes =
  rt_messages :: "handler option"
  rt_count_tokens :: "handler option"
  rt_models :: "handler option"
  rt_report :: "handler option"
  rt_report_v2 :: "handler option"
  rt_passthrough :: "handler option"

text \<open>
  A pattern without wildcards matches a path whose segments are those of the pattern, each
  one decoded; a segment that does not decode stands for itself. A method of a pattern
  \<^verbatim>\<open>GET\<close> matches \<^verbatim>\<open>HEAD\<close> too.
\<close>

definition decoded_segment :: "string \<Rightarrow> string" where
  "decoded_segment s = (case path_unescape s of None \<Rightarrow> s | Some t \<Rightarrow> t)"

definition path_matches :: "string \<Rightarrow> inbound \<Rightarrow> bool" where
  "path_matches pat r \<longleftrightarrow> map decoded_segment (split_on CHR ''/'' (ib_path r)) = split_on CHR ''/'' pat"

definition method_matches :: "string \<Rightarrow> inbound \<Rightarrow> bool" where
  "method_matches m r \<longleftrightarrow> ib_method r = m \<or> m = ''GET'' \<and> ib_method r = ''HEAD''"

definition handle_not_found :: "server_env \<Rightarrow> handler" where
  "handle_not_found se r =
     answer_error se (new_error TypeNotFound (''no route for '' @ ib_method r @ '' '' @ ib_path r))"

text \<open>The registrations of \<^verbatim>\<open>New\<close>, in their order: who answers a path, when it is registered.\<close>

definition mux_routes :: "handler \<Rightarrow> routes \<Rightarrow> inbound \<Rightarrow> handler option list" where
  "mux_routes health rt r =
     [if path_matches HealthPath r then Some health else None,
      if method_matches ''POST'' r \<and> path_matches ''/v1/messages'' r then rt_messages rt else None,
      if method_matches ''POST'' r \<and> path_matches ''/v1/messages/count_tokens'' r then rt_count_tokens rt else None,
      if method_matches ''GET'' r \<and> path_matches ''/v1/models'' r then rt_models rt else None,
      if path_matches ProviderReportV1Path r then rt_report rt else None,
      if path_matches ProviderReportPath r then rt_report rt else None,
      if path_matches ProviderReportV2Path r then rt_report_v2 rt else None]"

definition mux :: "server_env \<Rightarrow> handler \<Rightarrow> routes \<Rightarrow> handler" where
  "mux se health rt r =
     (case first_some (mux_routes health rt r) of
        Some h \<Rightarrow> h r
      | None \<Rightarrow>
          (case rt_passthrough rt of
             Some h \<Rightarrow> h r
           | None \<Rightarrow> handle_not_found se r))"

text \<open>
  \<^verbatim>\<open>relayNonCanonical\<close>. Without a catch-all the library answers a path that is not clean
  with a redirect of its own, the parameter \<open>redirect\<close>.
\<close>

definition serve_root :: "server_env \<Rightarrow> handler \<Rightarrow> handler \<Rightarrow> routes \<Rightarrow> handler" where
  "serve_root se redirect health rt r =
     (if ib_method r \<noteq> ''CONNECT'' \<and> ib_path r \<noteq> clean_path (ib_path r)
      then (case rt_passthrough rt of Some h \<Rightarrow> h r | None \<Rightarrow> redirect r)
      else mux se health rt r)"

section \<open>Health\<close>

definition StatusOK :: string where "StatusOK = ''ok''"

text \<open>
  \<^verbatim>\<open>handleHealth\<close>: the text of the uptime, the extra fields and the printer of a value, which
  may fail, are parameters. An extra field never replaces one of the three. The encoder
  sorts the keys of a map.
\<close>

record health_env =
  he_version :: string
  he_uptime :: string
  he_extra :: "(string \<times> jany) list"
  he_print :: "jany \<Rightarrow> go_error + string"

definition health_fields :: "health_env \<Rightarrow> (string \<times> jany) list" where
  "health_fields he =
     [(''status'', AStr StatusOK), (''version'', AStr (he_version he)), (''uptime_s'', AOther (he_uptime he))]"

definition health_body :: "health_env \<Rightarrow> (string \<times> jany) list" where
  "health_body he =
     health_fields he @ filter (\<lambda>(k, v). map_of (health_fields he) k = None) (he_extra he)"

definition handle_health :: "server_env \<Rightarrow> health_env \<Rightarrow> handler" where
  "handle_health se he r w =
     (if ib_method r \<noteq> ''GET'' \<and> ib_method r \<noteq> ''HEAD'' then
        answer_error se (with_status 405 TypeInvalidRequest
            (''method '' @ ib_method r @ '' is not allowed on '' @ HealthPath))
          (set_header ''Allow'' ''GET, HEAD'' w)
      else case he_print he (AObj (sort_key fst (health_body he))) of
        Inl e \<Rightarrow> answer_error se (new_error TypeAPI (''encoding the health response: '' @ error_text e)) w
      | Inr buf \<Rightarrow>
          let body = buf @ [CHR 0x0A];
              w = write_header 200
                    (set_header ''Content-Length'' (itoa (int (length body)))
                      (set_header ''X-Content-Type-Options'' ''nosniff''
                        (set_header ''Cache-Control'' ''no-store''
                          (set_header ''Content-Type'' ''application/json'' w))))
          in if ib_method r = ''HEAD'' then (handler_end.Returned, w)
             else (handler_end.Returned, snd (write_body (se_accepts se) body w)))"

section \<open>Middleware\<close>

definition max_request_id_len :: nat where "max_request_id_len = 128"

definition sanitize_request_id :: "string \<Rightarrow> string" where
  "sanitize_request_id i =
     (if i = [] \<or> max_request_id_len < length i then []
      else if \<not> list_all (\<lambda>c. 0x21 \<le> (of_char c :: nat) \<and> (of_char c :: nat) \<le> 0x7e) i then []
      else if scrub i \<noteq> i then []
      else i)"

text \<open>\<open>newid\<close> is the random identifier.\<close>

definition with_request_id :: "string \<Rightarrow> handler \<Rightarrow> handler" where
  "with_request_id newid inner r w =
     (let i = sanitize_request_id (header_get (ib_header r) ''X-Request-Id'');
          i = (if i = [] then newid else i)
      in inner r (set_header RequestID i w))"

text \<open>
  A panic other than the library's own signal. Whether the response has begun is what the
  recorder of \<^verbatim>\<open>withObserve\<close> has seen.
\<close>

definition with_recover :: "server_env \<Rightarrow> handler \<Rightarrow> handler" where
  "with_recover se inner r w =
     (case inner r w of
        (Panicked msg, w) \<Rightarrow>
          if committed w then (handler_end.Returned, w)
          else answer_error se (new_error TypeAPI ''internal error'') w
      | (fin, w) \<Rightarrow> (fin, w))"

text \<open>
  The idle timer of the process, if there is one, as the request finds it. The hold is taken
  before the flag is read.
\<close>

definition with_activity :: "server_env \<Rightarrow> (inbound \<Rightarrow> bool) \<Rightarrow> idle_world option \<Rightarrow> handler \<Rightarrow> handler" where
  "with_activity se exempt act inner r w =
     (case act of
        None \<Rightarrow> inner r w
      | Some iw \<Rightarrow>
          if exempt r then inner r w
          else if tm_fired (iw_timer (hold iw)) then
            answer_error se (with_status 503 TypeOverloaded
                ''utraque is shutting down after an idle period; retry and it will be restarted'')
              (set_header ''Connection'' ''close'' w)
          else inner r w)"

text \<open>\<^verbatim>\<open>http.MaxBytesReader\<close>: the reader fails once it is past the limit.\<close>

definition max_bytes_error :: go_error where "max_bytes_error = PlainError ''http: request body too large''"

definition limited :: "int \<Rightarrow> inbound \<Rightarrow> inbound" where
  "limited m r =
     (case ib_body r of
        None \<Rightarrow> r
      | Some (bytes, fin) \<Rightarrow>
          if m < int (length bytes)
          then r\<lparr>ib_body := Some (take (nat m) bytes, max_bytes_error),
                 ib_max_bytes := (ib_max_bytes r)(max_bytes_error := Some m)\<rparr>
          else r)"

definition with_body_limit :: "server_env \<Rightarrow> int \<Rightarrow> handler \<Rightarrow> handler" where
  "with_body_limit se m inner r w =
     (if m \<le> 0 then inner r w
      else if m < ib_length r then
        answer_error se (request_too_large
          (''request body of '' @ itoa (ib_length r) @ '' bytes exceeds the '' @ itoa m @ '' byte limit'')) w
      else inner (limited m r) w)"

definition with_auth :: "server_env \<Rightarrow> (inbound \<Rightarrow> bool) \<Rightarrow> string \<Rightarrow> handler \<Rightarrow> handler" where
  "with_auth se exempt want inner r w =
     (if want = [] then inner r w
      else if exempt r then inner r w
      else if header_get (ib_header r) LocalToken \<noteq> want then
        answer_error se (new_error TypeAuthentication (''missing or invalid '' @ LocalToken @ '' header'')) w
      else inner r w)"

definition with_provider_report_no_store :: "handler \<Rightarrow> handler" where
  "with_provider_report_no_store inner r w =
     (if is_provider_report r then inner r (set_header ''Cache-Control'' ''no-store'' w) else inner r w)"

section \<open>The server\<close>

text \<open>\<^verbatim>\<open>Options\<close>: an exemption that is not given is \<^verbatim>\<open>IsHealth\<close>.\<close>

record server_options =
  so_local_token :: string
  so_max_body :: int
  so_activity :: "idle_world option"
  so_activity_exempt :: "(inbound \<Rightarrow> bool) option"
  so_auth_exempt :: "(inbound \<Rightarrow> bool) option"
  so_fresh_id :: string
  so_health :: health_env
  so_redirect :: handler

definition exempt_or_health :: "(inbound \<Rightarrow> bool) option \<Rightarrow> inbound \<Rightarrow> bool" where
  "exempt_or_health f = (case f of None \<Rightarrow> is_health | Some f \<Rightarrow> f)"

definition chain :: "server_env \<Rightarrow> server_options \<Rightarrow> handler \<Rightarrow> handler" where
  "chain se so h =
     with_provider_report_no_store
       (with_request_id (so_fresh_id so)
         (with_recover se
           (with_activity se (exempt_or_health (so_activity_exempt so)) (so_activity so)
             (with_body_limit se (so_max_body so)
               (with_auth se (exempt_or_health (so_auth_exempt so)) (so_local_token so) h)))))"

definition serve_http :: "server_env \<Rightarrow> server_options \<Rightarrow> routes \<Rightarrow> handler" where
  "serve_http se so rt =
     chain se so (serve_root se (so_redirect so) (handle_health se (so_health so)) rt)"

end
