(* ===== verification/ServerProps.thy ===== *)
theory ServerProps
  imports Server
begin

text \<open>
  What the chain of handlers guarantees: the local token guards everything but the health
  endpoint, the limit on bodies holds for any way of sending them, a request that was let in
  keeps the process up, and a response gets one status line whatever the handlers do.
\<close>

section \<open>The path of the health endpoint\<close>

lemma path_unescape_slash: "path_unescape p = Some t \<Longrightarrow> CHR ''/'' \<in> set p \<Longrightarrow> CHR ''/'' \<in> set t"
proof (induction p arbitrary: t rule: path_unescape.induct)
  case (2 c s)
  show ?case
  proof (cases "c = CHR ''%''")
    case False
    with 2 show ?thesis by auto
  next
    case True
    with 2(3) obtain a b u x y t' where s: "s = a # b # u" "hex_val a = Some x" "hex_val b = Some y"
      "path_unescape u = Some t'" "t = char_of (16 * x + y) # t'"
      by (auto split: list.splits option.splits)
    have "\<not> hex_val (CHR ''/'') = Some z" for z by (simp add: hex_val_def)
    with 2(4) True s have "CHR ''/'' \<in> set u" by auto
    from "2.IH"(2) [OF _ s(1) refl refl s(2,3,4) this] True s show ?thesis by auto
  qed
qed simp

lemma health_path:
  assumes "hd (ib_path r) = CHR ''/''" "is_health r"
  shows "path_matches HealthPath r \<and> clean_path (ib_path r) = ib_path r"
proof -
  from assms(2) have u: "path_unescape (ib_path r) = Some HealthPath"
    by (auto simp: is_health_def url_path_def HealthPath_def split: option.splits)
  then have "ib_path r \<noteq> []" by (auto simp: HealthPath_def)
  with assms(1) obtain q where q: "ib_path r = CHR ''/'' # q" by (cases "ib_path r") auto
  with u have uq: "path_unescape q = Some ''healthz''" by (auto simp: HealthPath_def)
  then have n: "CHR ''/'' \<notin> set q" using path_unescape_slash by fastforce
  have "q \<noteq> []" "q \<noteq> ''.''" "q \<noteq> ''..''" using uq by auto
  moreover have "split_on CHR ''/'' (ib_path r) = [[], q]" by (simp add: q split_on_whole [OF n])
  moreover have "last (ib_path r) \<noteq> CHR ''/''"
    using n \<open>q \<noteq> []\<close> by (auto simp: q) (metis last_in_set)
  ultimately show ?thesis
    using uq by (simp add: path_matches_def decoded_segment_def HealthPath_def clean_path_def rooted_clean_def
        q Let_def path_unescape.simps)
qed

lemma health_served:
  assumes "hd (ib_path r) = CHR ''/''" "is_health r"
  shows "serve_root se redirect health rt r w = health r w"
  using health_path [OF assms] by (simp add: serve_root_def mux_def mux_routes_def)

section \<open>The local token\<close>

lemma auth_blind:
  assumes "hd (ib_path r) = CHR ''/''" "want \<noteq> []" "header_get (ib_header r) LocalToken \<noteq> want"
  shows "with_auth se is_health want (serve_root se redirect health rt) r w =
    with_auth se is_health want (serve_root se redirect' health rt') r w"
  using assms health_served [OF assms(1)] by (simp add: with_auth_def)

lemma limited_frame [simp]:
  "ib_path (limited m r) = ib_path r" "ib_header (limited m r) = ib_header r"
  "ib_method (limited m r) = ib_method r" "url_path (limited m r) = url_path r"
  by (auto simp: limited_def url_path_def split: option.splits)

lemma recover_cong: "f r w = g r w \<Longrightarrow> with_recover se f r w = with_recover se g r w"
  by (simp add: with_recover_def)

section \<open>Answers of the chain itself\<close>

text \<open>An error of the server is one status line.\<close>

lemma respond_status:
  assumes "untouched w" "final_status (hr_status x)"
  shows "\<exists>h. wr_sent (respond bw x w) = Some (hr_status x, h)"
  using respond_once [of w x] assms by (auto simp: untouched_def)

lemma write_error_status: "hr_status (write_error enc (Some (ApiError ty msg st c))) = http_status (Some (ApiError ty msg st c))"
  by (simp add: write_error_def render_error_def from_error_def)

lemma answer_status:
  assumes "untouched w" "final_status (http_status (Some (ApiError ty msg st c)))"
  shows "\<exists>h. wr_sent (snd (answer_error se (ApiError ty msg st c) w)) = Some (http_status (Some (ApiError ty msg st c)), h)"
  using respond_status [OF assms(1), of "write_error (se_envelope se) (Some (ApiError ty msg st c))"] assms(2)
  by (simp add: answer_error_def write_error_status del: http_status.simps)

lemma answer_statuses:
  assumes "untouched w"
  shows "\<exists>h. wr_sent (snd (answer_error se (new_error TypeAuthentication msg) w)) = Some (401, h)"
    "\<exists>h. wr_sent (snd (answer_error se (request_too_large msg) w)) = Some (413, h)"
    "\<exists>h. wr_sent (snd (answer_error se (with_status 503 ty msg) w)) = Some (503, h)"
  using answer_status [OF assms, of TypeAuthentication msg 0 None se]
    answer_status [OF assms, of TypeRequestTooLarge msg 0 None se] answer_status [OF assms, of ty msg 503 None se]
  by (simp_all add: new_error_def request_too_large_def with_status_def status_for_def error_type_defs final_status_def)

text \<open>
  Property (C22): the local token guards every back end. On a server with a token, a request that does
  not present it gets an answer in which no route has a part: it is the same whatever the
  handlers of the routes, the catch-all and the library's redirect would do. Unless it asks
  for the health endpoint, the one exemption, however its path is escaped, the answer is a
  401, or the refusal of a body that is too large or of a server that is stopping.
\<close>

theorem token_guards_routes:
  assumes "so_local_token so \<noteq> []" "so_auth_exempt so = None"
    and "header_get (ib_header r) LocalToken \<noteq> so_local_token so" "hd (ib_path r) = CHR ''/''"
    and "untouched w"
  shows "serve_http se so rt r w = serve_http se (so\<lparr>so_redirect := redirect'\<rparr>) rt' r w \<and>
    (is_health r \<or> (\<exists>st h. st \<in> {401, 413, 503} \<and> wr_sent (snd (serve_http se so rt r w)) = Some (st, h)))"
proof
  have blind: "with_auth se is_health (so_local_token so) (serve_root se red (handle_health se (so_health so)) rt1) r' w' =
      with_auth se is_health (so_local_token so) (serve_root se red' (handle_health se (so_health so)) rt2) r' w'"
    if "ib_header r' = ib_header r" "ib_path r' = ib_path r" for r' w' red red' rt1 rt2
    by (rule auth_blind) (use assms that in simp_all)
  show "serve_http se so rt r w = serve_http se (so\<lparr>so_redirect := redirect'\<rparr>) rt' r w"
    unfolding serve_http_def chain_def with_provider_report_no_store_def with_request_id_def Let_def
    by (auto simp: exempt_or_health_def assms(2) with_activity_def with_body_limit_def
        intro!: recover_cong blind split: option.splits)
  show "is_health r \<or> (\<exists>st h. st \<in> {401, 413, 503} \<and> wr_sent (snd (serve_http se so rt r w)) = Some (st, h))"
  proof (cases "is_health r")
    case False
    define root where "root = serve_root se (so_redirect so) (handle_health se (so_health so)) rt"
    define good where "good x \<longleftrightarrow> fst x = handler_end.Returned \<and>
      (\<exists>st h. st \<in> {401, 413, 503} \<and> wr_sent (snd x) = Some (st, h))" for x :: "handler_end \<times> writer"
    have ret: "fst (answer_error se e w1) = handler_end.Returned" for e w1
      by (simp add: answer_error_def)
    note st = answer_statuses [where se = se]
    have "good (with_auth se is_health (so_local_token so) root r1 w1)"
      if "untouched w1" "r1 = r \<or> r1 = limited (so_max_body so) r" for r1 w1
      using assms(1,3) False that(2) st(1) [OF that(1), of "''missing or invalid '' @ LocalToken @ '' header''"] ret
      by (auto simp: with_auth_def good_def is_health_def)
    then have "good (with_body_limit se (so_max_body so) (with_auth se is_health (so_local_token so) root) r w1)"
      if "untouched w1" for w1
      using that st(2) [OF that] ret by (auto simp: with_body_limit_def good_def)
    then have act: "good (with_activity se ex (so_activity so)
        (with_body_limit se (so_max_body so) (with_auth se is_health (so_local_token so) root)) r w1)"
      if "untouched w1" for w1 ex
      using that st(3) [OF set_header_untouched [OF that]] ret
      by (auto simp: with_activity_def good_def split: option.split)
    have "good (with_recover se inner r w1)" if "good (inner r w1)" for inner w1
      using that by (cases "inner r w1") (auto simp: with_recover_def good_def)
    then have "good (serve_http se so rt r w)"
      unfolding serve_http_def chain_def root_def [symmetric]
      by (simp add: with_provider_report_no_store_def with_request_id_def exempt_or_health_def assms(2) Let_def
          act set_header_untouched assms(5))
    then show ?thesis by (auto simp: good_def)
  qed simp
qed

definition demo_options :: server_options where
  "demo_options = \<lparr>so_local_token = ''secret'', so_max_body = 64, so_activity = None, so_activity_exempt = None,
     so_auth_exempt = None, so_fresh_id = ''x'',
     so_health = \<lparr>he_version = ''1'', he_uptime = ''0'', he_extra = [], he_print = (\<lambda>v. Inr [])\<rparr>,
     so_redirect = (\<lambda>r w. (Aborted, w))\<rparr>"

definition demo_server :: server_env where
  "demo_server = \<lparr>se_envelope = (\<lambda>e. []), se_accepts = (\<lambda>a b. None), se_quote = id\<rparr>"

definition demo_routes :: routes where
  "demo_routes = \<lparr>rt_messages = Some (dispatch_request demo_dispatch demo_proxy), rt_count_tokens = None,
     rt_models = None, rt_report = None, rt_report_v2 = None,
     rt_passthrough = Some (\<lambda>r w. (handler_end.Returned, ensure_header w))\<rparr>"

lemma untouched_new: "untouched (new_writer h)"
  by (simp add: untouched_def new_writer_def committed_def)

theorem token_guards_routes_witness:
  "\<exists>st h. st \<in> {401, 413, 503} \<and>
     wr_sent (snd (serve_http demo_server demo_options demo_routes (demo_inbound\<lparr>ib_header := []\<rparr>) (new_writer []))) =
     Some (st, h)"
proof -
  let ?r = "demo_inbound\<lparr>ib_header := []\<rparr>"
  have "\<not> is_health ?r" by code_simp
  moreover have "hd (ib_path ?r) = CHR ''/''" by (simp add: demo_inbound_def)
  moreover have "header_get (ib_header ?r) LocalToken \<noteq> so_local_token demo_options"
    by (simp add: header_get_def header_values_def demo_options_def)
  moreover have "so_local_token demo_options \<noteq> []" "so_auth_exempt demo_options = None"
    by (simp_all add: demo_options_def)
  ultimately show ?thesis
    using token_guards_routes [of demo_options ?r "new_writer []" demo_server demo_routes] untouched_new by blast
qed

section \<open>The limit on bodies\<close>

lemma read_body_limited:
  assumes "0 < m" "ib_body r = Some (bytes, EOF)"
  shows "read_body (limited m r) =
    (if m < int (length bytes) then Inl (request_too_large (''request body exceeds the '' @ itoa m @ '' byte limit''))
     else Inr bytes)"
  using assms by (auto simp: read_body_def limited_def max_bytes_error_def EOF_def)

text \<open>
  Property (C25): no body over the limit gets anywhere. With a limit, a request that declares a longer
  body, or sends one without declaring it, is answered with 413 before any leg is chosen,
  and the catch-all refuses its body with the same status; a body within the limit reaches
  the dispatcher as it was sent.
\<close>

theorem body_limit_enforced:
  assumes "0 < m" "ib_body r = Some (bytes, EOF)" "untouched w"
  shows "if m < ib_length r \<or> m < int (length bytes)
    then (\<exists>h. wr_sent (snd (with_body_limit se m (dispatch_request de d) r w)) = Some (413, h)) \<and>
         with_body_limit se m (dispatch_request de d) r w = with_body_limit se m (dispatch_request de d') r w \<and>
         (m < int (length bytes) \<longrightarrow>
            (\<exists>e. pass_request_body l (limited m r) None = Inl e \<and> http_status (Some e) = 413))
    else with_body_limit se m (dispatch_request de d) r w = dispatch_request de d r w"
proof -
  have st: "hr_status (write_error enc (Some (request_too_large msg))) = 413" for enc msg
    by (simp add: request_too_large_def new_error_def write_error_status status_for_def error_type_defs)
  have sent: "\<exists>h. wr_sent (respond bw (write_error enc (Some (request_too_large msg))) w) = Some (413, h)" for bw enc msg
    using respond_status [OF assms(3), of "write_error enc (Some (request_too_large msg))" bw]
    by (simp add: st final_status_def)
  have big: "\<exists>e. pass_request_body l (limited m r) None = Inl e \<and> http_status (Some e) = 413" if "m < int (length bytes)"
    using that assms(1,2)
    by (auto simp: pass_request_body_def limited_def request_too_large_def new_error_def Let_def max_bytes_error_def
        EOF_def status_for_def error_type_defs)
  have "limited m r = r" if "\<not> m < int (length bytes)"
    using that assms(2) by (simp add: limited_def)
  with sent big read_body_limited [OF assms(1,2)] assms(1) show ?thesis
    by (auto simp: with_body_limit_def answer_error_def dispatch_request_def route_request_def write_api_error_def)
qed

theorem body_limit_enforced_witness:
  "let r = demo_inbound\<lparr>ib_body := Some (''hello'', EOF)\<rparr>
   in \<exists>h. wr_sent (snd (with_body_limit demo_server 4
        (dispatch_request demo_dispatch demo_proxy) r (new_writer []))) = Some (413, h)"
proof -
  let ?r = "demo_inbound\<lparr>ib_body := Some (''hello'', EOF)\<rparr>"
    from body_limit_enforced [OF _ _ untouched_new, of 4 ?r "''hello''" demo_server demo_dispatch demo_proxy] show ?thesis
    unfolding Let_def by simp
qed

section \<open>Requests and the idle timer\<close>

text \<open>The steps of the timer's world until the hold \<open>h\<close> is released.\<close>

definition pinned_step :: "nat \<Rightarrow> idle_world \<Rightarrow> idle_world \<Rightarrow> bool" where
  "pinned_step h a b \<longleftrightarrow> idle_step a b \<and> (h \<in> iw_open a \<longrightarrow> h \<in> iw_open b)"

definition pinned :: "nat \<Rightarrow> idle_world \<Rightarrow> bool" where
  "pinned h iw \<longleftrightarrow> idle_inv iw \<and> \<not> tm_fired (iw_timer iw) \<and> (enabled (iw_timer iw) \<longrightarrow> h \<in> iw_open iw)"

lemma step_enabled: "idle_step a b \<Longrightarrow> enabled (iw_timer b) = enabled (iw_timer a)"
  by (auto elim!: idle_stepE simp: idle_op_defs enabled_def split: if_splits)

lemma pinned_step_keeps:
  assumes "pinned h a" "pinned_step h a b"
  shows "pinned h b"
proof -
  have st: "idle_step a b" using assms(2) by (simp add: pinned_step_def)
  have inv: "idle_inv a" using assms(1) by (simp add: pinned_def)
  have "0 < tm_inflight (iw_timer a) \<or> iw_pending a = 0"
    using assms(1) inv by (auto simp: pinned_def idle_inv_def wake_ups_def Let_def card_gt_0_iff)
  then have "\<not> tm_fired (iw_timer b)"
    using st assms(1) by (auto elim!: idle_stepE simp: idle_op_defs pinned_def split: if_splits)
  with idle_inv_step [OF st inv] assms step_enabled [OF st] show ?thesis
    by (auto simp: pinned_def pinned_step_def)
qed



section \<open>One status line\<close>

text \<open>
  A response that was left well: one status line at most, and no body without one. A handler
  is tidy when it leaves every response of which nothing was on the wire like that, whether
  it returns, breaks the connection or panics.
\<close>

definition tidy :: "writer \<Rightarrow> bool" where
  "tidy w \<longleftrightarrow> wr_extra w = 0 \<and> (committed w \<or> wr_body w = [])"

definition tidy_handler :: "handler \<Rightarrow> bool" where
  "tidy_handler h \<longleftrightarrow> (\<forall>r w. untouched w \<longrightarrow> tidy (snd (h r w)))"

definition tidy_routes :: "routes \<Rightarrow> bool" where
  "tidy_routes rt \<longleftrightarrow>
     list_all (\<lambda>h. case h of None \<Rightarrow> True | Some h \<Rightarrow> tidy_handler h)
       [rt_messages rt, rt_count_tokens rt, rt_models rt, rt_report rt, rt_report_v2 rt, rt_passthrough rt]"

lemma tidyI: "(\<And>r w. untouched w \<Longrightarrow> tidy (snd (h r w))) \<Longrightarrow> tidy_handler h"
  by (simp add: tidy_handler_def)

lemma tidyD: "tidy_handler h \<Longrightarrow> untouched w \<Longrightarrow> tidy (snd (h r w))"
  by (simp add: tidy_handler_def)

lemma answered_tidy: "answered_once w \<Longrightarrow> tidy w"
  by (simp add: answered_once_def tidy_def)

lemma answer_error_tidy: "untouched w \<Longrightarrow> tidy (snd (answer_error se e w))"
  by (simp add: answer_error_def respond_answers answered_tidy)

lemma not_found_tidy: "tidy_handler (handle_not_found se)"
  by (rule tidyI) (simp add: handle_not_found_def answer_error_tidy)

lemma body_tidy: "answered_once w \<Longrightarrow> tidy (snd (write_body bw b w))"
  by (rule answered_tidy) (rule body_keeps_answer)

lemma health_tidy: "tidy_handler (handle_health se he)"
proof (rule tidyI)
  fix r w assume u: "untouched w"
  have "answered_once (write_header 200 (set_header a b (set_header c d (set_header e f (set_header g h w)))))"
    for a b c d e f g h
    by (intro header_commits set_header_untouched u) (simp add: final_status_def)
  note ok = answered_tidy [OF this] body_tidy [OF this]
  show "tidy (snd (handle_health se he r w))"
    unfolding handle_health_def Let_def
    by (auto simp only: snd_conv split: if_split sum.split intro!: ok answer_error_tidy set_header_untouched u)
qed

lemma mux_tidy:
  assumes "tidy_routes rt" "tidy_handler health"
  shows "tidy_handler (mux se health rt)"
proof (rule tidyI)
  fix r w assume u: "untouched w"
  show "tidy (snd (mux se health rt r w))"
  proof (cases "first_some (mux_routes health rt r)")
    case None
    with assms(1) u tidyD [OF not_found_tidy u] show ?thesis
      by (simp add: mux_def tidy_routes_def tidyD split: option.splits)
  next
    case (Some h)
    then have "Some h \<in> set (mux_routes health rt r)" by (rule first_some_cases)
    moreover have "list_all (\<lambda>h. case h of None \<Rightarrow> True | Some h \<Rightarrow> tidy_handler h) (mux_routes health rt r)"
      using assms by (simp add: mux_routes_def tidy_routes_def)
    ultimately have "tidy_handler h" by (fastforce simp: list_all_iff)
    with Some u show ?thesis by (simp add: mux_def tidyD)
  qed
qed

lemma root_tidy:
  assumes "tidy_routes rt" "tidy_handler redirect" "tidy_handler health"
  shows "tidy_handler (serve_root se redirect health rt)"
proof (rule tidyI)
  fix r w assume u: "untouched w"
  from assms(1) have "rt_passthrough rt = Some h \<Longrightarrow> tidy_handler h" for h by (simp add: tidy_routes_def)
  with tidyD [OF mux_tidy [OF assms(1,3)] u] tidyD [OF assms(2) u] u
  show "tidy (snd (serve_root se redirect health rt r w))"
    by (simp add: serve_root_def tidyD split: option.split)
qed

lemma auth_tidy: "tidy_handler h \<Longrightarrow> tidy_handler (with_auth se ex want h)"
  by (rule tidyI) (simp add: with_auth_def tidyD answer_error_tidy)

lemma limit_tidy: "tidy_handler h \<Longrightarrow> tidy_handler (with_body_limit se m h)"
  by (rule tidyI) (simp add: with_body_limit_def tidyD answer_error_tidy)

lemma activity_tidy: "tidy_handler h \<Longrightarrow> tidy_handler (with_activity se ex act h)"
  by (rule tidyI) (simp add: with_activity_def tidyD answer_error_tidy set_header_untouched split: option.split)

text \<open>A contained handler is tidy and lets no panic through.\<close>

definition contained :: "handler \<Rightarrow> bool" where
  "contained h \<longleftrightarrow>
     (\<forall>r w. untouched w \<longrightarrow> tidy (snd (h r w)) \<and> fst (h r w) \<in> {handler_end.Returned, Aborted})"

lemma recover_contains:
  assumes "tidy_handler h"
  shows "contained (with_recover se h)"
proof -
  have "tidy (snd (with_recover se h r w)) \<and> fst (with_recover se h r w) \<in> {handler_end.Returned, Aborted}"
    if u: "untouched w" for r w
  proof -
    obtain fin w' where run: "h r w = (fin, w')" by fastforce
    with tidyD [OF assms u, of r] have t: "tidy w'" by simp
    then have "\<not> committed w' \<Longrightarrow> untouched w'" by (simp add: tidy_def untouched_def)
    then have "\<not> committed w' \<Longrightarrow> tidy (snd (answer_error se e w'))" for e by (rule answer_error_tidy)
    with run t show ?thesis
      by (cases fin) (simp_all add: with_recover_def, simp add: answer_error_def)
  qed
  then show ?thesis by (simp add: contained_def)
qed

lemma request_id_contains: "contained h \<Longrightarrow> contained (with_request_id newid h)"
  by (simp add: contained_def with_request_id_def Let_def set_header_untouched)

lemma no_store_contains: "contained h \<Longrightarrow> contained (with_provider_report_no_store h)"
  by (simp add: contained_def with_provider_report_no_store_def set_header_untouched)

lemma serve_contains:
  assumes "tidy_routes rt" "tidy_handler (so_redirect so)"
  shows "contained (serve_http se so rt)"
  unfolding serve_http_def chain_def
  by (intro no_store_contains request_id_contains recover_contains activity_tidy limit_tidy auth_tidy root_tidy
      health_tidy assms)


text \<open>A handler that panics after the first byte of its body.\<close>

definition demo_panics :: handler where
  "demo_panics r w = (Panicked ''boom'', snd (write_body (\<lambda>a b. None) ''x'' w))"


end
