(* ===== verification/Catalog.thy ===== *)
theory Catalog
  imports CodexClient
begin

text \<open>
  \<^verbatim>\<open>internal/codex/catalog\<close>: the client of the Codex model catalog, with its snapshot in memory,
  its cache on disk and the conditional fetch, and the adapter and the loader that publish
  the list to the alias registry. What the backend answers, the parsing of the URL, the
  decoding of a body and the success of a write of the file are inputs; times are
  nanoseconds from Go's zero time. Concurrent fetches are collapsed into one, so that one
  fetch at a time is on its way; its beginning and its end are steps of their own. The
  proofs are in \<open>CatalogProps\<close>.
\<close>

section \<open>Catalog models\<close>

text \<open>The fields of \<^verbatim>\<open>CatalogModel\<close> that a listing needs, beside those a request needs.\<close>

record listed_model = catalog_model +
  lm_display :: string
  lm_visibility :: string
  lm_priority :: int

definition VisibilityList :: string where "VisibilityList = ''list''"

definition listed :: "listed_model \<Rightarrow> bool" where
  "listed m \<longleftrightarrow> lm_visibility m = VisibilityList"

definition listed_entries :: "listed_model list \<Rightarrow> catalog_entry list" where
  "listed_entries ms =
     map (\<lambda>m. \<lparr>ce_slug = cm_slug m, ce_priority = lm_priority m\<rparr>)
       (filter (\<lambda>m. listed m \<and> cm_slug m \<noteq> []) ms)"

definition populate_registry :: "(string \<Rightarrow> string) \<Rightarrow> listed_model list \<Rightarrow> registry \<Rightarrow> registry" where
  "populate_registry u ms r = load_catalog u (listed_entries ms) r"

section \<open>State\<close>

definition DefaultTTL :: int where "DefaultTTL = 300 * second"
definition max_clock_skew :: int where "max_clock_skew = 300 * second"

record catalog_options =
  co_base_url :: string
  co_cache_file :: string
  co_ttl :: int
  co_client_version :: string

text \<open>The held list, the validator that belongs to it, and the version it was fetched with.\<close>

record snapshot =
  sn_models :: "listed_model list"
  sn_etag :: string
  sn_version :: string
  sn_fetched :: int
  sn_loaded :: bool

definition no_snapshot :: snapshot where
  "no_snapshot = \<lparr>sn_models = [], sn_etag = [], sn_version = [], sn_fetched = 0, sn_loaded = False\<rparr>"

text \<open>The file, as it decodes; \<^const>\<open>None\<close> is a file that is absent or does not decode.\<close>

record disk_cache =
  kc_version :: string
  kc_etag :: string
  kc_fetched :: int
  kc_models :: "listed_model list"

record catalog_client =
  ct_base_url :: string
  ct_cache_file :: string
  ct_ttl :: int
  ct_st :: snapshot
  ct_version :: string
  ct_disk_tried :: bool

definition new_catalog_client :: "catalog_options \<Rightarrow> catalog_client" where
  "new_catalog_client co =
     \<lparr>ct_base_url = (if co_base_url co = [] then default_base_url else co_base_url co),
      ct_cache_file = co_cache_file co,
      ct_ttl = (if co_ttl co \<le> 0 then DefaultTTL else co_ttl co),
      ct_st = no_snapshot, ct_version = co_client_version co, ct_disk_tried = False\<rparr>"

definition versions_differ :: "string \<Rightarrow> string \<Rightarrow> bool" where
  "versions_differ held current \<longleftrightarrow> held \<noteq> [] \<and> current \<noteq> [] \<and> held \<noteq> current"

section \<open>The cache on disk\<close>

definition ensure_disk_loaded :: "int \<Rightarrow> disk_cache option \<Rightarrow> catalog_client \<Rightarrow> catalog_client" where
  "ensure_disk_loaded now file c =
     (if ct_disk_tried c \<or> sn_loaded (ct_st c) then c\<lparr>ct_disk_tried := True\<rparr>
      else
        let c = c\<lparr>ct_disk_tried := True\<rparr> in
        if ct_cache_file c = [] then c
        else case file of
          None \<Rightarrow> c
        | Some k \<Rightarrow>
            if kc_models k = [] \<and> kc_fetched k = 0 then c
            else if versions_differ (kc_version k) (ct_version c) then c
            else if now + max_clock_skew < kc_fetched k then c
            else
              c\<lparr>ct_st := \<lparr>sn_models = kc_models k, sn_etag = kc_etag k,
                          sn_version = (if kc_version k = [] then ct_version c else kc_version k),
                          sn_fetched = kc_fetched k, sn_loaded = True\<rparr>\<rparr>)"

text \<open>\<open>saved\<close>: every step of the replacement of the file succeeded.\<close>

definition write_disk :: "bool \<Rightarrow> catalog_client \<Rightarrow> snapshot \<Rightarrow> disk_cache option \<Rightarrow> disk_cache option" where
  "write_disk saved c ns file =
     (if ct_cache_file c = [] \<or> \<not> saved then file
      else Some \<lparr>kc_version = sn_version ns, kc_etag = sn_etag ns, kc_fetched = sn_fetched ns, kc_models = sn_models ns\<rparr>)"

definition commit_snapshot ::
  "bool \<Rightarrow> snapshot \<Rightarrow> catalog_client \<times> disk_cache option \<Rightarrow> catalog_client \<times> disk_cache option" where
  "commit_snapshot saved ns cf = (case cf of (c, file) \<Rightarrow> (c\<lparr>ct_st := ns\<rparr>, write_disk saved c ns file))"

section \<open>Reads\<close>

text \<open>The age of the snapshot; \<^const>\<open>None\<close> where there is none.\<close>

definition catalog_age :: "int \<Rightarrow> catalog_client \<Rightarrow> int" where
  "catalog_age now c = (if \<not> sn_loaded (ct_st c) then 0 else now - sn_fetched (ct_st c))"

definition catalog_snapshot :: "int \<Rightarrow> catalog_client \<Rightarrow> nat \<times> int \<times> bool" where
  "catalog_snapshot now c =
     (if \<not> sn_loaded (ct_st c) then (0, 0, False)
      else (length (sn_models (ct_st c)), now - sn_fetched (ct_st c), True))"

text \<open>
  \<^verbatim>\<open>Models\<close>, once the file was tried: a fresh list, a stale one that also starts a
  revalidation in the background, or nothing, so that the caller waits for a fetch.
\<close>

datatype models_call = FreshModels "listed_model list" | StaleModels "listed_model list" | ColdModels

definition catalog_models :: "int \<Rightarrow> catalog_client \<Rightarrow> models_call" where
  "catalog_models now c =
     (let st = ct_st c in
      if sn_loaded st then
        if now - sn_fetched st < ct_ttl c then FreshModels (sn_models st) else StaleModels (sn_models st)
      else ColdModels)"

section \<open>A fetch\<close>

text \<open>The answer of \<^verbatim>\<open>ClientVersionFunc\<close>, where there is one; an empty answer changes nothing.\<close>

definition resolve_client_version :: "string option \<Rightarrow> catalog_client \<Rightarrow> string \<times> catalog_client" where
  "resolve_client_version answer c =
     (case answer of
        Some v \<Rightarrow> if v \<noteq> [] then (v, c\<lparr>ct_version := v\<rparr>) else (ct_version c, c)
      | None \<Rightarrow> (ct_version c, c))"

text \<open>What a fetch has read before it sends: the version, the validator it offers, the snapshot.\<close>

record catalog_flight =
  fl_version :: string
  fl_etag :: string
  fl_prev :: snapshot

definition begin_fetch :: "string option \<Rightarrow> catalog_client \<Rightarrow> catalog_flight \<times> catalog_client" where
  "begin_fetch answer c =
     (case resolve_client_version answer c of
        (v, c) \<Rightarrow>
          let prev = ct_st c;
              etag = (if sn_loaded prev \<and> sn_etag prev \<noteq> [] \<and> versions_differ (sn_version prev) v then []
                      else sn_etag prev)
          in (\<lparr>fl_version = v, fl_etag = etag, fl_prev = prev\<rparr>, c))"

definition catalog_headers :: "credential \<Rightarrow> catalog_flight \<Rightarrow> header" where
  "catalog_headers cred f =
     (let h = header_set ''Authorization'' (''Bearer '' @ cr_access cred) [];
          h = header_set ''chatgpt-account-id'' (cr_account cred) h;
          h = header_set ''OpenAI-Beta'' ''responses=experimental'' h;
          h = header_set ''originator'' ''codex_cli_rs'' h;
          h = header_set ''Accept'' ''application/json'' h
      in if fl_etag f \<noteq> [] then header_set ''If-None-Match'' (fl_etag f) h else h)"

text \<open>
  What comes of the request: the URL did not parse, the request could not be built, the exchange failed, or the
  backend answered with a status, headers and a body or the error of reading it.
\<close>

datatype catalog_reply =
    BadURL go_error
  | BadRequest go_error
  | NoReply go_error
  | Replied int header "go_error + string"

text \<open>The text of an error body, as the message for a 400 shows it.\<close>

definition bad_request_detail :: "go_error + string \<Rightarrow> string" where
  "bad_request_detail body =
     (case body of
        Inl _ \<Rightarrow> ''(no response body)''
      | Inr s \<Rightarrow> (let d = trim_space s in if d = [] then ''(no response body)'' else d))"

definition catalog_failure :: "(string \<Rightarrow> string) \<Rightarrow> int \<Rightarrow> header \<Rightarrow> go_error + string \<Rightarrow> go_error" where
  "catalog_failure q st h body =
     (if st = 401 then
        new_error TypeAuthentication ''codex catalog rejected the credential (HTTP 401); the access token may need refreshing''
      else if st = 400 then
        with_status 400 TypeInvalidRequest
          (''codex catalog request failed (HTTP 400): '' @ bad_request_detail body @ byte_str [32, 226, 128, 148, 32] @
           ''this endpoint requires a non-empty client_version query parameter; check Options.ClientVersion / UTRAQUE_CODEX_CLIENT_VERSION'')
      else if 300 \<le> st \<and> st < 400 then
        with_status 502 TypeAPI
          (''codex catalog returned an unexpected redirect (HTTP '' @ itoa st @ '' to '' @ go_quote q (header_get h ''Location'') @
           ''); redirects are never followed'')
      else with_status st (type_for_status st) (''codex catalog request failed (HTTP '' @ itoa st @ '')''))"

text \<open>The new snapshot, or the error. \<open>decode\<close> is the decoder of the body.\<close>

definition fetched_snapshot ::
  "(string \<Rightarrow> string) \<Rightarrow> (string \<Rightarrow> go_error + listed_model list) \<Rightarrow> int \<Rightarrow> catalog_flight \<Rightarrow> catalog_reply \<Rightarrow>
   go_error + snapshot" where
  "fetched_snapshot q decode now f reply =
     (case reply of
        BadURL e \<Rightarrow> Inl (wrap_error e TypeAPI ''codex catalog: parse request URL'')
      | BadRequest e \<Rightarrow> Inl (wrap_error e TypeAPI ''codex catalog: build request'')
      | NoReply e \<Rightarrow> Inl (wrap_error e TypeAPI ''codex catalog: request failed'')
      | Replied st h body \<Rightarrow>
          if st = 304 then
            if \<not> sn_loaded (fl_prev f) \<or> fl_etag f = [] then
              Inl (new_error TypeAPI ''codex catalog returned 304 to a request that offered no cached catalog to reuse'')
            else
              Inr \<lparr>sn_models = sn_models (fl_prev f), sn_etag = fl_etag f, sn_version = sn_version (fl_prev f),
                   sn_fetched = now, sn_loaded = True\<rparr>
          else if st = 200 then
            (case body of
               Inl e \<Rightarrow> Inl (wrap_error e TypeAPI ''codex catalog: read body'')
             | Inr s \<Rightarrow>
                 (case decode s of
                    Inl e \<Rightarrow> Inl (wrap_error e TypeAPI ''codex catalog: decode body'')
                  | Inr ms \<Rightarrow>
                      Inr \<lparr>sn_models = ms, sn_etag = header_get h ''ETag'', sn_version = fl_version f,
                           sn_fetched = now, sn_loaded = True\<rparr>))
          else Inl (catalog_failure q st h body))"

definition finish_fetch ::
  "(string \<Rightarrow> string) \<Rightarrow> (string \<Rightarrow> go_error + listed_model list) \<Rightarrow> int \<Rightarrow> catalog_flight \<Rightarrow> catalog_reply \<Rightarrow> bool \<Rightarrow>
   catalog_client \<times> disk_cache option \<Rightarrow> (go_error + snapshot) \<times> catalog_client \<times> disk_cache option" where
  "finish_fetch q decode now f reply saved cf =
     (case fetched_snapshot q decode now f reply of
        Inl e \<Rightarrow> (Inl e, cf)
      | Inr ns \<Rightarrow> (Inr ns, commit_snapshot saved ns cf))"

section \<open>The loader of aliases\<close>

definition catalog_fingerprint :: "listed_model list \<Rightarrow> string" where
  "catalog_fingerprint ms =
     join_with '','' (sort (map (\<lambda>e. ce_slug e @ ''#'' @ itoa (ce_priority e)) (listed_entries ms)))"

text \<open>The registry and the fingerprint of the list that was published last.\<close>

definition load_aliases :: "(string \<Rightarrow> string) \<Rightarrow> listed_model list \<Rightarrow> registry \<times> string \<Rightarrow> registry \<times> string" where
  "load_aliases u ms rl =
     (case rl of (r, last_fp) \<Rightarrow>
        if ms = [] then (r, last_fp)
        else
          let fp = catalog_fingerprint ms in
          if fp = last_fp then (r, last_fp) else (populate_registry u ms r, fp))"

end
