(* ===== verification/AnthCatalog.thy ===== *)
theory AnthCatalog
  imports Passthrough Request Auth
begin

text \<open>
  \<^verbatim>\<open>internal/anthropic/catalog.go\<close>: the client of Anthropic's model list, which asks with the
  credential of its caller and remembers one answer, good or bad, for the credential that
  got it. The parser of URLs, SHA-256, the decoder of a body and what the upstream answers
  are inputs; times are nanoseconds from Go's zero time; logging is left out. A call is split
  at the exchange, so that others can fall in between. The theorem at the end says that no
  caller is served the answer of another.
\<close>

section \<open>Credentials\<close>

definition CatalogPath :: string where "CatalogPath = ''/v1/models''"
definition DefaultCatalogLimit :: int where "DefaultCatalogLimit = 1000"
definition DefaultCatalogTTL :: int where "DefaultCatalogTTL = 300 * second"
definition DefaultCatalogNegativeTTL :: int where "DefaultCatalogNegativeTTL = 60 * second"
definition DefaultAnthropicVersion :: string where "DefaultAnthropicVersion = ''2023-06-01''"

definition ErrNoCredential :: go_error where
  "ErrNoCredential = Sentinel ''utraque/anthropic: no client credential on the request''"

definition ErrRedirected :: go_error where
  "ErrRedirected = Sentinel ''utraque/anthropic: upstream redirected the catalog request''"

record anth_credential =
  ak_authorization :: string
  ak_api_key :: string

record request_options =
  rn_beta :: "string list"
  rn_version :: string

definition credential_from_request :: "inbound option \<Rightarrow> anth_credential" where
  "credential_from_request r =
     (case r of
        None \<Rightarrow> \<lparr>ak_authorization = [], ak_api_key = []\<rparr>
      | Some r \<Rightarrow>
          \<lparr>ak_authorization = trim_space (header_get (ib_header r) ''Authorization''),
           ak_api_key = trim_space (header_get (ib_header r) ''X-Api-Key'')\<rparr>)"

definition request_options_from_request :: "inbound option \<Rightarrow> request_options" where
  "request_options_from_request r =
     (case r of
        None \<Rightarrow> \<lparr>rn_beta = [], rn_version = []\<rparr>
      | Some r \<Rightarrow>
          \<lparr>rn_beta = filter (\<lambda>v. v \<noteq> []) (map trim_space (header_values (ib_header r) ''Anthropic-Beta'')),
           rn_version = trim_space (header_get (ib_header r) ''Anthropic-Version'')\<rparr>)"

definition credential_present :: "anth_credential \<Rightarrow> bool" where
  "credential_present c \<longleftrightarrow> ak_authorization c \<noteq> [] \<or> ak_api_key c \<noteq> []"

definition credential_material :: "anth_credential \<Rightarrow> string" where
  "credential_material c = ak_authorization c @ [CHR 0x00] @ ak_api_key c"

definition cache_key :: "(string \<Rightarrow> string) \<Rightarrow> anth_credential \<Rightarrow> string" where
  "cache_key sha256 c = hex_encode (sha256 (credential_material c))"

text \<open>\<^verbatim>\<open>apply\<close>: the headers of the request, which had none before.\<close>

definition apply_credential :: "anth_credential \<Rightarrow> request_options \<Rightarrow> header \<Rightarrow> header" where
  "apply_credential c o' h =
     (let h = (if ak_authorization c \<noteq> [] then header_set ''Authorization'' (ak_authorization c) h
               else if ak_api_key c \<noteq> [] then header_set ''X-Api-Key'' (ak_api_key c) h
               else h);
          h = header_set ''Anthropic-Version'' (if rn_version o' = [] then DefaultAnthropicVersion else rn_version o') h;
          h = foldl (\<lambda>h v. header_add ''Anthropic-Beta'' v h) h (rn_beta o')
      in header_set ''Accept'' ''application/json'' h)"

section \<open>The client\<close>

text \<open>\<^verbatim>\<open>CatalogModel\<close>.\<close>

record anth_model =
  an_id :: string
  an_display :: string
  an_type :: string
  an_created :: string

record anth_catalog =
  nc_base :: url
  nc_ttl :: int
  nc_neg_ttl :: int
  nc_models :: "anth_model list option"
  nc_good_until :: int
  nc_err :: "go_error option"
  nc_bad_until :: int
  nc_cred_key :: string

definition with_catalog_ttl :: "int \<Rightarrow> anth_catalog \<Rightarrow> anth_catalog" where
  "with_catalog_ttl d c = c\<lparr>nc_ttl := (if d \<le> 0 then DefaultCatalogTTL else d)\<rparr>"

definition with_catalog_negative_ttl :: "int \<Rightarrow> anth_catalog \<Rightarrow> anth_catalog" where
  "with_catalog_negative_ttl d c = c\<lparr>nc_neg_ttl := (if d \<le> 0 then DefaultCatalogNegativeTTL else d)\<rparr>"

text \<open>\<^verbatim>\<open>NewCatalog\<close>; \<open>tr\<close> says whether there is a transport, and the options act in their order.\<close>

definition new_anth_catalog ::
  "url_env \<Rightarrow> string \<Rightarrow> bool \<Rightarrow> (anth_catalog \<Rightarrow> anth_catalog) list \<Rightarrow> go_error + anth_catalog" where
  "new_anth_catalog ue base_url tr opts =
     (if \<not> tr then Inl (PlainError ''utraque/anthropic: nil transport'')
      else case ur_parse ue (trim_space base_url) of
        Inl e \<Rightarrow> Inl (Wrapped (''utraque/anthropic: parse catalog base url: '' @ error_text e) e)
      | Inr u \<Rightarrow>
          if u_scheme u \<noteq> ''http'' \<and> u_scheme u \<noteq> ''https'' then
            Inl (PlainError (''utraque/anthropic: catalog base url must be http or https, got '' @ go_quote (ur_quote ue) base_url))
          else if u_host u = [] then
            Inl (PlainError (''utraque/anthropic: catalog base url has no host: '' @ go_quote (ur_quote ue) base_url))
          else
            Inr (fold (\<lambda>f c. f c) opts
              \<lparr>nc_base = (bare_url u)\<lparr>u_path := trim_slash (u_path u), u_raw_path := []\<rparr>,
               nc_ttl = DefaultCatalogTTL, nc_neg_ttl = DefaultCatalogNegativeTTL, nc_models = None, nc_good_until = 0,
               nc_err = None, nc_bad_until = 0, nc_cred_key = []\<rparr>))"

definition anth_cached :: "int \<Rightarrow> string \<Rightarrow> anth_catalog \<Rightarrow> (go_error + anth_model list) option" where
  "anth_cached now key c =
     (if nc_cred_key c \<noteq> key then None
      else if now < nc_bad_until c \<and> nc_err c \<noteq> None then Some (Inl (the (nc_err c)))
      else if now < nc_good_until c \<and> nc_models c \<noteq> None then Some (Inr (the (nc_models c)))
      else None)"

definition remember_success :: "int \<Rightarrow> string \<Rightarrow> anth_model list \<Rightarrow> anth_catalog \<Rightarrow> anth_catalog" where
  "remember_success now key ms c =
     c\<lparr>nc_cred_key := key, nc_models := Some ms, nc_good_until := now + nc_ttl c, nc_err := None, nc_bad_until := 0\<rparr>"

definition remember_failure :: "int \<Rightarrow> string \<Rightarrow> go_error \<Rightarrow> anth_catalog \<Rightarrow> anth_catalog" where
  "remember_failure now key e c =
     c\<lparr>nc_cred_key := key, nc_err := Some e, nc_bad_until := now + nc_neg_ttl c, nc_models := None, nc_good_until := 0\<rparr>"

definition negative_cached_until :: "int \<Rightarrow> anth_catalog \<Rightarrow> int option" where
  "negative_cached_until now c =
     (if nc_err c = None \<or> \<not> now < nc_bad_until c then None else Some (nc_bad_until c))"

definition reset_cache :: "anth_catalog \<Rightarrow> anth_catalog" where
  "reset_cache c = c\<lparr>nc_models := None, nc_good_until := 0, nc_err := None, nc_bad_until := 0, nc_cred_key := []\<rparr>"

section \<open>The fetch\<close>

definition anth_catalog_url :: "url_env \<Rightarrow> anth_catalog \<Rightarrow> string" where
  "anth_catalog_url ue c =
     ur_string ue ((nc_base c)\<lparr>u_path := u_path (nc_base c) @ CatalogPath, u_raw_query := ''limit='' @ itoa DefaultCatalogLimit\<rparr>)"

text \<open>The request could not be built, the exchange failed, or a status came with a body or the error of reading it.\<close>

datatype anth_reply = Unbuilt go_error | Unanswered go_error | Answered int "go_error + string"

definition anth_fetched :: "(string \<Rightarrow> go_error + anth_model list) \<Rightarrow> anth_reply \<Rightarrow> go_error + anth_model list" where
  "anth_fetched decode reply =
     (case reply of
        Unbuilt e \<Rightarrow> Inl (wrap_error e TypeAPI ''anthropic catalog: build request'')
      | Unanswered e \<Rightarrow> Inl (wrap_error e TypeAPI ''anthropic catalog: request failed'')
      | Answered st body \<Rightarrow>
          if 300 \<le> st \<and> st < 400 then Inl (Wrapped (error_text ErrRedirected @ '' (HTTP '' @ itoa st @ '')'') ErrRedirected)
          else if st \<noteq> 200 then
            Inl (with_status st (type_for_status st) (''anthropic catalog request failed (HTTP '' @ itoa st @ '')''))
          else case body of
            Inl e \<Rightarrow> Inl (wrap_error e TypeAPI ''anthropic catalog: read body'')
          | Inr s \<Rightarrow>
              (case decode s of
                 Inl e \<Rightarrow> Inl (wrap_error e TypeAPI ''anthropic catalog: decode body'')
               | Inr page \<Rightarrow> Inr (filter (\<lambda>m. trim_space (an_id m) \<noteq> []) page)))"

text \<open>\<^verbatim>\<open>Models\<close> up to the exchange, and after it.\<close>

definition anth_models_begin ::
  "(string \<Rightarrow> string) \<Rightarrow> int \<Rightarrow> anth_credential \<Rightarrow> anth_catalog \<Rightarrow> (go_error + anth_model list) option" where
  "anth_models_begin sha256 now cred c =
     (if \<not> credential_present cred then Some (Inl ErrNoCredential) else anth_cached now (cache_key sha256 cred) c)"

definition anth_models_end ::
  "(string \<Rightarrow> string) \<Rightarrow> int \<Rightarrow> anth_credential \<Rightarrow> go_error + anth_model list \<Rightarrow> anth_catalog \<Rightarrow> anth_catalog" where
  "anth_models_end sha256 now cred res c =
     (case res of
        Inl e \<Rightarrow> remember_failure now (cache_key sha256 cred) e c
      | Inr ms \<Rightarrow> remember_success now (cache_key sha256 cred) ms c)"

text \<open>A call that nothing comes in between of; the exchange ends at \<open>later\<close>.\<close>

definition anth_models ::
  "(string \<Rightarrow> string) \<Rightarrow> (string \<Rightarrow> go_error + anth_model list) \<Rightarrow> int \<Rightarrow> int \<Rightarrow> anth_credential \<Rightarrow> anth_reply \<Rightarrow> anth_catalog \<Rightarrow>
   (go_error + anth_model list) \<times> anth_catalog" where
  "anth_models sha256 decode now later cred reply c =
     (case anth_models_begin sha256 now cred c of
        Some res \<Rightarrow> (res, c)
      | None \<Rightarrow> (let res = anth_fetched decode reply in (res, anth_models_end sha256 later cred res c)))"

section \<open>Many callers\<close>

text \<open>
  The calls that wait for the upstream, and every answer that it gave, with the credential that
  asked and the time.
\<close>

record anth_world =
  nw_client :: anth_catalog
  nw_now :: int
  nw_pending :: "anth_credential list"
  nw_answers :: "(anth_credential \<times> int \<times> (go_error + anth_model list)) set"

text \<open>\<^verbatim>\<open>net/http\<close> refuses a header value with a NUL.\<close>

definition header_credential :: "anth_credential \<Rightarrow> bool" where
  "header_credential c \<longleftrightarrow> credential_present c \<and> CHR 0x00 \<notin> set (ak_authorization c)"

inductive anth_step ::
  "(string \<Rightarrow> string) \<Rightarrow> (string \<Rightarrow> go_error + anth_model list) \<Rightarrow> anth_world \<Rightarrow> anth_world \<Rightarrow> bool"
  for sha256 decode where
  tick: "nw_now w \<le> n \<Longrightarrow> anth_step sha256 decode w (w\<lparr>nw_now := n\<rparr>)"
| ask: "header_credential cred \<Longrightarrow> anth_models_begin sha256 (nw_now w) cred (nw_client w) = None \<Longrightarrow>
     anth_step sha256 decode w (w\<lparr>nw_pending := cred # nw_pending w\<rparr>)"
| answer: "cred \<in> set (nw_pending w) \<Longrightarrow> res = anth_fetched decode reply \<Longrightarrow>
     anth_step sha256 decode w
       (w\<lparr>nw_client := anth_models_end sha256 (nw_now w) cred res (nw_client w),
          nw_pending := remove1 cred (nw_pending w), nw_answers := insert (cred, nw_now w, res) (nw_answers w)\<rparr>)"
| reset: "anth_step sha256 decode w (w\<lparr>nw_client := reset_cache (nw_client w)\<rparr>)"

inductive anth_reach ::
  "(string \<Rightarrow> string) \<Rightarrow> (string \<Rightarrow> go_error + anth_model list) \<Rightarrow> anth_world \<Rightarrow> bool" for sha256 decode where
  anth_init: "new_anth_catalog ue base True opts = Inr c \<Longrightarrow> nc_models c = None \<Longrightarrow> nc_err c = None \<Longrightarrow>
     anth_reach sha256 decode \<lparr>nw_client = c, nw_now = n, nw_pending = [], nw_answers = {}\<rparr>"
| anth_next: "anth_reach sha256 decode w \<Longrightarrow> anth_step sha256 decode w w' \<Longrightarrow> anth_reach sha256 decode w'"

text \<open>How long an answer counts.\<close>

definition answer_ttl :: "anth_catalog \<Rightarrow> go_error + anth_model list \<Rightarrow> int" where
  "answer_ttl c res = (case res of Inl e \<Rightarrow> nc_neg_ttl c | Inr ms \<Rightarrow> nc_ttl c)"

definition remembered :: "(string \<Rightarrow> string) \<Rightarrow> anth_world \<Rightarrow> go_error + anth_model list \<Rightarrow> int \<Rightarrow> bool" where
  "remembered sha256 w res until \<longleftrightarrow>
     (\<exists>cred t. (cred, t, res) \<in> nw_answers w \<and> nc_cred_key (nw_client w) = cache_key sha256 cred \<and> t \<le> nw_now w \<and>
        until = t + answer_ttl (nw_client w) res)"

definition anth_inv :: "(string \<Rightarrow> string) \<Rightarrow> anth_world \<Rightarrow> bool" where
  "anth_inv sha256 w \<longleftrightarrow>
     (\<forall>cred \<in> set (nw_pending w) \<union> fst ` nw_answers w. header_credential cred) \<and>
     (case nc_models (nw_client w) of None \<Rightarrow> True | Some ms \<Rightarrow> remembered sha256 w (Inr ms) (nc_good_until (nw_client w))) \<and>
     (case nc_err (nw_client w) of None \<Rightarrow> True | Some e \<Rightarrow> remembered sha256 w (Inl e) (nc_bad_until (nw_client w)))"

lemma anth_cached_hit:
  "anth_cached now key c = Some res \<Longrightarrow> nc_cred_key c = key \<and>
     (case res of Inl e \<Rightarrow> nc_err c = Some e \<and> now < nc_bad_until c
                | Inr ms \<Rightarrow> nc_models c = Some ms \<and> now < nc_good_until c)"
  by (auto simp: anth_cached_def split: if_splits)

lemma anth_cached_end:
  "later < now + answer_ttl c res \<Longrightarrow>
   anth_cached later (cache_key sha256 cred) (anth_models_end sha256 now cred res c) = Some res"
  by (auto simp: anth_cached_def anth_models_end_def remember_success_def remember_failure_def answer_ttl_def split: sum.splits)

lemma anth_inv_step:
  assumes "anth_inv sha256 w" "anth_step sha256 decode w w'"
  shows "anth_inv sha256 w'"
  using assms(2)
proof (cases rule: anth_step.cases)
  case (tick n)
  with assms(1) show ?thesis
    by (fastforce simp: anth_inv_def remembered_def split: option.splits)
next
  case (ask cred)
  with assms(1) show ?thesis by (auto simp: anth_inv_def remembered_def split: option.splits)
next
  case (answer cred res reply)
  show ?thesis using assms(1) answer(2) unfolding answer(1)
    by (cases res) (auto simp: anth_inv_def remembered_def anth_models_end_def remember_success_def remember_failure_def
        answer_ttl_def dest: set_remove1_subset [THEN subsetD])
next
  case reset
  with assms(1) show ?thesis by (simp add: anth_inv_def reset_cache_def)
qed

lemma anth_reach_inv: "anth_reach sha256 decode w \<Longrightarrow> anth_inv sha256 w"
proof (induction rule: anth_reach.induct)
  case (anth_init ue base opts c n)
  then show ?case by (simp add: anth_inv_def)
qed (rule anth_inv_step)

lemma hex_digit_inj: "m < 16 \<Longrightarrow> n < 16 \<Longrightarrow> hex_digit m = hex_digit n \<longleftrightarrow> m = n"
  by (auto simp: hex_digit_def)

lemma hex_encode_inj: "hex_encode a = hex_encode b \<longleftrightarrow> a = b"
proof (induction a arbitrary: b)
  case Nil
  show ?case by (cases b) (simp_all add: hex_encode_def)
next
  case (Cons c cs)
  have same: "(of_char c :: nat) div 16 = of_char d div 16 \<Longrightarrow> (of_char c :: nat) mod 16 = of_char d mod 16 \<Longrightarrow> c = d" for d :: char
    by (metis div_mult_mod_eq of_char_eq_iff)
  have small: "(of_char d :: nat) div 16 < 16" "(of_char d :: nat) mod 16 < 16" for d :: char
    using of_char_less_256 [of d] by (auto intro!: less_mult_imp_div_less)
  show ?case
  proof (cases b)
    case Nil
    then show ?thesis by (simp add: hex_encode_def)
  next
    case (Cons d ds)
    with Cons.IH [of ds] same [of d] show ?thesis
      by (auto simp: hex_encode_def hex_digit_inj [OF small(1) small(1)] hex_digit_inj [OF small(2) small(2)])
  qed
qed

lemma material_inj:
  assumes "header_credential c" "header_credential d" "credential_material c = credential_material d"
  shows "c = d"
proof -
  have "takeWhile (\<lambda>x. x \<noteq> CHR 0x00) (credential_material e) = ak_authorization e" if "header_credential e" for e
    using that by (simp add: credential_material_def header_credential_def takeWhile_append)
  with assms have "ak_authorization c = ak_authorization d" by metis
  with assms(3) show ?thesis by (simp add: credential_material_def)
qed

text \<open>
  Property (C39): no caller is served the answer of another. Whatever calls fall in between, an answer from the
  cache was given by the upstream to this very credential, a list no longer ago
  than the client remembers lists and a failure no longer than it remembers failures; and an answer that
  was just given is what the next call with the credential gets within that time.
\<close>

theorem anthropic_lists_kept_apart:
  assumes "anth_reach sha256 decode w" "header_credential cred"
    and "inj_on sha256 (credential_material ` insert cred (fst ` nw_answers w))"
  shows "(case anth_models_begin sha256 (nw_now w) cred (nw_client w) of
       None \<Rightarrow> True
     | Some res \<Rightarrow> \<exists>t. (cred, t, res) \<in> nw_answers w \<and> t \<le> nw_now w \<and> nw_now w < t + answer_ttl (nw_client w) res) \<and>
    (\<forall>res later. nw_now w \<le> later \<and> later < nw_now w + answer_ttl (nw_client w) res \<longrightarrow>
       anth_models_begin sha256 later cred (anth_models_end sha256 (nw_now w) cred res (nw_client w)) = Some res)"
proof -
  note inv = anth_reach_inv [OF assms(1), unfolded anth_inv_def]
  have same: "cred' = cred"
    if "(cred', t, res) \<in> nw_answers w" "cache_key sha256 cred' = cache_key sha256 cred" for cred' t res
  proof (rule material_inj)
    have "cred' \<in> fst ` nw_answers w" using that(1) by force
    then show "header_credential cred'" using inv by blast
    show "credential_material cred' = credential_material cred"
      using that(2) inj_onD [OF assms(3), of "credential_material cred'" "credential_material cred"] \<open>cred' \<in> fst ` nw_answers w\<close>
      by (simp add: cache_key_def hex_encode_inj)
  qed (fact assms(2))
  have kept: "\<exists>t. (cred, t, res) \<in> nw_answers w \<and> t \<le> nw_now w \<and> until = t + answer_ttl (nw_client w) res"
    if "remembered sha256 w res until" "nc_cred_key (nw_client w) = cache_key sha256 cred" for res until
    using that same unfolding remembered_def by metis
  have "\<exists>t. (cred, t, res) \<in> nw_answers w \<and> t \<le> nw_now w \<and> nw_now w < t + answer_ttl (nw_client w) res"
    if "anth_cached (nw_now w) (cache_key sha256 cred) (nw_client w) = Some res" for res
    using anth_cached_hit [OF that] kept [of res] inv by (cases res) fastforce+
  then show ?thesis
    using assms(2) by (auto simp: anth_models_begin_def anth_cached_end header_credential_def split: option.splits)
qed

definition demo_anth :: anth_catalog where
  "demo_anth =
     \<lparr>nc_base = \<lparr>u_scheme = ''https'', u_user = None, u_host = ''api.anthropic.com'', u_path = [], u_raw_path = [],
        u_raw_query = [], u_force_query = False, u_fragment = [], u_raw_fragment = []\<rparr>,
      nc_ttl = DefaultCatalogTTL, nc_neg_ttl = DefaultCatalogNegativeTTL, nc_models = None, nc_good_until = 0,
      nc_err = None, nc_bad_until = 0, nc_cred_key = []\<rparr>"

definition demo_caller :: anth_credential where
  "demo_caller = \<lparr>ak_authorization = ''Bearer a'', ak_api_key = []\<rparr>"

lemma demo_anth_reach:
  "anth_reach id decode \<lparr>nw_client = demo_anth, nw_now = n, nw_pending = [], nw_answers = {}\<rparr>"
proof (rule anth_init [where base = "[]" and opts = "[]"])
  show "new_anth_catalog \<lparr>ur_parse = \<lambda>s. Inr (nc_base demo_anth), ur_string = u_host, ur_quote = id, ur_error = \<lambda>e. None,
      ur_timeout = \<lambda>e. False\<rparr> [] True [] = Inr demo_anth"
    by (simp add: new_anth_catalog_def demo_anth_def bare_url_def trim_slash_def)
qed (simp_all add: demo_anth_def)

theorem anthropic_lists_kept_apart_witness:
  "anth_models_begin id (60 * second) demo_caller (anth_models_end id 0 demo_caller (Inr []) demo_anth) = Some (Inr [])"
proof -
  have "header_credential demo_caller"
    by (simp add: header_credential_def credential_present_def demo_caller_def)
  from anthropic_lists_kept_apart [OF demo_anth_reach [of "\<lambda>s. Inr []" 0] this] show ?thesis
    by (simp add: answer_ttl_def demo_anth_def DefaultCatalogTTL_def second_def)
qed

end
