(* ===== verification/Discovery.thy ===== *)
theory Discovery
  imports Server Catalog AnthCatalog
begin

text \<open>
  \<^verbatim>\<open>internal/discovery\<close>: the catalog that fills the model picker of the client, merged from
  Anthropic's models, the DeepSeek ones and the Codex ones, and the registration of a route
  for every row that needs one. What the two upstream reads answer is an input; logging is
  left out. The proofs are in \<open>DiscoveryProps\<close>.
\<close>

section \<open>Models\<close>

definition ModelType :: string where "ModelType = ''model''"

definition static_anthropic_models :: "anth_model list" where
  "static_anthropic_models =
     [\<lparr>an_id = ''claude-fable-5'', an_display = ''Fable 5'', an_type = ModelType, an_created = []\<rparr>,
      \<lparr>an_id = ''claude-opus-5'', an_display = ''Opus 5'', an_type = ModelType, an_created = []\<rparr>,
      \<lparr>an_id = ''claude-sonnet-5'', an_display = ''Sonnet 5'', an_type = ModelType, an_created = []\<rparr>,
      \<lparr>an_id = ''claude-haiku-4-5'', an_display = ''Haiku 4.5'', an_type = ModelType, an_created = []\<rparr>]"

section \<open>Options\<close>

definition CatalogModeMerge :: string where "CatalogModeMerge = ''merge''"
definition CatalogModeUpstream :: string where "CatalogModeUpstream = ''upstream''"
definition CatalogModeStatic :: string where "CatalogModeStatic = ''static''"

definition valid_mode :: "string \<Rightarrow> bool" where
  "valid_mode m \<longleftrightarrow> m \<in> {CatalogModeMerge, CatalogModeUpstream, CatalogModeStatic}"

definition AliasOff :: string where "AliasOff = ''off''"
definition AliasTemplate :: string where "AliasTemplate = ''template''"
definition AliasEffortVariants :: string where "AliasEffortVariants = ''effort_variants''"
definition AliasRaw :: string where "AliasRaw = ''raw''"

definition valid_strategy :: "string \<Rightarrow> bool" where
  "valid_strategy s \<longleftrightarrow> s \<in> {AliasOff, AliasTemplate, AliasEffortVariants, AliasRaw}"

definition DefaultIDTemplate :: string where "DefaultIDTemplate = ''anthropic-compat.{alias}''"
definition DefaultDisplayTemplate :: string where "DefaultDisplayTemplate = ''{display} ({alias})''"

text \<open>The configuration: whether there is an upstream reader and a Codex source, and the rest.\<close>

record discovery_options =
  do_mode :: string
  do_anthropic :: bool
  do_static :: "anth_model list option"
  do_codex :: bool
  do_deepseek :: bool
  do_strategy :: string
  do_id_template :: string
  do_display_template :: string
  do_include_hidden :: bool

definition catalog_mode :: "discovery_options \<Rightarrow> string" where
  "catalog_mode o' = (if do_mode o' = [] then CatalogModeMerge else do_mode o')"

definition static_models :: "discovery_options \<Rightarrow> anth_model list" where
  "static_models o' = (case do_static o' of None \<Rightarrow> static_anthropic_models | Some ms \<Rightarrow> ms)"

definition alias_strategy :: "discovery_options \<Rightarrow> string" where
  "alias_strategy o' = (if do_strategy o' = [] then AliasTemplate else do_strategy o')"

definition id_template :: "discovery_options \<Rightarrow> string" where
  "id_template o' = (if do_id_template o' = [] then DefaultIDTemplate else do_id_template o')"

definition display_template :: "discovery_options \<Rightarrow> string" where
  "display_template o' = (if do_display_template o' = [] then DefaultDisplayTemplate else do_display_template o')"

section \<open>Templates\<close>

record template_vars =
  tv_alias :: string
  tv_slug :: string
  tv_display :: string
  tv_effort :: string

definition placeholders :: "template_vars \<Rightarrow> (string \<times> string) list" where
  "placeholders v =
     [(''{alias}'', tv_alias v), (''{slug}'', tv_slug v), (''{display}'', tv_display v), (''{effort}'', tv_effort v)]"

text \<open>\<^verbatim>\<open>strings.NewReplacer\<close>: at every byte the first pair that matches; what it puts is not read again.\<close>

function replace_all :: "(string \<times> string) list \<Rightarrow> string \<Rightarrow> string" where
  "replace_all kvs [] = []"
| "replace_all kvs (c # s) =
     (case find (\<lambda>(k, v). k \<noteq> [] \<and> prefix k (c # s)) kvs of
        Some (k, v) \<Rightarrow> v @ replace_all kvs (drop (length k) (c # s))
      | None \<Rightarrow> c # replace_all kvs s)"
  by pat_completeness auto
termination
  by (relation "measure (\<lambda>(kvs, s). length s)") (auto simp: find_Some_iff prefix_def)

definition render_template :: "string \<Rightarrow> template_vars \<Rightarrow> string" where
  "render_template tmpl v = replace_all (placeholders v) tmpl"

text \<open>
  The client's own filter, \<^verbatim>\<open>(?i)(claude|anthropic)\<close>. No character outside ASCII folds to a
  letter of the two words.
\<close>

definition passes_client_filter :: "string \<Rightarrow> bool" where
  "passes_client_filter i \<longleftrightarrow>
     contains ''claude'' (map lower_char i) \<or> contains ''anthropic'' (map lower_char i)"

text \<open>\<^verbatim>\<open>validate\<close>; \<open>q\<close> quotes what is outside ASCII.\<close>

definition validate_options :: "(string \<Rightarrow> string) \<Rightarrow> discovery_options \<Rightarrow> go_error option" where
  "validate_options q o' =
     (if \<not> valid_mode (catalog_mode o') then
        Some (PlainError (''utraque/discovery: catalog_mode '' @ go_quote q (do_mode o') @
          '': want merge|upstream|static''))
      else if \<not> valid_strategy (alias_strategy o') then
        Some (PlainError (''utraque/discovery: alias strategy '' @ go_quote q (do_strategy o') @
          '': want off|template|effort_variants|raw''))
      else if alias_strategy o' = AliasOff then None
      else if \<not> contains ''{alias}'' (id_template o') then
        Some (PlainError (''utraque/discovery: alias id_template '' @ go_quote q (id_template o') @
          '' must contain {alias}''))
      else if \<not> passes_client_filter (render_template (id_template o')
                 \<lparr>tv_alias = ''probe'', tv_slug = ''probe'', tv_display = ''probe'', tv_effort = []\<rparr>) then
        Some (PlainError (''utraque/discovery: alias id_template '' @ go_quote q (id_template o') @
          '' renders ids that fail the client's /(claude|anthropic)/i filter, so no Codex model would ever reach the picker''))
      else None)"

section \<open>Rows\<close>

record picker_row =
  row_id :: string
  row_display :: string
  row_type :: string
  row_created :: string

definition deepseek_picker_models :: "(picker_row \<times> picker_route) list" where
  "deepseek_picker_models =
     map (\<lambda>m. (\<lparr>row_id = anthropic_compat_prefix @ dm_id m, row_display = dm_display_name m,
                 row_type = ModelType, row_created = []\<rparr>,
               \<lparr>pr_backend = DeepSeek, pr_upstream = dm_id m, pr_effort = []\<rparr>)) ds_models"

definition order_aliases :: "string list \<Rightarrow> string list" where
  "order_aliases names = sort_key (\<lambda>n. (length n, n)) names"

definition codex_row ::
  "string \<Rightarrow> string \<Rightarrow> string \<Rightarrow> string \<Rightarrow> string \<Rightarrow> string \<Rightarrow> picker_row \<times> picker_route" where
  "codex_row id_tmpl display_tmpl name slug display lvl =
     (let vars = \<lparr>tv_alias = name, tv_slug = slug, tv_display = display, tv_effort = lvl\<rparr> in
      (\<lparr>row_id = render_template id_tmpl vars, row_display = render_template display_tmpl vars,
        row_type = ModelType, row_created = []\<rparr>,
       \<lparr>pr_backend = Codex, pr_upstream = slug, pr_effort = lvl\<rparr>))"

text \<open>The eligible models, each under its slug, the first of each slug; then in their order.\<close>

definition eligible_models ::
  "(string \<Rightarrow> string) \<Rightarrow> discovery_options \<Rightarrow> listed_model list \<Rightarrow> (string \<times> listed_model) list" where
  "eligible_models u o' ms =
     foldl (\<lambda>acc m.
         let slug = to_lower u (trim_space (cm_slug m)) in
         if slug = [] \<or> (\<not> listed m \<and> \<not> do_include_hidden o') \<or> slug \<in> set (map fst acc) then acc
         else acc @ [(slug, m)])
       [] ms"

definition order_models :: "(string \<times> listed_model) list \<Rightarrow> (string \<times> listed_model) list" where
  "order_models ms = sort_key (\<lambda>(slug, m). (- lm_priority m, slug)) ms"

definition derived_names :: "registry \<Rightarrow> string \<Rightarrow> string list" where
  "derived_names reg slug =
     map (\<lambda>(s, t, n). n) (filter (\<lambda>(s, t, n). t \<noteq> TierRaw \<and> s = slug) (alias_list reg))"

definition row_names :: "discovery_options \<Rightarrow> registry \<Rightarrow> string \<Rightarrow> string list" where
  "row_names o' reg slug =
     (if alias_strategy o' = AliasRaw then [slug]
      else let names = order_aliases (derived_names reg slug) in if names = [] then [slug] else names)"

text \<open>The rows of one name: the name itself, then its variants by effort, if they are wanted.\<close>

definition name_rows ::
  "(string \<Rightarrow> string) \<Rightarrow> discovery_options \<Rightarrow> string \<Rightarrow> listed_model \<Rightarrow> string \<Rightarrow> (picker_row \<times> picker_route) list" where
  "name_rows u o' slug m name =
     (let display = (if lm_display m = [] then slug else lm_display m);
          row = codex_row (id_template o') (display_template o')
      in row name slug display [] #
         (if alias_strategy o' \<noteq> AliasEffortVariants then []
          else map (\<lambda>tok. row (name @ ''-'' @ tok) slug display tok)
                 (filter (\<lambda>tok. tok \<noteq> [] \<and> known_level (to_lower u tok))
                   (supported_efforts (catalog_model.truncate m)))))"

definition codex_rows ::
  "(string \<Rightarrow> string) \<Rightarrow> discovery_options \<Rightarrow> registry \<Rightarrow> listed_model list \<Rightarrow> (picker_row \<times> picker_route) list" where
  "codex_rows u o' reg ms =
     (if alias_strategy o' = AliasOff \<or> ms = [] then []
      else concat (map (\<lambda>(slug, m). concat (map (name_rows u o' slug m) (row_names o' reg slug)))
             (order_models (eligible_models u o' ms))))"

section \<open>The merge\<close>

text \<open>\<^verbatim>\<open>anthropicModels\<close>: the upstream read is an error or a list.\<close>

definition merge_static :: "(string \<Rightarrow> string) \<Rightarrow> anth_model list \<Rightarrow> anth_model list \<Rightarrow> anth_model list" where
  "merge_static u static upstream =
     (let out = filter (\<lambda>m. trim_space (an_id m) \<noteq> []) upstream;
          seen = map (\<lambda>m. to_lower u (an_id m)) out
      in out @ filter (\<lambda>m. to_lower u (an_id m) \<notin> set seen) static)"

definition anthropic_models ::
  "(string \<Rightarrow> string) \<Rightarrow> discovery_options \<Rightarrow> go_error + anth_model list \<Rightarrow> anth_model list" where
  "anthropic_models u o' upstream =
     (if catalog_mode o' = CatalogModeStatic \<or> \<not> do_anthropic o' then static_models o'
      else case upstream of
        Inl _ \<Rightarrow> if catalog_mode o' = CatalogModeUpstream then [] else static_models o'
      | Inr ms \<Rightarrow> if catalog_mode o' = CatalogModeUpstream then ms else merge_static u (static_models o') ms)"

definition codex_models :: "discovery_options \<Rightarrow> go_error + listed_model list \<Rightarrow> listed_model list" where
  "codex_models o' catalog =
     (if \<not> do_codex o' \<or> alias_strategy o' = AliasOff then []
      else case catalog of Inl _ \<Rightarrow> [] | Inr ms \<Rightarrow> ms)"

text \<open>The variables of \<^verbatim>\<open>Models\<close> and its closure \<^verbatim>\<open>add\<close>.\<close>

record merge_state =
  mg_rows :: "picker_row list"
  mg_routes :: "(string \<times> picker_route) list"
  mg_seen :: "string list"

definition row_key :: "(string \<Rightarrow> string) \<Rightarrow> string \<Rightarrow> string" where
  "row_key u i = to_lower u (trim_space i)"

definition finish_row :: "picker_row \<Rightarrow> picker_row" where
  "finish_row m =
     (let m = (if row_type m = [] then m\<lparr>row_type := ModelType\<rparr> else m)
      in if row_display m = [] then m\<lparr>row_display := trim_space (row_id m)\<rparr> else m)"

definition add_row :: "(string \<Rightarrow> string) \<Rightarrow> merge_state \<Rightarrow> picker_row \<times> picker_route option \<Rightarrow> merge_state" where
  "add_row u s mr =
     (case mr of (m, route) \<Rightarrow>
        let i = trim_space (row_id m); key = row_key u (row_id m) in
        if i = [] \<or> key \<in> set (mg_seen s) \<or> \<not> passes_client_filter i then s
        else \<lparr>mg_rows = mg_rows s @ [finish_row m],
              mg_routes = (case route of None \<Rightarrow> mg_routes s | Some r \<Rightarrow> mg_routes s @ [(key, r)]),
              mg_seen = key # mg_seen s\<rparr>)"

definition base_row :: "anth_model \<Rightarrow> picker_row" where
  "base_row m = \<lparr>row_id = an_id m, row_display = (if an_display m = [] then an_id m else an_display m),
                 row_type = an_type m, row_created = an_created m\<rparr>"

text \<open>The rows in the order in which they are added.\<close>

definition offered_rows ::
  "(string \<Rightarrow> string) \<Rightarrow> discovery_options \<Rightarrow> registry \<Rightarrow> go_error + anth_model list \<Rightarrow>
   go_error + listed_model list \<Rightarrow> (picker_row \<times> picker_route option) list" where
  "offered_rows u o' reg upstream catalog =
     map (\<lambda>m. (base_row m, None)) (anthropic_models u o' upstream) @
     (if do_deepseek o' then map (\<lambda>(m, r). (m, Some r)) deepseek_picker_models else []) @
     map (\<lambda>(m, r). (m, Some r)) (codex_rows u o' reg (codex_models o' catalog))"

definition merge_rows :: "(string \<Rightarrow> string) \<Rightarrow> (picker_row \<times> picker_route option) list \<Rightarrow> merge_state" where
  "merge_rows u offered = foldl (add_row u) \<lparr>mg_rows = [], mg_routes = [], mg_seen = []\<rparr> offered"

record models_list =
  ml_data :: "picker_row list"
  ml_has_more :: bool
  ml_first :: string
  ml_last :: string

text \<open>\<^verbatim>\<open>Models\<close>. \<open>order\<close> is the order in which the map of routes is walked.\<close>

definition discovery_models ::
  "(string \<Rightarrow> string) \<Rightarrow> ((string \<times> picker_route) list \<Rightarrow> (string \<times> picker_route) list) \<Rightarrow> discovery_options \<Rightarrow>
   go_error + anth_model list \<Rightarrow> go_error + listed_model list \<Rightarrow> registry \<Rightarrow> models_list \<times> registry" where
  "discovery_models u order o' upstream catalog reg =
     (let s = merge_rows u (offered_rows u o' reg upstream catalog); rows = mg_rows s in
      (\<lparr>ml_data = rows, ml_has_more = False,
        ml_first = (if rows = [] then [] else row_id (hd rows)),
        ml_last = (if rows = [] then [] else row_id (last rows))\<rparr>,
       set_picker_routes u (order (mg_routes s)) reg))"

section \<open>The handler\<close>

definition parse_limit :: "string \<Rightarrow> int" where
  "parse_limit raw =
     (if raw = [] then 0
      else case atoi raw of None \<Rightarrow> 0 | Some n \<Rightarrow> if n \<le> 0 then 0 else n)"

definition apply_limit :: "models_list \<Rightarrow> int \<Rightarrow> models_list" where
  "apply_limit resp limit =
     (if limit \<le> 0 \<or> int (length (ml_data resp)) \<le> limit then resp
      else let data = take (nat limit) (ml_data resp) in
        resp\<lparr>ml_data := data, ml_has_more := True, ml_last := row_id (last data)\<rparr>)"

text \<open>\<^verbatim>\<open>URL.Query().Get\<close>: a piece with a semicolon or a malformed escape does not count.\<close>

definition query_unescape :: "string \<Rightarrow> string option" where
  "query_unescape s = path_unescape (map (\<lambda>c. if c = CHR ''+'' then CHR '' '' else c) s)"

definition query_pair :: "string \<Rightarrow> (string \<times> string) option" where
  "query_pair piece =
     (if piece = [] \<or> CHR '';'' \<in> set piece then None
      else
        case (query_unescape (takeWhile (\<lambda>c. c \<noteq> CHR ''='') piece),
              query_unescape (drop 1 (dropWhile (\<lambda>c. c \<noteq> CHR ''='') piece))) of
          (Some k, Some v) \<Rightarrow> Some (k, v)
        | _ \<Rightarrow> None)"

definition query_get :: "string \<Rightarrow> string \<Rightarrow> string" where
  "query_get key raw =
     (case map_of (List.map_filter query_pair (split_on CHR ''&'' raw)) key of None \<Rightarrow> [] | Some v \<Rightarrow> v)"

definition empty_body :: string where
  "empty_body = ''{\"data\":[],\"has_more\":false}''"

text \<open>
  \<^verbatim>\<open>ServeHTTP\<close>: \<open>print\<close> encodes the list, which may fail. The registry is the one the router
  resolves with, so the handler returns what it left in it.
\<close>

definition models_answer ::
  "(models_list \<Rightarrow> go_error + string) \<Rightarrow> (string \<Rightarrow> string \<Rightarrow> go_error option) \<Rightarrow> inbound \<Rightarrow> models_list \<Rightarrow>
   writer \<Rightarrow> writer" where
  "models_answer print accepts r resp w =
     (let body = (case print (apply_limit resp (parse_limit (query_get ''limit'' (ib_query r)))) of
                    Inl _ \<Rightarrow> empty_body
                  | Inr b \<Rightarrow> b) @ [CHR 0x0A];
          w = write_header 200
                (set_header ''Content-Length'' (itoa (int (length body)))
                  (set_header ''X-Content-Type-Options'' ''nosniff''
                    (set_header ''Cache-Control'' ''no-store''
                      (set_header ''Content-Type'' ''application/json'' w))))
      in if ib_method r = ''HEAD'' then w else snd (write_body accepts body w))"

definition serve_models ::
  "(string \<Rightarrow> string) \<Rightarrow> ((string \<times> picker_route) list \<Rightarrow> (string \<times> picker_route) list) \<Rightarrow> discovery_options \<Rightarrow>
   (models_list \<Rightarrow> go_error + string) \<Rightarrow> (string \<Rightarrow> string \<Rightarrow> go_error option) \<Rightarrow>
   go_error + anth_model list \<Rightarrow> go_error + listed_model list \<Rightarrow> registry \<Rightarrow> inbound \<Rightarrow> writer \<Rightarrow> writer \<times> registry" where
  "serve_models u order o' print accepts upstream catalog reg r w =
     (if ib_method r \<noteq> ''GET'' \<and> ib_method r \<noteq> ''HEAD'' then
        (snd (write_body accepts (empty_body @ [CHR 0x0A])
           (write_header 405
             (set_header ''X-Content-Type-Options'' ''nosniff''
               (set_header ''Content-Type'' ''application/json''
                 (set_header ''Allow'' ''GET, HEAD'' w))))), reg)
      else
        (case discovery_models u order o' upstream catalog reg of
           (resp, reg) \<Rightarrow> (models_answer print accepts r resp w, reg)))"

end
