(* ===== verification/DiscoveryProps.thy ===== *)
theory DiscoveryProps
  imports Discovery "HOL-Library.Multiset"
begin

text \<open>
  What the picker relies on: no row is offered twice or dropped by the client, and every
  row that discovery gives a route leads to it when it is picked.
\<close>

section \<open>The merge\<close>

lemma finish_row_id [simp]: "row_id (finish_row m) = row_id m"
  by (simp add: finish_row_def Let_def)

definition row_keys :: "(string \<Rightarrow> string) \<Rightarrow> picker_row list \<Rightarrow> string list" where
  "row_keys u rows = map (\<lambda>m. row_key u (row_id m)) rows"

text \<open>A row that was kept, and what is registered under its key.\<close>

definition kept_row ::
  "(string \<Rightarrow> string) \<Rightarrow> (picker_row \<times> picker_route option) list \<Rightarrow> (string \<times> picker_route) list \<Rightarrow> picker_row \<Rightarrow> bool" where
  "kept_row u offered routes row \<longleftrightarrow>
     trim_space (row_id row) \<noteq> [] \<and> passes_client_filter (trim_space (row_id row)) \<and>
     row_type row \<noteq> [] \<and> row_display row \<noteq> [] \<and>
     (\<exists>m ro. (m, ro) \<in> set offered \<and> row = finish_row m \<and> map_of routes (row_key u (row_id row)) = ro)"

definition merge_inv :: "(string \<Rightarrow> string) \<Rightarrow> (picker_row \<times> picker_route option) list \<Rightarrow> merge_state \<Rightarrow> bool" where
  "merge_inv u offered s \<longleftrightarrow>
     set (mg_seen s) = set (row_keys u (mg_rows s)) \<and> distinct (row_keys u (mg_rows s)) \<and>
     list_all (kept_row u offered (mg_routes s)) (mg_rows s) \<and>
     distinct (map fst (mg_routes s)) \<and> set (map fst (mg_routes s)) \<subseteq> set (mg_seen s) \<and>
     (\<forall>k r. (k, r) \<in> set (mg_routes s) \<longrightarrow> (\<exists>m. (m, Some r) \<in> set offered))"

lemma finish_row_full: "trim_space (row_id m) \<noteq> [] \<Longrightarrow> row_type (finish_row m) \<noteq> [] \<and> row_display (finish_row m) \<noteq> []"
  by (simp add: finish_row_def Let_def ModelType_def)

lemma map_of_snoc: "k \<notin> set (map fst kvs) \<Longrightarrow> map_of (kvs @ [(k, v)]) = (map_of kvs)(k \<mapsto> v)"
  by (induction kvs) auto

lemma add_row_inv:
  assumes "merge_inv u offered s" "(m, ro) \<in> set offered"
  shows "merge_inv u offered (add_row u s (m, ro))"
proof (cases "trim_space (row_id m) = [] \<or> row_key u (row_id m) \<in> set (mg_seen s) \<or>
    \<not> passes_client_filter (trim_space (row_id m))")
  case True
  with assms(1) show ?thesis by (simp add: add_row_def Let_def)
next
  case False
  let ?k = "row_key u (row_id m)"
  define routes where "routes = (case ro of None \<Rightarrow> mg_routes s | Some r \<Rightarrow> mg_routes s @ [(?k, r)])"
  have new: "?k \<notin> set (row_keys u (mg_rows s))" "?k \<notin> set (map fst (mg_routes s))"
    using False assms(1) by (auto simp: merge_inv_def)
  have look: "map_of routes = (case ro of None \<Rightarrow> map_of (mg_routes s) | Some r \<Rightarrow> (map_of (mg_routes s))(?k \<mapsto> r))"
    using map_of_snoc [OF new(2)] by (simp add: routes_def del: map_of_append split: option.split)
  have "map_of (mg_routes s) ?k = None" using new(2) by (simp add: map_of_eq_None_iff image_image)
  with look have here: "map_of routes ?k = ro" by (simp split: option.split)
  have same: "map_of routes (row_key u (row_id row)) = map_of (mg_routes s) (row_key u (row_id row))"
    if "row \<in> set (mg_rows s)" for row
  proof -
    have "row_key u (row_id row) \<in> set (row_keys u (mg_rows s))" using that by (simp add: row_keys_def)
    with new(1) have "row_key u (row_id row) \<noteq> ?k" by metis
    then show ?thesis by (simp add: look split: option.split)
  qed
  have "kept_row u offered routes (finish_row m)"
    using False finish_row_full [of m] assms(2) here unfolding kept_row_def by auto
  moreover have "list_all (kept_row u offered routes) (mg_rows s)"
    using assms(1) same unfolding merge_inv_def kept_row_def list_all_iff by simp
  moreover have "distinct (map fst routes) \<and> set (map fst routes) \<subseteq> insert ?k (set (mg_seen s)) \<and>
      (\<forall>k r. (k, r) \<in> set routes \<longrightarrow> (\<exists>m. (m, Some r) \<in> set offered))"
    using assms new(2) by (auto simp: routes_def merge_inv_def split: option.splits)
  moreover have "add_row u s (m, ro) =
      \<lparr>mg_rows = mg_rows s @ [finish_row m], mg_routes = routes, mg_seen = ?k # mg_seen s\<rparr>"
    using False by (simp add: add_row_def Let_def routes_def)
  ultimately show ?thesis
    using assms(1) new(1) by (simp add: merge_inv_def row_keys_def)
qed

lemma add_rows_inv:
  "merge_inv u offered s \<Longrightarrow> set rows \<subseteq> set offered \<Longrightarrow> merge_inv u offered (foldl (add_row u) s rows)"
proof (induction rows arbitrary: s)
  case (Cons a rows)
  obtain m ro where a: "a = (m, ro)" by fastforce
  with Cons.prems have "merge_inv u offered (add_row u s (m, ro))" by (auto intro: add_row_inv)
  with Cons a show ?case by simp
qed simp

lemma merge_rows_inv: "merge_inv u offered (merge_rows u offered)"
  unfolding merge_rows_def by (rule add_rows_inv) (simp_all add: merge_inv_def row_keys_def)

section \<open>Registration\<close>

lemma picker_loop_map_of:
  assumes "distinct (map fst rs)"
    and "\<And>k r. (k, r) \<in> set rs \<Longrightarrow> row_key u k = k \<and> k \<noteq> [] \<and> valid_leg (pr_backend r)"
  shows "picker_loop u rs acc k = (case map_of rs k of Some r \<Rightarrow> Some r | None \<Rightarrow> acc k)"
  using assms
proof (induction rs arbitrary: acc)
  case (Cons a rs)
  obtain k' r' where a: "a = (k', r')" by fastforce
  have "row_key u k' = k'" "k' \<noteq> []" "valid_leg (pr_backend r')" using Cons.prems(2) [of k' r'] a by auto
  moreover have "map_of rs k' = None" using Cons.prems(1) a by (simp add: map_of_eq_None_iff)
  moreover have "picker_loop u rs (acc(k' \<mapsto> r')) k =
      (case map_of rs k of Some r \<Rightarrow> Some r | None \<Rightarrow> (acc(k' \<mapsto> r')) k)"
    by (rule Cons.IH) (use Cons.prems in auto)
  ultimately show ?case
    by (auto simp: a row_key_def Let_def split: option.split)
qed simp

lemma map_of_order:
  assumes "mset rs' = mset rs" "distinct (map fst rs)"
  shows "map_of rs' = map_of rs \<and> distinct (map fst rs') \<and> set rs' = set rs"
proof -
  have m: "mset (map fst rs') = mset (map fst rs)" using assms(1) by simp
  then have d: "distinct (map fst rs')" using assms(2) mset_eq_imp_distinct_iff by blast
  moreover have s: "set rs' = set rs" using assms(1) by (rule mset_eq_setD)
  moreover have "map_of rs' k = map_of rs k" for k
  proof (cases "map_of rs k")
    case None
    with s have "map_of rs' k = None" by (simp add: map_of_eq_None_iff)
    with None show ?thesis by simp
  qed (use d assms(2) s in simp)
  ultimately show ?thesis by blast
qed

lemma offered_routes_valid: "(m, Some r) \<in> set (offered_rows u o' reg upstream catalog) \<Longrightarrow> pr_backend r = Codex \<or> pr_backend r = DeepSeek"
  by (auto simp: offered_rows_def deepseek_picker_models_def codex_rows_def name_rows_def codex_row_def Let_def
      split: if_splits)

text \<open>An id that reads the same once it was lowered and trimmed, as every one does in ASCII.\<close>

definition stable_id :: "(string \<Rightarrow> string) \<Rightarrow> string \<Rightarrow> bool" where
  "stable_id u i \<longleftrightarrow> row_key u i \<noteq> [] \<and> row_key u (row_key u i) = row_key u i"

text \<open>The registry that an answer leaves behind, as a map from keys to routes.\<close>

lemma registered_routes:
  assumes "\<And>rs. mset (order rs) = mset rs" "s = merge_rows u (offered_rows u o' reg upstream catalog)"
    and "list_all (\<lambda>row. stable_id u (row_id row)) (mg_rows s)"
  shows "the_picker_route (set_picker_routes u (order (mg_routes s)) reg) k = map_of (mg_routes s) k"
    and "map_of (mg_routes s) k = Some r \<Longrightarrow> k \<noteq> [] \<and> pr_backend r \<noteq> Anthropic"
proof -
  let ?offered = "offered_rows u o' reg upstream catalog"
  note inv = merge_rows_inv [of u ?offered, folded assms(2), unfolded merge_inv_def]
  have ord: "map_of (order (mg_routes s)) = map_of (mg_routes s)" "distinct (map fst (order (mg_routes s)))"
      "set (order (mg_routes s)) = set (mg_routes s)"
    using map_of_order [of "order (mg_routes s)" "mg_routes s"] assms(1) inv by blast+
  have keys: "row_key u k = k \<and> k \<noteq> [] \<and> valid_leg (pr_backend r) \<and> pr_backend r \<noteq> Anthropic"
    if kr: "(k, r) \<in> set (mg_routes s)" for k r
  proof -
    from kr have "k \<in> set (row_keys u (mg_rows s))" using inv by force
    obtain m where "(m, Some r) \<in> set ?offered" using inv kr by blast
    then have "valid_leg (pr_backend r) \<and> pr_backend r \<noteq> Anthropic"
      using offered_routes_valid by (fastforce simp: valid_leg_def)
    moreover obtain row1 where "row1 \<in> set (mg_rows s)" "k = row_key u (row_id row1)"
      using \<open>k \<in> set (row_keys u (mg_rows s))\<close> by (auto simp: row_keys_def)
    ultimately show ?thesis using assms(3) by (auto simp: list_all_iff stable_id_def)
  qed
  show "the_picker_route (set_picker_routes u (order (mg_routes s)) reg) k = map_of (mg_routes s) k"
    using picker_loop_map_of [of "order (mg_routes s)" u Map.empty k] ord keys
    by (simp add: the_picker_route_def set_picker_routes_def split: option.split)
  show "k \<noteq> [] \<and> pr_backend r \<noteq> Anthropic" if "map_of (mg_routes s) k = Some r"
    using map_of_SomeD [OF that] keys by blast
qed

text \<open>What a name resolves to, by the route of its key.\<close>

lemma routed_name_resolves:
  assumes "the_picker_route reg k = Some route" "k = row_key u name" "k \<noteq> []" "pr_backend route \<noteq> Anthropic"
  shows "resolve_with u q def (Some reg) name beta =
    Inr \<lparr>dc_backend = pr_backend route, dc_upstream = pr_upstream route, dc_client = trim_space name,
         dc_effort = pr_effort route, dc_source = (if pr_effort route \<noteq> [] then SourceSuffix else SourceNone)\<rparr>"
  using assms by (simp add: resolve_with_def resolve_tiers_def resolve_picker_def row_key_def Let_def)

lemma unrouted_name_resolves:
  assumes "the_picker_route reg k = None" "k = row_key u name"
    and "is_anthropic_name k" "\<not> prefix anthropic_compat_prefix k"
  shows "resolve_with u q def (Some reg) name beta =
    Inr \<lparr>dc_backend = Anthropic, dc_upstream = [], dc_client = trim_space name, dc_effort = [], dc_source = SourceNone\<rparr>"
proof -
  have "k \<noteq> []" using assms(3) by (auto simp: is_anthropic_name_def anthropic_prefixes_def)
  with assms show ?thesis
    by (auto simp: resolve_with_def resolve_tiers_def resolve_picker_def cut_prefix_def row_key_def Let_def)
qed

text \<open>
  Property (C9): a picked row goes where the picker said. Once discovery has answered, the id of
  every row that it gave a route, sent back as it was shown, resolves to that route, the
  back end, the model and the effort, in whatever order the routes were registered; a
  route of an earlier answer is gone. A row of Anthropic's is never captured by a route, and
  goes to Anthropic if its name is one of a Claude family.
\<close>

theorem picked_rows_route:
  assumes "\<And>rs. mset (order rs) = mset rs"
    and "discovery_models u order o' upstream catalog reg = (resp, reg')"
    and "list_all (\<lambda>row. stable_id u (row_id row)) (ml_data resp)"
    and "row \<in> set (ml_data resp)"
  shows "\<exists>m ro. (m, ro) \<in> set (offered_rows u o' reg upstream catalog) \<and> row = finish_row m \<and>
    (case ro of
       Some route \<Rightarrow>
         resolve_with u q def (Some reg') (row_id row) beta =
           Inr \<lparr>dc_backend = pr_backend route, dc_upstream = pr_upstream route, dc_client = trim_space (row_id row),
                dc_effort = pr_effort route, dc_source = (if pr_effort route \<noteq> [] then SourceSuffix else SourceNone)\<rparr>
     | None \<Rightarrow>
         the_picker_route reg' (row_key u (row_id row)) = None \<and>
         (is_anthropic_name (row_key u (row_id row)) \<and> \<not> prefix anthropic_compat_prefix (row_key u (row_id row)) \<longrightarrow>
            resolve_with u q def (Some reg') (row_id row) beta =
              Inr \<lparr>dc_backend = Anthropic, dc_upstream = [], dc_client = trim_space (row_id row),
                   dc_effort = [], dc_source = SourceNone\<rparr>))"
proof -
  define s where "s = merge_rows u (offered_rows u o' reg upstream catalog)"
  have data: "ml_data resp = mg_rows s" and reg': "reg' = set_picker_routes u (order (mg_routes s)) reg"
    using assms(2) by (auto simp: discovery_models_def s_def Let_def)
  note routes = registered_routes [OF assms(1) s_def assms(3) [unfolded data], folded reg']
  have "kept_row u (offered_rows u o' reg upstream catalog) (mg_routes s) row"
    using merge_rows_inv [of u "offered_rows u o' reg upstream catalog", folded s_def] assms(4)
    by (simp add: data list_all_iff merge_inv_def)
  then obtain m ro where m: "(m, ro) \<in> set (offered_rows u o' reg upstream catalog)" "row = finish_row m"
      "map_of (mg_routes s) (row_key u (row_id row)) = ro"
    by (auto simp: kept_row_def)
  show ?thesis
  proof (cases ro)
    case None
    with m routes(1) have "the_picker_route reg' (row_key u (row_id row)) = None" by simp
    with m None unrouted_name_resolves [OF this refl] show ?thesis by fastforce
  next
    case (Some route)
    with m routes(1) have "the_picker_route reg' (row_key u (row_id row)) = Some route" by simp
    from routed_name_resolves [OF this refl] routes(2) m Some show ?thesis by fastforce
  qed
qed

section \<open>The list\<close>

lemma add_row_seen: "set (mg_seen s) \<subseteq> set (mg_seen (add_row u s a))"
  by (cases a) (auto simp: add_row_def Let_def)

lemma add_rows_seen: "set (mg_seen s) \<subseteq> set (mg_seen (foldl (add_row u) s rows))"
proof (induction rows arbitrary: s)
  case (Cons a rows)
  show ?case using add_row_seen [of s u a] Cons.IH [of "add_row u s a"] by auto
qed simp

lemma add_rows_all:
  assumes "(m, ro) \<in> set rows" "trim_space (row_id m) \<noteq> []" "passes_client_filter (trim_space (row_id m))"
  shows "row_key u (row_id m) \<in> set (mg_seen (foldl (add_row u) s rows))"
  using assms(1)
proof (induction rows arbitrary: s)
  case (Cons a rows)
  show ?case
  proof (cases "a = (m, ro)")
    case True
    have "row_key u (row_id m) \<in> set (mg_seen (add_row u s (m, ro)))"
      using assms(2,3) by (simp add: add_row_def Let_def split: option.split)
    with add_rows_seen [of "add_row u s (m, ro)" u rows] True show ?thesis by auto
  next
    case False
    with Cons show ?thesis by simp
  qed
qed simp

lemma apply_limit_cases:
  "apply_limit resp limit =
     (if 0 < limit \<and> limit < int (length (ml_data resp))
      then resp\<lparr>ml_data := take (nat limit) (ml_data resp), ml_has_more := True,
                ml_last := row_id (last (take (nat limit) (ml_data resp)))\<rparr>
      else resp)"
  by (auto simp: apply_limit_def Let_def)

text \<open>
  Property (C29): the picker shows a clean list and the whole of it. The rows that are served have
  distinct ids, up to case and surrounding blanks, each one passes the client's own filter and has a type and a
  label, and the cursor fields tell the truth about them; without a limit, no row that was offered is missing
  whose id the client would keep.
\<close>

theorem picker_list_wellformed:
  assumes "discovery_models u order o' upstream catalog reg = (resp, reg')"
  shows "distinct (map (\<lambda>row. row_key u (row_id row)) (ml_data (apply_limit resp limit))) \<and>
    list_all (\<lambda>row. passes_client_filter (trim_space (row_id row)) \<and> row_type row \<noteq> [] \<and> row_display row \<noteq> [])
      (ml_data (apply_limit resp limit)) \<and>
    (ml_has_more (apply_limit resp limit) \<longleftrightarrow> length (ml_data (apply_limit resp limit)) < length (ml_data resp)) \<and>
    (if ml_data (apply_limit resp limit) = [] then ml_data resp = []
     else ml_first (apply_limit resp limit) = row_id (hd (ml_data (apply_limit resp limit))) \<and>
          ml_last (apply_limit resp limit) = row_id (last (ml_data (apply_limit resp limit)))) \<and>
    (\<forall>(m, ro) \<in> set (offered_rows u o' reg upstream catalog).
       trim_space (row_id m) \<noteq> [] \<and> passes_client_filter (trim_space (row_id m)) \<longrightarrow>
       row_key u (row_id m) \<in> (\<lambda>row. row_key u (row_id row)) ` set (ml_data resp))"
proof -
  let ?offered = "offered_rows u o' reg upstream catalog" and ?l = "apply_limit resp limit"
  define s where "s = merge_rows u ?offered"
  have data: "ml_data resp = mg_rows s" and more: "\<not> ml_has_more resp"
    and ends: "ml_data resp \<noteq> [] \<Longrightarrow> ml_first resp = row_id (hd (ml_data resp)) \<and> ml_last resp = row_id (last (ml_data resp))"
    using assms by (auto simp: discovery_models_def s_def Let_def)
  note inv = merge_rows_inv [of u ?offered, folded s_def, unfolded merge_inv_def]
  have lim: "ml_data ?l = ml_data resp \<or> (\<exists>n. ml_data ?l = take n (ml_data resp))"
    by (auto simp: apply_limit_cases)
  have "distinct (map (\<lambda>row. row_key u (row_id row)) (ml_data ?l))"
    using lim inv by (auto simp: data row_keys_def take_map [symmetric] simp del: distinct_map)
  moreover have "list_all (\<lambda>row. passes_client_filter (trim_space (row_id row)) \<and> row_type row \<noteq> [] \<and> row_display row \<noteq> [])
      (ml_data ?l)"
  proof -
    have "set (ml_data ?l) \<subseteq> set (mg_rows s)" using lim set_take_subset by (metis data order_refl)
    with inv show ?thesis unfolding list_all_iff kept_row_def by blast
  qed
  moreover have "ml_has_more ?l \<longleftrightarrow> length (ml_data ?l) < length (ml_data resp)"
    using more by (auto simp: apply_limit_cases)
  moreover have "if ml_data ?l = [] then ml_data resp = []
     else ml_first ?l = row_id (hd (ml_data ?l)) \<and> ml_last ?l = row_id (last (ml_data ?l))"
    using ends by (auto simp: apply_limit_cases)
  moreover have "row_key u (row_id m) \<in> (\<lambda>row. row_key u (row_id row)) ` set (ml_data resp)"
    if "(m, ro) \<in> set ?offered" "trim_space (row_id m) \<noteq> [] \<and> passes_client_filter (trim_space (row_id m))" for m ro
  proof -
    have "row_key u (row_id m) \<in> set (mg_seen s)"
      using add_rows_all [of m ro ?offered u] that unfolding s_def merge_rows_def by blast
    with inv show ?thesis by (simp add: data row_keys_def)
  qed
  ultimately show ?thesis by blast
qed

section \<open>A picker with one model\<close>

definition demo_discovery :: discovery_options where
  "demo_discovery = \<lparr>do_mode = CatalogModeStatic, do_anthropic = False, do_static = Some [], do_codex = True,
     do_deepseek = False, do_strategy = AliasRaw, do_id_template = [], do_display_template = [],
     do_include_hidden = False\<rparr>"

definition demo_listed :: listed_model where
  "demo_listed = \<lparr>cm_slug = ''gpt-5.6-sol'', cm_default_level = [], cm_default_summary = [], cm_levels = [],
     lm_display = ''Sol'', lm_visibility = ''list'', lm_priority = 1\<rparr>"

lemmas discovery_option_defs =
  demo_discovery_def catalog_mode_def static_models_def alias_strategy_def id_template_def display_template_def
  CatalogModeStatic_def CatalogModeMerge_def CatalogModeUpstream_def AliasRaw_def AliasOff_def
  AliasEffortVariants_def AliasTemplate_def DefaultIDTemplate_def DefaultDisplayTemplate_def

lemma demo_slug: "trim_space ''gpt-5.6-sol'' = ''gpt-5.6-sol''" "to_lower u ''gpt-5.6-sol'' = ''gpt-5.6-sol''"
  "trim_space ''anthropic-compat.gpt-5.6-sol'' = ''anthropic-compat.gpt-5.6-sol''"
  "to_lower u ''anthropic-compat.gpt-5.6-sol'' = ''anthropic-compat.gpt-5.6-sol''"
  by (simp_all add: trim_space_graphic graphic_def to_lower_lower_ascii lower_ascii_def)

definition demo_picked :: "picker_row \<times> picker_route" where
  "demo_picked = (\<lparr>row_id = ''anthropic-compat.gpt-5.6-sol'', row_display = ''Sol (gpt-5.6-sol)'',
      row_type = ModelType, row_created = []\<rparr>,
     \<lparr>pr_backend = Codex, pr_upstream = ''gpt-5.6-sol'', pr_effort = []\<rparr>)"

lemma demo_codex_rows: "codex_rows u demo_discovery reg [demo_listed] = [demo_picked]"
  by (simp add: codex_rows_def discovery_option_defs eligible_models_def demo_listed_def demo_slug listed_def
      VisibilityList_def order_models_def row_names_def name_rows_def codex_row_def render_template_def
      placeholders_def demo_picked_def Let_def)

lemma demo_offered:
  "offered_rows u demo_discovery reg (Inr []) (Inr [demo_listed]) = [(fst demo_picked, Some (snd demo_picked))]"
  by (simp add: offered_rows_def anthropic_models_def codex_models_def demo_codex_rows [unfolded demo_picked_def]
      demo_picked_def) (simp add: discovery_option_defs)

lemma demo_models:
  "discovery_models u id demo_discovery (Inr []) (Inr [demo_listed]) reg =
     (\<lparr>ml_data = [fst demo_picked], ml_has_more = False, ml_first = ''anthropic-compat.gpt-5.6-sol'',
       ml_last = ''anthropic-compat.gpt-5.6-sol''\<rparr>,
      set_picker_routes u [(''anthropic-compat.gpt-5.6-sol'', snd demo_picked)] reg)"
  by (simp add: discovery_models_def demo_offered merge_rows_def add_row_def Let_def demo_picked_def row_key_def
      demo_slug finish_row_def ModelType_def passes_client_filter_def lower_char_def)

theorem picked_rows_route_witness:
  "resolve_with id id new_registry
     (Some (set_picker_routes id [(''anthropic-compat.gpt-5.6-sol'', snd demo_picked)] new_registry))
     ''anthropic-compat.gpt-5.6-sol'' [] =
   Inr \<lparr>dc_backend = Codex, dc_upstream = ''gpt-5.6-sol'', dc_client = ''anthropic-compat.gpt-5.6-sol'',
        dc_effort = [], dc_source = SourceNone\<rparr>"
  using picked_rows_route [OF _ demo_models [of id new_registry], where row = "fst demo_picked" and q = id
      and def = new_registry and beta = "[]"]
  by (auto simp: demo_offered stable_id_def row_key_def demo_picked_def demo_slug)

theorem picker_list_wellformed_witness:
  "ml_has_more (apply_limit \<lparr>ml_data = [fst demo_picked], ml_has_more = False,
       ml_first = ''anthropic-compat.gpt-5.6-sol'', ml_last = ''anthropic-compat.gpt-5.6-sol''\<rparr> 1) = False"
  using picker_list_wellformed [OF demo_models [of id new_registry], where limit = 1] by (simp add: apply_limit_def)

text \<open>
  The filter of the client is an unanchored search, the router looks at the beginning of a name: a row of
  Anthropic's that passes the one may be refused by the other, and no route is registered for it.
\<close>

lemma foreign_row_refused:
  "passes_client_filter ''eu.anthropic.claude-x'' \<and>
   (\<exists>e. resolve_with id id new_registry (Some new_registry) ''eu.anthropic.claude-x'' [] = Inl e)"
proof -
  have t: "trim_space ''eu.anthropic.claude-x'' = ''eu.anthropic.claude-x''"
    "to_lower id ''eu.anthropic.claude-x'' = ''eu.anthropic.claude-x''"
    by (simp_all add: trim_space_graphic graphic_def to_lower_lower_ascii lower_ascii_def)
  have "passes_client_filter ''eu.anthropic.claude-x''" by (simp add: passes_client_filter_def lower_char_def)
  moreover have "resolve_tiers new_registry ''eu.anthropic.claude-x'' c = None" for c
    by (simp add: resolve_tiers_def resolve_picker_def resolve_codex_def resolve_deepseek_def resolve_gpt_slug_def
        the_picker_route_def new_registry_def resolve_def cut_prefix_def anthropic_compat_prefix_def
        is_anthropic_name_def anthropic_prefixes_def parse_effort_suffix_def known_level_iff level_defs
        canonical_def ds_lookup_def ds_models_def ds_catalog_def)
  ultimately show ?thesis by (simp add: resolve_with_def t Let_def)
qed

end
