(* ===== verification/CatalogProps.thy ===== *)
theory CatalogProps
  imports Catalog
begin

text \<open>
  The catalog client as a process that lives, fetches and is restarted: the list that it
  holds was served for the version that it is held under. The loader of aliases follows
  the list.
\<close>

section \<open>The world of a client\<close>

text \<open>\<open>cw_served\<close> remembers what the backend ever listed: for which version, with which validator.\<close>

record catalog_world =
  cw_client :: catalog_client
  cw_file :: "disk_cache option"
  cw_now :: int
  cw_flight :: "catalog_flight option"
  cw_served :: "(string \<times> string \<times> listed_model list) set"

definition listing ::
  "(string \<Rightarrow> go_error + listed_model list) \<Rightarrow> catalog_flight \<Rightarrow> catalog_reply \<Rightarrow> (string \<times> string \<times> listed_model list) set" where
  "listing decode f reply =
     (case reply of
        Replied st h (Inr s) \<Rightarrow>
          (if st = 200 then (case decode s of Inr ms \<Rightarrow> {(fl_version f, header_get h ''ETag'', ms)} | Inl _ \<Rightarrow> {}) else {})
      | _ \<Rightarrow> {})"

inductive catalog_step ::
  "(string \<Rightarrow> string) \<Rightarrow> (string \<Rightarrow> go_error + listed_model list) \<Rightarrow> catalog_world \<Rightarrow> catalog_world \<Rightarrow> bool"
  for q decode where
  tick: "cw_now w \<le> n \<Longrightarrow> catalog_step q decode w (w\<lparr>cw_now := n\<rparr>)"
| load: "catalog_step q decode w (w\<lparr>cw_client := ensure_disk_loaded (cw_now w) (cw_file w) (cw_client w)\<rparr>)"
| fetch_begins: "cw_flight w = None \<Longrightarrow>
     begin_fetch answer (ensure_disk_loaded (cw_now w) (cw_file w) (cw_client w)) = (f, c) \<Longrightarrow>
     catalog_step q decode w (w\<lparr>cw_client := c, cw_flight := Some f\<rparr>)"
| fetch_ends: "cw_flight w = Some f \<Longrightarrow>
     finish_fetch q decode (cw_now w) f reply saved (cw_client w, cw_file w) = (res, c, file) \<Longrightarrow>
     catalog_step q decode w (w\<lparr>cw_client := c, cw_file := file, cw_flight := None,
       cw_served := cw_served w \<union> listing decode f reply\<rparr>)"
| restart: "co_cache_file co = ct_cache_file (cw_client w) \<Longrightarrow>
     catalog_step q decode w (w\<lparr>cw_client := new_catalog_client co, cw_flight := None, cw_now := n\<rparr>)"

inductive catalog_reach ::
  "(string \<Rightarrow> string) \<Rightarrow> (string \<Rightarrow> go_error + listed_model list) \<Rightarrow> catalog_world \<Rightarrow> bool" for q decode where
  reach_init: "catalog_reach q decode
     \<lparr>cw_client = new_catalog_client co, cw_file = None, cw_now = n, cw_flight = None, cw_served = {}\<rparr>"
| reach_step: "catalog_reach q decode w \<Longrightarrow> catalog_step q decode w w' \<Longrightarrow> catalog_reach q decode w'"

inductive_cases catalog_stepE: "catalog_step q decode w w'"

section \<open>The invariant\<close>

text \<open>A list was served with this validator for this version, or for none that was known.\<close>

definition honest ::
  "(string \<times> string \<times> listed_model list) set \<Rightarrow> string \<Rightarrow> string \<Rightarrow> listed_model list \<Rightarrow> bool" where
  "honest served v etag ms \<longleftrightarrow> (\<exists>v'. (v', etag, ms) \<in> served \<and> (v = v' \<or> v' = []))"

definition snapshot_ok :: "(string \<times> string \<times> listed_model list) set \<Rightarrow> int \<Rightarrow> snapshot \<Rightarrow> bool" where
  "snapshot_ok served now st \<longleftrightarrow>
     (if sn_loaded st
      then honest served (sn_version st) (sn_etag st) (sn_models st) \<and> sn_fetched st \<le> now + max_clock_skew
      else st = no_snapshot)"

definition file_ok :: "(string \<times> string \<times> listed_model list) set \<Rightarrow> disk_cache option \<Rightarrow> bool" where
  "file_ok served file \<longleftrightarrow>
     (case file of None \<Rightarrow> True | Some k \<Rightarrow> honest served (kc_version k) (kc_etag k) (kc_models k))"

definition flight_ok :: "catalog_client \<Rightarrow> catalog_flight option \<Rightarrow> bool" where
  "flight_ok c flight \<longleftrightarrow>
     (case flight of
        None \<Rightarrow> True
      | Some f \<Rightarrow>
          ct_disk_tried c \<and> fl_prev f = ct_st c \<and>
          (fl_etag f = [] \<or> fl_etag f = sn_etag (ct_st c) \<and>
             \<not> (sn_loaded (ct_st c) \<and> versions_differ (sn_version (ct_st c)) (fl_version f))))"

definition catalog_inv :: "catalog_world \<Rightarrow> bool" where
  "catalog_inv w \<longleftrightarrow>
     snapshot_ok (cw_served w) (cw_now w) (ct_st (cw_client w)) \<and> file_ok (cw_served w) (cw_file w) \<and>
     flight_ok (cw_client w) (cw_flight w)"

lemma honest_mono: "honest A v e ms \<Longrightarrow> A \<subseteq> B \<Longrightarrow> honest B v e ms"
  by (auto simp: honest_def)

lemma ensure_loaded_ok:
  assumes "snapshot_ok served now (ct_st c)" "file_ok served file"
  shows "snapshot_ok served now (ct_st (ensure_disk_loaded now file c)) \<and> ct_disk_tried (ensure_disk_loaded now file c)"
  using assms
  by (auto simp: ensure_disk_loaded_def snapshot_ok_def file_ok_def honest_def Let_def versions_differ_def
      split: option.splits)

lemma ensure_loaded_again: "ct_disk_tried c \<Longrightarrow> ensure_disk_loaded now file c = c"
  by (simp add: ensure_disk_loaded_def)

lemma new_client_ok: "snapshot_ok served now (ct_st (new_catalog_client co))"
  by (simp add: new_catalog_client_def snapshot_ok_def no_snapshot_def)

lemma begin_fetch_ok:
  assumes "begin_fetch answer c = (f, c')" "ct_disk_tried c"
  shows "ct_st c' = ct_st c \<and> flight_ok c' (Some f)"
  using assms
  by (auto simp: begin_fetch_def resolve_client_version_def flight_ok_def Let_def split: option.splits if_splits)

text \<open>What a fetch that ends well brings: a list that was served, under its own version, and now.\<close>

lemma fetched_ok:
  assumes "fetched_snapshot q decode now f reply = Inr ns" "flight_ok c (Some f)"
    and "snapshot_ok served now0 (ct_st c)"
  shows "sn_loaded ns \<and> sn_fetched ns = now \<and> \<not> versions_differ (sn_version ns) (fl_version f) \<and>
    honest (served \<union> listing decode f reply) (sn_version ns) (sn_etag ns) (sn_models ns)"
proof (cases reply)
  case (Replied st h body)
  show ?thesis
  proof (cases "st = 304")
    case True
    with assms Replied show ?thesis
      by (auto simp: fetched_snapshot_def flight_ok_def snapshot_ok_def honest_def versions_differ_def
          split: if_splits)
  next
    case False
    with assms(1) Replied show ?thesis
      by (auto simp: fetched_snapshot_def listing_def honest_def versions_differ_def split: if_splits sum.splits)
  qed
qed (use assms(1) in \<open>simp_all add: fetched_snapshot_def\<close>)

lemma catalog_inv_step: "catalog_step q decode w w' \<Longrightarrow> catalog_inv w \<Longrightarrow> catalog_inv w'"
proof (induction rule: catalog_step.induct)
  case (tick w n)
  then show ?case by (auto simp: catalog_inv_def snapshot_ok_def)
next
  case (load w)
  then show ?case
    using ensure_loaded_ok [of "cw_served w" "cw_now w" "cw_client w" "cw_file w"]
    by (auto simp: catalog_inv_def flight_ok_def ensure_loaded_again split: option.splits)
next
  case (fetch_begins w answer f c)
  let ?c = "ensure_disk_loaded (cw_now w) (cw_file w) (cw_client w)"
  have "snapshot_ok (cw_served w) (cw_now w) (ct_st ?c) \<and> ct_disk_tried ?c"
    using fetch_begins.prems by (intro ensure_loaded_ok) (simp_all add: catalog_inv_def)
  with begin_fetch_ok [OF fetch_begins.hyps(2)] fetch_begins.prems show ?case by (simp add: catalog_inv_def)
next
  case (fetch_ends w f reply saved res c disk)
  let ?B = "cw_served w \<union> listing decode f reply"
  have inv: "snapshot_ok (cw_served w) (cw_now w) (ct_st (cw_client w))" "file_ok (cw_served w) (cw_file w)"
    "flight_ok (cw_client w) (Some f)"
    using fetch_ends.prems fetch_ends.hyps(1) by (simp_all add: catalog_inv_def)
  have keep: "snapshot_ok ?B (cw_now w) (ct_st (cw_client w))" "file_ok ?B (cw_file w)"
    using inv(1,2) by (auto simp: snapshot_ok_def file_ok_def intro: honest_mono split: option.splits if_splits)
  show ?case
  proof (cases "fetched_snapshot q decode (cw_now w) f reply")
    case (Inl e)
    with fetch_ends.hyps(2) keep show ?thesis by (auto simp: finish_fetch_def catalog_inv_def flight_ok_def)
  next
    case (Inr ns)
    from fetched_ok [OF this inv(3,1)] have ns: "snapshot_ok ?B (cw_now w) ns"
      "honest ?B (sn_version ns) (sn_etag ns) (sn_models ns)"
      by (simp_all add: snapshot_ok_def max_clock_skew_def second_def)
    with Inr fetch_ends.hyps(2) keep show ?thesis
      by (auto simp: finish_fetch_def commit_snapshot_def write_disk_def catalog_inv_def flight_ok_def file_ok_def
          split: if_splits)
  qed
next
  case (restart co w n)
  then show ?case using new_client_ok by (simp add: catalog_inv_def flight_ok_def)
qed

lemma catalog_reach_inv: "catalog_reach q decode w \<Longrightarrow> catalog_inv w"
proof (induction rule: catalog_reach.induct)
  case (reach_init co n)
  show ?case using new_client_ok by (simp add: catalog_inv_def file_ok_def flight_ok_def)
next
  case (reach_step w w')
  then show ?case using catalog_inv_step by blast
qed

text \<open>
  Property (C26): the catalog of one client version is never held under another. Over any history of
  loads of the file, fetches that cross upgrades, answers of the backend and restarts, the
  list that is held was served by the backend with the validator that is held, for the version that is
  held unless that version was unknown, and it is never dated further ahead than the
  allowance. A fetch that ends well brings a list for the version it asked for, a 304 included;
  one that fails changes neither the snapshot nor the file.
\<close>

theorem catalog_never_mixes_versions:
  assumes "catalog_reach q decode w"
  shows "(let st = ct_st (cw_client w) in
      sn_loaded st \<longrightarrow> honest (cw_served w) (sn_version st) (sn_etag st) (sn_models st) \<and>
        sn_fetched st \<le> cw_now w + max_clock_skew) \<and>
    (case cw_flight w of
       None \<Rightarrow> True
     | Some f \<Rightarrow>
         (case finish_fetch q decode (cw_now w) f reply saved (cw_client w, cw_file w) of
            (Inl e, c, file) \<Rightarrow> c = cw_client w \<and> file = cw_file w
          | (Inr ns, c, file) \<Rightarrow>
              ct_st c = ns \<and> sn_fetched ns = cw_now w \<and> \<not> versions_differ (sn_version ns) (fl_version f)))"
proof -
  note inv = catalog_reach_inv [OF assms, unfolded catalog_inv_def]
  show ?thesis
  proof (cases "cw_flight w")
    case None
    with inv show ?thesis by (simp add: snapshot_ok_def Let_def split: if_splits)
  next
    case (Some f)
    have "\<not> versions_differ (sn_version ns) (fl_version f) \<and> sn_fetched ns = cw_now w"
      if "fetched_snapshot q decode (cw_now w) f reply = Inr ns" for ns
      using fetched_ok [OF that] inv Some by metis
    with inv Some show ?thesis
      by (auto simp: snapshot_ok_def Let_def finish_fetch_def commit_snapshot_def split: if_splits sum.split)
  qed
qed

definition demo_catalog :: catalog_world where
  "demo_catalog =
     \<lparr>cw_client = new_catalog_client
        \<lparr>co_base_url = [], co_cache_file = [], co_ttl = 0, co_client_version = ''1''\<rparr>,
      cw_file = None, cw_now = 0, cw_flight = None, cw_served = {}\<rparr>"

theorem catalog_never_mixes_versions_witness:
  "case finish_fetch id (\<lambda>s. Inr []) 0 \<lparr>fl_version = ''2'', fl_etag = [], fl_prev = no_snapshot\<rparr>
     (Replied 200 [] (Inr [])) True (cw_client demo_catalog, None) of
     (Inl e, c, file) \<Rightarrow> False
   | (Inr ns, c, file) \<Rightarrow> \<not> versions_differ (sn_version ns) ''2''"
proof -
  let ?f = "\<lparr>fl_version = ''2'', fl_etag = [], fl_prev = no_snapshot\<rparr>"
  let ?c = "(cw_client demo_catalog)\<lparr>ct_version := ''2'', ct_disk_tried := True\<rparr>"
  have "catalog_reach id (\<lambda>s. Inr []) demo_catalog"
    unfolding demo_catalog_def by (rule reach_init)
  moreover have "catalog_step id (\<lambda>s. Inr []) demo_catalog (demo_catalog\<lparr>cw_client := ?c, cw_flight := Some ?f\<rparr>)"
    by (rule fetch_begins [where answer = "Some ''2''"])
       (simp_all add: demo_catalog_def new_catalog_client_def ensure_disk_loaded_def begin_fetch_def no_snapshot_def
          resolve_client_version_def Let_def)
  ultimately have "catalog_reach id (\<lambda>s. Inr []) (demo_catalog\<lparr>cw_client := ?c, cw_flight := Some ?f\<rparr>)"
    by (rule reach_step)
  from catalog_never_mixes_versions [OF this, of "Replied 200 [] (Inr [])" True] show ?thesis
    by (simp add: finish_fetch_def fetched_snapshot_def commit_snapshot_def versions_differ_def
        demo_catalog_def split: prod.splits)
qed

section \<open>The loader of aliases\<close>

text \<open>Slugs that do not contain the two separators of the fingerprint.\<close>

definition clean_slugs :: "listed_model list \<Rightarrow> bool" where
  "clean_slugs ms \<longleftrightarrow>
     list_all (\<lambda>e. CHR '','' \<notin> set (ce_slug e) \<and> CHR ''#'' \<notin> set (ce_slug e)) (listed_entries ms)"

definition entry_part :: "catalog_entry \<Rightarrow> string" where
  "entry_part e = ce_slug e @ ''#'' @ itoa (ce_priority e)"

lemma digit_chars: "c \<in> set (digits_of n) \<Longrightarrow> 48 \<le> (of_char c :: nat) \<and> (of_char c :: nat) < 58"
proof (induction n rule: digits_of.induct)
  case (1 n)
  then show ?case by (subst (asm) (2) digits_of.simps) (auto split: if_splits)
qed

lemma itoa_plain: "CHR '','' \<notin> set (itoa i)"
  using digit_chars [of "CHR '',''"] by (auto simp: itoa_def)

text \<open>The fingerprint tells which slugs are listed.\<close>

lemma fingerprint_slugs:
  assumes "catalog_fingerprint ms = catalog_fingerprint ms'" "clean_slugs ms" "clean_slugs ms'"
    and "listed_entries ms \<noteq> []" "listed_entries ms' \<noteq> []"
  shows "ce_slug ` set (listed_entries ms) = ce_slug ` set (listed_entries ms')"
proof -
  have parts: "split_on CHR '','' (catalog_fingerprint xs) = sort (map entry_part (listed_entries xs)) \<and>
      (\<lambda>p. takeWhile (\<lambda>c. c \<noteq> CHR ''#'') p) ` set (split_on CHR '','' (catalog_fingerprint xs)) =
        ce_slug ` set (listed_entries xs)"
    if "clean_slugs xs" "listed_entries xs \<noteq> []" for xs
  proof -
    have e: "CHR '','' \<notin> set (entry_part e) \<and> takeWhile (\<lambda>c. c \<noteq> CHR ''#'') (entry_part e) = ce_slug e"
      if "e \<in> set (listed_entries xs)" for e
      using that \<open>clean_slugs xs\<close> itoa_plain [of "ce_priority e"]
      by (auto simp: entry_part_def clean_slugs_def list_all_iff takeWhile_tail takeWhile_append2)
    have "split_on CHR '','' (catalog_fingerprint xs) = sort (map entry_part (listed_entries xs))"
    proof -
      have "sort (map entry_part (listed_entries xs)) \<noteq> []"
        using that(2) by (metis list.map_disc_iff set_empty set_sort)
      then show ?thesis
        using e unfolding catalog_fingerprint_def entry_part_def [symmetric]
        by (intro split_on_join) auto
    qed
    with e show ?thesis by (simp add: image_image cong: image_cong)
  qed
  from parts [OF assms(2,4)] parts [OF assms(3,5)] assms(1) show ?thesis by metis
qed

definition raw_names :: "(string \<Rightarrow> string) \<Rightarrow> listed_model list \<Rightarrow> string \<Rightarrow> string option" where
  "raw_names u ms n = (if n \<in> to_lower u ` ce_slug ` set (listed_entries ms) then Some n else None)"

lemma populated_raw: "rg_raw (populate_registry u ms r) = raw_names u ms"
proof
  fix n
  have "tiers_inv (set (map (to_lower u \<circ> ce_slug) (listed_entries ms))) (load_tiers u (rg_overrides r) (listed_entries ms))"
    by (rule load_tiers_inv)
  then show "rg_raw (populate_registry u ms r) n = raw_names u ms n"
    by (auto simp: tiers_inv_def maps_to_self_def populate_registry_def load_catalog_def Let_def raw_names_def
        image_image)
qed

definition aliases_inv :: "(string \<Rightarrow> string) \<Rightarrow> registry \<times> string \<Rightarrow> bool" where
  "aliases_inv u rl \<longleftrightarrow>
     (case rl of (r, fp) \<Rightarrow> fp = [] \<or>
        (\<exists>ms. clean_slugs ms \<and> listed_entries ms \<noteq> [] \<and> fp = catalog_fingerprint ms \<and> rg_raw r = raw_names u ms))"

lemma fingerprint_nonempty: "listed_entries ms \<noteq> [] \<Longrightarrow> catalog_fingerprint ms \<noteq> []"
proof -
  assume "listed_entries ms \<noteq> []"
  then have "sort (map entry_part (listed_entries ms)) \<noteq> []" by (metis list.map_disc_iff set_empty set_sort)
  moreover have "p \<noteq> []" if "p \<in> set (sort (map entry_part (listed_entries ms)))" for p
    using that by (auto simp: entry_part_def)
  moreover have "join_with c ps \<noteq> []" if "ps \<noteq> []" "\<forall>p \<in> set ps. p \<noteq> []" for c ps
    using that by (cases "(c, ps)" rule: join_with.cases) auto
  ultimately show ?thesis unfolding catalog_fingerprint_def entry_part_def [symmetric] by blast
qed

lemma load_aliases_inv:
  assumes "aliases_inv u rl" "clean_slugs ms"
  shows "aliases_inv u (load_aliases u ms rl)"
proof (cases "fst rl = fst (load_aliases u ms rl) \<and> snd rl = snd (load_aliases u ms rl)")
  case True
  then have "load_aliases u ms rl = rl" by (simp add: prod_eq_iff)
  with assms(1) show ?thesis by simp
next
  case False
  then have new: "load_aliases u ms rl = (populate_registry u ms (fst rl), catalog_fingerprint ms)"
    by (cases rl) (auto simp: load_aliases_def Let_def split: if_splits)
  show ?thesis
  proof (cases "listed_entries ms = []")
    case True
    then show ?thesis by (simp add: new aliases_inv_def catalog_fingerprint_def)
  next
    case False
    with assms(2) populated_raw [of u ms "fst rl"] show ?thesis unfolding new aliases_inv_def by blast
  qed
qed

lemma load_aliases_raw:
  assumes "aliases_inv u rl" "clean_slugs ms" "listed_entries ms \<noteq> []"
  shows "rg_raw (fst (load_aliases u ms rl)) = raw_names u ms"
proof -
  obtain r fp where rl: "rl = (r, fp)" by fastforce
  have "ms \<noteq> []" using assms(3) by (auto simp: listed_entries_def)
  moreover have "rg_raw r = raw_names u ms" if fp: "catalog_fingerprint ms = fp"
  proof -
    obtain ms0 where ms0: "clean_slugs ms0" "listed_entries ms0 \<noteq> []" "fp = catalog_fingerprint ms0" "rg_raw r = raw_names u ms0"
      using assms(1) rl fp fingerprint_nonempty [OF assms(3)] by (auto simp: aliases_inv_def)
    with fp have "ce_slug ` set (listed_entries ms0) = ce_slug ` set (listed_entries ms)"
      by (intro fingerprint_slugs assms(2,3)) simp_all
    with ms0(4) show ?thesis unfolding raw_names_def by presburger
  qed
  ultimately show ?thesis by (simp add: rl load_aliases_def populated_raw Let_def)
qed

text \<open>
  The registry follows the live catalog. After any sequence of reads of the
  catalog, empty and repeated ones included, once a list with a listed model was read, the raw
  names of the registry are the listed slugs of that list and no others.
\<close>

theorem aliases_track_catalog:
  assumes "list_all clean_slugs (history @ [ms])" "listed_entries ms \<noteq> []"
  shows "rg_raw (fst (foldl (\<lambda>rl ms. load_aliases u ms rl) (r, []) (history @ [ms]))) n =
    (if n \<in> to_lower u ` ce_slug ` set (listed_entries ms) then Some n else None)"
proof -
  have "aliases_inv u (foldl (\<lambda>rl ms. load_aliases u ms rl) rl history)"
    if "aliases_inv u rl" "list_all clean_slugs history" for rl
    using that by (induction history arbitrary: rl) (simp_all add: load_aliases_inv)
  from this [of "(r, [])"] assms(1) have "aliases_inv u (foldl (\<lambda>rl ms. load_aliases u ms rl) (r, []) history)"
    by (simp add: aliases_inv_def)
  from load_aliases_raw [OF this _ assms(2)] assms(1) show ?thesis by (simp add: raw_names_def)
qed

definition demo_model :: "string \<Rightarrow> string \<Rightarrow> listed_model" where
  "demo_model slug visibility =
     \<lparr>cm_slug = slug, cm_default_level = [], cm_default_summary = [], cm_levels = [], lm_display = [],
      lm_visibility = visibility, lm_priority = 1\<rparr>"

theorem aliases_track_catalog_witness:
  "rg_raw (fst (foldl (\<lambda>rl ms. load_aliases id ms rl) (new_registry, []) ([[]] @ [[demo_model ''gpt-5'' ''list'']])))
     ''gpt-5'' = Some ''gpt-5''"
proof -
  have "list_all clean_slugs ([[]] @ [[demo_model ''gpt-5'' ''list'']])"
    by (simp add: clean_slugs_def listed_entries_def demo_model_def listed_def VisibilityList_def)
  moreover have l: "listed_entries [demo_model ''gpt-5'' ''list''] = [\<lparr>ce_slug = ''gpt-5'', ce_priority = 1\<rparr>]"
    by (simp add: listed_entries_def demo_model_def listed_def VisibilityList_def)
  moreover have "to_lower id ''gpt-5'' = ''gpt-5''" by (simp add: to_lower_lower_ascii lower_ascii_def)
  ultimately show ?thesis
    using aliases_track_catalog [of "[[]]" "[demo_model ''gpt-5'' ''list'']" id new_registry "''gpt-5''"] by simp
qed

text \<open>
  The loader means never to clear the registry, but it looks at the length of the list only:
  a list in which no model is listed clears it.
\<close>

lemma hidden_list_clears:
  "rg_raw (fst (load_aliases u [demo_model ''gpt-5'' ''hide''] (r, ''gpt-5#1''))) = (\<lambda>n. None)"
  by (rule ext)
     (simp add: load_aliases_def populated_raw raw_names_def listed_entries_def demo_model_def listed_def
       VisibilityList_def catalog_fingerprint_def Let_def)

end
