(* ===== verification/Redaction.thy ===== *)
theory Redaction
  imports Scrub Http Request
begin

text \<open>
  \<^verbatim>\<open>internal/obs\<close>: which header values may reach the log (\<^verbatim>\<open>Redactor\<close>), and the handler that
  rewrites every record on its way out (\<^verbatim>\<open>scrubHandler\<close>). A logged value is modelled as it is
  once resolved; \<open>u\<close> is the Unicode case table and \<open>sha256\<close> the hash, as elsewhere. The
  theorems say what the output cannot depend on.
\<close>

section \<open>Keys\<close>

definition denied_attr_keys :: "string list" where
  "denied_attr_keys =
     [''access_token'', ''refresh_token'', ''id_token'', ''authorization'', ''api_key'', ''apikey'',
      ''client_secret'', ''cookie'', ''credential'', ''password'', ''secret'', ''token'', ''x_api_key'', ''bearer'']"

definition hashed_attr_keys :: "string list" where
  "hashed_attr_keys = [''account'', ''account_id'', ''chatgpt_account_id'']"

definition normalize_attr_key :: "(string \<Rightarrow> string) \<Rightarrow> string \<Rightarrow> string" where
  "normalize_attr_key u key = map (\<lambda>c. if c = CHR ''-'' then CHR ''_'' else c) (to_lower u (trim_space key))"

fun denied_tail :: "string \<Rightarrow> bool" where
  "denied_tail [] = False"
| "denied_tail (c # s) \<longleftrightarrow> c = CHR ''_'' \<and> s \<in> set denied_attr_keys \<or> denied_tail s"

definition denied_attr_key :: "(string \<Rightarrow> string) \<Rightarrow> string \<Rightarrow> bool" where
  "denied_attr_key u key \<longleftrightarrow>
     normalize_attr_key u key \<in> set denied_attr_keys \<or> denied_tail (normalize_attr_key u key)"

definition hashed_attr_key :: "(string \<Rightarrow> string) \<Rightarrow> string \<Rightarrow> bool" where
  "hashed_attr_key u key \<longleftrightarrow> normalize_attr_key u key \<in> set hashed_attr_keys"

definition hash_prefix :: string where "hash_prefix = ''sha256:''"

definition log_hash :: "(string \<Rightarrow> string) \<Rightarrow> string \<Rightarrow> string" where
  "log_hash sha256 s = (if s = [] then [] else hash_prefix @ hex_encode (take 4 (sha256 s)))"

section \<open>Records\<close>

text \<open>The kinds of value that the handler tells apart; an entry of a map is a string or not.\<close>

datatype map_entry = EntryString string | EntryOther string

datatype logval =
    LString string
  | LGroup "(string \<times> logval) list"
  | LError string
  | LBytes string
  | LStrings "string list"
  | LStringMap "(string \<times> string) list"
  | LAnyMap "(string \<times> map_entry) list"
  | LStringer string
  | LOther string

type_synonym attr = "string \<times> logval"

definition scrub_map_value :: "(string \<Rightarrow> string) \<Rightarrow> string \<Rightarrow> string \<Rightarrow> string" where
  "scrub_map_value u key val = (if denied_attr_key u key then Redacted else scrub val)"

definition scrub_entry :: "(string \<Rightarrow> string) \<Rightarrow> string \<times> map_entry \<Rightarrow> string \<times> map_entry" where
  "scrub_entry u kv =
     (case kv of
        (k, EntryString s) \<Rightarrow> (k, EntryString (scrub_map_value u k s))
      | (k, EntryOther x) \<Rightarrow> (k, EntryOther x))"

definition hash_value :: "(string \<Rightarrow> string) \<Rightarrow> logval \<Rightarrow> logval" where
  "hash_value sha256 v =
     (case v of
        LString s \<Rightarrow> if s \<noteq> [] \<and> \<not> prefix hash_prefix s then LString (log_hash sha256 s) else v
      | _ \<Rightarrow> v)"

fun scrub_attr :: "(string \<Rightarrow> string) \<Rightarrow> (string \<Rightarrow> string) \<Rightarrow> attr \<Rightarrow> attr"
  and scrub_value :: "(string \<Rightarrow> string) \<Rightarrow> (string \<Rightarrow> string) \<Rightarrow> logval \<Rightarrow> logval"
  and scrub_attrs :: "(string \<Rightarrow> string) \<Rightarrow> (string \<Rightarrow> string) \<Rightarrow> attr list \<Rightarrow> attr list" where
  "scrub_attr u sha256 (k, v) =
     (if denied_attr_key u k then (k, LString Redacted)
      else if hashed_attr_key u k then (k, hash_value sha256 v)
      else (k, scrub_value u sha256 v))"
| "scrub_value u sha256 (LString s) = LString (scrub s)"
| "scrub_value u sha256 (LGroup as) = LGroup (scrub_attrs u sha256 as)"
| "scrub_value u sha256 (LError s) = LString (scrub s)"
| "scrub_value u sha256 (LBytes s) = LString (scrub s)"
| "scrub_value u sha256 (LStrings ss) = LStrings (map scrub ss)"
| "scrub_value u sha256 (LStringMap m) = LStringMap (map (\<lambda>(k, s). (k, scrub_map_value u k s)) m)"
| "scrub_value u sha256 (LAnyMap m) = LAnyMap (map (scrub_entry u) m)"
| "scrub_value u sha256 (LStringer s) = LString (scrub s)"
| "scrub_value u sha256 (LOther x) = LOther x"
| "scrub_attrs u sha256 [] = []"
| "scrub_attrs u sha256 (a # as) = scrub_attr u sha256 a # scrub_attrs u sha256 as"

text \<open>\<^verbatim>\<open>Handle\<close>: what the real handler gets of a record, its message and its attributes.\<close>

definition scrub_record :: "(string \<Rightarrow> string) \<Rightarrow> (string \<Rightarrow> string) \<Rightarrow> string \<times> attr list \<Rightarrow> string \<times> attr list" where
  "scrub_record u sha256 r = (case r of (msg, as) \<Rightarrow> (scrub msg, scrub_attrs u sha256 as))"

section \<open>Headers\<close>

definition default_allow :: "string list" where
  "default_allow = [''anthropic-beta'', ''anthropic-version'', ''content-type'', ''user-agent'']"

definition always_deny :: "string list" where
  "always_deny =
     [''authorization'', ''proxy-authorization'', ''cookie'', ''set-cookie'', ''x-api-key'', ''api-key'',
      ''anthropic-auth-token'', ''openai-api-key'', ''x-utraque-token'', ''chatgpt-account-id'', ''access-token'',
      ''refresh-token'', ''id-token'']"

record redactor =
  rd_allow :: "string list"
  rd_deny :: "string list"

definition new_redactor :: "(string \<Rightarrow> string) \<Rightarrow> string list \<Rightarrow> redactor" where
  "new_redactor u allow =
     \<lparr>rd_allow = filter (\<lambda>n. n \<noteq> [] \<and> n \<notin> set always_deny) (map (\<lambda>n. to_lower u (trim_space n)) allow),
      rd_deny = always_deny\<rparr>"

definition default_redactor :: "(string \<Rightarrow> string) \<Rightarrow> redactor" where
  "default_redactor u = new_redactor u default_allow"

definition header_allowed :: "(string \<Rightarrow> string) \<Rightarrow> redactor option \<Rightarrow> string \<Rightarrow> bool" where
  "header_allowed u r name =
     (case r of
        None \<Rightarrow> False
      | Some r \<Rightarrow>
          let n = to_lower u (trim_space name) in
          if n \<in> set (rd_deny r) then False else n \<in> set (rd_allow r))"

definition partition_headers ::
  "(string \<Rightarrow> string) \<Rightarrow> redactor option \<Rightarrow> string list \<Rightarrow> string list \<times> string list" where
  "partition_headers u r names =
     (filter (\<lambda>n. header_allowed u r (to_lower u n)) names,
      map (to_lower u) (filter (\<lambda>n. \<not> header_allowed u r (to_lower u n)) names))"

definition MaxValueLen :: nat where "MaxValueLen = 512"

definition truncate_value :: "string \<Rightarrow> string" where
  "truncate_value s = (if length s \<le> MaxValueLen then s else take MaxValueLen s @ ''...(truncated)'')"

definition header_attr :: "(string \<Rightarrow> string) \<Rightarrow> header \<Rightarrow> string \<Rightarrow> attr list" where
  "header_attr u h name =
     (case header_values h name of
        [] \<Rightarrow> []
      | [v] \<Rightarrow> [(to_lower u name, LString (truncate_value v))]
      | vs \<Rightarrow> [(to_lower u name, LStrings (map truncate_value vs))])"

definition redact_header :: "(string \<Rightarrow> string) \<Rightarrow> redactor option \<Rightarrow> header \<Rightarrow> logval" where
  "redact_header u r h =
     (if r = None \<or> h = [] then LGroup []
      else
        case partition_headers u r (sort (map fst h)) of
          (allowed, withheld) \<Rightarrow>
            LGroup (concat (map (header_attr u h) allowed) @
              (if withheld = [] then [] else [(''headers_withheld'', LStrings withheld)])))"

section \<open>What the log does not depend on\<close>

text \<open>A record without what its denied keys hold.\<close>

definition public_entry :: "(string \<Rightarrow> string) \<Rightarrow> string \<times> map_entry \<Rightarrow> string \<times> map_entry" where
  "public_entry u kv =
     (case kv of
        (k, EntryString s) \<Rightarrow> (k, EntryString (if denied_attr_key u k then [] else s))
      | (k, EntryOther x) \<Rightarrow> (k, EntryOther x))"

fun public_attr :: "(string \<Rightarrow> string) \<Rightarrow> attr \<Rightarrow> attr"
  and public_value :: "(string \<Rightarrow> string) \<Rightarrow> logval \<Rightarrow> logval"
  and public_attrs :: "(string \<Rightarrow> string) \<Rightarrow> attr list \<Rightarrow> attr list" where
  "public_attr u (k, v) =
     (if denied_attr_key u k then (k, LOther [])
      else if hashed_attr_key u k then (k, v)
      else (k, public_value u v))"
| "public_value u (LString s) = LString s"
| "public_value u (LGroup as) = LGroup (public_attrs u as)"
| "public_value u (LError s) = LError s"
| "public_value u (LBytes s) = LBytes s"
| "public_value u (LStrings ss) = LStrings ss"
| "public_value u (LStringMap m) = LStringMap (map (\<lambda>(k, s). (k, if denied_attr_key u k then [] else s)) m)"
| "public_value u (LAnyMap m) = LAnyMap (map (public_entry u) m)"
| "public_value u (LStringer s) = LStringer s"
| "public_value u (LOther x) = LOther x"
| "public_attrs u [] = []"
| "public_attrs u (a # as) = public_attr u a # public_attrs u as"

text \<open>Scrubbing a record is scrubbing what is public of it, the denied keys apart.\<close>

lemma scrub_public_entry: "scrub_entry u (public_entry u kv) = scrub_entry u kv"
  by (cases kv; cases "snd kv") (auto simp: scrub_entry_def public_entry_def scrub_map_value_def)

lemma scrub_public:
  "scrub_attr u sha256 (public_attr u a) = scrub_attr u sha256 a"
  "scrub_value u sha256 (public_value u v) = scrub_value u sha256 v"
  "scrub_attrs u sha256 (public_attrs u as) = scrub_attrs u sha256 as"
  by (induction u sha256 a and u sha256 v and u sha256 as rule: scrub_attr_scrub_value_scrub_attrs.induct)
     (auto simp: scrub_map_value_def scrub_public_entry split_def)

lemma header_attrs_cong:
  "(\<And>n. n \<in> set ns \<Longrightarrow> header_values h n = header_values h' n) \<Longrightarrow>
   concat (map (header_attr u h) ns) = concat (map (header_attr u h') ns)"
  by (induction ns) (simp_all add: header_attr_def)

lemma redact_header_cong:
  assumes "map fst h = map fst h'"
    and "\<And>n. header_allowed u r (to_lower u n) \<Longrightarrow> header_values h n = header_values h' n"
  shows "redact_header u r h = redact_header u r h'"
proof -
  have "h = [] \<longleftrightarrow> h' = []" using assms(1) by (cases h; cases h') auto
  moreover have "concat (map (header_attr u h) (fst (partition_headers u r ns))) =
      concat (map (header_attr u h') (fst (partition_headers u r ns)))" for ns
    by (rule header_attrs_cong) (simp add: partition_headers_def assms(2))
  ultimately show ?thesis by (simp add: redact_header_def assms(1) split_def)
qed

text \<open>
  Property (C33): the log does not depend on a secret. The line of a request, which carries its
  headers through the redactor, is the same for any two requests and attributes that agree on
  the names of the headers, on the values of the allowed ones, and on what is not
  under a denied key, at any depth; and no list of allowed names opens one of the
  names that are always denied.
\<close>

theorem log_hides_secrets:
  assumes "map fst h = map fst h'"
    and "\<And>n. header_allowed u (Some (new_redactor u allow)) (to_lower u n) \<Longrightarrow> header_values h n = header_values h' n"
    and "public_attrs u as = public_attrs u bs"
  shows "scrub_record u sha256 (msg, as @ [(''headers'', redact_header u (Some (new_redactor u allow)) h)]) =
      scrub_record u sha256 (msg, bs @ [(''headers'', redact_header u (Some (new_redactor u allow)) h')]) \<and>
    (to_lower u (trim_space n) \<in> set always_deny \<longrightarrow> \<not> header_allowed u (Some (new_redactor u allow)) n)"
proof -
  have app: "scrub_attrs u sha256 (xs @ ys) = scrub_attrs u sha256 xs @ scrub_attrs u sha256 ys" for xs ys
    by (induction xs) simp_all
  have "scrub_attrs u sha256 as = scrub_attrs u sha256 bs"
    using assms(3) scrub_public(3) by metis
  moreover have "redact_header u (Some (new_redactor u allow)) h = redact_header u (Some (new_redactor u allow)) h'"
    by (rule redact_header_cong) (use assms(1,2) in auto)
  ultimately show ?thesis
    by (simp add: scrub_record_def app header_allowed_def new_redactor_def Let_def)
qed

definition demo_secret :: "string \<Rightarrow> header \<times> attr list" where
  "demo_secret s = ([(''Authorization'', [s])], [(''codex-token'', LString s)])"

theorem log_hides_secrets_witness:
  "scrub_record id id (''request'', snd (demo_secret ''a'') @
      [(''headers'', redact_header id (Some (new_redactor id [''authorization''])) (fst (demo_secret ''a'')))]) =
   scrub_record id id (''request'', snd (demo_secret ''b'') @
      [(''headers'', redact_header id (Some (new_redactor id [''authorization''])) (fst (demo_secret ''b'')))])"
proof -
  have low: "to_lower id ''authorization'' = ''authorization''" "trim_space ''authorization'' = ''authorization''"
    "trim_space ''codex-token'' = ''codex-token''" "to_lower id ''codex-token'' = ''codex-token''"
    by (simp_all add: to_lower_lower_ascii lower_ascii_def trim_space_graphic graphic_def)
  have "denied_attr_key id ''codex-token''"
    by (simp add: denied_attr_key_def normalize_attr_key_def low denied_attr_keys_def)
  then have "public_attrs id (snd (demo_secret ''a'')) = public_attrs id (snd (demo_secret ''b''))"
    by (simp add: demo_secret_def)
  moreover have "\<not> header_allowed id (Some (new_redactor id [''authorization''])) n" for n
    by (auto simp: header_allowed_def new_redactor_def low always_deny_def Let_def)
  moreover have "map fst (fst (demo_secret ''a'')) = map fst (fst (demo_secret ''b''))" by (simp add: demo_secret_def)
  ultimately show ?thesis
    using log_hides_secrets [of "fst (demo_secret ''a'')" "fst (demo_secret ''b'')" id "[''authorization'']"
        "snd (demo_secret ''a'')" "snd (demo_secret ''b'')" id "''request''"] by blast
qed

text \<open>
  The handler means to scrub every text that it lets through, but what is under a hashed
  key is hashed only if it is a string, and let through as it is otherwise; and of a map
  only the entries that are strings are looked at.
\<close>

lemma hashed_key_unscrubbed:
  "scrub_attr id id (''account'', LError ''Bearer abcdefgh'') = (''account'', LError ''Bearer abcdefgh'') \<and>
   scrub_value id id (LAnyMap [(''token'', EntryOther ''[secret]'')]) = LAnyMap [(''token'', EntryOther ''[secret]'')]"
proof -
  have low: "to_lower id ''account'' = ''account''" "trim_space ''account'' = ''account''"
    by (simp_all add: to_lower_lower_ascii lower_ascii_def trim_space_graphic graphic_def)
  then have "\<not> denied_attr_key id ''account''" "hashed_attr_key id ''account''"
    by (simp_all add: denied_attr_key_def hashed_attr_key_def normalize_attr_key_def denied_attr_keys_def
        hashed_attr_keys_def)
  then show ?thesis by (simp add: hash_value_def scrub_entry_def)
qed

section \<open>What the scrubber recognises\<close>

text \<open>A character with which no match begins.\<close>

definition plain_lead :: "char \<Rightarrow> bool" where
  "plain_lead c \<longleftrightarrow> lower_char c \<notin> set ''abceiprs'' \<and> c \<noteq> CHR 0x22 \<and> c \<noteq> char_of (197 :: nat)"

lemma match_letter_lead: "plain_lead c \<Longrightarrow> w \<in> set ''abceiprs'' \<Longrightarrow> match_letter w (c # s) = None"
  by (auto simp: match_letter_def plain_lead_def long_s_def byte_str_def)

lemma lead_no_match: "plain_lead c \<Longrightarrow> match_here prev (c # s) = None"
  by (simp add: match_here_def match_bearer_def match_jwt_def match_key_def match_field_def match_param_def
      match_byte_def param_names_def match_letter_lead plain_lead_def [of c] Let_def)

lemma scrub_plain:
  "list_all plain_lead pre \<Longrightarrow>
   scrub_from prev (pre @ s) = pre @ scrub_from (if pre = [] then prev else Some (last pre)) s"
  by (induction pre arbitrary: prev) (simp_all add: lead_no_match)

lemma take_class_all:
  "list_all (\<lambda>c. alnum c \<or> c \<in> set extra) s \<Longrightarrow> take_class extra s = (length s, [])"
proof (induction s)
  case Nil
  show ?case by (subst take_class.simps) (simp add: class_step_def long_s_def kelvin_def byte_str_def)
next
  case (Cons c s)
  then show ?case by (subst take_class.simps) (simp add: class_step_def)
qed

text \<open>A text in lower-case letters is read as it stands.\<close>

definition plain_letter :: "char \<Rightarrow> bool" where
  "plain_letter c \<longleftrightarrow> lower_char c = c \<and> c \<noteq> char_of (197 :: nat) \<and> c \<noteq> char_of (226 :: nat) \<and> c \<noteq> CHR 0x22"

lemma match_letter_plain:
  "lower_char c = c \<Longrightarrow> c \<noteq> char_of (197 :: nat) \<Longrightarrow> c \<noteq> char_of (226 :: nat) \<Longrightarrow>
   match_letter w (c # s) = (if c = w then Some s else None)"
  by (simp add: match_letter_def long_s_def kelvin_def byte_str_def)

lemma match_letter_quote: "match_letter w (CHR 0x22 # s) = (if CHR 0x22 = w then Some s else None)"
  by (rule match_letter_plain; code_simp)

lemma match_word_plain:
  "list_all plain_letter x \<Longrightarrow> CHR 0x22 \<notin> set w \<Longrightarrow>
   match_word w (x @ CHR 0x22 # r) = (if prefix w x then Some (drop (length w) x @ CHR 0x22 # r) else None)"
proof (induction w arbitrary: x)
  case (Cons c w)
  show ?case
  proof (cases x)
    case Nil
    with Cons.prems show ?thesis by (simp add: match_letter_quote)
  next
    case (Cons d x')
    with Cons.IH [of x'] Cons.prems show ?thesis by (auto simp: plain_letter_def match_letter_plain)
  qed
qed simp

lemma match_words_plain:
  assumes "list_all plain_letter name"
  shows "name \<in> set ws \<Longrightarrow> list_all (\<lambda>w. CHR 0x22 \<notin> set w \<and> (prefix w name \<longrightarrow> w = name)) ws \<Longrightarrow>
    match_words ws (name @ CHR 0x22 # r) = Some (CHR 0x22 # r)"
proof (induction ws)
  case (Cons w ws)
  then show ?case by (cases "w = name") (auto simp: match_word_plain [OF assms])
qed simp

lemma lower_letter_plain: "97 \<le> (of_char c :: nat) \<Longrightarrow> (of_char c :: nat) \<le> 122 \<Longrightarrow> plain_letter c"
  by (auto simp: plain_letter_def lower_char_def)

lemma underscore_plain: "plain_letter CHR ''_''"
  by (simp add: plain_letter_def lower_char_def) (code_simp)

lemma field_names_plain:
  "list_all (list_all plain_letter) field_names"
  "list_all (\<lambda>name. list_all (\<lambda>w. CHR 0x22 \<notin> set w \<and> (prefix w name \<longrightarrow> w = name)) field_names) field_names"
  by (simp_all add: field_names_def param_names_def lower_letter_plain underscore_plain)

lemma match_field_name:
  assumes "name \<in> set field_names"
  shows "match_words field_names (name @ CHR 0x22 # r) = Some (CHR 0x22 # r)"
proof -
  from assms field_names_plain have "list_all plain_letter name"
    "list_all (\<lambda>w. CHR 0x22 \<notin> set w \<and> (prefix w name \<longrightarrow> w = name)) field_names"
    unfolding list_all_iff by blast+
  with assms show ?thesis by (simp only: match_words_plain)
qed

text \<open>A whole text that is one match.\<close>

lemma scrub_match: "s \<noteq> [] \<Longrightarrow> match_here prev s = Some [] \<Longrightarrow> scrub_from prev s = redact_match s"
  by (cases s) (simp_all add: Let_def)

definition after_word :: "string \<Rightarrow> bool" where
  "after_word pre \<longleftrightarrow> pre \<noteq> [] \<and> word_char (last pre)"

lemma boundary_after:
  "\<not> after_word pre \<Longrightarrow> word_char c \<Longrightarrow> word_boundary (if pre = [] then None else Some (last pre)) (c # s)"
  by (auto simp: word_boundary_def after_word_def)

lemma lower_B: "lower_char CHR ''B'' = CHR ''b''"
  by code_simp

lemma bearer_hidden:
  assumes "list_all plain_lead pre" "\<not> after_word pre"
    and t: "8 \<le> length tok \<and> list_all (\<lambda>c. alnum c \<or> c \<in> set bearer_class) tok"
  shows "scrub (pre @ ''Bearer '' @ tok) = pre @ Redacted"
proof -
  let ?prev = "if pre = [] then None else Some (last pre)"
  from t obtain c cs where tok: "tok = c # cs" by (cases tok) auto
  have "\<not> re_space c" using t by (auto simp: tok re_space_def alnum_def bearer_class_def Let_def)
  then have "match_bearer (''Bearer '' @ tok) = Some []"
    using t take_class_all [of bearer_class tok]
    by (simp add: match_bearer_def match_letter_def lower_B lower_char_def [of "CHR ''e''"] lower_char_def [of "CHR ''a''"]
        lower_char_def [of "CHR ''r''"] re_space_def tok)
  then have "match_here ?prev (''Bearer '' @ tok) = Some []"
    using boundary_after [OF assms(2), of "CHR ''B''"] by (simp add: match_here_def word_char_def alnum_def Let_def)
  then have "scrub_from ?prev (''Bearer '' @ tok) = redact_match (''Bearer '' @ tok)"
    by (rule scrub_match [rotated]) simp
  moreover have "redact_match (''Bearer '' @ tok) = Redacted"
    by (simp add: redact_match_def lower_B lower_char_def [of "CHR ''e''"] lower_char_def [of "CHR ''a''"]
        lower_char_def [of "CHR ''r''"])
  ultimately show ?thesis
    using scrub_plain [OF assms(1), of None "''Bearer '' @ tok"] t
    by (auto simp: scrub_def min_scrub_len_def simp del: scrub_from.simps)
qed

lemma key_hidden:
  assumes "list_all plain_lead pre" "\<not> after_word pre"
    and t: "12 \<le> length tok \<and> list_all (\<lambda>c. alnum c \<or> c \<in> set ''._-'') tok"
  shows "scrub (pre @ ''sk-'' @ tok) = pre @ Redacted"
proof -
  let ?prev = "if pre = [] then None else Some (last pre)"
  have "match_key (''sk-'' @ tok) = Some []"
    using t take_class_all [of "''._-''" tok] by (simp add: match_key_def match_letter_def lower_char_def)
  moreover have "match_bearer (''sk-'' @ tok) = None" "match_jwt (''sk-'' @ tok) = None"
    by (simp_all add: match_bearer_def match_jwt_def match_letter_def lower_char_def)
  ultimately have "match_here ?prev (''sk-'' @ tok) = Some []"
    using boundary_after [OF assms(2), of "CHR ''s''"] by (simp add: match_here_def word_char_def alnum_def Let_def)
  moreover have "CHR ''='' \<notin> set tok" using t by (auto simp: list_all_iff alnum_def Let_def)
  then have tw: "takeWhile (\<lambda>d. d \<noteq> CHR ''='') (''sk-'' @ tok) = ''sk-'' @ tok" by (simp only: takeWhile_eq_all_conv) auto
  have "up_to CHR ''='' (''sk-'' @ tok) = None" by (simp only: up_to_def Let_def tw) simp
  then have "redact_match (''sk-'' @ tok) = Redacted" by (simp add: redact_match_def)
  ultimately show ?thesis
    using t scrub_plain [OF assms(1)] scrub_match [of "''sk-'' @ tok" ?prev]
    by (simp add: scrub_def min_scrub_len_def)
qed

lemma field_hidden:
  assumes "list_all plain_lead pre" "\<not> after_word pre"
    and t: "name \<in> set field_names \<and> CHR 0x22 \<notin> set val"
  shows "scrub (pre @ [CHR 0x22] @ name @ [CHR 0x22, CHR '':'', CHR 0x22] @ val @ [CHR 0x22]) =
    pre @ [CHR 0x22] @ name @ [CHR 0x22, CHR '':'', CHR '' '', CHR 0x22] @ Redacted @ [CHR 0x22]"
proof -
  let ?prev = "if pre = [] then None else Some (last pre)"
  let ?s = "[CHR 0x22] @ name @ [CHR 0x22, CHR '':'', CHR 0x22] @ val @ [CHR 0x22]"
  from t have w: "match_words field_names (name @ CHR 0x22 # r) = Some (CHR 0x22 # r)" for r
    using match_field_name by blast
  have "dropWhile (\<lambda>c. c \<noteq> CHR 0x22) (val @ [CHR 0x22]) = [CHR 0x22]"
    using t by (subst dropWhile_append2) auto
  then have "match_field ?s = Some []"
    by (simp add: match_field_def match_byte_def w re_space_def)
  moreover have "match_bearer ?s = None" "match_jwt ?s = None" "match_key ?s = None"
    by (simp_all add: match_bearer_def match_jwt_def match_key_def match_letter_quote)
  ultimately have m: "match_here ?prev ?s = Some []" by (simp add: match_here_def Let_def)
  have "CHR '':'' \<notin> set name" using t by (auto simp: field_names_def param_names_def)
  then have "up_to CHR '':'' ?s = Some ([CHR 0x22] @ name @ [CHR 0x22, CHR '':''])"
    by (simp add: up_to_def Let_def takeWhile_append)
  then have "redact_match ?s = [CHR 0x22] @ name @ [CHR 0x22, CHR '':'', CHR '' '', CHR 0x22] @ Redacted @ [CHR 0x22]"
    by (simp add: redact_match_def)
  moreover have "8 \<le> length ?s" using t by (auto simp: field_names_def param_names_def)
  ultimately show "scrub (pre @ ?s) = pre @ [CHR 0x22] @ name @ [CHR 0x22, CHR '':'', CHR '' '', CHR 0x22] @ Redacted @ [CHR 0x22]"
    using scrub_plain [OF assms(1)] scrub_match [OF _ m] by (simp add: scrub_def min_scrub_len_def)
qed



end
