(* ===== verification/Config.thy ===== *)
theory Config
  imports Auth Registry Request
begin

text \<open>
  \<^verbatim>\<open>internal/config\<close>: the configuration, its defaults, the overrides from the environment,
  the validation and the rendering for a log. What the environment, the files and the
  parsers of the library (URLs, durations, floats, host and port) answer is an input; a
  duration is in nanoseconds and a float is a rational number. The proofs are in \<open>ConfigProps\<close>.
\<close>

section \<open>Names\<close>

definition EnvListen :: string where "EnvListen = ''UTRAQUE_LISTEN''"
definition EnvLocalToken :: string where "EnvLocalToken = ''UTRAQUE_LOCAL_TOKEN''"
definition EnvMaxBodyBytes :: string where "EnvMaxBodyBytes = ''UTRAQUE_MAX_BODY_BYTES''"
definition EnvUpstreamIdleTimeout :: string where "EnvUpstreamIdleTimeout = ''UTRAQUE_UPSTREAM_IDLE_TIMEOUT''"
definition EnvAnthropicBaseURL :: string where "EnvAnthropicBaseURL = ''UTRAQUE_ANTHROPIC_BASE_URL''"
definition EnvDeepSeekBaseURL :: string where "EnvDeepSeekBaseURL = ''UTRAQUE_DEEPSEEK_BASE_URL''"
definition EnvDeepSeekAPIKeyFile :: string where "EnvDeepSeekAPIKeyFile = ''UTRAQUE_DEEPSEEK_API_KEY_FILE''"
definition EnvCCUsageRunner :: string where "EnvCCUsageRunner = ''UTRAQUE_CCUSAGE_RUNNER''"
definition EnvCCUsageExecutable :: string where "EnvCCUsageExecutable = ''UTRAQUE_CCUSAGE_EXECUTABLE''"
definition EnvCCUsageVersion :: string where "EnvCCUsageVersion = ''UTRAQUE_CCUSAGE_VERSION''"
definition EnvCodexExecutable :: string where "EnvCodexExecutable = ''UTRAQUE_CODEX_EXECUTABLE''"
definition EnvProviderReportCacheTTL :: string where "EnvProviderReportCacheTTL = ''UTRAQUE_PROVIDER_REPORT_CACHE_TTL''"
definition EnvProviderReportTimeout :: string where "EnvProviderReportTimeout = ''UTRAQUE_PROVIDER_REPORT_TIMEOUT''"
definition EnvClaudePlan :: string where "EnvClaudePlan = ''UTRAQUE_CLAUDE_PLAN''"
definition EnvClaudePlanMultiplier :: string where "EnvClaudePlanMultiplier = ''UTRAQUE_CLAUDE_PLAN_MULTIPLIER''"
definition EnvIdleTimeout :: string where "EnvIdleTimeout = ''UTRAQUE_IDLE_TIMEOUT''"
definition EnvLaunchdSocketName :: string where "EnvLaunchdSocketName = ''UTRAQUE_LAUNCHD_SOCKET''"
definition EnvLogLevel :: string where "EnvLogLevel = ''UTRAQUE_LOG_LEVEL''"
definition EnvLogFormat :: string where "EnvLogFormat = ''UTRAQUE_LOG_FORMAT''"
definition EnvTraceDir :: string where "EnvTraceDir = ''UTRAQUE_TRACE_DIR''"
definition EnvCodexBaseURL :: string where "EnvCodexBaseURL = ''UTRAQUE_CODEX_BASE_URL''"
definition EnvCodexAuthFile :: string where "EnvCodexAuthFile = ''UTRAQUE_CODEX_AUTH_FILE''"
definition EnvCodexCacheFile :: string where "EnvCodexCacheFile = ''UTRAQUE_CODEX_CACHE_FILE''"
definition EnvCodexTokenURL :: string where "EnvCodexTokenURL = ''UTRAQUE_CODEX_TOKEN_URL''"
definition EnvCodexRefreshSkew :: string where "EnvCodexRefreshSkew = ''UTRAQUE_CODEX_REFRESH_SKEW''"
definition EnvCodexLockTimeout :: string where "EnvCodexLockTimeout = ''UTRAQUE_CODEX_LOCK_TIMEOUT''"
definition EnvCodexTransport :: string where "EnvCodexTransport = ''UTRAQUE_CODEX_TRANSPORT''"
definition EnvCodexClientVersion :: string where "EnvCodexClientVersion = ''UTRAQUE_CODEX_CLIENT_VERSION''"
definition EnvRoutingAliasOverrides :: string where "EnvRoutingAliasOverrides = ''UTRAQUE_ROUTING_ALIAS_OVERRIDES''"
definition EnvProviderCacheTTL :: string where "EnvProviderCacheTTL = ''UTRAQUE_PROVIDER_CACHE_TTL''"
definition EnvProviderTimeout :: string where "EnvProviderTimeout = ''UTRAQUE_PROVIDER_TIMEOUT''"
definition EnvCodexHome :: string where "EnvCodexHome = ''CODEX_HOME''"
definition EnvDeepSeekAPIKey :: string where "EnvDeepSeekAPIKey = ''DEEPSEEK_API_KEY''"
section \<open>The configuration\<close>

record limits =
  lm_max_body :: int
  lm_upstream_idle :: int

record deepseek_config =
  dk_base_url :: string
  dk_api_key :: string
  dk_api_key_file :: string

definition deepseek_configured :: "deepseek_config \<Rightarrow> bool" where
  "deepseek_configured d \<longleftrightarrow> dk_api_key d \<noteq> []"

record idle_config =
  id_timeout :: int
  id_explicit :: bool

record codex_config =
  cx_base_url :: string
  cx_auth_file :: string
  cx_cache_file :: string
  cx_token_url :: string
  cx_client_id :: string
  cx_refresh_skew :: int
  cx_lock_timeout :: int
  cx_transport :: string
  cx_client_version :: string
  cx_executable :: string

record alias_override =
  ao_slug :: string
  ao_codename :: string
  ao_version :: string
  ao_modifier :: string

record log_config =
  lg_level :: string
  lg_format :: string
  lg_trace_dir :: string

record report_config =
  rc_runner :: string
  rc_executable :: string
  rc_version :: string
  rc_cache_ttl :: int
  rc_timeout :: int
  rc_plan :: string
  rc_multiplier :: "rat option"

record configuration =
  cf_listen :: string
  cf_local_token :: string
  cf_limits :: limits
  cf_anthropic_url :: string
  cf_deepseek :: deepseek_config
  cf_codex :: codex_config
  cf_overrides :: "alias_override list"
  cf_idle :: idle_config
  cf_socket :: string
  cf_log :: log_config
  cf_report :: report_config

definition default_config :: configuration where
  "default_config =
     \<lparr>cf_listen = ''127.0.0.1:8317'', cf_local_token = [],
      cf_limits = \<lparr>lm_max_body = 64 * 2 ^ 20, lm_upstream_idle = 120 * second\<rparr>,
      cf_anthropic_url = ''https://api.anthropic.com'',
      cf_deepseek = \<lparr>dk_base_url = ''https://api.deepseek.com/anthropic'', dk_api_key = [], dk_api_key_file = []\<rparr>,
      cf_codex =
        \<lparr>cx_base_url = ''https://chatgpt.com/backend-api/codex'', cx_auth_file = [], cx_cache_file = [],
         cx_token_url = ''https://auth.openai.com/oauth/token'', cx_client_id = ''app_EMoamEEZ73f0CkXaXp7hrann'',
         cx_refresh_skew = 120 * second, cx_lock_timeout = 10 * second, cx_transport = ''auto'',
         cx_client_version = [], cx_executable = ''codex''\<rparr>,
      cf_overrides = [], cf_idle = \<lparr>id_timeout = 0, id_explicit = False\<rparr>, cf_socket = ''Listener'',
      cf_log = \<lparr>lg_level = ''info'', lg_format = ''json'', lg_trace_dir = []\<rparr>,
      cf_report =
        \<lparr>rc_runner = ''bunx'', rc_executable = [], rc_version = ''latest'', rc_cache_ttl = 30 * second,
         rc_timeout = 90 * second, rc_plan = [], rc_multiplier = None\<rparr>\<rparr>"

section \<open>What is outside\<close>

text \<open>A parsed URL, as far as it is looked at, and what is left of it in a text.\<close>

record url_parts =
  up_scheme :: string
  up_host :: string
  up_user :: bool
  up_query :: string
  up_force_query :: bool
  up_fragment :: string
  up_bare :: string

record config_env =
  cv_getenv :: "string \<Rightarrow> string"
  cv_read_file :: "string \<Rightarrow> go_error + string"
  cv_user_home :: "string option"
  cv_cache_dir :: "string option"
  cv_join :: "string list \<Rightarrow> string"
  cv_duration :: "string \<Rightarrow> go_error + int"
  cv_duration_text :: "int \<Rightarrow> string"
  cv_float :: "string \<Rightarrow> rat option"
  cv_float_text :: "rat \<Rightarrow> string"
  cv_split_host_port :: "string \<Rightarrow> go_error + string \<times> string"
  cv_parse_url :: "string \<Rightarrow> go_error + url_parts"
  cv_lower :: "string \<Rightarrow> string"
  cv_quote :: "string \<Rightarrow> string"
  cv_sha256 :: "string \<Rightarrow> string"

text \<open>An error that wraps another behind a prefix, and one that does not.\<close>

definition config_error :: "string \<Rightarrow> go_error \<Rightarrow> go_error" where
  "config_error key e = Wrapped (''config: '' @ key @ '': '' @ error_text e) e"

definition config_text :: "string \<Rightarrow> go_error" where
  "config_text s = PlainError (''config: '' @ s)"

definition lookup_env :: "config_env \<Rightarrow> string \<Rightarrow> string option" where
  "lookup_env cv key = (let v = cv_getenv cv key in if v = [] then None else Some v)"

section \<open>Deprecated names\<close>

definition deprecated_env_aliases :: "(string \<times> string) list" where
  "deprecated_env_aliases =
     [(EnvProviderCacheTTL, EnvProviderReportCacheTTL), (EnvProviderTimeout, EnvProviderReportTimeout)]"

definition env_key :: "config_env \<Rightarrow> string \<Rightarrow> string" where
  "env_key cv key =
     (if lookup_env cv key \<noteq> None then key
      else case find (\<lambda>(old, new). new = key \<and> lookup_env cv old \<noteq> None) deprecated_env_aliases of
        Some (old, new) \<Rightarrow> old
      | None \<Rightarrow> key)"

definition deprecated_env :: "config_env \<Rightarrow> (string \<times> string) list" where
  "deprecated_env cv = filter (\<lambda>(old, new). env_key cv new = old) deprecated_env_aliases"

section \<open>Paths\<close>

definition home_dir :: "config_env \<Rightarrow> string" where
  "home_dir cv =
     (let h = trim_space (cv_getenv cv ''HOME'') in
      if h \<noteq> [] then h else case cv_user_home cv of Some h \<Rightarrow> h | None \<Rightarrow> [])"

definition expand_home :: "config_env \<Rightarrow> string \<Rightarrow> string" where
  "expand_home cv p =
     (if p = ''~'' then home_dir cv
      else if prefix ''~/'' p then cv_join cv [home_dir cv, drop 2 p]
      else p)"

definition resolve_codex_auth_file :: "config_env \<Rightarrow> string" where
  "resolve_codex_auth_file cv =
     (case lookup_env cv EnvCodexAuthFile of
        Some v \<Rightarrow> expand_home cv (trim_space v)
      | None \<Rightarrow>
          (case lookup_env cv EnvCodexHome of
             Some v \<Rightarrow> cv_join cv [expand_home cv (trim_space v), ''auth.json'']
           | None \<Rightarrow> cv_join cv [home_dir cv, ''.codex'', ''auth.json'']))"

definition resolve_codex_cache_file :: "config_env \<Rightarrow> string" where
  "resolve_codex_cache_file cv =
     (case lookup_env cv EnvCodexCacheFile of
        Some v \<Rightarrow> expand_home cv (trim_space v)
      | None \<Rightarrow>
          (case cv_cache_dir cv of
             None \<Rightarrow> []
           | Some dir \<Rightarrow> if dir = [] then [] else cv_join cv [dir, ''utraque'', ''models_cache.json'']))"

section \<open>Alias overrides\<close>

definition override_text :: "alias_override \<Rightarrow> string" where
  "override_text a =
     ao_slug a @ ''='' @ ao_codename a @ '':'' @ ao_version a @
     (if ao_modifier a \<noteq> [] then '':'' @ ao_modifier a else [])"

text \<open>One entry, which is trimmed and not empty.\<close>

definition parse_override :: "config_env \<Rightarrow> string \<Rightarrow> go_error + alias_override" where
  "parse_override cv entry =
     (let u = cv_lower cv; q = go_quote (cv_quote cv) entry;
          slug = to_lower u (trim_space (takeWhile (\<lambda>c. c \<noteq> CHR ''='') entry));
          spec = drop 1 (dropWhile (\<lambda>c. c \<noteq> CHR ''='') entry);
          parts = split_on CHR '':'' spec
      in if CHR ''='' \<notin> set entry \<or> slug = [] then
           Inl (PlainError (''override '' @ q @ '': want <slug>=<codename>:<version>[:<modifier>]''))
         else if 3 < length parts then
           Inl (PlainError (''override '' @ q @ '': too many \":\"-separated fields''))
         else
           let ov = \<lparr>ao_slug = slug, ao_codename = to_lower u (trim_space (hd parts)),
                     ao_version = (if 1 < length parts then trim_space (parts ! 1) else []),
                     ao_modifier = (if 2 < length parts then to_lower u (trim_space (parts ! 2)) else [])\<rparr>
           in if ao_codename ov = [] \<and> ao_version ov = [] then
                Inl (PlainError (''override '' @ q @ '': needs at least a codename or a version''))
              else Inr ov)"

definition parse_alias_overrides :: "config_env \<Rightarrow> string \<Rightarrow> go_error + alias_override list" where
  "parse_alias_overrides cv raw =
     traverse (parse_override cv) (filter (\<lambda>e. e \<noteq> []) (map trim_space (split_on CHR '','' raw)))"

text \<open>The registration of the overrides at start-up.\<close>

definition register_overrides :: "(string \<Rightarrow> string) \<Rightarrow> alias_override list \<Rightarrow> registry \<Rightarrow> registry" where
  "register_overrides u ovs r =
     foldl (\<lambda>r a. set_override u (ao_slug a) (ao_codename a) (ao_version a) (ao_modifier a) r) r ovs"

section \<open>Validation\<close>

definition redact_url :: "config_env \<Rightarrow> string \<Rightarrow> string" where
  "redact_url cv raw =
     (if raw = [] then []
      else case cv_parse_url cv raw of Inl _ \<Rightarrow> ''invalid-url'' | Inr p \<Rightarrow> up_bare p)"

definition validate_endpoint :: "config_env \<Rightarrow> string \<Rightarrow> string \<Rightarrow> go_error option" where
  "validate_endpoint cv name raw =
     (if raw = [] then Some (config_text (name @ '' must not be empty''))
      else case cv_parse_url cv raw of
        Inl e \<Rightarrow> Some (Wrapped (''config: '' @ name @ '' is not a valid URL: '' @ error_text e) e)
      | Inr p \<Rightarrow>
          if up_scheme p \<notin> {''http'', ''https''} then
            Some (config_text (name @ '' '' @ go_quote (cv_quote cv) (redact_url cv raw) @ '': scheme must be http or https''))
          else if up_host p = [] then
            Some (config_text (name @ '' '' @ go_quote (cv_quote cv) (redact_url cv raw) @ '': missing host''))
          else if up_user p then Some (config_text (name @ '' must not contain userinfo credentials''))
          else if up_query p \<noteq> [] \<or> up_force_query p then Some (config_text (name @ '' must not contain a query string''))
          else if up_fragment p \<noteq> [] then Some (config_text (name @ '' must not contain a fragment''))
          else None)"

text \<open>The first problem of a list of checks.\<close>

fun first_problem :: "'a option list \<Rightarrow> 'a option" where
  "first_problem [] = None"
| "first_problem (c # cs) = (case c of Some e \<Rightarrow> Some e | None \<Rightarrow> first_problem cs)"

definition fails :: "bool \<Rightarrow> string \<Rightarrow> go_error option" where
  "fails bad msg = (if bad then Some (config_text msg) else None)"

definition validate_listen :: "config_env \<Rightarrow> string \<Rightarrow> go_error option" where
  "validate_listen cv listen =
     (let at' = EnvListen @ '' '' @ go_quote (cv_quote cv) listen in
      if listen = [] then Some (config_text (EnvListen @ '' must not be empty''))
      else case cv_split_host_port cv listen of
        Inl e \<Rightarrow> Some (config_error at' e)
      | Inr (host, port) \<Rightarrow>
          if port = [] then Some (config_text (at' @ '': port must not be empty''))
          else case atoi port of
            None \<Rightarrow> Some (config_text (at' @ '': port must be a number in 0..65535''))
          | Some n \<Rightarrow> fails (n < 0 \<or> 65535 < n) (at' @ '': port must be a number in 0..65535''))"

text \<open>An executable: not empty, not surrounded by blanks, without a NUL.\<close>

definition bad_executable :: "string \<Rightarrow> bool" where
  "bad_executable s \<longleftrightarrow> trim_space s \<noteq> s \<or> CHR 0x00 \<in> set s"

definition validate_report :: "config_env \<Rightarrow> report_config \<Rightarrow> go_error option list" where
  "validate_report cv r =
     [fails (bad_executable (rc_executable r)) (EnvCCUsageExecutable @ '' must not have surrounding whitespace or NUL''),
      fails (rc_executable r = [] \<and> (rc_runner r = [] \<or> bad_executable (rc_runner r)))
        (EnvCCUsageRunner @ '' must name an executable''),
      fails (rc_executable r = [] \<and>
             (rc_version r = [] \<or> (\<exists>c \<in> set (rc_version r). of_char c \<in> {32, 9, 13, 10, 0 :: nat})))
        (EnvCCUsageVersion @ '' must be a single version token'')]"

definition validate_report_limits :: "report_config \<Rightarrow> go_error option list" where
  "validate_report_limits r =
     [fails (rc_cache_ttl r \<le> 0) (EnvProviderReportCacheTTL @ '' must be positive''),
      fails (rc_timeout r \<le> 0) (EnvProviderReportTimeout @ '' must be positive''),
      fails (case rc_multiplier r of None \<Rightarrow> False | Some m \<Rightarrow> m \<le> 0) (EnvClaudePlanMultiplier @ '' must be positive''),
      fails (256 < length (rc_plan r) \<or> (\<exists>c \<in> set (rc_plan r). (of_char c :: nat) < 32 \<or> of_char c = (127 :: nat)))
        (EnvClaudePlan @ '' must be a short printable label'')]"

definition validate_config :: "config_env \<Rightarrow> configuration \<Rightarrow> go_error option" where
  "validate_config cv c =
     (let l = cf_limits c; x = cf_codex c; d = cv_duration_text cv; q = go_quote (cv_quote cv) in
      first_problem
        ([validate_listen cv (cf_listen c),
          fails (lm_max_body l \<le> 0) (EnvMaxBodyBytes @ '' must be positive, got '' @ itoa (lm_max_body l)),
          fails (lm_upstream_idle l < 0) (EnvUpstreamIdleTimeout @ '' must not be negative, got '' @ d (lm_upstream_idle l)),
          fails (id_timeout (cf_idle c) < 0) (EnvIdleTimeout @ '' must not be negative, got '' @ d (id_timeout (cf_idle c)))] @
         validate_report cv (cf_report c) @
         [fails (cx_executable x = [] \<or> bad_executable (cx_executable x)) (EnvCodexExecutable @ '' must name an executable'')] @
         validate_report_limits (cf_report c) @
         [fails (cf_socket c = []) (EnvLaunchdSocketName @ '' must not be empty''),
          validate_endpoint cv EnvAnthropicBaseURL (cf_anthropic_url c),
          validate_endpoint cv EnvDeepSeekBaseURL (dk_base_url (cf_deepseek c)),
          fails (cx_refresh_skew x < 0) (EnvCodexRefreshSkew @ '' must not be negative, got '' @ d (cx_refresh_skew x)),
          fails (cx_lock_timeout x \<le> 0) (EnvCodexLockTimeout @ '' must be positive, got '' @ d (cx_lock_timeout x)),
          fails (cx_client_id x = []) ''codex client id must not be empty'',
          validate_endpoint cv EnvCodexBaseURL (cx_base_url x),
          validate_endpoint cv EnvCodexTokenURL (cx_token_url x),
          fails (cx_transport x \<notin> {''auto'', ''std'', ''utls''})
            (EnvCodexTransport @ '' '' @ q (cx_transport x) @ '': want auto|std|utls''),
          fails (lg_level (cf_log c) \<notin> {''debug'', ''info'', ''warn'', ''error''})
            (EnvLogLevel @ '' '' @ q (lg_level (cf_log c)) @ '': want debug|info|warn|error''),
          fails (lg_format (cf_log c) \<notin> {''json'', ''text''})
            (EnvLogFormat @ '' '' @ q (lg_format (cf_log c)) @ '': want json|text'')]))"

section \<open>Loading\<close>

definition env_or :: "config_env \<Rightarrow> string \<Rightarrow> string \<Rightarrow> string" where
  "env_or cv key def = (case lookup_env cv key of Some v \<Rightarrow> v | None \<Rightarrow> def)"

text \<open>\<^verbatim>\<open>strings.TrimRight(s, "/")\<close>.\<close>

definition trim_slashes :: "string \<Rightarrow> string" where
  "trim_slashes s = rev (dropWhile (\<lambda>c. c = CHR ''/'') (rev s))"

definition load_api_key :: "config_env \<Rightarrow> deepseek_config \<Rightarrow> go_error + deepseek_config" where
  "load_api_key cv d =
     (case lookup_env cv EnvDeepSeekAPIKeyFile of
        Some v \<Rightarrow>
          let path = expand_home cv (trim_space v) in
          (case cv_read_file cv path of
             Inl e \<Rightarrow> Inl (config_error EnvDeepSeekAPIKeyFile e)
           | Inr key \<Rightarrow>
               if trim_space key = [] then Inl (config_text (EnvDeepSeekAPIKeyFile @ '' names an empty key file''))
               else Inr (d\<lparr>dk_api_key := trim_space key, dk_api_key_file := path\<rparr>))
      | None \<Rightarrow>
          (case lookup_env cv EnvDeepSeekAPIKey of
             Some v \<Rightarrow> Inr (d\<lparr>dk_api_key := trim_space v\<rparr>)
           | None \<Rightarrow> Inr d))"

definition load_duration :: "config_env \<Rightarrow> string \<Rightarrow> int \<Rightarrow> go_error + int" where
  "load_duration cv key def =
     (case lookup_env cv key of
        None \<Rightarrow> Inr def
      | Some v \<Rightarrow> (case cv_duration cv v of Inl e \<Rightarrow> Inl (config_error key e) | Inr d \<Rightarrow> Inr d))"

text \<open>\<^verbatim>\<open>strconv.ParseInt\<close> at base ten; its error, as \<^verbatim>\<open>NumError\<close> prints it.\<close>

definition parse_int_error :: "config_env \<Rightarrow> string \<Rightarrow> go_error" where
  "parse_int_error cv s =
     (let ds = (if s \<noteq> [] \<and> hd s \<in> {CHR ''-'', CHR ''+''} then tl s else s) in
      PlainError (''strconv.ParseInt: parsing '' @ go_quote (cv_quote cv) s @
        (if ds \<noteq> [] \<and> list_all dec_digit ds then '': value out of range'' else '': invalid syntax'')))"

definition load_max_body :: "config_env \<Rightarrow> int \<Rightarrow> go_error + int" where
  "load_max_body cv def =
     (case lookup_env cv EnvMaxBodyBytes of
        None \<Rightarrow> Inr def
      | Some v \<Rightarrow>
          (case atoi v of None \<Rightarrow> Inl (config_error EnvMaxBodyBytes (parse_int_error cv v)) | Some n \<Rightarrow> Inr n))"

definition load_overrides :: "config_env \<Rightarrow> go_error + alias_override list" where
  "load_overrides cv =
     (case lookup_env cv EnvRoutingAliasOverrides of
        None \<Rightarrow> Inr []
      | Some v \<Rightarrow>
          (case parse_alias_overrides cv v of
             Inl e \<Rightarrow> Inl (config_error EnvRoutingAliasOverrides e)
           | Inr ovs \<Rightarrow> Inr ovs))"

definition load_multiplier :: "config_env \<Rightarrow> go_error + rat option" where
  "load_multiplier cv =
     (case lookup_env cv EnvClaudePlanMultiplier of
        None \<Rightarrow> Inr None
      | Some v \<Rightarrow>
          (case cv_float cv v of
             None \<Rightarrow> Inl (config_text (EnvClaudePlanMultiplier @ '' must be a finite number''))
           | Some f \<Rightarrow> Inr (Some f)))"

text \<open>The strings, as they are cleaned after every override was read.\<close>

definition load_codex :: "config_env \<Rightarrow> int \<Rightarrow> int \<Rightarrow> codex_config" where
  "load_codex cv skew lock =
     (let d = cf_codex default_config in
      \<lparr>cx_base_url = trim_slashes (trim_space (env_or cv EnvCodexBaseURL (cx_base_url d))),
       cx_auth_file = resolve_codex_auth_file cv, cx_cache_file = resolve_codex_cache_file cv,
       cx_token_url = trim_slashes (trim_space (env_or cv EnvCodexTokenURL (cx_token_url d))),
       cx_client_id = cx_client_id d, cx_refresh_skew = skew, cx_lock_timeout = lock,
       cx_transport = to_lower (cv_lower cv) (trim_space (env_or cv EnvCodexTransport (cx_transport d))),
       cx_client_version = trim_space (env_or cv EnvCodexClientVersion (cx_client_version d)),
       cx_executable = trim_space (env_or cv EnvCodexExecutable (cx_executable d))\<rparr>)"

definition load_log :: "config_env \<Rightarrow> log_config" where
  "load_log cv =
     (let d = cf_log default_config in
      \<lparr>lg_level = to_lower (cv_lower cv) (trim_space (env_or cv EnvLogLevel (lg_level d))),
       lg_format = to_lower (cv_lower cv) (trim_space (env_or cv EnvLogFormat (lg_format d))),
       lg_trace_dir = trim_space (env_or cv EnvTraceDir (lg_trace_dir d))\<rparr>)"

definition load_report :: "config_env \<Rightarrow> int \<Rightarrow> int \<Rightarrow> rat option \<Rightarrow> report_config" where
  "load_report cv ttl timeout multiplier =
     (let d = cf_report default_config in
      \<lparr>rc_runner = trim_space (env_or cv EnvCCUsageRunner (rc_runner d)),
       rc_executable = trim_space (env_or cv EnvCCUsageExecutable (rc_executable d)),
       rc_version = trim_space (env_or cv EnvCCUsageVersion (rc_version d)),
       rc_cache_ttl = ttl, rc_timeout = timeout,
       rc_plan = trim_space (env_or cv EnvClaudePlan (rc_plan d)), rc_multiplier = multiplier\<rparr>)"

definition load_from :: "config_env \<Rightarrow> go_error + configuration" where
  "load_from cv =
     (let d = default_config in
      case load_api_key cv ((cf_deepseek d)\<lparr>dk_base_url := env_or cv EnvDeepSeekBaseURL (dk_base_url (cf_deepseek d))\<rparr>) of
        Inl e \<Rightarrow> Inl e | Inr ds \<Rightarrow>
      (case load_overrides cv of Inl e \<Rightarrow> Inl e | Inr ovs \<Rightarrow>
      (case load_max_body cv (lm_max_body (cf_limits d)) of Inl e \<Rightarrow> Inl e | Inr body \<Rightarrow>
      (case load_duration cv EnvUpstreamIdleTimeout (lm_upstream_idle (cf_limits d)) of Inl e \<Rightarrow> Inl e | Inr upstream \<Rightarrow>
      (case load_duration cv EnvIdleTimeout (id_timeout (cf_idle d)) of Inl e \<Rightarrow> Inl e | Inr idle \<Rightarrow>
      (case load_duration cv EnvCodexRefreshSkew (cx_refresh_skew (cf_codex d)) of Inl e \<Rightarrow> Inl e | Inr skew \<Rightarrow>
      (case load_duration cv EnvCodexLockTimeout (cx_lock_timeout (cf_codex d)) of Inl e \<Rightarrow> Inl e | Inr lock \<Rightarrow>
      (case load_duration cv (env_key cv EnvProviderReportCacheTTL) (rc_cache_ttl (cf_report d)) of Inl e \<Rightarrow> Inl e | Inr ttl \<Rightarrow>
      (case load_duration cv (env_key cv EnvProviderReportTimeout) (rc_timeout (cf_report d)) of Inl e \<Rightarrow> Inl e | Inr timeout \<Rightarrow>
      (case load_multiplier cv of Inl e \<Rightarrow> Inl e | Inr multiplier \<Rightarrow>
         let c = \<lparr>cf_listen = trim_space (env_or cv EnvListen (cf_listen d)),
                  cf_local_token = env_or cv EnvLocalToken (cf_local_token d),
                  cf_limits = \<lparr>lm_max_body = body, lm_upstream_idle = upstream\<rparr>,
                  cf_anthropic_url = trim_slashes (trim_space (env_or cv EnvAnthropicBaseURL (cf_anthropic_url d))),
                  cf_deepseek = ds\<lparr>dk_base_url := trim_slashes (trim_space (dk_base_url ds))\<rparr>,
                  cf_codex = load_codex cv skew lock, cf_overrides = ovs,
                  cf_idle = \<lparr>id_timeout = idle, id_explicit = (lookup_env cv EnvIdleTimeout \<noteq> None)\<rparr>,
                  cf_socket = trim_space (env_or cv EnvLaunchdSocketName (cf_socket d)),
                  cf_log = load_log cv, cf_report = load_report cv ttl timeout multiplier\<rparr>
         in case validate_config cv c of Some e \<Rightarrow> Inl e | None \<Rightarrow> Inr c))))))))))"

text \<open>\<^verbatim>\<open>idlePolicy\<close> of \<^verbatim>\<open>cmd/utraque/main.go\<close>: an hour under socket activation, unless it was set.\<close>

definition idle_policy :: "idle_config \<Rightarrow> bool \<Rightarrow> idle_config" where
  "idle_policy i launchd = (if id_explicit i \<or> \<not> launchd then i else i\<lparr>id_timeout := 3600 * second\<rparr>)"

section \<open>Rendering\<close>

definition fingerprint :: "config_env \<Rightarrow> string \<Rightarrow> string" where
  "fingerprint cv s = (if s = [] then [] else ''sha256:'' @ hex_encode (take 4 (cv_sha256 cv s)))"

definition token_field :: "config_env \<Rightarrow> string \<Rightarrow> string" where
  "token_field cv tok = (if tok = [] then ''none'' else fingerprint cv tok)"

definition bool_text :: "bool \<Rightarrow> string" where
  "bool_text b = (if b then ''true'' else ''false'')"

definition join_overrides :: "alias_override list \<Rightarrow> string" where
  "join_overrides ovs = join_with '' '' (map override_text ovs)"

text \<open>The fields of \<^verbatim>\<open>String\<close>; \<^verbatim>\<open>LogValue\<close> has the same under its own keys.\<close>

definition config_fields :: "config_env \<Rightarrow> configuration \<Rightarrow> (string \<times> string) list" where
  "config_fields cv c =
     (let x = cf_codex c; ds = cf_deepseek c; r = cf_report c; d = cv_duration_text cv in
      [(''listen'', cf_listen c), (''local_token'', token_field cv (cf_local_token c)),
       (''max_body_bytes'', itoa (lm_max_body (cf_limits c))),
       (''upstream_idle_timeout'', d (lm_upstream_idle (cf_limits c))),
       (''anthropic.base_url'', redact_url cv (cf_anthropic_url c)),
       (''deepseek.base_url'', redact_url cv (dk_base_url ds)),
       (''deepseek.configured'', bool_text (deepseek_configured ds)),
       (''deepseek.api_key_file'', dk_api_key_file ds),
       (''codex.base_url'', redact_url cv (cx_base_url x)), (''codex.auth_file'', cx_auth_file x),
       (''codex.cache_file'', cx_cache_file x), (''codex.token_url'', redact_url cv (cx_token_url x)),
       (''codex.client_id'', cx_client_id x), (''codex.refresh_skew'', d (cx_refresh_skew x)),
       (''codex.lock_timeout'', d (cx_lock_timeout x)), (''codex.transport_mode'', cx_transport x),
       (''codex.client_version'', cx_client_version x),
       (''routing.alias_overrides'', ''['' @ join_overrides (cf_overrides c) @ '']''),
       (''idle_timeout'', d (id_timeout (cf_idle c))), (''launchd.socket'', cf_socket c),
       (''log.level'', lg_level (cf_log c)), (''log.format'', lg_format (cf_log c)),
       (''reporting.ccusage_version'', rc_version r), (''provider_report.cache_ttl'', d (rc_cache_ttl r)),
       (''provider_report.timeout'', d (rc_timeout r)), (''reporting.claude_plan'', rc_plan r),
       (''reporting.claude_plan_multiplier'',
          (case rc_multiplier r of None \<Rightarrow> ''none'' | Some m \<Rightarrow> cv_float_text cv m))])"

definition config_string :: "config_env \<Rightarrow> configuration \<Rightarrow> string" where
  "config_string cv c =
     ''config{'' @ join_with '' '' (map (\<lambda>(k, v). k @ ''='' @ v) (config_fields cv c)) @ ''}''"

end
