(* ===== verification/ConfigProps.thy ===== *)
theory ConfigProps
  imports Config
begin

text \<open>
  What a loaded configuration guarantees to the rest of the program, what its rendering
  does not show, and the syntax of the overrides.
\<close>

section \<open>Validation\<close>

lemma first_problem_None: "first_problem cs = None \<longleftrightarrow> list_all (\<lambda>c. c = None) cs"
  by (induction cs) (auto split: option.splits)

lemma fails_None [simp]: "fails bad msg = None \<longleftrightarrow> \<not> bad"
  by (simp add: fails_def)

text \<open>A URL of an upstream: where it leads is plain, and it carries no credential.\<close>

definition plain_endpoint :: "config_env \<Rightarrow> string \<Rightarrow> bool" where
  "plain_endpoint cv raw \<longleftrightarrow>
     (case cv_parse_url cv raw of
        Inl _ \<Rightarrow> False
      | Inr p \<Rightarrow> up_scheme p \<in> {''http'', ''https''} \<and> up_host p \<noteq> [] \<and> \<not> up_user p \<and> up_query p = [] \<and>
          \<not> up_force_query p \<and> up_fragment p = [])"

lemma validate_endpoint_None: "validate_endpoint cv name raw = None \<longleftrightarrow> raw \<noteq> [] \<and> plain_endpoint cv raw"
  by (simp add: validate_endpoint_def plain_endpoint_def split: sum.split)

lemma validate_listen_None:
  "validate_listen cv listen = None \<longleftrightarrow>
     listen \<noteq> [] \<and> (\<exists>host port n. cv_split_host_port cv listen = Inr (host, port) \<and> port \<noteq> [] \<and>
       atoi port = Some n \<and> 0 \<le> n \<and> n \<le> 65535)"
  by (auto simp: validate_listen_def Let_def split: sum.splits option.splits)

text \<open>What comes of a load that succeeds.\<close>

lemma load_from_Inr:
  assumes "load_from cv = Inr c"
  shows "validate_config cv c = None \<and> (\<exists>ttl timeout m. cf_report c = load_report cv ttl timeout m) \<and>
    cf_log c = load_log cv \<and> (\<exists>skew lock. cf_codex c = load_codex cv skew lock) \<and>
    cf_local_token c = env_or cv EnvLocalToken [] \<and>
    (\<exists>d ds. load_api_key cv d = Inr ds \<and> cf_deepseek c = ds\<lparr>dk_base_url := trim_slashes (trim_space (dk_base_url ds))\<rparr>)"
proof -
  obtain ds ovs body upstream idle skew lock ttl timeout m where
    ds: "load_api_key cv ((cf_deepseek default_config)\<lparr>dk_base_url :=
        env_or cv EnvDeepSeekBaseURL (dk_base_url (cf_deepseek default_config))\<rparr>) = Inr ds" and
    c: "c = \<lparr>cf_listen = trim_space (env_or cv EnvListen (cf_listen default_config)),
      cf_local_token = env_or cv EnvLocalToken (cf_local_token default_config),
      cf_limits = \<lparr>lm_max_body = body, lm_upstream_idle = upstream\<rparr>,
      cf_anthropic_url = trim_slashes (trim_space (env_or cv EnvAnthropicBaseURL (cf_anthropic_url default_config))),
      cf_deepseek = ds\<lparr>dk_base_url := trim_slashes (trim_space (dk_base_url ds))\<rparr>,
      cf_codex = load_codex cv skew lock, cf_overrides = ovs,
      cf_idle = \<lparr>id_timeout = idle, id_explicit = (lookup_env cv EnvIdleTimeout \<noteq> None)\<rparr>,
      cf_socket = trim_space (env_or cv EnvLaunchdSocketName (cf_socket default_config)),
      cf_log = load_log cv, cf_report = load_report cv ttl timeout m\<rparr>" and
    v: "validate_config cv c = None"
    using assms unfolding load_from_def Let_def by (auto split: sum.splits option.splits)
  have "\<exists>d ds'. load_api_key cv d = Inr ds' \<and>
      cf_deepseek c = ds'\<lparr>dk_base_url := trim_slashes (trim_space (dk_base_url ds'))\<rparr>"
    using ds by (intro exI conjI) (simp_all add: c)
  moreover have "cf_local_token c = env_or cv EnvLocalToken []" by (simp add: c default_config_def)
  moreover have "\<exists>ttl timeout m. cf_report c = load_report cv ttl timeout m"
    "\<exists>skew lock. cf_codex c = load_codex cv skew lock" "cf_log c = load_log cv"
    by (auto simp: c)
  ultimately show ?thesis using v by blast
qed


definition demo_config_env :: config_env where
  "demo_config_env =
     \<lparr>cv_getenv = (\<lambda>k. []), cv_read_file = (\<lambda>p. Inl (PlainError [])), cv_user_home = None, cv_cache_dir = None,
      cv_join = concat, cv_duration = (\<lambda>s. Inr 0), cv_duration_text = itoa, cv_float = (\<lambda>s. None),
      cv_float_text = (\<lambda>r. []), cv_split_host_port = (\<lambda>s. Inr (''127.0.0.1'', ''8317'')),
      cv_parse_url = (\<lambda>s. Inr \<lparr>up_scheme = ''https'', up_host = ''h'', up_user = False, up_query = [],
        up_force_query = False, up_fragment = [], up_bare = s\<rparr>),
      cv_lower = id, cv_quote = id, cv_sha256 = id\<rparr>"

lemma demo_trimmed:
  "trim_space ''127.0.0.1:8317'' = ''127.0.0.1:8317''" "trim_space ''codex'' = ''codex''" "trim_space ''bunx'' = ''bunx''"
  "trim_space ''latest'' = ''latest''" "trim_space ''auto'' = ''auto''" "trim_space ''info'' = ''info''"
  "trim_space ''json'' = ''json''" "trim_space ''Listener'' = ''Listener''"
  "trim_space ''https://api.anthropic.com'' = ''https://api.anthropic.com''"
  "trim_space ''https://api.deepseek.com/anthropic'' = ''https://api.deepseek.com/anthropic''"
  "trim_space ''https://chatgpt.com/backend-api/codex'' = ''https://chatgpt.com/backend-api/codex''"
  "trim_space ''https://auth.openai.com/oauth/token'' = ''https://auth.openai.com/oauth/token''"
  "trim_space [] = []"
  "to_lower u ''auto'' = ''auto''" "to_lower u ''info'' = ''info''" "to_lower u ''json'' = ''json''"
  by (simp_all add: trim_space_graphic graphic_def to_lower_lower_ascii lower_ascii_def)

lemma demo_port: "atoi ''8317'' = Some 8317"
  by (simp add: atoi_def digits_value_def dec_digit_def is_i64_def)

definition demo_loaded :: configuration where
  "demo_loaded = default_config
     \<lparr>cf_codex := (cf_codex default_config)\<lparr>cx_auth_file := ''.codexauth.json''\<rparr>\<rparr>"

lemma demo_lookup: "lookup_env demo_config_env k = None" "env_or demo_config_env k d = d" "env_key demo_config_env k = k"
  by (simp_all add: lookup_env_def demo_config_env_def env_or_def env_key_def deprecated_env_aliases_def)

lemma demo_env_fields:
  "cv_getenv demo_config_env k = []" "cv_join demo_config_env = concat" "cv_user_home demo_config_env = None"
  "cv_cache_dir demo_config_env = None"
  by (simp_all add: demo_config_env_def)

lemma demo_parts:
  "load_codex demo_config_env (cx_refresh_skew (cf_codex default_config)) (cx_lock_timeout (cf_codex default_config)) =
     cf_codex demo_loaded"
  "load_log demo_config_env = cf_log default_config"
  "load_report demo_config_env (rc_cache_ttl (cf_report default_config)) (rc_timeout (cf_report default_config)) None =
     cf_report default_config"
  by (simp_all add: load_codex_def load_log_def load_report_def demo_lookup default_config_def demo_loaded_def
      demo_trimmed trim_slashes_def resolve_codex_auth_file_def resolve_codex_cache_file_def home_dir_def Let_def
      demo_env_fields)

lemma demo_valid: "validate_config demo_config_env demo_loaded = None"
proof -
  have "validate_listen demo_config_env ''127.0.0.1:8317'' = None"
    by (simp add: validate_listen_None demo_port) (simp add: demo_config_env_def demo_port)
  moreover have "plain_endpoint demo_config_env s" for s by (simp add: plain_endpoint_def demo_config_env_def)
  ultimately show ?thesis
    unfolding validate_config_def Let_def first_problem_None
    by (simp add: validate_endpoint_None demo_loaded_def default_config_def validate_report_def
        validate_report_limits_def bad_executable_def demo_trimmed second_def)
qed

lemma demo_loads: "\<exists>c. load_from demo_config_env = Inr c"
proof -
  have "load_from demo_config_env = Inr demo_loaded"
    unfolding load_from_def Let_def
    by (simp add: load_api_key_def load_overrides_def load_max_body_def load_duration_def load_multiplier_def demo_lookup
        demo_parts) (use demo_valid demo_parts in
          \<open>simp add: demo_loaded_def default_config_def demo_trimmed trim_slashes_def demo_lookup\<close>)
  then show ?thesis by blast
qed


text \<open>
  The helpers of the provider report are checked when the configuration is loaded, not when the
  report is asked for: a version of ccusage that is no single token keeps the process from
  starting.
\<close>

lemma bad_report_helper_blocks_start:
  assumes "cv_getenv cv EnvCCUsageVersion = ''1 2''" "cv_getenv cv EnvCCUsageExecutable = []"
  shows "load_from cv \<noteq> Inr c"
proof
  assume "load_from cv = Inr c"
  from load_from_Inr [OF this] obtain ttl timeout m where
    v: "validate_config cv c = None" and r: "cf_report c = load_report cv ttl timeout m" by blast
  have "trim_space ''1 2'' = ''1 2''" by code_simp
  then have "rc_version (cf_report c) = ''1 2''" "rc_executable (cf_report c) = []"
    using assms by (simp_all add: r load_report_def env_or_def lookup_env_def Let_def default_config_def demo_trimmed)
  moreover have "list_all (\<lambda>c. c = None) (validate_report cv (cf_report c))"
    using v unfolding validate_config_def Let_def first_problem_None by simp
  ultimately show False by (simp add: validate_report_def)
qed

section \<open>Rendering\<close>

text \<open>The rendering shows of the token its fingerprint only, and of the key whether there is one.\<close>

lemma config_string_hides_secrets:
  assumes "fingerprint cv t = fingerprint cv (cf_local_token c)" "t = [] \<longleftrightarrow> cf_local_token c = []"
    and "k = [] \<longleftrightarrow> dk_api_key (cf_deepseek c) = []"
  shows "config_string cv (c\<lparr>cf_local_token := t, cf_deepseek := (cf_deepseek c)\<lparr>dk_api_key := k\<rparr>\<rparr>) = config_string cv c"
  using assms by (simp add: config_string_def config_fields_def token_field_def deepseek_configured_def Let_def)

section \<open>Alias overrides\<close>

text \<open>The fields of an override that can be written down.\<close>

definition plain_field :: "string \<Rightarrow> bool" where
  "plain_field s \<longleftrightarrow> list_all graphic s \<and> CHR '','' \<notin> set s \<and> CHR '':'' \<notin> set s"

definition plain_override :: "alias_override \<Rightarrow> bool" where
  "plain_override a \<longleftrightarrow>
     plain_field (ao_slug a) \<and> plain_field (ao_codename a) \<and> plain_field (ao_version a) \<and> plain_field (ao_modifier a) \<and>
     lower_ascii (ao_slug a) \<and> lower_ascii (ao_codename a) \<and> lower_ascii (ao_modifier a) \<and>
     ao_slug a \<noteq> [] \<and> CHR ''='' \<notin> set (ao_slug a) \<and> \<not> (ao_codename a = [] \<and> ao_version a = [])"

lemma plain_field_read: "plain_field s \<Longrightarrow> trim_space s = s"
  by (simp add: plain_field_def trim_space_graphic)

lemma parse_override_text:
  assumes "plain_override a"
  shows "parse_override cv (override_text a) = Inr a"
proof -
  let ?spec = "ao_codename a @ CHR '':'' # ao_version a @ (if ao_modifier a \<noteq> [] then '':'' @ ao_modifier a else [])"
  have shown: "override_text a = ao_slug a @ CHR ''='' # ?spec" by (simp add: override_text_def)
  have slug: "takeWhile (\<lambda>c. c \<noteq> CHR ''='') (override_text a) = ao_slug a"
    and spec: "drop 1 (dropWhile (\<lambda>c. c \<noteq> CHR ''='') (override_text a)) = ?spec"
    using assms unfolding shown plain_override_def by (simp_all add: takeWhile_tail takeWhile_append dropWhile_append)
  have parts: "split_on CHR '':'' ?spec =
      [ao_codename a, ao_version a] @ (if ao_modifier a \<noteq> [] then [ao_modifier a] else [])"
    using assms by (simp add: plain_override_def plain_field_def split_on_append split_on_whole)
  have "CHR ''='' \<in> set (override_text a)" by (simp add: shown)
  with assms show ?thesis
    unfolding parse_override_def Let_def slug spec parts
    by (simp add: plain_override_def plain_field_read to_lower_lower_ascii)
qed

text \<open>
  An override is read back as it is shown. The list that an operator sees of
  the overrides, each in the syntax of the environment and put together with commas, is
  accepted by the parser and yields the same overrides in the same order.
\<close>

theorem alias_overrides_roundtrip:
  assumes "list_all plain_override ovs"
  shows "parse_alias_overrides cv (join_with '','' (map override_text ovs)) = Inr ovs"
proof (cases "ovs = []")
  case True
  then show ?thesis by (simp add: parse_alias_overrides_def demo_trimmed)
next
  case False
  have plain: "CHR '','' \<notin> set (override_text a) \<and> trim_space (override_text a) = override_text a \<and> override_text a \<noteq> []"
    if "plain_override a" for a
  proof -
    have "list_all graphic (override_text a)"
      using that by (simp add: override_text_def plain_override_def plain_field_def graphic_def)
    then show ?thesis
      using that by (auto simp: trim_space_graphic override_text_def plain_override_def plain_field_def)
  qed
  have "split_on CHR '','' (join_with '','' (map override_text ovs)) = map override_text ovs"
    using False assms plain by (intro split_on_join) (auto simp: list_all_iff)
  moreover have "map trim_space (map override_text ovs) = map override_text ovs"
    using assms plain by (simp add: list_all_iff)
  moreover have "filter (\<lambda>e. e \<noteq> []) (map override_text ovs) = map override_text ovs"
    using assms plain by (intro filter_True) (auto simp: list_all_iff)
  moreover have "traverse (parse_override cv) (map override_text ovs) = Inr ovs"
    using assms by (simp add: traverse_Inr list_all2_conv_all_nth list_all_length parse_override_text)
  ultimately show ?thesis unfolding parse_alias_overrides_def by (simp only:)
qed

theorem alias_overrides_roundtrip_witness:
  "parse_alias_overrides demo_config_env ''gpt-5.3-codex-spark=spark:5.3'' =
     Inr [\<lparr>ao_slug = ''gpt-5.3-codex-spark'', ao_codename = ''spark'', ao_version = ''5.3'', ao_modifier = []\<rparr>]"
proof -
  let ?a = "\<lparr>ao_slug = ''gpt-5.3-codex-spark'', ao_codename = ''spark'', ao_version = ''5.3'', ao_modifier = []\<rparr>"
  have "list_all plain_override [?a]"
    by (simp add: plain_override_def plain_field_def graphic_def lower_ascii_def)
  from alias_overrides_roundtrip [OF this, of demo_config_env] show ?thesis by (simp add: override_text_def)
qed

end
