(* ===== verification/CodexVersion.thy ===== *)
theory CodexVersion
  imports Config Catalog Scrub
begin

text \<open>
  \<^verbatim>\<open>cmd/utraque/codex_version.go\<close>: the probe that finds out which Codex CLI is installed, for the
  version that the catalog client sends. The mutex makes each check a step. What the file
  system, the clock and the run of the executable answer are inputs; logging is left out. The
  theorem at the end says what the catalog client may rely on.
\<close>

section \<open>The output of the executable\<close>

definition codexVersionMaxText :: nat where "codexVersionMaxText = 4 * 2 ^ 10"
definition codexVersionMaxAge :: int where "codexVersionMaxAge = 3600 * second"

text \<open>
  \<^verbatim>\<open>strings.Fields\<close>. \<open>acc\<close> is the field so far and \<open>k\<close> the bytes of a blank that are still to
  be skipped.
\<close>

definition flush_field :: "string \<Rightarrow> string list" where
  "flush_field acc = (if acc = [] then [] else [acc])"

fun fields_from :: "string \<Rightarrow> nat \<Rightarrow> string \<Rightarrow> string list" where
  "fields_from acc k [] = flush_field acc"
| "fields_from acc (Suc k) (c # cs) = fields_from acc k cs"
| "fields_from acc 0 (c # cs) =
     (case find (\<lambda>w. prefix w (c # cs)) white_space of
        None \<Rightarrow> fields_from (acc @ [c]) 0 cs
      | Some w \<Rightarrow> flush_field acc @ fields_from [] (length w - 1) cs)"

definition string_fields :: "string \<Rightarrow> string list" where
  "string_fields s = fields_from [] 0 s"

text \<open>
  \<^verbatim>\<open>codexSemver\<close>. A hyphen cannot stand in the numbers and a plus sign nowhere but before the
  build, so that the first ones divide the text.
\<close>

definition semver_tail :: "string \<Rightarrow> bool" where
  "semver_tail s \<longleftrightarrow> list_all (\<lambda>p. p \<noteq> [] \<and> list_all alnum p) (concat (map (split_on CHR ''-'') (split_on CHR ''.'' s)))"

definition codex_semver :: "string \<Rightarrow> bool" where
  "codex_semver s \<longleftrightarrow>
     (let core = takeWhile (\<lambda>c. c \<noteq> CHR ''-'' \<and> c \<noteq> CHR ''+'') s;
          rest = drop (length core) s;
          pre = takeWhile (\<lambda>c. c \<noteq> CHR ''+'') rest;
          build = drop (length pre) rest;
          numbers = split_on CHR ''.'' core
      in length numbers = 3 \<and> list_all (\<lambda>n. n \<noteq> [] \<and> list_all dec_digit n) numbers \<and>
         (pre = [] \<or> semver_tail (tl pre)) \<and> (build = [] \<or> semver_tail (tl build)))"

definition parse_codex_version :: "(string \<Rightarrow> string) \<Rightarrow> string \<Rightarrow> go_error + string" where
  "parse_codex_version quote out =
     (case string_fields out of
        [name, version] \<Rightarrow>
          if name = ''codex-cli'' \<and> codex_semver version then Inr version
          else Inl (PlainError (''unexpected version output '' @ go_quote quote (trim_space out) @ ''; want '' @
                  go_quote quote ''codex-cli <semantic-version>''))
      | _ \<Rightarrow> Inl (PlainError (''unexpected version output '' @ go_quote quote (trim_space out) @ ''; want '' @
                  go_quote quote ''codex-cli <semantic-version>'')))"

record bounded_buffer =
  bb_buf :: string
  bb_max :: nat
  bb_truncated :: bool

definition buffer_write :: "string \<Rightarrow> bounded_buffer \<Rightarrow> bounded_buffer" where
  "buffer_write p b =
     (let remaining = bb_max b - length (bb_buf b) in
      b\<lparr>bb_buf := bb_buf b @ take remaining p, bb_truncated := bb_truncated b \<or> remaining < length p\<rparr>)"

text \<open>
  One run: \<open>ended\<close> is the error of its context, \<open>err\<close> that of the command, and \<open>chunks\<close> are the
  writes to its standard output.
\<close>

record version_run =
  vr_ended :: "go_error option"
  vr_err :: "go_error option"
  vr_chunks :: "string list"

definition discover_codex_client_version :: "(string \<Rightarrow> string) \<Rightarrow> version_run \<Rightarrow> go_error + string" where
  "discover_codex_client_version quote r =
     (let stdout = fold buffer_write (vr_chunks r) \<lparr>bb_buf = [], bb_max = codexVersionMaxText, bb_truncated = False\<rparr> in
      case vr_ended r of
        Some e \<Rightarrow> Inl (Wrapped (''version command: '' @ error_text e) e)
      | None \<Rightarrow>
          (case vr_err r of
             Some e \<Rightarrow> Inl (Wrapped (''version command failed: '' @ error_text e) e)
           | None \<Rightarrow>
               if bb_truncated stdout then
                 Inl (PlainError (''version command produced more than '' @ itoa (int codexVersionMaxText) @ '' bytes on stdout''))
               else parse_codex_version quote (bb_buf stdout)))"

section \<open>The fingerprint\<close>

record exe_fingerprint =
  xf_path :: string
  xf_target :: string
  xf_size :: int
  xf_mod_time :: int
  xf_dev :: int
  xf_ino :: int

definition zero_fingerprint :: exe_fingerprint where
  "zero_fingerprint = \<lparr>xf_path = [], xf_target = [], xf_size = 0, xf_mod_time = 0, xf_dev = 0, xf_ino = 0\<rparr>"

text \<open>\<open>look_path\<close>, \<open>links\<close> and \<open>stat\<close> are \<^verbatim>\<open>exec.LookPath\<close>, \<^verbatim>\<open>filepath.EvalSymlinks\<close> and \<^verbatim>\<open>os.Stat\<close>.\<close>

definition fingerprint_executable ::
  "(string \<Rightarrow> go_error + string) \<Rightarrow> (string \<Rightarrow> go_error + string) \<Rightarrow> (string \<Rightarrow> go_error + int \<times> int \<times> int \<times> int) \<Rightarrow>
   string \<Rightarrow> go_error + exe_fingerprint" where
  "fingerprint_executable look_path links stat executable =
     (case (if CHR ''/'' \<in> set executable then Inr executable else look_path executable) of
        Inl e \<Rightarrow> Inl e
      | Inr path \<Rightarrow>
          (case links path of
             Inl e \<Rightarrow> Inl e
           | Inr target \<Rightarrow>
               (case stat target of
                  Inl e \<Rightarrow> Inl e
                | Inr (sz, mtime, dev, ino) \<Rightarrow>
                    Inr \<lparr>xf_path = path, xf_target = target, xf_size = sz, xf_mod_time = mtime, xf_dev = dev, xf_ino = ino\<rparr>)))"

section \<open>The probe\<close>

record version_probe =
  vp_executable :: string
  vp_version :: string
  vp_fp :: exe_fingerprint
  vp_probed_at :: int
  vp_stat_failing :: bool

definition new_version_probe :: "string \<Rightarrow> version_probe" where
  "new_version_probe executable =
     \<lparr>vp_executable = executable, vp_version = [], vp_fp = zero_fingerprint, vp_probed_at = 0, vp_stat_failing = False\<rparr>"

definition discover_initial ::
  "go_error + exe_fingerprint \<Rightarrow> go_error + string \<Rightarrow> int \<Rightarrow> version_probe \<Rightarrow> (go_error + string) \<times> version_probe" where
  "discover_initial stat run now p =
     (let fp = (case stat of Inl _ \<Rightarrow> zero_fingerprint | Inr fp \<Rightarrow> fp) in
      case run of
        Inl e \<Rightarrow> (Inl e, p)
      | Inr v \<Rightarrow> (Inr v, p\<lparr>vp_version := v, vp_fp := fp, vp_probed_at := now\<rparr>))"

text \<open>
  \<^verbatim>\<open>ClientVersion\<close>: \<open>run\<close> is what a run would answer, \<open>gone\<close> whether the caller has given up by then,
  and \<open>later\<close> the time after it. The second part of the result says whether the executable was run.
\<close>

definition client_version ::
  "go_error + exe_fingerprint \<Rightarrow> int \<Rightarrow> go_error + string \<Rightarrow> bool \<Rightarrow> int \<Rightarrow> version_probe \<Rightarrow> string \<times> bool \<times> version_probe" where
  "client_version stat now run gone later p =
     (case stat of
        Inl _ \<Rightarrow> (vp_version p, False, p\<lparr>vp_stat_failing := True\<rparr>)
      | Inr fp \<Rightarrow>
          let p = p\<lparr>vp_stat_failing := False\<rparr> in
          if fp = vp_fp p \<and> now - vp_probed_at p < codexVersionMaxAge then (vp_version p, False, p)
          else case run of
            Inl e \<Rightarrow>
              if gone then (vp_version p, True, p)
              else (vp_version p, True, p\<lparr>vp_fp := fp, vp_probed_at := later\<rparr>)
          | Inr v \<Rightarrow> (v, True, p\<lparr>vp_fp := fp, vp_probed_at := later, vp_version := v\<rparr>))"

text \<open>\<^verbatim>\<open>versionFunc\<close>, as the catalog client calls it: without a probe there is no function.\<close>

definition version_answer ::
  "version_probe option \<Rightarrow> go_error + exe_fingerprint \<Rightarrow> int \<Rightarrow> go_error + string \<Rightarrow> bool \<Rightarrow> int \<Rightarrow> string option" where
  "version_answer p stat now run gone later = map_option (\<lambda>p. fst (client_version stat now run gone later p)) p"

definition resolve_codex_client_version ::
  "configuration option \<Rightarrow> go_error + exe_fingerprint \<Rightarrow> go_error + string \<Rightarrow> int \<Rightarrow>
   (go_error + version_probe option) \<times> configuration option" where
  "resolve_codex_client_version cfg stat run now =
     (case cfg of
        None \<Rightarrow> (Inl (PlainError ''discover Codex client version: nil config''), None)
      | Some c \<Rightarrow>
          if cx_client_version (cf_codex c) \<noteq> [] then (Inr None, Some c)
          else case discover_initial stat run now (new_version_probe (cx_executable (cf_codex c))) of
            (Inl e, p) \<Rightarrow>
              (Inl (Wrapped (''discover Codex client version with '' @ EnvCodexExecutable @ '' --version: '' @ error_text e @
                 ''; install/configure Codex or set '' @ EnvCodexClientVersion @ '' explicitly'') e), Some c)
          | (Inr v, p) \<Rightarrow> (Inr (Some p), Some (c\<lparr>cf_codex := (cf_codex c)\<lparr>cx_client_version := v\<rparr>\<rparr>)))"

section \<open>What the catalog client may rely on\<close>

text \<open>A probe from start-up on, with the versions that runs of the executable have printed.\<close>

inductive probe_reach :: "(string \<Rightarrow> string) \<Rightarrow> version_probe \<Rightarrow> string set \<Rightarrow> bool" for quote where
  discovered: "resolve_codex_client_version (Some c) stat (discover_codex_client_version quote r) now = (Inr (Some p), c') \<Longrightarrow>
     discover_codex_client_version quote r = Inr v \<Longrightarrow> probe_reach quote p {v}"
| checked: "probe_reach quote p vs \<Longrightarrow>
     client_version stat now (discover_codex_client_version quote r) gone later p = (v, did, p') \<Longrightarrow>
     probe_reach quote p' (if did then vs \<union> set_option (case discover_codex_client_version quote r of Inl _ \<Rightarrow> None | Inr u \<Rightarrow> Some u) else vs)"

lemma printed_semver:
  "discover_codex_client_version quote r = Inr v \<Longrightarrow> codex_semver v"
  by (auto simp: discover_codex_client_version_def parse_codex_version_def Let_def
      split: option.splits if_splits list.splits)

lemma semver_nonempty: "codex_semver v \<Longrightarrow> v \<noteq> []"
  by (auto simp: codex_semver_def Let_def)

lemma client_version_cases:
  assumes "client_version stat now run gone later p = (v, did, p')"
  shows "v = vp_version p' \<and>
    (did \<longrightarrow> (\<exists>fp. stat = Inr fp \<and> (fp \<noteq> vp_fp p \<or> codexVersionMaxAge \<le> now - vp_probed_at p))) \<and>
    v = (case run of Inr u \<Rightarrow> if did then u else vp_version p | Inl _ \<Rightarrow> vp_version p)"
  using assms by (auto simp: client_version_def Let_def split: sum.splits if_splits)

lemma client_version_settles:
  assumes "client_version stat now run gone later p = (v, True, p')" "(\<exists>u. run = Inr u) \<or> \<not> gone"
    and "soon - later < codexVersionMaxAge"
  shows "client_version stat soon run' gone' later' p' = (v, False, p')"
  using assms by (auto simp: client_version_def Let_def split: sum.splits if_splits)

lemma probe_reach_version: "probe_reach quote p vs \<Longrightarrow> vp_version p \<in> vs \<and> (\<forall>v \<in> vs. codex_semver v)"
proof (induction rule: probe_reach.induct)
  case (discovered c stat r now p c' v)
  then show ?case
    using printed_semver [of quote r v]
    by (auto simp: resolve_codex_client_version_def discover_initial_def Let_def split: if_splits)
next
  case (checked p vs stat now r gone later v did p')
  show ?case
    using client_version_cases [OF checked.hyps(2)] checked.IH printed_semver [of quote r]
    by (auto split: sum.splits if_splits)
qed

text \<open>
  Property (C40): the version that is sent was printed by the installed CLI, and asking is cheap. At every check
  the answer is a semantic version that some run of the executable printed, the newest one if a run
  succeeds now and the last good one otherwise, and it is what the next fetch of the catalog sends; the executable is
  run only if its file changed or its age is up, and once an attempt was not cut short, no
  further one follows for the same file within that age, whether it succeeded or not.
\<close>

theorem version_probe_sound:
  assumes "probe_reach quote p vs"
    and "client_version stat now (discover_codex_client_version quote r) gone later p = (v, did, p')"
  shows "codex_semver v \<and> v = vp_version p' \<and>
    (case discover_codex_client_version quote r of
       Inr u \<Rightarrow> if did then v = u else v = vp_version p \<and> v \<in> vs
     | Inl _ \<Rightarrow> v = vp_version p \<and> v \<in> vs) \<and>
    fl_version (fst (begin_fetch (Some v) cat)) = v \<and>
    (did \<longrightarrow> (\<exists>fp. stat = Inr fp \<and> (fp \<noteq> vp_fp p \<or> codexVersionMaxAge \<le> now - vp_probed_at p))) \<and>
    (did \<and> \<not> gone \<and> soon - later < codexVersionMaxAge \<longrightarrow> client_version stat soon run' gone' later' p' = (v, False, p'))"
proof -
  note old = probe_reach_version [OF assms(1)]
  note now = client_version_cases [OF assms(2)]
  have good: "codex_semver v"
    using now old printed_semver [of quote r] by (auto split: sum.splits if_splits)
  then have "fl_version (fst (begin_fetch (Some v) cat)) = v"
    using semver_nonempty by (auto simp: begin_fetch_def resolve_client_version_def Let_def)
  moreover have "did \<and> \<not> gone \<and> soon - later < codexVersionMaxAge \<Longrightarrow> client_version stat soon run' gone' later' p' = (v, False, p')"
    using assms(2) by (cases did) (auto intro: client_version_settles)
  ultimately show ?thesis using good now old by (auto split: sum.splits if_splits)
qed

definition demo_version_run :: version_run where
  "demo_version_run = \<lparr>vr_ended = None, vr_err = None, vr_chunks = [''codex-cli 0.1.2-rc.1'']\<rparr>"

lemma fields_graphic: "list_all graphic f \<Longrightarrow> fields_from acc 0 (f @ s) = fields_from (acc @ f) 0 s"
proof (induction f arbitrary: acc)
  case (Cons c f)
  have "find (\<lambda>w. prefix w (c # f @ s)) white_space = None"
    using Cons.prems white_space_ends white_space_nonempty
    by (auto simp: find_None_iff prefix_Cons) (metis list.sel(1))
  with Cons show ?case by simp
qed simp

lemma fields_blank: "fields_from acc 0 (CHR '' '' # s) = flush_field acc @ fields_from [] 0 s"
proof -
  have blank: "\<forall>w \<in> set white_space. hd w = CHR '' '' \<longrightarrow> w = '' ''" "'' '' \<in> set white_space" by code_simp+
  have "prefix '' '' (CHR '' '' # s)" by simp
  then have "find (\<lambda>w. prefix w (CHR '' '' # s)) white_space \<noteq> None"
    using blank(2) unfolding find_None_iff by blast
  then obtain w where w: "find (\<lambda>w. prefix w (CHR '' '' # s)) white_space = Some w" by blast
  then have "w \<in> set white_space" "prefix w (CHR '' '' # s)" by (auto simp: find_Some_iff)
  moreover from this have "hd w = CHR '' ''"
    using white_space_nonempty [of w] by (auto simp: prefix_Cons)
  ultimately have "w = '' ''" using blank(1) by blast
  with w show ?thesis by simp
qed

lemma demo_version_fields: "string_fields ''codex-cli 0.1.2-rc.1'' = [''codex-cli'', ''0.1.2-rc.1'']"
proof -
  have "fields_from [] 0 (''codex-cli'' @ CHR '' '' # ''0.1.2-rc.1'' @ []) = [''codex-cli'', ''0.1.2-rc.1'']"
    by (subst fields_graphic, simp add: graphic_def, subst fields_blank, subst fields_graphic)
       (simp_all add: graphic_def flush_field_def)
  then show ?thesis by (simp add: string_fields_def)
qed

lemma demo_semver: "codex_semver ''0.1.2-rc.1''"
  by code_simp

lemma demo_version_printed: "discover_codex_client_version id demo_version_run = Inr ''0.1.2-rc.1''"
  by (simp add: discover_codex_client_version_def demo_version_run_def buffer_write_def codexVersionMaxText_def
      parse_codex_version_def demo_version_fields demo_semver)

definition demo_probe :: version_probe where
  "demo_probe = (new_version_probe ''codex'')\<lparr>vp_version := ''0.1.2-rc.1''\<rparr>"

text \<open>A check that cannot stat the executable keeps the version of the start.\<close>

theorem version_probe_sound_witness:
  "codex_semver ''0.1.2-rc.1'' \<and>
   fl_version (fst (begin_fetch (Some ''0.1.2-rc.1'')
     (new_catalog_client \<lparr>co_base_url = [], co_cache_file = [], co_ttl = 0, co_client_version = ''0.1.1''\<rparr>))) = ''0.1.2-rc.1''"
proof -
  have "resolve_codex_client_version (Some default_config) (Inl (PlainError ''gone''))
      (discover_codex_client_version id demo_version_run) 0 =
    (Inr (Some demo_probe), Some (default_config\<lparr>cf_codex := (cf_codex default_config)\<lparr>cx_client_version := ''0.1.2-rc.1''\<rparr>\<rparr>))"
    unfolding demo_version_printed
    by (simp add: resolve_codex_client_version_def default_config_def discover_initial_def demo_probe_def new_version_probe_def
        zero_fingerprint_def)
  then have "probe_reach id demo_probe {''0.1.2-rc.1''}"
    by (rule discovered [OF _ demo_version_printed])
  moreover have "client_version (Inl (PlainError ''gone'')) 1 (discover_codex_client_version id demo_version_run) False 1 demo_probe =
      (''0.1.2-rc.1'', False, demo_probe\<lparr>vp_stat_failing := True\<rparr>)"
    by (simp add: client_version_def demo_probe_def)
  ultimately show ?thesis
    using version_probe_sound [of id demo_probe _ _ 1 demo_version_run False 1 "''0.1.2-rc.1''" False _
        "new_catalog_client \<lparr>co_base_url = [], co_cache_file = [], co_ttl = 0, co_client_version = ''0.1.1''\<rparr>"]
    by blast
qed

end
